(* ===== verification/Nd_Prelude.thy ===== *)
theory Nd_Prelude
  imports Main "HOL-Library.Word"
begin

text \<open>
  Shared vocabulary of the development: the names of the machine types, the host faults
  that stand for the failures of the C and C++ code (a failed assertion, an access outside a host
  array, an undefined shift, ...), the sum-typed results with their sequencing combinator
  \<open>bnd\<close> and the partial-correctness predicate \<open>holds\<close>, the collections the proofs of all
  components use, and the bit lemmas they share.
\<close>

unbundle bit_operations_syntax

type_synonym u8 = "8 word"
type_synonym u16 = "16 word"
type_synonym u32 = "32 word"
type_synonym i32 = "32 word"
type_synonym u64 = "64 word"

section \<open>Faults and results\<close>

text \<open>
  A fault is a point where the host program has no defined next state: \<open>AssertFailure\<close> is a
  failed \<^verbatim>\<open>assert\<close>, \<open>ArrayOOB\<close> an access outside a host array, \<open>ShiftUB\<close> a shift of a
  32-bit value by 32 or more, \<open>StackOverflow\<close> the exhaustion of the bound on a
  recursion, \<open>Aborted\<close> a call of \<^verbatim>\<open>abort\<close>, \<open>NullDeref\<close> the use of a null pointer,
  and \<open>DivideByZero\<close> an integer division by 0. Signed additions, left shifts and negations of the code are
  taken in two's complement, as its compilers produce them.
\<close>

datatype fault = AssertFailure | ArrayOOB | ShiftUB | StackOverflow | Aborted | NullDeref | DivideByZero

type_synonym 'a res = "fault + 'a"

definition bnd :: "'a res \<Rightarrow> ('a \<Rightarrow> 'b res) \<Rightarrow> 'b res" where
  "bnd m f = (case m of Inl e \<Rightarrow> Inl e | Inr x \<Rightarrow> f x)"

lemma bnd_Inr [simp]: "bnd (Inr x) f = f x"
  by (simp add: bnd_def)

lemma bnd_Inl [simp]: "bnd (Inl e) f = Inl e"
  by (simp add: bnd_def)

lemma bnd_right [simp]: "bnd m Inr = m" "bnd m (\<lambda>x. Inr x) = m"
  by (cases m; simp)+

lemma bnd_eq_Inr: "bnd m f = Inr y \<longleftrightarrow> (\<exists>x. m = Inr x \<and> f x = Inr y)"
  by (cases m) auto

lemma bnd_eq_Inl: "bnd m f = Inl e \<longleftrightarrow> m = Inl e \<or> (\<exists>x. m = Inr x \<and> f x = Inl e)"
  by (cases m) auto

lemma bnd_assoc: "bnd (bnd m f) g = bnd m (\<lambda>x. bnd (f x) g)"
  by (cases m) auto

text \<open>\<open>holds P r\<close>: if the operation returns, its result satisfies \<open>P\<close>.\<close>

definition holds :: "('a \<Rightarrow> bool) \<Rightarrow> 'a res \<Rightarrow> bool" where
  "holds P r = (case r of Inl _ \<Rightarrow> True | Inr x \<Rightarrow> P x)"

lemma holds_Inr [simp]: "holds P (Inr x) = P x"
  by (simp add: holds_def)

lemma holds_Inl [simp]: "holds P (Inl e)"
  by (simp add: holds_def)

lemma holdsD: "holds P r \<Longrightarrow> r = Inr x \<Longrightarrow> P x"
  by (simp add: holds_def)

lemma holdsI: "(\<And>x. r = Inr x \<Longrightarrow> P x) \<Longrightarrow> holds P r"
  by (cases r) auto

lemma holds_mono: "holds P r \<Longrightarrow> (\<And>x. P x \<Longrightarrow> Q x) \<Longrightarrow> holds Q r"
  by (cases r) auto

lemma holds_bnd: "holds (\<lambda>x. holds Q (f x)) m \<Longrightarrow> holds Q (bnd m f)"
  by (cases m) auto

lemma holds_if: "(b \<Longrightarrow> holds Q x) \<Longrightarrow> (\<not> b \<Longrightarrow> holds Q y) \<Longrightarrow> holds Q (if b then x else y)"
  by simp

text \<open>\<open>returns P r\<close>: the operation returns (no host fault) and its result satisfies \<open>P\<close>.\<close>

definition returns :: "('a \<Rightarrow> bool) \<Rightarrow> 'a res \<Rightarrow> bool" where
  "returns P r = (case r of Inl _ \<Rightarrow> False | Inr x \<Rightarrow> P x)"

lemma returns_Inr [simp]: "returns P (Inr x) = P x"
  by (simp add: returns_def)

lemma returns_Inl [simp]: "\<not> returns P (Inl e)"
  by (simp add: returns_def)

lemma returns_iff: "returns P r \<longleftrightarrow> (\<exists>x. r = Inr x \<and> P x)"
  by (cases r) auto

lemma returns_mono: "returns P r \<Longrightarrow> (\<And>x. P x \<Longrightarrow> Q x) \<Longrightarrow> returns Q r"
  by (cases r) auto

lemma returns_bnd: "returns (\<lambda>x. returns Q (f x)) m \<Longrightarrow> returns Q (bnd m f)"
  by (cases m) auto

lemma returns_holds: "returns P r \<Longrightarrow> holds P r"
  by (cases r) auto

section \<open>Loops\<close>

text \<open>A loop over a list of indices.\<close>

fun each :: "('i \<Rightarrow> 's \<Rightarrow> 's res) \<Rightarrow> 'i list \<Rightarrow> 's \<Rightarrow> 's res" where
  "each f [] s = Inr s"
| "each f (i # is) s = bnd (f i s) (each f is)"

lemma each_append: "each f (xs @ ys) s = bnd (each f xs s) (each f ys)"
proof (induction xs arbitrary: s)
  case (Cons x xs)
  then have "each f (xs @ ys) = (\<lambda>s. bnd (each f xs s) (each f ys))" by (intro ext)
  then show ?case by (simp add: bnd_assoc)
qed simp

lemma each_returns:
  "(\<And>i s. i \<in> set is \<Longrightarrow> P s \<Longrightarrow> returns P (f i s)) \<Longrightarrow> P s \<Longrightarrow> returns P (each f is s)"
proof (induction "is" arbitrary: s)
  case (Cons i "is")
  obtain s1 where "f i s = Inr s1" "P s1" using Cons.prems(1) [of i s] Cons.prems(2) by (auto simp: returns_iff)
  then show ?case using Cons by simp
qed simp

section \<open>Host arrays\<close>

text \<open>
  A host array of \<open>n\<close> elements is a function on \<open>nat\<close>; an access with an index outside the
  array is the fault \<open>ArrayOOB\<close>.
\<close>

definition arr_get :: "nat \<Rightarrow> (nat \<Rightarrow> 'a) \<Rightarrow> nat \<Rightarrow> 'a res" where
  "arr_get n a i = (if i < n then Inr (a i) else Inl ArrayOOB)"

definition arr_put :: "nat \<Rightarrow> (nat \<Rightarrow> 'a) \<Rightarrow> nat \<Rightarrow> 'a \<Rightarrow> (nat \<Rightarrow> 'a) res" where
  "arr_put n a i v = (if i < n then Inr (a(i := v)) else Inl ArrayOOB)"

lemma arr_get_in [simp]: "i < n \<Longrightarrow> arr_get n a i = Inr (a i)"
  by (simp add: arr_get_def)

lemma arr_put_in [simp]: "i < n \<Longrightarrow> arr_put n a i v = Inr (a(i := v))"
  by (simp add: arr_put_def)

lemma holds_arr_get: "(\<And>x. holds Q (f x)) \<Longrightarrow> holds Q (bnd (arr_get n a i) f)"
  by (simp add: arr_get_def)

lemma holds_arr_put: "(\<And>x. holds Q (f x)) \<Longrightarrow> holds Q (bnd (arr_put n a i v) f)"
  by (simp add: arr_put_def)

section \<open>Bounds of masked values\<close>

lemma unat_and_le: "unat (x AND n) \<le> unat (n :: 'a::len word)"
  by (rule word_and_le1 [THEN word_le_nat_alt [THEN iffD1]])

lemma unat_and_less: "unat (n :: 'a::len word) < k \<Longrightarrow> unat (x AND n) < k"
  using unat_and_le [of x n] by (rule le_less_trans)

lemma unat_le_mask: "x AND m = x \<Longrightarrow> unat (x :: 'a::len word) \<le> unat m"
  using unat_and_le [of x m] by simp

lemma unat_index3:
  assumes "unat (a :: u32) \<le> n" "unat (i :: u32) \<le> 2" "n < 0x1000"
  shows "unat (a * 3 + i) = unat a * 3 + unat i"
  using assms by (simp add: unat_word_ariths)

lemma sint_small:
  assumes "unat (x :: u32) < 0x80000000"
  shows "sint x = int (unat x)"
proof -
  from assms have "uint x < 2 ^ 31"
    by (simp add: uint_nat del: of_nat_unat)
  moreover have "- (2 ^ 31) \<le> uint x"
    by (rule order_trans [OF _ uint_ge_0]) simp
  ultimately have "signed_take_bit 31 (uint x) = uint x"
    by (intro signed_take_bit_int_eq_self)
  then show ?thesis by (simp add: sint_uint)
qed

section \<open>Alignment\<close>

lemma and1_dvd: "x AND 1 = 0 \<longleftrightarrow> 2 dvd unat (x :: 'a::len word)"
  using and_mask_dvd_nat [of 1 x] by (simp add: mask_eq_exp_minus_1)

lemma and3_dvd: "x AND 3 = 0 \<longleftrightarrow> 4 dvd unat (x :: 'a::len word)"
  using and_mask_dvd_nat [of 2 x] by (simp add: mask_eq_exp_minus_1)

lemma and_zero_mono: "x AND k = 0 \<Longrightarrow> (x AND m) AND k = (0 :: 'a::len word)"
  by (metis and.assoc and.commute and_zero_eq)

text \<open>An aligned masked index leaves room for the other bytes of the access.\<close>

lemma aligned4_room:
  assumes "a AND 3 = (0 :: 'a::len word)" "unat (a AND m) < n" "4 dvd n"
  shows "unat (a AND m) + 3 < n"
proof -
  have "4 dvd unat (a AND m)" using assms(1) by (simp add: and3_dvd [symmetric] and_zero_mono)
  with assms(2,3) show ?thesis by presburger
qed

lemma aligned2_room:
  assumes "a AND 1 = (0 :: 'a::len word)" "unat (a AND m) < n" "2 dvd n"
  shows "unat (a AND m) + 1 < n"
proof -
  have "2 dvd unat (a AND m)" using assms(1) by (simp add: and1_dvd [symmetric] and_zero_mono)
  with assms(2,3) show ?thesis by presburger
qed

section \<open>Sign extension\<close>

text \<open>\<^verbatim>\<open>sign_ext\<close> of i860dec.cpp; callers pass an \<open>n\<close>-bit value.\<close>

definition sign_ext :: "u32 \<Rightarrow> nat \<Rightarrow> u32" where
  "sign_ext x n = (let t = drop_bit (n - 1) x in (push_bit n (- t)) OR x)"

end
