(* ===== verification/Nd_Ramdac.thy ===== *)
theory Nd_Ramdac
  imports Nd_Prelude
begin

text \<open>
  The Brooktree Bt463 RAMDAC of src/ramdac.c: the record of \<^verbatim>\<open>bt463\<close>, the
  auto-increment of its address and component index, the register, cursor colour, window type
  and palette accesses and the host interface \<^verbatim>\<open>bt463_bget\<close> and \<^verbatim>\<open>bt463_bput\<close>. The
  invariant \<open>bt463_ok\<close> bounds the address and the index, which keeps every access
  inside the arrays of the record.
\<close>

record bt463 =
  bt_addr :: u32
  bt_idx :: u32
  wtt_tmp :: u32
  bt_wtt :: "nat \<Rightarrow> u32"
  bt_ccr :: "nat \<Rightarrow> u8"
  bt_reg :: "nat \<Rightarrow> u8"
  bt_ram :: "nat \<Rightarrow> u8"

definition bt463_autoinc :: "bt463 \<Rightarrow> bt463" where
  "bt463_autoinc r =
     (let r1 = r\<lparr>bt_idx := bt_idx r + 1\<rparr>
      in if sint (bt_idx r1) > 2
         then r1\<lparr>bt_idx := 0, bt_addr := (bt_addr r1 + 1) AND 0x0FFF\<rparr>
         else r1)"

definition bt463_autoinc_reg :: "bt463 \<Rightarrow> bt463" where
  "bt463_autoinc_reg r = r\<lparr>bt_idx := 0, bt_addr := (bt_addr r + 1) AND 0x0FFF\<rparr>"

text \<open>Registers.\<close>

definition bt463_read_reg :: "bt463 \<Rightarrow> (u32 \<times> bt463) res" where
  "bt463_read_reg r =
     (if (bt_addr r AND 0xFF) < 0x10 then
        (let a = bt_addr r AND 0x0F
         in if a = 0x0 then Inr (0x2A, bt463_autoinc_reg r)
            else if a = 0xe \<or> a = 0xf then
              bnd (arr_get 0x30 (bt_reg r) (unat (a * 3 + bt_idx r)))
                (\<lambda>v. Inr (ucast v, bt463_autoinc r))
            else
              bnd (arr_get 0x30 (bt_reg r) (unat (a * 3)))
                (\<lambda>v. Inr (ucast v, bt463_autoinc_reg r)))
      else if (bt_addr r AND 0xFF) = 0x20 then Inr (0x0A, bt463_autoinc_reg r)
      else Inr (0, r))"

definition bt463_write_reg :: "bt463 \<Rightarrow> u32 \<Rightarrow> bt463 res" where
  "bt463_write_reg r val =
     (if (bt_addr r AND 0xFF) < 0x10 then
        (let a = bt_addr r AND 0x0F
         in if a = 0x0 then Inr (bt463_autoinc_reg r)
            else if a = 0xe \<or> a = 0xf then
              bnd (arr_put 0x30 (bt_reg r) (unat (a * 3 + bt_idx r)) (ucast (val AND 0xFF)))
                (\<lambda>m. Inr (bt463_autoinc (r\<lparr>bt_reg := m\<rparr>)))
            else
              bnd (arr_put 0x30 (bt_reg r) (unat (a * 3)) (ucast (val AND 0xFF)))
                (\<lambda>m. Inr (bt463_autoinc_reg (r\<lparr>bt_reg := m\<rparr>))))
      else Inr r)"

text \<open>Cursor colours: four entries can be written, two can be read back.\<close>

definition bt463_read_ccr :: "bt463 \<Rightarrow> (u32 \<times> bt463) res" where
  "bt463_read_ccr r =
     (if (bt_addr r AND 0xFF) < 2 then
        bnd (arr_get 0xC (bt_ccr r) (unat ((bt_addr r AND 1) * 3 + bt_idx r)))
          (\<lambda>v. Inr (ucast v, bt463_autoinc r))
      else Inr (0, r))"

definition bt463_write_ccr :: "bt463 \<Rightarrow> u32 \<Rightarrow> bt463 res" where
  "bt463_write_ccr r val =
     (if (bt_addr r AND 0xFF) < 4 then
        bnd (arr_put 0xC (bt_ccr r) (unat ((bt_addr r AND 3) * 3 + bt_idx r)) (ucast (val AND 0xFF)))
          (\<lambda>m. Inr (bt463_autoinc (r\<lparr>bt_ccr := m\<rparr>)))
      else Inr r)"

text \<open>Window type table: three byte accesses through \<open>wtt_tmp\<close> read or write one entry.\<close>

definition bt463_read_wtt :: "bt463 \<Rightarrow> (u32 \<times> bt463) res" where
  "bt463_read_wtt r =
     (if (bt_addr r AND 0xFF) < 0x10 then
        (if bt_idx r = 0 then
           bnd (arr_get 0x10 (bt_wtt r) (unat (bt_addr r AND 0x0F)))
             (\<lambda>w. Inr (w AND 0xFF, bt463_autoinc (r\<lparr>wtt_tmp := w\<rparr>)))
         else if bt_idx r = 1 then Inr (drop_bit 8 (wtt_tmp r) AND 0xFF, bt463_autoinc r)
         else if bt_idx r = 2 then Inr (drop_bit 16 (wtt_tmp r) AND 0xFF, bt463_autoinc r)
         else Inr (0, bt463_autoinc r))
      else Inr (0, r))"

definition bt463_write_wtt :: "bt463 \<Rightarrow> u32 \<Rightarrow> bt463 res" where
  "bt463_write_wtt r val =
     (if (bt_addr r AND 0xFF) < 0x10 then
        (if bt_idx r = 0 then Inr (bt463_autoinc (r\<lparr>wtt_tmp := val AND 0x0000FF\<rparr>))
         else if bt_idx r = 1 then
           Inr (bt463_autoinc (r\<lparr>wtt_tmp := wtt_tmp r OR (push_bit 8 val AND 0x00FF00)\<rparr>))
         else if bt_idx r = 2 then
           (let t = wtt_tmp r OR (push_bit 16 val AND 0xFF0000)
            in bnd (arr_put 0x10 (bt_wtt r) (unat (bt_addr r AND 0x0F)) t)
                 (\<lambda>m. Inr (bt463_autoinc (r\<lparr>wtt_tmp := t, bt_wtt := m\<rparr>))))
         else Inr (bt463_autoinc r))
      else Inr r)"

text \<open>Palette RAM. The signed comparison of the code is on a value of at most 0xFFF.\<close>

definition bt463_read_palette :: "bt463 \<Rightarrow> (u32 \<times> bt463) res" where
  "bt463_read_palette r =
     (if sint (bt_addr r) < 0x210 then
        bnd (arr_get 0x630 (bt_ram r) (unat (bt_addr r * 3 + bt_idx r)))
          (\<lambda>v. Inr (ucast v, bt463_autoinc r))
      else Inr (0, bt463_autoinc r))"

definition bt463_write_palette :: "bt463 \<Rightarrow> u32 \<Rightarrow> bt463 res" where
  "bt463_write_palette r val =
     (if sint (bt_addr r) < 0x210 then
        bnd (arr_put 0x630 (bt_ram r) (unat (bt_addr r * 3 + bt_idx r)) (ucast (val AND 0xFF)))
          (\<lambda>m. Inr (bt463_autoinc (r\<lparr>bt_ram := m\<rparr>)))
      else Inr (bt463_autoinc r))"

text \<open>Host interface.\<close>

definition bt463_bget :: "bt463 \<Rightarrow> u32 \<Rightarrow> (u32 \<times> bt463) res" where
  "bt463_bget r addr =
     (let c = addr AND 0xF
      in if c = 0 then Inr (bt_addr r AND 0xFF, r\<lparr>bt_idx := 0\<rparr>)
         else if c = 4 then Inr (drop_bit 8 (bt_addr r) AND 0x0F, r\<lparr>bt_idx := 0\<rparr>)
         else if c = 8 then
           (let b = bt_addr r AND 0x0F00
            in if b = 0x0100 then bt463_read_ccr r
               else if b = 0x0200 then bt463_read_reg r
               else if b = 0x0300 then bt463_read_wtt r
               else Inr (0, r))
         else if c = 0xC then bt463_read_palette r
         else Inr (0, r))"

definition bt463_bput :: "bt463 \<Rightarrow> u32 \<Rightarrow> u32 \<Rightarrow> bt463 res" where
  "bt463_bput r addr b =
     (let c = addr AND 0xF
      in if c = 0 then Inr (r\<lparr>bt_addr := (bt_addr r AND 0x0F00) OR (b AND 0xFF), bt_idx := 0\<rparr>)
         else if c = 4 then
           Inr (r\<lparr>bt_addr := (bt_addr r AND 0x00FF) OR push_bit 8 (b AND 0x0F), bt_idx := 0\<rparr>)
         else if c = 8 then
           (let t = bt_addr r AND 0x0F00
            in if t = 0x0100 then bt463_write_ccr r b
               else if t = 0x0200 then bt463_write_reg r b
               else if t = 0x0300 then bt463_write_wtt r b
               else Inr r)
         else if c = 0xC then bt463_write_palette r b
         else Inr r)"

section \<open>The invariant of the RAMDAC\<close>

definition bt463_ok :: "bt463 \<Rightarrow> bool" where
  "bt463_ok r \<longleftrightarrow> unat (bt_addr r) \<le> 0xFFF \<and> unat (bt_idx r) \<le> 2"

lemma bt463_autoinc_ok: "bt463_ok r \<Longrightarrow> bt463_ok (bt463_autoinc r)"
proof -
  assume ok: "bt463_ok r"
  then have idx: "unat (bt_idx r + 1) = unat (bt_idx r) + 1"
    by (simp add: bt463_ok_def unat_word_ariths)
  have "unat ((bt_addr r + 1) AND 0xFFF) \<le> 0xFFF"
    using unat_and_le [of "bt_addr r + 1" "0xFFF :: u32"] by simp
  with ok idx show ?thesis
    by (auto simp: bt463_ok_def bt463_autoinc_def Let_def sint_small uint_nat simp del: of_nat_unat)
qed

lemma bt463_autoinc_reg_ok: "bt463_ok r \<Longrightarrow> bt463_ok (bt463_autoinc_reg r)"
  using unat_and_le [of "bt_addr r + 1" "0xFFF :: u32"]
  by (simp add: bt463_ok_def bt463_autoinc_reg_def)

lemmas bt463_incs = bt463_autoinc_ok bt463_autoinc_reg_ok

text \<open>An update of an array or of \<open>wtt_tmp\<close> keeps the invariant.\<close>

lemma bt463_ok_updates [simp]:
  "bt463_ok (r\<lparr>bt_reg := m\<rparr>) = bt463_ok r"
  "bt463_ok (r\<lparr>bt_ccr := m\<rparr>) = bt463_ok r"
  "bt463_ok (r\<lparr>bt_ram := m\<rparr>) = bt463_ok r"
  "bt463_ok (r\<lparr>bt_wtt := w\<rparr>) = bt463_ok r"
  "bt463_ok (r\<lparr>wtt_tmp := t\<rparr>) = bt463_ok r"
  by (simp_all add: bt463_ok_def)

text \<open>The indices the accesses use, under the invariant.\<close>

lemma bt463_index:
  assumes "bt463_ok r"
  shows "unat ((bt_addr r AND 0x0F) * 3 + bt_idx r) < 0x30"
    and "unat ((bt_addr r AND 0x0F) * 3) < 0x30"
    and "unat ((bt_addr r AND 1) * 3 + bt_idx r) < 0xC"
    and "unat ((bt_addr r AND 3) * 3 + bt_idx r) < 0xC"
    and "unat (bt_addr r AND 0x0F) < 0x10"
proof -
  have i: "unat (bt_idx r) \<le> 2" using assms by (simp add: bt463_ok_def)
  have m: "unat (bt_addr r AND 0x0F) \<le> 15" "unat (bt_addr r AND 1) \<le> 1"
    "unat (bt_addr r AND 3) \<le> 3"
    using unat_and_le [of "bt_addr r" 15] unat_and_le [of "bt_addr r" 1]
      unat_and_le [of "bt_addr r" 3] by simp_all
  show "unat ((bt_addr r AND 0x0F) * 3 + bt_idx r) < 0x30"
    using unat_index3 [OF m(1) i] m(1) i by simp
  show "unat ((bt_addr r AND 0x0F) * 3) < 0x30"
    using unat_index3 [OF m(1), of 0] m(1) by simp
  show "unat ((bt_addr r AND 1) * 3 + bt_idx r) < 0xC"
    using unat_index3 [OF m(2) i] m(2) i by simp
  show "unat ((bt_addr r AND 3) * 3 + bt_idx r) < 0xC"
    using unat_index3 [OF m(3) i] m(3) i by simp
  show "unat (bt_addr r AND 0x0F) < 0x10" using m(1) by simp
qed

lemma bt463_palette_index:
  assumes "bt463_ok r" "sint (bt_addr r) < 0x210"
  shows "unat (bt_addr r * 3 + bt_idx r) < 0x630"
proof -
  have a: "unat (bt_addr r) \<le> 0xFFF" and i: "unat (bt_idx r) \<le> 2"
    using assms(1) by (simp_all add: bt463_ok_def)
  have "unat (bt_addr r) < 0x210"
    using assms(2) a by (simp add: sint_small uint_nat del: of_nat_unat)
  with unat_index3 [OF a i] i show ?thesis by simp
qed

lemmas bt463_access_defs =
  bt463_read_reg_def bt463_write_reg_def bt463_read_ccr_def bt463_write_ccr_def
  bt463_read_wtt_def bt463_write_wtt_def bt463_read_palette_def bt463_write_palette_def

lemma bt463_accesses_return:
  assumes "bt463_ok r"
  shows "returns (\<lambda>(v, r'). bt463_ok r') (bt463_read_reg r)"
    and "returns bt463_ok (bt463_write_reg r b)"
    and "returns (\<lambda>(v, r'). bt463_ok r') (bt463_read_ccr r)"
    and "returns bt463_ok (bt463_write_ccr r b)"
    and "returns (\<lambda>(v, r'). bt463_ok r') (bt463_read_wtt r)"
    and "returns bt463_ok (bt463_write_wtt r b)"
    and "returns (\<lambda>(v, r'). bt463_ok r') (bt463_read_palette r)"
    and "returns bt463_ok (bt463_write_palette r b)"
  using assms
  by (simp_all add: bt463_access_defs Let_def bt463_index bt463_palette_index bt463_incs)

lemma bt463_bget_returns:
  assumes "bt463_ok r"
  shows "returns (\<lambda>(v, r'). bt463_ok r') (bt463_bget r addr)"
  using assms bt463_accesses_return [OF assms]
  by (auto simp: bt463_bget_def Let_def bt463_ok_def)

lemma bt463_bput_returns:
  assumes "bt463_ok r"
  shows "returns bt463_ok (bt463_bput r addr b)"
proof -
  have "unat (bt_addr r AND 0x0F00 OR b AND 0xFF) \<le> 0xFFF"
    using unat_le_mask [of "bt_addr r AND 0x0F00 OR b AND 0xFF" "0xFFF"]
    by (simp add: bit.conj_disj_distrib2 and.assoc)
  moreover have "unat (bt_addr r AND 0x00FF OR push_bit 8 (b AND 0x0F)) \<le> 0xFFF"
    using unat_le_mask [of "bt_addr r AND 0x00FF OR push_bit 8 (b AND 0x0F)" "0xFFF"]
    by (simp add: bit.conj_disj_distrib2 and.assoc push_bit_and)
  ultimately show ?thesis
    using assms bt463_accesses_return [OF assms]
    by (auto simp: bt463_bput_def Let_def bt463_ok_def)
qed

section \<open>Sequences of host accesses\<close>

datatype bt_access = BGet u32 | BPut u32 u32

text \<open>A sequence of host accesses, with the values the reads return.\<close>

fun bt463_trace :: "bt_access list \<Rightarrow> bt463 \<Rightarrow> (u32 list \<times> bt463) res" where
  "bt463_trace [] r = Inr ([], r)"
| "bt463_trace (BGet a # as) r =
     bnd (bt463_bget r a) (\<lambda>(v, r1). bnd (bt463_trace as r1) (\<lambda>(vs, r2). Inr (v # vs, r2)))"
| "bt463_trace (BPut a v # as) r = bnd (bt463_bput r a v) (bt463_trace as)"

text \<open>The statically zeroed device.\<close>

definition bt463_zero :: bt463 where
  "bt463_zero = \<lparr>bt_addr = 0, bt_idx = 0, wtt_tmp = 0, bt_wtt = (\<lambda>_. 0), bt_ccr = (\<lambda>_. 0),
     bt_reg = (\<lambda>_. 0), bt_ram = (\<lambda>_. 0)\<rparr>"

lemma bt463_zero_ok: "bt463_ok bt463_zero"
  by (simp add: bt463_zero_def bt463_ok_def)

lemma bt463_trace_returns: "bt463_ok r \<Longrightarrow> returns (\<lambda>(vs, r'). bt463_ok r') (bt463_trace as r)"
proof (induction as arbitrary: r)
  case (Cons x as)
  show ?case
  proof (cases x)
    case (BGet a)
    then show ?thesis using Cons.IH bt463_bget_returns [OF Cons.prems, of a]
      by (force simp: returns_iff)
  next
    case (BPut a v)
    then show ?thesis using Cons.IH bt463_bput_returns [OF Cons.prems, of a v]
      by (force simp: returns_iff)
  qed
qed simp

section \<open>A palette entry reads back\<close>

text \<open>The two writes that set the address, and where they lead.\<close>

definition bt463_select :: "u32 \<Rightarrow> bt_access list" where
  "bt463_select a = [BPut 0 a, BPut 4 (drop_bit 8 a)]"

lemma addr_halves: "(a :: u32) < 0x210 \<Longrightarrow> (x AND 0xF00 OR a AND 0xFF) AND 0xFF OR push_bit 8 (drop_bit 8 a AND 0xF) = a"
proof -
  assume "a < 0x210"
  then have "unat a < 2 ^ 12" by (simp add: word_less_nat_alt)
  then have t: "take_bit 12 a = a"
    by (intro word_unat_eq_iff [THEN iffD2]) (simp add: unsigned_take_bit_eq take_bit_nat_eq_self)
  have m: "(0xF00 :: u32) = push_bit 8 (mask 4)" "(0xFF :: u32) = mask 8" "(0xF :: u32) = mask 4"
    by (simp_all add: mask_eq_exp_minus_1)
  have b: "bit a n \<Longrightarrow> n < 12" for n
    by (subst (asm) t [symmetric]) (simp add: bit_simps)
  show ?thesis unfolding m
    by (rule bit_word_eqI) (auto simp: bit_simps dest: b)
qed

lemma bt463_select_trace:
  "a < 0x210 \<Longrightarrow> bt463_trace (bt463_select a @ as) r = bt463_trace as (r\<lparr>bt_addr := a, bt_idx := 0\<rparr>)"
  using addr_halves [of a "bt_addr r"]
  by (simp add: bt463_select_def bt463_bput_def Let_def)

lemma sint_of_palette_addr: "(a :: u32) < 0x210 \<Longrightarrow> sint a < 0x210"
  by (subst sint_small) (auto simp: word_less_nat_alt uint_nat simp del: of_nat_unat)

lemma palette_index: "(a :: u32) < 0x210 \<Longrightarrow> unat i \<le> 2 \<Longrightarrow> unat (a * 3 + i) = unat a * 3 + unat i"
  by (rule unat_index3 [of _ "0x210"]) (auto simp: word_less_nat_alt)

lemma bt463_palette_write3:
  assumes "a < 0x210" "bt_addr r = a" "bt_idx r = 0"
  obtains r' where
    "\<And>as. bt463_trace ([BPut 0xC x, BPut 0xC y, BPut 0xC z] @ as) r = bt463_trace as r'"
    "bt_ram r' = (bt_ram r)(unat a * 3 := ucast (x AND 0xFF),
       unat a * 3 + 1 := ucast (y AND 0xFF), unat a * 3 + 2 := ucast (z AND 0xFF))"
proof (rule that)
  let ?m = "(bt_ram r)(unat a * 3 := ucast (x AND 0xFF),
       unat a * 3 + 1 := ucast (y AND 0xFF), unat a * 3 + 2 := ucast (z AND 0xFF))"
  show "bt463_trace ([BPut 0xC x, BPut 0xC y, BPut 0xC z] @ as) r =
      bt463_trace as (r\<lparr>bt_ram := ?m, bt_idx := 0, bt_addr := (a + 1) AND 0xFFF\<rparr>)" for as
    using assms palette_index [of a 0] palette_index [of a 1] palette_index [of a 2]
    by (simp add: bt463_bput_def bt463_write_palette_def bt463_autoinc_def sint_of_palette_addr
        word_less_nat_alt Let_def)
qed simp

lemma bt463_palette_read3:
  assumes "a < 0x210" "bt_addr r = a" "bt_idx r = 0"
  shows "bt463_trace [BGet 0xC, BGet 0xC, BGet 0xC] r =
    Inr ([ucast (bt_ram r (unat a * 3)), ucast (bt_ram r (unat a * 3 + 1)),
          ucast (bt_ram r (unat a * 3 + 2))], r\<lparr>bt_idx := 0, bt_addr := (a + 1) AND 0xFFF\<rparr>)"
  using assms palette_index [of a 0] palette_index [of a 1] palette_index [of a 2]
  by (simp add: bt463_bget_def bt463_read_palette_def bt463_autoinc_def sint_of_palette_addr
      word_less_nat_alt Let_def)

text \<open>
  Whatever bytes the host sends to the RAMDAC and in whatever order it reads, no access
  leaves the arrays of the device: every sequence of accesses to the zeroed device returns.
\<close>

theorem bt463_never_out_of_bounds: "\<exists>vs r'. bt463_trace as bt463_zero = Inr (vs, r')"
  using bt463_trace_returns [OF bt463_zero_ok, of as] by (auto simp: returns_iff)

text \<open>
  A palette entry written byte by byte (red, green, blue) after its address has been set
  reads back as the same three bytes once the address is set again.
\<close>

theorem bt463_palette_roundtrip:
  assumes "a < 0x210"
  shows "\<exists>r'. bt463_trace (bt463_select a @ [BPut 0xC x, BPut 0xC y, BPut 0xC z] @
           bt463_select a @ [BGet 0xC, BGet 0xC, BGet 0xC]) r
         = Inr ([x AND 0xFF, y AND 0xFF, z AND 0xFF], r')"
proof -
  have m: "ucast (ucast (v AND 0xFF) :: u8) = v AND (0xFF :: u32)" for v
  proof -
    have e: "(0xFF :: u32) = mask 8" by (simp add: mask_eq_exp_minus_1)
    show ?thesis unfolding e by (rule bit_word_eqI) (auto simp: bit_simps)
  qed
  let ?r1 = "r\<lparr>bt_addr := a, bt_idx := 0\<rparr>"
  let ?rd = "bt463_select a @ [BGet 0xC, BGet 0xC, BGet 0xC]"
  obtain r2 where r2: "\<And>as. bt463_trace ([BPut 0xC x, BPut 0xC y, BPut 0xC z] @ as) ?r1 = bt463_trace as r2"
    "bt_ram r2 = (bt_ram ?r1)(unat a * 3 := ucast (x AND 0xFF), unat a * 3 + 1 := ucast (y AND 0xFF),
        unat a * 3 + 2 := ucast (z AND 0xFF))"
    by (rule bt463_palette_write3 [OF assms, of ?r1 x y z]) auto
  show ?thesis
    unfolding bt463_select_trace [OF assms] r2(1)
    using bt463_palette_read3 [OF assms, of "r2\<lparr>bt_addr := a, bt_idx := 0\<rparr>"] by (simp add: r2(2) m)
qed

theorem bt463_palette_roundtrip_witness:
  "\<exists>r'. bt463_trace (bt463_select 0x20F @ [BPut 0xC 0x11, BPut 0xC 0x122, BPut 0xC 0x33] @
     bt463_select 0x20F @ [BGet 0xC, BGet 0xC, BGet 0xC]) bt463_zero = Inr ([0x11, 0x22, 0x33], r')"
  using bt463_palette_roundtrip [of "0x20F" "0x11" "0x122" "0x33" bt463_zero] by simp

end
