(* ===== verification/Nd_Devs.thy ===== *)
theory Nd_Devs
  imports Nd_Ramdac
begin

text \<open>
  The devices of the NeXTdimension board (src/dimension/nd_devs.c, nd_vio.c and the interrupt
  part of nd_nbic.c): the registers of the memory controller, the data path with its IIC bus
  master, the video devices on that bus, the interrupt bits of the NBIC, and the message port
  of the i860 that register writes post to (\<^verbatim>\<open>send_msg\<close> of i860.cpp). The devices are
  one record \<open>nd_devs\<close>; every handler is a function on it. Logging is left out.
\<close>

section \<open>State\<close>

record nd_mc =
  mc_csr0 :: u32
  mc_csr1 :: u32
  mc_csr2 :: u32
  mc_sid :: u32
  mc_dma_csr :: u32
  mc_dma_start :: u32
  mc_dma_width :: u32
  mc_dma_pstart :: u32
  mc_dma_pwidth :: u32
  mc_dma_sstart :: u32
  mc_dma_swidth :: u32
  mc_dma_bsstart :: u32
  mc_dma_bswidth :: u32
  mc_dma_top :: u32
  mc_dma_bottom :: u32
  mc_dma_line_a :: u32
  mc_dma_curr_a :: u32
  mc_dma_scurr_a :: u32
  mc_dma_out_a :: u32
  mc_vram :: u32
  mc_dram :: u32

record nd_dp =
  iic_addr :: u8
  iic_msg :: u8
  iic_msgsz :: u32
  iic_busy :: int
  dp_doff :: u32
  dp_csr :: u32
  dp_alpha :: u32
  dp_dma :: u32
  dp_cpu_x :: u32
  dp_cpu_y :: u32
  dp_dma_x :: u32
  dp_dma_y :: u32
  iic_stat_addr :: u32
  iic_data :: u32

record dmcd =
  dmcd_addr :: u8
  dmcd_reg :: "nat \<Rightarrow> u8"

record dcsc =
  dcsc_addr :: u8
  dcsc_ctrl :: u8
  lut_r :: "nat \<Rightarrow> u8"
  lut_g :: "nat \<Rightarrow> u8"
  lut_b :: "nat \<Rightarrow> u8"

record nd_nbic =
  nbic_control :: u32
  nbic_id :: u32
  nbic_intstatus :: u8
  nbic_intmask :: u8

record nd_devs =
  d_mc :: nd_mc
  d_dp :: nd_dp
  d_dmcd :: dmcd
  d_dcsc :: "nat \<Rightarrow> dcsc"
  d_ramdac :: bt463
  d_nbic :: nd_nbic
  m_port :: u32

section \<open>The message port of the i860\<close>

abbreviation "MSG_NONE \<equiv> (0x00 :: u32)"
abbreviation "MSG_I860_RESET \<equiv> (1 :: u32)"
abbreviation "MSG_I860_KILL \<equiv> (0x02 :: u32)"
abbreviation "MSG_DBG_BREAK \<equiv> (0x04 :: u32)"
abbreviation "MSG_INTR \<equiv> (0x08 :: u32)"
abbreviation "MSG_DISPLAY_BLANK \<equiv> (0x10 :: u32)"
abbreviation "MSG_VIDEO_BLANK \<equiv> (0x20 :: u32)"

definition send_msg :: "u32 \<Rightarrow> nd_devs \<Rightarrow> nd_devs" where
  "send_msg msg d = d\<lparr>m_port := m_port d OR msg\<rparr>"

definition i860_reset_msg :: "nd_devs \<Rightarrow> nd_devs" where
  "i860_reset_msg d = send_msg MSG_I860_RESET d"

definition i860_interrupt_msg :: "nd_devs \<Rightarrow> nd_devs" where
  "i860_interrupt_msg d = send_msg MSG_INTR d"

section \<open>NBIC interrupt bits\<close>

abbreviation "ND_NBIC_INTR \<equiv> (0x80 :: u8)"

definition nd_nbic_set_intstatus :: "bool \<Rightarrow> nd_devs \<Rightarrow> nd_devs" where
  "nd_nbic_set_intstatus st d =
     (let n = d_nbic d
      in d\<lparr>d_nbic := n\<lparr>nbic_intstatus :=
            (if st then nbic_intstatus n OR ND_NBIC_INTR
             else nbic_intstatus n AND NOT ND_NBIC_INTR)\<rparr>\<rparr>)"

definition nd_nbic_init :: "nd_nbic \<Rightarrow> nd_nbic" where
  "nd_nbic_init n = n\<lparr>nbic_id := 0xC0000001, nbic_intmask := 0, nbic_intstatus := 0\<rparr>"

text \<open>The level \<^verbatim>\<open>nd_nbic_interrupt\<close> drives on the m68k's remote interrupt line.\<close>

definition nd_nbic_interrupt :: "nd_nbic \<Rightarrow> bool" where
  "nd_nbic_interrupt n \<longleftrightarrow> nbic_intmask n AND nbic_intstatus n AND ND_NBIC_INTR \<noteq> 0"

section \<open>Memory controller\<close>

abbreviation "CSR0_i860PIN_RESET \<equiv> (1 :: u32)"
abbreviation "CSR0_i860PIN_CS8 \<equiv> (0x00000002 :: u32)"
abbreviation "CSR0_i860_IMASK \<equiv> (0x00000004 :: u32)"
abbreviation "CSR0_i860_INT \<equiv> (0x00000008 :: u32)"
abbreviation "CSR0_BE_IMASK \<equiv> (0x00000010 :: u32)"
abbreviation "CSR0_BE_INT \<equiv> (0x00000020 :: u32)"
abbreviation "CSR0_VBL_IMASK \<equiv> (0x00000040 :: u32)"
abbreviation "CSR0_VBL_INT \<equiv> (0x00000080 :: u32)"
abbreviation "CSR0_VBLANK \<equiv> (0x00000100 :: u32)"
abbreviation "CSR0_VIOVBL_IMASK \<equiv> (0x00000200 :: u32)"
abbreviation "CSR0_VIOVBL_INT \<equiv> (0x00000400 :: u32)"
abbreviation "CSR0_VIOBLANK \<equiv> (0x00000800 :: u32)"

definition nd_mc_read_register :: "nd_mc \<Rightarrow> u32 \<Rightarrow> u32" where
  "nd_mc_read_register m addr =
     (let a = addr AND 0x3FFF
      in if a = 0x0000 then mc_csr0 m
         else if a = 0x0010 then mc_csr1 m
         else if a = 0x0020 then mc_csr2 m
         else if a = 0x0030 then mc_sid m
         else if a = 0x1000 then mc_dma_csr m
         else if a = 0x1010 then mc_dma_start m
         else if a = 0x1020 then mc_dma_width m
         else if a = 0x1030 then mc_dma_pstart m
         else if a = 0x1040 then mc_dma_pwidth m
         else if a = 0x1050 then mc_dma_sstart m
         else if a = 0x1060 then mc_dma_swidth m
         else if a = 0x1070 then mc_dma_bsstart m
         else if a = 0x1080 then mc_dma_bswidth m
         else if a = 0x1090 then mc_dma_top m
         else if a = 0x10A0 then mc_dma_bottom m
         else if a = 0x10B0 then mc_dma_line_a m
         else if a = 0x10C0 then mc_dma_curr_a m
         else if a = 0x10D0 then mc_dma_line_a m
         else if a = 0x10E0 then mc_dma_scurr_a m
         else if a = 0x10F0 then mc_dma_out_a m
         else if a = 0x2000 then mc_vram m
         else if a = 0x3000 then mc_dram m
         else 0)"

definition nd_mc_write_csr0 :: "nd_devs \<Rightarrow> u32 \<Rightarrow> nd_devs" where
  "nd_mc_write_csr0 d val =
     (let d1 = (if val AND CSR0_i860PIN_RESET \<noteq> 0 then i860_reset_msg d else d);
          v = (if val AND CSR0_i860PIN_RESET \<noteq> 0 then val AND NOT CSR0_i860PIN_RESET else val);
          d2 = (if v AND CSR0_i860_INT \<noteq> 0 \<and> v AND CSR0_i860_IMASK \<noteq> 0
                then i860_interrupt_msg d1 else d1);
          d3 = (if v AND CSR0_BE_INT \<noteq> 0 \<and> v AND CSR0_BE_IMASK \<noteq> 0
                then i860_interrupt_msg d2 else d2)
      in d3\<lparr>d_mc := (d_mc d3)\<lparr>mc_csr0 := v\<rparr>\<rparr>)"

definition nd_mc_write_register :: "nd_devs \<Rightarrow> u32 \<Rightarrow> u32 \<Rightarrow> nd_devs" where
  "nd_mc_write_register d addr val =
     (let a = addr AND 0x3FFF; m = d_mc d; put = (\<lambda>m'. d\<lparr>d_mc := m'\<rparr>)
      in if a = 0x0000 then nd_mc_write_csr0 d val
         else if a = 0x0010 then
           (let d1 = put (m\<lparr>mc_csr1 := val\<rparr>)
            in nd_nbic_set_intstatus (val AND 1 \<noteq> 0) d1)
         else if a = 0x0020 then put (m\<lparr>mc_csr2 := val\<rparr>)
         else if a = 0x0030 then put (m\<lparr>mc_sid := val\<rparr>)
         else if a = 0x1000 then put (m\<lparr>mc_dma_csr := val\<rparr>)
         else if a = 0x1010 then put (m\<lparr>mc_dma_start := val\<rparr>)
         else if a = 0x1020 then put (m\<lparr>mc_dma_width := val\<rparr>)
         else if a = 0x1030 then put (m\<lparr>mc_dma_pstart := val\<rparr>)
         else if a = 0x1040 then put (m\<lparr>mc_dma_pwidth := val\<rparr>)
         else if a = 0x1050 then put (m\<lparr>mc_dma_sstart := val\<rparr>)
         else if a = 0x1060 then put (m\<lparr>mc_dma_swidth := val\<rparr>)
         else if a = 0x1070 then put (m\<lparr>mc_dma_bsstart := val\<rparr>)
         else if a = 0x1080 then put (m\<lparr>mc_dma_bswidth := val\<rparr>)
         else if a = 0x1090 then put (m\<lparr>mc_dma_top := val\<rparr>)
         else if a = 0x10A0 then put (m\<lparr>mc_dma_bottom := val\<rparr>)
         else if a = 0x10B0 then put (m\<lparr>mc_dma_line_a := val\<rparr>)
         else if a = 0x10C0 then put (m\<lparr>mc_dma_curr_a := val\<rparr>)
         else if a = 0x10D0 then put (m\<lparr>mc_dma_line_a := val\<rparr>)
         else if a = 0x10E0 then put (m\<lparr>mc_dma_scurr_a := val\<rparr>)
         else if a = 0x10F0 then put (m\<lparr>mc_dma_out_a := val\<rparr>)
         else if a = 0x2000 then put (m\<lparr>mc_vram := val\<rparr>)
         else if a = 0x3000 then put (m\<lparr>mc_dram := val\<rparr>)
         else d)"

text \<open>Vertical blanking of the display (\<open>True\<close>) and of the video output (\<open>False\<close>).\<close>

definition nd_set_blank_state :: "bool \<Rightarrow> bool \<Rightarrow> nd_devs \<Rightarrow> nd_devs" where
  "nd_set_blank_state display state d =
     (let m = d_mc d;
          on = (if display then CSR0_VBL_INT OR CSR0_VBLANK else CSR0_VIOVBL_INT OR CSR0_VIOBLANK);
          imask = (if display then CSR0_VBL_IMASK else CSR0_VIOVBL_IMASK);
          blank = (if display then CSR0_VBLANK else CSR0_VIOBLANK)
      in if state then
           (let d1 = d\<lparr>d_mc := m\<lparr>mc_csr0 := mc_csr0 m OR on\<rparr>\<rparr>
            in if mc_csr0 (d_mc d1) AND imask \<noteq> 0 then i860_interrupt_msg d1 else d1)
         else d\<lparr>d_mc := m\<lparr>mc_csr0 := mc_csr0 m AND NOT blank\<rparr>\<rparr>)"

section \<open>Video devices on the IIC bus\<close>

definition dmcd_write :: "dmcd \<Rightarrow> u32 \<Rightarrow> u8 \<Rightarrow> dmcd res" where
  "dmcd_write m step data =
     (if step = 0 then Inr (m\<lparr>dmcd_addr := data\<rparr>)
      else if dmcd_addr m < 25 then
        bnd (arr_put 25 (dmcd_reg m) (unat (dmcd_addr m)) data)
          (\<lambda>g. Inr (m\<lparr>dmcd_reg := g, dmcd_addr := dmcd_addr m + 1\<rparr>))
      else Inr m)"

definition dcsc_write_lut :: "dcsc \<Rightarrow> u32 \<Rightarrow> u8 \<Rightarrow> dcsc" where
  "dcsc_write_lut c step data =
     (if dcsc_addr c = 0x01 then
        (let i = unat ((step - 1) AND 0xFF)
         in c\<lparr>lut_r := (lut_r c)(i := data), lut_g := (lut_g c)(i := data), lut_b := (lut_b c)(i := data)\<rparr>)
      else c)"

definition dcsc_write :: "dcsc \<Rightarrow> u32 \<Rightarrow> u8 \<Rightarrow> dcsc" where
  "dcsc_write c step data =
     (if step = 0 then c\<lparr>dcsc_addr := data\<rparr>
      else if step = 1 \<and> dcsc_addr c = 0x00 then c\<lparr>dcsc_ctrl := data\<rparr>
      else dcsc_write_lut c step data)"

definition nd_video_dev_write :: "nd_devs \<Rightarrow> u8 \<Rightarrow> u32 \<Rightarrow> u8 \<Rightarrow> nd_devs res" where
  "nd_video_dev_write d addr step data =
     (let a = addr AND 0xFE
      in if a = 0x8A then bnd (dmcd_write (d_dmcd d) step data) (\<lambda>m. Inr (d\<lparr>d_dmcd := m\<rparr>))
         else if a = 0xE0 then Inr (d\<lparr>d_dcsc := (d_dcsc d)(0 := dcsc_write (d_dcsc d 0) step data)\<rparr>)
         else if a = 0xE2 then Inr (d\<lparr>d_dcsc := (d_dcsc d)(1 := dcsc_write (d_dcsc d 1) step data)\<rparr>)
         else Inr d)"

section \<open>Data path\<close>

abbreviation "DP_IIC_BUSY \<equiv> (0x80000000 :: u32)"

definition nd_dp_iicmsg :: "nd_devs \<Rightarrow> nd_devs res" where
  "nd_dp_iicmsg d =
     nd_video_dev_write d (iic_addr (d_dp d)) (iic_msgsz (d_dp d) - 1) (iic_msg (d_dp d))"

text \<open>The offsets 0x300, 0x304, ..., 0x33C all reach one register.\<close>

definition dp_doff_addr :: "u32 \<Rightarrow> bool" where
  "dp_doff_addr addr \<longleftrightarrow> 0x300 \<le> addr \<and> addr \<le> 0x33C \<and> addr AND 3 = 0"

definition nd_dp_lget :: "nd_dp \<Rightarrow> u32 \<Rightarrow> u32 \<times> nd_dp" where
  "nd_dp_lget p addr =
     (if dp_doff_addr addr then (dp_doff p, p)
      else if addr = 0x340 then (dp_csr p, p)
      else if addr = 0x344 then (dp_alpha p, p)
      else if addr = 0x348 then (dp_dma p, p)
      else if addr = 0x350 then (dp_cpu_x p, p)
      else if addr = 0x354 then (dp_cpu_y p, p)
      else if addr = 0x358 then (dp_dma_x p, p)
      else if addr = 0x35C then (dp_dma_y p, p)
      else if addr = 0x360 then
        (let p1 = (if iic_busy p \<le> 0
                   then p\<lparr>iic_stat_addr := iic_stat_addr p AND NOT DP_IIC_BUSY\<rparr>
                   else p\<lparr>iic_busy := iic_busy p - 1\<rparr>)
         in (iic_stat_addr p1, p1))
      else (0, p))"

definition nd_dp_lput :: "nd_devs \<Rightarrow> u32 \<Rightarrow> u32 \<Rightarrow> nd_devs res" where
  "nd_dp_lput d addr v =
     (let p = d_dp d; put = (\<lambda>p'. d\<lparr>d_dp := p'\<rparr>)
      in if dp_doff_addr addr then Inr (put (p\<lparr>dp_doff := v\<rparr>))
         else if addr = 0x340 then Inr (put (p\<lparr>dp_csr := v\<rparr>))
         else if addr = 0x344 then Inr (put (p\<lparr>dp_alpha := v\<rparr>))
         else if addr = 0x348 then Inr (put (p\<lparr>dp_dma := v\<rparr>))
         else if addr = 0x350 then Inr (put (p\<lparr>dp_cpu_x := v\<rparr>))
         else if addr = 0x354 then Inr (put (p\<lparr>dp_cpu_y := v\<rparr>))
         else if addr = 0x358 then Inr (put (p\<lparr>dp_dma_x := v\<rparr>))
         else if addr = 0x35C then Inr (put (p\<lparr>dp_dma_y := v\<rparr>))
         else if addr = 0x360 then
           nd_dp_iicmsg (put (p\<lparr>iic_addr := ucast (drop_bit 8 v AND 0xFF), iic_msg := ucast v,
             iic_msgsz := 1, iic_stat_addr := iic_stat_addr p OR DP_IIC_BUSY, iic_busy := 10\<rparr>))
         else if addr = 0x364 then
           nd_dp_iicmsg (put (p\<lparr>iic_msg := ucast v, iic_msgsz := iic_msgsz p + 1,
             iic_stat_addr := iic_stat_addr p OR DP_IIC_BUSY, iic_busy := 10\<rparr>))
         else Inr d)"

section \<open>Initialisation\<close>

definition nd_devs_init :: "nd_devs \<Rightarrow> nd_devs" where
  "nd_devs_init d =
     d\<lparr>d_mc := \<lparr>mc_csr0 = CSR0_i860PIN_CS8, mc_csr1 = 0, mc_csr2 = 0, mc_sid = 2 OR push_bit 4 1,
        mc_dma_csr = 0, mc_dma_start = 0, mc_dma_width = 0, mc_dma_pstart = 0, mc_dma_pwidth = 0,
        mc_dma_sstart = 0, mc_dma_swidth = 0, mc_dma_bsstart = 0, mc_dma_bswidth = 0,
        mc_dma_top = 0, mc_dma_bottom = 0, mc_dma_line_a = 0, mc_dma_curr_a = 0,
        mc_dma_scurr_a = 0, mc_dma_out_a = 0, mc_vram = 0, mc_dram = 0\<rparr>,
       d_dp := (d_dp d)\<lparr>iic_msgsz := 0, iic_addr := 0, dp_csr := 0, dp_alpha := 0, dp_dma := 0,
        dp_cpu_x := 0xc, dp_cpu_y := 0xc, dp_dma_x := 0xd, dp_dma_y := 0xd,
        iic_stat_addr := 0, iic_data := 0\<rparr>\<rparr>"

section \<open>No device access reaches outside a host array\<close>

definition devs_ok :: "nd_devs \<Rightarrow> bool" where
  "devs_ok d \<longleftrightarrow> bt463_ok (d_ramdac d)"

lemma devs_ok_updates [simp]:
  "devs_ok (d\<lparr>d_mc := m\<rparr>) = devs_ok d"
  "devs_ok (d\<lparr>d_dp := p\<rparr>) = devs_ok d"
  "devs_ok (d\<lparr>d_dmcd := v\<rparr>) = devs_ok d"
  "devs_ok (d\<lparr>d_dcsc := c\<rparr>) = devs_ok d"
  "devs_ok (d\<lparr>d_nbic := n\<rparr>) = devs_ok d"
  "devs_ok (d\<lparr>m_port := q\<rparr>) = devs_ok d"
  "devs_ok (send_msg g d) = devs_ok d"
  "devs_ok (i860_reset_msg d) = devs_ok d"
  "devs_ok (i860_interrupt_msg d) = devs_ok d"
  "devs_ok (nd_nbic_set_intstatus b d) = devs_ok d"
  by (simp_all add: devs_ok_def send_msg_def i860_reset_msg_def i860_interrupt_msg_def
      nd_nbic_set_intstatus_def Let_def)

lemma devs_ok_write_register: "devs_ok (nd_mc_write_register d addr val) = devs_ok d"
  by (simp add: nd_mc_write_register_def nd_mc_write_csr0_def Let_def)

lemma devs_ok_set_blank_state: "devs_ok (nd_set_blank_state k b d) = devs_ok d"
  by (simp add: nd_set_blank_state_def Let_def)

lemma dmcd_write_returns: "returns (\<lambda>_. True) (dmcd_write m step data)"
  by (simp add: dmcd_write_def word_less_nat_alt)

lemma nd_video_dev_write_returns:
  "devs_ok d \<Longrightarrow> returns devs_ok (nd_video_dev_write d a step data)"
  using dmcd_write_returns [of "d_dmcd d" step data]
  by (auto simp: nd_video_dev_write_def Let_def returns_iff)

lemma nd_dp_lput_returns: "devs_ok d \<Longrightarrow> returns devs_ok (nd_dp_lput d addr v)"
  by (simp add: nd_dp_lput_def nd_dp_iicmsg_def Let_def nd_video_dev_write_returns)

section \<open>The IIC busy bit clears\<close>

text \<open>\<open>nd_dp_poll n p\<close>: \<open>n\<close> reads of the status register at 0x360.\<close>

fun nd_dp_poll :: "nat \<Rightarrow> nd_dp \<Rightarrow> nd_dp" where
  "nd_dp_poll 0 p = p"
| "nd_dp_poll (Suc n) p = nd_dp_poll n (snd (nd_dp_lget p 0x360))"

lemma dp_read_status:
  "nd_dp_lget p 0x360 =
     (let p1 = (if iic_busy p \<le> 0
                then p\<lparr>iic_stat_addr := iic_stat_addr p AND NOT DP_IIC_BUSY\<rparr>
                else p\<lparr>iic_busy := iic_busy p - 1\<rparr>)
      in (iic_stat_addr p1, p1))"
  by (simp add: nd_dp_lget_def dp_doff_addr_def)

lemma nd_dp_poll_busy:
  "int n \<le> iic_busy p \<Longrightarrow> nd_dp_poll n p = p\<lparr>iic_busy := iic_busy p - int n\<rparr>"
proof (induction n arbitrary: p)
  case 0
  then show ?case by simp
next
  case (Suc n)
  then show ?case by (simp add: dp_read_status Let_def algebra_simps)
qed

lemma nd_dp_poll_add: "nd_dp_poll (m + n) p = nd_dp_poll n (nd_dp_poll m p)"
  by (induction m arbitrary: p) simp_all

text \<open>A message to the video devices leaves the data path alone.\<close>

lemma nd_video_dev_write_dp:
  "nd_video_dev_write d a step data = Inr d' \<Longrightarrow> d_dp d' = d_dp d"
  by (auto simp: nd_video_dev_write_def Let_def bnd_eq_Inr split: if_splits)

definition iic_busy_bit :: "nd_dp \<Rightarrow> bool" where
  "iic_busy_bit p \<longleftrightarrow> bit (fst (nd_dp_lget p 0x360)) 31"

lemma busy_set: "bit (x OR DP_IIC_BUSY) 31" and busy_clear: "\<not> bit (x AND NOT DP_IIC_BUSY) 31"
proof -
  have e: "DP_IIC_BUSY = push_bit 31 1" by simp
  show "bit (x OR DP_IIC_BUSY) 31" "\<not> bit (x AND NOT DP_IIC_BUSY) 31"
    unfolding e by (simp_all only: bit_simps) simp_all
qed

lemma iic_busy_polls:
  assumes "iic_busy p = 10" "bit (iic_stat_addr p) 31"
  shows "iic_busy_bit (nd_dp_poll n p) \<longleftrightarrow> n < 10"
proof (cases "n < 10")
  case True
  then show ?thesis using assms
    by (simp add: nd_dp_poll_busy iic_busy_bit_def dp_read_status Let_def)
next
  case False
  then obtain k where n: "n = 10 + k" by (metis le_Suc_ex not_less)
  have step: "iic_busy (nd_dp_poll k q) \<le> 0" if "iic_busy q = 0" for k q
    using that by (induction k arbitrary: q) (simp_all add: dp_read_status Let_def)
  have "iic_busy (nd_dp_poll n p) \<le> 0"
    unfolding n nd_dp_poll_add using assms(1) by (intro step) (simp add: nd_dp_poll_busy)
  then show ?thesis using False busy_clear by (simp add: iic_busy_bit_def dp_read_status Let_def)
qed

text \<open>The statically zeroed devices, after \<^verbatim>\<open>nd_devs_init\<close>.\<close>

definition nd_devs_zero :: nd_devs where
  "nd_devs_zero =
     \<lparr>d_mc = \<lparr>mc_csr0 = 0, mc_csr1 = 0, mc_csr2 = 0, mc_sid = 0, mc_dma_csr = 0, mc_dma_start = 0,
        mc_dma_width = 0, mc_dma_pstart = 0, mc_dma_pwidth = 0, mc_dma_sstart = 0,
        mc_dma_swidth = 0, mc_dma_bsstart = 0, mc_dma_bswidth = 0, mc_dma_top = 0,
        mc_dma_bottom = 0, mc_dma_line_a = 0, mc_dma_curr_a = 0, mc_dma_scurr_a = 0,
        mc_dma_out_a = 0, mc_vram = 0, mc_dram = 0\<rparr>,
      d_dp = \<lparr>iic_addr = 0, iic_msg = 0, iic_msgsz = 0, iic_busy = 0, dp_doff = 0, dp_csr = 0,
        dp_alpha = 0, dp_dma = 0, dp_cpu_x = 0, dp_cpu_y = 0, dp_dma_x = 0, dp_dma_y = 0,
        iic_stat_addr = 0, iic_data = 0\<rparr>,
      d_dmcd = \<lparr>dmcd_addr = 0, dmcd_reg = (\<lambda>_. 0)\<rparr>,
      d_dcsc = (\<lambda>_. \<lparr>dcsc_addr = 0, dcsc_ctrl = 0, lut_r = (\<lambda>_. 0), lut_g = (\<lambda>_. 0), lut_b = (\<lambda>_. 0)\<rparr>),
      d_ramdac = bt463_zero,
      d_nbic = \<lparr>nbic_control = 0, nbic_id = 0, nbic_intstatus = 0, nbic_intmask = 0\<rparr>,
      m_port = 0\<rparr>"

definition nd_devs_power_on :: nd_devs where
  "nd_devs_power_on = nd_devs_init nd_devs_zero"

lemma nd_devs_power_on_ok: "devs_ok nd_devs_power_on"
  by (simp add: nd_devs_power_on_def nd_devs_init_def nd_devs_zero_def devs_ok_def bt463_zero_ok)

text \<open>
  A write to the IIC registers of the data path sets the busy bit; the next ten reads of the
  status register show it set and every later read shows it clear, so a driver that polls the
  bit leaves its loop.
\<close>

theorem iic_busy_clears:
  assumes "a = 0x360 \<or> a = 0x364"
  shows "\<exists>d'. nd_dp_lput d a v = Inr d' \<and>
    (\<forall>n. bit (fst (nd_dp_lget (nd_dp_poll n (d_dp d')) 0x360)) 31 = (n < 10))"
proof -
  obtain p where p: "nd_dp_lput d a v = nd_dp_iicmsg (d\<lparr>d_dp := p\<rparr>)"
      "iic_busy p = 10" "bit (iic_stat_addr p) 31"
    using assms busy_set by (fastforce simp: nd_dp_lput_def dp_doff_addr_def Let_def)
  have "\<exists>d'. nd_dp_iicmsg (d\<lparr>d_dp := p\<rparr>) = Inr d'"
    using dmcd_write_returns [of "d_dmcd d" "iic_msgsz p - 1" "iic_msg p"]
    by (auto simp: nd_dp_iicmsg_def nd_video_dev_write_def Let_def returns_iff)
  then obtain d' where d': "nd_dp_iicmsg (d\<lparr>d_dp := p\<rparr>) = Inr d'" by blast
  then have "d_dp d' = p" by (auto simp: nd_dp_iicmsg_def dest: nd_video_dev_write_dp)
  with p d' iic_busy_polls [of p] show ?thesis by (simp add: iic_busy_bit_def)
qed

theorem iic_busy_clears_witness:
  "\<exists>d'. nd_dp_lput nd_devs_power_on 0x360 0x8A01 = Inr d' \<and>
    (\<forall>n. bit (fst (nd_dp_lget (nd_dp_poll n (d_dp d')) 0x360)) 31 = (n < 10))"
  by (rule iic_busy_clears) simp

end
