(* ===== verification/Nd_Mem.thy ===== *)
theory Nd_Mem
  imports Nd_Devs
begin

text \<open>
  The memory of the NeXTdimension board: the EEPROM with its command state
  (src/dimension/nd_rom.c), the RAM, VRAM and dither arrays and the table of 65536 memory
  banks (src/dimension/nd_mem.c), and the accesses of the i860 to the board in both byte
  orders (src/dimension/dimension.c). Words are stored in big-endian order in the byte arrays
  (\<^verbatim>\<open>do_get_mem_long\<close> and its kin of src/cpu/maccess.h). An access that runs over
  the end of a host array is the fault \<open>ArrayOOB\<close>.
\<close>

section \<open>State\<close>

datatype bank = RamBank0 | RamBank1 | RamBank2 | RamBank3 | RamEmpty | VramBank | RomBank
  | DmemBank | IoBank | RamdacBank | IllegalBank | UnknownBank

record board =
  nd_ram :: "nat \<Rightarrow> u8"
  nd_vram :: "nat \<Rightarrow> u8"
  nd_rom :: "nat \<Rightarrow> u8"
  nd_dmem :: "nat \<Rightarrow> u8"
  rom_command :: u8
  rom_last_addr :: u32
  bankmask0 :: u32
  bankmask1 :: u32
  bankmask2 :: u32
  bankmask3 :: u32
  mem_banks :: "nat \<Rightarrow> bank"
  devs :: nd_devs

abbreviation "ND_RAM_BYTES \<equiv> (0x4000000 :: nat)"
abbreviation "ND_VRAM_BYTES \<equiv> (0x400000 :: nat)"
abbreviation "ND_ROM_BYTES \<equiv> (0x20000 :: nat)"
abbreviation "ND_DMEM_BYTES \<equiv> (0x200 :: nat)"

section \<open>Big-endian access to a byte array\<close>

definition be_long :: "u8 \<Rightarrow> u8 \<Rightarrow> u8 \<Rightarrow> u8 \<Rightarrow> u32" where
  "be_long b0 b1 b2 b3 =
     push_bit 24 (ucast b0) OR push_bit 16 (ucast b1) OR push_bit 8 (ucast b2) OR ucast b3"

definition be_word :: "u8 \<Rightarrow> u8 \<Rightarrow> u32" where
  "be_word b0 b1 = push_bit 8 (ucast b0) OR ucast b1"

definition do_get_mem_long :: "nat \<Rightarrow> (nat \<Rightarrow> u8) \<Rightarrow> nat \<Rightarrow> u32 res" where
  "do_get_mem_long n a i =
     (if i + 3 < n then Inr (be_long (a i) (a (i + 1)) (a (i + 2)) (a (i + 3))) else Inl ArrayOOB)"

definition do_get_mem_word :: "nat \<Rightarrow> (nat \<Rightarrow> u8) \<Rightarrow> nat \<Rightarrow> u32 res" where
  "do_get_mem_word n a i =
     (if i + 1 < n then Inr (be_word (a i) (a (i + 1))) else Inl ArrayOOB)"

definition do_put_mem_long :: "nat \<Rightarrow> (nat \<Rightarrow> u8) \<Rightarrow> nat \<Rightarrow> u32 \<Rightarrow> (nat \<Rightarrow> u8) res" where
  "do_put_mem_long n a i v =
     (if i + 3 < n then
        Inr (a(i := ucast (drop_bit 24 v), i + 1 := ucast (drop_bit 16 v),
               i + 2 := ucast (drop_bit 8 v), i + 3 := ucast v))
      else Inl ArrayOOB)"

definition do_put_mem_word :: "nat \<Rightarrow> (nat \<Rightarrow> u8) \<Rightarrow> nat \<Rightarrow> u32 \<Rightarrow> (nat \<Rightarrow> u8) res" where
  "do_put_mem_word n a i v =
     (if i + 1 < n then Inr (a(i := ucast (drop_bit 8 v), i + 1 := ucast v)) else Inl ArrayOOB)"

section \<open>EEPROM\<close>

abbreviation "ROM_CMD_READ \<equiv> (0x00 :: u8)"
abbreviation "ROM_CMD_READ_ID \<equiv> (0x90 :: u8)"
abbreviation "ROM_CMD_ERASE \<equiv> (0x20 :: u8)"
abbreviation "ROM_CMD_WRITE \<equiv> (0x40 :: u8)"
abbreviation "ROM_CMD_VERIFY \<equiv> (0x80 :: u8)"

definition nd_rom_addr_fix :: "u32 \<Rightarrow> u32" where
  "nd_rom_addr_fix addr = drop_bit 2 addr AND 0x0001FFFF"

definition nd_rom_read :: "board \<Rightarrow> u32 \<Rightarrow> (u8 \<times> board) res" where
  "nd_rom_read b addr =
     (if rom_command b = ROM_CMD_READ then
        bnd (arr_get ND_ROM_BYTES (nd_rom b) (unat addr)) (\<lambda>v. Inr (v, b))
      else if rom_command b = ROM_CMD_READ_ID then
        Inr (if addr = 0 then 0x89 else 0xB4, b)
      else if rom_command b = ROM_CMD_ERASE OR ROM_CMD_VERIFY then
        bnd (arr_get ND_ROM_BYTES (nd_rom b) (unat addr))
          (\<lambda>v. Inr (v, b\<lparr>rom_command := ROM_CMD_READ\<rparr>))
      else if rom_command b = ROM_CMD_WRITE OR ROM_CMD_VERIFY then
        bnd (arr_get ND_ROM_BYTES (nd_rom b) (unat (rom_last_addr b)))
          (\<lambda>v. Inr (v, b\<lparr>rom_command := ROM_CMD_READ\<rparr>))
      else Inr (0, b))"

definition nd_rom_write :: "board \<Rightarrow> u32 \<Rightarrow> u8 \<Rightarrow> board res" where
  "nd_rom_write b addr val =
     (if rom_command b = ROM_CMD_WRITE then
        bnd (arr_put ND_ROM_BYTES (nd_rom b) (unat addr) val)
          (\<lambda>r. Inr (b\<lparr>nd_rom := r, rom_last_addr := addr, rom_command := ROM_CMD_READ\<rparr>))
      else if rom_command b = ROM_CMD_ERASE \<and> val = ROM_CMD_ERASE then
        Inr (b\<lparr>nd_rom := (\<lambda>i. if i < ND_ROM_BYTES then 0xFF else nd_rom b i)\<rparr>)
      else Inr (b\<lparr>rom_command := val\<rparr>))"

section \<open>Banks\<close>

definition nd_ram_lget :: "u32 \<Rightarrow> board \<Rightarrow> u32 \<Rightarrow> (u32 \<times> board) res" where
  "nd_ram_lget bm b addr =
     bnd (do_get_mem_long ND_RAM_BYTES (nd_ram b) (unat (addr AND bm))) (\<lambda>v. Inr (v, b))"

definition nd_ram_wget :: "u32 \<Rightarrow> board \<Rightarrow> u32 \<Rightarrow> (u32 \<times> board) res" where
  "nd_ram_wget bm b addr =
     bnd (do_get_mem_word ND_RAM_BYTES (nd_ram b) (unat (addr AND bm))) (\<lambda>v. Inr (v, b))"

definition nd_ram_bget :: "u32 \<Rightarrow> board \<Rightarrow> u32 \<Rightarrow> (u32 \<times> board) res" where
  "nd_ram_bget bm b addr =
     bnd (arr_get ND_RAM_BYTES (nd_ram b) (unat (addr AND bm))) (\<lambda>v. Inr (ucast v, b))"

definition nd_ram_lput :: "u32 \<Rightarrow> board \<Rightarrow> u32 \<Rightarrow> u32 \<Rightarrow> board res" where
  "nd_ram_lput bm b addr l =
     bnd (do_put_mem_long ND_RAM_BYTES (nd_ram b) (unat (addr AND bm)) l) (\<lambda>m. Inr (b\<lparr>nd_ram := m\<rparr>))"

definition nd_ram_wput :: "u32 \<Rightarrow> board \<Rightarrow> u32 \<Rightarrow> u32 \<Rightarrow> board res" where
  "nd_ram_wput bm b addr w =
     bnd (do_put_mem_word ND_RAM_BYTES (nd_ram b) (unat (addr AND bm)) w) (\<lambda>m. Inr (b\<lparr>nd_ram := m\<rparr>))"

definition nd_ram_bput :: "u32 \<Rightarrow> board \<Rightarrow> u32 \<Rightarrow> u32 \<Rightarrow> board res" where
  "nd_ram_bput bm b addr v =
     bnd (arr_put ND_RAM_BYTES (nd_ram b) (unat (addr AND bm)) (ucast v)) (\<lambda>m. Inr (b\<lparr>nd_ram := m\<rparr>))"

abbreviation "ND_VRAM_MASK \<equiv> (0x003FFFFF :: u32)"

definition nd_vram_lget :: "board \<Rightarrow> u32 \<Rightarrow> (u32 \<times> board) res" where
  "nd_vram_lget b addr =
     bnd (do_get_mem_long ND_VRAM_BYTES (nd_vram b) (unat (addr AND ND_VRAM_MASK))) (\<lambda>v. Inr (v, b))"

definition nd_vram_wget :: "board \<Rightarrow> u32 \<Rightarrow> (u32 \<times> board) res" where
  "nd_vram_wget b addr =
     bnd (do_get_mem_word ND_VRAM_BYTES (nd_vram b) (unat (addr AND ND_VRAM_MASK))) (\<lambda>v. Inr (v, b))"

definition nd_vram_bget :: "board \<Rightarrow> u32 \<Rightarrow> (u32 \<times> board) res" where
  "nd_vram_bget b addr =
     bnd (arr_get ND_VRAM_BYTES (nd_vram b) (unat (addr AND ND_VRAM_MASK))) (\<lambda>v. Inr (ucast v, b))"

definition nd_vram_lput :: "board \<Rightarrow> u32 \<Rightarrow> u32 \<Rightarrow> board res" where
  "nd_vram_lput b addr l =
     bnd (do_put_mem_long ND_VRAM_BYTES (nd_vram b) (unat (addr AND ND_VRAM_MASK)) l)
       (\<lambda>m. Inr (b\<lparr>nd_vram := m\<rparr>))"

definition nd_vram_wput :: "board \<Rightarrow> u32 \<Rightarrow> u32 \<Rightarrow> board res" where
  "nd_vram_wput b addr w =
     bnd (do_put_mem_word ND_VRAM_BYTES (nd_vram b) (unat (addr AND ND_VRAM_MASK)) w)
       (\<lambda>m. Inr (b\<lparr>nd_vram := m\<rparr>))"

definition nd_vram_bput :: "board \<Rightarrow> u32 \<Rightarrow> u32 \<Rightarrow> board res" where
  "nd_vram_bput b addr v =
     bnd (arr_put ND_VRAM_BYTES (nd_vram b) (unat (addr AND ND_VRAM_MASK)) (ucast v))
       (\<lambda>m. Inr (b\<lparr>nd_vram := m\<rparr>))"

definition nd_rom_get :: "nat \<Rightarrow> board \<Rightarrow> u32 \<Rightarrow> (u32 \<times> board) res" where
  "nd_rom_get lane b addr =
     bnd (nd_rom_read b (nd_rom_addr_fix addr)) (\<lambda>(v, b'). Inr (push_bit lane (ucast v), b'))"

definition nd_rom_put :: "nat \<Rightarrow> board \<Rightarrow> u32 \<Rightarrow> u32 \<Rightarrow> board res" where
  "nd_rom_put lane b addr v =
     nd_rom_write b (nd_rom_addr_fix addr) (ucast (drop_bit lane v))"

definition nd_rom_cs8get :: "board \<Rightarrow> u32 \<Rightarrow> (u32 \<times> board) res" where
  "nd_rom_cs8get b addr =
     bnd (arr_get ND_ROM_BYTES (nd_rom b) (unat (addr AND 0x0001FFFF))) (\<lambda>v. Inr (ucast v, b))"

text \<open>Dither memory, and the data path behind it.\<close>

definition dp_get :: "board \<Rightarrow> u32 \<Rightarrow> (u32 \<times> board) res" where
  "dp_get b addr =
     (let (v, p) = nd_dp_lget (d_dp (devs b)) addr
      in Inr (v, b\<lparr>devs := (devs b)\<lparr>d_dp := p\<rparr>\<rparr>))"

definition dp_put :: "board \<Rightarrow> u32 \<Rightarrow> u32 \<Rightarrow> board res" where
  "dp_put b addr v = bnd (nd_dp_lput (devs b) addr v) (\<lambda>d. Inr (b\<lparr>devs := d\<rparr>))"

definition nd_dmem_lget :: "board \<Rightarrow> u32 \<Rightarrow> (u32 \<times> board) res" where
  "nd_dmem_lget b addr =
     (let a = addr AND 0xFFF
      in if a < 0x200 then
           bnd (do_get_mem_long ND_DMEM_BYTES (nd_dmem b) (unat a)) (\<lambda>v. Inr (v, b))
         else dp_get b a)"

definition nd_dmem_wget :: "board \<Rightarrow> u32 \<Rightarrow> (u32 \<times> board) res" where
  "nd_dmem_wget b addr =
     (let a = addr AND 0xFFF
      in if a < 0x200 then
           bnd (do_get_mem_word ND_DMEM_BYTES (nd_dmem b) (unat a)) (\<lambda>v. Inr (v, b))
         else dp_get b a)"

definition nd_dmem_bget :: "board \<Rightarrow> u32 \<Rightarrow> (u32 \<times> board) res" where
  "nd_dmem_bget b addr =
     (let a = addr AND 0xFFF
      in if a < 0x200 then
           bnd (arr_get ND_DMEM_BYTES (nd_dmem b) (unat a)) (\<lambda>v. Inr (ucast v, b))
         else dp_get b a)"

definition nd_dmem_lput :: "board \<Rightarrow> u32 \<Rightarrow> u32 \<Rightarrow> board res" where
  "nd_dmem_lput b addr l =
     (let a = addr AND 0xFFF
      in if a < 0x200 then
           bnd (do_put_mem_long ND_DMEM_BYTES (nd_dmem b) (unat a) l) (\<lambda>m. Inr (b\<lparr>nd_dmem := m\<rparr>))
         else dp_put b a l)"

definition nd_dmem_wput :: "board \<Rightarrow> u32 \<Rightarrow> u32 \<Rightarrow> board res" where
  "nd_dmem_wput b addr w =
     (let a = addr AND 0xFFF
      in if a < 0x200 then
           bnd (do_put_mem_word ND_DMEM_BYTES (nd_dmem b) (unat a) w) (\<lambda>m. Inr (b\<lparr>nd_dmem := m\<rparr>))
         else dp_put b a w)"

definition nd_dmem_bput :: "board \<Rightarrow> u32 \<Rightarrow> u32 \<Rightarrow> board res" where
  "nd_dmem_bput b addr v =
     (let a = addr AND 0xFFF
      in if a < 0x200 then
           bnd (arr_put ND_DMEM_BYTES (nd_dmem b) (unat a) (ucast v)) (\<lambda>m. Inr (b\<lparr>nd_dmem := m\<rparr>))
         else dp_put b a v)"

text \<open>Memory controller registers answer to long accesses only.\<close>

definition nd_io_lget :: "board \<Rightarrow> u32 \<Rightarrow> (u32 \<times> board) res" where
  "nd_io_lget b addr = Inr (nd_mc_read_register (d_mc (devs b)) addr, b)"

definition nd_io_lput :: "board \<Rightarrow> u32 \<Rightarrow> u32 \<Rightarrow> board res" where
  "nd_io_lput b addr l = Inr (b\<lparr>devs := nd_mc_write_register (devs b) addr l\<rparr>)"

text \<open>The RAMDAC is a byte device; \<open>lane\<close> is where its byte sits in a wider access.\<close>

definition nd_ramdac_get :: "nat \<Rightarrow> board \<Rightarrow> u32 \<Rightarrow> (u32 \<times> board) res" where
  "nd_ramdac_get lane b addr =
     bnd (bt463_bget (d_ramdac (devs b)) addr)
       (\<lambda>(v, r). Inr (push_bit lane v, b\<lparr>devs := (devs b)\<lparr>d_ramdac := r\<rparr>\<rparr>))"

definition nd_ramdac_put :: "nat \<Rightarrow> board \<Rightarrow> u32 \<Rightarrow> u32 \<Rightarrow> board res" where
  "nd_ramdac_put lane b addr v =
     bnd (bt463_bput (d_ramdac (devs b)) addr (drop_bit lane v))
       (\<lambda>r. Inr (b\<lparr>devs := (devs b)\<lparr>d_ramdac := r\<rparr>\<rparr>))"

section \<open>Programming the EEPROM\<close>

text \<open>A command byte and a data byte, as a driver writes them.\<close>

definition rom_program :: "board \<Rightarrow> u32 \<Rightarrow> u8 \<Rightarrow> board res" where
  "rom_program b addr v = bnd (nd_rom_write b addr ROM_CMD_WRITE) (\<lambda>b1. nd_rom_write b1 addr v)"

lemma rom_program_result:
  "rom_command b = ROM_CMD_READ \<Longrightarrow> unat addr < ND_ROM_BYTES \<Longrightarrow>
   rom_program b addr v =
     Inr (b\<lparr>rom_command := ROM_CMD_READ, nd_rom := (nd_rom b)(unat addr := v), rom_last_addr := addr\<rparr>)"
  by (simp add: rom_program_def nd_rom_write_def)

text \<open>The board before initialisation: all static storage is zero.\<close>

definition board_zero :: board where
  "board_zero =
     \<lparr>nd_ram = (\<lambda>_. 0), nd_vram = (\<lambda>_. 0), nd_rom = (\<lambda>_. 0), nd_dmem = (\<lambda>_. 0), rom_command = 0,
      rom_last_addr = 0, bankmask0 = 0, bankmask1 = 0, bankmask2 = 0, bankmask3 = 0,
      mem_banks = (\<lambda>_. IllegalBank), devs = nd_devs_power_on\<rparr>"

text \<open>
  Programming a byte of the EEPROM in read mode stores exactly that byte and returns to
  read mode; the verify command then reads the programmed byte back from whatever address is
  given, and a second read is an ordinary read again.
\<close>

theorem eeprom_program_verify:
  assumes "rom_command b = ROM_CMD_READ" "unat addr < ND_ROM_BYTES" "unat x < ND_ROM_BYTES"
  shows "\<exists>b1 b2 b3. rom_program b addr v = Inr b1 \<and>
    rom_command b1 = ROM_CMD_READ \<and> nd_rom b1 = (nd_rom b)(unat addr := v) \<and>
    nd_rom_write b1 x (ROM_CMD_WRITE OR ROM_CMD_VERIFY) = Inr b2 \<and>
    nd_rom_read b2 x = Inr (v, b3) \<and>
    nd_rom_read b3 x = Inr (if x = addr then v else nd_rom b (unat x), b3)"
  using assms by (simp add: rom_program_result nd_rom_write_def nd_rom_read_def unsigned_word_eqI)

theorem eeprom_program_verify_witness:
  "\<exists>b1 b2 b3. rom_program board_zero 5 0xA7 = Inr b1 \<and>
    rom_command b1 = ROM_CMD_READ \<and> nd_rom b1 = (nd_rom board_zero)(unat (5 :: u32) := 0xA7) \<and>
    nd_rom_write b1 7 (ROM_CMD_WRITE OR ROM_CMD_VERIFY) = Inr b2 \<and>
    nd_rom_read b2 7 = Inr (0xA7, b3) \<and>
    nd_rom_read b3 7 = Inr (if (7 :: u32) = 5 then 0xA7 else nd_rom board_zero (unat (7 :: u32)), b3)"
  by (rule eeprom_program_verify) (simp_all add: board_zero_def)

end
