(* ===== verification/Nd_Board.thy ===== *)
theory Nd_Board
  imports Nd_Mem
begin

text \<open>
  Dispatch over the bank table (\<^verbatim>\<open>nd_longget\<close> and its kin of
  src/dimension/nd_mem.h), the bank map \<^verbatim>\<open>nd_memory_init\<close> installs
  (src/dimension/nd_mem.c), and the accesses of the i860 in big-endian and little-endian mode
  (\<^verbatim>\<open>nd_board_rd8_be\<close> ... \<^verbatim>\<open>nd_board_wr128_le\<close> of
  src/dimension/dimension.c). The lemmas show the memory laws of the RAM and VRAM banks, that no aligned
  access leaves a host array, and how accesses of different widths and byte orders fit
  together.
\<close>

section \<open>Bank dispatch\<close>

definition bank_of :: "board \<Rightarrow> u32 \<Rightarrow> bank" where
  "bank_of b addr = mem_banks b (unat (drop_bit 16 addr))"

definition nd_longget :: "board \<Rightarrow> u32 \<Rightarrow> (u32 \<times> board) res" where
  "nd_longget b addr =
     (case bank_of b addr of
        RamBank0 \<Rightarrow> nd_ram_lget (bankmask0 b) b addr
      | RamBank1 \<Rightarrow> nd_ram_lget (bankmask1 b) b addr
      | RamBank2 \<Rightarrow> nd_ram_lget (bankmask2 b) b addr
      | RamBank3 \<Rightarrow> nd_ram_lget (bankmask3 b) b addr
      | RamEmpty \<Rightarrow> Inr (0, b)
      | VramBank \<Rightarrow> nd_vram_lget b addr
      | RomBank \<Rightarrow> nd_rom_get 24 b addr
      | DmemBank \<Rightarrow> nd_dmem_lget b addr
      | IoBank \<Rightarrow> nd_io_lget b addr
      | RamdacBank \<Rightarrow> nd_ramdac_get 24 b addr
      | IllegalBank \<Rightarrow> Inr (0, b)
      | UnknownBank \<Rightarrow> Inr (0, b))"

definition nd_wordget :: "board \<Rightarrow> u32 \<Rightarrow> (u32 \<times> board) res" where
  "nd_wordget b addr =
     (case bank_of b addr of
        RamBank0 \<Rightarrow> nd_ram_wget (bankmask0 b) b addr
      | RamBank1 \<Rightarrow> nd_ram_wget (bankmask1 b) b addr
      | RamBank2 \<Rightarrow> nd_ram_wget (bankmask2 b) b addr
      | RamBank3 \<Rightarrow> nd_ram_wget (bankmask3 b) b addr
      | RamEmpty \<Rightarrow> Inr (0, b)
      | VramBank \<Rightarrow> nd_vram_wget b addr
      | RomBank \<Rightarrow> nd_rom_get 8 b addr
      | DmemBank \<Rightarrow> nd_dmem_wget b addr
      | IoBank \<Rightarrow> Inr (0, b)
      | RamdacBank \<Rightarrow> nd_ramdac_get 8 b addr
      | IllegalBank \<Rightarrow> Inr (0, b)
      | UnknownBank \<Rightarrow> Inr (0, b))"

definition nd_byteget :: "board \<Rightarrow> u32 \<Rightarrow> (u32 \<times> board) res" where
  "nd_byteget b addr =
     (case bank_of b addr of
        RamBank0 \<Rightarrow> nd_ram_bget (bankmask0 b) b addr
      | RamBank1 \<Rightarrow> nd_ram_bget (bankmask1 b) b addr
      | RamBank2 \<Rightarrow> nd_ram_bget (bankmask2 b) b addr
      | RamBank3 \<Rightarrow> nd_ram_bget (bankmask3 b) b addr
      | RamEmpty \<Rightarrow> Inr (0, b)
      | VramBank \<Rightarrow> nd_vram_bget b addr
      | RomBank \<Rightarrow> nd_rom_get 0 b addr
      | DmemBank \<Rightarrow> nd_dmem_bget b addr
      | IoBank \<Rightarrow> Inr (0, b)
      | RamdacBank \<Rightarrow> nd_ramdac_get 0 b addr
      | IllegalBank \<Rightarrow> Inr (0, b)
      | UnknownBank \<Rightarrow> Inr (0, b))"

definition nd_longput :: "board \<Rightarrow> u32 \<Rightarrow> u32 \<Rightarrow> board res" where
  "nd_longput b addr l =
     (case bank_of b addr of
        RamBank0 \<Rightarrow> nd_ram_lput (bankmask0 b) b addr l
      | RamBank1 \<Rightarrow> nd_ram_lput (bankmask1 b) b addr l
      | RamBank2 \<Rightarrow> nd_ram_lput (bankmask2 b) b addr l
      | RamBank3 \<Rightarrow> nd_ram_lput (bankmask3 b) b addr l
      | RamEmpty \<Rightarrow> Inr b
      | VramBank \<Rightarrow> nd_vram_lput b addr l
      | RomBank \<Rightarrow> nd_rom_put 24 b addr l
      | DmemBank \<Rightarrow> nd_dmem_lput b addr l
      | IoBank \<Rightarrow> nd_io_lput b addr l
      | RamdacBank \<Rightarrow> nd_ramdac_put 24 b addr l
      | IllegalBank \<Rightarrow> Inr b
      | UnknownBank \<Rightarrow> Inr b)"

definition nd_wordput :: "board \<Rightarrow> u32 \<Rightarrow> u32 \<Rightarrow> board res" where
  "nd_wordput b addr w =
     (case bank_of b addr of
        RamBank0 \<Rightarrow> nd_ram_wput (bankmask0 b) b addr w
      | RamBank1 \<Rightarrow> nd_ram_wput (bankmask1 b) b addr w
      | RamBank2 \<Rightarrow> nd_ram_wput (bankmask2 b) b addr w
      | RamBank3 \<Rightarrow> nd_ram_wput (bankmask3 b) b addr w
      | RamEmpty \<Rightarrow> Inr b
      | VramBank \<Rightarrow> nd_vram_wput b addr w
      | RomBank \<Rightarrow> nd_rom_put 8 b addr w
      | DmemBank \<Rightarrow> nd_dmem_wput b addr w
      | IoBank \<Rightarrow> Inr b
      | RamdacBank \<Rightarrow> nd_ramdac_put 8 b addr w
      | IllegalBank \<Rightarrow> Inr b
      | UnknownBank \<Rightarrow> Inr b)"

definition nd_byteput :: "board \<Rightarrow> u32 \<Rightarrow> u32 \<Rightarrow> board res" where
  "nd_byteput b addr v =
     (case bank_of b addr of
        RamBank0 \<Rightarrow> nd_ram_bput (bankmask0 b) b addr v
      | RamBank1 \<Rightarrow> nd_ram_bput (bankmask1 b) b addr v
      | RamBank2 \<Rightarrow> nd_ram_bput (bankmask2 b) b addr v
      | RamBank3 \<Rightarrow> nd_ram_bput (bankmask3 b) b addr v
      | RamEmpty \<Rightarrow> Inr b
      | VramBank \<Rightarrow> nd_vram_bput b addr v
      | RomBank \<Rightarrow> nd_rom_put 0 b addr v
      | DmemBank \<Rightarrow> nd_dmem_bput b addr v
      | IoBank \<Rightarrow> Inr b
      | RamdacBank \<Rightarrow> nd_ramdac_put 0 b addr v
      | IllegalBank \<Rightarrow> Inr b
      | UnknownBank \<Rightarrow> Inr b)"

text \<open>CS8 fetches read the EEPROM directly; every other bank uses its byte read.\<close>

definition nd_cs8get :: "board \<Rightarrow> u32 \<Rightarrow> (u32 \<times> board) res" where
  "nd_cs8get b addr =
     (if bank_of b addr = RomBank then nd_rom_cs8get b addr else nd_byteget b addr)"

section \<open>The bank map\<close>

definition nd_map_banks :: "bank \<Rightarrow> nat \<Rightarrow> nat \<Rightarrow> (nat \<Rightarrow> bank) \<Rightarrow> (nat \<Rightarrow> bank)" where
  "nd_map_banks k start sz t = fold (\<lambda>i t'. t'(i := k)) [start ..< start + sz] t"

definition nd_init_mem_banks :: "(nat \<Rightarrow> bank) \<Rightarrow> (nat \<Rightarrow> bank)" where
  "nd_init_mem_banks t = nd_map_banks IllegalBank 0 65536 t"

definition ram_bankmask :: "nat \<Rightarrow> u32" where
  "ram_bankmask mb = (if mb = 0 then 0 else 0x03000000 OR (push_bit 20 (of_nat mb) - 1))"

definition map_ram_bank :: "bank \<Rightarrow> nat \<Rightarrow> nat \<Rightarrow> (nat \<Rightarrow> bank) \<Rightarrow> (nat \<Rightarrow> bank)" where
  "map_ram_bank k mb start t = nd_map_banks (if mb = 0 then RamEmpty else k) start 0x100 t"

text \<open>\<^verbatim>\<open>Configuration_CheckDimensionMemory\<close> rounds a bank size to 0, 4 or 16 megabytes.\<close>

definition check_bank_size :: "int \<Rightarrow> nat" where
  "check_bank_size n = (if n \<le> 0 then 0 else if n \<le> 4 then 4 else 16)"

text \<open>
  \<^verbatim>\<open>nd_memory_init\<close> for the bank sizes (in megabytes) \<open>n0\<close> to \<open>n3\<close> of the configuration;
  \<open>rom\<close> is the content \<^verbatim>\<open>nd_rom_load\<close> reads from the ROM file.
\<close>

definition nd_memory_init :: "int \<Rightarrow> int \<Rightarrow> int \<Rightarrow> int \<Rightarrow> (nat \<Rightarrow> u8) \<Rightarrow> board \<Rightarrow> board" where
  "nd_memory_init n0 n1 n2 n3 rom b =
     (let s0 = check_bank_size n0; s1 = check_bank_size n1;
          s2 = check_bank_size n2; s3 = check_bank_size n3;
          t0 = nd_init_mem_banks (mem_banks b);
          t1 = map_ram_bank RamBank0 s0 0xF800 t0;
          t2 = map_ram_bank RamBank1 s1 0xF900 t1;
          t3 = map_ram_bank RamBank2 s2 0xFA00 t2;
          t4 = map_ram_bank RamBank3 s3 0xFB00 t3;
          t5 = nd_map_banks VramBank 0xFE00 0x100 t4;
          t6 = nd_map_banks RomBank 0xFFF0 0x10 t5;
          t7 = nd_map_banks DmemBank 0xFF00 1 t6;
          t8 = nd_map_banks IoBank 0xFF80 1 t7;
          t9 = nd_map_banks RamdacBank 0xFF20 1 t8;
          t10 = nd_map_banks UnknownBank 0xFF40 1 t9
      in b\<lparr>nd_ram := (\<lambda>i. if i < 4096 then 0 else nd_ram b i),
           bankmask0 := ram_bankmask s0, bankmask1 := ram_bankmask s1,
           bankmask2 := ram_bankmask s2, bankmask3 := ram_bankmask s3,
           mem_banks := t10, rom_command := ROM_CMD_READ, rom_last_addr := 0, nd_rom := rom\<rparr>)"

section \<open>Accesses of the i860\<close>

text \<open>
  The data of an access is the list of 32-bit words of the host buffer, lowest address first;
  an access of one or two bytes uses the low bytes of one word (little-endian host).
\<close>

abbreviation "ND_BOARD_BITS \<equiv> (0xF0000000 :: u32)"

definition rd1 :: "(board \<Rightarrow> u32 \<Rightarrow> (u32 \<times> board) res) \<Rightarrow> board \<Rightarrow> u32 \<Rightarrow> (u32 list \<times> board) res" where
  "rd1 get b addr = bnd (get b addr) (\<lambda>(v, b'). Inr ([v], b'))"

definition rd2 :: "board \<Rightarrow> u32 \<Rightarrow> u32 \<Rightarrow> (u32 list \<times> board) res" where
  "rd2 b a0 a1 =
     bnd (nd_longget b a0) (\<lambda>(v0, b1). bnd (nd_longget b1 a1) (\<lambda>(v1, b2). Inr ([v0, v1], b2)))"

definition nd_board_rd8_be :: "board \<Rightarrow> u32 \<Rightarrow> (u32 list \<times> board) res" where
  "nd_board_rd8_be b addr =
     (let a = addr OR ND_BOARD_BITS
      in bnd (nd_byteget b a) (\<lambda>(v, b'). Inr ([v AND 0xFF], b')))"

definition nd_board_rd16_be :: "board \<Rightarrow> u32 \<Rightarrow> (u32 list \<times> board) res" where
  "nd_board_rd16_be b addr =
     (let a = addr OR ND_BOARD_BITS
      in bnd (nd_wordget b a) (\<lambda>(v, b'). Inr ([v AND 0xFFFF], b')))"

definition nd_board_rd32_be :: "board \<Rightarrow> u32 \<Rightarrow> (u32 list \<times> board) res" where
  "nd_board_rd32_be b addr = rd1 nd_longget b (addr OR ND_BOARD_BITS)"

definition nd_board_rd64_be :: "board \<Rightarrow> u32 \<Rightarrow> (u32 list \<times> board) res" where
  "nd_board_rd64_be b addr = (let a = addr OR ND_BOARD_BITS in rd2 b (a + 4) (a + 0))"

definition nd_board_rd128_be :: "board \<Rightarrow> u32 \<Rightarrow> (u32 list \<times> board) res" where
  "nd_board_rd128_be b addr =
     (let a = addr OR ND_BOARD_BITS
      in bnd (rd2 b (a + 4) (a + 0))
           (\<lambda>(lo, b1). bnd (rd2 b1 (a + 12) (a + 8)) (\<lambda>(hi, b2). Inr (lo @ hi, b2))))"

definition nd_board_wr8_be :: "board \<Rightarrow> u32 \<Rightarrow> u32 list \<Rightarrow> board res" where
  "nd_board_wr8_be b addr val = nd_byteput b (addr OR ND_BOARD_BITS) (hd val AND 0xFF)"

definition nd_board_wr16_be :: "board \<Rightarrow> u32 \<Rightarrow> u32 list \<Rightarrow> board res" where
  "nd_board_wr16_be b addr val = nd_wordput b (addr OR ND_BOARD_BITS) (hd val AND 0xFFFF)"

definition nd_board_wr32_be :: "board \<Rightarrow> u32 \<Rightarrow> u32 list \<Rightarrow> board res" where
  "nd_board_wr32_be b addr val = nd_longput b (addr OR ND_BOARD_BITS) (val ! 0)"

definition nd_board_wr64_be :: "board \<Rightarrow> u32 \<Rightarrow> u32 list \<Rightarrow> board res" where
  "nd_board_wr64_be b addr val =
     (let a = addr OR ND_BOARD_BITS
      in bnd (nd_longput b (a + 4) (val ! 0)) (\<lambda>b1. nd_longput b1 (a + 0) (val ! 1)))"

definition nd_board_wr128_be :: "board \<Rightarrow> u32 \<Rightarrow> u32 list \<Rightarrow> board res" where
  "nd_board_wr128_be b addr val =
     (let a = addr OR ND_BOARD_BITS
      in bnd (nd_longput b (a + 4) (val ! 0)) (\<lambda>b1.
         bnd (nd_longput b1 (a + 0) (val ! 1)) (\<lambda>b2.
         bnd (nd_longput b2 (a + 12) (val ! 2)) (\<lambda>b3.
         nd_longput b3 (a + 8) (val ! 3)))))"

definition nd_board_rd8_le :: "board \<Rightarrow> u32 \<Rightarrow> (u32 list \<times> board) res" where
  "nd_board_rd8_le b addr =
     (let a = addr OR ND_BOARD_BITS
      in bnd (nd_byteget b (a XOR 7)) (\<lambda>(v, b'). Inr ([v AND 0xFF], b')))"

definition nd_board_rd16_le :: "board \<Rightarrow> u32 \<Rightarrow> (u32 list \<times> board) res" where
  "nd_board_rd16_le b addr =
     (let a = addr OR ND_BOARD_BITS
      in bnd (nd_wordget b (a XOR 6)) (\<lambda>(v, b'). Inr ([v AND 0xFFFF], b')))"

definition nd_board_rd32_le :: "board \<Rightarrow> u32 \<Rightarrow> (u32 list \<times> board) res" where
  "nd_board_rd32_le b addr = rd1 nd_longget b ((addr OR ND_BOARD_BITS) XOR 4)"

definition nd_board_rd64_le :: "board \<Rightarrow> u32 \<Rightarrow> (u32 list \<times> board) res" where
  "nd_board_rd64_le b addr = (let a = addr OR ND_BOARD_BITS in rd2 b (a + 0) (a + 4))"

definition nd_board_rd128_le :: "board \<Rightarrow> u32 \<Rightarrow> (u32 list \<times> board) res" where
  "nd_board_rd128_le b addr =
     (let a = addr OR ND_BOARD_BITS
      in bnd (rd2 b (a + 0) (a + 4))
           (\<lambda>(lo, b1). bnd (rd2 b1 (a + 8) (a + 12)) (\<lambda>(hi, b2). Inr (lo @ hi, b2))))"

definition nd_board_wr8_le :: "board \<Rightarrow> u32 \<Rightarrow> u32 list \<Rightarrow> board res" where
  "nd_board_wr8_le b addr val = nd_byteput b ((addr OR ND_BOARD_BITS) XOR 7) (hd val AND 0xFF)"

definition nd_board_wr16_le :: "board \<Rightarrow> u32 \<Rightarrow> u32 list \<Rightarrow> board res" where
  "nd_board_wr16_le b addr val = nd_wordput b ((addr OR ND_BOARD_BITS) XOR 6) (hd val AND 0xFFFF)"

definition nd_board_wr32_le :: "board \<Rightarrow> u32 \<Rightarrow> u32 list \<Rightarrow> board res" where
  "nd_board_wr32_le b addr val = nd_longput b ((addr OR ND_BOARD_BITS) XOR 4) (val ! 0)"

definition nd_board_wr64_le :: "board \<Rightarrow> u32 \<Rightarrow> u32 list \<Rightarrow> board res" where
  "nd_board_wr64_le b addr val =
     (let a = addr OR ND_BOARD_BITS
      in bnd (nd_longput b (a + 0) (val ! 0)) (\<lambda>b1. nd_longput b1 (a + 4) (val ! 1)))"

definition nd_board_wr128_le :: "board \<Rightarrow> u32 \<Rightarrow> u32 list \<Rightarrow> board res" where
  "nd_board_wr128_le b addr val =
     (let a = addr OR ND_BOARD_BITS
      in bnd (nd_longput b (a + 0) (val ! 0)) (\<lambda>b1.
         bnd (nd_longput b1 (a + 4) (val ! 1)) (\<lambda>b2.
         bnd (nd_longput b2 (a + 8) (val ! 2)) (\<lambda>b3.
         nd_longput b3 (a + 12) (val ! 3)))))"

definition nd_board_cs8get :: "board \<Rightarrow> u32 \<Rightarrow> (u32 \<times> board) res" where
  "nd_board_cs8get b addr =
     bnd (nd_cs8get b (addr OR ND_BOARD_BITS)) (\<lambda>(v, b'). Inr (v AND 0xFF, b'))"

text \<open>
  The tables \<^verbatim>\<open>rdmem\<close> and \<^verbatim>\<open>wrmem\<close> as \<^verbatim>\<open>set_mem_access\<close> fills them;
  an unset entry is a call through an invalid pointer.
\<close>

definition rdmem :: "bool \<Rightarrow> nat \<Rightarrow> board \<Rightarrow> u32 \<Rightarrow> (u32 list \<times> board) res" where
  "rdmem be sz =
     (if sz = 1 then (if be then nd_board_rd8_be else nd_board_rd8_le)
      else if sz = 2 then (if be then nd_board_rd16_be else nd_board_rd16_le)
      else if sz = 4 then (if be then nd_board_rd32_be else nd_board_rd32_le)
      else if sz = 8 then (if be then nd_board_rd64_be else nd_board_rd64_le)
      else if sz = 16 then (if be then nd_board_rd128_be else nd_board_rd128_le)
      else (\<lambda>b a. Inl ArrayOOB))"

definition wrmem :: "bool \<Rightarrow> nat \<Rightarrow> board \<Rightarrow> u32 \<Rightarrow> u32 list \<Rightarrow> board res" where
  "wrmem be sz =
     (if sz = 1 then (if be then nd_board_wr8_be else nd_board_wr8_le)
      else if sz = 2 then (if be then nd_board_wr16_be else nd_board_wr16_le)
      else if sz = 4 then (if be then nd_board_wr32_be else nd_board_wr32_le)
      else if sz = 8 then (if be then nd_board_wr64_be else nd_board_wr64_le)
      else if sz = 16 then (if be then nd_board_wr128_be else nd_board_wr128_le)
      else (\<lambda>b a v. Inl ArrayOOB))"

section \<open>Aligned accesses stay inside the host arrays\<close>

definition bankmask_ok :: "u32 \<Rightarrow> bool" where
  "bankmask_ok m \<longleftrightarrow> unat m < ND_RAM_BYTES"

definition board_ok :: "board \<Rightarrow> bool" where
  "board_ok b \<longleftrightarrow> devs_ok (devs b) \<and> unat (rom_last_addr b) < ND_ROM_BYTES \<and>
     bankmask_ok (bankmask0 b) \<and> bankmask_ok (bankmask1 b) \<and>
     bankmask_ok (bankmask2 b) \<and> bankmask_ok (bankmask3 b)"

lemma board_ok_updates [simp]:
  "board_ok (b\<lparr>nd_ram := m\<rparr>) = board_ok b"
  "board_ok (b\<lparr>nd_vram := m\<rparr>) = board_ok b"
  "board_ok (b\<lparr>nd_rom := m\<rparr>) = board_ok b"
  "board_ok (b\<lparr>nd_dmem := m\<rparr>) = board_ok b"
  "board_ok (b\<lparr>rom_command := c\<rparr>) = board_ok b"
  by (simp_all add: board_ok_def)

lemma ram_room: "bankmask_ok m \<Longrightarrow> unat (a AND m) < ND_RAM_BYTES"
  unfolding bankmask_ok_def by (rule le_less_trans [OF unat_and_le])

lemma vram_room: "unat (a AND ND_VRAM_MASK) < ND_VRAM_BYTES"
  by (rule unat_and_less) simp

lemma ram_room4: "bankmask_ok m \<Longrightarrow> a AND 3 = 0 \<Longrightarrow> unat (a AND m) < 0x3FFFFFD"
  using aligned4_room [of a m ND_RAM_BYTES] ram_room [of m a] by simp

lemma vram_room4: "a AND 3 = 0 \<Longrightarrow> unat (a AND ND_VRAM_MASK) < 0x3FFFFD"
  using aligned4_room [of a ND_VRAM_MASK ND_VRAM_BYTES] vram_room [of a] by simp

lemma rom_room: "unat (nd_rom_addr_fix a) < ND_ROM_BYTES"
  unfolding nd_rom_addr_fix_def by (rule unat_and_less) simp

text \<open>Every bank access at an aligned address returns and keeps \<open>board_ok\<close>.\<close>

lemma nd_ram_returns:
  assumes "board_ok b" "bankmask_ok m"
  shows "a AND 3 = 0 \<Longrightarrow> returns (\<lambda>(v, b'). board_ok b') (nd_ram_lget m b a)"
    and "a AND 1 = 0 \<Longrightarrow> returns (\<lambda>(v, b'). board_ok b') (nd_ram_wget m b a)"
    and "returns (\<lambda>(v, b'). board_ok b') (nd_ram_bget m b a)"
    and "a AND 3 = 0 \<Longrightarrow> returns board_ok (nd_ram_lput m b a v)"
    and "a AND 1 = 0 \<Longrightarrow> returns board_ok (nd_ram_wput m b a v)"
    and "returns board_ok (nd_ram_bput m b a v)"
  using assms ram_room [OF assms(2), of a]
    aligned4_room [OF _ ram_room [OF assms(2)], of a] aligned2_room [OF _ ram_room [OF assms(2)], of a]
  by (simp_all add: nd_ram_lget_def nd_ram_wget_def nd_ram_bget_def nd_ram_lput_def
      nd_ram_wput_def nd_ram_bput_def do_get_mem_long_def do_get_mem_word_def
      do_put_mem_long_def do_put_mem_word_def)

lemma nd_vram_returns:
  assumes "board_ok b"
  shows "a AND 3 = 0 \<Longrightarrow> returns (\<lambda>(v, b'). board_ok b') (nd_vram_lget b a)"
    and "a AND 1 = 0 \<Longrightarrow> returns (\<lambda>(v, b'). board_ok b') (nd_vram_wget b a)"
    and "returns (\<lambda>(v, b'). board_ok b') (nd_vram_bget b a)"
    and "a AND 3 = 0 \<Longrightarrow> returns board_ok (nd_vram_lput b a v)"
    and "a AND 1 = 0 \<Longrightarrow> returns board_ok (nd_vram_wput b a v)"
    and "returns board_ok (nd_vram_bput b a v)"
  using assms vram_room [of a]
    aligned4_room [OF _ vram_room, of a] aligned2_room [OF _ vram_room, of a]
  by (simp_all add: nd_vram_lget_def nd_vram_wget_def nd_vram_bget_def nd_vram_lput_def
      nd_vram_wput_def nd_vram_bput_def do_get_mem_long_def do_get_mem_word_def
      do_put_mem_long_def do_put_mem_word_def)

lemma nd_rom_returns:
  assumes "board_ok b"
  shows "returns (\<lambda>(v, b'). board_ok b') (nd_rom_get k b a)"
    and "returns board_ok (nd_rom_put k b a v)"
    and "returns (\<lambda>(v, b'). board_ok b') (nd_rom_cs8get b a)"
proof -
  show "returns (\<lambda>(v, b'). board_ok b') (nd_rom_get k b a)"
    using assms rom_room [of a]
    by (simp add: nd_rom_get_def nd_rom_read_def) (simp add: board_ok_def)
  show "returns board_ok (nd_rom_put k b a v)"
    using assms rom_room [of a]
    by (simp add: nd_rom_put_def nd_rom_write_def) (simp add: board_ok_def)
  have "unat (a AND 0x1FFFF) < ND_ROM_BYTES" by (rule unat_and_less) simp
  with assms show "returns (\<lambda>(v, b'). board_ok b') (nd_rom_cs8get b a)"
    by (simp add: nd_rom_cs8get_def)
qed

lemma dp_returns:
  assumes "board_ok b"
  shows "returns (\<lambda>(v, b'). board_ok b') (dp_get b a)" and "returns board_ok (dp_put b a v)"
  using assms nd_dp_lput_returns [of "devs b" a v]
  by (auto simp: dp_get_def dp_put_def board_ok_def Let_def split_beta returns_iff)

lemma dmem_room: "(a :: u32) < 0x200 \<Longrightarrow> unat a < ND_DMEM_BYTES"
  by (simp add: word_less_nat_alt)

lemma nd_dmem_returns:
  assumes "board_ok b"
  shows "a AND 3 = 0 \<Longrightarrow> returns (\<lambda>(v, b'). board_ok b') (nd_dmem_lget b a)"
    and "a AND 1 = 0 \<Longrightarrow> returns (\<lambda>(v, b'). board_ok b') (nd_dmem_wget b a)"
    and "returns (\<lambda>(v, b'). board_ok b') (nd_dmem_bget b a)"
    and "a AND 3 = 0 \<Longrightarrow> returns board_ok (nd_dmem_lput b a v)"
    and "a AND 1 = 0 \<Longrightarrow> returns board_ok (nd_dmem_wput b a v)"
    and "returns board_ok (nd_dmem_bput b a v)"
  using assms dmem_room [of "a AND 0xFFF"] aligned4_room [of a "0xFFF" ND_DMEM_BYTES]
    aligned2_room [of a "0xFFF" ND_DMEM_BYTES]
  by (auto simp: nd_dmem_lget_def nd_dmem_wget_def nd_dmem_bget_def nd_dmem_lput_def
      nd_dmem_wput_def nd_dmem_bput_def do_get_mem_long_def do_get_mem_word_def
      do_put_mem_long_def do_put_mem_word_def Let_def dp_returns)

lemma nd_io_returns:
  assumes "board_ok b"
  shows "returns (\<lambda>(v, b'). board_ok b') (nd_io_lget b a)"
    and "returns board_ok (nd_io_lput b a v)"
  using assms by (simp_all add: nd_io_lget_def nd_io_lput_def board_ok_def devs_ok_write_register)

lemma nd_ramdac_returns:
  assumes "board_ok b"
  shows "returns (\<lambda>(v, b'). board_ok b') (nd_ramdac_get k b a)"
    and "returns board_ok (nd_ramdac_put k b a v)"
proof -
  have "bt463_ok (d_ramdac (devs b))" using assms by (simp add: board_ok_def devs_ok_def)
  from bt463_bget_returns [OF this, of a] bt463_bput_returns [OF this, of a "drop_bit k v"]
  show "returns (\<lambda>(v, b'). board_ok b') (nd_ramdac_get k b a)"
    and "returns board_ok (nd_ramdac_put k b a v)"
    using assms
    by (auto simp: nd_ramdac_get_def nd_ramdac_put_def returns_iff board_ok_def devs_ok_def)
qed

lemmas nd_bank_returns =
  nd_ram_returns nd_vram_returns nd_rom_returns nd_dmem_returns nd_io_returns nd_ramdac_returns

lemma board_ok_bankmasks:
  "board_ok b \<Longrightarrow> bankmask_ok (bankmask0 b)" "board_ok b \<Longrightarrow> bankmask_ok (bankmask1 b)"
  "board_ok b \<Longrightarrow> bankmask_ok (bankmask2 b)" "board_ok b \<Longrightarrow> bankmask_ok (bankmask3 b)"
  by (simp_all add: board_ok_def)

lemma nd_access_returns:
  assumes "board_ok b"
  shows "a AND 3 = 0 \<Longrightarrow> returns (\<lambda>(v, b'). board_ok b') (nd_longget b a)"
    and "a AND 1 = 0 \<Longrightarrow> returns (\<lambda>(v, b'). board_ok b') (nd_wordget b a)"
    and "returns (\<lambda>(v, b'). board_ok b') (nd_byteget b a)"
    and "a AND 3 = 0 \<Longrightarrow> returns board_ok (nd_longput b a v)"
    and "a AND 1 = 0 \<Longrightarrow> returns board_ok (nd_wordput b a v)"
    and "returns board_ok (nd_byteput b a v)"
    and "returns (\<lambda>(v, b'). board_ok b') (nd_cs8get b a)"
  using assms
  by (simp_all add: nd_longget_def nd_wordget_def nd_byteget_def nd_longput_def nd_wordput_def
      nd_byteput_def nd_cs8get_def nd_bank_returns board_ok_bankmasks split: bank.split)

text \<open>Whatever the alignment, an access that returns keeps \<open>board_ok\<close>.\<close>

lemma nd_bank_holds:
  assumes "board_ok b"
  shows "holds (\<lambda>(v, b'). board_ok b') (nd_ram_lget m b a)"
    and "holds (\<lambda>(v, b'). board_ok b') (nd_ram_wget m b a)"
    and "holds board_ok (nd_ram_lput m b a v)"
    and "holds board_ok (nd_ram_wput m b a v)"
    and "holds (\<lambda>(v, b'). board_ok b') (nd_vram_lget b a)"
    and "holds (\<lambda>(v, b'). board_ok b') (nd_vram_wget b a)"
    and "holds board_ok (nd_vram_lput b a v)"
    and "holds board_ok (nd_vram_wput b a v)"
    and "holds (\<lambda>(v, b'). board_ok b') (nd_dmem_lget b a)"
    and "holds (\<lambda>(v, b'). board_ok b') (nd_dmem_wget b a)"
    and "holds board_ok (nd_dmem_lput b a v)"
    and "holds board_ok (nd_dmem_wput b a v)"
  using assms dp_returns [THEN returns_holds]
  by (simp_all add: nd_ram_lget_def nd_ram_wget_def nd_ram_lput_def nd_ram_wput_def
      nd_vram_lget_def nd_vram_wget_def nd_vram_lput_def nd_vram_wput_def
      nd_dmem_lget_def nd_dmem_wget_def nd_dmem_lput_def nd_dmem_wput_def Let_def
      do_get_mem_long_def do_get_mem_word_def do_put_mem_long_def do_put_mem_word_def)

lemma nd_access_holds:
  assumes "board_ok b"
  shows "holds (\<lambda>(v, b'). board_ok b') (nd_longget b a)"
    and "holds (\<lambda>(v, b'). board_ok b') (nd_wordget b a)"
    and "holds (\<lambda>(v, b'). board_ok b') (nd_byteget b a)"
    and "holds board_ok (nd_longput b a v)"
    and "holds board_ok (nd_wordput b a v)"
    and "holds board_ok (nd_byteput b a v)"
    and "holds (\<lambda>(v, b'). board_ok b') (nd_cs8get b a)"
  using assms nd_access_returns(3,6,7) [OF assms, THEN returns_holds]
  by (simp_all add: nd_longget_def nd_wordget_def nd_longput_def nd_wordput_def
      nd_bank_returns [THEN returns_holds] nd_bank_holds split: bank.split)

lemma nd_board_rd_holds:
  assumes "board_ok b"
  shows "holds (\<lambda>(v, b'). board_ok b') (rd2 b a0 a1)"
proof -
  have "holds (\<lambda>(v, b'). board_ok b') (nd_longget b x)" if "board_ok b" for b x
    using that by (rule nd_access_holds(1))
  then show ?thesis using assms unfolding rd2_def
    by (intro holds_bnd holds_mono [OF nd_access_holds(1)]) (auto intro!: holds_bnd holds_mono [OF nd_access_holds(1)])
qed

lemma rdmem_holds: "board_ok b \<Longrightarrow> holds (\<lambda>(v, b'). board_ok b') (rdmem be n b a)"
  by (auto simp: rdmem_def nd_board_rd8_be_def nd_board_rd16_be_def nd_board_rd32_be_def
      nd_board_rd64_be_def nd_board_rd128_be_def nd_board_rd8_le_def nd_board_rd16_le_def
      nd_board_rd32_le_def nd_board_rd64_le_def nd_board_rd128_le_def rd1_def Let_def
      intro!: holds_bnd holds_mono [OF nd_access_holds(1)] holds_mono [OF nd_access_holds(2)]
        holds_mono [OF nd_access_holds(3)] holds_mono [OF nd_board_rd_holds])

lemma wrmem_holds: "board_ok b \<Longrightarrow> holds board_ok (wrmem be n b a v)"
  by (auto simp: wrmem_def nd_board_wr8_be_def nd_board_wr16_be_def nd_board_wr32_be_def
      nd_board_wr64_be_def nd_board_wr128_be_def nd_board_wr8_le_def nd_board_wr16_le_def
      nd_board_wr32_le_def nd_board_wr64_le_def nd_board_wr128_le_def Let_def nd_access_holds
      intro!: holds_bnd holds_mono [OF nd_access_holds(4)])

lemma nd_board_cs8get_holds: "board_ok b \<Longrightarrow> holds (\<lambda>(v, b'). board_ok b') (nd_board_cs8get b a)"
  unfolding nd_board_cs8get_def by (auto intro!: holds_bnd holds_mono [OF nd_access_holds(7)])

section \<open>Longwords of RAM and VRAM as a memory of cells\<close>

text \<open>
  The contract the wide accesses of the i860 rely on: where an address names a cell, reads return
  and leave the memory alone, a write is read back through every alias of its cell, and every
  other cell keeps its value.
\<close>

locale cell_mem =
  fixes get :: "'m \<Rightarrow> 'a \<Rightarrow> ('v \<times> 'm) res"
    and put :: "'m \<Rightarrow> 'a \<Rightarrow> 'v \<Rightarrow> 'm res"
    and cell :: "'m \<Rightarrow> 'a \<Rightarrow> 'c option"
  assumes get_returns: "cell m a = Some c \<Longrightarrow> \<exists>v. get m a = Inr (v, m)"
    and put_returns: "cell m a = Some c \<Longrightarrow> \<exists>m'. put m a v = Inr m'"
    and cell_put: "cell m a = Some c \<Longrightarrow> put m a v = Inr m' \<Longrightarrow> cell m' = cell m"
    and get_put_same: "cell m a = Some c \<Longrightarrow> put m a v = Inr m' \<Longrightarrow> cell m a' = Some c \<Longrightarrow>
       get m' a' = Inr (v, m')"
    and get_put_other: "cell m a = Some c \<Longrightarrow> put m a v = Inr m' \<Longrightarrow> cell m a' = Some c' \<Longrightarrow>
       c' \<noteq> c \<Longrightarrow> get m a' = Inr (w, m) \<Longrightarrow> get m' a' = Inr (w, m')"
begin

text \<open>A list of cells written in order.\<close>

fun puts :: "'m \<Rightarrow> ('a \<times> 'v) list \<Rightarrow> 'm res" where
  "puts m [] = Inr m"
| "puts m ((a, v) # ps) = bnd (put m a v) (\<lambda>m'. puts m' ps)"

lemma puts_keep:
  assumes "cell m a = Some c" "get m a = Inr (w, m)"
    and "\<forall>(a', v) \<in> set ps. \<exists>c'. cell m a' = Some c' \<and> c' \<noteq> c"
  shows "\<exists>m'. puts m ps = Inr m' \<and> cell m' = cell m \<and> get m' a = Inr (w, m')"
  using assms
proof (induction ps arbitrary: m)
  case Nil
  then show ?case by simp
next
  case (Cons p ps)
  obtain a' v where p: "p = (a', v)" by (cases p)
  with Cons.prems obtain c' where c': "cell m a' = Some c'" "c' \<noteq> c" by auto
  from put_returns [OF c'(1)] obtain m1 where m1: "put m a' v = Inr m1" by blast
  have "cell m1 = cell m" using c'(1) m1 by (rule cell_put)
  moreover have "get m1 a = Inr (w, m1)"
    using get_put_other [OF c'(1) m1 Cons.prems(1) c'(2) [symmetric] Cons.prems(2)] .
  ultimately show ?case using Cons.IH [of m1] Cons.prems p m1 by auto
qed

text \<open>Writes to distinct cells read back, every one of them.\<close>

lemma puts_get:
  assumes "\<forall>a \<in> set as. cell m a \<noteq> None" "distinct (map (cell m) as)" "length vs = length as"
  shows "\<exists>m'. puts m (zip as vs) = Inr m' \<and> cell m' = cell m \<and>
    list_all2 (\<lambda>a v. get m' a = Inr (v, m')) as vs"
  using assms
proof (induction as arbitrary: m vs)
  case Nil
  then show ?case by simp
next
  case (Cons a as)
  from Cons.prems(3) obtain v vs' where vs: "vs = v # vs'" by (cases vs) auto
  from Cons.prems(1) obtain c where c: "cell m a = Some c" by auto
  from put_returns [OF c] obtain m1 where m1: "put m a v = Inr m1" by blast
  have cm1: "cell m1 = cell m" using c m1 by (rule cell_put)
  have ga: "get m1 a = Inr (v, m1)" using get_put_same [OF c m1 c] .
  have sep: "\<forall>(a', v) \<in> set (zip as vs'). \<exists>c'. cell m1 a' = Some c' \<and> c' \<noteq> c"
    using Cons.prems(1,2) c by (force simp: cm1 dest: set_zip_leftD)
  from puts_keep [OF _ ga sep] c cm1 obtain m2
    where m2: "puts m1 (zip as vs') = Inr m2" "get m2 a = Inr (v, m2)" by auto
  from Cons.IH [of m1 vs'] Cons.prems cm1 vs m2
  show ?case using m1 by auto
qed

end

datatype cell = RamCell nat | VramCell nat

definition ram_cell :: "u32 \<Rightarrow> u32 \<Rightarrow> cell option" where
  "ram_cell m a = (if bankmask_ok m \<and> m AND 3 = 3 then Some (RamCell (unat (a AND m))) else None)"

text \<open>The longword of RAM or VRAM an address names; other addresses name no cell.\<close>

definition long_cell :: "board \<Rightarrow> u32 \<Rightarrow> cell option" where
  "long_cell b a =
     (if a AND 3 \<noteq> 0 then None
      else case bank_of b a of
        RamBank0 \<Rightarrow> ram_cell (bankmask0 b) a
      | RamBank1 \<Rightarrow> ram_cell (bankmask1 b) a
      | RamBank2 \<Rightarrow> ram_cell (bankmask2 b) a
      | RamBank3 \<Rightarrow> ram_cell (bankmask3 b) a
      | VramBank \<Rightarrow> Some (VramCell (unat (a AND ND_VRAM_MASK)))
      | _ \<Rightarrow> None)"

definition cell_get :: "board \<Rightarrow> cell \<Rightarrow> u32" where
  "cell_get b c =
     (case c of
        RamCell i \<Rightarrow> be_long (nd_ram b i) (nd_ram b (i + 1)) (nd_ram b (i + 2)) (nd_ram b (i + 3))
      | VramCell i \<Rightarrow> be_long (nd_vram b i) (nd_vram b (i + 1)) (nd_vram b (i + 2)) (nd_vram b (i + 3)))"

definition put4 :: "(nat \<Rightarrow> u8) \<Rightarrow> nat \<Rightarrow> u32 \<Rightarrow> (nat \<Rightarrow> u8)" where
  "put4 m i v = m(i := ucast (drop_bit 24 v), i + 1 := ucast (drop_bit 16 v),
     i + 2 := ucast (drop_bit 8 v), i + 3 := ucast v)"

definition cell_put :: "board \<Rightarrow> cell \<Rightarrow> u32 \<Rightarrow> board" where
  "cell_put b c v =
     (case c of RamCell i \<Rightarrow> b\<lparr>nd_ram := put4 (nd_ram b) i v\<rparr>
      | VramCell i \<Rightarrow> b\<lparr>nd_vram := put4 (nd_vram b) i v\<rparr>)"

lemma be_long_split: "be_long (ucast (drop_bit 24 v)) (ucast (drop_bit 16 v)) (ucast (drop_bit 8 v)) (ucast v) = v"
proof (rule bit_word_eqI)
  fix n assume "n < LENGTH(32)"
  then show "bit (be_long (ucast (drop_bit 24 v)) (ucast (drop_bit 16 v)) (ucast (drop_bit 8 v)) (ucast v)) n
    = bit v n"
    by (cases "n < 8"; cases "n < 16"; cases "n < 24"; simp add: be_long_def bit_simps less_diff_conv2)
qed

lemma be_word_split: "be_word (ucast (drop_bit 8 v)) (ucast v) = v AND 0xFFFF"
proof -
  have e: "(0xFFFF :: u32) = mask 16" by (simp add: mask_eq_exp_minus_1)
  show ?thesis
  proof (unfold e, rule bit_word_eqI)
    fix n assume "n < LENGTH(32)"
    then show "bit (be_word (ucast (drop_bit 8 v)) (ucast v)) n = bit (v AND mask 16) n"
      by (cases "n < 8"; cases "n < 16"; simp add: be_word_def bit_simps less_diff_conv2)
  qed
qed

lemma long_cell_get: "long_cell b a = Some c \<Longrightarrow> nd_longget b a = Inr (cell_get b c, b)"
  by (cases "bank_of b a")
    (auto simp: long_cell_def ram_cell_def nd_longget_def nd_ram_lget_def nd_vram_lget_def
      do_get_mem_long_def cell_get_def
      ram_room4 vram_room4 split: if_splits)

lemma long_cell_put: "long_cell b a = Some c \<Longrightarrow> nd_longput b a v = Inr (cell_put b c v)"
  by (cases "bank_of b a")
    (auto simp: long_cell_def ram_cell_def nd_longput_def nd_ram_lput_def nd_vram_lput_def
      do_put_mem_long_def cell_put_def put4_def
      ram_room4 vram_room4 split: if_splits)

fun cell_index :: "cell \<Rightarrow> nat" where
  "cell_index (RamCell i) = i"
| "cell_index (VramCell i) = i"

lemma long_cell_aligned: "long_cell b a = Some c \<Longrightarrow> 4 dvd cell_index c"
  by (cases "bank_of b a")
    (auto simp: long_cell_def ram_cell_def and3_dvd [symmetric] and_zero_mono split: if_splits)

lemma cell_get_put_same [simp]: "cell_get (cell_put b c v) c = v"
  by (cases c) (simp_all add: cell_get_def cell_put_def put4_def be_long_split)

lemma put4_other:
  assumes "4 dvd i" "4 dvd j" "i \<noteq> j"
  shows "k < 4 \<Longrightarrow> put4 m i v (j + k) = m (j + k)"
proof -
  assume "k < 4"
  then have "j + k \<noteq> i" "j + k \<noteq> i + 1" "j + k \<noteq> i + 2" "j + k \<noteq> i + 3"
    using assms by presburger+
  then show ?thesis by (simp add: put4_def)
qed

lemma cell_get_put_other:
  "4 dvd cell_index c \<Longrightarrow> 4 dvd cell_index d \<Longrightarrow> d \<noteq> c \<Longrightarrow> cell_get (cell_put b c v) d = cell_get b d"
  using put4_other [of "cell_index c" "cell_index d" 0] put4_other [of "cell_index c" "cell_index d" 1]
    put4_other [of "cell_index c" "cell_index d" 2] put4_other [of "cell_index c" "cell_index d" 3]
  by (cases c; cases d) (simp_all add: cell_get_def cell_put_def)

lemma long_cell_cell_put [simp]: "long_cell (cell_put b c v) = long_cell b"
  by (cases c) (auto simp: long_cell_def cell_put_def bank_of_def fun_eq_iff split: bank.split)

interpretation nd_long: cell_mem nd_longget nd_longput long_cell
proof unfold_locales
  fix b b' :: board and a a' :: u32 and c c' :: cell and v w :: u32
  assume c: "long_cell b a = Some c"
  show "\<exists>v. nd_longget b a = Inr (v, b)" using long_cell_get [OF c] by blast
  show "\<exists>b'. nd_longput b a v = Inr b'" using long_cell_put [OF c] by blast
  assume "nd_longput b a v = Inr b'"
  then have b': "b' = cell_put b c v" using long_cell_put [OF c] by simp
  then show "long_cell b' = long_cell b" by simp
  show "long_cell b a' = Some c \<Longrightarrow> nd_longget b' a' = Inr (v, b')"
    using b' by (simp add: long_cell_get)
  assume "long_cell b a' = Some c'" "c' \<noteq> c" "nd_longget b a' = Inr (w, b)"
  then show "nd_longget b' a' = Inr (w, b')"
    using b' c by (simp add: long_cell_get cell_get_put_other long_cell_aligned)
qed

section \<open>The bank map in closed form\<close>

lemma nd_map_banks_apply:
  "nd_map_banks k st n t i = (if st \<le> i \<and> i < st + n then k else t i)"
  unfolding nd_map_banks_def by (induction n arbitrary: t) (auto simp: less_Suc_eq)

lemma ram_bankmask_ok: "bankmask_ok (ram_bankmask (check_bank_size n))"
  by (simp add: check_bank_size_def ram_bankmask_def bankmask_ok_def)

lemma nd_memory_init_ok: "devs_ok (devs b) \<Longrightarrow> board_ok (nd_memory_init n0 n1 n2 n3 rom b)"
  by (simp add: board_ok_def nd_memory_init_def Let_def ram_bankmask_ok)

text \<open>The board of a machine with four banks of four megabytes.\<close>

definition board_power_on :: board where
  "board_power_on = nd_memory_init 4 4 4 4 (\<lambda>_. 0) board_zero"

lemma board_power_on_ok: "board_ok board_power_on"
  unfolding board_power_on_def
  by (rule nd_memory_init_ok) (simp add: board_zero_def nd_devs_power_on_ok)

definition ram_bank :: "bank \<Rightarrow> int \<Rightarrow> bank" where
  "ram_bank k n = (if n \<le> 0 then RamEmpty else k)"

definition memory_map :: "int \<Rightarrow> int \<Rightarrow> int \<Rightarrow> int \<Rightarrow> nat \<Rightarrow> bank" where
  "memory_map s0 s1 s2 s3 i =
     (if i < 0xF800 then IllegalBank
      else if i < 0xF900 then ram_bank RamBank0 s0
      else if i < 0xFA00 then ram_bank RamBank1 s1
      else if i < 0xFB00 then ram_bank RamBank2 s2
      else if i < 0xFC00 then ram_bank RamBank3 s3
      else if i < 0xFE00 then IllegalBank
      else if i < 0xFF00 then VramBank
      else if i = 0xFF00 then DmemBank
      else if i = 0xFF20 then RamdacBank
      else if i = 0xFF40 then UnknownBank
      else if i = 0xFF80 then IoBank
      else if i < 0xFFF0 then IllegalBank else RomBank)"

lemma bank_of_memory_init:
  "bank_of (nd_memory_init s0 s1 s2 s3 rom b) addr = memory_map s0 s1 s2 s3 (unat (drop_bit 16 addr))"
proof -
  let ?i = "unat (drop_bit 16 addr)"
  have "?i < 0x10000"
    by (simp add: drop_bit_eq_div unat_div_distrib)
      (rule less_mult_imp_div_less, rule order_less_le_trans [OF unsigned_less], simp)
  then show ?thesis
    by (simp add: bank_of_def nd_memory_init_def Let_def nd_map_banks_apply map_ram_bank_def
        nd_init_mem_banks_def memory_map_def ram_bank_def check_bank_size_def)
qed

lemma bank_of_power_on: "bank_of board_power_on addr = memory_map 4 4 4 4 (unat (drop_bit 16 addr))"
  by (simp add: board_power_on_def bank_of_memory_init)

lemma bankmask_power_on:
  "bankmask0 board_power_on = 0x033FFFFF" "bankmask1 board_power_on = 0x033FFFFF"
  "bankmask2 board_power_on = 0x033FFFFF" "bankmask3 board_power_on = 0x033FFFFF"
  by (simp_all add: board_power_on_def nd_memory_init_def Let_def ram_bankmask_def check_bank_size_def)

text \<open>
  After \<^verbatim>\<open>nd_memory_init\<close> the table sends every address to the bank of the memory map of
  the board: RAM from F8000000 to FBFFFFFF (empty banks included), VRAM from FE000000, the
  dither memory, the RAMDAC, the controller registers, the ROM at the top, and nothing else.
\<close>

theorem nd_memory_map:
  "bank_of (nd_memory_init s0 s1 s2 s3 rom b) addr = memory_map s0 s1 s2 s3 (unat (drop_bit 16 addr))"
  by (rule bank_of_memory_init)

end
