(* ===== verification/Nd_Access.thy ===== *)
theory Nd_Access
  imports Nd_Board "HOL-Library.Multiset"
begin

text \<open>
  What the accesses of the i860 to the board guarantee (src/dimension/dimension.c): aligned
  accesses of every width return in both byte orders, wide stores read back, and the accesses of
  smaller widths see the bytes and halves of the longwords in the byte order of the mode.
\<close>

section \<open>Aligned accesses return\<close>

lemma board_bits_low: "(a OR ND_BOARD_BITS) AND 15 = a AND 15"
  by (simp add: bit.conj_disj_distrib2)

lemma and15_and: "(x AND 15) AND 3 = x AND (3 :: u32)" "(x AND 15) AND 1 = x AND (1 :: u32)"
  by (simp_all add: and.assoc)

lemma board_bits_align:
  "(a OR ND_BOARD_BITS) AND 3 = a AND 3" "(a OR ND_BOARD_BITS) AND 1 = a AND 1"
  using board_bits_low [of a] by (metis and15_and)+

lemma align4_add: "x AND 3 = 0 \<Longrightarrow> 4 dvd unat k \<Longrightarrow> (x + k) AND 3 = (0 :: u32)"
  unfolding and3_dvd by (simp add: unat_word_ariths dvd_mod)

lemma align4_xor4: "x AND 3 = 0 \<Longrightarrow> (x XOR 4) AND 3 = (0 :: u32)"
  by (simp add: bit.conj_xor_distrib2)

lemma align2_xor6: "x AND 1 = 0 \<Longrightarrow> (x XOR 6) AND 1 = (0 :: u32)"
  by (simp add: bit.conj_xor_distrib2)

lemma align_weaken: "a AND 7 = 0 \<Longrightarrow> a AND 3 = (0 :: u32)" "a AND 15 = 0 \<Longrightarrow> a AND 3 = (0 :: u32)"
proof -
  show "a AND 3 = 0" if "a AND 7 = 0"
  proof -
    from that have "(a AND 7) AND 3 = 0" by simp
    then show ?thesis by (simp add: and.assoc)
  qed
  show "a AND 3 = 0" if "a AND 15 = 0"
  proof -
    from that have "(a AND 15) AND 3 = 0" by simp
    then show ?thesis by (simp add: and.assoc)
  qed
qed

definition access_ok :: "nat \<Rightarrow> (u32 list \<times> board) res \<Rightarrow> bool" where
  "access_ok n = returns (\<lambda>(d, b). length d = n \<and> board_ok b)"

lemma rd1_ok:
  assumes "board_ok b" "x AND 3 = 0"
  shows "access_ok 1 (rd1 nd_longget b x)"
  using nd_access_returns(1) [OF assms]
  by (auto simp: rd1_def access_ok_def returns_iff)

lemma rd2_ok:
  assumes "board_ok b" "x AND 3 = 0" "y AND 3 = 0"
  shows "access_ok 2 (rd2 b x y)"
  using nd_access_returns(1) [OF assms(1,2)] nd_access_returns(1) [OF _ assms(3)]
  by (fastforce simp: rd2_def access_ok_def returns_iff)

lemma rd4_ok:
  assumes "board_ok b" "x AND 3 = 0" "y AND 3 = 0" "u AND 3 = 0" "v AND 3 = 0"
  shows "access_ok 4 (bnd (rd2 b x y) (\<lambda>(lo, b1). bnd (rd2 b1 u v) (\<lambda>(hi, b2). Inr (lo @ hi, b2))))"
  using rd2_ok [OF assms(1-3)] rd2_ok [OF _ assms(4,5)]
  by (fastforce simp: access_ok_def returns_iff)

lemma put2_ok:
  assumes "board_ok b" "x AND 3 = 0" "y AND 3 = 0"
  shows "returns board_ok (bnd (nd_longput b x v) (\<lambda>b1. nd_longput b1 y w))"
  by (rule returns_bnd, rule returns_mono [OF nd_access_returns(4) [OF assms(1,2)]],
      rule nd_access_returns(4) [OF _ assms(3)])

lemma put4_ok:
  assumes "board_ok b" "x AND 3 = 0" "y AND 3 = 0" "u AND 3 = 0" "v AND 3 = 0"
  shows "returns board_ok (bnd (nd_longput b x p) (\<lambda>b1. bnd (nd_longput b1 y q)
    (\<lambda>b2. bnd (nd_longput b2 u r) (\<lambda>b3. nd_longput b3 v t))))"
  by (rule returns_bnd, rule returns_mono [OF nd_access_returns(4) [OF assms(1,2)]],
      rule returns_bnd, rule returns_mono [OF nd_access_returns(4) [OF _ assms(3)]], assumption,
      rule put2_ok [OF _ assms(4,5)])

lemma rdmem_ok:
  assumes "board_ok b"
  shows "access_ok 1 (rdmem be 1 b a)"
    and "a AND 1 = 0 \<Longrightarrow> access_ok 1 (rdmem be 2 b a)"
    and "a AND 3 = 0 \<Longrightarrow> access_ok 1 (rdmem be 4 b a)"
    and "a AND 3 = 0 \<Longrightarrow> access_ok 2 (rdmem be 8 b a)"
    and "a AND 3 = 0 \<Longrightarrow> access_ok 4 (rdmem be 16 b a)"
proof -
  let ?A = "a OR ND_BOARD_BITS"
  show "access_ok 1 (rdmem be 1 b a)"
    using nd_access_returns(3) [OF assms, of ?A] nd_access_returns(3) [OF assms, of "?A XOR 7"]
    by (auto simp: rdmem_def nd_board_rd8_be_def nd_board_rd8_le_def Let_def access_ok_def returns_iff)
  show "access_ok 1 (rdmem be 2 b a)" if "a AND 1 = 0"
    using nd_access_returns(2) [OF assms, of ?A] nd_access_returns(2) [OF assms, of "?A XOR 6"]
      align2_xor6 [of ?A] that board_bits_align(2) [of a]
    by (auto simp: rdmem_def nd_board_rd16_be_def nd_board_rd16_le_def Let_def access_ok_def returns_iff)
  assume "a AND 3 = 0"
  then have A: "?A AND 3 = 0" by (simp add: board_bits_align)
  then have A': "(?A XOR 4) AND 3 = 0" "(?A + 4) AND 3 = 0" "(?A + 8) AND 3 = 0" "(?A + 12) AND 3 = 0"
    by (simp_all add: align4_xor4 align4_add)
  show "access_ok 1 (rdmem be 4 b a)" "access_ok 2 (rdmem be 8 b a)" "access_ok 4 (rdmem be 16 b a)"
    using rd1_ok [OF assms A] rd1_ok [OF assms A'(1)] rd2_ok [OF assms A A'(2)] rd2_ok [OF assms A'(2) A]
      rd4_ok [OF assms A A'(2,3,4)] rd4_ok [OF assms A'(2) A A'(4,3)]
    by (simp_all add: rdmem_def nd_board_rd32_be_def nd_board_rd32_le_def nd_board_rd64_be_def
        nd_board_rd64_le_def nd_board_rd128_be_def nd_board_rd128_le_def Let_def)
qed

lemma wrmem_ok:
  assumes "board_ok b"
  shows "returns board_ok (wrmem be 1 b a v)"
    and "a AND 1 = 0 \<Longrightarrow> returns board_ok (wrmem be 2 b a v)"
    and "a AND 3 = 0 \<Longrightarrow> returns board_ok (wrmem be 4 b a v)"
    and "a AND 3 = 0 \<Longrightarrow> returns board_ok (wrmem be 8 b a v)"
    and "a AND 3 = 0 \<Longrightarrow> returns board_ok (wrmem be 16 b a v)"
proof -
  let ?A = "a OR ND_BOARD_BITS"
  show "returns board_ok (wrmem be 1 b a v)"
    using nd_access_returns(6) [OF assms]
    by (simp add: wrmem_def nd_board_wr8_be_def nd_board_wr8_le_def)
  show "returns board_ok (wrmem be 2 b a v)" if "a AND 1 = 0"
    using nd_access_returns(5) [OF assms] align2_xor6 [of ?A] that board_bits_align(2) [of a]
    by (simp add: wrmem_def nd_board_wr16_be_def nd_board_wr16_le_def)
  assume "a AND 3 = 0"
  then have A: "?A AND 3 = 0" by (simp add: board_bits_align)
  then have A': "(?A XOR 4) AND 3 = 0" "(?A + 4) AND 3 = 0" "(?A + 8) AND 3 = 0" "(?A + 12) AND 3 = 0"
    by (simp_all add: align4_xor4 align4_add)
  show "returns board_ok (wrmem be 4 b a v)" "returns board_ok (wrmem be 8 b a v)"
    "returns board_ok (wrmem be 16 b a v)"
    using nd_access_returns(4) [OF assms A] nd_access_returns(4) [OF assms A'(1)]
      put2_ok [OF assms A A'(2)] put2_ok [OF assms A'(2) A]
      put4_ok [OF assms A A'(2,3,4)] put4_ok [OF assms A'(2) A A'(4,3)]
    by (simp_all add: wrmem_def nd_board_wr32_be_def nd_board_wr32_le_def nd_board_wr64_be_def
        nd_board_wr64_le_def nd_board_wr128_be_def nd_board_wr128_le_def Let_def)
qed

definition access_width :: "nat \<Rightarrow> bool" where
  "access_width n \<longleftrightarrow> n \<in> {1, 2, 4, 8, 16}"

lemma aligned_returns:
  assumes "board_ok b" "access_width n" "a AND (of_nat n - 1) = 0"
  shows "(\<exists>d b'. rdmem be n b a = Inr (d, b') \<and> length d = (n + 3) div 4 \<and> board_ok b') \<and>
    (\<exists>b'. wrmem be n b a v = Inr b' \<and> board_ok b')"
  using assms rdmem_ok [OF assms(1), where be = be and a = a]
    wrmem_ok [OF assms(1), where be = be and a = a and v = v] align_weaken [of a]
  by (auto simp: access_width_def access_ok_def returns_iff)

text \<open>
  On an initialised board every naturally aligned access of 1, 2, 4, 8 or 16 bytes to any
  address returns, in both byte orders: no bank handler reads or writes outside its host array,
  a read delivers all its words, and the board stays well formed.
\<close>

theorem aligned_access_returns:
  assumes "board_ok b" "access_width n" "a AND (of_nat n - 1) = 0"
  shows "(\<exists>d b'. rdmem be n b a = Inr (d, b') \<and> length d = (n + 3) div 4 \<and> board_ok b') \<and>
    (\<exists>b'. wrmem be n b a v = Inr b' \<and> board_ok b')"
  using assms by (rule aligned_returns)

theorem aligned_access_returns_witness:
  "(\<exists>d b'. rdmem True 8 board_power_on 0xFE000010 = Inr (d, b') \<and> length d = (8 + 3) div 4 \<and> board_ok b') \<and>
   (\<exists>b'. wrmem True 8 board_power_on 0xFE000010 [1, 2] = Inr b' \<and> board_ok b')"
  by (rule aligned_access_returns) (simp_all add: board_power_on_ok access_width_def)

section \<open>Wide stores read back\<close>

text \<open>The words from \<open>x\<close> on are distinct longwords of RAM or VRAM.\<close>

definition plain_words :: "board \<Rightarrow> u32 \<Rightarrow> bool" where
  "plain_words b x \<longleftrightarrow>
     (\<forall>y \<in> set [x, x + 4, x + 8, x + 12]. long_cell b y \<noteq> None) \<and>
     distinct (map (long_cell b) [x, x + 4, x + 8, x + 12])"

lemma long_puts4:
  assumes "plain_words b x" "mset as = mset [x, x + 4, x + 8, x + 12]" "length vs = 4"
  obtains b' where "nd_long.puts b (zip as vs) = Inr b'"
    "list_all2 (\<lambda>a v. nd_longget b' a = Inr (v, b')) as vs"
proof -
  have "set as = set [x, x + 4, x + 8, x + 12]" using assms(2) by (metis set_mset_mset)
  moreover have "length as = 4" using mset_eq_length [OF assms(2)] by simp
  moreover have "distinct (map (long_cell b) as)"
    using assms(1,2) unfolding plain_words_def by (metis distinct_map mset_eq_imp_distinct_iff set_mset_mset)
  ultimately show ?thesis
    using nd_long.puts_get [of as b vs] assms(1,3) that unfolding plain_words_def by auto
qed

text \<open>
  C18. A 64-bit or 128-bit store to RAM or VRAM followed by a load of the same width at the same
  address returns the stored words, in the big-endian and in the little-endian mode alike.
\<close>

theorem wide_store_reads_back:
  assumes "plain_words b (a OR ND_BOARD_BITS)"
  shows "(\<exists>b'. wrmem be 8 b a [v0, v1] = Inr b' \<and> rdmem be 8 b' a = Inr ([v0, v1], b')) \<and>
    (\<exists>b'. wrmem be 16 b a [v0, v1, v2, v3] = Inr b' \<and>
          rdmem be 16 b' a = Inr ([v0, v1, v2, v3], b'))"
proof -
  let ?A = "a OR ND_BOARD_BITS"
  let ?be = "[?A + 4, ?A, ?A + 12, ?A + 8]" and ?le = "[?A, ?A + 4, ?A + 8, ?A + 12]"
  have two: "\<exists>b'. nd_long.puts b (zip [x, y] [v0, v1]) = Inr b' \<and>
      nd_longget b' x = Inr (v0, b') \<and> nd_longget b' y = Inr (v1, b')"
    if "(x, y) = (?A, ?A + 4) \<or> (x, y) = (?A + 4, ?A)" for x y
    using assms that nd_long.puts_get [of "[x, y]" b "[v0, v1]"]
    unfolding plain_words_def by (auto simp del: zip_Cons_Cons)
  obtain b1 where b1: "nd_long.puts b (zip ?be [v0, v1, v2, v3]) = Inr b1"
    "list_all2 (\<lambda>a v. nd_longget b1 a = Inr (v, b1)) ?be [v0, v1, v2, v3]"
    by (rule long_puts4 [OF assms, of ?be "[v0, v1, v2, v3]"]) auto
  obtain b2 where b2: "nd_long.puts b (zip ?le [v0, v1, v2, v3]) = Inr b2"
    "list_all2 (\<lambda>a v. nd_longget b2 a = Inr (v, b2)) ?le [v0, v1, v2, v3]"
    by (rule long_puts4 [OF assms, of ?le "[v0, v1, v2, v3]"]) auto
  show ?thesis
    using two [of ?A "?A + 4"] two [of "?A + 4" ?A] b1 b2
    by (auto simp: wrmem_def rdmem_def nd_board_wr64_be_def nd_board_wr64_le_def nd_board_wr128_be_def
        nd_board_wr128_le_def nd_board_rd64_be_def nd_board_rd64_le_def nd_board_rd128_be_def
        nd_board_rd128_le_def rd2_def Let_def)
qed

lemma power_on_ram_cell:
  assumes "a AND 3 = 0" "unat (drop_bit 16 a) = 0xF800"
  shows "long_cell board_power_on a = Some (RamCell (unat (a AND 0x033FFFFF)))"
  using assms
  by (simp add: long_cell_def bank_of_power_on memory_map_def ram_bank_def ram_cell_def
      bankmask_power_on bankmask_ok_def)

lemma plain_words_power_on: "plain_words board_power_on 0xF8000100"
  by (simp add: plain_words_def power_on_ram_cell drop_bit_eq_div unat_div_distrib)

theorem wide_store_reads_back_witness:
  "(\<exists>b'. wrmem False 8 board_power_on 0x28000100 [5, 6] = Inr b' \<and>
         rdmem False 8 b' 0x28000100 = Inr ([5, 6], b')) \<and>
   (\<exists>b'. wrmem False 16 board_power_on 0x28000100 [5, 6, 7, 8] = Inr b' \<and>
         rdmem False 16 b' 0x28000100 = Inr ([5, 6, 7, 8], b'))"
  by (rule wide_store_reads_back) (simp add: plain_words_power_on)

section \<open>Bytes of a longword in the two byte orders\<close>

lemma low_split:
  assumes "x AND 3 = (0 :: u32)" "i < 4"
  shows "x + of_nat i = x XOR of_nat i" "x + of_nat i = x OR of_nat i"
    and "drop_bit 16 (x OR of_nat i) = drop_bit 16 x"
proof -
  have i: "of_nat i AND (3 :: u32) = of_nat i" "(of_nat i :: u32) \<in> {0, 1, 2, 3}"
  proof -
    have "i = 0 \<or> i = 1 \<or> i = 2 \<or> i = 3" using assms(2) by arith
    then show "of_nat i AND (3 :: u32) = of_nat i" "(of_nat i :: u32) \<in> {0, 1, 2, 3}" by auto
  qed
  then have "x AND of_nat i = x AND (3 AND of_nat i)" by (simp add: and.commute)
  also have "\<dots> = 0" using assms(1) by (simp add: and.assoc [symmetric])
  finally have d: "x AND of_nat i = 0" .
  show "x + of_nat i = x XOR of_nat i" using d by (rule disjunctive_add_eq_xor)
  show "x + of_nat i = x OR of_nat i" using d by (rule disjunctive_add_eq_or)
  have "drop_bit 16 (of_nat i :: u32) = 0" using i(2) by auto
  then show "drop_bit 16 (x OR of_nat i) = drop_bit 16 x" by simp
qed

lemma be_long_bytes:
  "drop_bit 24 (be_long p q r t) AND 0xFF = ucast p" "drop_bit 16 (be_long p q r t) AND 0xFF = ucast q"
  "drop_bit 8 (be_long p q r t) AND 0xFF = ucast r" "be_long p q r t AND 0xFF = ucast t"
proof -
  have m: "(0xFF :: u32) = mask 8" by (simp add: mask_eq_exp_minus_1)
  show "drop_bit 24 (be_long p q r t) AND 0xFF = ucast p" "drop_bit 16 (be_long p q r t) AND 0xFF = ucast q"
    "drop_bit 8 (be_long p q r t) AND 0xFF = ucast r" "be_long p q r t AND 0xFF = ucast t"
    unfolding m by (rule bit_word_eqI; auto simp: be_long_def bit_simps dest: bit_imp_le_length)+
qed

lemma masked_index:
  assumes "x AND 3 = (0 :: u32)" "m AND 3 = 3" "i < 4" "unat (x AND m) < 0x3FFFFFD"
  shows "unat ((x OR of_nat i) AND m) = unat (x AND m) + i"
proof -
  have "i = 0 \<or> i = 1 \<or> i = 2 \<or> i = 3" using assms(3) by arith
  then have i3: "of_nat i AND (3 :: u32) = of_nat i" and ui: "unat (of_nat i :: u32) = i" by auto
  have "of_nat i AND m = (of_nat i AND 3) AND m" by (simp only: i3)
  also have "\<dots> = of_nat i AND (m AND 3)" by (simp only: ac_simps)
  finally have im: "of_nat i AND m = of_nat i" by (simp only: assms(2) i3)
  have "(x OR of_nat i) AND m = (x AND m) OR of_nat i" by (simp add: bit.conj_disj_distrib2 im)
  also have "\<dots> = (x AND m) + of_nat i"
    using low_split(2) [of "x AND m" i] assms(1,3) by (simp add: and_zero_mono)
  finally show ?thesis using assms(3,4) by (simp add: unat_word_ariths ui)
qed

text \<open>Byte \<open>i\<close> of a longword, most significant byte first.\<close>

definition be_byte :: "nat \<Rightarrow> u32 \<Rightarrow> u32" where
  "be_byte i v = drop_bit (24 - 8 * i) v AND 0xFF"

lemma byte_of_cell:
  assumes "long_cell b x = Some c" "i < 4"
  shows "nd_byteget b (x + of_nat i) = Inr (be_byte i (cell_get b c), b)"
proof -
  have x: "x AND 3 = 0" using assms(1) by (auto simp: long_cell_def split: if_splits)
  have bk: "bank_of b (x OR of_nat i) = bank_of b x"
    using low_split(3) [OF x assms(2)] by (simp add: bank_of_def)
  have byte: "be_byte i (be_long (f n) (f (n + 1)) (f (n + 2)) (f (n + 3))) = ucast (f (n + i))" for f n
  proof -
    have "i = 0 \<or> i = 1 \<or> i = 2 \<or> i = 3" using assms(2) by arith
    then show ?thesis by (auto simp: be_byte_def be_long_bytes)
  qed
  note byte = byte [simplified]
  have v: "ND_VRAM_MASK AND 3 = 3" by simp
  have vr: "unat (x AND ND_VRAM_MASK) < 0x3FFFFD" using x by (rule vram_room4)
  show ?thesis
  proof (cases c)
    case (RamCell k)
    with assms(1) obtain m where m: "bankmask_ok m" "m AND 3 = 3" "k = unat (x AND m)"
      "nd_byteget b (x OR of_nat i) = nd_ram_bget m b (x OR of_nat i)"
      by (cases "bank_of b x") (auto simp: long_cell_def ram_cell_def nd_byteget_def bk split: if_splits)
    have "unat (x AND m) + i < ND_RAM_BYTES" using ram_room4 [OF m(1) x] assms(2) by simp
    then show ?thesis
      using m masked_index [OF x m(2) assms(2) ram_room4 [OF m(1) x]] RamCell
      by (simp add: low_split(2) [OF x assms(2)] nd_ram_bget_def cell_get_def byte)
  next
    case (VramCell k)
    with assms(1) have k: "bank_of b x = VramBank" "k = unat (x AND ND_VRAM_MASK)"
      by (cases "bank_of b x"; auto simp: long_cell_def ram_cell_def split: if_splits)+
    have "unat (x AND ND_VRAM_MASK) + i < ND_VRAM_BYTES" using vr assms(2) by simp
    then show ?thesis
      using k masked_index [OF x v assms(2)] vr VramCell
      by (simp add: low_split(2) [OF x assms(2)] nd_byteget_def bk nd_vram_bget_def cell_get_def byte)
  qed
qed

text \<open>The little-endian address of byte \<open>i\<close> is byte \<open>3 - i\<close> of the longword at the other half.\<close>

lemma le_byte_address:
  assumes "a AND 3 = (0 :: u32)" "i < 4"
  shows "(a + of_nat i) OR ND_BOARD_BITS = (a OR ND_BOARD_BITS) + of_nat i"
    and "((a + of_nat i) OR ND_BOARD_BITS) XOR 7 = ((a OR ND_BOARD_BITS) XOR 4) + of_nat (3 - i)"
proof -
  let ?A = "a OR ND_BOARD_BITS"
  have A: "?A AND 3 = 0" using assms(1) by (simp add: board_bits_align)
  show e: "(a + of_nat i) OR ND_BOARD_BITS = ?A + of_nat i"
    using low_split(2) [OF assms] low_split(2) [OF A assms(2)] by (simp add: or.assoc or.commute or.left_commute)
  have "i = 0 \<or> i = 1 \<or> i = 2 \<or> i = 3" using assms(2) by arith
  then have w: "of_nat i XOR (7 :: u32) = 4 XOR of_nat (3 - i)" by auto
  have "(?A + of_nat i) XOR 7 = ?A XOR (of_nat i XOR 7)"
    by (simp only: low_split(1) [OF A assms(2)] xor.assoc)
  also have "\<dots> = (?A XOR 4) XOR of_nat (3 - i)" by (simp only: w xor.assoc)
  also have "\<dots> = (?A XOR 4) + of_nat (3 - i)"
    by (rule low_split(1) [symmetric]) (simp_all add: align4_xor4 A)
  finally show "((a + of_nat i) OR ND_BOARD_BITS) XOR 7 = (?A XOR 4) + of_nat (3 - i)" by (simp only: e)
qed

text \<open>A longword and one of its bytes, in the byte order of the mode.\<close>

lemma byte_views:
  assumes "a AND 3 = 0" "i < 4"
    and "long_cell b ((a OR ND_BOARD_BITS) XOR (if be then 0 else 4)) \<noteq> None"
  shows "\<exists>w. rdmem be 4 b a = Inr ([w], b) \<and>
    rdmem be 1 b (a + of_nat i) =
      Inr ([drop_bit (if be then 24 - 8 * i else 8 * i) w AND 0xFF], b)"
proof -
  from assms(3) obtain c where c: "long_cell b ((a OR ND_BOARD_BITS) XOR (if be then 0 else 4)) = Some c"
    by auto
  have j: "3 - i < 4" "24 - 8 * (3 - i) = 8 * i" using assms(2) by auto
  show ?thesis
  proof (cases be)
    case True
    then show ?thesis using long_cell_get [OF c] byte_of_cell [OF c assms(2)]
      by (simp add: rdmem_def nd_board_rd32_be_def nd_board_rd8_be_def rd1_def Let_def
          le_byte_address(1) [OF assms(1,2)] be_byte_def and.assoc)
  next
    case False
    then show ?thesis using long_cell_get [OF c] byte_of_cell [OF c j(1)] j(2)
      by (simp add: rdmem_def nd_board_rd32_le_def nd_board_rd8_le_def rd1_def Let_def
          le_byte_address(2) [OF assms(1,2)] be_byte_def and.assoc del: of_nat_diff)
  qed
qed

text \<open>
  C19. A longword of RAM or VRAM and its bytes agree in both modes: in big-endian mode byte
  \<open>i\<close> of the longword at an aligned address is the byte \<open>i\<close> from the most significant end, in
  little-endian mode (where addresses are folded with 4 and 7) it is the byte \<open>i\<close> from
  the least significant end.
\<close>

theorem byte_order_views:
  assumes "a AND 3 = 0" "i < 4"
    and "long_cell b ((a OR ND_BOARD_BITS) XOR (if be then 0 else 4)) \<noteq> None"
  shows "\<exists>w. rdmem be 4 b a = Inr ([w], b) \<and>
    rdmem be 1 b (a + of_nat i) =
      Inr ([drop_bit (if be then 24 - 8 * i else 8 * i) w AND 0xFF], b)"
  using assms by (rule byte_views)

theorem byte_order_views_witness:
  "\<exists>w. rdmem False 4 board_power_on 0x28000010 = Inr ([w], board_power_on) \<and>
    rdmem False 1 board_power_on (0x28000010 + of_nat 3) =
      Inr ([drop_bit (if False then 24 - 8 * 3 else 8 * 3) w AND 0xFF], board_power_on)"
  by (rule byte_order_views)
    (simp_all add: power_on_ram_cell drop_bit_eq_div unat_div_distrib)

section \<open>The m68k side\<close>

text \<open>
  The accesses of the m68k to the board space. A longword read also tells whether it is delayed:
  reads of CSR0 while the processor boots from ROM add cycles to the m68k.
\<close>

definition nd_board_lget :: "board \<Rightarrow> u32 \<Rightarrow> (u32 \<times> bool \<times> board) res" where
  "nd_board_lget b addr =
     (let a = addr OR ND_BOARD_BITS
      in bnd (nd_longget b a) (\<lambda>(result, b'). Inr (result, a = 0xFF800000 \<and> result AND 2 \<noteq> 0, b')))"

definition nd_board_wget :: "board \<Rightarrow> u32 \<Rightarrow> (u16 \<times> board) res" where
  "nd_board_wget b addr = bnd (nd_wordget b (addr OR ND_BOARD_BITS)) (\<lambda>(w, b'). Inr (ucast w, b'))"

definition nd_board_bget :: "board \<Rightarrow> u32 \<Rightarrow> (u8 \<times> board) res" where
  "nd_board_bget b addr = bnd (nd_byteget b (addr OR ND_BOARD_BITS)) (\<lambda>(v, b'). Inr (ucast v, b'))"

definition nd_board_lput :: "board \<Rightarrow> u32 \<Rightarrow> u32 \<Rightarrow> board res" where
  "nd_board_lput b addr l = nd_longput b (addr OR ND_BOARD_BITS) l"

definition nd_board_wput :: "board \<Rightarrow> u32 \<Rightarrow> u16 \<Rightarrow> board res" where
  "nd_board_wput b addr w = nd_wordput b (addr OR ND_BOARD_BITS) (ucast w)"

definition nd_board_bput :: "board \<Rightarrow> u32 \<Rightarrow> u8 \<Rightarrow> board res" where
  "nd_board_bput b addr v = nd_byteput b (addr OR ND_BOARD_BITS) (ucast v)"

lemma board_bits_xor4: "(a XOR 4) OR ND_BOARD_BITS = (a OR ND_BOARD_BITS) XOR 4"
proof (rule bit_word_eqI)
  fix n
  have "\<not> (bit (4 :: u32) n \<and> bit ND_BOARD_BITS n)"
  proof
    assume "bit (4 :: u32) n \<and> bit ND_BOARD_BITS n"
    then have "bit ((4 :: u32) AND ND_BOARD_BITS) n" by (simp only: bit_and_iff)
    then show False by simp
  qed
  then show "bit ((a XOR 4) OR ND_BOARD_BITS) n = bit ((a OR ND_BOARD_BITS) XOR 4) n"
    unfolding bit_or_iff bit_xor_iff by blast
qed

text \<open>
  C20. The two processors share the memory: a longword the i860 stores to RAM or VRAM is the longword
  the m68k reads, at the same address in big-endian mode and at the address of the other half of
  the doubleword in little-endian mode; and a longword the m68k writes is the one the i860
  loads there.
\<close>

theorem processors_share_memory:
  assumes "long_cell b ((a OR ND_BOARD_BITS) XOR (if be then 0 else 4)) \<noteq> None"
  shows "(\<exists>b' d. wrmem be 4 b a [v] = Inr b' \<and>
      nd_board_lget b' (a XOR (if be then 0 else 4)) = Inr (v, d, b')) \<and>
    (\<exists>b'. nd_board_lput b (a XOR (if be then 0 else 4)) v = Inr b' \<and> rdmem be 4 b' a = Inr ([v], b'))"
proof -
  let ?x = "(a OR ND_BOARD_BITS) XOR (if be then 0 else 4)"
  from assms obtain c where c: "long_cell b ?x = Some c" by blast
  have x: "(a XOR (if be then 0 else 4)) OR ND_BOARD_BITS = ?x"
    by (simp add: board_bits_xor4)
  have get: "nd_longget (cell_put b c v) ?x = Inr (v, cell_put b c v)"
    using c by (simp add: long_cell_get)
  have "wrmem be 4 b a [v] = nd_longput b ?x v" "rdmem be 4 m a = rd1 nd_longget m ?x" for m
    by (simp_all add: wrmem_def rdmem_def nd_board_wr32_be_def nd_board_wr32_le_def
        nd_board_rd32_be_def nd_board_rd32_le_def Let_def)
  then show ?thesis
    using get long_cell_put [OF c, of v] unfolding nd_board_lget_def nd_board_lput_def x Let_def
    by (simp add: rd1_def)
qed

theorem processors_share_memory_witness:
  "\<exists>b' d. wrmem False 4 board_power_on 0xF8000100 [7] = Inr b' \<and>
     nd_board_lget b' 0xF8000104 = Inr (7, d, b')"
  using processors_share_memory [of board_power_on "0xF8000100" False 7]
  by (simp add: power_on_ram_cell drop_bit_eq_div unat_div_distrib)

end
