(* ===== verification/I860_State.thy ===== *)
theory I860_State
  imports Nd_Access
begin

text \<open>
  The state of the i860 (\<^verbatim>\<open>i860_cpu_device\<close> of src/dimension/i860.hpp), the fields of its
  control registers with the macros that read and write them, the access to the integer and
  floating-point registers and the union-typed pipeline stages, and the environment of the
  instructions: the build options and the floating-point library.

  The floating-point registers are 32 words; a double is the pair of an even and the next word,
  low word first, as on the little-endian hosts the code requires. A double access to register 31
  runs over the end of \<^verbatim>\<open>m_fregs\<close> and is the fault \<open>ArrayOOB\<close>. Signed additions and
  left shifts of the code wrap around (two's complement).
\<close>

section \<open>Environment\<close>

text \<open>
  \<open>trace_undefined\<close> and \<open>trace_unaligned\<close> are \<^verbatim>\<open>TRACE_UNDEFINED_I860\<close> and
  \<^verbatim>\<open>TRACE_UNALIGNED_MEM\<close> of i860cfg.h; \<open>asserts\<close> says whether \<^verbatim>\<open>assert\<close> is
  compiled in. The other fields are the functions of the SoftFloat library the instructions
  call; their first argument is the rounding mode of the library.
\<close>

record env =
  trace_undefined :: bool
  trace_unaligned :: bool
  asserts :: bool
  float32_add :: "u32 \<Rightarrow> u32 \<Rightarrow> u32 \<Rightarrow> u32"
  float32_sub :: "u32 \<Rightarrow> u32 \<Rightarrow> u32 \<Rightarrow> u32"
  float32_mul :: "u32 \<Rightarrow> u32 \<Rightarrow> u32 \<Rightarrow> u32"
  float32_div :: "u32 \<Rightarrow> u32 \<Rightarrow> u32 \<Rightarrow> u32"
  float32_sqrt :: "u32 \<Rightarrow> u32 \<Rightarrow> u32"
  float32_to_int32 :: "u32 \<Rightarrow> u32 \<Rightarrow> u32"
  float32_to_int32_round_to_zero :: "u32 \<Rightarrow> u32"
  float32_to_float64 :: "u32 \<Rightarrow> u64"
  float32_gt :: "u32 \<Rightarrow> u32 \<Rightarrow> bool"
  float32_le :: "u32 \<Rightarrow> u32 \<Rightarrow> bool"
  float32_eq :: "u32 \<Rightarrow> u32 \<Rightarrow> bool"
  float64_add :: "u32 \<Rightarrow> u64 \<Rightarrow> u64 \<Rightarrow> u64"
  float64_sub :: "u32 \<Rightarrow> u64 \<Rightarrow> u64 \<Rightarrow> u64"
  float64_mul :: "u32 \<Rightarrow> u64 \<Rightarrow> u64 \<Rightarrow> u64"
  float64_div :: "u32 \<Rightarrow> u64 \<Rightarrow> u64 \<Rightarrow> u64"
  float64_sqrt :: "u32 \<Rightarrow> u64 \<Rightarrow> u64"
  float64_to_int32 :: "u32 \<Rightarrow> u64 \<Rightarrow> u32"
  float64_to_int32_round_to_zero :: "u64 \<Rightarrow> u32"
  float64_to_float32 :: "u32 \<Rightarrow> u64 \<Rightarrow> u32"
  float64_gt :: "u64 \<Rightarrow> u64 \<Rightarrow> bool"
  float64_le :: "u64 \<Rightarrow> u64 \<Rightarrow> bool"
  float64_eq :: "u64 \<Rightarrow> u64 \<Rightarrow> bool"

section \<open>State\<close>

datatype dim = DIM_NONE | DIM_TEMP | DIM_FULL

text \<open>A pipeline stage: the union of a single and a double, and its precision bit.\<close>

record stage =
  st_val :: u64
  st_prec :: bool

record i860 =
  m_pc :: u32
  m_iregs :: "nat \<Rightarrow> u32"
  m_fregs :: "nat \<Rightarrow> u32"
  m_cregs :: "nat \<Rightarrow> u32"
  m_dim :: dim
  m_dim_cc :: bool
  m_dim_cc_valid :: bool
  m_save_dim :: dim
  m_save_flow :: u32
  m_save_cc :: bool
  m_save_cc_valid :: bool
  m_KR :: u64
  m_KI :: u64
  m_T :: u64
  m_merge :: u64
  m_A :: "nat \<Rightarrow> stage"
  m_M :: "nat \<Rightarrow> stage"
  m_L :: "nat \<Rightarrow> stage"
  m_G :: stage
  m_icache :: "nat \<Rightarrow> u64"
  m_icache_vaddr :: "nat \<Rightarrow> u32"
  m_tlb_vaddr :: "nat \<Rightarrow> u32"
  m_tlb_paddr :: "nat \<Rightarrow> u32"
  m_halt :: bool
  m_flow :: u32
  mem_be :: bool
  round_mode :: u32
  bd :: board

abbreviation "CR_FIR \<equiv> (0 :: nat)"
abbreviation "CR_PSR \<equiv> (Suc 0)"
abbreviation "CR_DIRBASE \<equiv> (2 :: nat)"
abbreviation "CR_DB \<equiv> (3 :: nat)"
abbreviation "CR_FSR \<equiv> (4 :: nat)"
abbreviation "CR_EPSR \<equiv> (5 :: nat)"

abbreviation "FLOW_CLEAR_MASK \<equiv> (0xF0000000 :: u32)"
abbreviation "TRAP_NORMAL \<equiv> (1 :: u32)"
abbreviation "TRAP_IN_DELAY_SLOT \<equiv> (0x00000002 :: u32)"
abbreviation "TRAP_WAS_EXTERNAL \<equiv> (0x00000004 :: u32)"
abbreviation "TRAP_MASK \<equiv> (0x00000007 :: u32)"
abbreviation "PC_UPDATED \<equiv> (0x00000100 :: u32)"
abbreviation "EXITING_IFETCH \<equiv> (0x00001000 :: u32)"
abbreviation "EXITING_READMEM \<equiv> (0x00010000 :: u32)"
abbreviation "EXITING_WRITEMEM \<equiv> (0x00020000 :: u32)"
abbreviation "EXITING_FPREADMEM \<equiv> (0x00030000 :: u32)"
abbreviation "EXITING_FPWRITEMEM \<equiv> (0x00040000 :: u32)"
abbreviation "EXITING_MEMRW \<equiv> (0x00070000 :: u32)"
abbreviation "FIR_GETS_TRAP \<equiv> (0x10000000 :: u32)"
abbreviation "EXT_INTR \<equiv> (0x20000000 :: u32)"
abbreviation "DIM_OP \<equiv> (0x40000000 :: u32)"

abbreviation "PSR_ALL_TRAP_BITS_MASK \<equiv> (0x00001f00 :: u32)"
abbreviation "PSR_SUPERVISOR_ONLY_MASK \<equiv> (0x0000fff3 :: u32)"

section \<open>Instruction fields\<close>

definition get_isrc1 :: "u32 \<Rightarrow> nat" where
  "get_isrc1 insn = unat (drop_bit 11 insn AND 0x1f)"

definition get_isrc2 :: "u32 \<Rightarrow> nat" where
  "get_isrc2 insn = unat (drop_bit 21 insn AND 0x1f)"

definition get_idest :: "u32 \<Rightarrow> nat" where
  "get_idest insn = unat (drop_bit 16 insn AND 0x1f)"

definition get_creg :: "u32 \<Rightarrow> nat" where
  "get_creg insn = unat (drop_bit 21 insn AND 0x7)"

definition get_imm16 :: "u32 \<Rightarrow> u32" where
  "get_imm16 insn = insn AND 0xffff"

abbreviation "get_fsrc1 \<equiv> get_isrc1"
abbreviation "get_fsrc2 \<equiv> get_isrc2"
abbreviation "get_fdest \<equiv> get_idest"

lemma reg_field_bounds [simp]:
  "get_isrc1 insn < 32" "get_isrc2 insn < 32" "get_idest insn < 32" "get_creg insn < 8"
  by (simp_all add: get_isrc1_def get_isrc2_def get_idest_def get_creg_def unat_and_less)

section \<open>Fields of the control registers\<close>

text \<open>The shape of the macros \<^verbatim>\<open>GET_PSR_BR\<close>, \<^verbatim>\<open>SET_PSR_BR\<close> and their kin of i860.hpp.\<close>

definition get_field :: "nat \<Rightarrow> u32 \<Rightarrow> nat \<Rightarrow> i860 \<Rightarrow> u32" where
  "get_field c m lo s = drop_bit lo (m_cregs s c) AND m"

definition set_creg :: "nat \<Rightarrow> u32 \<Rightarrow> i860 \<Rightarrow> i860" where
  "set_creg c v s = s\<lparr>m_cregs := (m_cregs s)(c := v)\<rparr>"

definition set_field :: "nat \<Rightarrow> u32 \<Rightarrow> nat \<Rightarrow> u32 \<Rightarrow> i860 \<Rightarrow> i860" where
  "set_field c m lo v s =
     set_creg c ((m_cregs s c AND NOT (push_bit lo m)) OR push_bit lo (v AND m)) s"

definition GET_PSR_CC :: "i860 \<Rightarrow> u32" where
  "GET_PSR_CC s = get_field CR_PSR 1 2 s"

definition SET_PSR_CC_F :: "u32 \<Rightarrow> i860 \<Rightarrow> i860" where
  "SET_PSR_CC_F v s = set_field CR_PSR 1 2 v s"

definition GET_PSR_LCC :: "i860 \<Rightarrow> u32" where
  "GET_PSR_LCC s = get_field CR_PSR 1 3 s"

definition SET_PSR_LCC :: "u32 \<Rightarrow> i860 \<Rightarrow> i860" where
  "SET_PSR_LCC v s = set_field CR_PSR 1 3 v s"

definition GET_PSR_IM :: "i860 \<Rightarrow> u32" where
  "GET_PSR_IM s = get_field CR_PSR 1 4 s"

definition SET_PSR_IM :: "u32 \<Rightarrow> i860 \<Rightarrow> i860" where
  "SET_PSR_IM v s = set_field CR_PSR 1 4 v s"

definition GET_PSR_PIM :: "i860 \<Rightarrow> u32" where
  "GET_PSR_PIM s = get_field CR_PSR 1 5 s"

definition SET_PSR_PIM :: "u32 \<Rightarrow> i860 \<Rightarrow> i860" where
  "SET_PSR_PIM v s = set_field CR_PSR 1 5 v s"

definition GET_PSR_U :: "i860 \<Rightarrow> u32" where
  "GET_PSR_U s = get_field CR_PSR 1 6 s"

definition SET_PSR_U :: "u32 \<Rightarrow> i860 \<Rightarrow> i860" where
  "SET_PSR_U v s = set_field CR_PSR 1 6 v s"

definition GET_PSR_PU :: "i860 \<Rightarrow> u32" where
  "GET_PSR_PU s = get_field CR_PSR 1 7 s"

definition SET_PSR_PU :: "u32 \<Rightarrow> i860 \<Rightarrow> i860" where
  "SET_PSR_PU v s = set_field CR_PSR 1 7 v s"

definition GET_PSR_IT :: "i860 \<Rightarrow> u32" where
  "GET_PSR_IT s = get_field CR_PSR 1 8 s"

definition SET_PSR_IT :: "u32 \<Rightarrow> i860 \<Rightarrow> i860" where
  "SET_PSR_IT v s = set_field CR_PSR 1 8 v s"

definition GET_PSR_IN :: "i860 \<Rightarrow> u32" where
  "GET_PSR_IN s = get_field CR_PSR 1 9 s"

definition SET_PSR_IN :: "u32 \<Rightarrow> i860 \<Rightarrow> i860" where
  "SET_PSR_IN v s = set_field CR_PSR 1 9 v s"

definition GET_PSR_IAT :: "i860 \<Rightarrow> u32" where
  "GET_PSR_IAT s = get_field CR_PSR 1 10 s"

definition SET_PSR_IAT :: "u32 \<Rightarrow> i860 \<Rightarrow> i860" where
  "SET_PSR_IAT v s = set_field CR_PSR 1 10 v s"

definition GET_PSR_DAT :: "i860 \<Rightarrow> u32" where
  "GET_PSR_DAT s = get_field CR_PSR 1 11 s"

definition SET_PSR_DAT :: "u32 \<Rightarrow> i860 \<Rightarrow> i860" where
  "SET_PSR_DAT v s = set_field CR_PSR 1 11 v s"

definition SET_PSR_DS :: "u32 \<Rightarrow> i860 \<Rightarrow> i860" where
  "SET_PSR_DS v s = set_field CR_PSR 1 13 v s"

definition SET_PSR_DIM :: "u32 \<Rightarrow> i860 \<Rightarrow> i860" where
  "SET_PSR_DIM v s = set_field CR_PSR 1 14 v s"

definition GET_PSR_SC :: "i860 \<Rightarrow> u32" where
  "GET_PSR_SC s = get_field CR_PSR 0x1f 17 s"

definition SET_PSR_SC :: "u32 \<Rightarrow> i860 \<Rightarrow> i860" where
  "SET_PSR_SC v s = set_field CR_PSR 0x1f 17 v s"

definition GET_PSR_PS :: "i860 \<Rightarrow> u32" where
  "GET_PSR_PS s = get_field CR_PSR 3 22 s"

definition GET_PSR_PM :: "i860 \<Rightarrow> u32" where
  "GET_PSR_PM s = get_field CR_PSR 0xff 24 s"

definition SET_PSR_PM :: "u32 \<Rightarrow> i860 \<Rightarrow> i860" where
  "SET_PSR_PM v s = set_field CR_PSR 0xff 24 v s"

definition GET_EPSR_WP :: "i860 \<Rightarrow> u32" where
  "GET_EPSR_WP s = get_field CR_EPSR 1 14 s"

definition GET_EPSR_INT :: "i860 \<Rightarrow> u32" where
  "GET_EPSR_INT s = get_field CR_EPSR 1 17 s"

definition SET_EPSR_INT :: "u32 \<Rightarrow> i860 \<Rightarrow> i860" where
  "SET_EPSR_INT v s = set_field CR_EPSR 1 17 v s"

definition GET_EPSR_BE :: "i860 \<Rightarrow> u32" where
  "GET_EPSR_BE s = get_field CR_EPSR 1 23 s"

definition SET_EPSR_BE :: "u32 \<Rightarrow> i860 \<Rightarrow> i860" where
  "SET_EPSR_BE v s = set_field CR_EPSR 1 23 v s"

definition GET_EPSR_OF :: "i860 \<Rightarrow> u32" where
  "GET_EPSR_OF s = get_field CR_EPSR 1 24 s"

definition SET_EPSR_OF :: "u32 \<Rightarrow> i860 \<Rightarrow> i860" where
  "SET_EPSR_OF v s = set_field CR_EPSR 1 24 v s"

definition GET_DIRBASE_ATE :: "i860 \<Rightarrow> u32" where
  "GET_DIRBASE_ATE s = m_cregs s CR_DIRBASE AND 1"

definition GET_DIRBASE_CS8 :: "i860 \<Rightarrow> u32" where
  "GET_DIRBASE_CS8 s = get_field CR_DIRBASE 1 7 s"

definition SET_FSR_SE :: "u32 \<Rightarrow> i860 \<Rightarrow> i860" where
  "SET_FSR_SE v s = set_field CR_FSR 1 8 v s"

definition GET_FSR_RM :: "i860 \<Rightarrow> u32" where
  "GET_FSR_RM s = get_field CR_FSR 3 2 s"

lemmas get_macro_defs =
  GET_PSR_CC_def GET_PSR_LCC_def GET_PSR_IM_def GET_PSR_PIM_def GET_PSR_U_def GET_PSR_PU_def
  GET_PSR_IT_def GET_PSR_IN_def GET_PSR_IAT_def GET_PSR_DAT_def GET_PSR_SC_def GET_PSR_PS_def
  GET_PSR_PM_def GET_EPSR_WP_def GET_EPSR_INT_def GET_EPSR_BE_def GET_EPSR_OF_def
  GET_DIRBASE_CS8_def GET_FSR_RM_def

lemmas set_macro_defs =
  SET_PSR_CC_F_def SET_PSR_LCC_def SET_PSR_IM_def SET_PSR_PIM_def SET_PSR_U_def SET_PSR_PU_def
  SET_PSR_IT_def SET_PSR_IN_def SET_PSR_IAT_def SET_PSR_DAT_def SET_PSR_DS_def SET_PSR_DIM_def
  SET_PSR_SC_def SET_PSR_PM_def SET_EPSR_INT_def SET_EPSR_BE_def SET_EPSR_OF_def SET_FSR_SE_def

text \<open>The member function \<^verbatim>\<open>SET_PSR_CC\<close>: a valid dual-mode condition protects CC.\<close>

definition SET_PSR_CC :: "u32 \<Rightarrow> i860 \<Rightarrow> i860" where
  "SET_PSR_CC val s = (if m_dim_cc_valid s then s else set_field CR_PSR 1 2 val s)"

section \<open>Flow flags\<close>

definition CLEAR_FLOW :: "i860 \<Rightarrow> i860" where
  "CLEAR_FLOW s = s\<lparr>m_flow := m_flow s AND FLOW_CLEAR_MASK\<rparr>"

definition or_flow :: "u32 \<Rightarrow> i860 \<Rightarrow> i860" where
  "or_flow f s = s\<lparr>m_flow := m_flow s OR f\<rparr>"

definition clear_flow :: "u32 \<Rightarrow> i860 \<Rightarrow> i860" where
  "clear_flow f s = s\<lparr>m_flow := m_flow s AND NOT f\<rparr>"

definition flow :: "u32 \<Rightarrow> i860 \<Rightarrow> bool" where
  "flow f s \<longleftrightarrow> m_flow s AND f \<noteq> 0"

definition PENDING_TRAP :: "i860 \<Rightarrow> bool" where
  "PENDING_TRAP s = flow TRAP_MASK s"

definition GET_PC_UPDATED :: "i860 \<Rightarrow> bool" where
  "GET_PC_UPDATED s = flow PC_UPDATED s"

definition SET_PC_UPDATED :: "i860 \<Rightarrow> i860" where
  "SET_PC_UPDATED s = or_flow PC_UPDATED s"

definition GET_EXITING_MEMRW :: "i860 \<Rightarrow> bool" where
  "GET_EXITING_MEMRW s = flow EXITING_MEMRW s"

definition SET_EXITING_MEMRW :: "u32 \<Rightarrow> i860 \<Rightarrow> i860" where
  "SET_EXITING_MEMRW v s = s\<lparr>m_flow := v OR (m_flow s AND NOT EXITING_MEMRW)\<rparr>"

section \<open>Registers\<close>

definition set_iregval :: "nat \<Rightarrow> u32 \<Rightarrow> i860 \<Rightarrow> i860" where
  "set_iregval gr val s = s\<lparr>m_iregs := ((m_iregs s)(gr := val))(0 := 0)\<rparr>"

definition set_pc :: "u32 \<Rightarrow> i860 \<Rightarrow> i860" where
  "set_pc v s = s\<lparr>m_pc := v\<rparr>"

definition get_fregval_s :: "nat \<Rightarrow> i860 \<Rightarrow> u32" where
  "get_fregval_s fr s = m_fregs s fr"

definition set_fregval_s :: "nat \<Rightarrow> u32 \<Rightarrow> i860 \<Rightarrow> i860" where
  "set_fregval_s fr v s = (if fr > 1 then s\<lparr>m_fregs := (m_fregs s)(fr := v)\<rparr> else s)"

definition dbl :: "u32 \<Rightarrow> u32 \<Rightarrow> u64" where
  "dbl lo hi = push_bit 32 (ucast hi) OR ucast lo"

definition get_fregval_d :: "nat \<Rightarrow> i860 \<Rightarrow> u64 res" where
  "get_fregval_d fr s =
     bnd (arr_get 32 (m_fregs s) fr) (\<lambda>lo.
     bnd (arr_get 32 (m_fregs s) (fr + 1)) (\<lambda>hi. Inr (dbl lo hi)))"

definition set_fregval_d :: "nat \<Rightarrow> u64 \<Rightarrow> i860 \<Rightarrow> i860 res" where
  "set_fregval_d fr d s =
     (if fr > 1 then
        bnd (arr_put 32 (m_fregs s) fr (ucast d)) (\<lambda>f.
        bnd (arr_put 32 f (fr + 1) (ucast (drop_bit 32 d))) (\<lambda>f'. Inr (s\<lparr>m_fregs := f'\<rparr>)))
      else Inr s)"

text \<open>The single in a union of a single and a double; a write of it keeps the upper half.\<close>

definition union_s :: "u64 \<Rightarrow> u32" where
  "union_s v = ucast v"

definition union_put_s :: "u32 \<Rightarrow> u64 \<Rightarrow> u64" where
  "union_put_s x v = (v AND 0xFFFFFFFF00000000) OR ucast x"

definition stage_s :: "u32 \<Rightarrow> stage \<Rightarrow> stage" where
  "stage_s x st = st\<lparr>st_val := union_put_s x (st_val st), st_prec := False\<rparr>"

definition stage_d :: "u64 \<Rightarrow> stage \<Rightarrow> stage" where
  "stage_d x st = st\<lparr>st_val := x, st_prec := True\<rparr>"

text \<open>The contents of a stage go to \<open>fdest\<close> with the precision of the stage.\<close>

definition put_stage :: "nat \<Rightarrow> stage \<Rightarrow> i860 \<Rightarrow> i860 res" where
  "put_stage fdest st s =
     (if st_prec st then set_fregval_d fdest (st_val st) s
      else Inr (set_fregval_s fdest (union_s (st_val st)) s))"

text \<open>A status bit of FSR follows a precision bit.\<close>

definition fsr_bit :: "u32 \<Rightarrow> bool \<Rightarrow> i860 \<Rightarrow> i860" where
  "fsr_bit b p s =
     set_creg CR_FSR (if p then m_cregs s CR_FSR OR b else m_cregs s CR_FSR AND NOT b) s"

definition set_mem_access :: "bool \<Rightarrow> i860 \<Rightarrow> i860" where
  "set_mem_access be s = s\<lparr>mem_be := be\<rparr>"

definition halt :: "bool \<Rightarrow> i860 \<Rightarrow> i860" where
  "halt st s = s\<lparr>m_halt := st\<rparr>"

definition unrecog_opcode :: "i860 \<Rightarrow> i860" where
  "unrecog_opcode s = or_flow TRAP_NORMAL (SET_PSR_IT 1 s)"

section \<open>Fields read after writes\<close>

lemma get_field_set_creg [simp]:
  "get_field c m lo (set_creg c' v s) = (if c = c' then drop_bit lo v AND m else get_field c m lo s)"
  by (simp add: get_field_def set_creg_def)

lemma get_field_set_same [simp]: "get_field c 1 lo (set_field c 1 lo v s) = (if lo < 32 then v AND 1 else 0)"
  by (rule bit_word_eqI) (auto simp: get_field_def set_field_def set_creg_def bit_simps)

lemma get_field_via_mask: "get_field c m lo s = drop_bit lo (m_cregs s c AND push_bit lo m)"
  by (rule bit_word_eqI) (auto simp: get_field_def bit_simps dest: bit_imp_le_length)

lemma get_field_set_other:
  assumes "c \<noteq> c' \<or> push_bit lo m AND push_bit lo' m' = 0"
  shows "get_field c m lo (set_field c' m' lo' v s) = get_field c m lo s"
proof (cases "c = c'")
  case False
  then show ?thesis by (simp add: set_field_def)
next
  case True
  with assms have d: "push_bit lo m AND push_bit lo' m' = 0" by simp
  have "(x AND NOT (push_bit lo' m') OR push_bit lo' (v AND m')) AND push_bit lo m
      = x AND push_bit lo m" for x :: u32
  proof (rule bit_word_eqI)
    fix n assume n: "n < LENGTH(32)"
    have "\<not> (bit (push_bit lo m) n \<and> bit (push_bit lo' m') n)"
      using d by (metis bit_0_eq bit_and_iff bot_apply bot_bool_def)
    then show "bit ((x AND NOT (push_bit lo' m') OR push_bit lo' (v AND m')) AND push_bit lo m) n
        = bit (x AND push_bit lo m) n"
      using n by (auto simp: bit_simps)
  qed
  with True show ?thesis by (simp add: get_field_via_mask set_field_def set_creg_def)
qed

lemma get_field_keep [simp]:
  "get_field c m lo (or_flow f s) = get_field c m lo s"
  "get_field c m lo (clear_flow f s) = get_field c m lo s"
  "get_field c m lo (set_pc p s) = get_field c m lo s"
  "get_field c m lo (set_iregval g v s) = get_field c m lo s"
  "get_field c m lo (set_fregval_s g v s) = get_field c m lo s"
  "get_field c m lo (SET_EXITING_MEMRW x s) = get_field c m lo s"
  by (simp_all add: get_field_def or_flow_def clear_flow_def set_pc_def set_iregval_def
      set_fregval_s_def SET_EXITING_MEMRW_def)

lemma set_field_frame [simp]:
  "m_iregs (set_field c m lo v s) = m_iregs s"
  "m_fregs (set_field c m lo v s) = m_fregs s"
  "m_pc (set_field c m lo v s) = m_pc s"
  "m_flow (set_field c m lo v s) = m_flow s"
  "m_dim (set_field c m lo v s) = m_dim s"
  "m_dim_cc (set_field c m lo v s) = m_dim_cc s"
  "m_dim_cc_valid (set_field c m lo v s) = m_dim_cc_valid s"
  "bd (set_field c m lo v s) = bd s"
  by (simp_all add: set_field_def set_creg_def)

section \<open>The invariant of the processor\<close>

text \<open>
  Registers r0, f0 and f1 read as zero, ITI is never stored in DIRBASE, the read-only bits of EPSR
  (processor type, stepping, DCS) have the values of reset, the tags of the instruction cache and
  of the TLB are aligned or invalid, and the board behind the processor keeps its accesses
  inside its arrays.
\<close>

definition tags_ok :: "u32 \<Rightarrow> (nat \<Rightarrow> u32) \<Rightarrow> bool" where
  "tags_ok m t \<longleftrightarrow> (\<forall>i. t i = 0xFFFFFFFF \<or> t i AND m = 0)"

definition cpu_ok :: "i860 \<Rightarrow> bool" where
  "cpu_ok s \<longleftrightarrow> m_iregs s 0 = 0 \<and> m_fregs s 0 = 0 \<and> m_fregs s 1 = 0 \<and>
     m_cregs s CR_DIRBASE AND 0x20 = 0 \<and> m_cregs s CR_EPSR AND 0x003c1fff = 0x00040601 \<and>
     tags_ok 7 (m_icache_vaddr s) \<and> tags_ok 0xFFF (m_tlb_vaddr s) \<and> board_ok (bd s)"

lemma tags_ok_upd: "tags_ok m t \<Longrightarrow> v = 0xFFFFFFFF \<or> v AND m = 0 \<Longrightarrow> tags_ok m (t(i := v))"
  by (simp add: tags_ok_def)

lemma cpu_ok_updates [simp]:
  "cpu_ok (s\<lparr>m_pc := v1\<rparr>) = cpu_ok s"
  "cpu_ok (s\<lparr>m_dim := v2\<rparr>) = cpu_ok s"
  "cpu_ok (s\<lparr>m_dim_cc := v3\<rparr>) = cpu_ok s"
  "cpu_ok (s\<lparr>m_dim_cc_valid := v3\<rparr>) = cpu_ok s"
  "cpu_ok (s\<lparr>m_save_dim := v2\<rparr>) = cpu_ok s"
  "cpu_ok (s\<lparr>m_save_flow := v1\<rparr>) = cpu_ok s"
  "cpu_ok (s\<lparr>m_save_cc := v3\<rparr>) = cpu_ok s"
  "cpu_ok (s\<lparr>m_save_cc_valid := v3\<rparr>) = cpu_ok s"
  "cpu_ok (s\<lparr>m_KR := v4\<rparr>) = cpu_ok s"
  "cpu_ok (s\<lparr>m_KI := v4\<rparr>) = cpu_ok s"
  "cpu_ok (s\<lparr>m_T := v4\<rparr>) = cpu_ok s"
  "cpu_ok (s\<lparr>m_merge := v4\<rparr>) = cpu_ok s"
  "cpu_ok (s\<lparr>m_A := v5\<rparr>) = cpu_ok s"
  "cpu_ok (s\<lparr>m_M := v5\<rparr>) = cpu_ok s"
  "cpu_ok (s\<lparr>m_L := v5\<rparr>) = cpu_ok s"
  "cpu_ok (s\<lparr>m_G := v6\<rparr>) = cpu_ok s"
  "cpu_ok (s\<lparr>m_icache := v7\<rparr>) = cpu_ok s"
  "cpu_ok (s\<lparr>m_tlb_paddr := v8\<rparr>) = cpu_ok s"
  "cpu_ok (s\<lparr>m_halt := v3\<rparr>) = cpu_ok s"
  "cpu_ok (s\<lparr>m_flow := v1\<rparr>) = cpu_ok s"
  "cpu_ok (s\<lparr>mem_be := v3\<rparr>) = cpu_ok s"
  "cpu_ok (s\<lparr>round_mode := v1\<rparr>) = cpu_ok s"
  by (simp_all add: cpu_ok_def)

lemma cpu_ok_flow [simp]:
  "cpu_ok (or_flow f s) = cpu_ok s"
  "cpu_ok (clear_flow f s) = cpu_ok s"
  "cpu_ok (CLEAR_FLOW s) = cpu_ok s"
  "cpu_ok (SET_PC_UPDATED s) = cpu_ok s"
  "cpu_ok (SET_EXITING_MEMRW f s) = cpu_ok s"
  "cpu_ok (set_pc v s) = cpu_ok s"
  "cpu_ok (set_mem_access be s) = cpu_ok s"
  "cpu_ok (halt h s) = cpu_ok s"
  by (simp_all add: or_flow_def clear_flow_def CLEAR_FLOW_def SET_PC_UPDATED_def
      SET_EXITING_MEMRW_def set_pc_def set_mem_access_def halt_def)

lemma cpu_ok_set_iregval [simp]: "cpu_ok s \<Longrightarrow> cpu_ok (set_iregval g v s)"
  by (simp add: cpu_ok_def set_iregval_def)

lemma cpu_ok_set_fregval_s [simp]: "cpu_ok s \<Longrightarrow> cpu_ok (set_fregval_s g v s)"
  by (simp add: cpu_ok_def set_fregval_s_def)

lemma cpu_ok_bd [simp]: "cpu_ok s \<Longrightarrow> board_ok b \<Longrightarrow> cpu_ok (s\<lparr>bd := b\<rparr>)"
  by (simp add: cpu_ok_def)

lemma cpu_ok_board: "cpu_ok s \<Longrightarrow> board_ok (bd s)"
  by (simp add: cpu_ok_def)

text \<open>A field write outside the protected bits of DIRBASE and EPSR.\<close>

lemma and_keep_field:
  "push_bit lo m AND k = (0 :: u32) \<Longrightarrow>
   (x AND NOT (push_bit lo m) OR push_bit lo (v AND m)) AND k = x AND k"
proof (rule bit_word_eqI)
  fix n assume d: "push_bit lo m AND k = 0" and n: "n < LENGTH(32)"
  have "\<not> (bit (push_bit lo m) n \<and> bit k n)"
    using d by (metis bit_0_eq bit_and_iff bot_apply bot_bool_def)
  then show "bit ((x AND NOT (push_bit lo m) OR push_bit lo (v AND m)) AND k) n = bit (x AND k) n"
    using n by (auto simp: bit_simps)
qed

lemma cpu_ok_set_creg:
  "c \<noteq> CR_DIRBASE \<Longrightarrow> c \<noteq> CR_EPSR \<Longrightarrow> cpu_ok (set_creg c v s) = cpu_ok s"
  by (simp add: cpu_ok_def set_creg_def)

lemma cpu_ok_set_field:
  "c \<noteq> CR_DIRBASE \<Longrightarrow> c \<noteq> CR_EPSR \<or> push_bit lo m AND 0x003c1fff = 0 \<Longrightarrow>
   cpu_ok (set_field c m lo v s) = cpu_ok s"
  by (cases "c = CR_EPSR")
    (simp_all add: cpu_ok_def set_field_def set_creg_def and_keep_field del: push_bit_and)

lemma cpu_ok_set_macros [simp]:
  "cpu_ok (SET_PSR_CC_F v s) = cpu_ok s"
  "cpu_ok (SET_PSR_LCC v s) = cpu_ok s"
  "cpu_ok (SET_PSR_IM v s) = cpu_ok s"
  "cpu_ok (SET_PSR_PIM v s) = cpu_ok s"
  "cpu_ok (SET_PSR_U v s) = cpu_ok s"
  "cpu_ok (SET_PSR_PU v s) = cpu_ok s"
  "cpu_ok (SET_PSR_IT v s) = cpu_ok s"
  "cpu_ok (SET_PSR_IN v s) = cpu_ok s"
  "cpu_ok (SET_PSR_IAT v s) = cpu_ok s"
  "cpu_ok (SET_PSR_DAT v s) = cpu_ok s"
  "cpu_ok (SET_PSR_DS v s) = cpu_ok s"
  "cpu_ok (SET_PSR_DIM v s) = cpu_ok s"
  "cpu_ok (SET_PSR_SC v s) = cpu_ok s"
  "cpu_ok (SET_PSR_PM v s) = cpu_ok s"
  "cpu_ok (SET_FSR_SE v s) = cpu_ok s"
  "cpu_ok (SET_PSR_CC v s) = cpu_ok s"
  "cpu_ok (SET_EPSR_INT v s) = cpu_ok s"
  "cpu_ok (SET_EPSR_BE v s) = cpu_ok s"
  "cpu_ok (SET_EPSR_OF v s) = cpu_ok s"
  "cpu_ok (fsr_bit b p s) = cpu_ok s"
  "cpu_ok (unrecog_opcode s) = cpu_ok s"
  by (simp_all add: set_macro_defs SET_PSR_CC_def fsr_bit_def unrecog_opcode_def
      cpu_ok_set_field cpu_ok_set_creg)

lemma cpu_ok_set_fregval_d: "cpu_ok s \<Longrightarrow> holds cpu_ok (set_fregval_d g v s)"
  by (auto simp: set_fregval_d_def cpu_ok_def arr_put_def)

lemma cpu_ok_put_stage: "cpu_ok s \<Longrightarrow> holds cpu_ok (put_stage g st s)"
  by (simp add: put_stage_def cpu_ok_set_fregval_d)

lemma holds_get_fregval_d: "(\<And>x. holds Q (f x)) \<Longrightarrow> holds Q (bnd (get_fregval_d fr s) f)"
  by (simp add: get_fregval_d_def arr_get_def)

text \<open>Sequencing of steps that keep the invariant.\<close>

lemma ok_bnd: "holds cpu_ok m \<Longrightarrow> (\<And>s. cpu_ok s \<Longrightarrow> holds Q (f s)) \<Longrightarrow> holds Q (bnd m f)"
  by (cases m) auto

lemmas ok_intros = holds_get_fregval_d ok_bnd [OF cpu_ok_set_fregval_d] ok_bnd [OF cpu_ok_put_stage]
  cpu_ok_set_fregval_d cpu_ok_put_stage

section \<open>The processor before reset\<close>

text \<open>The statically allocated, zeroed processor with an initialised board; the constructor halts it.\<close>

definition stage_zero :: stage where
  "stage_zero = \<lparr>st_val = 0, st_prec = False\<rparr>"

definition i860_zero :: i860 where
  "i860_zero =
     \<lparr>m_pc = 0, m_iregs = (\<lambda>_. 0), m_fregs = (\<lambda>_. 0), m_cregs = (\<lambda>_. 0), m_dim = DIM_NONE,
      m_dim_cc = False, m_dim_cc_valid = False, m_save_dim = DIM_NONE, m_save_flow = 0,
      m_save_cc = False, m_save_cc_valid = False, m_KR = 0, m_KI = 0, m_T = 0, m_merge = 0,
      m_A = (\<lambda>_. stage_zero), m_M = (\<lambda>_. stage_zero), m_L = (\<lambda>_. stage_zero), m_G = stage_zero,
      m_icache = (\<lambda>_. 0), m_icache_vaddr = (\<lambda>_. 0), m_tlb_vaddr = (\<lambda>_. 0), m_tlb_paddr = (\<lambda>_. 0),
      m_halt = True, m_flow = 0, mem_be = False, round_mode = 0, bd = board_power_on\<rparr>"

text \<open>For the witnesses: a floating-point library that works on the words as integers.\<close>

definition word_env :: env where
  "word_env = \<lparr>trace_undefined = False, trace_unaligned = True, asserts = True,
     float32_add = (\<lambda>_ a b. a + b), float32_sub = (\<lambda>_ a b. a - b), float32_mul = (\<lambda>_ a b. a * b),
     float32_div = (\<lambda>_ a b. a div b), float32_sqrt = (\<lambda>_ a. a), float32_to_int32 = (\<lambda>_ a. a),
     float32_to_int32_round_to_zero = (\<lambda>a. a), float32_to_float64 = ucast,
     float32_gt = (\<lambda>a b. b < a), float32_le = (\<lambda>a b. a \<le> b), float32_eq = (\<lambda>a b. a = b),
     float64_add = (\<lambda>_ a b. a + b), float64_sub = (\<lambda>_ a b. a - b), float64_mul = (\<lambda>_ a b. a * b),
     float64_div = (\<lambda>_ a b. a div b), float64_sqrt = (\<lambda>_ a. a), float64_to_int32 = (\<lambda>_. ucast),
     float64_to_int32_round_to_zero = ucast, float64_to_float32 = (\<lambda>_. ucast),
     float64_gt = (\<lambda>a b. b < a), float64_le = (\<lambda>a b. a \<le> b), float64_eq = (\<lambda>a b. a = b)\<rparr>"

end
