(* ===== verification/I860_Mmu.thy ===== *)
theory I860_Mmu
  imports I860_State
begin

text \<open>
  Instruction fetch through the instruction cache, address translation through the TLB and the
  two-level page tables, and the data accesses of the i860 (the first half of
  src/dimension/i860dec.cpp). A page walk is specified apart from the code by the entries it
  reads; the lemmas relate the two, and show what the cache and the TLB may return.
\<close>

section \<open>Invalidation\<close>

definition invalidate_icache :: "i860 \<Rightarrow> i860" where
  "invalidate_icache s = s\<lparr>m_icache_vaddr := (\<lambda>_. 0xFFFFFFFF)\<rparr>"

definition invalidate_tlb :: "i860 \<Rightarrow> i860" where
  "invalidate_tlb s = s\<lparr>m_tlb_vaddr := (\<lambda>_. 0xFFFFFFFF)\<rparr>"

section \<open>Board accesses of the processor\<close>

definition board_rd32_le :: "u32 \<Rightarrow> i860 \<Rightarrow> (u32 \<times> i860) res" where
  "board_rd32_le a s =
     bnd (nd_board_rd32_le (bd s) a) (\<lambda>(d, b). Inr (d ! 0, s\<lparr>bd := b\<rparr>))"

definition board_wr32_le :: "u32 \<Rightarrow> u32 \<Rightarrow> i860 \<Rightarrow> i860 res" where
  "board_wr32_le a v s = bnd (nd_board_wr32_le (bd s) a [v]) (\<lambda>b. Inr (s\<lparr>bd := b\<rparr>))"

definition board_rd64_be :: "u32 \<Rightarrow> i860 \<Rightarrow> (u64 \<times> i860) res" where
  "board_rd64_be a s =
     bnd (nd_board_rd64_be (bd s) a) (\<lambda>(d, b). Inr (dbl (d ! 0) (d ! 1), s\<lparr>bd := b\<rparr>))"

definition rdcs8 :: "u32 \<Rightarrow> i860 \<Rightarrow> (u32 \<times> i860) res" where
  "rdcs8 a s = bnd (nd_board_cs8get (bd s) a) (\<lambda>(v, b). Inr (v, s\<lparr>bd := b\<rparr>))"

section \<open>Address translation\<close>

abbreviation "I860_PAGE_OFF_MASK \<equiv> (0x00000FFF :: u32)"
abbreviation "I860_PAGE_FRAME_MASK \<equiv> (0xFFFFF000 :: u32)"
abbreviation "I860_TLB_MASK \<equiv> (0x7FF :: u32)"
abbreviation "I860_ICACHE_MASK \<equiv> (0x1FF :: u32)"

text \<open>A refused translation: DAT for a data access, IAT for a fetch, and the value 0.\<close>

definition access_trap :: "bool \<Rightarrow> i860 \<Rightarrow> i860" where
  "access_trap is_dataref s =
     or_flow TRAP_NORMAL (if is_dataref then SET_PSR_DAT 1 s else SET_PSR_IAT 1 s)"

text \<open>
  The checks of a page directory or page table entry, in the order of the code: presence,
  write protection, user access. The result is the trapping state, if there is one.
\<close>

definition entry_refused :: "u32 \<Rightarrow> bool \<Rightarrow> bool \<Rightarrow> i860 \<Rightarrow> i860 option" where
  "entry_refused e is_dataref is_write s =
     (if e AND 1 = 0 then Some (access_trap is_dataref s)
      else if is_write \<and> is_dataref \<and> e AND 2 = 0 \<and> (GET_PSR_U s \<noteq> 0 \<or> GET_EPSR_WP s \<noteq> 0)
        then Some (or_flow TRAP_NORMAL (SET_PSR_DAT 1 s))
      else if GET_PSR_U s \<noteq> 0 \<and> e AND 4 = 0 then Some (access_trap is_dataref s)
      else None)"

definition get_address_translation_walk ::
    "u32 \<Rightarrow> u32 \<Rightarrow> u32 \<Rightarrow> bool \<Rightarrow> bool \<Rightarrow> i860 \<Rightarrow> (u32 \<times> i860) res" where
  "get_address_translation_walk vaddr voffset tlbidx is_dataref is_write s =
     (let vpage = drop_bit 12 vaddr AND 0x3ff;
          vdir = drop_bit 22 vaddr AND 0x3ff;
          dtb = m_cregs s CR_DIRBASE AND I860_PAGE_FRAME_MASK;
          pg_dir_entry_a = dtb OR push_bit 2 vdir
      in bnd (board_rd32_le pg_dir_entry_a s) (\<lambda>(pg_dir_entry, s1).
         case entry_refused pg_dir_entry is_dataref is_write s1 of
           Some s' \<Rightarrow> Inr (0, s')
         | None \<Rightarrow>
             (let pfa1 = pg_dir_entry AND I860_PAGE_FRAME_MASK;
                  pg_tbl_entry_a = pfa1 OR push_bit 2 vpage
              in bnd (board_rd32_le pg_tbl_entry_a s1) (\<lambda>(pg_tbl_entry, s2).
                 case entry_refused pg_tbl_entry is_dataref is_write s2 of
                   Some s' \<Rightarrow> Inr (0, s')
                 | None \<Rightarrow>
                     bnd (board_wr32_le pg_dir_entry_a (pg_dir_entry OR 0x20) s2) (\<lambda>s3.
                     bnd (board_wr32_le pg_tbl_entry_a (pg_tbl_entry OR 0x20) s3) (\<lambda>s4.
                     if is_write \<and> is_dataref \<and> pg_tbl_entry AND 0x40 = 0 then
                       Inr (0, or_flow TRAP_NORMAL (SET_PSR_DAT 1 s4))
                     else
                       (let pfa2 = pg_tbl_entry AND I860_PAGE_FRAME_MASK; i = unat tlbidx
                        in Inr (pfa2 OR voffset,
                             s4\<lparr>m_tlb_vaddr := (m_tlb_vaddr s4)(i := vaddr AND I860_PAGE_FRAME_MASK),
                                m_tlb_paddr := (m_tlb_paddr s4)(i := pfa2)\<rparr>))))))))"

definition tlb_index :: "u32 \<Rightarrow> bool \<Rightarrow> u32" where
  "tlb_index vaddr is_write = (push_bit 1 vaddr OR (if is_write then 1 else 0)) AND I860_TLB_MASK"

definition get_address_translation ::
    "u32 \<Rightarrow> bool \<Rightarrow> bool \<Rightarrow> i860 \<Rightarrow> (u32 \<times> i860) res" where
  "get_address_translation vaddr is_dataref is_write s =
     (let voffset = vaddr AND I860_PAGE_OFF_MASK;
          tlbidx = tlb_index vaddr is_write;
          frame = vaddr AND I860_PAGE_FRAME_MASK
      in if m_tlb_vaddr s (unat tlbidx) = frame then
           Inr ((m_tlb_paddr s (unat tlbidx) AND I860_PAGE_FRAME_MASK) + voffset, s)
         else if m_tlb_vaddr s (unat (tlbidx XOR 1)) = frame then
           Inr ((m_tlb_paddr s (unat (tlbidx XOR 1)) AND I860_PAGE_FRAME_MASK) + voffset, s)
         else get_address_translation_walk vaddr voffset tlbidx is_dataref is_write s)"

section \<open>Instruction fetch\<close>

text \<open>Eight byte reads, the highest address first.\<close>

fun cs8_bytes :: "u32 \<Rightarrow> nat \<Rightarrow> u64 \<Rightarrow> i860 \<Rightarrow> (u64 \<times> i860) res" where
  "cs8_bytes paddr 0 acc s = Inr (acc, s)"
| "cs8_bytes paddr (Suc n) acc s =
     bnd (rdcs8 (paddr + of_nat n) s)
       (\<lambda>(v, s'). cs8_bytes paddr n (push_bit 8 acc OR ucast v) s')"

definition ifetch64_fill :: "u32 \<Rightarrow> u32 \<Rightarrow> nat \<Rightarrow> i860 \<Rightarrow> (u64 \<times> i860) res" where
  "ifetch64_fill paddr vaddr cidx s0 =
     (let s = s0\<lparr>m_icache_vaddr := (m_icache_vaddr s0)(cidx := vaddr)\<rparr>
      in bnd (if GET_DIRBASE_CS8 s \<noteq> 0 then cs8_bytes paddr 8 0 s
              else board_rd64_be paddr s)
           (\<lambda>(insn64, s'). Inr (insn64, s'\<lparr>m_icache := (m_icache s')(cidx := insn64)\<rparr>)))"

definition ifetch64_miss :: "u32 \<Rightarrow> u32 \<Rightarrow> nat \<Rightarrow> i860 \<Rightarrow> (u64 \<times> i860) res" where
  "ifetch64_miss pc vaddr cidx s =
     (if GET_DIRBASE_ATE s \<noteq> 0 then
        bnd (get_address_translation pc False False s) (\<lambda>(pa, s1).
          (let paddr = pa AND NOT 7; s2 = clear_flow EXITING_IFETCH s1
           in if PENDING_TRAP s2 \<and> (GET_PSR_DAT s2 \<noteq> 0 \<or> GET_PSR_IAT s2 \<noteq> 0) then
                Inr (0xffeeffeeffeeffee, or_flow EXITING_IFETCH s2)
              else ifetch64_fill paddr vaddr cidx s2))
      else ifetch64_fill vaddr vaddr cidx s)"

definition icache_index :: "u32 \<Rightarrow> nat" where
  "icache_index vaddr = unat (drop_bit 3 vaddr AND I860_ICACHE_MASK)"

definition ifetch64 :: "u32 \<Rightarrow> i860 \<Rightarrow> (u64 \<times> i860) res" where
  "ifetch64 pc s =
     (let vaddr = pc AND NOT 7; cidx = icache_index vaddr
      in if m_icache_vaddr s cidx \<noteq> vaddr then ifetch64_miss pc vaddr cidx s
         else Inr (m_icache s cidx, s))"

definition ifetch :: "u32 \<Rightarrow> i860 \<Rightarrow> (u32 \<times> i860) res" where
  "ifetch pc s =
     bnd (ifetch64 pc s)
       (\<lambda>(v, s'). Inr (if pc AND 4 \<noteq> 0 then ucast (drop_bit 32 v) else ucast v, s'))"

definition ifetch_notrap :: "u32 \<Rightarrow> i860 \<Rightarrow> (u32 \<times> i860) res" where
  "ifetch_notrap pc s =
     bnd (ifetch pc (clear_flow TRAP_MASK s)) (\<lambda>(v, s'). Inr (v, s'\<lparr>m_flow := m_flow s\<rparr>))"

section \<open>Data accesses\<close>

text \<open>The physical address of a data access, or \<open>None\<close> after a translation trap.\<close>

definition data_address :: "u32 \<Rightarrow> bool \<Rightarrow> (i860 \<Rightarrow> bool) \<Rightarrow> u32 \<Rightarrow> i860 \<Rightarrow> (u32 option \<times> i860) res" where
  "data_address addr is_write refused exiting s =
     (if GET_DIRBASE_ATE s \<noteq> 0 then
        bnd (get_address_translation addr True is_write s) (\<lambda>(phys, s1).
          if PENDING_TRAP s1 \<and> refused s1 then Inr (None, SET_EXITING_MEMRW exiting s1)
          else Inr (Some phys, s1))
      else Inr (Some addr, s))"

definition access_fault :: "i860 \<Rightarrow> bool" where
  "access_fault s \<longleftrightarrow> GET_PSR_IAT s \<noteq> 0 \<or> GET_PSR_DAT s \<noteq> 0"

definition readmem_emu :: "u32 \<Rightarrow> nat \<Rightarrow> i860 \<Rightarrow> (u32 list option \<times> i860) res" where
  "readmem_emu addr sz s =
     bnd (data_address addr False access_fault EXITING_FPREADMEM s) (\<lambda>(pa, s1).
       case pa of
         None \<Rightarrow> Inr (None, s1)
       | Some a \<Rightarrow>
           bnd (rdmem (mem_be s1) sz (bd s1) a) (\<lambda>(d, b). Inr (Some d, s1\<lparr>bd := b\<rparr>)))"

text \<open>
  The data buffer of a write is given by its words: word \<open>i\<close> is read only when the write needs
  it, and a word outside the buffer is the fault \<open>ArrayOOB\<close>.
\<close>

fun buffer_words :: "(nat \<Rightarrow> u32 res) \<Rightarrow> nat \<Rightarrow> u32 list res" where
  "buffer_words d 0 = Inr []"
| "buffer_words d (Suc n) = bnd (buffer_words d n) (\<lambda>vs. bnd (d n) (\<lambda>v. Inr (vs @ [v])))"

definition access_words :: "nat \<Rightarrow> nat" where
  "access_words sz = (sz + 3) div 4"

definition board_wr :: "nat \<Rightarrow> u32 \<Rightarrow> (nat \<Rightarrow> u32 res) \<Rightarrow> i860 \<Rightarrow> i860 res" where
  "board_wr sz a d s =
     bnd (buffer_words d (access_words sz)) (\<lambda>vs.
     bnd (wrmem (mem_be s) sz (bd s) a vs) (\<lambda>b. Inr (s\<lparr>bd := b\<rparr>)))"

definition writemem_emu :: "u32 \<Rightarrow> nat \<Rightarrow> (nat \<Rightarrow> u32 res) \<Rightarrow> i860 \<Rightarrow> i860 res" where
  "writemem_emu addr sz d s =
     bnd (data_address addr True access_fault EXITING_WRITEMEM s) (\<lambda>(pa, s1).
       case pa of None \<Rightarrow> Inr s1 | Some a \<Rightarrow> board_wr sz a d s1)"

text \<open>The masked write of pst.d: bit \<open>7 - i\<close> of the mask enables byte \<open>i\<close> of the data.\<close>

definition wr_byte :: "u32 \<Rightarrow> u32 \<Rightarrow> (nat \<Rightarrow> u32 res) \<Rightarrow> nat \<Rightarrow> i860 \<Rightarrow> i860 res" where
  "wr_byte wmask a d i s =
     (if bit wmask (7 - i) then
        bnd (d (i div 4)) (\<lambda>v.
        bnd (wrmem (mem_be s) 1 (bd s) (a + of_nat i) [drop_bit (8 * (i mod 4)) v AND 0xFF])
          (\<lambda>b. Inr (s\<lparr>bd := b\<rparr>)))
      else Inr s)"

fun wr_bytes :: "u32 \<Rightarrow> u32 \<Rightarrow> (nat \<Rightarrow> u32 res) \<Rightarrow> nat list \<Rightarrow> i860 \<Rightarrow> i860 res" where
  "wr_bytes wmask a d [] s = Inr s"
| "wr_bytes wmask a d (i # is) s = bnd (wr_byte wmask a d i s) (wr_bytes wmask a d is)"

definition writemem_emu_masked ::
    "u32 \<Rightarrow> nat \<Rightarrow> (nat \<Rightarrow> u32 res) \<Rightarrow> u32 \<Rightarrow> i860 \<Rightarrow> i860 res" where
  "writemem_emu_masked addr sz d wmask s =
     bnd (data_address addr True (\<lambda>s. GET_PSR_DAT s \<noteq> 0) EXITING_WRITEMEM s) (\<lambda>(pa, s1).
       case pa of
         None \<Rightarrow> Inr s1
       | Some a \<Rightarrow>
           if sz = 8 \<and> wmask \<noteq> 0xff then wr_bytes wmask a d [0, 1, 2, 3, 4, 5, 6, 7] s1
           else board_wr sz a d s1)"

section \<open>The invariant is kept\<close>

lemma cpu_ok_invalidate [simp]:
  "cpu_ok s \<Longrightarrow> cpu_ok (invalidate_icache s)" "cpu_ok s \<Longrightarrow> cpu_ok (invalidate_tlb s)"
  by (simp_all add: cpu_ok_def invalidate_icache_def invalidate_tlb_def tags_ok_def)

abbreviation ok_result :: "('a \<times> i860) res \<Rightarrow> bool" where
  "ok_result r \<equiv> holds (\<lambda>(v, s). cpu_ok s) r"

lemma ok_result_bnd:
  "ok_result m \<Longrightarrow> (\<And>v s. cpu_ok s \<Longrightarrow> holds Q (f (v, s))) \<Longrightarrow> holds Q (bnd m f)"
  by (cases m) auto

lemma ok_rdmem_bnd:
  assumes "cpu_ok s" "\<And>d b. board_ok b \<Longrightarrow> holds Q (f (d, b))"
  shows "holds Q (bnd (rdmem be n (bd s) a) f)"
  using rdmem_holds [OF cpu_ok_board [OF assms(1)], of be n a] assms(2)
  by (cases "rdmem be n (bd s) a") auto

lemma ok_wrmem_bnd:
  assumes "cpu_ok s" "\<And>b. board_ok b \<Longrightarrow> holds Q (f b)"
  shows "holds Q (bnd (wrmem be n (bd s) a v) f)"
  using wrmem_holds [OF cpu_ok_board [OF assms(1)], of be n a v] assms(2)
  by (cases "wrmem be n (bd s) a v") auto

lemma rdmem_32_le: "nd_board_rd32_le = rdmem False 4" and rdmem_64_be: "nd_board_rd64_be = rdmem True 8"
  and wrmem_32_le: "nd_board_wr32_le = wrmem False 4"
  by (simp_all add: rdmem_def wrmem_def)

lemma board_rd32_le_ok: "cpu_ok s \<Longrightarrow> ok_result (board_rd32_le a s)"
  by (auto simp: board_rd32_le_def rdmem_32_le intro!: ok_rdmem_bnd)

lemma board_rd64_be_ok: "cpu_ok s \<Longrightarrow> ok_result (board_rd64_be a s)"
  by (auto simp: board_rd64_be_def rdmem_64_be intro!: ok_rdmem_bnd)

lemma board_wr32_le_ok: "cpu_ok s \<Longrightarrow> holds cpu_ok (board_wr32_le a v s)"
  by (auto simp: board_wr32_le_def wrmem_32_le intro!: ok_wrmem_bnd)

lemma rdcs8_ok: "cpu_ok s \<Longrightarrow> ok_result (rdcs8 a s)"
  using nd_board_cs8get_holds [OF cpu_ok_board, of s a]
  by (auto simp: rdcs8_def intro!: holds_bnd elim!: holds_mono)

lemma frame_tag: "(v AND I860_PAGE_FRAME_MASK) AND 0xFFF = 0"
  by (simp add: and.assoc)

lemma line_tag: "(v AND - 8) AND (7 :: u32) = 0"
  by (simp add: and.assoc)

lemma cpu_ok_tlb_fill:
  "cpu_ok s \<Longrightarrow> cpu_ok (s\<lparr>m_tlb_vaddr := (m_tlb_vaddr s)(i := v AND I860_PAGE_FRAME_MASK)\<rparr>)"
  by (simp add: cpu_ok_def tags_ok_upd frame_tag)

lemma cpu_ok_access_trap [simp]: "cpu_ok (access_trap d s) = cpu_ok s"
  by (simp add: access_trap_def)

lemma entry_refused_ok: "entry_refused e d w s = Some s' \<Longrightarrow> cpu_ok s' = cpu_ok s"
  by (auto simp: entry_refused_def split: if_splits)

lemma walk_ok: "cpu_ok s \<Longrightarrow> ok_result (get_address_translation_walk va vo i d w s)"
  unfolding get_address_translation_walk_def Let_def
  by (auto intro!: ok_result_bnd [OF board_rd32_le_ok] ok_bnd [OF board_wr32_le_ok]
      simp: entry_refused_ok cpu_ok_tlb_fill split: option.split)

lemma get_address_translation_ok: "cpu_ok s \<Longrightarrow> ok_result (get_address_translation va d w s)"
  by (simp add: get_address_translation_def Let_def walk_ok)

lemma cs8_bytes_ok: "cpu_ok s \<Longrightarrow> ok_result (cs8_bytes a n acc s)"
  by (induction n arbitrary: acc s) (auto intro!: ok_result_bnd [OF rdcs8_ok])

lemma ifetch64_fill_ok: "cpu_ok s \<Longrightarrow> va AND 7 = 0 \<Longrightarrow> ok_result (ifetch64_fill pa va i s)"
proof -
  assume ok: "cpu_ok s" and va: "va AND 7 = 0"
  let ?s = "s\<lparr>m_icache_vaddr := (m_icache_vaddr s)(i := va)\<rparr>"
  have s: "cpu_ok ?s" using ok va by (simp add: cpu_ok_def tags_ok_upd)
  then show ?thesis unfolding ifetch64_fill_def Let_def
    by (intro ok_result_bnd) (auto intro: cs8_bytes_ok board_rd64_be_ok)
qed

lemma ifetch64_ok: "cpu_ok s \<Longrightarrow> ok_result (ifetch64 pc s)"
  unfolding ifetch64_def ifetch64_miss_def Let_def
  by (auto intro!: ok_result_bnd [OF get_address_translation_ok] ifetch64_fill_ok simp: line_tag)

lemma ifetch_ok: "cpu_ok s \<Longrightarrow> ok_result (ifetch pc s)"
  unfolding ifetch_def by (rule ok_result_bnd [OF ifetch64_ok]) auto

lemma ifetch_notrap_ok: "cpu_ok s \<Longrightarrow> ok_result (ifetch_notrap pc s)"
  unfolding ifetch_notrap_def by (rule ok_result_bnd [OF ifetch_ok]) auto

lemma data_address_ok: "cpu_ok s \<Longrightarrow> ok_result (data_address a w rf ex s)"
  unfolding data_address_def by (auto intro!: ok_result_bnd [OF get_address_translation_ok])

lemma readmem_emu_ok: "cpu_ok s \<Longrightarrow> ok_result (readmem_emu a n s)"
  unfolding readmem_emu_def
  by (rule ok_result_bnd [OF data_address_ok]) (auto intro!: ok_rdmem_bnd split: option.split)

lemma holds_any: "(\<And>x. holds Q (f x)) \<Longrightarrow> holds Q (bnd m f)"
  by (cases m) auto

lemma board_wr_ok: "cpu_ok s \<Longrightarrow> holds cpu_ok (board_wr n a d s)"
  unfolding board_wr_def
  by (rule holds_any) (auto intro!: ok_wrmem_bnd)

lemma wr_bytes_ok: "cpu_ok s \<Longrightarrow> holds cpu_ok (wr_bytes m a d is s)"
proof (induction "is" arbitrary: s)
  case (Cons i "is")
  have "holds cpu_ok (wr_byte m a d i s)"
    unfolding wr_byte_def using Cons.prems
    by (auto intro!: holds_any [of _ _ "d _"] ok_wrmem_bnd)
  then show ?case using Cons.IH by (auto intro: ok_bnd)
qed simp

lemma writemem_emu_ok: "cpu_ok s \<Longrightarrow> holds cpu_ok (writemem_emu a n d s)"
  unfolding writemem_emu_def
  by (rule ok_result_bnd [OF data_address_ok]) (auto intro!: board_wr_ok split: option.split)

lemma writemem_emu_masked_ok: "cpu_ok s \<Longrightarrow> holds cpu_ok (writemem_emu_masked a n d m s)"
  unfolding writemem_emu_masked_def
  by (rule ok_result_bnd [OF data_address_ok]) (auto intro!: board_wr_ok wr_bytes_ok simp del: wr_bytes.simps split: option.split)

section \<open>Page walk against its specification\<close>

text \<open>The word the processor finds at a physical address in RAM or VRAM (little-endian mode).\<close>

definition le_cell :: "board \<Rightarrow> u32 \<Rightarrow> cell option" where
  "le_cell b a = long_cell b ((a OR ND_BOARD_BITS) XOR 4)"

definition le_word :: "board \<Rightarrow> u32 \<Rightarrow> u32 option" where
  "le_word b a = map_option (cell_get b) (le_cell b a)"

lemma board_rd32_le_cell: "le_word (bd s) a = Some w \<Longrightarrow> board_rd32_le a s = Inr (w, s)"
  using nd_long.get_returns
  by (auto simp: le_word_def le_cell_def board_rd32_le_def nd_board_rd32_le_def rd1_def long_cell_get)

lemma board_wr32_le_cell:
  "le_cell (bd s) a = Some c \<Longrightarrow> board_wr32_le a v s = Inr (s\<lparr>bd := cell_put (bd s) c v\<rparr>)"
  by (simp add: le_cell_def board_wr32_le_def nd_board_wr32_le_def long_cell_put)

lemma le_cell_put [simp]: "le_cell (cell_put b c v) a = le_cell b a"
  by (simp add: le_cell_def)

text \<open>What a page table entry allows.\<close>

definition permits :: "u32 \<Rightarrow> bool \<Rightarrow> bool \<Rightarrow> bool \<Rightarrow> bool \<Rightarrow> bool" where
  "permits e user wp is_dataref is_write \<longleftrightarrow>
     e AND 1 \<noteq> 0 \<and> (is_write \<and> is_dataref \<and> (user \<or> wp) \<longrightarrow> e AND 2 \<noteq> 0) \<and> (user \<longrightarrow> e AND 4 \<noteq> 0)"

datatype xlate = Refused | Mapped u32

definition translate :: "u32 \<Rightarrow> u32 \<Rightarrow> bool \<Rightarrow> bool \<Rightarrow> bool \<Rightarrow> bool \<Rightarrow> u32 \<Rightarrow> xlate" where
  "translate pde pte user wp is_dataref is_write va =
     (if permits pde user wp is_dataref is_write \<and> permits pte user wp is_dataref is_write \<and>
         (is_write \<and> is_dataref \<longrightarrow> pte AND 0x40 \<noteq> 0)
      then Mapped ((pte AND I860_PAGE_FRAME_MASK) OR (va AND I860_PAGE_OFF_MASK)) else Refused)"

definition user_mode :: "i860 \<Rightarrow> bool" where "user_mode s \<longleftrightarrow> GET_PSR_U s \<noteq> 0"
definition write_protect :: "i860 \<Rightarrow> bool" where "write_protect s \<longleftrightarrow> GET_EPSR_WP s \<noteq> 0"

definition pde_addr :: "i860 \<Rightarrow> u32 \<Rightarrow> u32" where
  "pde_addr s va = (m_cregs s CR_DIRBASE AND I860_PAGE_FRAME_MASK) OR push_bit 2 (drop_bit 22 va AND 0x3ff)"

definition pte_addr :: "u32 \<Rightarrow> u32 \<Rightarrow> u32" where
  "pte_addr pde va = (pde AND I860_PAGE_FRAME_MASK) OR push_bit 2 (drop_bit 12 va AND 0x3ff)"

text \<open>The state after a refused access.\<close>

definition trapped :: "bool \<Rightarrow> i860 \<Rightarrow> i860 \<Rightarrow> bool" where
  "trapped is_dataref s s' \<longleftrightarrow>
     flow TRAP_NORMAL s' \<and> (if is_dataref then GET_PSR_DAT s' = 1 else GET_PSR_IAT s' = 1) \<and>
     m_tlb_vaddr s' = m_tlb_vaddr s"

lemma flow_or_flow: "flow f (or_flow g s) \<longleftrightarrow> flow f s \<or> f AND g \<noteq> 0"
proof -
  have "(m_flow s OR g) AND f = (m_flow s AND f) OR (f AND g)"
    by (simp only: bit.conj_disj_distrib2 and.commute [of g f])
  then show ?thesis by (simp add: flow_def or_flow_def or_eq_0_iff)
qed

lemma tlb_frame [simp]:
  "m_tlb_vaddr (or_flow f s) = m_tlb_vaddr s" "m_tlb_vaddr (set_field c m l v s) = m_tlb_vaddr s"
  "m_tlb_paddr (or_flow f s) = m_tlb_paddr s" "m_tlb_paddr (set_field c m l v s) = m_tlb_paddr s"
  by (simp_all add: or_flow_def set_field_def set_creg_def)

lemma trapped_dat: "trapped True s (or_flow TRAP_NORMAL (SET_PSR_DAT 1 s))"
  and trapped_access: "trapped d s (access_trap d s)"
  by (simp_all add: trapped_def access_trap_def flow_or_flow GET_PSR_DAT_def GET_PSR_IAT_def
      SET_PSR_DAT_def SET_PSR_IAT_def)

lemma entry_refused_iff:
  "(entry_refused e d w s = None) = permits e (user_mode s) (write_protect s) d w"
  by (auto simp: entry_refused_def permits_def user_mode_def write_protect_def)

lemma entry_refused_trapped: "entry_refused e d w s = Some s' \<Longrightarrow> trapped d s s'"
  by (auto simp: entry_refused_def trapped_dat trapped_access split: if_splits)

definition walk_result :: "xlate \<Rightarrow> u32 \<Rightarrow> u32 \<Rightarrow> bool \<Rightarrow> i860 \<Rightarrow> u32 \<Rightarrow> i860 \<Rightarrow> bool" where
  "walk_result x va i d s r s' \<longleftrightarrow>
     (case x of
        Refused \<Rightarrow> r = 0 \<and> trapped d s s'
      | Mapped pa \<Rightarrow> r = pa \<and> m_flow s' = m_flow s \<and> m_cregs s' = m_cregs s \<and>
          m_tlb_vaddr s' (unat i) = va AND I860_PAGE_FRAME_MASK)"

lemma walk_refines:
  assumes pde: "le_word (bd s) (pde_addr s va) = Some pde"
    and pte: "le_word (bd s) (pte_addr pde va) = Some pte"
  shows "\<exists>r s'. get_address_translation_walk va (va AND I860_PAGE_OFF_MASK) i d w s = Inr (r, s') \<and>
    walk_result (translate pde pte (user_mode s) (write_protect s) d w va) va i d s r s'"
proof -
  obtain c1 c2 where c: "le_cell (bd s) (pde_addr s va) = Some c1" "le_cell (bd s) (pte_addr pde va) = Some c2"
    using pde pte by (auto simp: le_word_def)
  note rd = board_rd32_le_cell [OF pde] board_rd32_le_cell [OF pte]
  have wr: "board_wr32_le (pde_addr s va) u s = Inr (s\<lparr>bd := cell_put (bd s) c1 u\<rparr>)"
    "board_wr32_le (pte_addr pde va) v (s\<lparr>bd := cell_put (bd s) c1 u\<rparr>) =
      Inr (s\<lparr>bd := cell_put (cell_put (bd s) c1 u) c2 v\<rparr>)" for u v
    using c by (simp_all add: board_wr32_le_cell)
  show ?thesis
    unfolding get_address_translation_walk_def Let_def pde_addr_def [symmetric]
      pte_addr_def [symmetric] rd
    using entry_refused_iff [of pde d w s] entry_refused_iff [of pte d w s]
    by (cases "entry_refused pde d w s"; cases "entry_refused pte d w s")
      (auto simp: rd wr translate_def walk_result_def entry_refused_trapped pte_addr_def [symmetric],
        auto simp: trapped_def flow_or_flow SET_PSR_DAT_def GET_PSR_DAT_def)
qed

section \<open>The TLB and the instruction cache\<close>

lemma frame_plus_offset:
  "(x AND I860_PAGE_FRAME_MASK) + (v AND I860_PAGE_OFF_MASK) =
   (x AND I860_PAGE_FRAME_MASK) OR (v AND I860_PAGE_OFF_MASK)"
proof (rule disjunctive_add_eq_or)
  have "(x AND I860_PAGE_FRAME_MASK) AND (v AND I860_PAGE_OFF_MASK) =
      (x AND v) AND (I860_PAGE_FRAME_MASK AND I860_PAGE_OFF_MASK)"
    by (simp only: ac_simps)
  then show "(x AND I860_PAGE_FRAME_MASK) AND (v AND I860_PAGE_OFF_MASK) = 0" by simp
qed

lemma frame_not_invalid: "v AND I860_PAGE_FRAME_MASK \<noteq> 0xFFFFFFFF"
proof
  assume "v AND I860_PAGE_FRAME_MASK = 0xFFFFFFFF"
  then have "(v AND I860_PAGE_FRAME_MASK) AND 0xFFF = 0xFFF" by simp
  then show False by (simp add: frame_tag)
qed


text \<open>A walk that raises no trap has filled the entry of its index.\<close>

lemma entry_refused_flow: "entry_refused e d w s = Some s' \<Longrightarrow> flow TRAP_NORMAL s'"
  by (auto simp: trapped_def dest: entry_refused_trapped)

lemma walk_fills_holds:
  "holds (\<lambda>(pa, s'). flow TRAP_NORMAL s' \<or>
      (m_tlb_vaddr s' (unat i) = va AND I860_PAGE_FRAME_MASK \<and>
       pa = (m_tlb_paddr s' (unat i) AND I860_PAGE_FRAME_MASK) OR vo))
    (get_address_translation_walk va vo i d w s)"
  unfolding get_address_translation_walk_def Let_def
  by (auto intro!: holds_any simp: flow_or_flow and.assoc split: option.split dest!: entry_refused_flow)

lemma walk_fills:
  assumes "get_address_translation_walk va vo i d w s = Inr (pa, s')" "\<not> flow TRAP_NORMAL s'"
  shows "m_tlb_vaddr s' (unat i) = va AND I860_PAGE_FRAME_MASK"
    "pa = (m_tlb_paddr s' (unat i) AND I860_PAGE_FRAME_MASK) OR vo"
  using holdsD [OF walk_fills_holds assms(1)] assms(2) by auto

text \<open>The cached translation of an address, if the TLB has one.\<close>

definition tlb_hit :: "u32 \<Rightarrow> bool \<Rightarrow> i860 \<Rightarrow> bool" where
  "tlb_hit va w s \<longleftrightarrow>
     m_tlb_vaddr s (unat (tlb_index va w)) = va AND I860_PAGE_FRAME_MASK \<or>
     m_tlb_vaddr s (unat (tlb_index va w XOR 1)) = va AND I860_PAGE_FRAME_MASK"

lemma tlb_hit_returns: "tlb_hit va w s \<Longrightarrow> \<exists>pa. get_address_translation va d w s = Inr (pa, s)"
  by (auto simp: tlb_hit_def get_address_translation_def Let_def)

lemma tlb_miss_walks:
  "\<not> tlb_hit va w s \<Longrightarrow> get_address_translation va d w s =
     get_address_translation_walk va (va AND I860_PAGE_OFF_MASK) (tlb_index va w) d w s"
  by (simp add: tlb_hit_def get_address_translation_def Let_def)

lemma translation_repeats:
  assumes "get_address_translation va d w s = Inr (pa, s')" "\<not> flow TRAP_NORMAL s'"
  shows "get_address_translation va d w s' = Inr (pa, s')"
proof (cases "tlb_hit va w s")
  case True
  then show ?thesis using assms tlb_hit_returns [of va w s d] by auto
next
  case False
  then have "get_address_translation_walk va (va AND I860_PAGE_OFF_MASK) (tlb_index va w) d w s = Inr (pa, s')"
    using assms(1) by (simp add: tlb_miss_walks)
  from walk_fills [OF this assms(2)] show ?thesis
    by (simp add: get_address_translation_def Let_def frame_plus_offset)
qed



lemma no_hit_after_invalidate: "\<not> tlb_hit va w (invalidate_tlb s)"
  using frame_not_invalid [of va] by (auto simp: tlb_hit_def invalidate_tlb_def)

text \<open>A filled cache line holds the word that was fetched.\<close>

lemma rdcs8_icache:
  "rdcs8 a s = Inr (v, s') \<Longrightarrow> m_icache_vaddr s' = m_icache_vaddr s \<and> m_flow s' = m_flow s"
  by (auto simp: rdcs8_def bnd_eq_Inr)

lemma cs8_bytes_icache:
  "cs8_bytes a n acc s = Inr (v, s') \<Longrightarrow> m_icache_vaddr s' = m_icache_vaddr s \<and> m_flow s' = m_flow s"
  by (induction n arbitrary: acc s) (fastforce simp: bnd_eq_Inr dest: rdcs8_icache)+

lemma ifetch64_fill_line:
  assumes "ifetch64_fill pa va i s = Inr (v, s')"
  shows "m_icache_vaddr s' i = va" "m_icache s' i = v" "m_flow s' = m_flow s"
  using assms
  by (auto simp: ifetch64_fill_def Let_def bnd_eq_Inr board_rd64_be_def split: if_splits
      dest!: cs8_bytes_icache)

lemma ifetch64_line:
  assumes "ifetch64 pc s = Inr (v, s')" "\<not> flow EXITING_IFETCH s'"
  shows "m_icache_vaddr s' (icache_index (pc AND NOT 7)) = pc AND NOT 7"
    "m_icache s' (icache_index (pc AND NOT 7)) = v"
  using assms
  by (auto simp: ifetch64_def ifetch64_miss_def Let_def bnd_eq_Inr flow_or_flow
      split: if_splits dest: ifetch64_fill_line)

section \<open>A machine with one mapped page\<close>

text \<open>
  The page directory at F8000000 maps the first four megabytes through the table at F8001000, whose
  first entry is \<open>pte\<close>.
\<close>

definition paged_board :: "u32 \<Rightarrow> board" where
  "paged_board pte =
     cell_put (cell_put board_power_on (RamCell 4) 0xF8001007) (RamCell 0x1004) pte"

definition paged_cpu :: "u32 \<Rightarrow> i860" where
  "paged_cpu pte = invalidate_tlb (invalidate_icache
     (set_creg CR_DIRBASE 0xF8000001 (i860_zero\<lparr>bd := paged_board pte\<rparr>)))"

lemma paged_cpu_simps [simp]:
  "bd (paged_cpu pte) = paged_board pte" "m_cregs (paged_cpu pte) CR_DIRBASE = 0xF8000001"
  "m_tlb_vaddr (paged_cpu pte) i = 0xFFFFFFFF" "m_flow (paged_cpu pte) = 0"
  "\<not> user_mode (paged_cpu pte)" "\<not> write_protect (paged_cpu pte)"
  by (simp_all add: paged_cpu_def invalidate_tlb_def invalidate_icache_def set_creg_def i860_zero_def
      user_mode_def write_protect_def GET_PSR_U_def GET_EPSR_WP_def get_field_def)

lemma power_on_le_cells:
  "le_cell board_power_on 0xF8000000 = Some (RamCell 4)"
  "le_cell board_power_on 0xF8001000 = Some (RamCell 0x1004)"
  by (simp_all add: le_cell_def power_on_ram_cell drop_bit_eq_div unat_div_distrib)

lemma paged_board_words:
  "le_word (paged_board pte) 0xF8000000 = Some 0xF8001007"
  "le_word (paged_board pte) 0xF8001000 = Some pte"
  by (simp_all add: le_word_def power_on_le_cells paged_board_def cell_get_put_other)

lemma paged_cpu_addrs:
  "pde_addr (paged_cpu pte) 0x123 = 0xF8000000" "pte_addr 0xF8001007 0x123 = 0xF8001000"
  by (simp_all add: pde_addr_def pte_addr_def)

section \<open>Properties\<close>

text \<open>
  C2. On a TLB miss the translation is the one the page tables prescribe: with the directory and
  table entries of the address in memory, an access both entries permit (present, writable where
  write protection counts, user where the mode is user, dirty for a write) gives the frame of the
  table entry with the offset of the address, leaves the control registers alone and enters the
  page in the TLB; any other access gives 0, raises the data or instruction access trap and
  enters nothing.
\<close>

theorem page_walk_correct:
  assumes "\<not> tlb_hit va w s"
    and "le_word (bd s) (pde_addr s va) = Some pde"
    and "le_word (bd s) (pte_addr pde va) = Some pte"
  shows "\<exists>r s'. get_address_translation va d w s = Inr (r, s') \<and>
    walk_result (translate pde pte (user_mode s) (write_protect s) d w va) va (tlb_index va w) d s r s'"
  using walk_refines [OF assms(2,3)] by (simp add: tlb_miss_walks [OF assms(1)])

theorem page_walk_correct_witness:
  "\<exists>s'. get_address_translation 0x123 True True (paged_cpu 0xF8002047) = Inr (0xF8002123, s') \<and>
     m_flow s' = 0"
  using page_walk_correct [of "0x123" True "paged_cpu 0xF8002047" "0xF8001007" "0xF8002047" True]
  by (auto simp: paged_cpu_addrs paged_board_words tlb_hit_def translate_def permits_def walk_result_def)

text \<open>
  C3. A translation that raises no trap is repeatable: asked again, the processor finds the
  page in the TLB, returns the same physical address and changes nothing.
\<close>

theorem translation_stable:
  assumes "get_address_translation va d w s = Inr (pa, s')" "\<not> flow TRAP_NORMAL s'"
  shows "get_address_translation va d w s' = Inr (pa, s')"
  using assms by (rule translation_repeats)

lemma paged_cpu_reads:
  "\<exists>s'. get_address_translation 0x123 True False (paged_cpu 0xF8002001) = Inr (0xF8002123, s') \<and>
     m_flow s' = 0"
  using walk_refines [of "paged_cpu 0xF8002001" "0x123" "0xF8001007" "0xF8002001" "tlb_index 0x123 False" True False]
  by (auto simp: paged_cpu_addrs paged_board_words translate_def permits_def walk_result_def
      tlb_miss_walks tlb_hit_def)

theorem translation_stable_witness:
  "\<exists>s'. get_address_translation 0x123 True False (paged_cpu 0xF8002001) = Inr (0xF8002123, s') \<and>
     get_address_translation 0x123 True False s' = Inr (0xF8002123, s')"
  using paged_cpu_reads translation_stable [of "0x123" True False "paged_cpu 0xF8002001" "0xF8002123"]
  by (auto simp: flow_def)



text \<open>
  C17. Instruction fetch is repeatable: after a fetch that did not fault, the line is in the
  instruction cache and fetching the same address again returns the same pair of words
  without touching memory or any other state.
\<close>

theorem ifetch_stable:
  assumes "ifetch64 pc s = Inr (v, s')" "\<not> flow EXITING_IFETCH s'"
  shows "ifetch64 pc s' = Inr (v, s')"
  using ifetch64_line [OF assms] by (simp add: ifetch64_def Let_def)

text \<open>A cached word, for the witness.\<close>

definition cached_cpu :: i860 where
  "cached_cpu = i860_zero\<lparr>m_icache_vaddr := (\<lambda>_. 0xF8000000), m_icache := (\<lambda>_. 0x1234)\<rparr>"

theorem ifetch_stable_witness:
  "ifetch64 0xF8000004 cached_cpu = Inr (0x1234, cached_cpu) \<and>
   ifetch64 0xF8000004 cached_cpu = Inr (0x1234, cached_cpu)"
  using ifetch_stable [of "0xF8000004" cached_cpu "0x1234" cached_cpu]
  by (simp add: cached_cpu_def ifetch64_def Let_def flow_def i860_zero_def)

end
