(* ===== verification/I860_Int.thy ===== *)
theory I860_Int
  imports I860_Mmu
begin

text \<open>
  The integer instructions of src/dimension/i860dec.cpp that touch registers only: additions and
  subtractions with their flags, shifts, logic and software traps. A shift of 32 or more places is
  undefined in C++ and is the fault \<open>ShiftUB\<close>. The lemmas state results and flags in
  terms of the integers the operands stand for.
\<close>

type_synonym insn = "env \<Rightarrow> u32 \<Rightarrow> i860 \<Rightarrow> i860 res"

abbreviation iregval :: "i860 \<Rightarrow> nat \<Rightarrow> u32" where
  "iregval s g \<equiv> m_iregs s g"

text \<open>Set CC and OF, then the destination register.\<close>

definition set_cc_of :: "bool \<Rightarrow> bool \<Rightarrow> i860 \<Rightarrow> i860" where
  "set_cc_of cc ov s = SET_EPSR_OF (of_bool ov) (SET_PSR_CC (of_bool cc) s)"

section \<open>Addition and subtraction\<close>

definition addu_op :: "u32 \<Rightarrow> u32 \<Rightarrow> i860 \<Rightarrow> i860" where
  "addu_op src1val insn s =
     (let src2val = iregval s (get_isrc2 insn);
          tmp_dest_val = src1val + src2val;
          tmp = (ucast src1val :: u64) + ucast src2val;
          carry = (drop_bit 32 tmp AND 1 \<noteq> 0)
      in set_iregval (get_idest insn) tmp_dest_val (set_cc_of carry carry s))"

definition insn_addu :: insn where
  "insn_addu E insn s = Inr (addu_op (iregval s (get_isrc1 insn)) insn s)"

definition insn_addu_imm :: insn where
  "insn_addu_imm E insn s = Inr (addu_op (sign_ext (get_imm16 insn) 16) insn s)"

text \<open>The overflow rule \<open>sa \<noteq> sb \<and> sa \<noteq> sres\<close> the code uses for adds and subs alike.\<close>

definition signs_overflow :: "u32 \<Rightarrow> u32 \<Rightarrow> u32 \<Rightarrow> bool" where
  "signs_overflow a b r \<longleftrightarrow>
     (a AND 0x80000000 \<noteq> b AND 0x80000000) \<and> (a AND 0x80000000 \<noteq> r AND 0x80000000)"

definition adds_op :: "u32 \<Rightarrow> u32 \<Rightarrow> i860 \<Rightarrow> i860" where
  "adds_op src1val insn s =
     (let src2val = iregval s (get_isrc2 insn);
          tmp_dest_val = src1val + src2val;
          cc = (sint src2val < sint (- src1val))
      in set_iregval (get_idest insn) tmp_dest_val
           (set_cc_of cc (signs_overflow src1val src2val tmp_dest_val) s))"

definition insn_adds :: insn where
  "insn_adds E insn s = Inr (adds_op (iregval s (get_isrc1 insn)) insn s)"

definition insn_adds_imm :: insn where
  "insn_adds_imm E insn s = Inr (adds_op (sign_ext (get_imm16 insn) 16) insn s)"

definition subu_op :: "u32 \<Rightarrow> u32 \<Rightarrow> i860 \<Rightarrow> i860" where
  "subu_op src1val insn s =
     (let src2val = iregval s (get_isrc2 insn);
          tmp_dest_val = src1val - src2val;
          cc = (src2val \<le> src1val)
      in set_iregval (get_idest insn) tmp_dest_val (set_cc_of cc (\<not> cc) s))"

definition insn_subu :: insn where
  "insn_subu E insn s = Inr (subu_op (iregval s (get_isrc1 insn)) insn s)"

definition insn_subu_imm :: insn where
  "insn_subu_imm E insn s = Inr (subu_op (sign_ext (get_imm16 insn) 16) insn s)"

definition subs_op :: "u32 \<Rightarrow> u32 \<Rightarrow> i860 \<Rightarrow> i860" where
  "subs_op src1val insn s =
     (let src2val = iregval s (get_isrc2 insn);
          tmp_dest_val = src1val - src2val;
          cc = (sint src2val > sint src1val)
      in set_iregval (get_idest insn) tmp_dest_val
           (set_cc_of cc (signs_overflow src1val src2val tmp_dest_val) s))"

definition insn_subs :: insn where
  "insn_subs E insn s = Inr (subs_op (iregval s (get_isrc1 insn)) insn s)"

definition insn_subs_imm :: insn where
  "insn_subs_imm E insn s = Inr (subs_op (sign_ext (get_imm16 insn) 16) insn s)"

section \<open>Shifts\<close>

definition shift_count :: "u32 \<Rightarrow> nat res" where
  "shift_count c = (if c < 32 then Inr (unat c) else Inl ShiftUB)"

definition shl_op :: "u32 \<Rightarrow> u32 \<Rightarrow> i860 \<Rightarrow> i860 res" where
  "shl_op src1val insn s =
     bnd (shift_count src1val)
       (\<lambda>n. Inr (set_iregval (get_idest insn) (push_bit n (iregval s (get_isrc2 insn))) s))"

definition insn_shl :: insn where
  "insn_shl E insn s = shl_op (iregval s (get_isrc1 insn)) insn s"

definition insn_shl_imm :: insn where
  "insn_shl_imm E insn s = shl_op (sign_ext (get_imm16 insn) 16) insn s"

definition shr_op :: "u32 \<Rightarrow> u32 \<Rightarrow> i860 \<Rightarrow> i860 res" where
  "shr_op src1val insn s =
     bnd (shift_count src1val)
       (\<lambda>n. Inr (SET_PSR_SC src1val
          (set_iregval (get_idest insn) (drop_bit n (iregval s (get_isrc2 insn))) s)))"

definition insn_shr :: insn where
  "insn_shr E insn s = shr_op (iregval s (get_isrc1 insn)) insn s"

definition insn_shr_imm :: insn where
  "insn_shr_imm E insn s = shr_op (sign_ext (get_imm16 insn) 16) insn s"

definition shra_op :: "u32 \<Rightarrow> u32 \<Rightarrow> i860 \<Rightarrow> i860 res" where
  "shra_op src1val insn s =
     bnd (shift_count src1val)
       (\<lambda>n. Inr (set_iregval (get_idest insn) (signed_drop_bit n (iregval s (get_isrc2 insn))) s))"

definition insn_shra :: insn where
  "insn_shra E insn s = shra_op (iregval s (get_isrc1 insn)) insn s"

definition insn_shra_imm :: insn where
  "insn_shra_imm E insn s = shra_op (sign_ext (get_imm16 insn) 16) insn s"

definition insn_shrd :: insn where
  "insn_shrd E insn s =
     (let sc = unat (GET_PSR_SC s);
          tmp = (if sc = 0 then iregval s (get_isrc2 insn)
                 else push_bit (32 - sc) (iregval s (get_isrc1 insn)) OR
                      drop_bit sc (iregval s (get_isrc2 insn)))
      in Inr (set_iregval (get_idest insn) tmp s))"

section \<open>Logic\<close>

definition logic_op :: "u32 \<Rightarrow> u32 \<Rightarrow> i860 \<Rightarrow> i860 res" where
  "logic_op res insn s =
     Inr (set_iregval (get_idest insn) res (SET_PSR_CC (if res = 0 then 1 else 0) s))"

definition insn_and :: insn where
  "insn_and E insn s = logic_op (iregval s (get_isrc1 insn) AND iregval s (get_isrc2 insn)) insn s"

definition insn_and_imm :: insn where
  "insn_and_imm E insn s = logic_op (get_imm16 insn AND iregval s (get_isrc2 insn)) insn s"

definition insn_andh_imm :: insn where
  "insn_andh_imm E insn s =
     logic_op (push_bit 16 (get_imm16 insn) AND iregval s (get_isrc2 insn)) insn s"

definition insn_andnot :: insn where
  "insn_andnot E insn s =
     logic_op (NOT (iregval s (get_isrc1 insn)) AND iregval s (get_isrc2 insn)) insn s"

definition insn_andnot_imm :: insn where
  "insn_andnot_imm E insn s =
     logic_op (NOT (get_imm16 insn) AND iregval s (get_isrc2 insn)) insn s"

definition insn_andnoth_imm :: insn where
  "insn_andnoth_imm E insn s =
     logic_op (NOT (push_bit 16 (get_imm16 insn)) AND iregval s (get_isrc2 insn)) insn s"

definition insn_or :: insn where
  "insn_or E insn s = logic_op (iregval s (get_isrc1 insn) OR iregval s (get_isrc2 insn)) insn s"

definition insn_or_imm :: insn where
  "insn_or_imm E insn s = logic_op (get_imm16 insn OR iregval s (get_isrc2 insn)) insn s"

definition insn_orh_imm :: insn where
  "insn_orh_imm E insn s =
     logic_op (push_bit 16 (get_imm16 insn) OR iregval s (get_isrc2 insn)) insn s"

definition insn_xor :: insn where
  "insn_xor E insn s = logic_op (iregval s (get_isrc1 insn) XOR iregval s (get_isrc2 insn)) insn s"

definition insn_xor_imm :: insn where
  "insn_xor_imm E insn s = logic_op (get_imm16 insn XOR iregval s (get_isrc2 insn)) insn s"

definition insn_xorh_imm :: insn where
  "insn_xorh_imm E insn s =
     logic_op (push_bit 16 (get_imm16 insn) XOR iregval s (get_isrc2 insn)) insn s"

section \<open>Traps\<close>

definition insn_trap :: insn where
  "insn_trap E insn s = Inr (or_flow TRAP_NORMAL (SET_PSR_IT 1 s))"

definition insn_intovr :: insn where
  "insn_intovr E insn s =
     Inr (if GET_EPSR_OF s \<noteq> 0 then or_flow TRAP_NORMAL (SET_PSR_IT 1 s) else s)"

definition dec_unrecog :: insn where
  "dec_unrecog E insn s = Inr (unrecog_opcode s)"

text \<open>An access to the cache has no effect; the auto-increment has.\<close>

definition insn_flush :: insn where
  "insn_flush E insn s =
     (let src1val = sign_ext (get_imm16 insn) 16 AND NOT 15;
          eff = src1val + iregval s (get_isrc2 insn)
      in Inr (if insn AND 1 \<noteq> 0 then set_iregval (get_isrc2 insn) eff s else s))"

section \<open>The invariant is kept\<close>

lemma cpu_ok_set_cc_of [simp]: "cpu_ok (set_cc_of c v s) = cpu_ok s"
  by (simp add: set_cc_of_def)

lemma arith_ops_ok [simp]:
  "cpu_ok s \<Longrightarrow> cpu_ok (addu_op v insn s)"
  "cpu_ok s \<Longrightarrow> cpu_ok (adds_op v insn s)"
  "cpu_ok s \<Longrightarrow> cpu_ok (subu_op v insn s)"
  "cpu_ok s \<Longrightarrow> cpu_ok (subs_op v insn s)"
  by (simp_all add: addu_op_def adds_op_def subu_op_def subs_op_def Let_def)

lemma shift_ops_ok:
  "cpu_ok s \<Longrightarrow> holds cpu_ok (shl_op v insn s)"
  "cpu_ok s \<Longrightarrow> holds cpu_ok (shr_op v insn s)"
  "cpu_ok s \<Longrightarrow> holds cpu_ok (shra_op v insn s)"
  by (simp_all add: shl_op_def shr_op_def shra_op_def shift_count_def)

lemma logic_op_ok: "cpu_ok s \<Longrightarrow> holds cpu_ok (logic_op v insn s)"
  by (simp add: logic_op_def)

lemmas int_insn_defs =
  insn_addu_def insn_addu_imm_def insn_adds_def insn_adds_imm_def insn_subu_def insn_subu_imm_def
  insn_subs_def insn_subs_imm_def insn_shl_def insn_shl_imm_def insn_shr_def insn_shr_imm_def
  insn_shra_def insn_shra_imm_def insn_shrd_def insn_and_def insn_and_imm_def insn_andh_imm_def
  insn_andnot_def insn_andnot_imm_def insn_andnoth_imm_def insn_or_def insn_or_imm_def
  insn_orh_imm_def insn_xor_def insn_xor_imm_def insn_xorh_imm_def insn_trap_def insn_intovr_def
  dec_unrecog_def insn_flush_def

lemma int_insns_ok:
  assumes "cpu_ok s"
  shows "holds cpu_ok (insn_addu E insn s)" "holds cpu_ok (insn_addu_imm E insn s)"
    "holds cpu_ok (insn_adds E insn s)" "holds cpu_ok (insn_adds_imm E insn s)"
    "holds cpu_ok (insn_subu E insn s)" "holds cpu_ok (insn_subu_imm E insn s)"
    "holds cpu_ok (insn_subs E insn s)" "holds cpu_ok (insn_subs_imm E insn s)"
    "holds cpu_ok (insn_shl E insn s)" "holds cpu_ok (insn_shl_imm E insn s)"
    "holds cpu_ok (insn_shr E insn s)" "holds cpu_ok (insn_shr_imm E insn s)"
    "holds cpu_ok (insn_shra E insn s)" "holds cpu_ok (insn_shra_imm E insn s)"
    "holds cpu_ok (insn_shrd E insn s)"
    "holds cpu_ok (insn_and E insn s)" "holds cpu_ok (insn_and_imm E insn s)"
    "holds cpu_ok (insn_andh_imm E insn s)"
    "holds cpu_ok (insn_andnot E insn s)" "holds cpu_ok (insn_andnot_imm E insn s)"
    "holds cpu_ok (insn_andnoth_imm E insn s)"
    "holds cpu_ok (insn_or E insn s)" "holds cpu_ok (insn_or_imm E insn s)"
    "holds cpu_ok (insn_orh_imm E insn s)"
    "holds cpu_ok (insn_xor E insn s)" "holds cpu_ok (insn_xor_imm E insn s)"
    "holds cpu_ok (insn_xorh_imm E insn s)"
    "holds cpu_ok (insn_trap E insn s)" "holds cpu_ok (insn_intovr E insn s)"
    "holds cpu_ok (dec_unrecog E insn s)" "holds cpu_ok (insn_flush E insn s)"
  using assms by (simp_all add: int_insn_defs Let_def shift_ops_ok logic_op_ok)

section \<open>What the arithmetic computes\<close>

lemma sint_range: "- 0x80000000 \<le> sint (x :: u32)" "sint (x :: u32) < 0x80000000"
  using sint_ge [of x] sint_lt [of x] by simp_all

lemma and_push_bit_1: "x AND push_bit n 1 = (if bit x n then push_bit n 1 else (0 :: 'a::len word))"
  by (rule bit_word_eqI) (auto simp: bit_simps)

lemma sign_bit_iff: "x AND 0x80000000 = (if sint (x :: u32) < 0 then 0x80000000 else 0)"
  using and_push_bit_1 [of x 31] bit_last_iff [of x] by simp

text \<open>Two integers with the same word differ by a multiple of \<open>2 ^ 32\<close>.\<close>

lemma sint_of_int_cong:
  assumes "(x :: u32) = word_of_int i"
  obtains k where "sint x = i + k * 0x100000000"
proof -
  have "word_of_int (sint x) = (word_of_int i :: u32)" using assms by simp
  from this [unfolded word_of_int_eq_iff take_bit_eq_mod]
  have "sint x mod 0x100000000 = i mod 0x100000000" by simp
  then have "0x100000000 dvd sint x - i" by (simp add: mod_eq_dvd_iff)
  then show ?thesis using that by (metis add.commute diff_eq_eq dvd_div_mult_self)
qed

definition fits_int32 :: "int \<Rightarrow> bool" where
  "fits_int32 i \<longleftrightarrow> - 0x80000000 \<le> i \<and> i < 0x80000000"

lemma subs_overflow: "signs_overflow a b (a - b) \<longleftrightarrow> \<not> fits_int32 (sint a - sint b)"
proof -
  have "a - b = word_of_int (sint a - sint b)" by simp
  then obtain k where k: "sint (a - b) = sint a - sint b + k * 0x100000000"
    by (rule sint_of_int_cong)
  have "k = -1 \<or> k = 0 \<or> k = 1"
    using k sint_range [of a] sint_range [of b] sint_range [of "a - b"] by arith
  with k sint_range [of a] sint_range [of b] sint_range [of "a - b"]
  show ?thesis by (elim disjE) (auto simp: signs_overflow_def sign_bit_iff fits_int32_def)
qed

text \<open>The same rule applied to a sum never fires on a sum that overflows.\<close>

lemma adds_overflow_never: "signs_overflow a b (a + b) \<Longrightarrow> fits_int32 (sint a + sint b)"
  using sint_range [of a] sint_range [of b]
  by (auto simp: signs_overflow_def sign_bit_iff fits_int32_def split: if_splits)

lemma unat_u32: "unat (x :: u32) < 0x100000000"
  by (rule order_less_le_trans [OF unsigned_less]) simp

lemma addu_carry:
  "drop_bit 32 ((ucast (a :: u32) :: u64) + ucast (b :: u32)) AND 1 \<noteq> 0 \<longleftrightarrow> 0x100000000 \<le> unat a + unat b"
proof -
  let ?s = "(ucast a :: u64) + ucast b"
  have a: "unat a < 0x100000000" "unat b < 0x100000000"
    by (rule unat_u32)+
  have s: "unat ?s = unat a + unat b"
    using a by (simp add: unat_word_ariths unsigned_ucast_eq take_bit_nat_eq_self)
  have "drop_bit 32 ?s AND 1 = 0 \<longleftrightarrow> unat (drop_bit 32 ?s) mod 2 = 0"
    by (simp add: and1_dvd even_iff_mod_2_eq_zero)
  also have "unat (drop_bit 32 ?s) = (unat a + unat b) div 0x100000000"
    using s by (simp add: drop_bit_eq_div unat_div_distrib)
  finally show ?thesis
    using a by (cases "unat a + unat b < 0x100000000") (simp_all add: le_div_geq)
qed

text \<open>The destination register and the flags after an addition or subtraction.\<close>

lemma set_cc_of_reads:
  "GET_EPSR_OF (set_cc_of c v s) = of_bool v"
  "\<not> m_dim_cc_valid s \<Longrightarrow> GET_PSR_CC (set_cc_of c v s) = of_bool c"
  "m_dim_cc_valid s \<Longrightarrow> GET_PSR_CC (set_cc_of c v s) = GET_PSR_CC s"
  "m_iregs (set_cc_of c v s) = m_iregs s"
  by (simp_all add: set_cc_of_def SET_EPSR_OF_def SET_PSR_CC_def GET_EPSR_OF_def GET_PSR_CC_def
      get_field_set_other)

lemma set_iregval_reads [simp]:
  "g \<noteq> 0 \<Longrightarrow> m_iregs (set_iregval g v s) g = v"
  "m_iregs (set_iregval g v s) 0 = 0"
  "h \<noteq> g \<Longrightarrow> h \<noteq> 0 \<Longrightarrow> m_iregs (set_iregval g v s) h = m_iregs s h"
  "GET_PSR_CC (set_iregval g v s) = GET_PSR_CC s"
  "GET_EPSR_OF (set_iregval g v s) = GET_EPSR_OF s"
  by (simp_all add: set_iregval_def GET_PSR_CC_def GET_EPSR_OF_def get_field_def)

text \<open>shrd shifts the pair \<open>src1:src2\<close>.\<close>

lemma shrd_pair:
  assumes "sc < 32"
  shows "(if sc = 0 then lo else push_bit (32 - sc) hi OR drop_bit sc lo) = (ucast (drop_bit sc (dbl lo hi)) :: u32)"
  using assms
  by (intro bit_word_eqI) (auto simp: dbl_def bit_simps ac_simps dest: bit_imp_le_length)

lemma sign_ext_int:
  assumes "0 < n" "n \<le> 32" "unat x < 2 ^ n"
  shows "sint (sign_ext x n) = signed_take_bit (n - 1) (uint x)"
proof -
  have x: "take_bit n x = x"
    by (rule word_unat_eq_iff [THEN iffD2]) (simp add: unsigned_take_bit_eq take_bit_nat_eq_self assms(3))
  have xb: "\<not> bit x m" if "n \<le> m" for m
    using that by (subst x [symmetric]) (simp add: bit_simps)
  have t: "drop_bit (n - 1) x = of_bool (bit x (n - 1))"
  proof (rule bit_word_eqI)
    fix m show "bit (drop_bit (n - 1) x) m = bit (of_bool (bit x (n - 1)) :: u32) m"
      using assms(1) xb [of "n - 1 + m"] by (cases m) (auto simp: bit_simps)
  qed
  have "sign_ext x n = signed_take_bit (n - 1) x"
  proof (rule bit_word_eqI)
    fix m assume "m < LENGTH(32)"
    then show "bit (sign_ext x n) m = bit (signed_take_bit (n - 1) x) m"
      unfolding sign_ext_def Let_def t
      using assms(1,2) xb [of m] by (cases "m < n"; cases "m = n - 1") (auto simp: bit_simps min_def)
  qed
  moreover have "sint (signed_take_bit (n - 1) x) = signed_take_bit (n - 1) (uint x)"
    using assms(1,2) by (intro bit_eqI) (auto simp: bit_simps min_def)
  ultimately show ?thesis by simp
qed

lemma unat_add_u32: "unat (a + b :: u32) = (unat a + unat b) mod 0x100000000"
  by (simp add: unat_word_ariths)

lemma uint_sub_u32: "uint (a - b :: u32) = (uint a - uint b) mod 0x100000000"
  by (simp add: uint_word_ariths)

lemma sint_sub_fits: "fits_int32 (sint (a :: u32) - sint b) \<Longrightarrow> sint (a - b) = sint a - sint b"
proof -
  assume f: "fits_int32 (sint a - sint b)"
  have "a - b = word_of_int (sint a - sint b)" by simp
  then obtain k where k: "sint (a - b) = sint a - sint b + k * 0x100000000"
    by (rule sint_of_int_cong)
  then have "k = 0" using f sint_range [of "a - b"] by (simp add: fits_int32_def)
  with k show ?thesis by simp
qed

section \<open>Properties\<close>

text \<open>
  For the witnesses: a machine with two operands in r4 and r5, and instructions on r4 and r5
  with destination r6.
\<close>

definition two_regs :: "u32 \<Rightarrow> u32 \<Rightarrow> i860" where
  "two_regs a b = i860_zero\<lparr>m_iregs := (\<lambda>_. 0)(4 := a, 5 := b)\<rparr>"

lemma two_regs_simps [simp]:
  "m_iregs (two_regs a b) 4 = a" "m_iregs (two_regs a b) 5 = b" "\<not> m_dim_cc_valid (two_regs a b)"
  by (simp_all add: two_regs_def i860_zero_def)

abbreviation "ADDU_R4_R5_R6 \<equiv> (0x80A62000 :: u32)"
abbreviation "SUBU_R4_R5_R6 \<equiv> (0x88A62000 :: u32)"
abbreviation "ADDS_R4_R5_R6 \<equiv> (0x90A62000 :: u32)"
abbreviation "SUBS_R4_R5_R6 \<equiv> (0x98A62000 :: u32)"
abbreviation "SHRD_R4_R5_R6 \<equiv> (0xB0A62000 :: u32)"

lemma rrr_fields [simp]:
  "get_isrc1 ADDU_R4_R5_R6 = 4" "get_isrc2 ADDU_R4_R5_R6 = 5" "get_idest ADDU_R4_R5_R6 = 6"
  "get_isrc1 SUBU_R4_R5_R6 = 4" "get_isrc2 SUBU_R4_R5_R6 = 5" "get_idest SUBU_R4_R5_R6 = 6"
  "get_isrc1 ADDS_R4_R5_R6 = 4" "get_isrc2 ADDS_R4_R5_R6 = 5" "get_idest ADDS_R4_R5_R6 = 6"
  "get_isrc1 SUBS_R4_R5_R6 = 4" "get_isrc2 SUBS_R4_R5_R6 = 5" "get_idest SUBS_R4_R5_R6 = 6"
  "get_isrc1 SHRD_R4_R5_R6 = 4" "get_isrc2 SHRD_R4_R5_R6 = 5" "get_idest SHRD_R4_R5_R6 = 6"
  by (simp_all add: get_isrc1_def get_isrc2_def get_idest_def)

text \<open>
  Unsigned arithmetic: outside a dual-mode compare, addu and subu leave the sum and the
  difference modulo \<open>2 ^ 32\<close> in the destination; addu sets CC and OF exactly on a carry out of
  bit 31, subu sets CC when no borrow occurs and OF when one does.
\<close>

theorem unsigned_arith_correct:
  assumes "\<not> m_dim_cc_valid s" "get_idest insn \<noteq> 0"
    and "a = m_iregs s (get_isrc1 insn)" "b = m_iregs s (get_isrc2 insn)"
  shows "\<exists>s1 s2. insn_addu E insn s = Inr s1 \<and> insn_subu E insn s = Inr s2 \<and>
    unat (m_iregs s1 (get_idest insn)) = (unat a + unat b) mod 0x100000000 \<and>
    GET_PSR_CC s1 = of_bool (0x100000000 \<le> unat a + unat b) \<and>
    GET_EPSR_OF s1 = of_bool (0x100000000 \<le> unat a + unat b) \<and>
    uint (m_iregs s2 (get_idest insn)) = (uint a - uint b) mod 0x100000000 \<and>
    GET_PSR_CC s2 = of_bool (unat b \<le> unat a) \<and> GET_EPSR_OF s2 = of_bool (unat a < unat b)"
  using assms
  by (simp add: insn_addu_def insn_subu_def addu_op_def subu_op_def Let_def addu_carry set_cc_of_reads
      unat_add_u32 uint_sub_u32 word_le_nat_alt not_le)

theorem unsigned_arith_correct_witness:
  "\<exists>s1 s2. insn_addu word_env ADDU_R4_R5_R6 (two_regs 0xFFFFFFFF 2) = Inr s1 \<and>
     insn_subu word_env ADDU_R4_R5_R6 (two_regs 0xFFFFFFFF 2) = Inr s2 \<and>
     unat (m_iregs s1 6) = 1 \<and> GET_PSR_CC s1 = 1 \<and> uint (m_iregs s2 6) = 0xFFFFFFFD \<and>
     GET_PSR_CC s2 = 1 \<and> GET_EPSR_OF s2 = 0"
  using unsigned_arith_correct [of "two_regs 0xFFFFFFFF 2" ADDU_R4_R5_R6 "0xFFFFFFFF" 2 word_env] by auto

text \<open>
  Signed subtraction: subs leaves the difference in the destination, sets OF exactly when the
  mathematical difference does not fit a 32-bit signed integer, and sets CC exactly when the
  second operand is greater.
\<close>

theorem subs_correct:
  assumes "\<not> m_dim_cc_valid s" "get_idest insn \<noteq> 0"
    and "a = m_iregs s (get_isrc1 insn)" "b = m_iregs s (get_isrc2 insn)"
  shows "\<exists>s1. insn_subs E insn s = Inr s1 \<and>
    GET_EPSR_OF s1 = of_bool (\<not> fits_int32 (sint a - sint b)) \<and>
    GET_PSR_CC s1 = of_bool (sint a < sint b) \<and>
    (fits_int32 (sint a - sint b) \<longrightarrow> sint (m_iregs s1 (get_idest insn)) = sint a - sint b)"
  using assms
  by (simp add: insn_subs_def subs_op_def Let_def subs_overflow set_cc_of_reads sint_sub_fits)

theorem subs_correct_witness:
  "\<exists>s1. insn_subs word_env SUBS_R4_R5_R6 (two_regs 0x80000000 1) = Inr s1 \<and> GET_EPSR_OF s1 = 1 \<and>
     GET_PSR_CC s1 = 1"
  using subs_correct [of "two_regs 0x80000000 1" SUBS_R4_R5_R6 "0x80000000" 1 word_env]
  by (simp add: fits_int32_def)

text \<open>
  The overflow flag of adds is never right when it matters: the code applies the rule for
  subtraction to the sum, so whenever it sets OF the sum fits a 32-bit signed integer, and a sum
  that overflows always leaves OF clear.
\<close>

theorem adds_overflow_flag_wrong:
  assumes "a = m_iregs s (get_isrc1 insn)" "b = m_iregs s (get_isrc2 insn)"
    and "\<not> fits_int32 (sint a + sint b)"
  shows "\<exists>s1. insn_adds E insn s = Inr s1 \<and> GET_EPSR_OF s1 = 0"
  using assms adds_overflow_never [of a b]
  by (auto simp: insn_adds_def adds_op_def Let_def set_cc_of_reads)

theorem adds_overflow_flag_wrong_witness:
  "\<exists>s1. insn_adds word_env ADDS_R4_R5_R6 (two_regs 0x7FFFFFFF 1) = Inr s1 \<and> GET_EPSR_OF s1 = 0"
  by (rule adds_overflow_flag_wrong [where a = "0x7FFFFFFF" and b = 1]) (simp_all add: fits_int32_def)

text \<open>
  shrd with shift count SC takes the low word of the 64-bit pair \<open>src1:src2\<close> shifted right by
  SC places; a count of zero gives src2.
\<close>

theorem shrd_correct:
  assumes "get_idest insn \<noteq> 0"
  shows "\<exists>s1. insn_shrd E insn s = Inr s1 \<and>
    m_iregs s1 (get_idest insn) =
      ucast (drop_bit (unat (GET_PSR_SC s)) (dbl (m_iregs s (get_isrc2 insn)) (m_iregs s (get_isrc1 insn))))"
proof -
  have "unat (GET_PSR_SC s) < 32"
    by (simp add: GET_PSR_SC_def get_field_def unat_and_less)
  from shrd_pair [OF this] assms show ?thesis by (simp add: insn_shrd_def Let_def)
qed

theorem shrd_correct_witness:
  "\<exists>s1. insn_shrd word_env SHRD_R4_R5_R6 (SET_PSR_SC 8 (two_regs 0x11223344 0x55667788)) = Inr s1 \<and>
     m_iregs s1 6 = 0x44556677"
proof -
  have "GET_PSR_SC (SET_PSR_SC 8 (two_regs x y)) = 8" for x y
    by (simp add: GET_PSR_SC_def SET_PSR_SC_def get_field_def set_field_def set_creg_def two_regs_def i860_zero_def)
  moreover have "m_iregs (SET_PSR_SC v s) = m_iregs s" for v s
    by (simp add: SET_PSR_SC_def)
  ultimately show ?thesis
    using shrd_correct [of SHRD_R4_R5_R6 word_env "SET_PSR_SC 8 (two_regs 0x11223344 0x55667788)"]
    by (auto simp: dbl_def)
qed

end
