(* ===== verification/I860_LoadStore.thy ===== *)
theory I860_LoadStore
  imports I860_Int
begin

text \<open>
  Loads, stores and the transfers to and from control registers (src/dimension/i860dec.cpp).
  The floating-point register file is the data buffer of the floating-point loads and stores: an
  access that runs past register 31 is the fault \<open>ArrayOOB\<close>, and so is a control register
  number of 6 or 7 when the build does not trace undefined behaviour.
\<close>

section \<open>Control registers\<close>

definition insn_ld_ctrl :: insn where
  "insn_ld_ctrl E insn s =
     (let csrc2 = get_creg insn; idest = get_idest insn
      in if trace_undefined E \<and> csrc2 > 5 then Inr s
         else if csrc2 = CR_FIR then
           (let s1 = (if flow FIR_GETS_TRAP s then s else set_creg CR_FIR (m_pc s) s)
            in Inr (clear_flow FIR_GETS_TRAP (set_iregval idest (m_cregs s1 CR_FIR) s1)))
         else bnd (arr_get 6 (m_cregs s) csrc2) (\<lambda>v. Inr (set_iregval idest v s)))"

definition st_epsr :: "u32 \<Rightarrow> i860 \<Rightarrow> i860" where
  "st_epsr v s =
     (let keep = (if GET_PSR_U s \<noteq> 0 then 0x003e1fff OR 0x00c06000 else 0x003e1fff);
          enew = v AND NOT keep;
          tmp = m_cregs s CR_EPSR AND keep;
          s1 = (if (enew XOR m_cregs s CR_EPSR) AND 0x00800000 \<noteq> 0
                then set_mem_access (enew AND 0x00800000 \<noteq> 0) s else s)
      in set_creg CR_EPSR (enew OR tmp) s1)"

definition st_psr :: "u32 \<Rightarrow> i860 \<Rightarrow> i860" where
  "st_psr v s =
     (if GET_PSR_U s \<noteq> 0 then
        set_creg CR_PSR ((v AND NOT PSR_SUPERVISOR_ONLY_MASK) OR
          (m_cregs s CR_PSR AND PSR_SUPERVISOR_ONLY_MASK)) s
      else set_creg CR_PSR v s)"

definition float_set_rounding_mode :: "u32 \<Rightarrow> i860 \<Rightarrow> i860" where
  "float_set_rounding_mode mode s = s\<lparr>round_mode := mode\<rparr>"

definition st_fsr :: "u32 \<Rightarrow> i860 \<Rightarrow> i860" where
  "st_fsr v s =
     (let s1 = set_creg CR_FSR ((v AND 0x003e01ef) OR (m_cregs s CR_FSR AND NOT 0x003e01ef)) s
      in float_set_rounding_mode (GET_FSR_RM s1) s1)"

text \<open>A store to DIRBASE with ITI set flushes both caches and clears the bit in the source.\<close>

definition clear_iti :: "nat \<Rightarrow> nat \<Rightarrow> i860 \<Rightarrow> i860" where
  "clear_iti csrc2 isrc1 s =
     (if csrc2 = CR_DIRBASE \<and> iregval s isrc1 AND 0x20 \<noteq> 0
      then (let s' = invalidate_tlb (invalidate_icache s)
            in set_iregval isrc1 (iregval s' isrc1 AND NOT 0x20) s')
      else s)"

definition insn_st_ctrl :: insn where
  "insn_st_ctrl E insn s =
     (let csrc2 = get_creg insn; isrc1 = get_isrc1 insn
      in if trace_undefined E \<and> csrc2 > 5 then Inr s
         else
           (let s1 = clear_iti csrc2 isrc1 s;
                v = iregval s1 isrc1
            in if csrc2 = CR_EPSR then Inr (st_epsr v s1)
               else if csrc2 = CR_PSR then Inr (st_psr v s1)
               else if csrc2 = CR_FSR then Inr (st_fsr v s1)
               else if csrc2 \<noteq> CR_FIR then
                 bnd (arr_put 6 (m_cregs s1) csrc2 v) (\<lambda>c. Inr (s1\<lparr>m_cregs := c\<rparr>))
               else Inr s1))"

section \<open>Integer loads and stores\<close>

text \<open>Bits 28 and 0 of the instruction select the size.\<close>

definition int_size :: "u32 \<Rightarrow> nat" where
  "int_size insn = [1, 1, 2, 4] ! unat ((drop_bit 27 insn AND 2) OR (insn AND 1))"

text \<open>Bits 2 and 1 select the size of a floating-point load or store.\<close>

definition fp_size :: "u32 \<Rightarrow> nat" where
  "fp_size insn = [8, 4, 16, 4] ! unat (drop_bit 1 insn AND 3)"

definition chop :: "nat \<Rightarrow> u32 \<Rightarrow> u32" where
  "chop sz x = x AND NOT (of_nat sz - 1)"

definition split_imm :: "u32 \<Rightarrow> u32" where
  "split_imm insn = sign_ext ((drop_bit 5 insn AND 0xf800) OR (insn AND 0x07ff)) 16"

text \<open>The effective address, with the form chosen by bit 26.\<close>

definition eff_addr :: "nat \<Rightarrow> u32 \<Rightarrow> i860 \<Rightarrow> u32" where
  "eff_addr sz insn s =
     (if insn AND 0x04000000 \<noteq> 0
      then chop sz (sign_ext (get_imm16 insn) 16) + iregval s (get_isrc2 insn)
      else iregval s (get_isrc1 insn) + iregval s (get_isrc2 insn))"

definition unaligned :: "env \<Rightarrow> nat \<Rightarrow> u32 \<Rightarrow> bool" where
  "unaligned E sz eff \<longleftrightarrow> trace_unaligned E \<and> eff AND (of_nat sz - 1) \<noteq> 0"

definition unaligned_trap :: "i860 \<Rightarrow> i860" where
  "unaligned_trap s = or_flow TRAP_NORMAL (SET_PSR_DAT 1 s)"

text \<open>
  A buffer of one word: the first bytes come from memory, the others keep the value 0. After a
  page fault the destination register is left alone.
\<close>

definition insn_ldx :: insn where
  "insn_ldx E insn s =
     (let sz = int_size insn; eff = eff_addr sz insn s
      in if unaligned E sz eff then Inr (unaligned_trap s)
         else
           bnd (readmem_emu eff sz s) (\<lambda>(d, s1).
             (let raw = (case d of None \<Rightarrow> 0 | Some vs \<Rightarrow> hd vs);
                  readval = (if sz < 4 then sign_ext raw (sz * 8) else raw)
              in if GET_EXITING_MEMRW s1 then Inr s1
                 else Inr (set_iregval (get_idest insn) readval s1))))"

text \<open>A local word as the data buffer of a store.\<close>

definition word_buffer :: "u32 \<Rightarrow> nat \<Rightarrow> u32 res" where
  "word_buffer v i = (if i = 0 then Inr v else Inl ArrayOOB)"

definition insn_stx :: insn where
  "insn_stx E insn s =
     (let sz = int_size insn;
          eff = chop sz (split_imm insn) + iregval s (get_isrc2 insn)
      in writemem_emu eff sz (word_buffer (iregval s (get_isrc1 insn))) s)"

section \<open>Floating-point loads and stores\<close>

text \<open>The words of \<^verbatim>\<open>m_fregs\<close> from register \<open>fr\<close> on, as the buffer of a store.\<close>

definition freg_buffer :: "nat \<Rightarrow> i860 \<Rightarrow> nat \<Rightarrow> u32 res" where
  "freg_buffer fr s i = arr_get 32 (m_fregs s) (fr + i)"

definition insn_fsty :: insn where
  "insn_fsty E insn s =
     (let isrc1 = get_isrc1 insn; isrc2 = get_isrc2 insn; fdest = get_fdest insn;
          auto_inc = (insn AND 1 \<noteq> 0);
          sz = fp_size insn; eff = eff_addr sz insn s
      in if unaligned E sz eff then Inr (unaligned_trap s)
         else
           (let s1 = (if auto_inc then set_iregval isrc2 eff s else s)
            in if auto_inc \<and> trace_undefined E \<and> isrc1 = isrc2 then Inr s1
               else writemem_emu_masked eff sz (freg_buffer fdest s1) 0xff s1))"

text \<open>The words read go to the register file; registers 0 and 1 are cleared again.\<close>

fun put_fwords :: "nat \<Rightarrow> u32 list \<Rightarrow> (nat \<Rightarrow> u32) \<Rightarrow> (nat \<Rightarrow> u32) res" where
  "put_fwords fr [] f = Inr f"
| "put_fwords fr (v # vs) f = bnd (arr_put 32 f fr v) (put_fwords (fr + 1) vs)"

definition fld_scalar :: "nat \<Rightarrow> nat \<Rightarrow> u32 \<Rightarrow> i860 \<Rightarrow> i860 res" where
  "fld_scalar sz fdest eff s =
     bnd (readmem_emu eff sz s) (\<lambda>(d, s1).
     bnd (put_fwords fdest (case d of None \<Rightarrow> [] | Some vs \<Rightarrow> vs) (m_fregs s1)) (\<lambda>f.
       Inr (s1\<lparr>m_fregs := (if fdest < 2 then f(0 := 0, 1 := 0) else f)\<rparr>)))"

text \<open>
  The pipelined load reads into a buffer of eight bytes (a quad load runs over it) and
  advances the load pipe unless the access faulted (a refused translation sets the exiting flag
  that the code tests).
\<close>

definition fld_piped :: "nat \<Rightarrow> nat \<Rightarrow> u32 \<Rightarrow> i860 \<Rightarrow> i860 res" where
  "fld_piped sz fdest eff s =
     bnd (readmem_emu eff sz s) (\<lambda>(d, s1).
       case d of
         None \<Rightarrow> Inr s1
       | Some bebuf \<Rightarrow>
           if sz = 16 then Inl ArrayOOB
           else if PENDING_TRAP s1 \<and> GET_EXITING_MEMRW s1 then Inr s1
           else
             (let s2 = fsr_bit 0x04000000 (st_prec (m_L s1 1)) s1
              in bnd (put_stage fdest (m_L s2 2) s2) (\<lambda>s3.
                 (let l0 = (if sz = 8 then stage_d (dbl (bebuf ! 0) (bebuf ! 1)) (m_L s3 0)
                            else stage_s (bebuf ! 0) (m_L s3 0))
                  in Inr (s3\<lparr>m_L := (m_L s3)(2 := m_L s3 1, 1 := m_L s3 0, 0 := l0)\<rparr>)))))"

definition insn_fldy :: insn where
  "insn_fldy E insn s =
     (let isrc1 = get_isrc1 insn; isrc2 = get_isrc2 insn; fdest = get_fdest insn;
          auto_inc = (insn AND 1 \<noteq> 0); piped = (insn AND 0x40000000 \<noteq> 0);
          sz = fp_size insn; eff = eff_addr sz insn s
      in if trace_undefined E \<and> piped \<and> sz = 16 then Inr (unrecog_opcode s)
         else
           (let s1 = (if auto_inc then set_iregval isrc2 eff s else s)
            in if auto_inc \<and> trace_undefined E \<and> isrc1 = isrc2 then Inr s1
               else if unaligned E sz eff then Inr (unaligned_trap s1)
               else if \<not> piped then fld_scalar sz fdest eff s1
               else fld_piped sz fdest eff s1))"

section \<open>Pixel store\<close>

text \<open>The new pixel mask for pixel size \<open>ps\<close>, and the byte mask of the store.\<close>

definition pst_shift_pm :: "u32 \<Rightarrow> u32 \<Rightarrow> u32" where
  "pst_shift_pm ps pm =
     (if ps = 0 then drop_bit 8 pm AND 0x00
      else if ps = 1 then drop_bit 4 pm AND 0x0f
      else if ps = 2 then drop_bit 2 pm AND 0x3f
      else pm)"

function pst_wmask :: "u32 \<Rightarrow> nat \<Rightarrow> u32 \<Rightarrow> u32 \<Rightarrow> u32" where
  "pst_wmask ps i orig_pm wmask =
     (if i \<ge> 8 then wmask
      else if ps = 0 then
        pst_wmask ps (i + 1) (push_bit 1 orig_pm)
          (if orig_pm AND 0x80 \<noteq> 0 then wmask OR push_bit (7 - i) 1 else wmask)
      else if ps = 1 then
        pst_wmask ps (i + 2) (push_bit 1 orig_pm)
          (if orig_pm AND 0x08 \<noteq> 0 then wmask OR push_bit (6 - i) 3 else wmask)
      else if ps = 2 then
        pst_wmask ps (i + 4) (push_bit 1 orig_pm)
          (if orig_pm AND 0x02 \<noteq> 0 then wmask OR push_bit (4 - i) 0xf else wmask)
      else 0xff)"
  by auto
termination by (relation "measure (\<lambda>(ps, i, pm, w). 8 - i)") auto

declare pst_wmask.simps [simp del]

definition insn_pstd :: insn where
  "insn_pstd E insn s =
     (let isrc2 = get_isrc2 insn; fdest = get_fdest insn;
          pm = GET_PSR_PM s; ps = GET_PSR_PS s;
          eff = chop 8 (sign_ext (get_imm16 insn) 16) + iregval s isrc2
      in if unaligned E 8 eff then Inr (unaligned_trap s)
         else
           (let s1 = (if insn AND 1 \<noteq> 0 then set_iregval isrc2 eff s else s);
                s2 = SET_PSR_PM (pst_shift_pm ps pm) s1
            in writemem_emu_masked eff 8 (freg_buffer fdest s2) (pst_wmask ps 0 pm 0) s2))"

definition insn_ixfr :: insn where
  "insn_ixfr E insn s =
     Inr (set_fregval_s (get_fdest insn) (iregval s (get_isrc1 insn)) s)"

section \<open>The invariant is kept\<close>

lemma st_ctrl_ok [simp]:
  "cpu_ok s \<Longrightarrow> cpu_ok (st_psr v s)" "cpu_ok s \<Longrightarrow> cpu_ok (st_fsr v s)"
  by (simp_all add: st_psr_def st_fsr_def float_set_rounding_mode_def cpu_ok_set_creg Let_def)

lemma st_epsr_ok [simp]: "cpu_ok s \<Longrightarrow> cpu_ok (st_epsr v s)"
  by (auto simp: st_epsr_def cpu_ok_def set_creg_def set_mem_access_def Let_def
      bit.conj_disj_distrib2 and.assoc)

lemma insn_ld_ctrl_ok: "cpu_ok s \<Longrightarrow> holds cpu_ok (insn_ld_ctrl E insn s)"
  by (auto simp: insn_ld_ctrl_def Let_def cpu_ok_set_creg arr_get_def)

lemma clear_iti_ok [simp]: "cpu_ok s \<Longrightarrow> cpu_ok (clear_iti c g s)"
  by (simp add: clear_iti_def Let_def)

lemma clear_iti_bit: "iregval (clear_iti CR_DIRBASE g s) g AND 0x20 = 0"
  by (simp add: clear_iti_def Let_def set_iregval_def and.assoc)

lemma cpu_ok_put_creg:
  "cpu_ok s \<Longrightarrow> c \<noteq> CR_EPSR \<Longrightarrow> c = CR_DIRBASE \<longrightarrow> v AND 0x20 = 0 \<Longrightarrow>
   cpu_ok (s\<lparr>m_cregs := (m_cregs s)(c := v)\<rparr>)"
  by (simp add: cpu_ok_def)

lemma insn_st_ctrl_ok: "cpu_ok s \<Longrightarrow> holds cpu_ok (insn_st_ctrl E insn s)"
  by (auto simp: insn_st_ctrl_def Let_def arr_put_def clear_iti_bit intro!: cpu_ok_put_creg)

lemma insn_ldx_ok: "cpu_ok s \<Longrightarrow> holds cpu_ok (insn_ldx E insn s)"
  by (auto simp: insn_ldx_def Let_def unaligned_trap_def intro!: ok_result_bnd [OF readmem_emu_ok])

lemma insn_stx_ok: "cpu_ok s \<Longrightarrow> holds cpu_ok (insn_stx E insn s)"
  by (simp add: insn_stx_def Let_def writemem_emu_ok)

lemma insn_fsty_ok: "cpu_ok s \<Longrightarrow> holds cpu_ok (insn_fsty E insn s)"
  by (simp add: insn_fsty_def Let_def unaligned_trap_def writemem_emu_masked_ok)

lemma put_fwords_low:
  "holds (\<lambda>f'. 2 \<le> fr \<longrightarrow> f' 0 = f 0 \<and> f' (Suc 0) = f (Suc 0)) (put_fwords fr vs f)"
proof (induction vs arbitrary: fr f)
  case (Cons v vs)
  show ?case
  proof (cases "fr < 32")
    case True
    then have "put_fwords fr (v # vs) f = put_fwords (fr + 1) vs (f(fr := v))" by simp
    then show ?thesis by (simp only:) (rule holds_mono [OF Cons.IH], auto)
  qed (simp add: arr_put_def)
qed simp

lemma fld_scalar_ok: "cpu_ok s \<Longrightarrow> holds cpu_ok (fld_scalar n fd a s)"
  unfolding fld_scalar_def
proof (erule ok_result_bnd [OF readmem_emu_ok], unfold prod.case)
  fix v and t :: i860 assume ok: "cpu_ok t"
  have "holds (\<lambda>f. holds cpu_ok (Inr (t\<lparr>m_fregs := (if fd < 2 then f(0 := 0, 1 := 0) else f)\<rparr>)))
      (put_fwords fd (case v of None \<Rightarrow> [] | Some vs \<Rightarrow> vs) (m_fregs t))"
    by (rule holds_mono [OF put_fwords_low]) (use ok in \<open>auto simp: cpu_ok_def\<close>)
  then show "holds cpu_ok (bnd (put_fwords fd (case v of None \<Rightarrow> [] | Some vs \<Rightarrow> vs) (m_fregs t))
      (\<lambda>f. Inr (t\<lparr>m_fregs := (if fd < 2 then f(0 := 0, 1 := 0) else f)\<rparr>)))"
    by (rule holds_bnd)
qed

lemma fld_piped_ok: "cpu_ok s \<Longrightarrow> holds cpu_ok (fld_piped n fd a s)"
  unfolding fld_piped_def
  by (auto simp: Let_def intro!: ok_result_bnd [OF readmem_emu_ok] ok_intros split: option.split)

lemma insn_fldy_ok: "cpu_ok s \<Longrightarrow> holds cpu_ok (insn_fldy E insn s)"
  by (simp add: insn_fldy_def Let_def unaligned_trap_def fld_scalar_ok fld_piped_ok)

lemma insn_pstd_ok: "cpu_ok s \<Longrightarrow> holds cpu_ok (insn_pstd E insn s)"
  by (simp add: insn_pstd_def Let_def unaligned_trap_def writemem_emu_masked_ok)

lemma insn_ixfr_ok: "cpu_ok s \<Longrightarrow> holds cpu_ok (insn_ixfr E insn s)"
  by (simp add: insn_ixfr_def)

lemmas ls_insns_ok = insn_ld_ctrl_ok insn_st_ctrl_ok insn_ldx_ok insn_stx_ok insn_fsty_ok
  insn_fldy_ok insn_pstd_ok insn_ixfr_ok

section \<open>Stores to control registers\<close>

lemma clear_iti_frame [simp]:
  "m_cregs (clear_iti c g s) = m_cregs s" "mem_be (clear_iti c g s) = mem_be s"
  by (simp_all add: clear_iti_def Let_def set_iregval_def invalidate_icache_def invalidate_tlb_def)

lemma user_of_psr: "m_cregs s' CR_PSR AND PSR_SUPERVISOR_ONLY_MASK = m_cregs s CR_PSR AND PSR_SUPERVISOR_ONLY_MASK \<Longrightarrow>
   GET_PSR_U s' = GET_PSR_U s"
proof -
  assume eq: "m_cregs s' CR_PSR AND PSR_SUPERVISOR_ONLY_MASK = m_cregs s CR_PSR AND PSR_SUPERVISOR_ONLY_MASK"
  have "x AND 0x40 = (x AND PSR_SUPERVISOR_ONLY_MASK) AND 0x40" for x :: u32
    by (simp add: and.assoc)
  with eq have "m_cregs s' CR_PSR AND 0x40 = m_cregs s CR_PSR AND 0x40" by metis
  then show ?thesis by (simp add: GET_PSR_U_def get_field_via_mask)
qed

lemma get_field_st_epsr [simp]: "get_field CR_PSR m lo (clear_iti c g s) = get_field CR_PSR m lo s"
  by (simp add: get_field_def)

text \<open>What a store to a control register leaves behind, register by register.\<close>

lemma st_ctrl_psr: "get_creg insn = CR_PSR \<Longrightarrow> insn_st_ctrl E insn s = Inr (st_psr (iregval s (get_isrc1 insn)) s)"
  and st_ctrl_epsr: "get_creg insn = CR_EPSR \<Longrightarrow> insn_st_ctrl E insn s = Inr (st_epsr (iregval s (get_isrc1 insn)) s)"
  and st_ctrl_fsr: "get_creg insn = CR_FSR \<Longrightarrow> insn_st_ctrl E insn s = Inr (st_fsr (iregval s (get_isrc1 insn)) s)"
  and st_ctrl_fir: "get_creg insn = CR_FIR \<Longrightarrow> insn_st_ctrl E insn s = Inr s"
  and st_ctrl_db: "get_creg insn = CR_DB \<Longrightarrow> insn_st_ctrl E insn s =
    Inr (s\<lparr>m_cregs := (m_cregs s)(CR_DB := iregval s (get_isrc1 insn))\<rparr>)"
  by (simp_all add: insn_st_ctrl_def clear_iti_def)

lemma st_ctrl_dirbase: "get_creg insn = CR_DIRBASE \<Longrightarrow> insn_st_ctrl E insn s =
    (let s1 = clear_iti CR_DIRBASE (get_isrc1 insn) s
     in Inr (s1\<lparr>m_cregs := (m_cregs s1)(CR_DIRBASE := iregval s1 (get_isrc1 insn))\<rparr>))"
  by (simp add: insn_st_ctrl_def Let_def)

lemma st_ctrl_other:
  assumes "get_creg insn < 6" "get_creg insn \<noteq> CR_PSR" "get_creg insn \<noteq> CR_EPSR"
  shows "\<exists>s1. insn_st_ctrl E insn s = Inr s1 \<and> m_cregs s1 CR_PSR = m_cregs s CR_PSR \<and>
    m_cregs s1 CR_EPSR = m_cregs s CR_EPSR"
proof -
  have "get_creg insn = CR_FIR \<or> get_creg insn = CR_DIRBASE \<or> get_creg insn = CR_DB \<or> get_creg insn = CR_FSR"
    using assms by arith
  then show ?thesis
    by (elim disjE) (simp_all add: st_ctrl_fir st_ctrl_dirbase st_ctrl_db st_ctrl_fsr st_fsr_def
        float_set_rounding_mode_def set_creg_def Let_def)
qed

lemma be_bit:
  "x AND 0x00800000 = (if bit x 23 then 0x00800000 else (0 :: u32))"
  "drop_bit 23 x AND 1 = (if bit x 23 then 1 else (0 :: u32))"
proof -
  have "(0x00800000 :: u32) = 2 ^ 23" by simp
  then have m: "bit (0x00800000 :: u32) n \<longleftrightarrow> n = 23" for n by (simp only: bit_exp_iff) auto
  show "x AND 0x00800000 = (if bit x 23 then 0x00800000 else 0)"
    by (rule bit_word_eqI) (auto simp: bit_and_iff m simp del: bit_numeral_word_iff)
  show "drop_bit 23 x AND 1 = (if bit x 23 then 1 else 0)"
    by (rule bit_word_eqI) (auto simp: bit_simps intro!: gr0I)
qed

text \<open>The byte order bit and the byte order after a store to EPSR.\<close>

lemma st_epsr_be:
  "GET_EPSR_BE (st_epsr v s) = (if GET_PSR_U s \<noteq> 0 then GET_EPSR_BE s else drop_bit 23 v AND 1)"
  unfolding GET_EPSR_BE_def get_field_via_mask
  by (simp add: st_epsr_def set_creg_def set_mem_access_def Let_def bit.conj_disj_distrib2 and.assoc)

lemma st_epsr_mem_be:
  "mem_be (st_epsr v s) =
     (if GET_PSR_U s \<noteq> 0 then (if GET_EPSR_BE s = 1 then False else mem_be s)
      else if GET_EPSR_BE s = drop_bit 23 v AND 1 then mem_be s else drop_bit 23 v AND 1 = 1)"
proof -
  have "bit (- 4071424 :: u32) 23" "\<not> bit (- 16678912 :: u32) 23" by simp_all
  then show ?thesis
    by (auto simp: st_epsr_def set_creg_def set_mem_access_def Let_def bit_and_iff bit_xor_iff
        GET_EPSR_BE_def get_field_def be_bit)
qed

section \<open>Loads and stores without paging\<close>

lemma data_address_flat: "GET_DIRBASE_ATE s = 0 \<Longrightarrow> data_address a w rf ex s = Inr (Some a, s)"
  by (simp add: data_address_def)

text \<open>The longword of RAM or VRAM a word access of the current byte order reaches.\<close>

definition word_cell :: "bool \<Rightarrow> board \<Rightarrow> u32 \<Rightarrow> cell option" where
  "word_cell be b a = long_cell b ((a OR ND_BOARD_BITS) XOR (if be then 0 else 4))"

lemma wrmem_word: "word_cell be b a = Some c \<Longrightarrow> wrmem be 4 b a [v] = Inr (cell_put b c v)"
  by (cases be) (simp_all add: word_cell_def wrmem_def nd_board_wr32_be_def nd_board_wr32_le_def
      long_cell_put Let_def)

lemma rdmem_word: "word_cell be b a = Some c \<Longrightarrow> rdmem be 4 b a = Inr ([cell_get b c], b)"
  by (cases be) (simp_all add: word_cell_def rdmem_def nd_board_rd32_be_def nd_board_rd32_le_def
      rd1_def long_cell_get Let_def)

lemma rdmem_byte:
  assumes "word_cell be b a = Some c" "a AND 3 = 0" "i < 4"
  shows "rdmem be 1 b (a + of_nat i) =
    Inr ([drop_bit (if be then 24 - 8 * i else 8 * i) (cell_get b c) AND 0xFF], b)"
proof -
  from byte_views [OF assms(2,3), of b be] assms(1)
  obtain w where "rdmem be 4 b a = Inr ([w], b)" "rdmem be 1 b (a + of_nat i) =
      Inr ([drop_bit (if be then 24 - 8 * i else 8 * i) w AND 0xFF], b)"
    by (auto simp: word_cell_def)
  with rdmem_word [OF assms(1)] show ?thesis by simp
qed

lemma stx_word:
  assumes "GET_DIRBASE_ATE s = 0" "int_size st = 4"
    and "word_cell (mem_be s) (bd s) (chop 4 (split_imm st) + iregval s (get_isrc2 st)) = Some c"
  shows "insn_stx E st s = Inr (s\<lparr>bd := cell_put (bd s) c (iregval s (get_isrc1 st))\<rparr>)"
  using assms
  by (simp add: insn_stx_def writemem_emu_def data_address_flat board_wr_def access_words_def
      word_buffer_def wrmem_word Let_def)

lemma ldx_word:
  assumes "GET_DIRBASE_ATE s = 0" "\<not> GET_EXITING_MEMRW s" "int_size ld = 4"
    and "eff_addr 4 ld s = a" "a AND 3 = 0" "word_cell (mem_be s) (bd s) a = Some c"
  shows "insn_ldx E ld s = Inr (set_iregval (get_idest ld) (cell_get (bd s) c) s)"
  using assms
  by (simp add: insn_ldx_def unaligned_def readmem_emu_def data_address_flat rdmem_word Let_def)

lemma ldx_byte:
  assumes "GET_DIRBASE_ATE s = 0" "\<not> GET_EXITING_MEMRW s" "int_size ld = 1"
    and "eff_addr 1 ld s = a + of_nat i" "i < 4" "a AND 3 = 0" "word_cell (mem_be s) (bd s) a = Some c"
  shows "insn_ldx E ld s = Inr (set_iregval (get_idest ld)
    (sign_ext (drop_bit (if mem_be s then 24 - 8 * i else 8 * i) (cell_get (bd s) c) AND 0xFF) 8) s)"
  using assms(1-4) rdmem_byte [OF assms(7,6,5)]
  by (simp add: insn_ldx_def unaligned_def readmem_emu_def data_address_flat Let_def)

lemma sign_ext_byte: "sint (sign_ext (x AND 0xFF) 8) = signed_take_bit 7 (uint (x AND 0xFF))"
  using sign_ext_int [of 8 "x AND 0xFF"] by (simp add: unat_and_less)

text \<open>The mask of a pixel store, bit by bit.\<close>

lemma div_less_dividend_le: "m < n \<Longrightarrow> m div k < (n :: nat)"
  by (rule le_less_trans [OF div_le_dividend])

lemma and_bit_tests:
  "(x AND 0x80 \<noteq> 0) = bit x 7" "(x AND 0x08 \<noteq> 0) = bit x 3" "(x AND 0x02 \<noteq> 0) = bit (x :: u32) 1"
  using and_exp_eq_0_iff_not_bit [of x 7] and_exp_eq_0_iff_not_bit [of x 3]
    and_exp_eq_0_iff_not_bit [of x 1]
  by simp_all

lemma pst_wmask_step:
  assumes "p < 3" "i < 8"
  shows "pst_wmask (of_nat p) i x w = pst_wmask (of_nat p) (i + 2 ^ p) (push_bit 1 x)
    (if bit x (8 div 2 ^ p - 1) then w OR push_bit (8 - 2 ^ p - i) (mask (2 ^ p)) else w)"
proof -
  have m: "(1 :: u32) = mask 1" "(3 :: u32) = mask 2" "(0xf :: u32) = mask 4"
    by (simp_all add: mask_eq_exp_minus_1)
  have "p = 0 \<or> p = 1 \<or> p = 2" using assms(1) by arith
  then show ?thesis
    using assms(2) m by (elim disjE; subst pst_wmask.simps) (simp_all add: and_bit_tests)
qed

lemma pst_wmask_bit:
  assumes "p < 3" "i + k * 2 ^ p = 8" "j < 8"
  shows "bit (pst_wmask (of_nat p) i x w) j \<longleftrightarrow>
    bit w j \<or> (j + i < 8 \<and> bit x ((j + i) div 2 ^ p))"
  using assms
proof (induction k arbitrary: i x w)
  case 0
  then show ?case by (subst pst_wmask.simps) simp
next
  case (Suc k)
  let ?n = "2 ^ p :: nat"
  have "0 < ?n" by simp
  with Suc.prems(2) have i: "i < 8" by (metis add_gr_0 less_add_same_cancel1 mult_Suc)
  have i_n: "i + ?n \<le> 8" using Suc.prems(2) by simp
  have dvd: "?n dvd 8" using Suc.prems(1) le_imp_power_dvd [of p 3 "2 :: nat"] by simp
  have up: "(j + (i + ?n)) div ?n = (j + i) div ?n + 1"
    using div_add_self2 [of ?n "j + i"] by (simp add: add.assoc)
  have top: "(j + i) div ?n = 8 div ?n - 1" if "8 - ?n \<le> j + i" "j + i < 8"
  proof (rule div_nat_eqI)
    have "8 = ?n * (8 div ?n)" using dvd by simp
    then show "?n * (8 div ?n - 1) \<le> j + i" "j + i < ?n * Suc (8 div ?n - 1)"
      using that by (simp_all add: right_diff_distrib' del: dvd_mult_div_cancel)
  qed
  have sh: "bit (push_bit 1 x) (n + 1) = bit x n" if "n < 8" for n
    using that by (simp only: bit_push_bit_iff) auto
  let ?w = "if bit x (8 div ?n - 1) then w OR push_bit (8 - ?n - i) (mask ?n) else w"
  have w: "bit ?w j \<longleftrightarrow> bit w j \<or> (bit x (8 div ?n - 1) \<and> 8 - ?n \<le> j + i \<and> j + i < 8)"
    using Suc.prems(3) i_n by (auto simp: bit_simps)
  have "bit (pst_wmask (of_nat p) (i + ?n) (push_bit 1 x) ?w) j \<longleftrightarrow>
      bit ?w j \<or> (j + (i + ?n) < 8 \<and> bit (push_bit 1 x) ((j + (i + ?n)) div ?n))"
    by (rule Suc.IH) (use Suc.prems in auto)
  also have "\<dots> \<longleftrightarrow> bit w j \<or> (j + i < 8 \<and> bit x ((j + i) div ?n))"
    using w up top sh [OF div_less_dividend_le, of "j + i" ?n] by (auto simp: not_le)
  finally show ?case using pst_wmask_step [OF Suc.prems(1) i] by simp
qed

section \<open>Properties of loads and stores\<close>

text \<open>
  C22. Protection of the status registers: whatever a program in user mode stores to a control
  register, the supervisor-only bits of PSR (with the mode and interrupt bits) and the
  supervisor-only and read-only bits of EPSR keep their values, so it stays in user mode.
\<close>

theorem user_store_protects_status:
  assumes "GET_PSR_U s \<noteq> 0" "get_creg insn < 6"
  shows "\<exists>s1. insn_st_ctrl E insn s = Inr s1 \<and> GET_PSR_U s1 = GET_PSR_U s \<and>
    m_cregs s1 CR_PSR AND 0x0000FFF3 = m_cregs s CR_PSR AND 0x0000FFF3 \<and>
    m_cregs s1 CR_EPSR AND 0x00FE7FFF = m_cregs s CR_EPSR AND 0x00FE7FFF"
proof -
  consider "get_creg insn = CR_PSR" | "get_creg insn = CR_EPSR"
    | "get_creg insn \<noteq> CR_PSR" "get_creg insn \<noteq> CR_EPSR" by blast
  then obtain s1 where s1: "insn_st_ctrl E insn s = Inr s1"
    "m_cregs s1 CR_PSR AND 0x0000FFF3 = m_cregs s CR_PSR AND 0x0000FFF3"
    "m_cregs s1 CR_EPSR AND 0x00FE7FFF = m_cregs s CR_EPSR AND 0x00FE7FFF"
  proof cases
    case 1
    show ?thesis by (rule that [OF st_ctrl_psr [OF 1]])
      (simp_all add: st_psr_def set_creg_def assms(1) bit.conj_disj_distrib2 and.assoc)
  next
    case 2
    show ?thesis by (rule that [OF st_ctrl_epsr [OF 2]])
      (simp_all add: st_epsr_def set_creg_def set_mem_access_def assms(1) bit.conj_disj_distrib2 and.assoc Let_def)
  next
    case 3
    then show ?thesis using st_ctrl_other [OF assms(2), of E s] that by auto
  qed
  then show ?thesis using user_of_psr [OF s1(2)] by blast
qed

text \<open>For the witnesses: \<open>st.c r4\<close> to PSR, DIRBASE and EPSR, and a user-mode machine.\<close>

abbreviation "ST_C_R4_PSR \<equiv> (0x38202000 :: u32)"
abbreviation "ST_C_R4_DIRBASE \<equiv> (0x38402000 :: u32)"
abbreviation "ST_C_R4_EPSR \<equiv> (0x38A02000 :: u32)"

lemma st_c_fields [simp]:
  "get_creg ST_C_R4_PSR = 1" "get_isrc1 ST_C_R4_PSR = 4"
  "get_creg ST_C_R4_DIRBASE = 2" "get_isrc1 ST_C_R4_DIRBASE = 4"
  "get_creg ST_C_R4_EPSR = 5" "get_isrc1 ST_C_R4_EPSR = 4"
  by (simp_all add: get_creg_def get_isrc1_def)

definition status_cpu :: "u32 \<Rightarrow> u32 \<Rightarrow> i860" where
  "status_cpu psr epsr = set_creg CR_EPSR epsr (set_creg CR_PSR psr (two_regs 0 0))\<lparr>mem_be := bit epsr 23\<rparr>"

lemma status_cpu_simps [simp]:
  "get_field CR_PSR m lo (status_cpu p e) = drop_bit lo p AND m"
  "get_field CR_EPSR m lo (status_cpu p e) = drop_bit lo e AND m"
  "mem_be (status_cpu p e) = bit e 23"
  "m_cregs (status_cpu p e) CR_PSR = p"
  "mem_be (set_iregval g v (status_cpu p e)) = bit e 23"
  "iregval (set_iregval 4 v s) 4 = v"
  by (simp_all add: status_cpu_def get_field_def set_creg_def set_iregval_def)

theorem user_store_protects_status_witness:
  "\<exists>s1. insn_st_ctrl word_env ST_C_R4_PSR (status_cpu 0x40 0) = Inr s1 \<and> m_cregs s1 CR_PSR AND 0xFFF3 = 0x40"
  using user_store_protects_status [of "status_cpu 0x40 0" ST_C_R4_PSR word_env]
  by (auto simp: GET_PSR_U_def)

text \<open>
  In supervisor mode the byte order of memory follows EPSR.BE: a store to EPSR writes BE
  from bit 23 of the source, and if the access functions matched BE before they match it after.
\<close>

theorem supervisor_byte_order:
  assumes "GET_PSR_U s = 0" "get_creg insn = CR_EPSR" "mem_be s = (GET_EPSR_BE s = 1)"
  shows "\<exists>s1. insn_st_ctrl E insn s = Inr s1 \<and>
    GET_EPSR_BE s1 = drop_bit 23 (iregval s (get_isrc1 insn)) AND 1 \<and>
    mem_be s1 = (GET_EPSR_BE s1 = 1)"
  using assms
  by (auto simp: st_ctrl_epsr st_epsr_be st_epsr_mem_be)

theorem supervisor_byte_order_witness:
  "\<exists>s1. insn_st_ctrl word_env ST_C_R4_EPSR (set_iregval 4 0x00800000 (status_cpu 0 0)) = Inr s1 \<and> mem_be s1"
  using supervisor_byte_order [of "set_iregval 4 0x00800000 (status_cpu 0 0)" ST_C_R4_EPSR word_env]
  by (auto simp: GET_PSR_U_def GET_EPSR_BE_def)

text \<open>
  In user mode EPSR.BE is protected but the byte order is not: with BE set, a store of any
  value to EPSR leaves BE set and switches all later accesses to the little-endian functions.
\<close>

theorem user_store_flips_byte_order:
  assumes "GET_PSR_U s \<noteq> 0" "get_creg insn = CR_EPSR" "GET_EPSR_BE s = 1"
  shows "\<exists>s1. insn_st_ctrl E insn s = Inr s1 \<and> GET_EPSR_BE s1 = 1 \<and> \<not> mem_be s1"
  using assms
  by (auto simp: st_ctrl_epsr st_epsr_be st_epsr_mem_be)

theorem user_store_flips_byte_order_witness:
  "mem_be (status_cpu 0x40 0x00800000) \<and>
   (\<exists>s1. insn_st_ctrl word_env ST_C_R4_EPSR (status_cpu 0x40 0x00800000) = Inr s1 \<and> GET_EPSR_BE s1 = 1 \<and> \<not> mem_be s1)"
  using user_store_flips_byte_order [of "status_cpu 0x40 0x00800000" ST_C_R4_EPSR word_env]
  by (simp add: GET_PSR_U_def GET_EPSR_BE_def)

text \<open>
  A store to DIRBASE with ITI set flushes the instruction cache and the TLB, so that
  no translation and no fetch can hit a line filled before; DIRBASE gets the source without
  the ITI bit, and so does the source register.
\<close>

theorem iti_flushes:
  assumes "get_creg insn = CR_DIRBASE" "iregval s (get_isrc1 insn) AND 0x20 \<noteq> 0" "get_isrc1 insn \<noteq> 0"
  shows "\<exists>s1. insn_st_ctrl E insn s = Inr s1 \<and>
    m_cregs s1 CR_DIRBASE = iregval s (get_isrc1 insn) AND NOT 0x20 \<and>
    iregval s1 (get_isrc1 insn) = iregval s (get_isrc1 insn) AND NOT 0x20 \<and>
    (\<forall>va w. \<not> tlb_hit va w s1) \<and> (\<forall>pc. m_icache_vaddr s1 (icache_index (pc AND NOT 7)) \<noteq> pc AND NOT 7)"
proof -
  have inv: "\<not> tlb_hit va w (invalidate_tlb t)" "tlb_hit va w (t\<lparr>m_cregs := c\<rparr>) = tlb_hit va w t"
    "tlb_hit va w (set_iregval g v t) = tlb_hit va w t" for va w t c g v
    by (rule no_hit_after_invalidate, simp_all add: tlb_hit_def set_iregval_def)
  have ic: "pc AND - 8 \<noteq> (0xFFFFFFFF :: u32)" for pc
  proof
    assume "pc AND - 8 = (0xFFFFFFFF :: u32)"
    then have "(pc AND - 8) AND 7 = (0xFFFFFFFF AND 7 :: u32)" by (rule arg_cong)
    then show False by (simp add: and.assoc)
  qed
  show ?thesis
    using assms
    by (auto simp: st_ctrl_dirbase clear_iti_def Let_def inv)
      (auto simp: set_iregval_def invalidate_icache_def invalidate_tlb_def ic [symmetric])
qed

theorem iti_flushes_witness:
  "\<exists>s1. insn_st_ctrl word_env ST_C_R4_DIRBASE (two_regs 0xF8000021 0) = Inr s1 \<and>
     m_cregs s1 CR_DIRBASE = 0xF8000001"
  using iti_flushes [of ST_C_R4_DIRBASE "two_regs 0xF8000021 0" word_env] by auto

text \<open>
  C21. Stores and loads of the integer unit agree, in both byte orders: with paging off, after a
  word store to an aligned address in RAM or VRAM a word load of the address delivers
  the register that was stored, and a byte load at offset \<open>i\<close> delivers the byte of it that the
  byte order places there, extended by its sign.
\<close>

theorem store_load_agree:
  assumes "GET_DIRBASE_ATE s = 0" "\<not> GET_EXITING_MEMRW s" "i < 4" "a AND 3 = 0"
    and "int_size st = 4" "chop 4 (split_imm st) + iregval s (get_isrc2 st) = a"
    and "int_size ldl = 4" "eff_addr 4 ldl s = a" "get_idest ldl \<noteq> 0"
    and "int_size ldb = 1" "eff_addr 1 ldb s = a + of_nat i" "get_idest ldb \<noteq> 0"
    and "word_cell (mem_be s) (bd s) a \<noteq> None" "v = iregval s (get_isrc1 st)"
  shows "\<exists>s1 s2 s3. insn_stx E st s = Inr s1 \<and>
    insn_ldx E ldl s1 = Inr s2 \<and> iregval s2 (get_idest ldl) = v \<and>
    insn_ldx E ldb s1 = Inr s3 \<and>
    sint (iregval s3 (get_idest ldb)) =
      signed_take_bit 7 (uint (drop_bit (if mem_be s then 24 - 8 * i else 8 * i) v AND 0xFF))"
proof -
  from assms(13) obtain c where c: "word_cell (mem_be s) (bd s) a = Some c" by auto
  let ?s = "s\<lparr>bd := cell_put (bd s) c v\<rparr>"
  have st: "insn_stx E st s = Inr ?s"
    using stx_word [OF assms(1,5)] assms(6,14) c by simp
  have keep: "GET_DIRBASE_ATE ?s = 0" "\<not> GET_EXITING_MEMRW ?s" "eff_addr n x ?s = eff_addr n x s"
    "word_cell (mem_be ?s) (bd ?s) a = Some c" "cell_get (bd ?s) c = v" "mem_be ?s = mem_be s" for n x
    using assms(1,2) c
    by (simp_all add: GET_DIRBASE_ATE_def GET_EXITING_MEMRW_def flow_def eff_addr_def word_cell_def)
  have l: "insn_ldx E ldl ?s = Inr (set_iregval (get_idest ldl) v ?s)"
    using ldx_word [OF keep(1,2) assms(7) _ assms(4) keep(4)] assms(8) keep(3,5) by simp
  have b: "insn_ldx E ldb ?s = Inr (set_iregval (get_idest ldb)
      (sign_ext (drop_bit (if mem_be s then 24 - 8 * i else 8 * i) v AND 0xFF) 8) ?s)"
    using ldx_byte [OF keep(1,2) assms(10) _ assms(3,4) keep(4)] assms(11) keep(3,5,6) by simp
  show ?thesis
    unfolding st by (intro exI conjI, rule refl, rule l, simp add: set_iregval_def assms(9), rule b)
      (simp add: set_iregval_def assms(12) sign_ext_byte)
qed

text \<open>For the witness: \<open>st.l r4,0(r5)\<close>, \<open>ld.l 0(r5),r6\<close> and \<open>ld.b 0(r5),r6\<close> on a RAM address.\<close>

abbreviation "ST_L_R4_R5 \<equiv> (0x1CA02001 :: u32)"
abbreviation "LD_L_R5_R6 \<equiv> (0x14A60001 :: u32)"
abbreviation "LD_B_R5_R6 \<equiv> (0x04A60000 :: u32)"

lemma ram_word_cell: "word_cell False board_power_on 0xF8000100 \<noteq> None"
  by (simp add: word_cell_def power_on_ram_cell drop_bit_eq_div unat_div_distrib)

theorem store_load_agree_witness:
  "\<exists>s1 s2 s3. insn_stx word_env ST_L_R4_R5 (two_regs 0x11223384 0xF8000100) = Inr s1 \<and>
     insn_ldx word_env LD_L_R5_R6 s1 = Inr s2 \<and> iregval s2 6 = 0x11223384 \<and>
     insn_ldx word_env LD_B_R5_R6 s1 = Inr s3 \<and> sint (iregval s3 6) = - 124"
proof -
  have m: "\<not> mem_be (two_regs x y)" "bd (two_regs x y) = board_power_on"
    "GET_DIRBASE_ATE (two_regs x y) = 0" "\<not> GET_EXITING_MEMRW (two_regs x y)" for x y
    by (simp_all add: two_regs_def i860_zero_def GET_DIRBASE_ATE_def GET_EXITING_MEMRW_def flow_def)
  have f: "get_isrc1 ST_L_R4_R5 = 4" "get_isrc2 ST_L_R4_R5 = 5" "get_idest LD_L_R5_R6 = 6"
    "get_idest LD_B_R5_R6 = 6" "get_isrc2 LD_L_R5_R6 = 5" "get_isrc2 LD_B_R5_R6 = 5"
    "int_size ST_L_R4_R5 = 4" "int_size LD_L_R5_R6 = 4" "int_size LD_B_R5_R6 = 1"
    by (simp_all add: get_isrc1_def get_isrc2_def get_idest_def int_size_def)
  have z: "sign_ext 0 16 = 0" "sign_ext 1 16 = 1" by (simp_all add: sign_ext_def)
  show ?thesis
    using store_load_agree [of "two_regs 0x11223384 0xF8000100" 0 "0xF8000100" ST_L_R4_R5 LD_L_R5_R6
        LD_B_R5_R6 "0x11223384" word_env] ram_word_cell
    by (auto simp: m f z eff_addr_def chop_def split_imm_def get_imm16_def)
qed

text \<open>
  The pixel mask of pst.d: with pixels of \<open>2 ^ PS\<close> bytes, byte \<open>i\<close> of the doubleword is
  stored exactly when the mask bit of its pixel is set, where the lowest of the low \<open>8 / 2 ^ PS\<close>
  bits of PM selects the pixel at the highest address.
\<close>

theorem pst_mask_selects:
  assumes "unat ps < 3" "i < 8"
  shows "bit (pst_wmask ps 0 pm 0) (7 - i) = bit pm ((7 - i) div 2 ^ unat ps)"
proof -
  have "\<exists>k :: nat. 0 + k * 2 ^ unat ps = 8" using assms(1)
    by (intro exI [of _ "8 div 2 ^ unat ps"]) (auto simp: less_Suc_eq numeral_3_eq_3)
  then obtain k where "0 + k * 2 ^ unat ps = (8 :: nat)" by blast
  from pst_wmask_bit [OF assms(1) this, of "7 - i" pm 0] assms(2) show ?thesis by simp
qed

theorem pst_mask_selects_witness:
  "bit (pst_wmask 1 0 0x08 0) 7 \<and> \<not> bit (pst_wmask 1 0 0x08 0) 0"
  using pst_mask_selects [of 1 0 "0x08"] pst_mask_selects [of 1 7 "0x08"] by simp

end
