(* ===== verification/I860_Float.thy ===== *)
theory I860_Float
  imports I860_LoadStore
begin

text \<open>
  The floating-point instructions of src/dimension/i860dec.cpp: multiplier and adder with their
  pipelines, the dual operations, reciprocals, conversions, moves and compares. The arithmetic is
  the floating-point library of the environment; what is modelled is which operands it gets, where
  results go, and how the pipelines and the status bits move.
\<close>

section \<open>Results and pipelines\<close>

text \<open>A result of the precision the instruction selects.\<close>

datatype fval = Sgl u32 | Dbl u64

fun put_result :: "nat \<Rightarrow> fval \<Rightarrow> i860 \<Rightarrow> i860 res" where
  "put_result fdest (Dbl d) s = set_fregval_d fdest d s"
| "put_result fdest (Sgl x) s = Inr (set_fregval_s fdest x s)"

fun load_stage :: "fval \<Rightarrow> stage \<Rightarrow> stage" where
  "load_stage (Dbl d) st = stage_d d st"
| "load_stage (Sgl x) st = stage_s x st"

text \<open>The two copies of the last stage; the one of the other precision stays zero.\<close>

definition dbl_last :: "stage \<Rightarrow> u64" where
  "dbl_last st = (if st_prec st then st_val st else 0)"

definition sgl_last :: "stage \<Rightarrow> u32" where
  "sgl_last st = (if st_prec st then 0 else union_s (st_val st))"

definition advance3 :: "fval \<Rightarrow> (nat \<Rightarrow> stage) \<Rightarrow> (nat \<Rightarrow> stage)" where
  "advance3 r p = p(2 := p 1, 1 := p 0, 0 := load_stage r (p 0))"

definition advance2 :: "fval \<Rightarrow> (nat \<Rightarrow> stage) \<Rightarrow> (nat \<Rightarrow> stage)" where
  "advance2 r p = p(1 := p 0, 0 := load_stage r (p 0))"

definition push_M :: "nat \<Rightarrow> fval \<Rightarrow> i860 \<Rightarrow> i860" where
  "push_M n r s = s\<lparr>m_M := (if n = 3 then advance3 r (m_M s) else advance2 r (m_M s))\<rparr>"

definition push_A :: "fval \<Rightarrow> i860 \<Rightarrow> i860" where
  "push_A r s = s\<lparr>m_A := advance3 r (m_A s)\<rparr>"

text \<open>The adder pipe of a pipelined instruction: FSR.ARP, the result in \<open>fdest\<close>, the advance.\<close>

definition pipe_A :: "nat \<Rightarrow> fval \<Rightarrow> i860 \<Rightarrow> i860 res" where
  "pipe_A fdest r s =
     bnd (put_stage fdest (m_A s 2) (fsr_bit 0x20000000 (st_prec (m_A s 1)) s))
       (\<lambda>s1. Inr (push_A r s1))"

definition pipe_M :: "nat \<Rightarrow> nat \<Rightarrow> fval \<Rightarrow> i860 \<Rightarrow> i860 res" where
  "pipe_M num_stages fdest r s =
     bnd (put_stage fdest (m_M s (num_stages - 1))
            (fsr_bit 0x10000000 (st_prec (m_M s (num_stages - 2))) s))
       (\<lambda>s1. Inr (push_M num_stages r s1))"

definition src_prec :: "u32 \<Rightarrow> bool" where "src_prec insn \<longleftrightarrow> insn AND 0x100 \<noteq> 0"
definition res_prec :: "u32 \<Rightarrow> bool" where "res_prec insn \<longleftrightarrow> insn AND 0x080 \<noteq> 0"
definition piped :: "u32 \<Rightarrow> bool" where "piped insn \<longleftrightarrow> insn AND 0x400 \<noteq> 0"

section \<open>Multiplication\<close>

definition mul_d :: "env \<Rightarrow> u32 \<Rightarrow> bool \<Rightarrow> u64 \<Rightarrow> u64 \<Rightarrow> fval" where
  "mul_d E rm dblres v1 v2 =
     (if dblres then Dbl (float64_mul E rm v1 v2)
      else Sgl (float64_to_float32 E rm (float64_mul E rm v1 v2)))"

definition mul_s :: "env \<Rightarrow> u32 \<Rightarrow> bool \<Rightarrow> u32 \<Rightarrow> u32 \<Rightarrow> fval" where
  "mul_s E rm dblres v1 v2 =
     (if dblres then Dbl (float64_mul E rm (float32_to_float64 E v1) (float32_to_float64 E v2))
      else Sgl (float32_mul E rm v1 v2))"

definition fmul_result :: "env \<Rightarrow> u32 \<Rightarrow> stage \<Rightarrow> i860 \<Rightarrow> fval res" where
  "fmul_result E insn ls s =
     (let fsrc1 = get_fsrc1 insn; fsrc2 = get_fsrc2 insn; fdest = get_fdest insn;
          bypass2 = (piped insn \<and> fdest \<noteq> 0 \<and> fsrc2 = fdest)
      in if src_prec insn then
           bnd (get_fregval_d fsrc1 s) (\<lambda>v1.
           bnd (get_fregval_d fsrc2 s) (\<lambda>v2.
             Inr (mul_d E (round_mode s) (res_prec insn) v1 (if bypass2 then dbl_last ls else v2))))
         else
           Inr (mul_s E (round_mode s) (res_prec insn) (get_fregval_s fsrc1 s)
             (if bypass2 then sgl_last ls else get_fregval_s fsrc2 s)))"

definition insn_fmul :: insn where
  "insn_fmul E insn s =
     (let is_pfmul3 = (insn AND 0x4 \<noteq> 0);
          num_stages = (if src_prec insn \<and> \<not> is_pfmul3 then 2 else 3)
      in if trace_undefined E \<and> is_pfmul3 \<and> insn AND 0x180 \<noteq> 0x180 then Inr (unrecog_opcode s)
         else if trace_undefined E \<and> insn AND 0x180 = 0x100 then Inr (unrecog_opcode s)
         else
           bnd (fmul_result E insn (m_M s (num_stages - 1)) s) (\<lambda>r.
             if \<not> piped insn then put_result (get_fdest insn) r s
             else pipe_M num_stages (get_fdest insn) r s))"

definition insn_fmlow :: insn where
  "insn_fmlow E insn s =
     bnd (get_fregval_d (get_fsrc1 insn) s) (\<lambda>i1.
     bnd (get_fregval_d (get_fsrc2 insn) s) (\<lambda>i2.
       if trace_undefined E \<and> insn AND 0x180 \<noteq> 0x180 then Inr (unrecog_opcode s)
       else
         (let tmp = (i1 * i2) AND 0x001fffffffffffff;
              sgn = (i1 AND 0x8000000000000000) XOR (i2 AND 0x8000000000000000)
          in set_fregval_d (get_fdest insn) (tmp OR sgn) s)))"

section \<open>Addition and subtraction\<close>

definition add_d :: "env \<Rightarrow> u32 \<Rightarrow> bool \<Rightarrow> bool \<Rightarrow> u64 \<Rightarrow> u64 \<Rightarrow> fval" where
  "add_d E rm is_sub dblres v1 v2 =
     (let r = (if is_sub then float64_sub E rm v1 v2 else float64_add E rm v1 v2)
      in if dblres then Dbl r else Sgl (float64_to_float32 E rm r))"

definition add_s :: "env \<Rightarrow> u32 \<Rightarrow> bool \<Rightarrow> bool \<Rightarrow> u32 \<Rightarrow> u32 \<Rightarrow> fval" where
  "add_s E rm is_sub dblres v1 v2 =
     (if dblres then
        Dbl (if is_sub then float64_sub E rm (float32_to_float64 E v1) (float32_to_float64 E v2)
             else float64_add E rm (float32_to_float64 E v1) (float32_to_float64 E v2))
      else Sgl (if is_sub then float32_sub E rm v1 v2 else float32_add E rm v1 v2))"

definition fadd_result :: "env \<Rightarrow> u32 \<Rightarrow> stage \<Rightarrow> i860 \<Rightarrow> fval res" where
  "fadd_result E insn ls s =
     (let fsrc1 = get_fsrc1 insn; fsrc2 = get_fsrc2 insn; fdest = get_fdest insn;
          is_sub = (insn AND 1 \<noteq> 0);
          bypass1 = (piped insn \<and> fdest \<noteq> 0 \<and> fsrc1 = fdest);
          bypass2 = (piped insn \<and> fdest \<noteq> 0 \<and> fsrc2 = fdest)
      in if src_prec insn then
           bnd (get_fregval_d fsrc1 s) (\<lambda>v1.
           bnd (get_fregval_d fsrc2 s) (\<lambda>v2.
             Inr (add_d E (round_mode s) is_sub (res_prec insn)
               (if bypass1 then dbl_last ls else v1) (if bypass2 then dbl_last ls else v2))))
         else
           Inr (add_s E (round_mode s) is_sub (res_prec insn)
             (if bypass1 then sgl_last ls else get_fregval_s fsrc1 s)
             (if bypass2 then sgl_last ls else get_fregval_s fsrc2 s)))"

definition insn_fadd_sub :: insn where
  "insn_fadd_sub E insn s =
     (if trace_undefined E \<and> insn AND 0x180 = 0x100 then Inr (unrecog_opcode s)
      else
        bnd (fadd_result E insn (m_A s 2) s) (\<lambda>r.
          if \<not> piped insn then put_result (get_fdest insn) r s
          else pipe_A (get_fdest insn) r s))"

section \<open>Conversions to integers\<close>

text \<open>The pipelined form clears \<open>fdest\<close> after the scalar result has been written.\<close>

definition piped_clear :: "u32 \<Rightarrow> i860 \<Rightarrow> i860 res" where
  "piped_clear insn s =
     (if piped insn then
        (if res_prec insn then set_fregval_d (get_fdest insn) 0 s
         else Inr (set_fregval_s (get_fdest insn) 0 s))
      else Inr s)"

definition insn_fix :: insn where
  "insn_fix E insn s =
     (if trace_undefined E \<and> insn AND 0x080 = 0 then Inr (unrecog_opcode s)
      else
        bnd (if src_prec insn then
               bnd (get_fregval_d (get_fsrc1 insn) s)
                 (\<lambda>v1. Inr (float64_to_int32 E (round_mode s) v1))
             else Inr (float32_to_int32 E (round_mode s) (get_fregval_s (get_fsrc1 insn) s)))
          (\<lambda>iv. piped_clear insn (set_fregval_s (get_fdest insn) iv s)))"

definition insn_ftrunc :: insn where
  "insn_ftrunc E insn s =
     (if trace_undefined E \<and> insn AND 0x080 = 0 then Inr (unrecog_opcode s)
      else
        bnd (if src_prec insn then
               bnd (get_fregval_d (get_fsrc1 insn) s)
                 (\<lambda>v1. Inr (float64_to_int32_round_to_zero E v1))
             else Inr (float32_to_int32_round_to_zero E (get_fregval_s (get_fsrc1 insn) s)))
          (\<lambda>iv. piped_clear insn (set_fregval_s (get_fdest insn) iv s)))"

section \<open>Dual operations\<close>

datatype optype = OP_SRC1 | OP_SRC2 | OP_KI | OP_KR | OP_T | OP_MPIPE | OP_APIPE

text \<open>An operand of the table; \<open>True\<close> is the flag FLAGM.\<close>

type_synonym operand = "optype \<times> bool"

record src_oper =
  M_unit_op1 :: operand
  M_unit_op2 :: operand
  A_unit_op1 :: operand
  A_unit_op2 :: operand
  T_loaded :: bool
  K_loaded :: bool

definition oper :: "operand \<Rightarrow> operand \<Rightarrow> operand \<Rightarrow> operand \<Rightarrow> bool \<Rightarrow> bool \<Rightarrow> src_oper" where
  "oper m1 m2 a1 a2 t k =
     \<lparr>M_unit_op1 = m1, M_unit_op2 = m2, A_unit_op1 = a1, A_unit_op2 = a2, T_loaded = t, K_loaded = k\<rparr>"

abbreviation "KR \<equiv> (OP_KR, False)"
abbreviation "KI \<equiv> (OP_KI, False)"
abbreviation "SRC1 \<equiv> (OP_SRC1, False)"
abbreviation "SRC2 \<equiv> (OP_SRC2, False)"
abbreviation "OPT \<equiv> (OP_T, False)"
abbreviation "MPIPE \<equiv> (OP_MPIPE, False)"
abbreviation "APIPE_M \<equiv> (OP_APIPE, True)"

definition src_opers :: "src_oper list" where
  "src_opers =
    [oper KR SRC2 SRC1 MPIPE False False,
     oper KR SRC2 OPT MPIPE False True,
     oper KR SRC2 SRC1 APIPE_M True False,
     oper KR SRC2 OPT APIPE_M True True,
     oper KI SRC2 SRC1 MPIPE False False,
     oper KI SRC2 OPT MPIPE False True,
     oper KI SRC2 SRC1 APIPE_M True False,
     oper KI SRC2 OPT APIPE_M True True,
     oper KR APIPE_M SRC1 SRC2 True False,
     oper SRC1 SRC2 APIPE_M MPIPE False False,
     oper KR APIPE_M SRC1 SRC2 False False,
     oper SRC1 SRC2 OPT APIPE_M True False,
     oper KI APIPE_M SRC1 SRC2 True False,
     oper SRC1 SRC2 OPT MPIPE False False,
     oper KI APIPE_M SRC1 SRC2 False False,
     oper SRC1 SRC2 OPT APIPE_M False False]"

fun get_fval_from_optype_s :: "u32 \<Rightarrow> optype \<Rightarrow> i860 \<Rightarrow> u32" where
  "get_fval_from_optype_s insn OP_SRC1 s = get_fregval_s (get_fsrc1 insn) s"
| "get_fval_from_optype_s insn OP_SRC2 s = get_fregval_s (get_fsrc2 insn) s"
| "get_fval_from_optype_s insn OP_KI s = union_s (m_KI s)"
| "get_fval_from_optype_s insn OP_KR s = union_s (m_KR s)"
| "get_fval_from_optype_s insn OP_T s = union_s (m_T s)"
| "get_fval_from_optype_s insn OP_MPIPE s = union_s (st_val (m_M s 2))"
| "get_fval_from_optype_s insn OP_APIPE s = union_s (st_val (m_A s 2))"

fun get_fval_from_optype_d :: "u32 \<Rightarrow> optype \<Rightarrow> i860 \<Rightarrow> u64 res" where
  "get_fval_from_optype_d insn OP_SRC1 s = get_fregval_d (get_fsrc1 insn) s"
| "get_fval_from_optype_d insn OP_SRC2 s = get_fregval_d (get_fsrc2 insn) s"
| "get_fval_from_optype_d insn OP_KI s = Inr (m_KI s)"
| "get_fval_from_optype_d insn OP_KR s = Inr (m_KR s)"
| "get_fval_from_optype_d insn OP_T s = Inr (m_T s)"
| "get_fval_from_optype_d insn OP_MPIPE s = Inr (st_val (m_M s 1))"
| "get_fval_from_optype_d insn OP_APIPE s = Inr (st_val (m_A s 2))"

text \<open>pfmam takes the multiplier pipe where the flag is set.\<close>

definition dual_op :: "bool \<Rightarrow> operand \<Rightarrow> optype" where
  "dual_op is_pfam p = (if \<not> is_pfam \<and> snd p then OP_MPIPE else fst p)"

text \<open>Value of an operand, with the bypass of the last stage to a source equal to \<open>fdest\<close>.\<close>

definition dual_val_s :: "u32 \<Rightarrow> optype \<Rightarrow> bool \<Rightarrow> stage \<Rightarrow> i860 \<Rightarrow> u32" where
  "dual_val_s insn p bypass ls s =
     (if bypass then sgl_last ls else get_fval_from_optype_s insn p s)"

definition dual_val_d :: "u32 \<Rightarrow> optype \<Rightarrow> bool \<Rightarrow> stage \<Rightarrow> i860 \<Rightarrow> u64 res" where
  "dual_val_d insn p bypass ls s =
     bnd (get_fval_from_optype_d insn p s) (\<lambda>v. Inr (if bypass then dbl_last ls else v))"

definition dual_bypass :: "u32 \<Rightarrow> optype \<Rightarrow> bool" where
  "dual_bypass insn p \<longleftrightarrow>
     get_fdest insn \<noteq> 0 \<and>
     (p = OP_SRC1 \<and> get_fsrc1 insn = get_fdest insn \<or> p = OP_SRC2 \<and> get_fsrc2 insn = get_fdest insn)"

definition dual_mul :: "env \<Rightarrow> u32 \<Rightarrow> optype \<Rightarrow> optype \<Rightarrow> stage \<Rightarrow> i860 \<Rightarrow> fval res" where
  "dual_mul E insn p1 p2 ls s =
     (let by2 = (p2 = OP_SRC2 \<and> dual_bypass insn p2)
      in if src_prec insn then
           bnd (dual_val_d insn p1 False ls s) (\<lambda>v1.
           bnd (dual_val_d insn p2 by2 ls s) (\<lambda>v2.
             Inr (mul_d E (round_mode s) (res_prec insn) v1 v2)))
         else
           Inr (mul_s E (round_mode s) (res_prec insn) (dual_val_s insn p1 False ls s)
             (dual_val_s insn p2 by2 ls s)))"

definition dual_add :: "env \<Rightarrow> u32 \<Rightarrow> optype \<Rightarrow> optype \<Rightarrow> stage \<Rightarrow> i860 \<Rightarrow> fval res" where
  "dual_add E insn p1 p2 ls s =
     (let is_sub = (insn AND 0x10 \<noteq> 0);
          by1 = (p1 = OP_SRC1 \<and> dual_bypass insn p1);
          by2 = (p2 = OP_SRC2 \<and> dual_bypass insn p2)
      in if res_prec insn then
           bnd (dual_val_d insn p1 by1 ls s) (\<lambda>v1.
           bnd (dual_val_d insn p2 by2 ls s) (\<lambda>v2.
             Inr (add_d E (round_mode s) is_sub True v1 v2)))
         else
           Inr (add_s E (round_mode s) is_sub False (dual_val_s insn p1 by1 ls s)
             (dual_val_s insn p2 by2 ls s)))"

definition dual_load_T :: "bool \<Rightarrow> stage \<Rightarrow> i860 \<Rightarrow> i860" where
  "dual_load_T ld ls s =
     (if \<not> ld then s
      else if st_prec ls then s\<lparr>m_T := dbl_last ls\<rparr>
      else s\<lparr>m_T := union_put_s (sgl_last ls) (m_T s)\<rparr>)"

definition dual_load_K :: "env \<Rightarrow> bool \<Rightarrow> u32 \<Rightarrow> optype \<Rightarrow> i860 \<Rightarrow> i860 res" where
  "dual_load_K E ld insn p s =
     (let fsrc1 = get_fsrc1 insn
      in if \<not> ld then Inr s
         else if p = OP_KI then
           (if src_prec insn then bnd (get_fregval_d fsrc1 s) (\<lambda>v. Inr (s\<lparr>m_KI := v\<rparr>))
            else Inr (s\<lparr>m_KI := union_put_s (get_fregval_s fsrc1 s) (m_KI s)\<rparr>))
         else if p = OP_KR then
           (if src_prec insn then bnd (get_fregval_d fsrc1 s) (\<lambda>v. Inr (s\<lparr>m_KR := v\<rparr>))
            else Inr (s\<lparr>m_KR := union_put_s (get_fregval_s fsrc1 s) (m_KR s)\<rparr>))
         else if asserts E then Inl AssertFailure else Inr s)"

definition insn_dualop :: insn where
  "insn_dualop E insn s =
     (let fdest = get_fdest insn;
          is_pfam = (insn AND 0x400 \<noteq> 0);
          num_mul_stages = (if src_prec insn then 2 else 3);
          t = src_opers ! unat (insn AND 0xf);
          p_m1 = fst (M_unit_op1 t);
          p_m2 = dual_op is_pfam (M_unit_op2 t);
          p_a1 = dual_op is_pfam (A_unit_op1 t);
          p_a2 = dual_op is_pfam (A_unit_op2 t);
          last_M = m_M s (num_mul_stages - 1);
          last_A = m_A s 2;
          ls = (if is_pfam then last_A else last_M)
      in if trace_undefined E \<and> insn AND 0x180 = 0x100 then Inr (unrecog_opcode s)
         else
           bnd (dual_mul E insn p_m1 p_m2 ls s) (\<lambda>rm.
           bnd (dual_add E insn p_a1 p_a2 ls s) (\<lambda>ra.
           bnd (dual_load_K E (K_loaded t) insn p_m1 (dual_load_T (T_loaded t) last_M s)) (\<lambda>s1.
           bnd (put_stage fdest ls s1) (\<lambda>s2.
             (let s3 = push_M num_mul_stages rm
                         (fsr_bit 0x10000000 (st_prec (m_M s2 (num_mul_stages - 2))) s2)
              in Inr (push_A ra (fsr_bit 0x20000000 (st_prec (m_A s3 1)) s3))))))))"

section \<open>Reciprocal and reciprocal square root\<close>

abbreviation "FLOAT64_ONE \<equiv> (0x3FF0000000000000 :: u64)"
abbreviation "FLOAT32_ONE \<equiv> (0x3F800000 :: u32)"

definition FLOAT64_IS_ZERO :: "u64 \<Rightarrow> bool" where
  "FLOAT64_IS_ZERO x \<longleftrightarrow> x AND 0x7FFFFFFFFFFFFFFF = 0"

definition FLOAT64_IS_NEG :: "u64 \<Rightarrow> bool" where
  "FLOAT64_IS_NEG x \<longleftrightarrow> x AND 0x8000000000000000 \<noteq> 0"

definition FLOAT32_IS_ZERO :: "u32 \<Rightarrow> bool" where
  "FLOAT32_IS_ZERO x \<longleftrightarrow> x AND 0x7FFFFFFF = 0"

definition FLOAT32_IS_NEG :: "u32 \<Rightarrow> bool" where
  "FLOAT32_IS_NEG x \<longleftrightarrow> x AND 0x80000000 \<noteq> 0"

definition recip_d :: "env \<Rightarrow> u32 \<Rightarrow> u64 \<Rightarrow> i860 \<Rightarrow> i860 res" where
  "recip_d E insn den s =
     (let s1 = SET_FSR_SE 0 s;
          r = float64_div E (round_mode s) FLOAT64_ONE den AND 0xfffff00000000000
      in if res_prec insn then set_fregval_d (get_fdest insn) r s1
         else Inr (set_fregval_s (get_fdest insn) (float64_to_float32 E (round_mode s) r) s1))"

definition recip_s :: "env \<Rightarrow> u32 \<Rightarrow> u32 \<Rightarrow> i860 \<Rightarrow> i860 res" where
  "recip_s E insn den s =
     (let s1 = SET_FSR_SE 0 s;
          r = float32_div E (round_mode s) FLOAT32_ONE den AND 0xffff8000
      in if res_prec insn then set_fregval_d (get_fdest insn) (float32_to_float64 E r) s1
         else Inr (set_fregval_s (get_fdest insn) r s1))"

definition insn_frcp :: insn where
  "insn_frcp E insn s =
     (if src_prec insn then
        bnd (get_fregval_d (get_fsrc2 insn) s) (\<lambda>v.
          if FLOAT64_IS_ZERO v then Inr s
          else recip_d E insn (v AND 0xfffff00000000000) s)
      else
        (let v = get_fregval_s (get_fsrc2 insn) s
         in if FLOAT32_IS_ZERO v then Inr s else recip_s E insn (v AND 0xffff8000) s))"

definition insn_frsqr :: insn where
  "insn_frsqr E insn s =
     (if trace_undefined E \<and> insn AND 0x180 = 0x100 then Inr (unrecog_opcode s)
      else if src_prec insn then
        bnd (get_fregval_d (get_fsrc2 insn) s) (\<lambda>v.
          if FLOAT64_IS_ZERO v \<or> FLOAT64_IS_NEG v then Inr s
          else recip_d E insn (float64_sqrt E (round_mode s) (v AND 0xfffff00000000000)) s)
      else
        (let v = get_fregval_s (get_fsrc2 insn) s
         in if FLOAT32_IS_ZERO v \<or> FLOAT32_IS_NEG v then Inr s
            else recip_s E insn (float32_sqrt E (round_mode s) (v AND 0xffff8000)) s))"

section \<open>Moves and compares\<close>

definition insn_fxfr :: insn where
  "insn_fxfr E insn s =
     Inr (set_iregval (get_idest insn) (get_fregval_s (get_fsrc1 insn) s) s)"

definition insn_famov :: insn where
  "insn_famov E insn s =
     bnd (if src_prec insn then
            bnd (get_fregval_d (get_fsrc1 insn) s) (\<lambda>v1.
              Inr (if res_prec insn then Dbl v1 else Sgl (float64_to_float32 E (round_mode s) v1)))
          else
            (let v1 = get_fregval_s (get_fsrc1 insn) s
             in Inr (if res_prec insn then Dbl (float32_to_float64 E v1) else Sgl v1)))
       (\<lambda>r. if \<not> piped insn then put_result (get_fdest insn) r s
            else pipe_A (get_fdest insn) r s)"

text \<open>The comparison bit: pfgt and pfeq set CC on success, pfle clears it.\<close>

definition fcmp_cc :: "env \<Rightarrow> u32 \<Rightarrow> i860 \<Rightarrow> bool res" where
  "fcmp_cc E insn s =
     (let is_gt = (insn AND 0x81 = 0x00); is_le = (insn AND 0x81 = 0x80)
      in if src_prec insn then
           bnd (get_fregval_d (get_fsrc1 insn) s) (\<lambda>v1.
           bnd (get_fregval_d (get_fsrc2 insn) s) (\<lambda>v2.
             Inr (if is_gt then float64_gt E v1 v2
                  else if is_le then \<not> float64_le E v1 v2 else float64_eq E v1 v2)))
         else
           (let v1 = get_fregval_s (get_fsrc1 insn) s; v2 = get_fregval_s (get_fsrc2 insn) s
            in Inr (if is_gt then float32_gt E v1 v2
                    else if is_le then \<not> float32_le E v1 v2 else float32_eq E v1 v2)))"

definition insn_fcmp :: insn where
  "insn_fcmp E insn s =
     (let s1 = s\<lparr>m_dim_cc := (GET_PSR_CC s \<noteq> 0), m_dim_cc_valid := (m_dim s \<noteq> DIM_NONE)\<rparr>
      in bnd (fcmp_cc E insn s1) (\<lambda>cc.
           pipe_A (get_fdest insn) (if src_prec insn then Dbl 0 else Sgl 0)
             (SET_PSR_CC_F (of_bool cc) s1)))"

section \<open>The invariant is kept\<close>

lemma cpu_ok_push [simp]:
  "cpu_ok (push_M n r s) = cpu_ok s" "cpu_ok (push_A r s) = cpu_ok s"
  by (simp_all add: push_M_def push_A_def)

lemma cpu_ok_dual_load_T [simp]: "cpu_ok (dual_load_T l st s) = cpu_ok s"
  by (simp add: dual_load_T_def)

lemma put_result_ok: "cpu_ok s \<Longrightarrow> holds cpu_ok (put_result fd r s)"
  by (cases r) (simp_all add: cpu_ok_set_fregval_d)

lemma pipe_ok:
  "cpu_ok s \<Longrightarrow> holds cpu_ok (pipe_A fd r s)" "cpu_ok s \<Longrightarrow> holds cpu_ok (pipe_M n fd r s)"
  by (auto simp: pipe_A_def pipe_M_def intro!: ok_intros)

lemma dual_load_K_ok: "cpu_ok s \<Longrightarrow> holds cpu_ok (dual_load_K E l insn p s)"
  by (auto simp: dual_load_K_def Let_def intro!: ok_intros)

lemma piped_clear_ok: "cpu_ok s \<Longrightarrow> holds cpu_ok (piped_clear insn s)"
  by (simp add: piped_clear_def cpu_ok_set_fregval_d)

lemma recip_ok:
  "cpu_ok s \<Longrightarrow> holds cpu_ok (recip_d E insn v s)" "cpu_ok s \<Longrightarrow> holds cpu_ok (recip_s E insn w s)"
  by (simp_all add: recip_d_def recip_s_def Let_def cpu_ok_set_fregval_d)

lemma insn_dualop_ok: "cpu_ok s \<Longrightarrow> holds cpu_ok (insn_dualop E insn s)"
  unfolding insn_dualop_def Let_def
  by (rule holds_if, simp, rule holds_any, rule holds_any, rule ok_bnd [OF dual_load_K_ok], simp,
      rule ok_bnd [OF cpu_ok_put_stage], simp, simp)

lemma float_insns_ok:
  assumes "cpu_ok s"
  shows "holds cpu_ok (insn_fmul E insn s)" "holds cpu_ok (insn_fmlow E insn s)"
    "holds cpu_ok (insn_fadd_sub E insn s)" "holds cpu_ok (insn_fix E insn s)"
    "holds cpu_ok (insn_ftrunc E insn s)"
    "holds cpu_ok (insn_frcp E insn s)" "holds cpu_ok (insn_frsqr E insn s)"
    "holds cpu_ok (insn_fxfr E insn s)" "holds cpu_ok (insn_famov E insn s)"
    "holds cpu_ok (insn_fcmp E insn s)"
  using assms
  by (auto simp: insn_fmul_def insn_fmlow_def insn_fadd_sub_def insn_fix_def insn_ftrunc_def
      insn_frcp_def insn_frsqr_def insn_fxfr_def insn_famov_def insn_fcmp_def Let_def
      put_result_ok pipe_ok piped_clear_ok recip_ok
      intro!: ok_intros holds_any)

section \<open>Pipelines\<close>

text \<open>What is left of a result when it arrives in a register.\<close>

definition holds_value :: "nat \<Rightarrow> fval \<Rightarrow> i860 \<Rightarrow> bool" where
  "holds_value fr r s =
     (case r of Sgl x \<Rightarrow> get_fregval_s fr s = x | Dbl d \<Rightarrow> get_fregval_d fr s = Inr d)"

lemma union_put [simp]: "union_s (union_put_s x v) = x"
proof -
  have m: "(0xFFFFFFFF00000000 :: u64) = NOT (mask 32)" by (simp add: mask_eq_exp_minus_1)
  show ?thesis unfolding union_s_def union_put_s_def m
    by (rule bit_word_eqI) (auto simp: bit_simps dest: bit_imp_le_length)
qed

lemma dbl_split [simp]: "dbl (ucast d) (ucast (drop_bit 32 d)) = d"
  unfolding dbl_def by (rule bit_word_eqI) (auto simp: bit_simps not_less)

lemma put_stage_value:
  assumes "put_stage fd (load_stage r st) s = Inr s'" "fd > 1"
  shows "holds_value fd r s'"
  using assms
  by (cases r) (auto simp: put_stage_def stage_s_def stage_d_def holds_value_def get_fregval_s_def
      set_fregval_s_def set_fregval_d_def get_fregval_d_def arr_put_def arr_get_def bnd_eq_Inr split: if_splits)

lemma put_stage_frame:
  assumes "put_stage fd st s = Inr s'"
  shows "m_A s' = m_A s" "m_M s' = m_M s" "m_L s' = m_L s" "m_G s' = m_G s"
  using assms
  by (auto simp: put_stage_def set_fregval_s_def set_fregval_d_def bnd_eq_Inr split: if_splits)

lemma fsr_bit_frame [simp]:
  "m_A (fsr_bit b p s) = m_A s" "m_M (fsr_bit b p s) = m_M s"
  "m_L (fsr_bit b p s) = m_L s" "m_G (fsr_bit b p s) = m_G s"
  by (simp_all add: fsr_bit_def set_creg_def)

lemma holds_value_push [simp]: "holds_value fr r (push_A x s) = holds_value fr r s"
  by (simp add: holds_value_def push_A_def get_fregval_s_def get_fregval_d_def split: fval.split)

text \<open>One pipelined operation of the adder.\<close>

lemma pipe_A_step:
  assumes "pipe_A fd r s = Inr s'"
  shows "m_A s' = advance3 r (m_A s)"
    and "m_A s 2 = load_stage q st \<Longrightarrow> fd > 1 \<Longrightarrow> holds_value fd q s'"
proof -
  from assms obtain s1 where s1: "put_stage fd (m_A s 2) (fsr_bit 0x20000000 (st_prec (m_A s 1)) s) = Inr s1"
    and s': "s' = push_A r s1"
    by (auto simp: pipe_A_def bnd_eq_Inr)
  show "m_A s' = advance3 r (m_A s)"
    using put_stage_frame(1) [OF s1] by (simp add: s' push_A_def)
  show "m_A s 2 = load_stage q st \<Longrightarrow> fd > 1 \<Longrightarrow> holds_value fd q s'"
    using put_stage_value [of fd q st] s1 by (simp add: s')
qed

lemma put_stage_keeps:
  assumes "put_stage fd st s = Inr s'"
  shows "m_cregs s' = m_cregs s" "m_dim s' = m_dim s" "m_dim_cc s' = m_dim_cc s"
    "m_dim_cc_valid s' = m_dim_cc_valid s"
  using assms
  by (auto simp: put_stage_def set_fregval_s_def set_fregval_d_def bnd_eq_Inr split: if_splits)

lemma pipe_A_keeps:
  assumes "pipe_A fd r s = Inr s'"
  shows "get_field CR_PSR m lo s' = get_field CR_PSR m lo s" "m_dim s' = m_dim s"
    "m_dim_cc s' = m_dim_cc s" "m_dim_cc_valid s' = m_dim_cc_valid s"
proof -
  from assms obtain s1 where s1: "put_stage fd (m_A s 2) (fsr_bit 0x20000000 (st_prec (m_A s 1)) s) = Inr s1"
    and s': "s' = push_A r s1"
    by (auto simp: pipe_A_def bnd_eq_Inr)
  show "get_field CR_PSR m lo s' = get_field CR_PSR m lo s" "m_dim s' = m_dim s"
    "m_dim_cc s' = m_dim_cc s" "m_dim_cc_valid s' = m_dim_cc_valid s"
    using put_stage_keeps [OF s1]
    by (simp_all add: s' push_A_def get_field_def fsr_bit_def set_creg_def)
qed

text \<open>A pipelined addition that is executed, not trapped as undefined.\<close>

definition pfadd :: "env \<Rightarrow> u32 \<Rightarrow> bool" where
  "pfadd E insn \<longleftrightarrow> piped insn \<and> \<not> (trace_undefined E \<and> insn AND 0x180 = 0x100)"

lemma pfadd_pipe:
  assumes "pfadd E insn" "insn_fadd_sub E insn s = Inr s'"
  obtains r where "fadd_result E insn (m_A s 2) s = Inr r" "pipe_A (get_fdest insn) r s = Inr s'"
  using assms by (auto simp: pfadd_def insn_fadd_sub_def bnd_eq_Inr)

text \<open>
  The adder has three stages: of four pipelined additions or subtractions in a row the
  last one delivers the result of the first, computed from the operands the first one saw, to its
  own destination register.
\<close>

theorem adder_latency:
  assumes "pfadd E i1" "pfadd E i2" "pfadd E i3" "pfadd E i4"
    and "insn_fadd_sub E i1 s = Inr s1" "insn_fadd_sub E i2 s1 = Inr s2"
    and "insn_fadd_sub E i3 s2 = Inr s3" "insn_fadd_sub E i4 s3 = Inr s4"
    and "get_fdest i4 > 1"
  shows "\<exists>r. fadd_result E i1 (m_A s 2) s = Inr r \<and> holds_value (get_fdest i4) r s4"
proof -
  obtain r1 where r1: "fadd_result E i1 (m_A s 2) s = Inr r1" "pipe_A (get_fdest i1) r1 s = Inr s1"
    by (rule pfadd_pipe [OF assms(1,5)])
  obtain r2 where r2: "pipe_A (get_fdest i2) r2 s1 = Inr s2" by (rule pfadd_pipe [OF assms(2,6)])
  obtain r3 where r3: "pipe_A (get_fdest i3) r3 s2 = Inr s3" by (rule pfadd_pipe [OF assms(3,7)])
  obtain r4 where r4: "pipe_A (get_fdest i4) r4 s3 = Inr s4" by (rule pfadd_pipe [OF assms(4,8)])
  have "m_A s3 2 = load_stage r1 (m_A s 0)"
    by (simp add: pipe_A_step(1) [OF r3] pipe_A_step(1) [OF r2] pipe_A_step(1) [OF r1(2)] advance3_def)
  then show ?thesis using r1(1) pipe_A_step(2) [OF r4 _ assms(9)] by blast
qed

text \<open>\<open>pfadd.ss f4,f5,f6\<close>.\<close>

abbreviation "PFADD_F4_F5_F6 \<equiv> (0x48A62430 :: u32)"

lemma pfadd_fields [simp]:
  "get_isrc1 PFADD_F4_F5_F6 = 4" "get_isrc2 PFADD_F4_F5_F6 = 5" "get_idest PFADD_F4_F5_F6 = 6"
  "pfadd word_env PFADD_F4_F5_F6" "piped PFADD_F4_F5_F6" "\<not> src_prec PFADD_F4_F5_F6" "\<not> res_prec PFADD_F4_F5_F6"
  by (simp_all add: get_isrc1_def get_isrc2_def get_idest_def pfadd_def piped_def word_env_def
      src_prec_def res_prec_def)

lemma pfadd_total: "\<exists>s'. insn_fadd_sub word_env PFADD_F4_F5_F6 s = Inr s'"
  by (simp add: insn_fadd_sub_def fadd_result_def pipe_A_def put_stage_def set_fregval_d_def Let_def word_env_def)

definition float_cpu :: "u32 \<Rightarrow> u32 \<Rightarrow> i860" where
  "float_cpu a b = i860_zero\<lparr>m_fregs := (\<lambda>_. 0)(4 := a, 5 := b)\<rparr>"

theorem adder_latency_witness:
  "\<exists>s1 s2 s3 s4. insn_fadd_sub word_env PFADD_F4_F5_F6 (float_cpu 30 12) = Inr s1 \<and>
     insn_fadd_sub word_env PFADD_F4_F5_F6 s1 = Inr s2 \<and>
     insn_fadd_sub word_env PFADD_F4_F5_F6 s2 = Inr s3 \<and>
     insn_fadd_sub word_env PFADD_F4_F5_F6 s3 = Inr s4 \<and> get_fregval_s 6 s4 = 42"
proof -
  obtain s1 where s1: "insn_fadd_sub word_env PFADD_F4_F5_F6 (float_cpu 30 12) = Inr s1"
    using pfadd_total by blast
  obtain s2 where s2: "insn_fadd_sub word_env PFADD_F4_F5_F6 s1 = Inr s2" using pfadd_total by blast
  obtain s3 where s3: "insn_fadd_sub word_env PFADD_F4_F5_F6 s2 = Inr s3" using pfadd_total by blast
  obtain s4 where s4: "insn_fadd_sub word_env PFADD_F4_F5_F6 s3 = Inr s4" using pfadd_total by blast
  note s = s1 s2 s3 s4
  obtain r where "fadd_result word_env PFADD_F4_F5_F6 (m_A (float_cpu 30 12) 2) (float_cpu 30 12) = Inr r"
    "holds_value (get_fdest PFADD_F4_F5_F6) r s4"
    using adder_latency [OF _ _ _ _ s] by auto
  moreover have "fadd_result word_env PFADD_F4_F5_F6 st (float_cpu 30 12) = Inr (Sgl 42)" for st
    by (simp add: fadd_result_def add_s_def word_env_def float_cpu_def get_fregval_s_def Let_def)
  ultimately show ?thesis using s by (auto simp: holds_value_def)
qed

end
