(* ===== verification/I860_Graphics.thy ===== *)
theory I860_Graphics
  imports I860_Float
begin

text \<open>
  The graphics unit of the i860 (src/dimension/i860dec.cpp): long-integer additions, the Z-buffer
  checks with the pixel mask, and the pixel additions with the merge register. The lemmas show
  what a Z-buffer check computes per pixel.
\<close>

text \<open>The graphics pipe has one stage.\<close>

definition pipe_G :: "nat \<Rightarrow> fval \<Rightarrow> i860 \<Rightarrow> i860 res" where
  "pipe_G fdest r s =
     bnd (put_stage fdest (m_G s) s) (\<lambda>s1. Inr (s1\<lparr>m_G := load_stage r (m_G s1)\<rparr>))"

definition graphics_result :: "u32 \<Rightarrow> u64 \<Rightarrow> i860 \<Rightarrow> i860 res" where
  "graphics_result insn r s =
     (if \<not> piped insn then set_fregval_d (get_fdest insn) r s
      else pipe_G (get_fdest insn) (Dbl r) s)"

section \<open>fiadd and fisub\<close>

text \<open>The combinations .ds and .sd reach an \<^verbatim>\<open>assert (0)\<close>.\<close>

definition bad_precision :: "env \<Rightarrow> fval \<Rightarrow> fval res" where
  "bad_precision E r = (if asserts E then Inl AssertFailure else Inr r)"

definition fiadd_result :: "env \<Rightarrow> u32 \<Rightarrow> i860 \<Rightarrow> fval res" where
  "fiadd_result E insn s =
     (let is_sub = (insn AND 0x4 \<noteq> 0)
      in if src_prec insn then
           bnd (get_fregval_d (get_fsrc1 insn) s) (\<lambda>iv1.
           bnd (get_fregval_d (get_fsrc2 insn) s) (\<lambda>iv2.
             (let r = (if is_sub then iv1 - iv2 else iv1 + iv2)
              in if res_prec insn then Inr (Dbl r) else bad_precision E (Sgl 0))))
         else
           (let iv1 = get_fregval_s (get_fsrc1 insn) s; iv2 = get_fregval_s (get_fsrc2 insn) s;
                r = (if is_sub then iv1 - iv2 else iv1 + iv2)
            in if res_prec insn then bad_precision E (Dbl 0) else Inr (Sgl r)))"

definition insn_fiadd_sub :: insn where
  "insn_fiadd_sub E insn s =
     (if trace_undefined E \<and> (insn AND 0x180 = 0x100 \<or> insn AND 0x180 = 0x080) then
        Inr (unrecog_opcode s)
      else
        bnd (fiadd_result E insn s) (\<lambda>r.
          if \<not> piped insn then put_result (get_fdest insn) r s
          else pipe_G (get_fdest insn) r (fsr_bit 0x08000000 (res_prec insn) s)))"

section \<open>Z-buffer checks\<close>

text \<open>One pixel: the smaller value goes to the result, the mask bit tells whether it is the second.\<close>

definition fzchk_pixel :: "nat \<Rightarrow> nat \<Rightarrow> u64 \<Rightarrow> u64 \<Rightarrow> nat \<Rightarrow> u64 \<times> u32 \<Rightarrow> u64 \<times> u32" where
  "fzchk_pixel w n iv1 iv2 i a =
     (let (r, pm) = a;
          ps1 = drop_bit (i * w) iv1 AND mask w;
          ps2 = drop_bit (i * w) iv2 AND mask w;
          b = 7 - (n - 1 - i)
      in if ps2 \<le> ps1 then (r OR push_bit (i * w) ps2, pm OR push_bit b 1)
         else (r OR push_bit (i * w) ps1, pm AND NOT (push_bit b 1)))"

definition fzchk_loop :: "bool \<Rightarrow> u64 \<Rightarrow> u64 \<Rightarrow> u32 \<Rightarrow> u64 \<times> u32" where
  "fzchk_loop is_fzchks iv1 iv2 pm =
     (if is_fzchks then fold (fzchk_pixel 16 4 iv1 iv2) [3, 2, 1, 0] (0, drop_bit 4 pm AND 0x0f)
      else fold (fzchk_pixel 32 2 iv1 iv2) [1, 0] (0, drop_bit 2 pm AND 0x3f))"

definition insn_fzchk :: insn where
  "insn_fzchk E insn s =
     bnd (get_fregval_d (get_fsrc1 insn) s) (\<lambda>iv1.
     bnd (get_fregval_d (get_fsrc2 insn) s) (\<lambda>iv2.
       if trace_undefined E \<and> insn AND 0x180 \<noteq> 0x180 then Inr (unrecog_opcode s)
       else
         (let (r, pm) = fzchk_loop (insn AND 8 \<noteq> 0) iv1 iv2 (GET_PSR_PM s);
              s1 = (SET_PSR_PM pm s)\<lparr>m_merge := 0\<rparr>
          in graphics_result insn r s1)))"

section \<open>Merge register\<close>

definition insn_form :: insn where
  "insn_form E insn s =
     bnd (get_fregval_d (get_fsrc1 insn) s) (\<lambda>iv1.
       if trace_undefined E \<and> insn AND 0x180 \<noteq> 0x180 then Inr (unrecog_opcode s)
       else graphics_result insn (iv1 OR m_merge s) (s\<lparr>m_merge := 0\<rparr>))"

definition faddp_merge :: "u32 \<Rightarrow> u64 \<Rightarrow> u64 \<Rightarrow> u64" where
  "faddp_merge ps r m =
     (if ps = 0 then
        (drop_bit 8 m AND NOT 0xff00ff00ff00ff00) OR (r AND 0xff00ff00ff00ff00)
      else if ps = 1 then
        (drop_bit 6 m AND NOT 0xfc00fc00fc00fc00) OR (r AND 0xfc00fc00fc00fc00)
      else if ps = 2 then
        (drop_bit 8 m AND NOT 0xff000000ff000000) OR (r AND 0xff000000ff000000)
      else m)"

definition insn_faddp :: insn where
  "insn_faddp E insn s =
     bnd (get_fregval_d (get_fsrc1 insn) s) (\<lambda>iv1.
     bnd (get_fregval_d (get_fsrc2 insn) s) (\<lambda>iv2.
       (let r = iv1 + iv2
        in graphics_result insn r (s\<lparr>m_merge := faddp_merge (GET_PSR_PS s) r (m_merge s)\<rparr>))))"

definition insn_faddz :: insn where
  "insn_faddz E insn s =
     bnd (get_fregval_d (get_fsrc1 insn) s) (\<lambda>iv1.
     bnd (get_fregval_d (get_fsrc2 insn) s) (\<lambda>iv2.
       (let r = iv1 + iv2
        in graphics_result insn r
             (s\<lparr>m_merge := (drop_bit 16 (m_merge s) AND NOT 0xffff0000ffff0000)
                 OR (r AND 0xffff0000ffff0000)\<rparr>))))"

section \<open>The invariant is kept\<close>

lemma pipe_G_ok: "cpu_ok s \<Longrightarrow> holds cpu_ok (pipe_G fd r s)"
  by (auto simp: pipe_G_def intro!: ok_intros)

lemma graphics_result_ok: "cpu_ok s \<Longrightarrow> holds cpu_ok (graphics_result insn r s)"
  by (simp add: graphics_result_def cpu_ok_set_fregval_d pipe_G_ok)

lemma graphics_insns_ok:
  assumes "cpu_ok s"
  shows "holds cpu_ok (insn_fiadd_sub E insn s)" "holds cpu_ok (insn_fzchk E insn s)"
    "holds cpu_ok (insn_form E insn s)" "holds cpu_ok (insn_faddp E insn s)"
    "holds cpu_ok (insn_faddz E insn s)"
  using assms
  by (auto simp: insn_fiadd_sub_def insn_fzchk_def insn_form_def insn_faddp_def insn_faddz_def
      put_result_ok pipe_G_ok graphics_result_ok Let_def split_beta intro!: holds_any)

section \<open>Z-buffer checks pixel by pixel\<close>

definition pixel :: "nat \<Rightarrow> nat \<Rightarrow> u64 \<Rightarrow> u64" where
  "pixel w i v = drop_bit (i * w) v AND mask w"

definition nearer :: "nat \<Rightarrow> nat \<Rightarrow> u64 \<Rightarrow> u64 \<Rightarrow> u64" where
  "nearer w i iv1 iv2 = min (pixel w i iv1) (pixel w i iv2)"

lemma bit_pixel_bound: "bit (nearer w i x y) m \<Longrightarrow> m < w"
  by (auto simp: nearer_def pixel_def min_def bit_simps split: if_splits)

lemma fzchk_pixel_eq:
  "fzchk_pixel w n x y i (r, pm) =
     (r OR push_bit (i * w) (nearer w i x y),
      if pixel w i y \<le> pixel w i x then pm OR push_bit (7 - (n - 1 - i)) 1
      else pm AND NOT (push_bit (7 - (n - 1 - i)) 1))"
  by (auto simp: fzchk_pixel_def nearer_def pixel_def Let_def min_def simp del: push_bit_and)

lemma fzchk_fold_result:
  "bit (fst (fold (fzchk_pixel w n x y) is a)) k \<longleftrightarrow>
     bit (fst a) k \<or> (\<exists>i \<in> set is. bit (push_bit (i * w) (nearer w i x y)) k)"
  by (induction "is" arbitrary: a) (auto simp: fzchk_pixel_eq bit_or_iff split_paired_all)

lemma fzchk_fold_mask:
  assumes "n \<le> 8" "\<forall>i \<in> set is. i < n" "distinct is"
  shows "bit (snd (fold (fzchk_pixel w n x y) is a)) k \<longleftrightarrow>
     (if k + n \<ge> 8 \<and> k + n - 8 \<in> set is then pixel w (k + n - 8) y \<le> pixel w (k + n - 8) x
      else bit (snd a) k)"
  using assms(2,3)
proof (induction "is" arbitrary: a)
  case (Cons i "is")
  have b: "7 - (n - 1 - i) = k \<longleftrightarrow> k + n \<ge> 8 \<and> k + n - 8 = i"
    using Cons.prems(1) assms(1) by auto
  have one: "bit (push_bit m 1 :: u32) k \<longleftrightarrow> m = k" if "m < 8" for m
    using that by (auto simp: bit_simps)
  have m: "7 - (n - 1 - i) < 8" by simp
  have "bit (snd (fzchk_pixel w n x y i a)) k \<longleftrightarrow>
      (if k + n \<ge> 8 \<and> k + n - 8 = i then pixel w i y \<le> pixel w i x else bit (snd a) k)"
    using one [OF m] b
    by (cases a; cases "k < 32") (auto simp: fzchk_pixel_eq bit_or_iff bit_and_iff bit_not_iff dest: bit_imp_le_length)
  with Cons show ?case by (simp add: not_le)
qed simp

lemma pixel_of_fold:
  assumes "\<forall>k. bit r k \<longleftrightarrow> (\<exists>i \<in> set is. bit (push_bit (i * w) (nearer w i x y)) k)" "j \<in> set is"
    and "(j + 1) * w \<le> 64"
  shows "pixel w j r = nearer w j x y"
proof (rule bit_word_eqI)
  fix m assume "m < LENGTH(64)"
  show "bit (pixel w j r) m \<longleftrightarrow> bit (nearer w j x y) m"
  proof (cases "m < w")
    case True
    have eq: "i = j" if "i * w \<le> j * w + m" "j * w + m - i * w < w" for i
    proof -
      have "j * w + m < (i + 1) * w" using that by simp
      then have "j * w < (i + 1) * w" by linarith
      then have "j < i + 1" by (simp only: mult_less_cancel2)
      have "i * w < (j + 1) * w" using that(1) True by simp
      then have "i < j + 1" by (simp only: mult_less_cancel2)
      with \<open>j < i + 1\<close> show ?thesis by simp
    qed
    have r: "bit (pixel w j r) m \<longleftrightarrow> bit r (j * w + m)"
      unfolding pixel_def bit_and_iff bit_drop_bit_eq bit_mask_iff
      using True \<open>m < LENGTH(64)\<close> by (simp add: possible_bit_def)
    have "j * w + m < 64" using True assms(3) by simp
    then have p: "bit (push_bit (i * w) (nearer w i x y)) (j * w + m) \<longleftrightarrow>
        i * w \<le> j * w + m \<and> bit (nearer w i x y) (j * w + m - i * w)" for i
      by (simp only: bit_push_bit_iff) (simp add: possible_bit_def)
    show ?thesis
    proof
      assume "bit (pixel w j r) m"
      then obtain i where i: "i * w \<le> j * w + m" "bit (nearer w i x y) (j * w + m - i * w)"
        using r p assms(1) by auto
      from eq [OF i(1) bit_pixel_bound [OF i(2)]] i(2) show "bit (nearer w j x y) m" by simp
    next
      assume "bit (nearer w j x y) m"
      then have "bit (push_bit (j * w) (nearer w j x y)) (j * w + m)" using p by simp
      then show "bit (pixel w j r) m" using r assms(1,2) by blast
    qed
  next
    case False
    then show ?thesis using bit_pixel_bound by (auto simp: pixel_def bit_simps)
  qed
qed

text \<open>The width and the number of the pixels of a check: 16 bits and four, or 32 bits and two.\<close>

definition zwidth :: "bool \<Rightarrow> nat" where "zwidth short = (if short then 16 else 32)"
definition zcount :: "bool \<Rightarrow> nat" where "zcount short = (if short then 4 else 2)"

lemma zpixels: "i \<in> set (if short then [3, 2, 1, 0] else [1, 0]) \<longleftrightarrow> i < zcount short"
proof (cases short)
  case True
  have "i < 4 \<longleftrightarrow> i = 3 \<or> i = 2 \<or> i = 1 \<or> i = 0" by arith
  with True show ?thesis by (simp add: zcount_def)
next
  case False
  have "i < 2 \<longleftrightarrow> i = 1 \<or> i = 0" by arith
  with False show ?thesis by (simp add: zcount_def)
qed

lemma fzchk_loop_pixels:
  assumes "fzchk_loop short x y pm = (r, pm')" "i < zcount short"
  shows "pixel (zwidth short) i r = nearer (zwidth short) i x y"
proof -
  let ?is = "if short then [3, 2, 1, 0] else [1, 0 :: nat]"
  let ?p0 = "if short then drop_bit 4 pm AND 0x0f else drop_bit 2 pm AND 0x3f"
  have l: "fzchk_loop short x y pm = fold (fzchk_pixel (zwidth short) (zcount short) x y) ?is (0, ?p0)"
    by (simp add: fzchk_loop_def zwidth_def zcount_def)
  have "\<forall>k. bit r k \<longleftrightarrow> (\<exists>i \<in> set ?is. bit (push_bit (i * zwidth short) (nearer (zwidth short) i x y)) k)"
    using fzchk_fold_result [of "zwidth short" "zcount short" x y ?is "(0, ?p0)"] assms(1) l by auto
  moreover have "(i + 1) * zwidth short \<le> 64"
    using assms(2) by (simp add: zwidth_def zcount_def split: if_splits)
  ultimately show ?thesis using pixel_of_fold zpixels assms(2) by blast
qed

lemma fzchk_loop_mask:
  assumes "fzchk_loop short x y pm = (r, pm')"
  shows "i < zcount short \<Longrightarrow> bit pm' (8 - zcount short + i) \<longleftrightarrow>
      pixel (zwidth short) i y \<le> pixel (zwidth short) i x"
    and "k < 8 - zcount short \<Longrightarrow> bit pm' k \<longleftrightarrow> bit pm (k + zcount short)"
proof -
  let ?is = "if short then [3, 2, 1, 0] else [1, 0 :: nat]"
  let ?p0 = "if short then drop_bit 4 pm AND 0x0f else drop_bit 2 pm AND 0x3f"
  have l: "fzchk_loop short x y pm = fold (fzchk_pixel (zwidth short) (zcount short) x y) ?is (0, ?p0)"
    by (simp add: fzchk_loop_def zwidth_def zcount_def)
  have n: "zcount short \<le> 8" by (simp add: zcount_def)
  have m: "bit pm' k \<longleftrightarrow>
      (if k + zcount short \<ge> 8 \<and> k + zcount short - 8 \<in> set ?is
       then pixel (zwidth short) (k + zcount short - 8) y \<le> pixel (zwidth short) (k + zcount short - 8) x
       else bit ?p0 k)" for k
  proof -
    have "\<forall>i \<in> set ?is. i < zcount short" using zpixels by blast
    moreover have "distinct ?is" by simp
    ultimately show ?thesis
      using fzchk_fold_mask [OF n, of ?is "zwidth short" x y "(0, ?p0)" k] assms l by simp
  qed
  show "i < zcount short \<Longrightarrow> bit pm' (8 - zcount short + i) \<longleftrightarrow>
      pixel (zwidth short) i y \<le> pixel (zwidth short) i x"
    using m [of "8 - zcount short + i"] n unfolding zpixels by simp
  have masks: "(0x0f :: u32) = mask 4" "(0x3f :: u32) = mask 6" by (simp_all add: mask_eq_exp_minus_1)
  show "k < 8 - zcount short \<Longrightarrow> bit pm' k \<longleftrightarrow> bit pm (k + zcount short)"
    using m [of k] unfolding zpixels masks
    by (cases short) (auto simp: zcount_def bit_simps ac_simps)
qed

lemma graphics_scalar:
  assumes "\<not> piped insn" "get_fdest insn > 1" "get_fdest insn < 31"
  shows "\<exists>s1. graphics_result insn r s = Inr s1 \<and> get_fregval_d (get_fdest insn) s1 = Inr r \<and>
    m_cregs s1 = m_cregs s \<and> m_merge s1 = m_merge s"
  using assms
  by (simp add: graphics_result_def set_fregval_d_def get_fregval_d_def arr_put_def arr_get_def)

section \<open>Properties of the graphics unit\<close>

text \<open>
  A scalar Z-buffer check leaves in every pixel of its destination the smaller of the two
  source pixels, shifts the pixel mask right by the number of pixels and enters at its top one bit
  per pixel, set exactly when the pixel of the second source is not the farther one.
\<close>

theorem zbuffer_check:
  assumes "\<not> piped insn" "get_fdest insn > 1" "get_fdest insn < 31"
    and "\<not> (trace_undefined E \<and> insn AND 0x180 \<noteq> 0x180)"
    and "get_fregval_d (get_fsrc1 insn) s = Inr z1" "get_fregval_d (get_fsrc2 insn) s = Inr z2"
    and "short = (insn AND 8 \<noteq> 0)"
  shows "\<exists>s1 r. insn_fzchk E insn s = Inr s1 \<and> get_fregval_d (get_fdest insn) s1 = Inr r \<and>
    (\<forall>i < zcount short. pixel (zwidth short) i r = nearer (zwidth short) i z1 z2 \<and>
       bit (GET_PSR_PM s1) (8 - zcount short + i) =
         (pixel (zwidth short) i z2 \<le> pixel (zwidth short) i z1)) \<and>
    (\<forall>k < 8 - zcount short. bit (GET_PSR_PM s1) k = bit (GET_PSR_PM s) (k + zcount short))"
proof -
  obtain r pm where l: "fzchk_loop short z1 z2 (GET_PSR_PM s) = (r, pm)" by fastforce
  let ?s = "(SET_PSR_PM pm s)\<lparr>m_merge := 0\<rparr>"
  obtain s1 where s1: "graphics_result insn r ?s = Inr s1" "get_fregval_d (get_fdest insn) s1 = Inr r"
    "m_cregs s1 = m_cregs ?s"
    using graphics_scalar [OF assms(1-3), of r ?s] by blast
  have run: "insn_fzchk E insn s = Inr s1"
    using assms(4-7) l s1(1) by (auto simp: insn_fzchk_def)
  have m8: "(0xff :: u32) = mask 8" by (simp add: mask_eq_exp_minus_1)
  have "GET_PSR_PM s1 = pm AND mask 8"
    unfolding GET_PSR_PM_def get_field_def s1(3) SET_PSR_PM_def set_field_def set_creg_def m8
    by (rule bit_word_eqI) (auto simp: bit_simps)
  then have "bit (GET_PSR_PM s1) k = bit pm k" if "k < 8" for k
    using that by (simp add: bit_simps)
  moreover have "8 - zcount short + i < 8" if "i < zcount short" for i
    using that by (simp add: zcount_def split: if_splits)
  ultimately show ?thesis
    using run s1(2) fzchk_loop_pixels [OF l] fzchk_loop_mask [OF l] by auto
qed

text \<open>For the witness: \<open>fzchks.dd f4,f6,f8\<close> on the values 5 and 3.\<close>

abbreviation "FZCHKS_F4_F6_F8 \<equiv> (0x48C821DF :: u32)"

definition z_cpu :: i860 where
  "z_cpu = i860_zero\<lparr>m_fregs := (\<lambda>_. 0)(4 := 5, 6 := 3)\<rparr>"

theorem zbuffer_check_witness:
  "\<exists>s1 r. insn_fzchk word_env FZCHKS_F4_F6_F8 z_cpu = Inr s1 \<and> get_fregval_d 8 s1 = Inr r \<and>
     pixel 16 0 r = 3 \<and> bit (GET_PSR_PM s1) 4"
proof -
  have f: "get_isrc1 FZCHKS_F4_F6_F8 = 4" "get_isrc2 FZCHKS_F4_F6_F8 = 6" "get_idest FZCHKS_F4_F6_F8 = 8"
    "\<not> piped FZCHKS_F4_F6_F8"
    by (simp_all add: get_isrc1_def get_isrc2_def get_idest_def piped_def)
  have v: "get_fregval_d 4 z_cpu = Inr 5" "get_fregval_d 6 z_cpu = Inr 3"
    by (simp_all add: get_fregval_d_def z_cpu_def dbl_def)
  have z: "zcount True = 4" "zwidth True = 16" "pixel 16 0 5 = 5" "pixel 16 0 3 = 3"
    by (simp_all add: zcount_def zwidth_def pixel_def mask_eq_exp_minus_1)
  obtain s1 r where "insn_fzchk word_env FZCHKS_F4_F6_F8 z_cpu = Inr s1" "get_fregval_d 8 s1 = Inr r"
    "\<forall>i < 4. pixel 16 i r = nearer 16 i 5 3 \<and> bit (GET_PSR_PM s1) (8 - 4 + i) = (pixel 16 i 3 \<le> pixel 16 i 5)"
    using zbuffer_check [of FZCHKS_F4_F6_F8 word_env z_cpu 5 3 True] by (auto simp: f v z(1,2))
  then show ?thesis by (auto simp: nearer_def z(3,4) dest!: spec [of _ 0])
qed

end
