(* ===== verification/I860_Branch.thy ===== *)
theory I860_Branch
  imports I860_Graphics
begin

text \<open>
  Trap entry and return (src/dimension/i860.cpp), external interrupts, and the control-flow
  instructions with their delay slots (src/dimension/i860dec.cpp). A delayed branch executes the
  instructions in its delay slot before it updates the program counter; the executor it uses is
  the argument \<open>ex\<close>, which the theory of the decoder instantiates with the decoder itself.
\<close>

section \<open>Traps and interrupts\<close>

definition handle_trap :: "u32 \<Rightarrow> i860 \<Rightarrow> i860" where
  "handle_trap savepc s =
     (let fir = (if flow TRAP_WAS_EXTERNAL s then (if GET_PC_UPDATED s then m_pc s else savepc + 4)
                 else if flow TRAP_IN_DELAY_SLOT s then savepc + 4
                 else savepc);
          s1 = or_flow FIR_GETS_TRAP (set_creg CR_FIR fir s);
          s2 = SET_PSR_PU (GET_PSR_U s1) s1;
          s3 = SET_PSR_PIM (GET_PSR_IM s2) s2;
          s4 = SET_PSR_DS 0 (SET_PSR_DIM 0 (SET_PSR_IM 0 (SET_PSR_U 0 s3)))
      in s4\<lparr>m_save_flow := m_flow s4 AND DIM_OP, m_save_dim := m_dim s4,
            m_save_cc := m_dim_cc s4, m_save_cc_valid := m_dim_cc_valid s4,
            m_dim := DIM_NONE, m_dim_cc := False, m_dim_cc_valid := False,
            m_pc := 0xffffff00\<rparr>)"

definition ret_from_trap :: "i860 \<Rightarrow> i860" where
  "ret_from_trap s =
     (let s1 = clear_flow FIR_GETS_TRAP
                 ((or_flow (m_save_flow s AND NOT DIM_OP) s)\<lparr>m_dim := m_save_dim s\<rparr>)
      in s1\<lparr>m_dim_cc := m_save_cc s1, m_dim_cc_valid := m_save_cc_valid s1\<rparr>)"

definition intr :: "i860 \<Rightarrow> i860" where
  "intr s = or_flow EXT_INTR s"

definition gen_interrupt :: "i860 \<Rightarrow> i860" where
  "gen_interrupt s =
     SET_EPSR_INT 1 (if GET_PSR_IM s \<noteq> 0 then or_flow TRAP_WAS_EXTERNAL (SET_PSR_IN 1 s) else s)"

definition clr_interrupt :: "i860 \<Rightarrow> i860" where
  "clr_interrupt s = SET_EPSR_INT 0 s"

section \<open>Branches without a delay slot\<close>

definition sbr_target :: "u32 \<Rightarrow> i860 \<Rightarrow> u32" where
  "sbr_target insn s = m_pc s + 4 + push_bit 2 (split_imm insn)"

definition lbr_target :: "u32 \<Rightarrow> i860 \<Rightarrow> u32" where
  "lbr_target insn s = m_pc s + 4 + push_bit 2 (sign_ext (insn AND 0x03ffffff) 26)"

definition branch_to :: "u32 \<Rightarrow> i860 \<Rightarrow> i860" where
  "branch_to target s = SET_PC_UPDATED (set_pc target s)"

definition insn_bte :: insn where
  "insn_bte E insn s =
     (let res = (iregval s (get_isrc1 insn) = iregval s (get_isrc2 insn))
      in Inr (branch_to (if res then sbr_target insn s else m_pc s + 4) s))"

definition insn_bte_imm :: insn where
  "insn_bte_imm E insn s =
     (let src1val = drop_bit 11 insn AND 0x1f; res = (src1val = iregval s (get_isrc2 insn))
      in Inr (branch_to (if res then sbr_target insn s else m_pc s + 4) s))"

definition insn_btne :: insn where
  "insn_btne E insn s =
     (let res = (iregval s (get_isrc1 insn) \<noteq> iregval s (get_isrc2 insn))
      in Inr (branch_to (if res then sbr_target insn s else m_pc s + 4) s))"

definition insn_btne_imm :: insn where
  "insn_btne_imm E insn s =
     (let src1val = drop_bit 11 insn AND 0x1f; res = (src1val \<noteq> iregval s (get_isrc2 insn))
      in Inr (branch_to (if res then sbr_target insn s else m_pc s + 4) s))"

definition insn_bc :: insn where
  "insn_bc E insn s =
     (let res = (if m_dim_cc_valid s then m_dim_cc s else GET_PSR_CC s = 1)
      in Inr (branch_to (if res then lbr_target insn s else m_pc s + 4) s))"

definition insn_bnc :: insn where
  "insn_bnc E insn s =
     (let res = (if m_dim_cc_valid s then \<not> m_dim_cc s else GET_PSR_CC s = 0)
      in Inr (branch_to (if res then lbr_target insn s else m_pc s + 4) s))"

section \<open>Delayed branches\<close>

type_synonym executor = "u32 \<Rightarrow> i860 \<Rightarrow> i860 res"

definition DELAY_SLOT_PC :: "i860 \<Rightarrow> u32" where
  "DELAY_SLOT_PC s = (if m_dim s = DIM_FULL then 12 else 8)"

definition exec_at :: "executor \<Rightarrow> u32 \<Rightarrow> i860 \<Rightarrow> i860 res" where
  "exec_at ex pc s = bnd (ifetch pc (set_pc (m_pc s + 4) s)) (\<lambda>(i, s1). ex i s1)"

definition DELAY_SLOT :: "executor \<Rightarrow> u32 \<Rightarrow> i860 \<Rightarrow> i860 res" where
  "DELAY_SLOT ex orig_pc s =
     bnd (exec_at ex (orig_pc + 4) s) (\<lambda>s1.
     bnd (if m_dim s1 = DIM_FULL \<or> flow DIM_OP s1 then exec_at ex (orig_pc + 8) s1 else Inr s1)
       (\<lambda>s2. Inr (set_pc orig_pc s2)))"

text \<open>After the delay slot: abort on a trap, otherwise go on with \<open>k\<close>.\<close>

definition after_slot :: "executor \<Rightarrow> u32 \<Rightarrow> i860 \<Rightarrow> (i860 \<Rightarrow> i860) \<Rightarrow> (i860 \<Rightarrow> i860) \<Rightarrow> i860 res" where
  "after_slot ex orig_pc s undo k =
     bnd (DELAY_SLOT ex orig_pc s) (\<lambda>s1.
       Inr (if PENDING_TRAP s1 then or_flow TRAP_IN_DELAY_SLOT (undo s1) else k s1))"

definition delayed_cond :: "executor \<Rightarrow> bool \<Rightarrow> u32 \<Rightarrow> i860 \<Rightarrow> i860 res" where
  "delayed_cond ex res insn s =
     (let target = lbr_target insn s
      in if res then after_slot ex (m_pc s) s (\<lambda>s. s) (branch_to target)
         else Inr (branch_to (m_pc s + DELAY_SLOT_PC s) s))"

definition insn_bct :: "executor \<Rightarrow> insn" where
  "insn_bct ex E insn s = delayed_cond ex (GET_PSR_CC s = 1) insn s"

definition insn_bnct :: "executor \<Rightarrow> insn" where
  "insn_bnct ex E insn s = delayed_cond ex (GET_PSR_CC s = 0) insn s"

definition insn_call :: "executor \<Rightarrow> insn" where
  "insn_call ex E insn s =
     (let orig_pc = m_pc s; target = lbr_target insn s
      in after_slot ex orig_pc s (\<lambda>s. s)
           (\<lambda>s1. branch_to target (set_iregval 1 (orig_pc + DELAY_SLOT_PC s1) s1)))"

definition insn_br :: "executor \<Rightarrow> insn" where
  "insn_br ex E insn s = after_slot ex (m_pc s) s (\<lambda>s. s) (branch_to (lbr_target insn s))"

definition insn_bri :: "executor \<Rightarrow> insn" where
  "insn_bri ex E insn s =
     (let orig_pc = m_pc s;
          orig_psr = m_cregs s CR_PSR;
          orig_src1_val = iregval s (get_isrc1 insn);
          s1 = set_creg CR_PSR (orig_psr AND NOT PSR_ALL_TRAP_BITS_MASK) s
      in if m_dim s1 \<noteq> DIM_NONE \<and> PENDING_TRAP s1 then Inr s1
         else
           after_slot ex orig_pc s1 (\<lambda>s. s) (\<lambda>s2.
             branch_to orig_src1_val
               (if orig_psr AND PSR_ALL_TRAP_BITS_MASK \<noteq> 0 then
                  (let s3 = SET_PSR_U (GET_PSR_PU s2) s2
                   in ret_from_trap (SET_PSR_IM (GET_PSR_PIM s3) s3))
                else s2)))"

definition insn_calli :: "executor \<Rightarrow> insn" where
  "insn_calli ex E insn s =
     (let orig_pc = m_pc s;
          orig_src1_val = iregval s (get_isrc1 insn);
          s1 = set_iregval 1 (m_pc s + DELAY_SLOT_PC s) s
      in after_slot ex orig_pc s1 (set_iregval 1 orig_src1_val) (branch_to orig_src1_val))"

definition insn_bla :: "executor \<Rightarrow> insn" where
  "insn_bla ex E insn s =
     (let isrc1 = get_isrc1 insn; isrc2 = get_isrc2 insn; orig_pc = m_pc s;
          target = sbr_target insn s;
          lcc_tmp = (sint (iregval s isrc2) \<ge> sint (- iregval s isrc1));
          s1 = set_iregval isrc2 (iregval s isrc1 + iregval s isrc2) s
      in if trace_undefined E \<and> isrc1 = isrc2 then Inr s
         else
           after_slot ex orig_pc s1 (\<lambda>s. s) (\<lambda>s2.
             SET_PC_UPDATED (SET_PSR_LCC (of_bool lcc_tmp)
               (set_pc (if GET_PSR_LCC s2 \<noteq> 0 then target else m_pc s2 + DELAY_SLOT_PC s2) s2))))"

section \<open>The invariant is kept\<close>

lemma cpu_ok_trap [simp]:
  "cpu_ok (handle_trap pc s) = cpu_ok s"
  "cpu_ok (ret_from_trap s) = cpu_ok s"
  "cpu_ok (intr s) = cpu_ok s"
  "cpu_ok (gen_interrupt s) = cpu_ok s"
  "cpu_ok (clr_interrupt s) = cpu_ok s"
  "cpu_ok (branch_to t s) = cpu_ok s"
  by (simp_all add: handle_trap_def ret_from_trap_def intr_def gen_interrupt_def
      clr_interrupt_def branch_to_def Let_def cpu_ok_set_creg)

lemma simple_branches_ok:
  assumes "cpu_ok s"
  shows "holds cpu_ok (insn_bte E insn s)" "holds cpu_ok (insn_bte_imm E insn s)"
    "holds cpu_ok (insn_btne E insn s)" "holds cpu_ok (insn_btne_imm E insn s)"
    "holds cpu_ok (insn_bc E insn s)" "holds cpu_ok (insn_bnc E insn s)"
  using assms
  by (simp_all add: insn_bte_def insn_bte_imm_def insn_btne_def insn_btne_imm_def insn_bc_def
      insn_bnc_def Let_def)

text \<open>
  What a delayed branch needs from the executor of its delay slot: it keeps the invariant.
\<close>

locale slot_executor =
  fixes ex :: executor
  assumes keeps: "cpu_ok s \<Longrightarrow> holds cpu_ok (ex i s)"
begin

lemma exec_at_ok: "cpu_ok s \<Longrightarrow> holds cpu_ok (exec_at ex pc s)"
  unfolding exec_at_def by (auto simp: keeps intro!: ok_result_bnd [OF ifetch_ok])

lemma DELAY_SLOT_ok: "cpu_ok s \<Longrightarrow> holds cpu_ok (DELAY_SLOT ex pc s)"
  unfolding DELAY_SLOT_def
  by (rule ok_bnd [OF exec_at_ok], simp, rule ok_bnd) (auto intro: exec_at_ok)

lemma after_slot_ok:
  assumes "cpu_ok s" "\<And>s. cpu_ok s \<Longrightarrow> cpu_ok (undo s)" "\<And>s. cpu_ok s \<Longrightarrow> cpu_ok (k s)"
  shows "holds cpu_ok (after_slot ex pc s undo k)"
  unfolding after_slot_def by (rule ok_bnd [OF DELAY_SLOT_ok]) (use assms in auto)

lemma delayed_branches_ok:
  assumes "cpu_ok s"
  shows "holds cpu_ok (insn_bct ex E insn s)" "holds cpu_ok (insn_bnct ex E insn s)"
    "holds cpu_ok (insn_call ex E insn s)" "holds cpu_ok (insn_br ex E insn s)"
    "holds cpu_ok (insn_bri ex E insn s)" "holds cpu_ok (insn_calli ex E insn s)"
    "holds cpu_ok (insn_bla ex E insn s)"
  using assms
  by (auto simp: insn_bct_def insn_bnct_def insn_call_def insn_br_def insn_bri_def insn_calli_def
      insn_bla_def delayed_cond_def Let_def cpu_ok_set_creg intro!: after_slot_ok)

end

section \<open>Traps and the fault instruction register\<close>

text \<open>The address the code resumes at after a trap taken at \<open>savepc\<close>.\<close>

definition resume_addr :: "u32 \<Rightarrow> i860 \<Rightarrow> u32" where
  "resume_addr savepc s =
     (if flow TRAP_WAS_EXTERNAL s then (if GET_PC_UPDATED s then m_pc s else savepc + 4)
      else if flow TRAP_IN_DELAY_SLOT s then savepc + 4 else savepc)"

lemma flow_frame [simp]:
  "flow f (set_field c m l v s) = flow f s" "flow f (set_creg c v s) = flow f s"
  "flow f (set_iregval g v s) = flow f s"
  by (simp_all add: flow_def set_field_def set_creg_def set_iregval_def)

lemma flow_clear [simp]: "\<not> flow f (clear_flow f s)"
  by (simp add: flow_def clear_flow_def and.assoc)

lemma creg_frame [simp]:
  "c' \<noteq> c \<Longrightarrow> m_cregs (set_field c' m l v s) c = m_cregs s c"
  "m_cregs (or_flow f s) = m_cregs s" "m_cregs (clear_flow f s) = m_cregs s"
  "m_cregs (set_creg c v s) c = v"
  "m_cregs (set_iregval g v s) = m_cregs s"
  by (simp_all add: set_field_def set_creg_def or_flow_def clear_flow_def set_iregval_def)

lemma trap_fir: "m_cregs (handle_trap pc s) CR_FIR = resume_addr pc s"
  by (simp add: handle_trap_def Let_def resume_addr_def SET_PSR_PU_def SET_PSR_PIM_def SET_PSR_U_def
      SET_PSR_IM_def SET_PSR_DIM_def SET_PSR_DS_def)

lemma trap_flow: "flow FIR_GETS_TRAP (handle_trap pc s)"
proof -
  have "m_flow (handle_trap pc s) = m_flow s OR FIR_GETS_TRAP"
    by (simp add: handle_trap_def Let_def SET_PSR_PU_def SET_PSR_PIM_def SET_PSR_U_def
      SET_PSR_IM_def SET_PSR_DIM_def SET_PSR_DS_def or_flow_def set_creg_def)
  then show ?thesis using flow_or_flow [of FIR_GETS_TRAP FIR_GETS_TRAP s]
    by (simp add: flow_def or_flow_def)
qed

lemma trap_psr:
  "GET_PSR_U (handle_trap pc s) = 0" "GET_PSR_IM (handle_trap pc s) = 0"
  "GET_PSR_PU (handle_trap pc s) = GET_PSR_U s" "GET_PSR_PIM (handle_trap pc s) = GET_PSR_IM s"
  "GET_PSR_IT (handle_trap pc s) = GET_PSR_IT s"
proof -
  have f: "get_field c m l (t\<lparr>m_save_flow := a1, m_save_dim := a2, m_save_cc := a3, m_save_cc_valid := a4,
      m_dim := a5, m_dim_cc := a6, m_dim_cc_valid := a7, m_pc := a8\<rparr>) = get_field c m l t"
    for c m l t a1 a2 a3 a4 a5 a6 a7 a8
    by (simp add: get_field_def)
  have i: "get_field c 1 l s AND 1 = get_field c 1 l s" for c l s
    by (simp add: get_field_def and.assoc)
  show "GET_PSR_U (handle_trap pc s) = 0" "GET_PSR_IM (handle_trap pc s) = 0"
    "GET_PSR_PU (handle_trap pc s) = GET_PSR_U s" "GET_PSR_PIM (handle_trap pc s) = GET_PSR_IM s"
    "GET_PSR_IT (handle_trap pc s) = GET_PSR_IT s"
    by (simp_all add: handle_trap_def Let_def f get_macro_defs set_macro_defs get_field_set_other i)
qed

lemma trap_saves:
  "m_save_dim (handle_trap pc s) = m_dim s" "m_save_cc (handle_trap pc s) = m_dim_cc s"
  "m_save_cc_valid (handle_trap pc s) = m_dim_cc_valid s" "m_dim (handle_trap pc s) = DIM_NONE"
  "m_pc (handle_trap pc s) = 0xffffff00"
  by (simp_all add: handle_trap_def Let_def SET_PSR_PU_def SET_PSR_PIM_def SET_PSR_U_def
      SET_PSR_IM_def SET_PSR_DIM_def SET_PSR_DS_def or_flow_def set_creg_def)

lemma saved_flow: "m_save_flow (handle_trap pc s) = m_flow s AND DIM_OP"
  by (simp add: handle_trap_def Let_def SET_PSR_PU_def SET_PSR_PIM_def SET_PSR_U_def SET_PSR_IM_def SET_PSR_DIM_def
      SET_PSR_DS_def or_flow_def set_creg_def set_field_def bit.conj_disj_distrib2)

section \<open>Properties of traps and branches\<close>

text \<open>
  C23. A trap enters supervisor mode at the trap vector with interrupts and dual-instruction mode
  off, and the handler can find where to resume exactly once: the first load of FIR delivers the
  address of the faulting instruction (the one after it for external interrupts and
  delay-slot traps), a second one delivers the address of the load itself.
\<close>

theorem trap_entry_and_fir:
  assumes "get_creg insn = CR_FIR" "get_idest insn \<noteq> 0"
  shows "m_pc (handle_trap pc s) = 0xffffff00 \<and> m_dim (handle_trap pc s) = DIM_NONE \<and>
    GET_PSR_U (handle_trap pc s) = 0 \<and> GET_PSR_IM (handle_trap pc s) = 0 \<and>
    GET_PSR_PU (handle_trap pc s) = GET_PSR_U s \<and> GET_PSR_PIM (handle_trap pc s) = GET_PSR_IM s \<and>
    (\<exists>s1 s2. insn_ld_ctrl E insn (handle_trap pc s) = Inr s1 \<and>
       m_iregs s1 (get_idest insn) = resume_addr pc s \<and>
       insn_ld_ctrl E insn s1 = Inr s2 \<and> m_iregs s2 (get_idest insn) = m_pc s1)"
  using assms
  by (simp add: trap_psr trap_saves insn_ld_ctrl_def Let_def trap_flow trap_fir)
    (simp add: clear_flow_def set_iregval_def set_creg_def)

text \<open>\<open>ld.c fir,r6\<close>.\<close>

abbreviation "LD_C_FIR_R6 \<equiv> (0x30060000 :: u32)"

theorem trap_entry_and_fir_witness:
  "\<exists>s1 s2. insn_ld_ctrl word_env LD_C_FIR_R6 (handle_trap 0xF8000100 i860_zero) = Inr s1 \<and>
     m_iregs s1 6 = 0xF8000100 \<and> insn_ld_ctrl word_env LD_C_FIR_R6 s1 = Inr s2 \<and> m_iregs s2 6 = m_pc s1"
proof -
  have "get_creg LD_C_FIR_R6 = 0" "get_idest LD_C_FIR_R6 = 6"
    by (simp_all add: get_creg_def get_idest_def)
  moreover have "resume_addr 0xF8000100 i860_zero = 0xF8000100"
    by (simp add: resume_addr_def flow_def i860_zero_def)
  ultimately show ?thesis
    using trap_entry_and_fir [of LD_C_FIR_R6 "0xF8000100" i860_zero word_env] by simp
qed

lemma branch_frame [simp]:
  "m_pc (branch_to t s) = t" "GET_PC_UPDATED (branch_to t s)"
  "get_field c m l (branch_to t s) = get_field c m l s"
  "m_dim (branch_to t s) = m_dim s" "m_dim_cc (branch_to t s) = m_dim_cc s"
  "m_dim_cc_valid (branch_to t s) = m_dim_cc_valid s"
  by (simp_all add: branch_to_def SET_PC_UPDATED_def GET_PC_UPDATED_def flow_or_flow)
    (simp_all add: or_flow_def set_pc_def)

lemma ret_frame [simp]:
  "get_field c m l (ret_from_trap s) = get_field c m l s"
  "m_dim (ret_from_trap s) = m_save_dim s" "m_dim_cc (ret_from_trap s) = m_save_cc s"
  "m_dim_cc_valid (ret_from_trap s) = m_save_cc_valid s"
  by (simp_all add: ret_from_trap_def Let_def get_field_def clear_flow_def or_flow_def)

lemma save_frame [simp]:
  "m_save_dim (set_field c m l v s) = m_save_dim s" "m_save_cc (set_field c m l v s) = m_save_cc s"
  "m_save_cc_valid (set_field c m l v s) = m_save_cc_valid s"
  by (simp_all add: set_field_def set_creg_def)

text \<open>
  Return from a trap at the level of the instruction: \<open>bri\<close> brings back what the entry saved.
\<close>

lemma trap_return_insn:
  assumes "m_dim u = DIM_NONE" "m_cregs u CR_PSR AND PSR_ALL_TRAP_BITS_MASK \<noteq> 0"
    and "DELAY_SLOT ex (m_pc u) (set_creg CR_PSR (m_cregs u CR_PSR AND NOT PSR_ALL_TRAP_BITS_MASK) u) = Inr v"
    and "\<not> PENDING_TRAP v"
    and "GET_PSR_PU v = GET_PSR_PU (handle_trap pc s)" "GET_PSR_PIM v = GET_PSR_PIM (handle_trap pc s)"
    and "m_save_dim v = m_save_dim (handle_trap pc s)" "m_save_cc v = m_save_cc (handle_trap pc s)"
    and "m_save_cc_valid v = m_save_cc_valid (handle_trap pc s)"
  shows "\<exists>w. insn_bri ex E insn u = Inr w \<and> m_pc w = iregval u (get_isrc1 insn) \<and> GET_PC_UPDATED w \<and>
    GET_PSR_U w = GET_PSR_U s \<and> GET_PSR_IM w = GET_PSR_IM s \<and> m_dim w = m_dim s \<and>
    m_dim_cc w = m_dim_cc s \<and> m_dim_cc_valid w = m_dim_cc_valid s \<and>
    m_flow w = ((m_flow v OR (m_save_flow v AND NOT DIM_OP)) AND NOT FIR_GETS_TRAP) OR PC_UPDATED"
proof -
  have i: "get_field c 1 l t AND 1 = get_field c 1 l t" for c l t
    by (simp add: get_field_def and.assoc)
  have d: "m_dim (set_creg c x u) = DIM_NONE" for c x using assms(1) by (simp add: set_creg_def)
  have f: "m_flow (branch_to a (ret_from_trap (set_field c1 m1 l1 x1 (set_field c2 m2 l2 x2 t)))) =
      ((m_flow t OR (m_save_flow t AND NOT DIM_OP)) AND NOT FIR_GETS_TRAP) OR PC_UPDATED" for a c1 m1 l1 x1 c2 m2 l2 x2 t
    by (simp add: branch_to_def ret_from_trap_def SET_PC_UPDATED_def or_flow_def clear_flow_def set_field_def set_creg_def
        set_pc_def Let_def)
  show ?thesis
    using assms(2-9)
    by (simp add: insn_bri_def Let_def d after_slot_def trap_psr trap_saves)
      (simp add: get_macro_defs set_macro_defs get_field_set_other i f)
qed

text \<open>For the witnesses: an idle executor, and a user program in dual-instruction mode with a cached trap vector.\<close>

definition idle :: executor where "idle i s = Inr s"

lemma idle_slot:
  assumes "m_icache_vaddr s (icache_index ((pc + 4) AND NOT 7)) = (pc + 4) AND NOT 7"
    "m_dim s \<noteq> DIM_FULL" "\<not> flow DIM_OP s"
  shows "DELAY_SLOT idle pc s = Inr (set_pc pc s)"
  using assms
  by (simp add: DELAY_SLOT_def exec_at_def ifetch_def ifetch64_def set_pc_def idle_def Let_def flow_def)

definition user_cpu :: i860 where
  "user_cpu = set_creg CR_PSR 0x150
     (i860_zero\<lparr>m_icache_vaddr := (\<lambda>_. 0xFFFFFF00), m_dim := DIM_FULL, m_dim_cc := True\<rparr>)"

lemma trap_frame:
  "m_icache_vaddr (handle_trap pc s) = m_icache_vaddr s"
  "m_flow (handle_trap pc s) = m_flow s OR FIR_GETS_TRAP" "m_iregs (handle_trap pc s) = m_iregs s"
  by (simp_all add: handle_trap_def Let_def SET_PSR_PU_def SET_PSR_PIM_def SET_PSR_U_def
      SET_PSR_IM_def SET_PSR_DIM_def SET_PSR_DS_def or_flow_def set_creg_def set_field_def)

lemma user_cpu_simps:
  "m_icache_vaddr user_cpu i = 0xFFFFFF00" "m_flow user_cpu = 0" "m_dim user_cpu = DIM_FULL"
  "m_dim_cc user_cpu" "\<not> m_dim_cc_valid user_cpu" "m_iregs user_cpu g = 0"
  "get_field CR_PSR m l user_cpu = drop_bit l 0x150 AND m"
  by (simp_all add: user_cpu_def set_creg_def i860_zero_def get_field_def)

lemma trap_bits: "get_field CR_PSR 1 8 s \<noteq> 0 \<Longrightarrow> m_cregs s CR_PSR AND PSR_ALL_TRAP_BITS_MASK \<noteq> 0"
proof
  assume b: "get_field CR_PSR 1 8 s \<noteq> 0" and z: "m_cregs s CR_PSR AND PSR_ALL_TRAP_BITS_MASK = 0"
  have "m_cregs s CR_PSR AND 0x100 = (m_cregs s CR_PSR AND PSR_ALL_TRAP_BITS_MASK) AND 0x100"
    by (simp add: and.assoc)
  with b z show False by (simp add: get_field_via_mask)
qed

text \<open>The comparison of bla is the sign of the sum.\<close>

lemma sint_word_of_int_fits: "fits_int32 k \<Longrightarrow> sint (word_of_int k :: u32) = k"
  by (simp add: fits_int32_def sint_uint unsigned_of_int signed_take_bit_take_bit signed_take_bit_int_eq_self)

lemma bla_compare:
  assumes "sint a \<noteq> - 0x80000000" "fits_int32 (sint a + sint b)"
  shows "sint b \<ge> sint (- a) \<longleftrightarrow> 0 \<le> sint (a + b :: u32)"
proof -
  have a: "- 0x80000000 \<le> sint a" "sint a < 0x80000000" using sint_range [of a] by simp_all
  have "- a = word_of_int (- sint a)" by simp
  also have "sint \<dots> = - sint a"
    by (rule sint_word_of_int_fits) (use a assms(1) in \<open>simp add: fits_int32_def\<close>)
  finally have n: "sint (- a) = - sint a" .
  have "a + b = word_of_int (sint a + sint b)" by simp
  then have "sint (a + b) = sint a + sint b" using sint_word_of_int_fits [OF assms(2)] by metis
  with n show ?thesis by linarith
qed

text \<open>
  bla is a counted-loop branch: when its delay slot runs without a trap, it adds the first
  source to the second, branches if LCC was set by an earlier bla and falls through behind the
  delay slot otherwise, and sets LCC exactly when the sum is not negative (for a sum
  that fits a signed word and a step other than the least integer).
\<close>

theorem bla_counts:
  assumes "a = iregval s (get_isrc1 insn)" "b = iregval s (get_isrc2 insn)"
    and "get_isrc1 insn \<noteq> get_isrc2 insn" "sint a \<noteq> - 0x80000000" "fits_int32 (sint a + sint b)"
    and "DELAY_SLOT ex (m_pc s) (set_iregval (get_isrc2 insn) (a + b) s) = Inr s1" "\<not> PENDING_TRAP s1"
  shows "\<exists>s2. insn_bla ex E insn s = Inr s2 \<and> GET_PC_UPDATED s2 \<and>
    m_pc s2 = (if GET_PSR_LCC s1 \<noteq> 0 then sbr_target insn s else m_pc s1 + DELAY_SLOT_PC s1) \<and>
    GET_PSR_LCC s2 = of_bool (0 \<le> sint (a + b))"
proof -
  have pc: "m_pc (SET_PC_UPDATED t) = m_pc t" "GET_PC_UPDATED (SET_PC_UPDATED t)"
    "get_field c m l (SET_PC_UPDATED t) = get_field c m l t" for t c m l
    by (simp_all add: SET_PC_UPDATED_def GET_PC_UPDATED_def flow_or_flow) (simp add: or_flow_def)
  have lcc: "(sint b \<ge> sint (- a)) = (0 \<le> sint (a + b))" using bla_compare [OF assms(4,5)] .
  show ?thesis
    using assms(3,6,7) lcc
    by (simp add: insn_bla_def Let_def after_slot_def assms(1,2) pc SET_PSR_LCC_def GET_PSR_LCC_def)
      (simp add: set_pc_def)
qed

text \<open>\<open>bla r4,r5,.\<close>.\<close>

abbreviation "BLA_R4_R5 \<equiv> (0xB4BF27FE :: u32)"

definition loop_cpu :: i860 where
  "loop_cpu = (two_regs 0xFFFFFFFF 5)\<lparr>m_pc := 0xF8000000, m_icache_vaddr := (\<lambda>_. 0xF8000000)\<rparr>"

theorem bla_counts_witness:
  "\<exists>s2. insn_bla idle word_env BLA_R4_R5 loop_cpu = Inr s2 \<and> GET_PSR_LCC s2 = 1 \<and> m_pc s2 = 0xF8000008"
proof -
  have f: "get_isrc1 BLA_R4_R5 = 4" "get_isrc2 BLA_R4_R5 = 5"
    by (simp_all add: get_isrc1_def get_isrc2_def)
  let ?s = "set_iregval 5 4 loop_cpu"
  have wrap: "(0x100000004 :: u32) = 4" by simp
  have s: "m_pc loop_cpu = 0xF8000000" "iregval loop_cpu 4 = 0xFFFFFFFF" "iregval loop_cpu 5 = 5"
    "m_icache_vaddr ?s i = 0xF8000000" "m_dim ?s = DIM_NONE" "m_flow ?s = 0" "m_cregs ?s c = 0" for i c
    by (simp_all add: loop_cpu_def two_regs_def i860_zero_def set_iregval_def)
  have slot: "DELAY_SLOT idle 0xF8000000 ?s = Inr (set_pc 0xF8000000 ?s)"
    by (rule idle_slot) (simp_all add: s flow_def)
  have "\<not> PENDING_TRAP (set_pc p ?s)" "DELAY_SLOT_PC (set_pc p ?s) = 8" "GET_PSR_LCC (set_pc p ?s) = 0"
    "m_pc (set_pc p ?s) = p" for p
    using s by (simp_all add: PENDING_TRAP_def flow_def DELAY_SLOT_PC_def GET_PSR_LCC_def set_pc_def get_field_def)
  then show ?thesis
    using bla_counts [of "0xFFFFFFFF" loop_cpu BLA_R4_R5 5 idle "set_pc 0xF8000000 ?s" word_env] slot
    by (auto simp: f s fits_int32_def wrap)
qed

text \<open>
  In dual-instruction mode a floating-point compare does not disturb the branch it is paired
  with: a non-delayed conditional branch after the compare still decides by the condition
  before it, while CC holds the new result, and the core additions of the pair cannot
  change that.
\<close>

theorem dual_compare_spares_branch:
  assumes "m_dim s \<noteq> DIM_NONE" "insn_fcmp E i s = Inr s1" "fcmp_cc E i s = Inr cc"
  shows "GET_PSR_CC s1 = of_bool cc \<and>
    insn_bc E j s1 = Inr (branch_to (if GET_PSR_CC s \<noteq> 0 then lbr_target j s1 else m_pc s1 + 4) s1) \<and>
    (\<exists>s2. insn_addu E k s1 = Inr s2 \<and> GET_PSR_CC s2 = GET_PSR_CC s1)"
proof -
  have "fcmp_cc E i (s\<lparr>m_dim_cc := x, m_dim_cc_valid := y\<rparr>) = fcmp_cc E i s" for x y
    by (simp add: fcmp_cc_def get_fregval_d_def get_fregval_s_def Let_def)
  then obtain s0 where p: "pipe_A (get_fdest i) (if src_prec i then Dbl 0 else Sgl 0) s0 = Inr s1"
    and s0: "s0 = SET_PSR_CC_F (of_bool cc)
      (s\<lparr>m_dim_cc := (GET_PSR_CC s \<noteq> 0), m_dim_cc_valid := (m_dim s \<noteq> DIM_NONE)\<rparr>)"
    using assms(2,3) by (auto simp: insn_fcmp_def Let_def)
  have k: "m_dim_cc s1 = m_dim_cc s0" "m_dim_cc_valid s1 = m_dim_cc_valid s0" "get_field CR_PSR m lo s1 = get_field CR_PSR m lo s0"
    for m lo
    using pipe_A_keeps [OF p] by simp_all
  show ?thesis
    using assms(1) by (simp add: insn_bc_def k s0 SET_PSR_CC_F_def insn_addu_def addu_op_def Let_def
      set_cc_of_def SET_PSR_CC_def GET_PSR_CC_def SET_EPSR_OF_def get_field_set_other)
qed

text \<open>\<open>pfgt.ss f4,f5,f6\<close>.\<close>

abbreviation "PFGT_F4_F5_F6 \<equiv> (0x48A62434 :: u32)"

theorem dual_compare_spares_branch_witness:
  "\<exists>s1. insn_fcmp word_env PFGT_F4_F5_F6 ((float_cpu 30 12)\<lparr>m_dim := DIM_FULL\<rparr>) = Inr s1 \<and>
     GET_PSR_CC s1 = 1 \<and> insn_bc word_env 0 s1 = Inr (branch_to (m_pc s1 + 4) s1)"
proof -
  let ?s = "(float_cpu 30 12)\<lparr>m_dim := DIM_FULL\<rparr>"
  have f: "get_isrc1 PFGT_F4_F5_F6 = 4" "get_isrc2 PFGT_F4_F5_F6 = 5" "\<not> src_prec PFGT_F4_F5_F6"
    by (simp_all add: get_isrc1_def get_isrc2_def src_prec_def)
  have cc: "fcmp_cc word_env PFGT_F4_F5_F6 s = Inr (float32_gt word_env (get_fregval_s 4 s) (get_fregval_s 5 s))" for s
    by (simp add: fcmp_cc_def f Let_def)
  have "float32_gt word_env (get_fregval_s 4 ?s) (get_fregval_s 5 ?s)" "m_dim ?s \<noteq> DIM_NONE"
    "GET_PSR_CC ?s = 0"
    by (simp_all add: word_env_def float_cpu_def get_fregval_s_def i860_zero_def GET_PSR_CC_def get_field_def)
  moreover obtain s1 where "insn_fcmp word_env PFGT_F4_F5_F6 ?s = Inr s1"
  proof -
    have "\<exists>s1. pipe_A d r s = Inr s1" if "\<not> st_prec (m_A s 2)" for d r s
      using that by (simp add: pipe_A_def put_stage_def)
    moreover have "\<not> st_prec (m_A (SET_PSR_CC_F c (?s\<lparr>m_dim_cc := x, m_dim_cc_valid := y\<rparr>)) 2)" for c x y
      by (simp add: SET_PSR_CC_F_def set_field_def set_creg_def float_cpu_def i860_zero_def stage_zero_def)
    ultimately show ?thesis using that by (fastforce simp: insn_fcmp_def cc Let_def)
  qed
  ultimately show ?thesis
    using dual_compare_spares_branch [of ?s word_env PFGT_F4_F5_F6 _ True 0] cc by auto
qed

end
