(* ===== verification/I860_Exec.thy ===== *)
theory I860_Exec
  imports I860_Branch "HOL-Library.Signed_Division"
begin

text \<open>
  The decoder with its tables, the machine cycle, reset, the message handler and the driver of the
  i860 (src/dimension/i860dec.cpp and i860.cpp). The decoder recurses on the host stack through
  the delay slots of delayed branches; its first argument bounds that recursion, and running out of
  it is the fault \<open>StackOverflow\<close>.
\<close>

section \<open>Decode tables\<close>

definition decode_tbl :: "executor \<Rightarrow> insn list" where
  "decode_tbl ex =
    [insn_ldx, insn_ldx, insn_ixfr, insn_stx,
     insn_ldx, insn_ldx, dec_unrecog, insn_stx,
     insn_fldy, insn_fldy, insn_fsty, insn_fsty,
     insn_ld_ctrl, insn_flush, insn_st_ctrl, insn_pstd,
     insn_bri ex, insn_trap, dec_unrecog, dec_unrecog,
     insn_btne, insn_btne_imm, insn_bte, insn_bte_imm,
     insn_fldy, insn_fldy, insn_br ex, insn_call ex,
     insn_bc, insn_bct ex, insn_bnc, insn_bnct ex,
     insn_addu, insn_addu_imm, insn_subu, insn_subu_imm,
     insn_adds, insn_adds_imm, insn_subs, insn_subs_imm,
     insn_shl, insn_shl_imm, insn_shr, insn_shr_imm,
     insn_shrd, insn_bla ex, insn_shra, insn_shra_imm,
     insn_and, insn_and_imm, dec_unrecog, insn_andh_imm,
     insn_andnot, insn_andnot_imm, dec_unrecog, insn_andnoth_imm,
     insn_or, insn_or_imm, dec_unrecog, insn_orh_imm,
     insn_xor, insn_xor_imm, dec_unrecog, insn_xorh_imm]"

definition core_esc_decode_tbl :: "executor \<Rightarrow> insn list" where
  "core_esc_decode_tbl ex =
    [dec_unrecog, dec_unrecog, insn_calli ex, dec_unrecog,
     insn_intovr, dec_unrecog, dec_unrecog, dec_unrecog]"

definition fp_decode_tbl :: "insn list" where
  "fp_decode_tbl =
     replicate 0x20 insn_dualop @
     [insn_fmul, insn_fmlow, insn_frcp, insn_frsqr, insn_fmul] @ replicate 0x0B dec_unrecog @
     [insn_fadd_sub, insn_fadd_sub, insn_fix, insn_famov, insn_fcmp, insn_fcmp] @
     replicate 4 dec_unrecog @ [insn_ftrunc] @ replicate 5 dec_unrecog @
     [insn_fxfr] @ replicate 8 dec_unrecog @ [insn_fiadd_sub] @ replicate 3 dec_unrecog @
     [insn_fiadd_sub] @ replicate 2 dec_unrecog @ [insn_faddp, insn_faddz] @
     replicate 5 dec_unrecog @ [insn_fzchk] @ replicate 2 dec_unrecog @ [insn_form] @
     replicate 4 dec_unrecog @ [insn_fzchk] @ replicate 0x20 dec_unrecog"

text \<open>
  The table of 8192 entries the constructor fills. The core escape opcodes are looked up with two
  bits although their table has eight entries.
\<close>

definition decoder_tbl :: "executor \<Rightarrow> u32 \<Rightarrow> insn" where
  "decoder_tbl ex i =
     (let upper6 = drop_bit 7 i
      in if upper6 = 0x12 then fp_decode_tbl ! unat (i AND 0x7f)
         else if upper6 = 0x13 then core_esc_decode_tbl ex ! unat (i AND 3)
         else decode_tbl ex ! unat upper6)"

definition decoder_index :: "u32 \<Rightarrow> u32" where
  "decoder_index insn = (drop_bit 19 insn AND 0x1F80) OR (insn AND 0x7F)"

fun decode_exec :: "nat \<Rightarrow> env \<Rightarrow> u32 \<Rightarrow> i860 \<Rightarrow> i860 res" where
  "decode_exec 0 E insn s = (if flow EXITING_IFETCH s then Inr s else Inl StackOverflow)"
| "decode_exec (Suc n) E insn s =
     (if flow EXITING_IFETCH s then Inr s
      else decoder_tbl (decode_exec n E) (decoder_index insn) E insn s)"

text \<open>The opcodes with delay slots (\<^verbatim>\<open>delay_slots\<close>).\<close>

definition delay_slots :: "u32 \<Rightarrow> i860 \<Rightarrow> nat" where
  "delay_slots insn s =
     (let opc = drop_bit 26 insn AND 0x3f
      in if opc = 0x10 \<or> opc = 0x1a \<or> opc = 0x1b \<or> opc = 0x1d \<or> opc = 0x1f \<or> opc = 0x2d \<or>
            (opc = 0x13 \<and> insn AND 3 = 2)
         then (if m_dim s \<noteq> DIM_NONE then 2 else 1) else 0)"

section \<open>The machine cycle\<close>

abbreviation "INSN_FNOP_DIM \<equiv> (0xB0000200 :: u32)"
abbreviation "INSN_FP_DIM \<equiv> (0x48000200 :: u32)"
abbreviation "INSN_MASK_DIM \<equiv> (0xFC000200 :: u32)"

definition mark_dim :: "u32 \<Rightarrow> i860 \<Rightarrow> i860" where
  "mark_dim insn s =
     (if insn = INSN_FNOP_DIM then
        (if m_dim s \<noteq> DIM_NONE then or_flow DIM_OP s else clear_flow DIM_OP s)
      else if insn AND INSN_MASK_DIM = INSN_FP_DIM then or_flow DIM_OP s
      else s)"

text \<open>The low word of a pair; \<open>True\<close> means that the cycle is done.\<close>

definition cycle_low :: "nat \<Rightarrow> env \<Rightarrow> u64 \<Rightarrow> i860 \<Rightarrow> (bool \<times> i860) res" where
  "cycle_low n E insn64 s =
     (if m_pc s AND 4 = 0 then
        (let savepc = m_pc s; insnLow = ucast insn64
         in bnd (decode_exec n E insnLow (mark_dim insnLow s)) (\<lambda>s1.
              if PENDING_TRAP s1 then Inr (True, handle_trap savepc s1)
              else if GET_PC_UPDATED s1 then Inr (True, s1)
              else Inr (False, CLEAR_FLOW (set_pc (m_pc s1 + 4) s1))))
      else Inr (False, s))"

definition poll_interrupt :: "i860 \<Rightarrow> i860" where
  "poll_interrupt s =
     (if m_dim s = DIM_NONE \<and> \<not> PENDING_TRAP s then
        (if flow EXT_INTR s then gen_interrupt (clear_flow EXT_INTR s) else clr_interrupt s)
      else s)"

definition cycle_high :: "nat \<Rightarrow> env \<Rightarrow> u64 \<Rightarrow> i860 \<Rightarrow> i860 res" where
  "cycle_high n E insn64 s =
     (if m_pc s AND 4 \<noteq> 0 then
        (let savepc = m_pc s; insnHigh = ucast (drop_bit 32 insn64)
         in bnd (decode_exec n E insnHigh s) (\<lambda>s0.
              (let s1 = poll_interrupt s0
               in Inr (if PENDING_TRAP s1 then handle_trap savepc s1
                       else if GET_PC_UPDATED s1 then s1
                       else set_pc (m_pc s1 + 4) s1))))
      else Inr s)"

definition dim_update :: "i860 \<Rightarrow> i860" where
  "dim_update s =
     s\<lparr>m_dim := (case m_dim s of
         DIM_NONE \<Rightarrow> if flow DIM_OP s then DIM_TEMP else DIM_NONE
       | DIM_TEMP \<Rightarrow> if flow DIM_OP s then DIM_FULL else DIM_NONE
       | DIM_FULL \<Rightarrow> if \<not> flow DIM_OP s then DIM_TEMP else DIM_FULL)\<rparr>"

definition run_cycle :: "nat \<Rightarrow> env \<Rightarrow> i860 \<Rightarrow> i860 res" where
  "run_cycle n E s =
     (let s0 = clear_flow DIM_OP ((CLEAR_FLOW s)\<lparr>m_dim_cc_valid := False\<rparr>)
      in bnd (ifetch64 (m_pc s0) s0) (\<lambda>(insn64, s1).
         bnd (cycle_low n E insn64 s1) (\<lambda>(fin, s2).
         bnd (if fin then Inr s2 else cycle_high n E insn64 s2) (\<lambda>s3. Inr (dim_update s3)))))"

section \<open>Reset and messages\<close>

abbreviation "UNDEF_VAL \<equiv> (0x55aa5500 :: u32)"

fun reset_regs :: "nat \<Rightarrow> i860 \<Rightarrow> i860" where
  "reset_regs 0 s = s"
| "reset_regs (Suc i) s =
     (let s1 = reset_regs i s
      in set_fregval_s i 0 (set_iregval i (UNDEF_VAL OR of_nat i) s1))"

definition reset :: "i860 \<Rightarrow> i860" where
  "reset s =
     (let s1 = reset_regs 32 (set_pc 0xffffff00 s);
          s2 = set_fregval_s 1 0 (set_fregval_s 0 0 (set_iregval 0 0 s1));
          s3 = set_creg CR_DIRBASE 0x00000080 (set_creg CR_EPSR 0x00040601 (set_creg CR_PSR 0 s2));
          s4 = set_creg CR_FSR UNDEF_VAL (set_creg CR_FIR UNDEF_VAL s3);
          s5 = s4\<lparr>m_KR := 0, m_KI := 0, m_T := 0, m_merge := 0, m_flow := 0,
                  m_dim := DIM_NONE, m_dim_cc_valid := False\<rparr>
      in halt False (set_mem_access False (invalidate_tlb (invalidate_icache s5))))"

definition set_devs :: "nd_devs \<Rightarrow> i860 \<Rightarrow> i860" where
  "set_devs d s = s\<lparr>bd := (bd s)\<lparr>devs := d\<rparr>\<rparr>"

text \<open>
  The message handler; \<open>False\<close> stops the thread. The blank states of the two screens are
  arguments (\<^verbatim>\<open>host_blank_state\<close>).
\<close>

definition handle_msgs :: "bool \<Rightarrow> bool \<Rightarrow> i860 \<Rightarrow> bool \<times> i860" where
  "handle_msgs blank_display blank_video s =
     (let msg = m_port (devs (bd s));
          s1 = set_devs ((devs (bd s))\<lparr>m_port := 0\<rparr>) s
      in if msg AND MSG_I860_KILL \<noteq> 0 then (False, s1)
         else
           (let s2 = (if msg AND MSG_I860_RESET \<noteq> 0 then reset s1
                      else if msg AND MSG_INTR \<noteq> 0 then intr s1 else s1);
                s3 = (if msg AND MSG_DISPLAY_BLANK \<noteq> 0
                      then set_devs (nd_set_blank_state True blank_display (devs (bd s2))) s2 else s2);
                s4 = (if msg AND MSG_VIDEO_BLANK \<noteq> 0
                      then set_devs (nd_set_blank_state False blank_video (devs (bd s3))) s3 else s3)
            in (True, s4)))"

section \<open>Drivers\<close>

text \<open>The loop of \<^verbatim>\<open>i860_run_no_thread\<close>: two host cycles per machine cycle.\<close>

function run_cycles :: "nat \<Rightarrow> env \<Rightarrow> int \<Rightarrow> i860 \<Rightarrow> i860 res" where
  "run_cycles n E c s = (if c > 0 then bnd (run_cycle n E s) (run_cycles n E (c - 2)) else Inr s)"
  by auto
termination by (relation "measure (\<lambda>(n, E, c, s). nat c)") auto

declare run_cycles.simps [simp del]

text \<open>
  The host cycles scaled to the clock of the i860, in C's int: the product is an \<open>i32\<close> (its signed overflow,
  which C leaves undefined, wraps), the division truncates and faults on 0.
\<close>

definition i860_cycles :: "i32 \<Rightarrow> i32 \<Rightarrow> int res" where
  "i860_cycles nHostCycles nCpuFreq =
     (if nCpuFreq = 0 then Inl DivideByZero else Inr (sint (nHostCycles * 33) sdiv sint nCpuFreq))"

text \<open>
  One call of \<^verbatim>\<open>i860_run_no_thread\<close>, with the level it drives on the remote interrupt line of
  the m68k; a halted processor returns before that.
\<close>

definition i860_run_no_thread ::
    "nat \<Rightarrow> env \<Rightarrow> bool \<Rightarrow> bool \<Rightarrow> i32 \<Rightarrow> i32 \<Rightarrow> i860 \<Rightarrow> (bool option \<times> i860) res" where
  "i860_run_no_thread n E bld blv nHostCycles nCpuFreq s =
     (let (_, s1) = handle_msgs bld blv s
      in if m_halt s1 then Inr (None, s1)
         else bnd (i860_cycles nHostCycles nCpuFreq) (\<lambda>c. bnd (run_cycles n E c s1)
                (\<lambda>s2. Inr (Some (nd_nbic_interrupt (d_nbic (devs (bd s2)))), s2))))"

fun run_n :: "nat \<Rightarrow> nat \<Rightarrow> env \<Rightarrow> i860 \<Rightarrow> i860 res" where
  "run_n 0 n E s = Inr s"
| "run_n (Suc k) n E s = bnd (run_cycle n E s) (run_n k n E)"

text \<open>One turn of the loop of \<^verbatim>\<open>run\<close>: sixteen cycles unless killed or halted.\<close>

definition run_turn :: "nat \<Rightarrow> env \<Rightarrow> bool \<Rightarrow> bool \<Rightarrow> i860 \<Rightarrow> (bool \<times> i860) res" where
  "run_turn n E bld blv s =
     (let (go, s1) = handle_msgs bld blv s
      in if \<not> go then Inr (False, s1)
         else if m_halt s1 then Inr (True, s1)
         else bnd (run_n 16 n E s1) (\<lambda>s2. Inr (True, s2)))"

section \<open>The decoder\<close>

lemma low7: "(0x7F :: u32) = mask 7" and six_bits: "(0x3F :: u32) = mask 6"
  and index_bits: "(0x1F80 :: u32) = push_bit 7 (mask 6)"
  by (simp_all add: mask_eq_exp_minus_1)

lemma decoder_index_opc: "drop_bit 7 (decoder_index insn) = drop_bit 26 insn AND 0x3f"
  unfolding decoder_index_def low7 six_bits index_bits
  by (rule bit_word_eqI) (auto simp: bit_simps ac_simps)

lemma decoder_index_low: "decoder_index insn AND 0x7f = insn AND 0x7f"
  unfolding decoder_index_def low7 index_bits
  by (rule bit_word_eqI) (auto simp: bit_simps)

lemma decoder_index_esc: "decoder_index insn AND 3 = insn AND 3"
proof -
  have "x AND 3 = (x AND 0x7f) AND (3 :: u32)" for x by (simp add: and.assoc)
  then show ?thesis by (metis decoder_index_low)
qed

lemma length_tables [simp]:
  "length (decode_tbl ex) = 64" "length (core_esc_decode_tbl ex) = 8" "length fp_decode_tbl = 128"
  by (simp_all add: decode_tbl_def core_esc_decode_tbl_def fp_decode_tbl_def)

text \<open>Every entry the decoder reaches lies in its table.\<close>

lemma decoder_tbl_mem:
  "decoder_tbl ex (decoder_index insn)
     \<in> set fp_decode_tbl \<union> set (core_esc_decode_tbl ex) \<union> set (decode_tbl ex)"
proof -
  have "unat (drop_bit 26 insn AND 0x3f) < 64" "unat (insn AND 0x7f) < 128" "unat (insn AND 3) < 8"
    by (rule unat_and_less, simp)+
  then show ?thesis
    by (auto simp: decoder_tbl_def Let_def decoder_index_opc decoder_index_low decoder_index_esc)
qed

definition insn_ok :: "insn \<Rightarrow> bool" where
  "insn_ok f \<longleftrightarrow> (\<forall>E i s. cpu_ok s \<longrightarrow> holds cpu_ok (f E i s))"

context slot_executor
begin

lemma decode_tbl_ok: "f \<in> set (decode_tbl ex) \<Longrightarrow> insn_ok f"
  unfolding decode_tbl_def insn_ok_def
  by (auto intro: int_insns_ok ls_insns_ok simple_branches_ok delayed_branches_ok)

lemma core_esc_decode_tbl_ok: "f \<in> set (core_esc_decode_tbl ex) \<Longrightarrow> insn_ok f"
  unfolding core_esc_decode_tbl_def insn_ok_def
  by (auto intro: int_insns_ok delayed_branches_ok)

lemma fp_decode_tbl_ok: "f \<in> set fp_decode_tbl \<Longrightarrow> insn_ok f"
  unfolding fp_decode_tbl_def insn_ok_def
  by (auto simp: set_replicate_conv_if intro: int_insns_ok float_insns_ok insn_dualop_ok graphics_insns_ok)

lemma decoder_tbl_ok: "insn_ok (decoder_tbl ex (decoder_index insn))"
  using decoder_tbl_mem [of ex insn] decode_tbl_ok core_esc_decode_tbl_ok fp_decode_tbl_ok by blast

end

text \<open>The decoder is such an executor for every bound on its recursion.\<close>

lemma decode_exec_executor: "slot_executor (decode_exec n E)"
proof (induction n)
  case 0
  then show ?case by unfold_locales simp
next
  case (Suc n)
  from slot_executor.decoder_tbl_ok [OF Suc.IH] show ?case
    by unfold_locales (simp add: insn_ok_def)
qed

interpretation decoder: slot_executor "decode_exec n E" for n E
  by (rule decode_exec_executor)

lemmas decode_exec_holds = decoder.keeps

section \<open>Cycles, reset and messages keep the invariant\<close>

lemma cpu_ok_cycle_parts [simp]:
  "cpu_ok (mark_dim i s) = cpu_ok s"
  "cpu_ok (poll_interrupt s) = cpu_ok s"
  "cpu_ok (dim_update s) = cpu_ok s"
  by (simp_all add: mark_dim_def poll_interrupt_def dim_update_def)

lemma cycle_low_ok: "cpu_ok s \<Longrightarrow> ok_result (cycle_low n E w s)"
  unfolding cycle_low_def Let_def by (auto intro!: ok_bnd [OF decode_exec_holds])

lemma cycle_high_ok: "cpu_ok s \<Longrightarrow> holds cpu_ok (cycle_high n E w s)"
  unfolding cycle_high_def Let_def by (auto intro!: ok_bnd [OF decode_exec_holds])

lemma run_cycle_ok: "cpu_ok s \<Longrightarrow> holds cpu_ok (run_cycle n E s)"
  unfolding run_cycle_def Let_def
  by (rule ok_result_bnd [OF ifetch64_ok], simp, clarsimp, rule ok_result_bnd [OF cycle_low_ok], simp,
      clarsimp, rule ok_bnd) (auto intro: cycle_high_ok)

lemma run_cycles_ok: "cpu_ok s \<Longrightarrow> holds cpu_ok (run_cycles n E c s)"
proof (induction n E c s rule: run_cycles.induct)
  case (1 n E c s)
  show ?case
    by (subst run_cycles.simps) (use 1 in \<open>auto intro: ok_bnd [OF run_cycle_ok]\<close>)
qed

lemma run_n_ok: "cpu_ok s \<Longrightarrow> holds cpu_ok (run_n k n E s)"
  by (induction k arbitrary: s) (auto intro: ok_bnd [OF run_cycle_ok])

text \<open>Reset establishes the invariant from the state of a cleared object.\<close>

definition powered :: "i860 \<Rightarrow> bool" where
  "powered s \<longleftrightarrow> m_fregs s 0 = 0 \<and> m_fregs s 1 = 0 \<and> board_ok (bd s)"

lemma reset_regs_frame:
  "m_fregs (reset_regs n s) 0 = m_fregs s 0" "m_fregs (reset_regs n s) (Suc 0) = m_fregs s (Suc 0)"
  "bd (reset_regs n s) = bd s"
  by (induction n) (simp_all add: Let_def set_fregval_s_def set_iregval_def)

lemma reset_establishes: "powered s \<Longrightarrow> cpu_ok (reset s)"
  by (simp add: powered_def reset_def Let_def cpu_ok_def set_creg_def invalidate_icache_def
      invalidate_tlb_def set_mem_access_def halt_def set_fregval_s_def set_iregval_def set_pc_def
      tags_ok_def reset_regs_frame)

lemma cpu_ok_powered: "cpu_ok s \<Longrightarrow> powered s"
  by (simp add: cpu_ok_def powered_def)

lemma set_devs_ok [simp]: "devs_ok d \<Longrightarrow> cpu_ok s \<Longrightarrow> cpu_ok (set_devs d s)"
  by (simp add: set_devs_def cpu_ok_def board_ok_def)

lemma devs_of_cpu: "cpu_ok s \<Longrightarrow> devs_ok (devs (bd s))"
  by (simp add: cpu_ok_def board_ok_def)

lemma handle_msgs_ok: "cpu_ok s \<Longrightarrow> cpu_ok (snd (handle_msgs a b s))"
  by (simp add: handle_msgs_def Let_def devs_of_cpu devs_ok_set_blank_state
      reset_establishes cpu_ok_powered)

section \<open>The bound on the recursion of the decoder\<close>

text \<open>
  \<open>less_fuel r r'\<close>: the second computation agrees with the first unless the first ran out of its
  bound. Everything built from an executor respects this order.
\<close>

definition less_fuel :: "'a res \<Rightarrow> 'a res \<Rightarrow> bool" where
  "less_fuel r r' \<longleftrightarrow> r = Inl StackOverflow \<or> r = r'"

lemma less_fuel_refl [simp]: "less_fuel r r"
  by (simp add: less_fuel_def)

lemma less_fuel_bnd:
  "less_fuel m m' \<Longrightarrow> (\<And>x. less_fuel (f x) (f' x)) \<Longrightarrow> less_fuel (bnd m f) (bnd m' f')"
  unfolding less_fuel_def by (cases m) force+

definition executor_le :: "executor \<Rightarrow> executor \<Rightarrow> bool" where
  "executor_le ex ex' \<longleftrightarrow> (\<forall>i s. less_fuel (ex i s) (ex' i s))"

lemma exec_at_le: "executor_le ex ex' \<Longrightarrow> less_fuel (exec_at ex pc s) (exec_at ex' pc s)"
  unfolding exec_at_def by (rule less_fuel_bnd) (auto simp: executor_le_def)

lemma DELAY_SLOT_le: "executor_le ex ex' \<Longrightarrow> less_fuel (DELAY_SLOT ex pc s) (DELAY_SLOT ex' pc s)"
  unfolding DELAY_SLOT_def by (auto intro!: less_fuel_bnd exec_at_le)

lemma after_slot_le:
  "executor_le ex ex' \<Longrightarrow> less_fuel (after_slot ex pc s u k) (after_slot ex' pc s u k)"
  unfolding after_slot_def by (auto intro!: less_fuel_bnd DELAY_SLOT_le)

definition insn_le :: "insn \<Rightarrow> insn \<Rightarrow> bool" where
  "insn_le f f' \<longleftrightarrow> (\<forall>E i s. less_fuel (f E i s) (f' E i s))"

lemma insn_le_refl [simp]: "insn_le f f"
  by (simp add: insn_le_def)

lemma delayed_le:
  assumes "executor_le ex ex'"
  shows "insn_le (insn_bct ex) (insn_bct ex')" "insn_le (insn_bnct ex) (insn_bnct ex')"
    "insn_le (insn_call ex) (insn_call ex')" "insn_le (insn_br ex) (insn_br ex')"
    "insn_le (insn_bri ex) (insn_bri ex')" "insn_le (insn_calli ex) (insn_calli ex')"
    "insn_le (insn_bla ex) (insn_bla ex')"
  using assms
  by (auto simp: insn_le_def insn_bct_def insn_bnct_def insn_call_def insn_br_def insn_bri_def
      insn_calli_def insn_bla_def delayed_cond_def Let_def intro!: after_slot_le)

lemma tables_le:
  assumes "executor_le ex ex'"
  shows "list_all2 insn_le (decode_tbl ex) (decode_tbl ex')"
    "list_all2 insn_le (core_esc_decode_tbl ex) (core_esc_decode_tbl ex')"
  by (simp_all add: decode_tbl_def core_esc_decode_tbl_def delayed_le [OF assms])

lemma decoder_tbl_le:
  assumes "executor_le ex ex'"
  shows "insn_le (decoder_tbl ex (decoder_index insn)) (decoder_tbl ex' (decoder_index insn))"
proof -
  have "unat (drop_bit 26 insn AND 0x3f) < 64" "unat (insn AND 3) < 8"
    by (rule unat_and_less, simp)+
  then show ?thesis
    using list_all2_nthD [OF tables_le(1) [OF assms]] list_all2_nthD [OF tables_le(2) [OF assms]]
    by (simp add: decoder_tbl_def Let_def decoder_index_opc decoder_index_esc)
qed

lemma decode_exec_le: "executor_le (decode_exec n E) (decode_exec (Suc n) E)"
proof (induction n)
  case 0
  then show ?case by (simp add: executor_le_def less_fuel_def)
next
  case (Suc n)
  have "less_fuel (decoder_tbl (decode_exec n E) (decoder_index i) E i s)
      (decoder_tbl (decode_exec (Suc n) E) (decoder_index i) E i s)" for i s
    using decoder_tbl_le [OF Suc.IH] unfolding insn_le_def by blast
  then show ?case unfolding executor_le_def decode_exec.simps(2) [of n]
      decode_exec.simps(2) [of "Suc n"] by simp
qed

lemma decode_exec_more: "less_fuel (decode_exec n E i s) (decode_exec (n + k) E i s)"
proof (induction k)
  case (Suc k)
  have "less_fuel (decode_exec (n + k) E i s) (decode_exec (Suc (n + k)) E i s)"
    using decode_exec_le by (simp add: executor_le_def)
  with Suc show ?case by (auto simp: less_fuel_def)
qed simp

text \<open>Opcodes without a delay slot do not use the executor.\<close>

lemma decode_tbl_plain:
  assumes "k < 64" "k \<notin> {0x10, 0x1a, 0x1b, 0x1d, 0x1f, 0x2d}"
  shows "decode_tbl ex ! k = decode_tbl ex' ! k"
proof -
  have "list_all (\<lambda>k. k \<in> {0x10, 0x1a, 0x1b, 0x1d, 0x1f, 0x2d} \<or> decode_tbl ex ! k = decode_tbl ex' ! k) [0..<64]"
    by (simp add: upt_rec decode_tbl_def)
  with assms show ?thesis by (auto simp: list_all_iff)
qed

lemma core_esc_plain: "k < 8 \<Longrightarrow> k \<noteq> 2 \<Longrightarrow> core_esc_decode_tbl ex ! k = core_esc_decode_tbl ex' ! k"
proof -
  assume k: "k < 8" "k \<noteq> 2"
  have "list_all (\<lambda>k. k = 2 \<or> core_esc_decode_tbl ex ! k = core_esc_decode_tbl ex' ! k) [0..<8]"
    by (simp add: upt_rec core_esc_decode_tbl_def)
  with k show ?thesis by (auto simp: list_all_iff)
qed

lemma decoder_plain:
  assumes "delay_slots insn s = 0"
  shows "decoder_tbl ex (decoder_index insn) = decoder_tbl ex' (decoder_index insn)"
proof -
  let ?o = "drop_bit 26 insn AND 0x3f"
  have o: "unat ?o < 64" "unat (insn AND 3) < 8" by (rule unat_and_less, simp)+
  have u: "x = y \<longleftrightarrow> unat x = unat y" for x y :: u32 by (rule word_unat_eq_iff)
  have "unat ?o \<notin> {0x10, 0x1a, 0x1b, 0x1d, 0x1f, 0x2d}" "?o = 0x13 \<Longrightarrow> unat (insn AND 3) \<noteq> 2"
    using assms u [of ?o] u [of "insn AND 3" 2]
    by (auto simp: delay_slots_def Let_def split: if_splits)
  then show ?thesis
    using decode_tbl_plain [OF o(1), of ex ex'] core_esc_plain [OF o(2), of ex ex']
    by (auto simp: decoder_tbl_def Let_def decoder_index_opc decoder_index_esc)
qed

section \<open>Properties of the decoder\<close>

text \<open>
  The recursion bound of the decoder is only a bound: whatever it returns with some bound, a
  larger bound returns the same, unless the smaller one ran out.
\<close>

theorem decoder_bound_monotone:
  assumes "decode_exec n E insn s \<noteq> Inl StackOverflow"
  shows "decode_exec (n + k) E insn s = decode_exec n E insn s"
  using decode_exec_more [of n E insn s k] assms by (simp add: less_fuel_def)

theorem decoder_bound_monotone_witness:
  "decode_exec (1 + 2) word_env ADDU_R4_R5_R6 (two_regs 1 2) = decode_exec 1 word_env ADDU_R4_R5_R6 (two_regs 1 2)"
proof -
  have "decoder_index ADDU_R4_R5_R6 = 0x1000" by (simp add: decoder_index_def)
  then have "decode_exec 1 word_env ADDU_R4_R5_R6 (two_regs 1 2) \<noteq> Inl StackOverflow"
    by (simp add: decoder_tbl_def decode_tbl_def insn_addu_def two_regs_def i860_zero_def flow_def)
  then show ?thesis by (rule decoder_bound_monotone)
qed

text \<open>
  Only delayed branches recurse: for an instruction that \<open>delay_slots\<close> reports without delay
  slots, the decoder gives the same result with every positive bound.
\<close>

theorem decoder_plain_any_bound:
  assumes "delay_slots insn s = 0"
  shows "decode_exec (Suc n) E insn s = decode_exec (Suc m) E insn s"
  using decoder_plain [OF assms] by simp metis

theorem decoder_plain_any_bound_witness:
  "decode_exec (Suc 0) word_env ADDU_R4_R5_R6 i860_zero =
     decode_exec (Suc 7) word_env ADDU_R4_R5_R6 i860_zero"
  by (rule decoder_plain_any_bound) (simp add: delay_slots_def)

text \<open>
  The trap-on-overflow instruction is unreachable: the constructor fills the decode table
  for core escapes with two of the three opcode bits, so \<open>intovr\<close> raises the trap
  of an unknown instruction even when OF is clear.
\<close>

theorem intovr_unreachable:
  assumes "drop_bit 26 insn AND 0x3f = 0x13" "insn AND 7 = 4" "\<not> flow EXITING_IFETCH s"
  shows "decode_exec (Suc n) E insn s = Inr (unrecog_opcode s)"
proof -
  have "insn AND 3 = (insn AND 7) AND 3" by (simp add: and.assoc)
  then have "insn AND 3 = 0" using assms(2) by simp
  then show ?thesis
    using assms(1,3)
    by (simp add: decoder_tbl_def Let_def decoder_index_opc decoder_index_esc
        core_esc_decode_tbl_def dec_unrecog_def)
qed

theorem intovr_unreachable_witness:
  "decode_exec (Suc 0) word_env 0x4C000004 i860_zero = Inr (unrecog_opcode i860_zero) \<and>
     GET_EPSR_OF i860_zero = 0"
  using intovr_unreachable [of "0x4C000004" i860_zero 0 word_env]
  by (simp add: flow_def i860_zero_def GET_EPSR_OF_def get_field_def)

section \<open>Properties of the machine cycle\<close>

text \<open>The three states of dual-instruction mode in their order.\<close>

definition dim_level :: "dim \<Rightarrow> nat" where
  "dim_level d = (case d of DIM_NONE \<Rightarrow> 0 | DIM_TEMP \<Rightarrow> 1 | DIM_FULL \<Rightarrow> 2)"

instantiation dim :: linorder
begin

definition less_eq_dim :: "dim \<Rightarrow> dim \<Rightarrow> bool" where "less_eq_dim a b \<longleftrightarrow> dim_level a \<le> dim_level b"

definition less_dim :: "dim \<Rightarrow> dim \<Rightarrow> bool" where "less_dim a b \<longleftrightarrow> dim_level a < dim_level b"

instance
  by standard (auto simp: less_eq_dim_def less_dim_def dim_level_def split: dim.splits)

end

text \<open>What a state with the given dual-operation flags of the next cycles goes through.\<close>

definition dim_cycle :: "bool \<Rightarrow> i860 \<Rightarrow> i860" where
  "dim_cycle op s = dim_update (if op then or_flow DIM_OP s else clear_flow DIM_OP s)"

lemma dim_cycle_level:
  "dim_level (m_dim (dim_cycle op s)) =
     (if op then min 2 (dim_level (m_dim s) + 1) else dim_level (m_dim s) - 1)"
proof -
  have "flow DIM_OP (or_flow DIM_OP s)" by (simp add: flow_or_flow)
  then show ?thesis
    by (auto simp: dim_cycle_def dim_update_def or_flow_def clear_flow_def flow_def and.assoc dim_level_def
        split: dim.splits)
qed

text \<open>
  Dual-instruction mode is entered and left with a delay of two cycles: from single mode it
  takes two cycles in a row whose low word carries the dual bit to reach dual mode, from dual mode
  two without it to get back; a single cycle moves by one step at most, through the transitional
  mode, and never against the dual bit.
\<close>

theorem dual_mode_transitions:
  "(m_dim s = DIM_NONE \<longrightarrow> (m_dim (dim_cycle b (dim_cycle a s)) = DIM_FULL \<longleftrightarrow> a \<and> b)) \<and>
   (m_dim s = DIM_FULL \<longrightarrow> (m_dim (dim_cycle b (dim_cycle a s)) = DIM_NONE \<longleftrightarrow> \<not> a \<and> \<not> b)) \<and>
   (m_dim s = DIM_NONE \<longrightarrow> m_dim (dim_cycle a s) \<le> DIM_TEMP) \<and>
   (m_dim s = DIM_FULL \<longrightarrow> DIM_TEMP \<le> m_dim (dim_cycle a s)) \<and>
   (if a then m_dim s \<le> m_dim (dim_cycle a s) else m_dim (dim_cycle a s) \<le> m_dim s)"
proof -
  have inj: "d = DIM_FULL \<longleftrightarrow> dim_level d = 2" "d = DIM_NONE \<longleftrightarrow> dim_level d = 0" for d
    by (simp_all add: dim_level_def split: dim.split)
  have c: "dim_level DIM_TEMP = 1" by (simp add: dim_level_def)
  have "dim_level (m_dim s) \<le> 2" by (simp add: dim_level_def split: dim.split)
  then show ?thesis
    unfolding less_eq_dim_def inj dim_cycle_level c by auto
qed

theorem dual_mode_transitions_witness:
  "m_dim (dim_cycle True (dim_cycle True i860_zero)) = DIM_FULL"
  using dual_mode_transitions [of i860_zero True True] by (simp add: i860_zero_def)

lemma poll_frame:
  "flow EXT_INTR (intr s)" "m_dim (intr s) = m_dim s" "get_field c m l (intr s) = get_field c m l s"
  "m_dim (clear_flow f s) = m_dim s" "\<not> flow TRAP_MASK (CLEAR_FLOW s)"
  "m_dim (CLEAR_FLOW s) = m_dim s" "get_field c m l (CLEAR_FLOW s) = get_field c m l s"
  by (simp_all add: intr_def flow_or_flow)
    (simp_all add: or_flow_def clear_flow_def CLEAR_FLOW_def flow_def and.assoc get_field_def)





section \<open>Return from a trap\<close>

lemma bri_word:
  assumes "drop_bit 26 (insn :: u32) = 0x10"
  shows "mark_dim insn u = u" "decoder_tbl ex (decoder_index insn) = insn_bri ex"
proof -
  have "insn \<noteq> INSN_FNOP_DIM" using assms by auto
  moreover have "insn AND INSN_MASK_DIM \<noteq> INSN_FP_DIM"
  proof
    assume "insn AND INSN_MASK_DIM = INSN_FP_DIM"
    then have "drop_bit 26 (insn AND INSN_MASK_DIM) = drop_bit 26 INSN_FP_DIM" by (rule arg_cong)
    then show False using assms by (simp add: drop_bit_and)
  qed
  ultimately show "mark_dim insn u = u" by (simp add: mark_dim_def)
  have "drop_bit 7 (decoder_index insn) = 0x10"
    using assms by (simp add: decoder_index_def drop_bit_or drop_bit_and)
  then show "decoder_tbl ex (decoder_index insn) = insn_bri ex" by (simp add: decoder_tbl_def decode_tbl_def Let_def)
qed

text \<open>
  C24. Return from a trap, over the machine cycle. When a handler that runs outside dual-instruction mode and kept
  the previous-mode bits and the saved dual-mode state ends with \<open>bri\<close> in the low word of a pair, a trap bit of PSR
  is still set and its delay slot neither traps nor starts dual-instruction mode, then after the cycle the program
  goes on at the address in the source register with the user and interrupt modes and the dual-mode condition of
  the moment of the trap. The sequencer of dual-instruction mode is one step behind: the cycle of the return counts as
  one without the dual bit, so a program trapped in full dual-instruction mode goes on in the transitional mode, and
  one trapped in the transitional mode goes on in single-instruction mode.
\<close>

theorem trap_return_restores:
  assumes "ifetch64 (m_pc t) (clear_flow DIM_OP ((CLEAR_FLOW t)\<lparr>m_dim_cc_valid := False\<rparr>)) = Inr (pair, u)"
    and "m_pc u AND 4 = 0" "drop_bit 26 (ucast pair :: u32) = 0x10" "\<not> flow EXITING_IFETCH u"
    and "m_dim u = DIM_NONE" "m_cregs u CR_PSR AND PSR_ALL_TRAP_BITS_MASK \<noteq> 0"
    and "DELAY_SLOT (decode_exec n E) (m_pc u) (set_creg CR_PSR (m_cregs u CR_PSR AND NOT PSR_ALL_TRAP_BITS_MASK) u) = Inr v"
    and "\<not> PENDING_TRAP v" "\<not> flow DIM_OP v"
    and "GET_PSR_PU v = GET_PSR_PU (handle_trap pc s)" "GET_PSR_PIM v = GET_PSR_PIM (handle_trap pc s)"
    and "m_save_dim v = m_save_dim (handle_trap pc s)" "m_save_cc v = m_save_cc (handle_trap pc s)"
    and "m_save_cc_valid v = m_save_cc_valid (handle_trap pc s)" "m_save_flow v = m_save_flow (handle_trap pc s)"
  shows "\<exists>w. run_cycle (Suc n) E t = Inr w \<and> m_pc w = iregval u (get_isrc1 (ucast pair)) \<and>
    GET_PSR_U w = GET_PSR_U s \<and> GET_PSR_IM w = GET_PSR_IM s \<and>
    m_dim w = (if m_dim s = DIM_FULL then DIM_TEMP else DIM_NONE) \<and>
    m_dim_cc w = m_dim_cc s \<and> m_dim_cc_valid w = m_dim_cc_valid s"
proof -
  let ?insn = "ucast pair :: u32"
  obtain w where w: "insn_bri (decode_exec n E) E ?insn u = Inr w" "m_pc w = iregval u (get_isrc1 ?insn)" "GET_PC_UPDATED w"
    "GET_PSR_U w = GET_PSR_U s" "GET_PSR_IM w = GET_PSR_IM s" "m_dim w = m_dim s" "m_dim_cc w = m_dim_cc s"
    "m_dim_cc_valid w = m_dim_cc_valid s"
    "m_flow w = ((m_flow v OR (m_save_flow v AND NOT DIM_OP)) AND NOT FIR_GETS_TRAP) OR PC_UPDATED"
    using trap_return_insn [OF assms(5-8,10-14), of E ?insn] by blast
  have "m_save_flow (handle_trap pc s) AND NOT DIM_OP = 0" by (simp add: saved_flow and.assoc)
  then have fl: "m_flow w = (m_flow v AND NOT FIR_GETS_TRAP) OR PC_UPDATED" using w(9) assms(15) by simp
  have np: "\<not> PENDING_TRAP w" and nd: "\<not> flow DIM_OP w"
    using assms(8,9) unfolding PENDING_TRAP_def flow_def fl by (simp_all add: bit.conj_disj_distrib2 and.assoc)
  have "decode_exec (Suc n) E ?insn u = Inr w" using w(1) assms(4) by (simp add: bri_word(2) [OF assms(3)])
  then have low: "cycle_low (Suc n) E pair u = Inr (True, w)"
    using assms(2) np w(3) by (simp add: cycle_low_def bri_word(1) [OF assms(3)] Let_def del: decode_exec.simps)
  have p: "m_pc (clear_flow DIM_OP ((CLEAR_FLOW t)\<lparr>m_dim_cc_valid := False\<rparr>)) = m_pc t"
    by (simp add: clear_flow_def CLEAR_FLOW_def)
  have run: "run_cycle (Suc n) E t = Inr (dim_update w)"
    unfolding run_cycle_def Let_def p assms(1) bnd_Inr prod.case low by simp
  have u: "GET_PSR_U (dim_update w) = GET_PSR_U w" "GET_PSR_IM (dim_update w) = GET_PSR_IM w"
    by (simp_all add: dim_update_def GET_PSR_U_def GET_PSR_IM_def get_field_def)
  show ?thesis unfolding run using w(2,4-8) nd
    by (cases "m_dim s") (simp_all add: u, simp_all add: dim_update_def)
qed

lemma cached_fetch: "pc AND NOT 7 = 0xFFFFFF00 \<Longrightarrow> m_icache_vaddr s = (\<lambda>_. 0xFFFFFF00) \<Longrightarrow> ifetch64 pc s = Inr (m_icache s (icache_index 0xFFFFFF00), s)"
  by (simp add: ifetch64_def Let_def)

lemma iregs_same: "m_iregs s 0 = 0 \<Longrightarrow> s\<lparr>m_iregs := (m_iregs s)(0 := 0)\<rparr> = s"
  by (cases s) (simp add: fun_upd_idem)

lemma decode_shift: "\<not> flow EXITING_IFETCH s \<Longrightarrow> m_iregs s 0 = 0 \<Longrightarrow> 0 < n \<Longrightarrow> decode_exec n E 0xA0000000 s = Inr s"
  using iregs_same [of s]
  by (cases n) (simp_all add: decoder_index_def decoder_tbl_def decode_tbl_def insn_shl_def shl_op_def shift_count_def get_isrc1_def get_isrc2_def
      get_idest_def set_iregval_def)

text \<open>A trapped program whose handler is a \<open>bri\<close> with a shift into register 0 in its delay slot.\<close>

definition trapped_cpu :: i860 where
  "trapped_cpu = (handle_trap 0xF8000100 user_cpu)\<lparr>m_icache := (\<lambda>_. 0xA000000040000000)\<rparr>"

theorem trap_return_restores_witness:
  "\<exists>w. run_cycle 3 word_env trapped_cpu = Inr w \<and> m_pc w = 0 \<and>
     GET_PSR_U w = 1 \<and> GET_PSR_IM w = 1 \<and> m_dim w = DIM_TEMP \<and> m_dim_cc w"
proof -
  let ?u = "clear_flow DIM_OP ((CLEAR_FLOW trapped_cpu)\<lparr>m_dim_cc_valid := False\<rparr>)"
  let ?u' = "set_creg CR_PSR (m_cregs ?u CR_PSR AND NOT PSR_ALL_TRAP_BITS_MASK) ?u"
  let ?h = "handle_trap 0xF8000100 user_cpu"
  have fr: "m_icache_vaddr ?u = (\<lambda>_. 0xFFFFFF00)" "m_icache ?u = (\<lambda>_. 0xA000000040000000)" "m_dim ?u = DIM_NONE"
    "m_cregs ?u = m_cregs ?h" "m_pc ?u = 0xFFFFFF00" "m_pc trapped_cpu = 0xFFFFFF00" "m_iregs ?u = (\<lambda>_. 0)" "m_save_dim ?u = m_save_dim ?h" "m_save_cc ?u = m_save_cc ?h"
    "m_save_cc_valid ?u = m_save_cc_valid ?h" "m_save_flow ?u = m_save_flow ?h" "m_flow ?u = FIR_GETS_TRAP"
    by (simp_all add: trapped_cpu_def clear_flow_def CLEAR_FLOW_def trap_frame trap_saves user_cpu_simps fun_eq_iff)
  have bits: "m_cregs ?u CR_PSR AND PSR_ALL_TRAP_BITS_MASK \<noteq> 0"
    unfolding fr by (rule trap_bits, fold GET_PSR_IT_def) (simp add: trap_psr, simp add: GET_PSR_IT_def user_cpu_simps)
  have f: "ifetch64 (m_pc trapped_cpu) ?u = Inr (0xA000000040000000, ?u)" unfolding fr by (subst cached_fetch) (simp_all add: fr)
  let ?v = "set_pc 0xFFFFFF00 (set_pc 0xFFFFFF04 ?u')"
  have fv: "m_icache_vaddr (set_creg c x y) = m_icache_vaddr y" "m_icache (set_creg c x y) = m_icache y"
    "m_dim (set_creg c x y) = m_dim y" "m_flow (set_creg c x y) = m_flow y" "m_pc (set_creg c x y) = m_pc y"
    "m_iregs (set_creg c x y) = m_iregs y" "m_save_dim (set_creg c x y) = m_save_dim y" "m_save_cc (set_creg c x y) = m_save_cc y"
    "m_save_cc_valid (set_creg c x y) = m_save_cc_valid y" "m_save_flow (set_creg c x y) = m_save_flow y" for c x y
    by (simp_all add: set_creg_def)
  have fp: "m_icache_vaddr (set_pc x y) = m_icache_vaddr y" "m_icache (set_pc x y) = m_icache y" "m_dim (set_pc x y) = m_dim y"
    "m_flow (set_pc x y) = m_flow y" "m_iregs (set_pc x y) = m_iregs y" "m_save_dim (set_pc x y) = m_save_dim y"
    "m_save_cc (set_pc x y) = m_save_cc y" "m_save_cc_valid (set_pc x y) = m_save_cc_valid y"
    "m_save_flow (set_pc x y) = m_save_flow y" for x y
    by (simp_all add: set_pc_def)
  have slot: "DELAY_SLOT (decode_exec 2 word_env) (m_pc ?u) ?u' = Inr ?v"
    by (simp add: DELAY_SLOT_def exec_at_def ifetch_def cached_fetch fv fp fr decode_shift flow_def del: decode_exec.simps)
  have cr: "m_cregs (CLEAR_FLOW trapped_cpu) = m_cregs ?h" by (simp add: CLEAR_FLOW_def trapped_cpu_def)
  have psr: "GET_PSR_PU ?v = GET_PSR_PU ?h" "GET_PSR_PIM ?v = GET_PSR_PIM ?h"
    by (simp_all add: get_macro_defs get_field_via_mask set_creg_def set_pc_def and.assoc get_field_def fr cr)
  have "\<exists>w. run_cycle (Suc 2) word_env trapped_cpu = Inr w \<and> m_pc w = iregval ?u (get_isrc1 (ucast (0xA000000040000000 :: u64))) \<and>
    GET_PSR_U w = GET_PSR_U user_cpu \<and> GET_PSR_IM w = GET_PSR_IM user_cpu \<and>
    m_dim w = (if m_dim user_cpu = DIM_FULL then DIM_TEMP else DIM_NONE) \<and>
    m_dim_cc w = m_dim_cc user_cpu \<and> m_dim_cc_valid w = m_dim_cc_valid user_cpu"
    by (rule trap_return_restores [OF f _ _ _ fr(3) bits slot _ _ psr])
      (simp_all add: fr fv fp PENDING_TRAP_def flow_def)
  then show ?thesis by (auto simp: fr GET_PSR_U_def GET_PSR_IM_def user_cpu_simps)
qed

section \<open>Properties of the drivers\<close>

lemma run_cycles_run_n: "run_cycles n E c s = run_n (nat ((c + 1) div 2)) n E s"
proof (induction n E c s rule: run_cycles.induct)
  case (1 n E c s)
  show ?case
  proof (cases "c > 0")
    case True
    have "nat ((c + 1) div 2) = Suc (nat ((c - 2 + 1) div 2))" using True by linarith
    moreover have "run_cycles n E (c - 2) = run_n (nat ((c - 2 + 1) div 2)) n E"
      using 1 True by (intro ext) simp
    ultimately show ?thesis using True by (subst run_cycles.simps) simp
  next
    case False
    then have "nat ((c + 1) div 2) = 0" by linarith
    then show ?thesis using False by (subst run_cycles.simps) simp
  qed
qed

lemma i860_cycles_scaled:
  assumes "0 \<le> sint h" "sint h * 33 < 2 ^ 31" "0 < sint f"
  shows "i860_cycles h f = Inr (sint h * 33 div sint f)"
proof -
  have "sint (h * 33) = signed_take_bit 31 (sint h * 33)" by (simp add: sint_word_ariths signed_take_bit_mult)
  also have "\<dots> = sint h * 33" using assms(1,2) by (intro signed_take_bit_int_eq_self) simp_all
  finally have "sint (h * 33) sdiv sint f = sint h * 33 div sint f"
    using assms(1,3) by (simp add: signed_divide_int_def sgn_if)
  moreover have "f \<noteq> 0" using assms(3) by auto
  ultimately show ?thesis by (simp add: i860_cycles_def)
qed

text \<open>
  The budget of \<open>i860_run_no_thread\<close>. When the messages leave the processor running, a call with a number
  of host cycles that does not overflow when scaled (times 33, divided by the frequency of the m68k in MHz,
  rounded down) ends after exactly one machine cycle for every two scaled cycles, rounded up, unless a machine
  cycle fails, and then drives the interrupt line of the m68k from the state reached; a halted processor executes
  none and leaves the line alone.
\<close>

theorem run_cycles_budget:
  assumes "0 \<le> sint h" "sint h * 33 < 2 ^ 31" "0 < sint f"
  shows "i860_run_no_thread n E a b h f s =
    (let s1 = snd (handle_msgs a b s)
     in if m_halt s1 then Inr (None, s1)
        else bnd (run_n (nat ((sint h * 33 div sint f + 1) div 2)) n E s1)
          (\<lambda>s2. Inr (Some (nd_nbic_interrupt (d_nbic (devs (bd s2)))), s2)))"
  by (simp add: i860_run_no_thread_def i860_cycles_scaled [OF assms] run_cycles_run_n split_beta Let_def)

lemma no_message: "m_port (devs (bd s)) = 0 \<Longrightarrow> handle_msgs a b s = (True, s)"
  by (simp add: handle_msgs_def set_devs_def)

text \<open>For the witnesses: a processor whose caches hold one pair of instructions everywhere in the page of its trap vector.\<close>

definition cached_cpu :: "u64 \<Rightarrow> i860" where
  "cached_cpu pair = i860_zero\<lparr>bd := board_zero, m_halt := False, m_pc := 0xFFFFFF00, m_icache := (\<lambda>_. pair),
     m_icache_vaddr := (\<lambda>_. 0xFFFFFF00)\<rparr>"

lemma nop_cycle: "\<exists>t. run_cycle 3 word_env (cached_cpu 0xA0000000A0000000) = Inr t \<and> m_pc t = 0xFFFFFF08"
proof -
  have w: "(0xA0000000A0000000 :: u32) = 0xA0000000" by simp
  show ?thesis
    by (simp add: run_cycle_def cached_cpu_def i860_zero_def CLEAR_FLOW_def clear_flow_def cached_fetch Let_def cycle_low_def
        mark_dim_def w decode_shift flow_def PENDING_TRAP_def GET_PC_UPDATED_def set_pc_def cycle_high_def poll_interrupt_def
        clr_interrupt_def SET_EPSR_INT_def set_field_def set_creg_def dim_update_def del: decode_exec.simps)
qed

text \<open>One scaled cycle of a pair of shifts into register 0 is one machine cycle.\<close>

theorem run_cycles_budget_witness:
  "\<exists>t. i860_run_no_thread 3 word_env True True 1 25 (cached_cpu 0xA0000000A0000000) =
     Inr (Some (nd_nbic_interrupt (d_nbic (devs (bd t)))), t) \<and> m_pc t = 0xFFFFFF08"
proof -
  let ?s = "cached_cpu 0xA0000000A0000000"
  have "m_port (devs (bd ?s)) = 0" by (simp add: cached_cpu_def board_zero_def nd_devs_power_on_def nd_devs_init_def nd_devs_zero_def)
  then have m: "handle_msgs True True ?s = (True, ?s)" by (rule no_message)
  obtain t where "run_cycle 3 word_env ?s = Inr t" "m_pc t = 0xFFFFFF08"
    using nop_cycle by blast
  moreover have "\<not> m_halt ?s" by (simp add: cached_cpu_def)
  ultimately show ?thesis
    using run_cycles_budget [of 1 25 3 word_env True True ?s] by (simp add: m)
qed

lemma reset_regs_iregs: "m_iregs (reset_regs n s) i = (if 0 < i \<and> i < n then UNDEF_VAL OR of_nat i
    else if i = 0 \<and> 0 < n then 0 else m_iregs s i)"
  by (induction n) (auto simp: Let_def set_fregval_s_def set_iregval_def less_Suc_eq)

lemma reset_regs_fregs: "m_fregs (reset_regs n s) i = (if 1 < i \<and> i < n then 0 else m_fregs s i)"
  by (induction n) (auto simp: Let_def set_fregval_s_def set_iregval_def less_Suc_eq)

lemma reset_fields:
  "m_pc (reset s) = 0xFFFFFF00" "m_cregs (reset s) CR_PSR = 0" "m_cregs (reset s) CR_EPSR = 0x00040601"
  "m_cregs (reset s) CR_DIRBASE = 0x80" "m_cregs (reset s) CR_FSR = UNDEF_VAL" "\<not> mem_be (reset s)"
  "\<not> m_halt (reset s)" "m_dim (reset s) = DIM_NONE" "m_flow (reset s) = 0" "bd (reset s) = bd s"
  "m_tlb_vaddr (reset s) = (\<lambda>_. 0xFFFFFFFF)" "m_icache_vaddr (reset s) = (\<lambda>_. 0xFFFFFFFF)"
  "round_mode (reset s) = round_mode s"
  "m_iregs (reset s) = (m_iregs (reset_regs 32 s))(0 := 0)" "m_fregs (reset s) = m_fregs (reset_regs 32 s)"
proof -
  have r: "m_pc (reset_regs n t) = m_pc t" "round_mode (reset_regs n t) = round_mode t" for n t
    by (induction n) (simp_all add: Let_def set_fregval_s_def set_iregval_def)
  have p: "m_iregs (reset_regs n (set_pc v s)) = m_iregs (reset_regs n s)"
    "m_fregs (reset_regs n (set_pc v s)) = m_fregs (reset_regs n s)" for n v
    by (auto simp: fun_eq_iff reset_regs_iregs reset_regs_fregs set_pc_def)
  show "m_pc (reset s) = 0xFFFFFF00" "m_cregs (reset s) CR_PSR = 0" "m_cregs (reset s) CR_EPSR = 0x00040601"
    "m_cregs (reset s) CR_DIRBASE = 0x80" "m_cregs (reset s) CR_FSR = UNDEF_VAL" "\<not> mem_be (reset s)"
    "\<not> m_halt (reset s)" "m_dim (reset s) = DIM_NONE" "m_flow (reset s) = 0" "bd (reset s) = bd s"
    "m_tlb_vaddr (reset s) = (\<lambda>_. 0xFFFFFFFF)" "m_icache_vaddr (reset s) = (\<lambda>_. 0xFFFFFFFF)"
    "round_mode (reset s) = round_mode s"
    "m_iregs (reset s) = (m_iregs (reset_regs 32 s))(0 := 0)" "m_fregs (reset s) = m_fregs (reset_regs 32 s)"
    by (simp_all add: reset_def Let_def set_creg_def invalidate_icache_def invalidate_tlb_def
        set_mem_access_def halt_def set_fregval_s_def set_iregval_def r p reset_regs_frame)
      (simp_all add: set_pc_def)
qed

text \<open>
  Reset, from any state in which f0 and f1 are zero and the board is well formed: execution
  starts in supervisor mode at FFFFFF00 in the 8-bit boot mode with paging off and both
  caches empty, in little-endian order; r0 and all floating-point registers are zero, the others
  carry the undefined-value pattern of their number, and the invariant of the processor holds.
\<close>

theorem reset_state:
  assumes "powered s"
  shows "cpu_ok (reset s) \<and> m_pc (reset s) = 0xFFFFFF00 \<and> GET_PSR_U (reset s) = 0 \<and>
    GET_DIRBASE_ATE (reset s) = 0 \<and> GET_DIRBASE_CS8 (reset s) = 1 \<and>
    \<not> mem_be (reset s) \<and> GET_EPSR_BE (reset s) = 0 \<and> \<not> m_halt (reset s) \<and>
    (\<forall>va w. \<not> tlb_hit va w (reset s)) \<and> bd (reset s) = bd s \<and> m_iregs (reset s) 0 = 0 \<and>
    (\<forall>i < 32. m_fregs (reset s) i = 0 \<and> (0 < i \<longrightarrow> m_iregs (reset s) i = UNDEF_VAL OR of_nat i))"
proof -
  have f: "m_fregs (reset s) i = 0" if "i < 32" for i
  proof -
    have "m_fregs s 0 = 0" "m_fregs s 1 = 0" using assms by (simp_all add: powered_def)
    moreover have "i = 0 \<or> i = 1 \<or> 1 < i" by arith
    ultimately show ?thesis using that by (auto simp: reset_fields reset_regs_fregs)
  qed
  have "\<not> tlb_hit va w (reset s)" for va w
    using frame_not_invalid [of va] by (auto simp: tlb_hit_def reset_fields)
  then show ?thesis
    using reset_establishes [OF assms] f
    by (simp add: reset_fields GET_PSR_U_def GET_EPSR_BE_def GET_DIRBASE_CS8_def
        GET_DIRBASE_ATE_def get_field_def reset_regs_iregs)
qed

theorem reset_state_witness: "cpu_ok (reset i860_zero) \<and> m_pc (reset i860_zero) = 0xFFFFFF00"
proof -
  have "powered i860_zero" by (simp add: powered_def i860_zero_def board_power_on_ok)
  from reset_state [OF this] show ?thesis by blast
qed

text \<open>
  Reset leaves the rounding mode of the floating-point library behind: after a program
  selected rounding toward zero (RM = 3), reset sets FSR.RM to 0 (round to nearest) but the
  library goes on rounding toward zero.
\<close>

theorem reset_keeps_rounding_mode:
  "GET_FSR_RM (st_fsr 0xC s) = 3 \<and> round_mode (st_fsr 0xC s) = 3 \<and>
   GET_FSR_RM (reset (st_fsr 0xC s)) = 0 \<and> round_mode (reset (st_fsr 0xC s)) = 3"
proof -
  have m: "(0xC :: u32) = push_bit 2 3" by simp
  have "GET_FSR_RM (st_fsr 0xC s) = 3"
  proof -
    have "get_field CR_FSR 3 2 t = drop_bit 2 (m_cregs t CR_FSR AND 0xC)" for t
      unfolding get_field_via_mask m ..
    moreover have "m_cregs (st_fsr 0xC s) CR_FSR AND 0xC = 0xC"
      by (simp add: st_fsr_def float_set_rounding_mode_def set_creg_def Let_def bit.conj_disj_distrib2 and.assoc)
    ultimately have "GET_FSR_RM (st_fsr 0xC s) = drop_bit 2 0xC" by (simp only: GET_FSR_RM_def)
    then show ?thesis by simp
  qed
  moreover have "round_mode (st_fsr v s) = GET_FSR_RM (st_fsr v s)" for v
    by (simp add: st_fsr_def float_set_rounding_mode_def GET_FSR_RM_def get_field_def Let_def)
  ultimately show ?thesis by (simp add: reset_fields GET_FSR_RM_def get_field_def)
qed

lemma blank_port:
  "m_port (nd_set_blank_state k st d) = m_port d \<or> m_port (nd_set_blank_state k st d) = m_port d OR MSG_INTR"
  by (simp add: nd_set_blank_state_def Let_def i860_interrupt_msg_def send_msg_def)

lemma set_devs_twice [simp]:
  "set_devs d (set_devs d' s) = set_devs d s" "devs (bd (set_devs d s)) = d"
  "(set_devs d s)\<lparr>bd := b\<rparr> = s\<lparr>bd := b\<rparr>" "m_pc (set_devs d s) = m_pc s"
  "m_halt (set_devs d s) = m_halt s" "m_flow (set_devs d s) = m_flow s" "bd (reset s) = bd s"
  by (simp_all add: set_devs_def reset_fields)

text \<open>The state a batch of messages leaves, up to the device state.\<close>

lemma handle_msgs_shape:
  assumes "msg = m_port (devs (bd s))" "msg AND MSG_I860_KILL = 0"
  obtains d where "m_port d = 0 \<or> m_port d = MSG_INTR"
    "handle_msgs a b s = (True, set_devs d
       (if msg AND MSG_I860_RESET \<noteq> 0 then reset (set_devs ((devs (bd s))\<lparr>m_port := 0\<rparr>) s)
        else if msg AND MSG_INTR \<noteq> 0 then intr s else s))"
proof -
  let ?d0 = "(devs (bd s))\<lparr>m_port := 0\<rparr>"
  let ?s1 = "set_devs ?d0 s"
  let ?s2 = "if msg AND MSG_I860_RESET \<noteq> 0 then reset ?s1 else if msg AND MSG_INTR \<noteq> 0 then intr ?s1 else ?s1"
  let ?d3 = "if msg AND MSG_DISPLAY_BLANK \<noteq> 0 then nd_set_blank_state True a ?d0 else ?d0"
  let ?d4 = "if msg AND MSG_VIDEO_BLANK \<noteq> 0 then nd_set_blank_state False b ?d3 else ?d3"
  have i: "intr (set_devs d t) = set_devs d (intr t)" "bd (intr t) = bd t" for d t
    by (simp_all add: intr_def or_flow_def set_devs_def)
  have d2: "devs (bd ?s2) = ?d0" by (simp add: i)
  have same: "set_devs d t = t" if "devs (bd t) = d" for d t using that by (auto simp: set_devs_def)
  have "handle_msgs a b s = (True, set_devs ?d4 ?s2)"
    using assms(2) d2 same [OF d2] unfolding handle_msgs_def assms(1) [symmetric] Let_def by simp
  also have "set_devs ?d4 ?s2 = set_devs ?d4
      (if msg AND MSG_I860_RESET \<noteq> 0 then reset ?s1 else if msg AND MSG_INTR \<noteq> 0 then intr s else s)"
    by (simp add: i)
  finally have h: "handle_msgs a b s = (True, set_devs ?d4
      (if msg AND MSG_I860_RESET \<noteq> 0 then reset ?s1 else if msg AND MSG_INTR \<noteq> 0 then intr s else s))" .
  have p3: "m_port ?d3 = 0 \<or> m_port ?d3 = MSG_INTR"
    using blank_port [of True a ?d0] by simp
  have "m_port ?d4 = 0 \<or> m_port ?d4 = MSG_INTR"
    using p3 blank_port [of False b ?d3] by (simp split: if_splits) (auto simp: or.assoc)
  with h that show thesis by blast
qed

text \<open>
  A batch of messages is consumed at once and in a fixed order: KILL stops the thread before
  anything else is done; RESET resets the processor and swallows an interrupt of the same batch; an
  interrupt alone is recorded for the next poll without moving the program counter; other
  messages touch the devices only. What is left in the port is nothing, or the interrupt that a
  blank message of the batch raised.
\<close>

theorem messages_dispatched:
  assumes "msg = m_port (devs (bd s))" "handle_msgs a b s = (go, s')"
  shows "(go \<longleftrightarrow> msg AND MSG_I860_KILL = 0) \<and> (m_port (devs (bd s')) = 0 \<or> m_port (devs (bd s')) = MSG_INTR) \<and>
    (\<not> go \<longrightarrow> s' = set_devs ((devs (bd s))\<lparr>m_port := 0\<rparr>) s) \<and>
    (go \<and> msg AND MSG_I860_RESET \<noteq> 0 \<longrightarrow>
       m_pc s' = 0xFFFFFF00 \<and> \<not> m_halt s' \<and> \<not> flow EXT_INTR s') \<and>
    (go \<and> msg AND MSG_I860_RESET = 0 \<and> msg AND MSG_INTR \<noteq> 0 \<longrightarrow>
       flow EXT_INTR s' \<and> m_pc s' = m_pc s \<and> m_halt s' = m_halt s) \<and>
    (go \<and> msg AND MSG_I860_RESET = 0 \<and> msg AND MSG_INTR = 0 \<longrightarrow> s'\<lparr>bd := bd s\<rparr> = s)"
proof (cases "msg AND MSG_I860_KILL = 0")
  case True
  obtain d where d: "m_port d = 0 \<or> m_port d = MSG_INTR"
    "handle_msgs a b s = (True, set_devs d
       (if msg AND MSG_I860_RESET \<noteq> 0 then reset (set_devs ((devs (bd s))\<lparr>m_port := 0\<rparr>) s)
        else if msg AND MSG_INTR \<noteq> 0 then intr s else s))"
    by (rule handle_msgs_shape [OF assms(1) True])
  have i: "m_pc (intr s) = m_pc s" "m_halt (intr s) = m_halt s" "flow EXT_INTR (set_devs d t) = flow EXT_INTR t" for t
    by (simp_all add: intr_def or_flow_def flow_def)
  have r: "\<not> flow EXT_INTR (reset t)" for t by (simp add: flow_def reset_fields)
  show ?thesis using assms(2) True d by (auto simp: reset_fields(1,7) r i poll_frame(1))
next
  case False
  then show ?thesis using assms by (auto simp: handle_msgs_def Let_def)
qed

theorem messages_dispatched_witness:
  "fst (handle_msgs True True (set_devs (nd_devs_zero\<lparr>m_port := 9\<rparr>) i860_zero)) \<and>
   m_pc (snd (handle_msgs True True (set_devs (nd_devs_zero\<lparr>m_port := 9\<rparr>) i860_zero))) = 0xFFFFFF00"
  using messages_dispatched [of 9 "set_devs (nd_devs_zero\<lparr>m_port := 9\<rparr>) i860_zero" True True
      "fst (handle_msgs True True (set_devs (nd_devs_zero\<lparr>m_port := 9\<rparr>) i860_zero))"
      "snd (handle_msgs True True (set_devs (nd_devs_zero\<lparr>m_port := 9\<rparr>) i860_zero))"]
  by simp

end
