(* ===== verification/Nd_System.thy ===== *)
theory Nd_System
  imports I860_Exec
begin

text \<open>
  The NeXTdimension as a system of two processors: the i860 with its two drivers
  (src/dimension/i860.cpp), and the m68k, which posts messages, halts and resumes the i860
  and accesses the board (src/dimension/dimension.c, i860dbg.cpp). A step is one call of a driver or
  one access, so the reachable states cover every order in which the emulator can interleave the
  two at that grain; the lemmas show what holds in all of them.
\<close>

section \<open>Pausing\<close>

definition pause :: "bool \<Rightarrow> i860 \<Rightarrow> i860" where
  "pause st s = s\<lparr>m_halt := st\<rparr>"

definition post_msg :: "u32 \<Rightarrow> i860 \<Rightarrow> i860" where
  "post_msg msg s = set_devs (send_msg msg (devs (bd s))) s"

section \<open>Steps\<close>

inductive nd_step :: "nat \<Rightarrow> env \<Rightarrow> i860 \<Rightarrow> i860 \<Rightarrow> bool" for n :: nat and E :: env where
  slice: "i860_run_no_thread n E bld blv cycles freq s = Inr (line, s') \<Longrightarrow> nd_step n E s s'"
| turn: "run_turn n E bld blv s = Inr (go, s') \<Longrightarrow> nd_step n E s s'"
| message: "nd_step n E s (post_msg msg s)"
| paused: "nd_step n E s (pause st s)"
| m68k_lget: "nd_board_lget (bd s) a = Inr (v, d, b) \<Longrightarrow> nd_step n E s (s\<lparr>bd := b\<rparr>)"
| m68k_wget: "nd_board_wget (bd s) a = Inr (v, b) \<Longrightarrow> nd_step n E s (s\<lparr>bd := b\<rparr>)"
| m68k_bget: "nd_board_bget (bd s) a = Inr (v, b) \<Longrightarrow> nd_step n E s (s\<lparr>bd := b\<rparr>)"
| m68k_lput: "nd_board_lput (bd s) a v = Inr b \<Longrightarrow> nd_step n E s (s\<lparr>bd := b\<rparr>)"
| m68k_wput: "nd_board_wput (bd s) a v = Inr b \<Longrightarrow> nd_step n E s (s\<lparr>bd := b\<rparr>)"
| m68k_bput: "nd_board_bput (bd s) a v = Inr b \<Longrightarrow> nd_step n E s (s\<lparr>bd := b\<rparr>)"

inductive_cases nd_stepE: "nd_step n E s s'"

text \<open>The states after the reset the initialisation posts.\<close>

inductive reachable :: "nat \<Rightarrow> env \<Rightarrow> i860 \<Rightarrow> bool" for n :: nat and E :: env where
  start: "powered s \<Longrightarrow> reachable n E (reset s)"
| step: "reachable n E s \<Longrightarrow> nd_step n E s s' \<Longrightarrow> reachable n E s'"

lemma m68k_access_ok:
  assumes "board_ok b"
  shows "nd_board_lget b a = Inr (v, d, b') \<Longrightarrow> board_ok b'"
    and "nd_board_wget b a = Inr (x, b') \<Longrightarrow> board_ok b'"
    and "nd_board_bget b a = Inr (y, b') \<Longrightarrow> board_ok b'"
    and "nd_board_lput b a w = Inr b' \<Longrightarrow> board_ok b'"
    and "nd_board_wput b a h = Inr b' \<Longrightarrow> board_ok b'"
    and "nd_board_bput b a l = Inr b' \<Longrightarrow> board_ok b'"
  using nd_access_holds(1,2,3) [OF assms, of "a OR ND_BOARD_BITS"] nd_access_holds(4) [OF assms, of "a OR ND_BOARD_BITS" w]
    nd_access_holds(5) [OF assms, of "a OR ND_BOARD_BITS" "ucast h"] nd_access_holds(6) [OF assms, of "a OR ND_BOARD_BITS" "ucast l"]
  by (auto simp: nd_board_lget_def nd_board_wget_def nd_board_bget_def nd_board_lput_def
      nd_board_wput_def nd_board_bput_def Let_def bnd_eq_Inr)

lemma m68k_returns:
  assumes b: "board_ok b"
  shows "(a OR ND_BOARD_BITS) AND 3 = 0 \<Longrightarrow> returns (\<lambda>(x, d, b'). board_ok b') (nd_board_lget b a)"
    and "(a OR ND_BOARD_BITS) AND 3 = 0 \<Longrightarrow> returns board_ok (nd_board_lput b a w)"
    and "(a OR ND_BOARD_BITS) AND 1 = 0 \<Longrightarrow> returns (\<lambda>(x, b'). board_ok b') (nd_board_wget b a)"
    and "(a OR ND_BOARD_BITS) AND 1 = 0 \<Longrightarrow> returns board_ok (nd_board_wput b a h)"
    and "returns (\<lambda>(x, b'). board_ok b') (nd_board_bget b a)"
    and "returns board_ok (nd_board_bput b a l)"
  using nd_access_returns(1-3) [OF b, of "a OR ND_BOARD_BITS"] nd_access_returns(4) [OF b, of "a OR ND_BOARD_BITS" w]
    nd_access_returns(5) [OF b, of "a OR ND_BOARD_BITS" "ucast h"] nd_access_returns(6) [OF b, of "a OR ND_BOARD_BITS" "ucast l"]
  by (auto simp: nd_board_lget_def nd_board_wget_def nd_board_bget_def nd_board_lput_def
      nd_board_wput_def nd_board_bput_def Let_def returns_iff)

lemma post_msg_ok: "cpu_ok s \<Longrightarrow> cpu_ok (post_msg msg s)"
  unfolding post_msg_def by (rule set_devs_ok) (simp_all add: devs_of_cpu)

lemma i860_run_no_thread_ok: "cpu_ok s \<Longrightarrow> ok_result (i860_run_no_thread n E a b h f s)"
  using handle_msgs_ok [of s a b]
  by (cases "i860_cycles h f") (auto simp: i860_run_no_thread_def split_beta Let_def intro!: ok_bnd [OF run_cycles_ok])

lemma run_turn_ok: "cpu_ok s \<Longrightarrow> ok_result (run_turn n E a b s)"
  using handle_msgs_ok [of s a b]
  by (auto simp: run_turn_def split_beta Let_def intro!: ok_bnd [OF run_n_ok])

lemma nd_step_ok:
  assumes "nd_step n E s s'" "cpu_ok s"
  shows "cpu_ok s'"
  using assms(1)
proof cases
  case (slice bld blv cycles freq line)
  show ?thesis using holdsD [OF i860_run_no_thread_ok [OF assms(2)] slice] by simp
next
  case (turn bld blv go)
  show ?thesis using holdsD [OF run_turn_ok [OF assms(2)] turn] by simp
qed (use assms(2) cpu_ok_board [OF assms(2)] in
  \<open>auto simp: post_msg_ok pause_def intro: cpu_ok_bd m68k_access_ok\<close>)

lemma reachable_cpu_ok: "reachable n E s \<Longrightarrow> cpu_ok s"
  by (induction rule: reachable.induct) (auto intro: reset_establishes nd_step_ok)

text \<open>For the witnesses: a machine just reset, paused and written to by the m68k.\<close>

lemma reachable_example:
  "\<exists>b. nd_board_lput board_power_on 0xF8000100 7 = Inr b \<and>
     reachable n E ((pause True (reset i860_zero))\<lparr>bd := b\<rparr>)"
proof -
  have "powered i860_zero" by (simp add: powered_def i860_zero_def board_power_on_ok)
  then have r: "reachable n E (pause True (reset i860_zero))"
    by (blast intro: start step paused)
  have "bd (pause True (reset i860_zero)) = board_power_on"
    by (simp add: pause_def i860_zero_def)
  moreover have "\<exists>b. nd_board_lput board_power_on 0xF8000100 7 = Inr b"
    using nd_access_returns(4) [OF board_power_on_ok, of "0xF8000100" 7]
    by (auto simp: nd_board_lput_def returns_iff)
  ultimately show ?thesis using step [OF r m68k_lput] by metis
qed

section \<open>Properties\<close>

text \<open>
  C1. The invariant of the system: in every state the two processors can reach after reset, r0, f0
  and f1 are zero, the processor type bits of EPSR have their reset value and ITI is clear in
  DIRBASE, every tag of the instruction cache and of the TLB is aligned or invalid, and
  the bank masks, device indices and cursors of the board keep every access inside its array.
\<close>

theorem reachable_invariant:
  assumes "reachable n E s"
  shows "cpu_ok s \<and> m_iregs s 0 = 0 \<and> m_fregs s 0 = 0 \<and> m_fregs s 1 = 0 \<and>
    m_cregs s CR_EPSR AND 0x003C1FFF = 0x00040601 \<and> m_cregs s CR_DIRBASE AND 0x20 = 0 \<and>
    board_ok (bd s)"
  using reachable_cpu_ok [OF assms] by (simp add: cpu_ok_def)

theorem reachable_invariant_witness:
  "\<exists>b. nd_board_lput board_power_on 0xF8000100 7 = Inr b \<and>
     cpu_ok ((pause True (reset i860_zero))\<lparr>bd := b\<rparr>)"
  using reachable_example [of 3 word_env] reachable_invariant by blast

text \<open>
  C4. In every reachable state an aligned access of either processor succeeds and leaves a board on which the next
  one does: a load or store of the i860 of 1, 2, 4, 8 or 16 bytes in either byte order, and a read or write of
  the m68k of a longword at a multiple of 4, of a word at an even address and of a byte at any address.
\<close>

theorem reachable_accesses_return:
  assumes "reachable n E s" "access_width w" "a AND (of_nat w - 1) = 0" "c AND 3 = 0" "e AND 1 = 0"
  shows "(\<exists>d b. rdmem be w (bd s) a = Inr (d, b) \<and> board_ok b) \<and>
    (\<exists>b. wrmem be w (bd s) a v = Inr b \<and> board_ok b) \<and>
    (\<exists>x d b. nd_board_lget (bd s) c = Inr (x, d, b) \<and> board_ok b) \<and>
    (\<exists>b. nd_board_lput (bd s) c u = Inr b \<and> board_ok b) \<and>
    (\<exists>x b. nd_board_wget (bd s) e = Inr (x, b) \<and> board_ok b) \<and>
    (\<exists>b. nd_board_wput (bd s) e h = Inr b \<and> board_ok b) \<and>
    (\<exists>x b. nd_board_bget (bd s) g = Inr (x, b) \<and> board_ok b) \<and>
    (\<exists>b. nd_board_bput (bd s) g l = Inr b \<and> board_ok b)"
proof -
  have b: "board_ok (bd s)" using reachable_cpu_ok [OF assms(1)] by (rule cpu_ok_board)
  have c: "(c OR ND_BOARD_BITS) AND 3 = 0" using assms(4) by (simp add: board_bits_align)
  have e: "(e OR ND_BOARD_BITS) AND 1 = 0" using assms(5) by (simp add: board_bits_align)
  show ?thesis
    using aligned_returns [OF b assms(2,3), of be v] m68k_returns(1) [OF b c] m68k_returns(2) [OF b c, of u] m68k_returns(3) [OF b e]
      m68k_returns(4) [OF b e, of h] m68k_returns(5) [OF b, of g] m68k_returns(6) [OF b, of g l] by (simp add: returns_iff split_paired_Ex case_prod_beta) blast
qed

theorem reachable_accesses_return_witness:
  "\<exists>b. nd_board_lput board_power_on 0xF8000100 7 = Inr b \<and>
     (\<exists>d b'. rdmem True 8 b 0x28000000 = Inr (d, b'))"
proof -
  obtain b where b: "nd_board_lput board_power_on 0xF8000100 7 = Inr b"
    "reachable 3 word_env ((pause True (reset i860_zero))\<lparr>bd := b\<rparr>)"
    using reachable_example [of 3 word_env] by blast
  from reachable_accesses_return [OF b(2), of 8 "0x28000000" 0 0 True]
  have "\<exists>d b'. rdmem True 8 b 0x28000000 = Inr (d, b')" by (fastforce simp: access_width_def)
  with b(1) show ?thesis by blast
qed

end
