(* ===== verification/Cyc_Int.thy ===== *)
theory Cyc_Int
  imports Nd_Prelude
begin

text \<open>
  The table of timed events (src/cycInt.c, src/includes/cycInt.h), the cycle counter that drives it
  (M68000_AddCycles of src/includes/m68000.h) and the loop of the translated CPU core that calls the
  handlers of due events (Uae2026JitCpuCheckTicks of src/m68000.c).

  Times are 64-bit words read as signed numbers. The configuration and the host clock are
  arguments. The diagnostic counters and traces, which do not change the table, are left out.
\<close>

section \<open>State\<close>

type_synonym i64 = "64 word"

datatype cyc_type = CYC_INT_NONE | CYC_INT_CPU | CYC_INT_US

datatype int_function =
    NULL | Video_InterruptHandler_VBL | Hardclock_InterruptHandler | Mouse_Handler
  | ESP_InterruptHandler | ESP_IO_Handler | M2MDMA_IO_Handler | MO_InterruptHandler | MO_IO_Handler
  | ECC_IO_Handler | ENET_IO_Handler | FLP_IO_Handler | SND_Out_Handler | SND_In_Handler
  | Printer_IO_Handler | Main_EventHandlerInterrupt | nd_vbl_handler | nd_video_vbl_handler

record INTERRUPTHANDLER =
  int_type :: cyc_type
  int_time :: i64
  pFunction :: int_function

record cycint =
  InterruptHandlers :: "nat \<Rightarrow> INTERRUPTHANDLER"
  PendingInterrupt :: INTERRUPTHANDLER
  ActiveInterrupt :: nat
  nCyclesOver :: i64
  nCyclesMainCounter :: i64
  usCheckCycles :: u32

record sysconf =
  bRealtime :: bool
  nCpuFreq :: u32

abbreviation "INTERRUPT_NULL \<equiv> (0 :: nat)"
abbreviation "INTERRUPT_VIDEO_VBL \<equiv> (1 :: nat)"
abbreviation "INTERRUPT_ESP_IO \<equiv> (5 :: nat)"
abbreviation "INTERRUPT_EVENT_LOOP \<equiv> (15 :: nat)"
abbreviation "MAX_INTERRUPTS \<equiv> (18 :: nat)"
abbreviation "INT64_MAX \<equiv> (0x7FFFFFFFFFFFFFFF :: i64)"

definition pIntHandlerFunctions :: "int_function list" where
  "pIntHandlerFunctions =
     [NULL, Video_InterruptHandler_VBL, Hardclock_InterruptHandler, Mouse_Handler,
      ESP_InterruptHandler, ESP_IO_Handler, M2MDMA_IO_Handler, MO_InterruptHandler, MO_IO_Handler,
      ECC_IO_Handler, ENET_IO_Handler, FLP_IO_Handler, SND_Out_Handler, SND_In_Handler,
      Printer_IO_Handler, Main_EventHandlerInterrupt, nd_vbl_handler, nd_video_vbl_handler]"

section \<open>Operations\<close>

definition CycInt_Reset :: "cycint \<Rightarrow> cycint" where
  "CycInt_Reset s =
     s\<lparr>PendingInterrupt := (PendingInterrupt s)\<lparr>int_time := 0\<rparr>,
       ActiveInterrupt := 0, nCyclesOver := 0, nCyclesMainCounter := 0, usCheckCycles := 0,
       InterruptHandlers := (\<lambda>i. if i < MAX_INTERRUPTS
         then \<lparr>int_type = CYC_INT_NONE, int_time = INT64_MAX, pFunction = pIntHandlerFunctions ! i\<rparr>
         else InterruptHandlers s i)\<rparr>"

text \<open>The scan for the event with the lowest count: its count and its index.\<close>

definition lowest_step :: "(nat \<Rightarrow> INTERRUPTHANDLER) \<Rightarrow> nat \<Rightarrow> i64 \<times> nat \<Rightarrow> i64 \<times> nat" where
  "lowest_step h i p =
     (if int_type (h i) = CYC_INT_CPU \<and> sint (int_time (h i)) < sint (fst p)
      then (int_time (h i), i) else p)"

definition lowest :: "(nat \<Rightarrow> INTERRUPTHANDLER) \<Rightarrow> i64 \<times> nat" where
  "lowest h = fold (lowest_step h) [INTERRUPT_NULL + 1 ..< MAX_INTERRUPTS] (INT64_MAX, INTERRUPT_NULL)"

definition CycInt_SetNewInterrupt :: "cycint \<Rightarrow> cycint" where
  "CycInt_SetNewInterrupt s =
     (let l = snd (lowest (InterruptHandlers s))
      in s\<lparr>PendingInterrupt := InterruptHandlers s l, ActiveInterrupt := l\<rparr>)"

definition CycInt_UpdateInterrupt :: "cycint \<Rightarrow> cycint" where
  "CycInt_UpdateInterrupt s =
     s\<lparr>InterruptHandlers := (\<lambda>i. if i < MAX_INTERRUPTS \<and> int_type (InterruptHandlers s i) = CYC_INT_CPU
         then (InterruptHandlers s i)\<lparr>int_time := int_time (InterruptHandlers s i) - nCyclesOver s\<rparr>
         else InterruptHandlers s i),
       nCyclesOver := 0\<rparr>"

definition CycInt_SetNewInterruptUs :: "sysconf \<Rightarrow> i64 \<Rightarrow> cycint \<Rightarrow> bool \<times> cycint" where
  "CycInt_SetNewInterruptUs E now s =
     (if bRealtime E then
        case find (\<lambda>i. int_type (InterruptHandlers s i) = CYC_INT_US \<and>
                       sint (int_time (InterruptHandlers s i)) < sint now) [0 ..< MAX_INTERRUPTS] of
          Some i \<Rightarrow> (True, s\<lparr>PendingInterrupt := (InterruptHandlers s i)\<lparr>int_time := - 1\<rparr>,
                            ActiveInterrupt := i\<rparr>)
        | None \<Rightarrow> (False, s)
      else (False, s))"

definition set_int_type :: "nat \<Rightarrow> cyc_type \<Rightarrow> cycint \<Rightarrow> cycint res" where
  "set_int_type h t s =
     bnd (arr_get MAX_INTERRUPTS (InterruptHandlers s) h) (\<lambda>x.
     bnd (arr_put MAX_INTERRUPTS (InterruptHandlers s) h (x\<lparr>int_type := t\<rparr>)) (\<lambda>a.
       Inr (s\<lparr>InterruptHandlers := a\<rparr>)))"

definition set_int_time :: "nat \<Rightarrow> i64 \<Rightarrow> cycint \<Rightarrow> cycint res" where
  "set_int_time h t s =
     bnd (arr_get MAX_INTERRUPTS (InterruptHandlers s) h) (\<lambda>x.
     bnd (arr_put MAX_INTERRUPTS (InterruptHandlers s) h (x\<lparr>int_time := t\<rparr>)) (\<lambda>a.
       Inr (s\<lparr>InterruptHandlers := a\<rparr>)))"

definition CycInt_AcknowledgeInterrupt :: "cycint \<Rightarrow> cycint res" where
  "CycInt_AcknowledgeInterrupt s =
     (let s1 = CycInt_UpdateInterrupt s
      in bnd (set_int_type (ActiveInterrupt s1) CYC_INT_NONE s1) (\<lambda>s2. Inr (CycInt_SetNewInterrupt s2)))"

definition CycInt_AddRelativeInterruptCycles :: "i64 \<Rightarrow> nat \<Rightarrow> cycint \<Rightarrow> cycint res" where
  "CycInt_AddRelativeInterruptCycles CycleTime Handler s =
     (if sint CycleTime < 0 then Inl AssertFailure
      else
        let s1 = (if 0 < ActiveInterrupt s then CycInt_UpdateInterrupt s else s)
        in bnd (set_int_type Handler CYC_INT_CPU s1) (\<lambda>s2.
           bnd (set_int_time Handler CycleTime s2) (\<lambda>s3. Inr (CycInt_SetNewInterrupt s3))))"

definition CycInt_AddRelativeInterruptUs ::
  "sysconf \<Rightarrow> i64 \<Rightarrow> i64 \<Rightarrow> i64 \<Rightarrow> nat \<Rightarrow> cycint \<Rightarrow> cycint res" where
  "CycInt_AddRelativeInterruptUs E now us usreal Handler s =
     (if sint us < 0 then Inl AssertFailure
      else if bRealtime E then
        let s1 = (if 0 < ActiveInterrupt s then CycInt_UpdateInterrupt s else s);
            us1 = (if 0 < sint usreal then usreal else us)
        in bnd (set_int_type Handler CYC_INT_US s1) (\<lambda>s2.
           bnd (set_int_time Handler (now + us1) s2) (\<lambda>s3. Inr (CycInt_SetNewInterrupt s3)))
      else CycInt_AddRelativeInterruptCycles (us * scast (nCpuFreq E)) Handler s)"

definition CycInt_AddRelativeInterruptUsCycles ::
  "sysconf \<Rightarrow> i64 \<Rightarrow> i64 \<Rightarrow> nat \<Rightarrow> cycint \<Rightarrow> cycint res" where
  "CycInt_AddRelativeInterruptUsCycles E us usreal Handler s =
     (let us1 = (if bRealtime E \<and> 0 < sint usreal then usreal else us)
      in CycInt_AddRelativeInterruptCycles (us1 * scast (nCpuFreq E)) Handler s)"

definition CycInt_RemovePendingInterrupt :: "nat \<Rightarrow> cycint \<Rightarrow> cycint res" where
  "CycInt_RemovePendingInterrupt Handler s =
     bnd (set_int_type Handler CYC_INT_NONE (CycInt_UpdateInterrupt s))
       (\<lambda>s2. Inr (CycInt_SetNewInterrupt s2))"

definition CycInt_InterruptActive :: "nat \<Rightarrow> cycint \<Rightarrow> bool res" where
  "CycInt_InterruptActive Handler s =
     bnd (arr_get MAX_INTERRUPTS (InterruptHandlers s) Handler) (\<lambda>x. Inr (int_type x \<noteq> CYC_INT_NONE))"

text \<open>Time passes.\<close>

definition M68000_AddCycles :: "sysconf \<Rightarrow> i64 \<Rightarrow> u32 \<Rightarrow> cycint \<Rightarrow> cycint" where
  "M68000_AddCycles E now cycles s0 =
     (let c = scast cycles :: i64;
          s1 = s0\<lparr>nCyclesOver := nCyclesOver s0 + c\<rparr>;
          s2 = (if int_type (PendingInterrupt s1) = CYC_INT_CPU
                then s1\<lparr>PendingInterrupt := (PendingInterrupt s1)\<lparr>int_time := int_time (PendingInterrupt s1) - c\<rparr>\<rparr>
                else s1);
          s3 = (if sint (usCheckCycles s2) < 0 then
                  let (found, t) = CycInt_SetNewInterruptUs E now s2
                  in if found then t else t\<lparr>usCheckCycles := 100 * nCpuFreq E\<rparr>
                else s2\<lparr>usCheckCycles := usCheckCycles s2 - cycles\<rparr>)
      in s3\<lparr>nCyclesMainCounter := nCyclesMainCounter s3 + c\<rparr>)"

definition Uae2026JitCyclesToNextDeadline :: "cycint \<Rightarrow> i64" where
  "Uae2026JitCyclesToNextDeadline s =
     (let p = PendingInterrupt s
      in if int_type p = CYC_INT_CPU \<and> 0 < sint (int_time p) then int_time p else - 1)"

definition Uae2026JitPendingDeadlineDue :: "cycint \<Rightarrow> bool" where
  "Uae2026JitPendingDeadlineDue s =
     (let p = PendingInterrupt s in int_type p = CYC_INT_CPU \<and> sint (int_time p) \<le> 0)"

section \<open>The loop over due events\<close>

text \<open>
  The machine as the loop sees it. The handlers are the devices': they come as the argument
  \<open>call\<close>, the host clock as \<open>now\<close>. The result \<open>None\<close> is the exhausted bound.
\<close>

record 'r machine =
  m_cyc :: cycint
  spcflags :: u32
  m_rest :: 'r

abbreviation "SPCFLAG_STOP \<equiv> (2 :: u32)"
abbreviation "SPCFLAG_INT \<equiv> (8 :: u32)"

definition event_due :: "'r machine \<Rightarrow> bool" where
  "event_due w \<longleftrightarrow> sint (int_time (PendingInterrupt (m_cyc w))) \<le> 0 \<and>
     pFunction (PendingInterrupt (m_cyc w)) \<noteq> NULL \<and> spcflags w AND SPCFLAG_STOP = 0"

fun check_ticks :: "sysconf \<Rightarrow> ('r machine \<Rightarrow> i64) \<Rightarrow> (int_function \<Rightarrow> 'r machine \<Rightarrow> 'r machine res) \<Rightarrow>
    nat \<Rightarrow> nat \<Rightarrow> 'r machine \<Rightarrow> 'r machine option res" where
  "check_ticks E now call 0 calls w = Inr None"
| "check_ticks E now call (Suc n) calls w =
     (if \<not> event_due w then Inr (Some w)
      else if pFunction (PendingInterrupt (m_cyc w)) = Main_EventHandlerInterrupt then
        bnd (CycInt_AcknowledgeInterrupt (m_cyc w)) (\<lambda>c.
        bnd (CycInt_AddRelativeInterruptUs E (now w) 5000 0 INTERRUPT_EVENT_LOOP c) (\<lambda>c1.
          check_ticks E now call n calls (w\<lparr>m_cyc := c1\<rparr>)))
      else if 32 \<le> calls then Inr (Some (w\<lparr>spcflags := spcflags w OR SPCFLAG_INT\<rparr>))
      else bnd (call (pFunction (PendingInterrupt (m_cyc w))) w)
             (\<lambda>w1. check_ticks E now call n (calls + 1) w1))"

section \<open>Invariant\<close>

text \<open>
  Every entry keeps its handler, the entry 0 is never armed, and the pending event is a copy of the
  active entry, up to its count.
\<close>

definition cyc_ok :: "cycint \<Rightarrow> bool" where
  "cyc_ok s \<longleftrightarrow> ActiveInterrupt s < MAX_INTERRUPTS \<and> int_type (InterruptHandlers s 0) = CYC_INT_NONE \<and>
     (\<forall>i < MAX_INTERRUPTS. pFunction (InterruptHandlers s i) = pIntHandlerFunctions ! i) \<and>
     pFunction (PendingInterrupt s) = pIntHandlerFunctions ! ActiveInterrupt s"

text \<open>The count left to each event armed in CPU cycles.\<close>

definition deadline :: "cycint \<Rightarrow> nat \<Rightarrow> i64 option" where
  "deadline s i =
     (if i < MAX_INTERRUPTS \<and> int_type (InterruptHandlers s i) = CYC_INT_CPU
      then Some (int_time (InterruptHandlers s i) - nCyclesOver s) else None)"

lemma fold_lowest:
  "fold (lowest_step h) xs p = q \<Longrightarrow>
     (q = p \<or> snd q \<in> set xs \<and> int_type (h (snd q)) = CYC_INT_CPU \<and> fst q = int_time (h (snd q))) \<and>
     sint (fst q) \<le> sint (fst p) \<and>
     (\<forall>i \<in> set xs. int_type (h i) = CYC_INT_CPU \<longrightarrow> sint (fst q) \<le> sint (int_time (h i)))"
proof (induction xs arbitrary: p)
  case (Cons x xs)
  from Cons.prems have "fold (lowest_step h) xs (lowest_step h x p) = q" by simp
  from Cons.IH [OF this] show ?case by (auto simp: lowest_step_def split: if_splits)
qed simp

lemma sint_max: "sint INT64_MAX \<le> sint x \<Longrightarrow> INT64_MAX = x"
proof -
  assume "sint INT64_MAX \<le> sint x"
  moreover have "sint x \<le> 2 ^ 63 - 1" using sint_lt [of x] by simp
  moreover have "sint INT64_MAX = 2 ^ 63 - 1" by simp
  ultimately have "sint INT64_MAX = sint x" by linarith
  then show ?thesis by (rule signed_word_eqI)
qed

lemma lowest_spec:
  fixes h
  defines "l \<equiv> snd (lowest h)"
  shows "l < MAX_INTERRUPTS"
    "l \<noteq> 0 \<Longrightarrow> int_type (h l) = CYC_INT_CPU"
    "0 < i \<Longrightarrow> i < MAX_INTERRUPTS \<Longrightarrow> int_type (h i) = CYC_INT_CPU \<Longrightarrow>
      (l \<noteq> 0 \<and> sint (int_time (h l)) \<le> sint (int_time (h i))) \<or> int_time (h i) = INT64_MAX"
proof -
  have m: "\<not> sint INT64_MAX \<le> sint x" if "INT64_MAX \<noteq> x" for x :: i64 using that sint_max by blast
  note f = fold_lowest [of h "[0 + 1 ..< 18]" "(INT64_MAX, 0)" "lowest h", OF lowest_def [symmetric]]
  show "l < MAX_INTERRUPTS" using f by (auto simp: l_def)
  show "l \<noteq> 0 \<Longrightarrow> int_type (h l) = CYC_INT_CPU" using f by (auto simp: l_def)
  show "(l \<noteq> 0 \<and> sint (int_time (h l)) \<le> sint (int_time (h i))) \<or> int_time (h i) = INT64_MAX"
    if "0 < i" "i < MAX_INTERRUPTS" "int_type (h i) = CYC_INT_CPU"
    using f that m by (auto simp: l_def)
qed
section \<open>Operations on the invariant and the deadlines\<close>

lemma handlers_distinct: "i < MAX_INTERRUPTS \<Longrightarrow> j < MAX_INTERRUPTS \<Longrightarrow>
    pIntHandlerFunctions ! i = pIntHandlerFunctions ! j \<Longrightarrow> i = j"
proof -
  have "distinct pIntHandlerFunctions" "length pIntHandlerFunctions = MAX_INTERRUPTS"
    by (simp_all add: pIntHandlerFunctions_def)
  then show "i < MAX_INTERRUPTS \<Longrightarrow> j < MAX_INTERRUPTS \<Longrightarrow>
    pIntHandlerFunctions ! i = pIntHandlerFunctions ! j \<Longrightarrow> i = j" by (metis nth_eq_iff_index_eq)
qed

lemma set_int_in [simp]:
  "h < MAX_INTERRUPTS \<Longrightarrow> set_int_type h t s =
     Inr (s\<lparr>InterruptHandlers := (InterruptHandlers s)(h := (InterruptHandlers s h)\<lparr>int_type := t\<rparr>)\<rparr>)"
  "h < MAX_INTERRUPTS \<Longrightarrow> set_int_time h c s =
     Inr (s\<lparr>InterruptHandlers := (InterruptHandlers s)(h := (InterruptHandlers s h)\<lparr>int_time := c\<rparr>)\<rparr>)"
  by (simp_all add: set_int_type_def set_int_time_def)

text \<open>What the table alone has to satisfy.\<close>

definition table_ok :: "cycint \<Rightarrow> bool" where
  "table_ok s \<longleftrightarrow> int_type (InterruptHandlers s 0) = CYC_INT_NONE \<and>
     (\<forall>i < MAX_INTERRUPTS. pFunction (InterruptHandlers s i) = pIntHandlerFunctions ! i)"

lemma SetNewInterrupt_ok:
  assumes "table_ok s"
  shows "cyc_ok (CycInt_SetNewInterrupt s)" "deadline (CycInt_SetNewInterrupt s) = deadline s"
  using assms lowest_spec(1) [of "InterruptHandlers s"]
  by (simp_all add: cyc_ok_def table_ok_def CycInt_SetNewInterrupt_def Let_def deadline_def fun_eq_iff)

lemma UpdateInterrupt_ok:
  assumes "cyc_ok s"
  shows "table_ok (CycInt_UpdateInterrupt s)" "deadline (CycInt_UpdateInterrupt s) = deadline s"
    "nCyclesOver (CycInt_UpdateInterrupt s) = 0"
    "ActiveInterrupt (CycInt_UpdateInterrupt s) = ActiveInterrupt s"
  using assms by (auto simp: cyc_ok_def table_ok_def CycInt_UpdateInterrupt_def deadline_def fun_eq_iff)

text \<open>The pending event is due first among the events counted in CPU cycles.\<close>

definition earliest :: "cycint \<Rightarrow> bool" where
  "earliest s \<longleftrightarrow>
     (\<forall>i d. deadline s i = Some d \<and> d \<noteq> INT64_MAX \<longrightarrow>
        deadline s (ActiveInterrupt s) = Some (int_time (PendingInterrupt s)) \<and>
        sint (int_time (PendingInterrupt s)) \<le> sint d)"

lemma SetNewInterrupt_earliest:
  assumes "table_ok s" "nCyclesOver s = 0"
  shows "earliest (CycInt_SetNewInterrupt s)"
    "deadline s i = Some d \<Longrightarrow> d \<noteq> INT64_MAX \<Longrightarrow> 0 < ActiveInterrupt (CycInt_SetNewInterrupt s)"
proof -
  let ?l = "snd (lowest (InterruptHandlers s))"
  have l: "?l < MAX_INTERRUPTS" "?l \<noteq> 0 \<Longrightarrow> int_type (InterruptHandlers s ?l) = CYC_INT_CPU"
    by (rule lowest_spec)+
  have *: "?l \<noteq> 0 \<and> sint (int_time (InterruptHandlers s ?l)) \<le> sint d"
    if "deadline s i = Some d" "d \<noteq> INT64_MAX" for i d
  proof -
    have i: "i < MAX_INTERRUPTS" "int_type (InterruptHandlers s i) = CYC_INT_CPU" "int_time (InterruptHandlers s i) = d"
      using that assms(2) by (auto simp: deadline_def split: if_splits)
    moreover have "0 < i" using assms(1) i(2) by (cases i) (auto simp: table_ok_def)
    ultimately show ?thesis using lowest_spec(3) [of i "InterruptHandlers s"] that(2) by auto
  qed
  show "earliest (CycInt_SetNewInterrupt s)"
    unfolding earliest_def SetNewInterrupt_ok(2) [OF assms(1)]
  proof (intro allI impI)
    fix i d assume "deadline s i = Some d \<and> d \<noteq> INT64_MAX"
    then have "?l \<noteq> 0" "sint (int_time (InterruptHandlers s ?l)) \<le> sint d" using * by blast+
    then show "deadline s (ActiveInterrupt (CycInt_SetNewInterrupt s)) =
        Some (int_time (PendingInterrupt (CycInt_SetNewInterrupt s))) \<and>
      sint (int_time (PendingInterrupt (CycInt_SetNewInterrupt s))) \<le> sint d"
      using l assms(2) by (simp add: CycInt_SetNewInterrupt_def Let_def deadline_def)
  qed
  show "deadline s i = Some d \<Longrightarrow> d \<noteq> INT64_MAX \<Longrightarrow> 0 < ActiveInterrupt (CycInt_SetNewInterrupt s)"
    using * [of i d] by (simp add: CycInt_SetNewInterrupt_def Let_def)
qed

text \<open>Changing the entry \<open>h\<close> of a table.\<close>

lemma table_ok_put:
  "table_ok s \<Longrightarrow> (h = 0 \<longrightarrow> int_type x = CYC_INT_NONE) \<Longrightarrow> pFunction x = pFunction (InterruptHandlers s h) \<Longrightarrow>
    table_ok (s\<lparr>InterruptHandlers := (InterruptHandlers s)(h := x)\<rparr>)"
  by (auto simp: table_ok_def)

lemma deadline_put:
  "h < MAX_INTERRUPTS \<Longrightarrow> deadline (s\<lparr>InterruptHandlers := (InterruptHandlers s)(h := x)\<rparr>) =
    (deadline s)(h := if int_type x = CYC_INT_CPU then Some (int_time x - nCyclesOver s) else None)"
  by (auto simp: deadline_def fun_eq_iff)

lemma cyc_table_ok: "cyc_ok s \<Longrightarrow> table_ok s"
  by (simp add: cyc_ok_def table_ok_def)

lemma AddCycles_arms:
  assumes s: "cyc_ok s" and h: "0 < h" "h < MAX_INTERRUPTS" and c: "0 \<le> sint c"
    and busy: "0 < ActiveInterrupt s \<or> nCyclesOver s = 0"
  shows "\<exists>t. CycInt_AddRelativeInterruptCycles c h s = Inr t \<and> cyc_ok t \<and> earliest t \<and> nCyclesOver t = 0 \<and>
    deadline t = (deadline s)(h \<mapsto> c) \<and> (c \<noteq> INT64_MAX \<longrightarrow> 0 < ActiveInterrupt t)"
proof -
  define s1 where "s1 = (if 0 < ActiveInterrupt s then CycInt_UpdateInterrupt s else s)"
  have s1: "table_ok s1" "deadline s1 = deadline s" "nCyclesOver s1 = 0"
    using s busy UpdateInterrupt_ok [OF s] cyc_table_ok [OF s] by (auto simp: s1_def)
  let ?x = "(InterruptHandlers s1 h)\<lparr>int_type := CYC_INT_CPU, int_time := c\<rparr>"
  let ?s2 = "s1\<lparr>InterruptHandlers := (InterruptHandlers s1)(h := ?x)\<rparr>"
  have ok: "table_ok ?s2" using s1(1) h by (intro table_ok_put) simp_all
  have d: "deadline ?s2 = (deadline s)(h \<mapsto> c)"
    by (simp only: deadline_put [OF h(2)] s1) simp
  have "CycInt_AddRelativeInterruptCycles c h s = Inr (CycInt_SetNewInterrupt ?s2)"
    using c h(2) by (simp add: CycInt_AddRelativeInterruptCycles_def s1_def [symmetric])
  moreover have "nCyclesOver (CycInt_SetNewInterrupt ?s2) = 0"
    using s1(3) by (simp add: CycInt_SetNewInterrupt_def Let_def)
  ultimately show ?thesis
    using SetNewInterrupt_ok [OF ok] SetNewInterrupt_earliest [OF ok] s1(3) d
      SetNewInterrupt_earliest(2) [OF ok, of h c] by simp
qed

lemma AddCycles_idle:
  assumes s: "cyc_ok s" and idle: "ActiveInterrupt s = 0" and h: "0 < h" "h < MAX_INTERRUPTS"
    and c: "0 \<le> sint c" "c \<noteq> INT64_MAX"
  shows "\<exists>t. CycInt_AddRelativeInterruptCycles c h s = Inr t \<and> cyc_ok t \<and> 0 < ActiveInterrupt t \<and>
    deadline t = (deadline s)(h \<mapsto> c - nCyclesOver s)"
proof -
  let ?x = "(InterruptHandlers s h)\<lparr>int_type := CYC_INT_CPU, int_time := c\<rparr>"
  let ?s2 = "s\<lparr>InterruptHandlers := (InterruptHandlers s)(h := ?x)\<rparr>"
  have ok: "table_ok ?s2" using cyc_table_ok [OF s] h by (intro table_ok_put) simp_all
  have "CycInt_AddRelativeInterruptCycles c h s = Inr (CycInt_SetNewInterrupt ?s2)"
    using c h(2) idle by (simp add: CycInt_AddRelativeInterruptCycles_def)
  moreover have "0 < ActiveInterrupt (CycInt_SetNewInterrupt ?s2)"
    using lowest_spec(3) [of h "InterruptHandlers ?s2"] h c(2) by (simp add: CycInt_SetNewInterrupt_def Let_def)
  moreover have "deadline ?s2 = (deadline s)(h \<mapsto> c - nCyclesOver s)"
    by (simp only: deadline_put [OF h(2)]) simp
  ultimately show ?thesis using SetNewInterrupt_ok [OF ok] by simp
qed

lemma disarms:
  assumes s: "cyc_ok s" and h: "h < MAX_INTERRUPTS"
  shows "\<exists>t. bnd (set_int_type h CYC_INT_NONE (CycInt_UpdateInterrupt s)) (\<lambda>s2. Inr (CycInt_SetNewInterrupt s2)) = Inr t \<and>
    cyc_ok t \<and> earliest t \<and> nCyclesOver t = 0 \<and> deadline t = (deadline s)(h := None)"
proof -
  note u = UpdateInterrupt_ok [OF s]
  let ?s1 = "CycInt_UpdateInterrupt s"
  let ?x = "(InterruptHandlers ?s1 h)\<lparr>int_type := CYC_INT_NONE\<rparr>"
  let ?s2 = "?s1\<lparr>InterruptHandlers := (InterruptHandlers ?s1)(h := ?x)\<rparr>"
  have ok: "table_ok ?s2" using u(1) by (intro table_ok_put) simp_all
  have d: "deadline ?s2 = (deadline s)(h := None)"
    by (simp only: deadline_put [OF h] u) simp
  have "nCyclesOver (CycInt_SetNewInterrupt ?s2) = 0"
    using u(3) by (simp add: CycInt_SetNewInterrupt_def Let_def)
  then show ?thesis
    using SetNewInterrupt_ok [OF ok] SetNewInterrupt_earliest(1) [OF ok] u(3) d h by simp
qed

lemma Acknowledge_disarms:
  assumes "cyc_ok s"
  shows "\<exists>t. CycInt_AcknowledgeInterrupt s = Inr t \<and> cyc_ok t \<and> earliest t \<and> nCyclesOver t = 0 \<and>
    deadline t = (deadline s)(ActiveInterrupt s := None)"
proof -
  have a: "ActiveInterrupt s < MAX_INTERRUPTS" using assms by (simp add: cyc_ok_def)
  show ?thesis
    using disarms [OF assms a] by (simp add: CycInt_AcknowledgeInterrupt_def Let_def UpdateInterrupt_ok(4) [OF assms])
qed

lemma Remove_disarms:
  "cyc_ok s \<Longrightarrow> h < MAX_INTERRUPTS \<Longrightarrow> \<exists>t. CycInt_RemovePendingInterrupt h s = Inr t \<and> cyc_ok t \<and> earliest t \<and>
    nCyclesOver t = 0 \<and> deadline t = (deadline s)(h := None)"
  unfolding CycInt_RemovePendingInterrupt_def by (rule disarms)
lemma AddUs_realtime:
  assumes s: "cyc_ok s" and h: "0 < h" "h < MAX_INTERRUPTS" and us: "0 \<le> sint us" and E: "bRealtime E"
    and busy: "0 < ActiveInterrupt s \<or> nCyclesOver s = 0"
  shows "\<exists>t. CycInt_AddRelativeInterruptUs E now us usreal h s = Inr t \<and> cyc_ok t \<and> earliest t \<and>
    deadline t = (deadline s)(h := None) \<and> ActiveInterrupt t \<noteq> h"
proof -
  define s1 where "s1 = (if 0 < ActiveInterrupt s then CycInt_UpdateInterrupt s else s)"
  have s1: "table_ok s1" "deadline s1 = deadline s" "nCyclesOver s1 = 0"
    using s busy UpdateInterrupt_ok [OF s] cyc_table_ok [OF s] by (auto simp: s1_def)
  let ?x = "(InterruptHandlers s1 h)\<lparr>int_type := CYC_INT_US, int_time := now + (if 0 < sint usreal then usreal else us)\<rparr>"
  let ?s2 = "s1\<lparr>InterruptHandlers := (InterruptHandlers s1)(h := ?x)\<rparr>"
  have ok: "table_ok ?s2" using s1(1) h by (intro table_ok_put) simp_all
  have d: "deadline ?s2 = (deadline s)(h := None)"
    by (simp only: deadline_put [OF h(2)] s1) simp
  have "CycInt_AddRelativeInterruptUs E now us usreal h s = Inr (CycInt_SetNewInterrupt ?s2)"
    using us h(2) E by (simp add: CycInt_AddRelativeInterruptUs_def s1_def [symmetric] Let_def)
  moreover have "ActiveInterrupt (CycInt_SetNewInterrupt ?s2) \<noteq> h"
  proof
    let ?l = "snd (lowest (InterruptHandlers ?s2))"
    assume "ActiveInterrupt (CycInt_SetNewInterrupt ?s2) = h"
    then have "?l = h" by (simp add: CycInt_SetNewInterrupt_def Let_def)
    then show False using lowest_spec(2) [of "InterruptHandlers ?s2"] h(1) by simp
  qed
  ultimately show ?thesis
    using SetNewInterrupt_ok [OF ok] SetNewInterrupt_earliest [OF ok] s1(3) d by simp
qed

lemma SetNewInterruptUs_ok:
  assumes "table_ok s" "cyc_ok s" "CycInt_SetNewInterruptUs E now s = (b, t)"
  shows "cyc_ok t" "deadline t = deadline s" "0 < ActiveInterrupt s \<Longrightarrow> 0 < ActiveInterrupt t"
    "nCyclesOver t = nCyclesOver s"
proof -
  consider "t = s" | i where "i < MAX_INTERRUPTS" "int_type (InterruptHandlers s i) = CYC_INT_US"
      "t = s\<lparr>PendingInterrupt := (InterruptHandlers s i)\<lparr>int_time := - 1\<rparr>, ActiveInterrupt := i\<rparr>"
  proof (cases "bRealtime E")
    case True
    show thesis
    proof (cases "find (\<lambda>i. int_type (InterruptHandlers s i) = CYC_INT_US \<and>
                       sint (int_time (InterruptHandlers s i)) < sint now) [0 ..< MAX_INTERRUPTS]")
      case None
      then show thesis using that(1) assms(3) True by (simp add: CycInt_SetNewInterruptUs_def)
    next
      case (Some i)
      then have "i \<in> set [0 ..< MAX_INTERRUPTS]" "int_type (InterruptHandlers s i) = CYC_INT_US"
        by (metis (mono_tags, lifting) find_Some_iff nth_mem)+
      then show thesis using that(2) assms(3) True Some by (simp add: CycInt_SetNewInterruptUs_def)
    qed
  next
    case False
    then show thesis using that(1) assms(3) by (simp add: CycInt_SetNewInterruptUs_def)
  qed
  note c = this
  show "cyc_ok t" "deadline t = deadline s" "nCyclesOver t = nCyclesOver s"
    using c assms(1,2) by (cases; simp add: cyc_ok_def table_ok_def deadline_def fun_eq_iff)+
  show "0 < ActiveInterrupt t" if "0 < ActiveInterrupt s"
    using c
  proof cases
    case (2 i)
    have "i \<noteq> 0"
    proof
      assume "i = 0"
      then show False using 2 assms(1) by (simp add: table_ok_def)
    qed
    then show ?thesis using 2 by simp
  qed (use that in simp)
qed

lemma deadline_cong: "InterruptHandlers s = InterruptHandlers t \<Longrightarrow> nCyclesOver s = nCyclesOver t \<Longrightarrow> deadline s = deadline t"
  by (simp add: deadline_def fun_eq_iff)

lemma AddCycles_elapse:
  fixes E now n
  assumes s: "cyc_ok s"
  defines "t \<equiv> M68000_AddCycles E now n s"
  shows "cyc_ok t" "deadline t = (\<lambda>i. map_option (\<lambda>d. d - scast n) (deadline s i))"
    "0 < ActiveInterrupt s \<Longrightarrow> 0 < ActiveInterrupt t"
proof -
  define s2 where "s2 = (let s1 = s\<lparr>nCyclesOver := nCyclesOver s + scast n\<rparr> in
    if int_type (PendingInterrupt s1) = CYC_INT_CPU
    then s1\<lparr>PendingInterrupt := (PendingInterrupt s1)\<lparr>int_time := int_time (PendingInterrupt s1) - scast n\<rparr>\<rparr>
    else s1)"
  have s2: "cyc_ok s2" "ActiveInterrupt s2 = ActiveInterrupt s"
    using s by (simp_all add: s2_def cyc_ok_def Let_def)
  have d2: "deadline s2 = (\<lambda>i. map_option (\<lambda>d. d - scast n) (deadline s i))"
    by (auto simp: s2_def deadline_def fun_eq_iff Let_def)
  obtain b u where u: "CycInt_SetNewInterruptUs E now s2 = (b, u)" by fastforce
  note us = SetNewInterruptUs_ok [OF cyc_table_ok [OF s2(1)] s2(1) u]
  have [simp]: "cyc_ok (x\<lparr>nCyclesMainCounter := v\<rparr>) = cyc_ok x" "cyc_ok (x\<lparr>usCheckCycles := k\<rparr>) = cyc_ok x"
    "deadline (x\<lparr>nCyclesMainCounter := v\<rparr>) = deadline x" "deadline (x\<lparr>usCheckCycles := k\<rparr>) = deadline x" for x v k
    by (simp_all add: cyc_ok_def deadline_def fun_eq_iff)
  have t: "t = (let s3 = (if sint (usCheckCycles s2) < 0 then if b then u else u\<lparr>usCheckCycles := 100 * nCpuFreq E\<rparr>
      else s2\<lparr>usCheckCycles := usCheckCycles s2 - n\<rparr>)
    in s3\<lparr>nCyclesMainCounter := nCyclesMainCounter s3 + scast n\<rparr>)"
    by (simp only: t_def M68000_AddCycles_def Let_def s2_def [unfolded Let_def, symmetric] u) simp
  show "cyc_ok t" "deadline t = (\<lambda>i. map_option (\<lambda>d. d - scast n) (deadline s i))"
    unfolding t Let_def using us s2 d2 by (simp_all split: if_split)
  show "0 < ActiveInterrupt t" if "0 < ActiveInterrupt s"
    unfolding t Let_def using us(3) s2 that by (simp split: if_split)
qed
section \<open>A queue of timed events\<close>

text \<open>
  What the devices rely on: arming an event sets its count and no other, cancelling one removes it,
  and time passing lowers every count by the same number of cycles.
\<close>

locale event_queue =
  fixes busy :: "'q \<Rightarrow> bool" and left :: "'q \<Rightarrow> nat \<Rightarrow> i64 option"
    and arm :: "nat \<Rightarrow> i64 \<Rightarrow> 'q \<Rightarrow> 'q res" and cancel :: "nat \<Rightarrow> 'q \<Rightarrow> 'q res"
    and elapse :: "u32 \<Rightarrow> 'q \<Rightarrow> 'q"
  assumes arm: "busy q \<Longrightarrow> 0 < h \<Longrightarrow> h < MAX_INTERRUPTS \<Longrightarrow> 0 \<le> sint c \<Longrightarrow> c \<noteq> INT64_MAX \<Longrightarrow>
      \<exists>r. arm h c q = Inr r \<and> busy r \<and> left r = (left q)(h \<mapsto> c)"
    and cancel: "busy q \<Longrightarrow> h < MAX_INTERRUPTS \<Longrightarrow> \<exists>r. cancel h q = Inr r \<and> left r = (left q)(h := None)"
    and elapse: "busy q \<Longrightarrow> busy (elapse n q) \<and> left (elapse n q) = (\<lambda>i. map_option (\<lambda>d. d - scast n) (left q i))"
begin

definition armable :: "(nat \<times> i64) set" where
  "armable = {(h, c). 0 < h \<and> h < MAX_INTERRUPTS \<and> 0 \<le> sint c \<and> c \<noteq> INT64_MAX}"

lemma arm_each:
  "busy q \<Longrightarrow> set xs \<subseteq> armable \<Longrightarrow>
    \<exists>r. each (\<lambda>(h, c). arm h c) xs q = Inr r \<and> busy r \<and> left r = left q ++ map_of (rev xs)"
proof (induction xs arbitrary: q)
  case (Cons x xs)
  obtain h c where x: "x = (h, c)" by (cases x)
  with Cons.prems obtain q1 where q1: "arm h c q = Inr q1" "busy q1" "left q1 = (left q)(h \<mapsto> c)"
    using arm [of q h c] by (auto simp: armable_def)
  from Cons.IH [OF q1(2)] Cons.prems obtain r where
    "each (\<lambda>(h, c). arm h c) xs q1 = Inr r" "busy r" "left r = left q1 ++ map_of (rev xs)" by auto
  then show ?case using q1 x by (simp add: map_add_def fun_eq_iff split: option.splits)
qed simp

lemma elapse_each: "busy q \<Longrightarrow> busy (fold elapse ns q) \<and>
    left (fold elapse ns q) = (\<lambda>i. map_option (\<lambda>d. d - (\<Sum>n\<leftarrow>ns. scast n)) (left q i))"
proof (induction ns arbitrary: q)
  case (Cons n ns)
  have "busy (elapse n q)" "left (elapse n q) = (\<lambda>i. map_option (\<lambda>d. d - scast n) (left q i))"
    using elapse [OF Cons.prems] by simp_all
  then show ?case using Cons.IH by (simp add: option.map_comp o_def diff_diff_eq)
qed (simp add: option.map_ident)

lemma arm_wait_cancel:
  assumes "busy q" "set xs \<subseteq> armable" "h < MAX_INTERRUPTS"
  shows "\<exists>r u. each (\<lambda>(h, c). arm h c) xs q = Inr r \<and> cancel h (fold elapse ns r) = Inr u \<and>
    left u = (\<lambda>i. map_option (\<lambda>d. d - (\<Sum>n\<leftarrow>ns. scast n)) ((left q ++ map_of (rev xs)) i))(h := None)"
proof -
  obtain r where r: "each (\<lambda>(h, c). arm h c) xs q = Inr r" "busy r" "left r = left q ++ map_of (rev xs)"
    using arm_each [OF assms(1,2)] by blast
  show ?thesis using r elapse_each [OF r(2), of ns] cancel [OF _ assms(3), of "fold elapse ns r"] by auto
qed

end

definition cyc_busy :: "cycint \<Rightarrow> bool" where
  "cyc_busy s \<longleftrightarrow> cyc_ok s \<and> 0 < ActiveInterrupt s"

interpretation cycles: event_queue cyc_busy deadline "\<lambda>h c. CycInt_AddRelativeInterruptCycles c h"
  CycInt_RemovePendingInterrupt "M68000_AddCycles E now"
  for E now
proof
  show "\<exists>r. CycInt_AddRelativeInterruptCycles c h q = Inr r \<and> cyc_busy r \<and> deadline r = (deadline q)(h \<mapsto> c)"
    if "cyc_busy q" "0 < h" "h < MAX_INTERRUPTS" "0 \<le> sint c" "c \<noteq> INT64_MAX" for q h c
    using AddCycles_arms [of q h c] that by (auto simp: cyc_busy_def)
  show "\<exists>r. CycInt_RemovePendingInterrupt h q = Inr r \<and> deadline r = (deadline q)(h := None)"
    if "cyc_busy q" "h < MAX_INTERRUPTS" for q h
    using Remove_disarms [of q h] that by (auto simp: cyc_busy_def)
  show "cyc_busy (M68000_AddCycles E now n q) \<and>
      deadline (M68000_AddCycles E now n q) = (\<lambda>i. map_option (\<lambda>d. d - scast n) (deadline q i))"
    if "cyc_busy q" for q n
    using AddCycles_elapse [of q E now n] that by (auto simp: cyc_busy_def)
qed

section \<open>The loop over due events ends\<close>

lemma event_period:
  assumes "0 < sint (f :: u32)"
  shows "0 < sint (5000 * scast f :: i64)" "5000 * scast f \<noteq> INT64_MAX"
proof -
  have "sint f < 2 ^ 31" using sint_lt [of f] by simp
  then have b: "0 < 5000 * sint f" "5000 * sint f < 2 ^ 62" using assms by simp_all
  have "sint (word_of_int (5000 * sint f) :: i64) = 5000 * sint f"
    by (subst sint_sbintrunc', rule signed_take_bit_int_eq_self) (use b in simp_all)
  moreover have "(5000 * scast f :: i64) = word_of_int (5000 * sint f)"
    unfolding scast_eq wi_hom_mult [symmetric] by simp
  ultimately have s: "sint (5000 * scast f :: i64) = 5000 * sint f" by (simp only:)
  show "0 < sint (5000 * scast f :: i64)" unfolding s by (rule b(1))
  show "5000 * scast f \<noteq> INT64_MAX"
  proof
    assume "5000 * scast f = INT64_MAX"
    then have "5000 * sint f = sint INT64_MAX" using s by (simp only:)
    moreover have "sint INT64_MAX = 2 ^ 63 - 1" by simp
    ultimately show False using b(2) by simp
  qed
qed

lemma event_branch:
  assumes s: "cyc_ok s" and E: "0 < sint (nCpuFreq E)"
  shows "\<exists>c t. CycInt_AcknowledgeInterrupt s = Inr c \<and>
    CycInt_AddRelativeInterruptUs E now 5000 0 INTERRUPT_EVENT_LOOP c = Inr t \<and> cyc_ok t \<and>
    (sint (int_time (PendingInterrupt t)) \<le> 0 \<longrightarrow> pFunction (PendingInterrupt t) \<noteq> Main_EventHandlerInterrupt)"
proof -
  obtain c where c: "CycInt_AcknowledgeInterrupt s = Inr c" "cyc_ok c" "nCyclesOver c = 0"
    using Acknowledge_disarms [OF s] by blast
  have fn: "pFunction (PendingInterrupt t) \<noteq> Main_EventHandlerInterrupt"
    if "cyc_ok t" "ActiveInterrupt t \<noteq> INTERRUPT_EVENT_LOOP" for t
  proof
    assume p: "pFunction (PendingInterrupt t) = Main_EventHandlerInterrupt"
    have "pIntHandlerFunctions ! INTERRUPT_EVENT_LOOP = Main_EventHandlerInterrupt"
      by (simp add: pIntHandlerFunctions_def)
    moreover have a: "ActiveInterrupt t < MAX_INTERRUPTS" using that(1) by (simp add: cyc_ok_def)
    moreover have "pIntHandlerFunctions ! ActiveInterrupt t = Main_EventHandlerInterrupt"
      using that(1) p by (simp only: cyc_ok_def)
    ultimately show False using handlers_distinct [OF a, of INTERRUPT_EVENT_LOOP] that(2) by simp
  qed
  show ?thesis
  proof (cases "bRealtime E")
    case True
    obtain t where "CycInt_AddRelativeInterruptUs E now 5000 0 INTERRUPT_EVENT_LOOP c = Inr t" "cyc_ok t"
      "ActiveInterrupt t \<noteq> INTERRUPT_EVENT_LOOP"
      using AddUs_realtime [OF c(2), of INTERRUPT_EVENT_LOOP 5000 E now 0] c(3) True by auto
    then show ?thesis using c(1) fn by blast
  next
    case False
    let ?f = "5000 * scast (nCpuFreq E) :: i64"
    have f: "0 < sint ?f" "?f \<noteq> INT64_MAX" using event_period [OF E] by simp_all
    obtain t where t: "CycInt_AddRelativeInterruptCycles ?f INTERRUPT_EVENT_LOOP c = Inr t" "cyc_ok t" "earliest t"
      "deadline t = (deadline c)(INTERRUPT_EVENT_LOOP \<mapsto> ?f)" "nCyclesOver t = 0"
      using AddCycles_arms [OF c(2), of INTERRUPT_EVENT_LOOP ?f] c(3) f by auto
    have "pFunction (PendingInterrupt t) \<noteq> Main_EventHandlerInterrupt" if "sint (int_time (PendingInterrupt t)) \<le> 0"
    proof (rule fn [OF t(2)])
      show "ActiveInterrupt t \<noteq> INTERRUPT_EVENT_LOOP"
      proof
        assume a: "ActiveInterrupt t = INTERRUPT_EVENT_LOOP"
        have "deadline t INTERRUPT_EVENT_LOOP = Some ?f" using t(4) by simp
        then have "deadline t INTERRUPT_EVENT_LOOP = Some (int_time (PendingInterrupt t))"
          using t(3) a f(2) unfolding earliest_def by (metis (no_types))
        then show False using t(4) f that by simp
      qed
    qed
    then show ?thesis using c(1) t(1,2) False by (auto simp: CycInt_AddRelativeInterruptUs_def)
  qed
qed
definition event_next :: "'r machine \<Rightarrow> bool" where
  "event_next w \<longleftrightarrow> event_due w \<and> pFunction (PendingInterrupt (m_cyc w)) = Main_EventHandlerInterrupt"

lemma check_ticks_ends:
  assumes call: "\<And>f w. cyc_ok (m_cyc w) \<Longrightarrow> returns (\<lambda>w. cyc_ok (m_cyc w)) (call f w)"
    and E: "0 < sint (nCpuFreq E)"
  shows "cyc_ok (m_cyc w) \<Longrightarrow> calls \<le> 32 \<Longrightarrow> 2 * (32 - calls) + (if event_next w then 2 else 1) \<le> n \<Longrightarrow>
    \<exists>v. check_ticks E now call n calls w = Inr (Some v) \<and> cyc_ok (m_cyc v) \<and>
      (\<not> event_due v \<or> spcflags v AND SPCFLAG_INT \<noteq> 0)"
proof (induction n arbitrary: calls w)
  case (Suc n)
  show ?case
  proof (cases "event_due w")
    case due: True
    show ?thesis
    proof (cases "pFunction (PendingInterrupt (m_cyc w)) = Main_EventHandlerInterrupt")
      case True
      obtain c t where ct: "CycInt_AcknowledgeInterrupt (m_cyc w) = Inr c"
        "CycInt_AddRelativeInterruptUs E (now w) 5000 0 INTERRUPT_EVENT_LOOP c = Inr t" "cyc_ok t"
        "sint (int_time (PendingInterrupt t)) \<le> 0 \<longrightarrow> pFunction (PendingInterrupt t) \<noteq> Main_EventHandlerInterrupt"
        using event_branch [OF Suc.prems(1) E] by blast
      let ?w = "w\<lparr>m_cyc := t\<rparr>"
      have next_w: "\<not> event_next ?w" using ct(4) by (auto simp: event_next_def event_due_def)
      have "event_next w" using due True by (simp add: event_next_def)
      then have "2 * (32 - calls) + (if event_next ?w then 2 else 1) \<le> n"
        using Suc.prems(3) by (simp add: next_w)
      with Suc.IH [of ?w calls] ct Suc.prems(2) due True show ?thesis by simp
    next
      case False
      show ?thesis
      proof (cases "32 \<le> calls")
        case True
        have "(x OR SPCFLAG_INT) AND SPCFLAG_INT = SPCFLAG_INT" for x :: u32
          by (rule bit_word_eqI) (auto simp: bit_simps)
        then show ?thesis using due False True Suc.prems(1) by simp
      next
        case False2: False
        obtain w1 where w1: "call (pFunction (PendingInterrupt (m_cyc w))) w = Inr w1" "cyc_ok (m_cyc w1)"
          using call [OF Suc.prems(1)] by (auto simp: returns_iff)
        have "2 * (32 - (calls + 1)) + (if event_next w1 then 2 else 1) \<le> n"
        proof -
          have "2 * (32 - (calls + 1)) + 2 = 2 * (32 - calls)" using False2 by simp
          moreover have "2 * (32 - calls) \<le> n" using Suc.prems(3) by (simp split: if_splits)
          ultimately show ?thesis by simp
        qed
        with Suc.IH [of w1 "calls + 1"] w1 False2 due False show ?thesis by simp
      qed
    qed
  qed (use Suc.prems in simp)
qed (simp split: if_splits)

section \<open>Properties of the timed events\<close>

text \<open>
  C26. Timers are independent. While any event is active, arming a series of events, letting any
  batches of cycles pass and removing one event leaves every other event with exactly its own count
  less the cycles passed: no operation disturbs the deadline of another device. Times wrap modulo
  2^64.
\<close>
theorem timers_independent:
  assumes "cyc_busy s" "set xs \<subseteq> {(h, c). 0 < h \<and> h < MAX_INTERRUPTS \<and> 0 \<le> sint c \<and> c \<noteq> INT64_MAX}"
    "h < MAX_INTERRUPTS"
  shows "\<exists>t u. each (\<lambda>(h, c). CycInt_AddRelativeInterruptCycles c h) xs s = Inr t \<and>
    CycInt_RemovePendingInterrupt h (fold (M68000_AddCycles E now) ns t) = Inr u \<and>
    deadline u = (\<lambda>i. map_option (\<lambda>d. d - (\<Sum>n\<leftarrow>ns. scast n)) ((deadline s ++ map_of (rev xs)) i))(h := None)"
  using cycles.arm_wait_cancel [of s xs h E now ns] assms by (simp add: cycles.armable_def)

text \<open>
  The pending event is the next one. Acknowledging and removing an event, and arming one while another is active
  or while no cycles have been counted since the last event, each return with the pending event due no later than
  any other event counted in cycles, and with its count equal to the count of its table entry. (Arming the first
  event after idle cycles is excluded: the idle cycles are then charged to it, as \<open>idle_cycles_charged\<close> shows.)
\<close>
theorem pending_is_earliest:
  assumes "cyc_ok s" "0 < ActiveInterrupt s \<or> nCyclesOver s = 0" "0 < h" "h < MAX_INTERRUPTS" "0 \<le> sint c"
  shows "returns earliest (CycInt_AddRelativeInterruptCycles c h s) \<and>
    returns earliest (CycInt_AcknowledgeInterrupt s) \<and> returns earliest (CycInt_RemovePendingInterrupt h s)"
  using AddCycles_arms [OF assms(1,3,4,5,2)] Acknowledge_disarms [OF assms(1)] Remove_disarms [OF assms(1,4)]
  by (auto simp: returns_iff)

text \<open>
  C27. The loop over due events ends. Whatever the handlers of the devices do to the table, as long
  as they return and keep it well formed, 66 rounds are enough for the loop of the translated core:
  at the end no event is due or the interrupt flag is raised after 32 calls.
\<close>
theorem due_events_drained:
  assumes "\<And>f w. cyc_ok (m_cyc w) \<Longrightarrow> returns (\<lambda>w. cyc_ok (m_cyc w)) (call f w)" "0 < sint (nCpuFreq E)"
    "cyc_ok (m_cyc w)"
  shows "\<exists>v. check_ticks E now call 66 0 w = Inr (Some v) \<and> cyc_ok (m_cyc v) \<and>
    (\<not> event_due v \<or> spcflags v AND SPCFLAG_INT \<noteq> 0)"
  by (rule check_ticks_ends [OF assms]) simp_all

definition cyc_boot :: cycint where
  "cyc_boot = CycInt_Reset
     (let h = \<lparr>int_type = CYC_INT_NONE, int_time = 0, pFunction = NULL\<rparr>
      in \<lparr>InterruptHandlers = (\<lambda>_. h), PendingInterrupt = h, ActiveInterrupt = 0, nCyclesOver = 0,
          nCyclesMainCounter = 0, usCheckCycles = 0\<rparr>)"

definition cyc_vbl :: cycint where
  "cyc_vbl = (case CycInt_AddRelativeInterruptCycles 25000 INTERRUPT_VIDEO_VBL cyc_boot of
     Inl e \<Rightarrow> cyc_boot | Inr s \<Rightarrow> s)"

lemma cyc_boot_ok: "cyc_ok cyc_boot" "nCyclesOver cyc_boot = 0"
  by (auto simp: cyc_boot_def CycInt_Reset_def cyc_ok_def Let_def pIntHandlerFunctions_def)

lemma cyc_vbl_busy: "cyc_busy cyc_vbl"
  using AddCycles_arms [OF cyc_boot_ok(1), of INTERRUPT_VIDEO_VBL 25000] cyc_boot_ok(2)
  by (auto simp: cyc_vbl_def cyc_busy_def)

lemma timers_independent_witness:
  "\<exists>t u. each (\<lambda>(h, c). CycInt_AddRelativeInterruptCycles c h) [(5, 100), (7, 30)] cyc_vbl = Inr t \<and>
    CycInt_RemovePendingInterrupt 7 (fold (M68000_AddCycles \<lparr>bRealtime = True, nCpuFreq = 25\<rparr> 0) [4, 6] t) = Inr u \<and>
    deadline u 5 = Some 90"
proof -
  have "\<exists>t u. each (\<lambda>(h, c). CycInt_AddRelativeInterruptCycles c h) [(5, 100), (7, 30)] cyc_vbl = Inr t \<and>
    CycInt_RemovePendingInterrupt 7 (fold (M68000_AddCycles \<lparr>bRealtime = True, nCpuFreq = 25\<rparr> 0) [4, 6] t) = Inr u \<and>
    deadline u = (\<lambda>i. map_option (\<lambda>d. d - (\<Sum>n\<leftarrow>[4, 6]. scast (n :: u32))) ((deadline cyc_vbl ++ map_of (rev [(5, 100), (7, 30)])) i))(7 := None)"
    by (rule timers_independent [OF cyc_vbl_busy]) auto
  then show ?thesis by fastforce
qed

lemma pending_is_earliest_witness:
  "returns earliest (CycInt_AddRelativeInterruptCycles 700 5 cyc_boot) \<and>
    returns earliest (CycInt_AcknowledgeInterrupt cyc_boot) \<and> returns earliest (CycInt_RemovePendingInterrupt 5 cyc_boot)"
  by (rule pending_is_earliest) (simp_all add: cyc_boot_ok)

lemma due_events_drained_witness:
  "\<exists>v. check_ticks \<lparr>bRealtime = False, nCpuFreq = 25\<rparr> (\<lambda>_. 0) (\<lambda>f w. Inr w) 66 0
      \<lparr>m_cyc = cyc_vbl\<lparr>PendingInterrupt := (PendingInterrupt cyc_vbl)\<lparr>int_time := 0\<rparr>\<rparr>, spcflags = 0, m_rest = ()\<rparr> =
        Inr (Some v) \<and> cyc_ok (m_cyc v) \<and> (\<not> event_due v \<or> spcflags v AND SPCFLAG_INT \<noteq> 0)"
  using cyc_vbl_busy by (intro due_events_drained) (simp_all add: cyc_busy_def cyc_ok_def)

text \<open>
  A timer armed while none is active loses time. Cycles that pass while no event is active stay
  in nCyclesOver: arming the first event does not clear them, so when a second event is armed the
  first one is charged with cycles from before it existed. After 1000 idle cycles, an event armed
  with 500 cycles is overdue by 500 cycles as soon as another one is armed.
\<close>
theorem idle_cycles_charged:
  "\<exists>t. bnd (CycInt_AddRelativeInterruptCycles 500 INTERRUPT_ESP_IO
       (M68000_AddCycles \<lparr>bRealtime = True, nCpuFreq = 25\<rparr> 0 1000 cyc_boot))
     (CycInt_AddRelativeInterruptCycles 9000 INTERRUPT_VIDEO_VBL) = Inr t \<and>
   deadline t INTERRUPT_ESP_IO = Some (- 500) \<and> sint (int_time (PendingInterrupt t)) \<le> - 500"
proof -
  let ?s = "M68000_AddCycles \<lparr>bRealtime = True, nCpuFreq = 25\<rparr> 0 1000 cyc_boot"
  have s: "cyc_ok ?s" using AddCycles_elapse(1) [OF cyc_boot_ok(1)] .
  have idle: "ActiveInterrupt ?s = 0" "nCyclesOver ?s = 1000"
    by (simp_all add: M68000_AddCycles_def cyc_boot_def CycInt_Reset_def Let_def)
  obtain t1 where t1: "CycInt_AddRelativeInterruptCycles 500 INTERRUPT_ESP_IO ?s = Inr t1" "cyc_ok t1"
    "deadline t1 = (deadline ?s)(INTERRUPT_ESP_IO \<mapsto> 500 - nCyclesOver ?s)" "0 < ActiveInterrupt t1"
    using AddCycles_idle [OF s idle(1), of INTERRUPT_ESP_IO 500] by auto
  obtain t where t: "CycInt_AddRelativeInterruptCycles 9000 INTERRUPT_VIDEO_VBL t1 = Inr t" "earliest t"
    "deadline t = (deadline t1)(INTERRUPT_VIDEO_VBL \<mapsto> 9000)"
    using AddCycles_arms [OF t1(2), of INTERRUPT_VIDEO_VBL 9000] t1(4) by auto
  have d: "deadline t INTERRUPT_ESP_IO = Some (- 500)" using t(3) t1(3) idle(2) by simp
  then have "sint (int_time (PendingInterrupt t)) \<le> sint (- 500 :: i64)"
    using t(2) unfolding earliest_def by fastforce
  then show ?thesis using t1(1) t(1) d by simp
qed
end
