(* ===== verification/Rtc_Nvram.thy ===== *)
theory Rtc_Nvram
  imports Nd_Prelude "HOL-Library.Signed_Division"
begin

text \<open>
  The real-time clock chips and their battery-backed memory (src/rtcnvram.c): the bit-serial
  interface of the MC68HC68T1 and of the MCCS1850, their clock and control registers, the direct
  access of the translated CPU core, and the initial contents of the memory.

  The calendar functions of the C library (which depend on the time zone of the host) and the fixed
  time of the environment variable are arguments, the clock of the host is part of the state. The
  text produced by get\_rtc\_ram\_info is not modelled.
\<close>

section \<open>State\<close>

type_synonym time_t = "64 word"

datatype RTCCHIP = MC68HC68T1 | MCCS1850

record tm =
  tm_sec :: int
  tm_min :: int
  tm_hour :: int
  tm_wday :: int
  tm_mday :: int
  tm_mon :: int
  tm_year :: int

record rtc_env =
  nRTC :: RTCCHIP
  fixed_time :: "time_t option"
  gmtime :: "time_t \<Rightarrow> tm"
  mktime :: "tm \<Rightarrow> time_t"

record RTC_TIME =
  t_sec :: u8
  t_min :: u8
  t_hour :: u8
  t_wday :: u8
  t_mday :: u8
  t_month :: u8
  t_year :: u8

text \<open>
  The interface registers, the memory and registers of both chips, the clock of the host, whether
  the power-down interrupt is raised and whether the machine was stopped.
\<close>

record rtc =
  rtc_addr :: u8
  rtc_val :: u8
  phase :: nat
  ram :: "nat \<Rightarrow> u8"
  r_time :: RTC_TIME
  status :: u8
  clkctrl :: u8
  intctrl :: u8
  timecntr :: u32
  alarmcntr :: u32
  nstatus :: u8
  control :: u8
  ram2 :: "nat \<Rightarrow> u8"
  host_clock :: time_t
  int_power :: bool
  stopped :: bool

abbreviation "RTC_ADDR_WRITE \<equiv> (0x80 :: u8)"
abbreviation "RTC_ADDR_CLOCK \<equiv> (0x20 :: u8)"
abbreviation "RTC_ADDR_MASK \<equiv> (0x7F :: u8)"
abbreviation "RTC_ADDR_NEWRAM \<equiv> (0x40 :: u8)"
abbreviation "RTC_INT_SENSE \<equiv> (0x04 :: u8)"
abbreviation "RTC_POWERDOWN \<equiv> (0x40 :: u8)"
abbreviation "NRTC_NEWCHIP \<equiv> (0x80 :: u8)"
abbreviation "NRTC_FIRSTUP \<equiv> (0x10 :: u8)"
abbreviation "NRTC_INT \<equiv> (0x08 :: u8)"
abbreviation "NRTC_INT_ALARM \<equiv> (0x02 :: u8)"
abbreviation "NRTC_INT_PDOWN \<equiv> (0x01 :: u8)"
abbreviation "NRTC_CTRL_0 \<equiv> (0x0D :: u8)"
abbreviation "NRTC_POWERDOWN \<equiv> (0x40 :: u8)"
abbreviation "NRTC_CLRALARM \<equiv> (0x08 :: u8)"
abbreviation "NRTC_CLRFTU \<equiv> (0x04 :: u8)"
abbreviation "NRTC_CLRPDOWN \<equiv> (0x01 :: u8)"

definition rtc_interface_reset :: "rtc \<Rightarrow> rtc" where
  "rtc_interface_reset s = s\<lparr>phase := 0, rtc_addr := 0, rtc_val := 0\<rparr>"

definition M68000_Stop :: "rtc \<Rightarrow> rtc" where
  "M68000_Stop s = s\<lparr>stopped := True\<rparr>"

definition rtc_host_unix_time :: "rtc_env \<Rightarrow> rtc \<Rightarrow> time_t" where
  "rtc_host_unix_time E s = (case fixed_time E of Some t \<Rightarrow> t | None \<Rightarrow> host_clock s)"

definition host_set_unix_time :: "time_t \<Rightarrow> rtc \<Rightarrow> rtc" where
  "host_set_unix_time t s = s\<lparr>host_clock := t\<rparr>"

section \<open>Packed decimal\<close>

definition toBCD :: "int \<Rightarrow> u8" where
  "toBCD val = word_of_int (push_bit 4 ((val sdiv 10) smod 10) OR (val smod 10))"

definition toBCDyr :: "int \<Rightarrow> u8" where
  "toBCDyr val = toBCD (val smod 100)"

definition fromBCD :: "u8 \<Rightarrow> int" where
  "fromBCD bcd = uint (drop_bit 4 (bcd AND 0xF0)) * 10 + uint (bcd AND 0xF)"

definition fromBCDyr :: "u8 \<Rightarrow> int" where
  "fromBCDyr bcd = (let val = fromBCD bcd in if val < 70 then val + 100 else val)"

section \<open>MC68HC68T1\<close>

definition my_get_rtc_time :: "rtc_env \<Rightarrow> rtc \<Rightarrow> rtc" where
  "my_get_rtc_time E s =
     (let t = gmtime E (rtc_host_unix_time E s)
      in s\<lparr>r_time := \<lparr>t_sec = toBCD (tm_sec t), t_min = toBCD (tm_min t), t_hour = toBCD (tm_hour t),
             t_wday = toBCD (tm_wday t + 1), t_mday = toBCD (tm_mday t), t_month = toBCD (tm_mon t + 1),
             t_year = toBCDyr (tm_year t)\<rparr>\<rparr>)"

definition my_set_rtc_time :: "rtc_env \<Rightarrow> nat \<Rightarrow> u8 \<Rightarrow> rtc \<Rightarrow> rtc" where
  "my_set_rtc_time E which val0 s =
     (let r = r_time s;
          t = \<lparr>tm_sec = fromBCD (t_sec r), tm_min = fromBCD (t_min r), tm_hour = fromBCD (t_hour r),
               tm_wday = fromBCD (t_wday r) - 1, tm_mday = fromBCD (t_mday r),
               tm_mon = fromBCD (t_month r) - 1, tm_year = fromBCDyr (t_year r)\<rparr>;
          val = fromBCD val0;
          t1 = (if which = 0 then t\<lparr>tm_sec := val\<rparr>
                else if which = 1 then t\<lparr>tm_min := val\<rparr>
                else if which = 2 then t\<lparr>tm_hour := val\<rparr>
                else if which = 3 then t\<lparr>tm_mday := val\<rparr>
                else if which = 4 then t\<lparr>tm_mon := val - 1\<rparr>
                else if which = 5 then t\<lparr>tm_year := if val < 70 then val + 100 else val\<rparr>
                else t)
      in host_set_unix_time (mktime E t1) s)"

definition rtc_get_clock :: "rtc_env \<Rightarrow> rtc \<Rightarrow> u8 \<times> rtc" where
  "rtc_get_clock E s0 =
     (let s = my_get_rtc_time E s0;
          a = rtc_addr s AND RTC_ADDR_MASK
      in if a = 0x20 then (t_sec (r_time s), s)
         else if a = 0x21 then (t_min (r_time s), s)
         else if a = 0x22 then (t_hour (r_time s), s)
         else if a = 0x23 then (t_wday (r_time s), s)
         else if a = 0x24 then (t_mday (r_time s), s)
         else if a = 0x25 then (t_month (r_time s), s)
         else if a = 0x26 then (t_year (r_time s), s)
         else if a = 0x30 then (status s, s\<lparr>status := status s AND RTC_INT_SENSE\<rparr>)
         else if a = 0x31 then (clkctrl s, s)
         else if a = 0x32 then (intctrl s, s)
         else (0, s))"

definition rtc_put_clock :: "rtc_env \<Rightarrow> u8 \<Rightarrow> rtc \<Rightarrow> rtc" where
  "rtc_put_clock E val s =
     (let a = rtc_addr s AND RTC_ADDR_MASK
      in if a = 0x20 then my_set_rtc_time E 0 val s
         else if a = 0x21 then my_set_rtc_time E 1 val s
         else if a = 0x22 then my_set_rtc_time E 2 val s
         else if a = 0x24 then my_set_rtc_time E 3 val s
         else if a = 0x25 then my_set_rtc_time E 4 val s
         else if a = 0x26 then my_set_rtc_time E 5 val s
         else if a = 0x31 then s\<lparr>clkctrl := val\<rparr>
         else if a = 0x32 then
           let s1 = s\<lparr>intctrl := val\<rparr>
           in if intctrl s1 AND RTC_POWERDOWN \<noteq> 0 then M68000_Stop s1 else s1
         else s)"

definition shift_in :: "u8 \<Rightarrow> u8 \<Rightarrow> u8" where
  "shift_in v rtdatabit = push_bit 1 v OR (if rtdatabit \<noteq> 0 then 1 else 0)"

definition shift_out :: "u8 \<Rightarrow> nat \<Rightarrow> u8" where
  "shift_out v ph = (if v AND push_bit (16 - ph) 1 \<noteq> 0 then 1 else 0)"

definition oldrtc_fetch :: "rtc_env \<Rightarrow> rtc \<Rightarrow> rtc res" where
  "oldrtc_fetch E s =
     (if rtc_addr s AND RTC_ADDR_CLOCK \<noteq> 0 then
        let (v, s1) = rtc_get_clock E s in Inr (s1\<lparr>rtc_val := v\<rparr>)
      else bnd (arr_get 32 (ram s) (unat (rtc_addr s AND RTC_ADDR_MASK))) (\<lambda>v. Inr (s\<lparr>rtc_val := v\<rparr>)))"

definition oldrtc_store :: "rtc_env \<Rightarrow> rtc \<Rightarrow> rtc res" where
  "oldrtc_store E s =
     (if rtc_addr s AND RTC_ADDR_CLOCK \<noteq> 0 then Inr (rtc_put_clock E (rtc_val s) s)
      else bnd (arr_put 32 (ram s) (unat (rtc_addr s AND RTC_ADDR_MASK)) (rtc_val s)) (\<lambda>a. Inr (s\<lparr>ram := a\<rparr>)))"

definition oldrtc_next :: "u8 \<Rightarrow> u8" where
  "oldrtc_next a =
     (if a = 0x1F \<or> a = 0x9F then 0x00 else if a = 0x32 \<or> a = 0xB2 then 0x20 else a + 1)"

definition oldrtc_interface_io :: "rtc_env \<Rightarrow> u8 \<Rightarrow> rtc \<Rightarrow> (u8 \<times> rtc) res" where
  "oldrtc_interface_io E rtdatabit s0 =
     (let s = s0\<lparr>phase := phase s0 + 1\<rparr>
      in if phase s \<le> 8 then Inr (rtdatabit, s\<lparr>rtc_addr := shift_in (rtc_addr s) rtdatabit\<rparr>)
         else
           bnd (if phase s = 9 \<and> rtc_addr s AND RTC_ADDR_WRITE = 0 then oldrtc_fetch E s else Inr s) (\<lambda>s1.
           let (d, s2) = (if rtc_addr s1 AND RTC_ADDR_WRITE \<noteq> 0
                          then (rtdatabit, s1\<lparr>rtc_val := shift_in (rtc_val s1) rtdatabit\<rparr>)
                          else (shift_out (rtc_val s1) (phase s1), s1))
           in if phase s2 = 16 then
                bnd (if rtc_addr s2 AND RTC_ADDR_WRITE \<noteq> 0 then oldrtc_store E s2 else Inr s2) (\<lambda>s3.
                  Inr (d, s3\<lparr>rtc_addr := oldrtc_next (rtc_addr s3), phase := phase s3 - 8\<rparr>))
              else Inr (d, s2)))"

definition oldrtc_request_power_down :: "rtc \<Rightarrow> rtc" where
  "oldrtc_request_power_down s = s\<lparr>int_power := True\<rparr>"

definition oldrtc_stop_pdown_request :: "rtc \<Rightarrow> rtc" where
  "oldrtc_stop_pdown_request s = s\<lparr>int_power := False\<rparr>"

section \<open>MCCS1850\<close>

definition newrtc_get_clock :: "rtc_env \<Rightarrow> rtc \<Rightarrow> u8 \<times> rtc" where
  "newrtc_get_clock E s0 =
     (let s = s0\<lparr>timecntr := ucast (rtc_host_unix_time E s0)\<rparr>;
          a = rtc_addr s AND RTC_ADDR_MASK
      in (if a = 0x20 then ucast (drop_bit 24 (timecntr s))
          else if a = 0x21 then ucast (drop_bit 16 (timecntr s))
          else if a = 0x22 then ucast (drop_bit 8 (timecntr s))
          else if a = 0x23 then ucast (timecntr s)
          else if a = 0x24 then ucast (drop_bit 24 (alarmcntr s))
          else if a = 0x25 then ucast (drop_bit 16 (alarmcntr s))
          else if a = 0x26 then ucast (drop_bit 8 (alarmcntr s))
          else if a = 0x27 then ucast (alarmcntr s)
          else if a = 0x30 then nstatus s OR NRTC_NEWCHIP
          else if a = 0x31 then control s AND NOT NRTC_CTRL_0
          else 0, s))"

definition set_timecntr :: "u32 \<Rightarrow> rtc \<Rightarrow> rtc" where
  "set_timecntr t s = host_set_unix_time (ucast t) (s\<lparr>timecntr := t\<rparr>)"

definition newrtc_put_control :: "u8 \<Rightarrow> rtc \<Rightarrow> rtc" where
  "newrtc_put_control val s =
     (let s1 = s\<lparr>control := val\<rparr>;
          s2 = (if control s1 AND NRTC_CLRFTU \<noteq> 0 then s1\<lparr>nstatus := nstatus s1 AND NOT NRTC_FIRSTUP\<rparr> else s1);
          s3 = (if control s2 AND NRTC_CLRALARM \<noteq> 0 then s2\<lparr>nstatus := nstatus s2 AND NOT NRTC_INT_ALARM\<rparr> else s2);
          s4 = (if control s3 AND NRTC_CLRPDOWN \<noteq> 0 then s3\<lparr>nstatus := nstatus s3 AND NOT NRTC_INT_PDOWN\<rparr> else s3)
      in if control s4 AND NRTC_POWERDOWN \<noteq> 0 then M68000_Stop s4 else s4)"

definition newrtc_put_clock :: "u8 \<Rightarrow> rtc \<Rightarrow> rtc" where
  "newrtc_put_clock val s =
     (let a = rtc_addr s AND RTC_ADDR_MASK;
          byte = (\<lambda>n w. (w AND NOT (push_bit n 0xFF)) OR push_bit n (ucast val)) :: nat \<Rightarrow> u32 \<Rightarrow> u32
      in if a = 0x20 then set_timecntr (byte 24 (timecntr s)) s
         else if a = 0x21 then set_timecntr (byte 16 (timecntr s)) s
         else if a = 0x22 then set_timecntr (byte 8 (timecntr s)) s
         else if a = 0x23 then set_timecntr (byte 0 (timecntr s)) s
         else if a = 0x24 then s\<lparr>alarmcntr := byte 24 (alarmcntr s)\<rparr>
         else if a = 0x25 then s\<lparr>alarmcntr := byte 16 (alarmcntr s)\<rparr>
         else if a = 0x26 then s\<lparr>alarmcntr := byte 8 (alarmcntr s)\<rparr>
         else if a = 0x27 then s\<lparr>alarmcntr := byte 0 (alarmcntr s)\<rparr>
         else if a = 0x31 then newrtc_put_control val s
         else s)"

definition newrtc_fetch :: "rtc_env \<Rightarrow> rtc \<Rightarrow> rtc res" where
  "newrtc_fetch E s =
     (if rtc_addr s AND RTC_ADDR_CLOCK \<noteq> 0 then
        let (v, s1) = newrtc_get_clock E s in Inr (s1\<lparr>rtc_val := v\<rparr>)
      else
        bnd (arr_get 32 (if rtc_addr s AND RTC_ADDR_NEWRAM \<noteq> 0 then ram2 s else ram s) (unat (rtc_addr s AND 0x1F)))
          (\<lambda>v. Inr (s\<lparr>rtc_val := v\<rparr>)))"

definition newrtc_store :: "rtc \<Rightarrow> rtc res" where
  "newrtc_store s =
     (if rtc_addr s AND RTC_ADDR_CLOCK \<noteq> 0 then Inr (newrtc_put_clock (rtc_val s) s)
      else if rtc_addr s AND RTC_ADDR_NEWRAM \<noteq> 0 then
        bnd (arr_put 32 (ram2 s) (unat (rtc_addr s AND 0x1F)) (rtc_val s)) (\<lambda>a. Inr (s\<lparr>ram2 := a\<rparr>))
      else
        bnd (arr_put 32 (ram s) (unat (rtc_addr s AND 0x1F)) (rtc_val s)) (\<lambda>a. Inr (s\<lparr>ram := a\<rparr>)))"

definition newrtc_next :: "u8 \<Rightarrow> u8" where
  "newrtc_next a = (if a = 0x7F then 0x00 else if a = 0xFF then 0x80 else a + 1)"

definition newrtc_interface_io :: "rtc_env \<Rightarrow> u8 \<Rightarrow> rtc \<Rightarrow> (u8 \<times> rtc) res" where
  "newrtc_interface_io E rtdatabit s0 =
     (let s = s0\<lparr>phase := phase s0 + 1\<rparr>
      in if phase s \<le> 8 then Inr (rtdatabit, s\<lparr>rtc_addr := shift_in (rtc_addr s) rtdatabit\<rparr>)
         else
           bnd (if phase s = 9 \<and> rtc_addr s AND RTC_ADDR_WRITE = 0 then newrtc_fetch E s else Inr s) (\<lambda>s1.
           let (d, s2) = (if rtc_addr s1 AND RTC_ADDR_WRITE \<noteq> 0
                          then (rtdatabit, s1\<lparr>rtc_val := shift_in (rtc_val s1) rtdatabit\<rparr>)
                          else (shift_out (rtc_val s1) (phase s1), s1))
           in if phase s2 = 16 then
                bnd (if rtc_addr s2 AND RTC_ADDR_WRITE \<noteq> 0 then newrtc_store s2 else Inr s2) (\<lambda>s3.
                  Inr (d, s3\<lparr>rtc_addr := newrtc_next (rtc_addr s3), phase := phase s3 - 8\<rparr>))
              else Inr (d, s2)))"

definition newrtc_request_power_down :: "rtc \<Rightarrow> rtc" where
  "newrtc_request_power_down s =
     s\<lparr>nstatus := nstatus s OR (NRTC_INT OR NRTC_INT_PDOWN), int_power := True\<rparr>"

definition newrtc_stop_pdown_request :: "rtc \<Rightarrow> rtc" where
  "newrtc_stop_pdown_request s = s\<lparr>int_power := False\<rparr>"

section \<open>Selection of the chip\<close>

definition rtc_interface_io :: "rtc_env \<Rightarrow> u8 \<Rightarrow> rtc \<Rightarrow> (u8 \<times> rtc) res" where
  "rtc_interface_io E rtdatabit s =
     (case nRTC E of
        MC68HC68T1 \<Rightarrow> oldrtc_interface_io E rtdatabit s
      | MCCS1850 \<Rightarrow> newrtc_interface_io E rtdatabit s)"

definition rtc_request_power_down :: "rtc_env \<Rightarrow> rtc \<Rightarrow> rtc" where
  "rtc_request_power_down E s =
     (case nRTC E of MC68HC68T1 \<Rightarrow> oldrtc_request_power_down s | MCCS1850 \<Rightarrow> newrtc_request_power_down s)"

definition rtc_stop_pdown_request :: "rtc_env \<Rightarrow> rtc \<Rightarrow> rtc" where
  "rtc_stop_pdown_request E s =
     (case nRTC E of MC68HC68T1 \<Rightarrow> oldrtc_stop_pdown_request s | MCCS1850 \<Rightarrow> newrtc_stop_pdown_request s)"

text \<open>The direct access of the translated CPU core.\<close>

definition Uae2026JitRtcReadByte :: "rtc_env \<Rightarrow> u32 \<Rightarrow> rtc \<Rightarrow> (u8 \<times> rtc) res" where
  "Uae2026JitRtcReadByte E addr s =
     (let a = ucast addr AND RTC_ADDR_MASK
      in if a AND RTC_ADDR_CLOCK \<noteq> 0 then
           let s1 = s\<lparr>rtc_addr := a\<rparr>
           in Inr (if nRTC E = MCCS1850 then newrtc_get_clock E s1 else rtc_get_clock E s1)
         else if nRTC E = MCCS1850 \<and> a AND RTC_ADDR_NEWRAM \<noteq> 0 then
           bnd (arr_get 32 (ram2 s) (unat (a AND 0x1F))) (\<lambda>v. Inr (v, s))
         else bnd (arr_get 32 (ram s) (unat (a AND 0x1F))) (\<lambda>v. Inr (v, s)))"

definition Uae2026JitRtcWriteByte :: "rtc_env \<Rightarrow> u32 \<Rightarrow> u32 \<Rightarrow> rtc \<Rightarrow> rtc res" where
  "Uae2026JitRtcWriteByte E addr val s =
     (let a = (ucast addr AND RTC_ADDR_MASK) OR RTC_ADDR_WRITE
      in if a AND RTC_ADDR_CLOCK \<noteq> 0 then
           let s1 = s\<lparr>rtc_addr := a\<rparr>
           in Inr (if nRTC E = MCCS1850 then newrtc_put_clock (ucast val) s1 else rtc_put_clock E (ucast val) s1)
         else if nRTC E = MCCS1850 \<and> a AND RTC_ADDR_NEWRAM \<noteq> 0 then
           bnd (arr_put 32 (ram2 s) (unat (a AND 0x1F)) (ucast val)) (\<lambda>m. Inr (s\<lparr>ram2 := m\<rparr>))
         else bnd (arr_put 32 (ram s) (unat (a AND 0x1F)) (ucast val)) (\<lambda>m. Inr (s\<lparr>ram := m\<rparr>)))"

section \<open>Initial contents of the memory\<close>

datatype BOOT_DEVICE = BOOT_ROM | BOOT_SCSI | BOOT_ETHERNET | BOOT_MO | BOOT_FLOPPY

record nvram_conf =
  nBootDevice :: BOOT_DEVICE
  bTurbo :: bool
  bColor :: bool
  nMemoryBankSize :: "nat \<Rightarrow> int"
  bEnableDRAMTest :: bool
  bEnablePot :: bool
  bEnableSoundTest :: bool
  bEnableSCSITest :: bool
  bLoopPot :: bool
  bVerbose :: bool
  bExtendedPot :: bool
  nvRTC :: RTCCHIP
  dim_bEnabled :: bool
  dim_bMainDisplay :: bool

definition boot_command :: "BOOT_DEVICE \<Rightarrow> u8 \<times> u8" where
  "boot_command d =
     (case d of
        BOOT_ROM \<Rightarrow> (0x00, 0x00)
      | BOOT_SCSI \<Rightarrow> (0x73, 0x64)
      | BOOT_ETHERNET \<Rightarrow> (0x65, 0x6E)
      | BOOT_MO \<Rightarrow> (0x6F, 0x64)
      | BOOT_FLOPPY \<Rightarrow> (0x66, 0x64))"

text \<open>The code of a memory bank: bits 1 and 2 give the size, bit 3 the page mode.\<close>

definition simm_code :: "nvram_conf \<Rightarrow> nat \<Rightarrow> u8" where
  "simm_code C i =
     (let n = nMemoryBankSize C i
      in if bTurbo C then (if n = 2 then 3 else if n = 8 then 2 else if n = 32 then 1 else 0)
         else if bColor C then (if n = 2 then 2 else if n = 8 then 1 else 0)
         else if n = 0 then 0
         else if n = 1 then 3 OR 4 else if n = 4 then 2 OR 4 else if n = 16 then 1 OR 4 else 0 OR 4)"

definition simm_parity :: "nvram_conf \<Rightarrow> u8" where
  "simm_parity C =
     (if bTurbo C then 0x00
      else fold (\<lambda>i p. if nMemoryBankSize C i = 0 then p AND NOT (push_bit i 0x10) else p) [0 ..< 4] 0xF0)"

definition simm_config :: "nvram_conf \<Rightarrow> u16" where
  "simm_config C =
     push_bit 8 (ucast (simm_parity C AND 0xF0)) OR push_bit 9 (ucast (simm_code C 3)) OR
     push_bit 6 (ucast (simm_code C 2)) OR push_bit 3 (ucast (simm_code C 1)) OR ucast (simm_code C 0)"

definition pot_byte :: "nvram_conf \<Rightarrow> u8" where
  "pot_byte C =
     (if bEnableDRAMTest C then 0x10 else 0) OR (if bEnablePot C then 0x01 else 0) OR
     (if bEnableSoundTest C then 0x40 else 0) OR (if bEnableSCSITest C then 0x02 else 0) OR
     (if bLoopPot C then 0x04 else 0) OR (if bVerbose C then 0x08 else 0) OR
     (if bExtendedPot C then 0x20 else 0)"

definition chip_byte :: "nvram_conf \<Rightarrow> u8" where
  "chip_byte C =
     (case nvRTC C of MCCS1850 \<Rightarrow> 0x80 | MC68HC68T1 \<Rightarrow> 0) OR
     (if dim_bEnabled C then 0x20 OR (if dim_bMainDisplay C then push_bit 3 (drop_bit 1 2) else 0) else 0)"

fun checksum_loop :: "(nat \<Rightarrow> u8) \<Rightarrow> nat list \<Rightarrow> int \<Rightarrow> int" where
  "checksum_loop m [] acc = acc"
| "checksum_loop m (i # is) acc =
     (let acc1 = acc + uint (push_bit 8 (ucast (m i)) OR ucast (m (i + 1)) :: u32)
      in checksum_loop m is (if 0x10000 \<le> acc1 then acc1 - 0x10000 + 1 else acc1))"

definition nvram_checksum :: "bool \<Rightarrow> rtc \<Rightarrow> rtc" where
  "nvram_checksum force s =
     (let sum = 0xFFFF - checksum_loop (ram s) (map (\<lambda>i. 2 * i) [0 ..< 15]) 0;
          w = word_of_int sum :: u32
      in if force then s\<lparr>ram := (ram s)(30 := ucast (drop_bit 8 (w AND 0xFF00)), 31 := ucast (w AND 0xFF))\<rparr>
         else s)"

definition nvram_init :: "nvram_conf \<Rightarrow> (nat \<Rightarrow> u8) \<Rightarrow> rtc \<Rightarrow> rtc" where
  "nvram_init C NEXTRom s =
     (let m0 = (\<lambda>k. if k < 32 then 0 else ram s k);
          config = 0x94000000 OR push_bit 14 0x3D :: u32;
          m1 = m0(0 := ucast (drop_bit 24 config), 1 := ucast (drop_bit 16 config),
                  2 := ucast (drop_bit 8 config), 3 := ucast config);
          m2 = m1(18 := fst (boot_command (nBootDevice C)), 19 := snd (boot_command (nBootDevice C)));
          m3 = fold (\<lambda>i m. m(i + 4 := NEXTRom (i + 8))) [0 ..< 6] m2;
          m4 = m3(10 := ucast (drop_bit 8 (simm_config C) AND 0xFF), 11 := ucast (simm_config C AND 0xFF));
          m5 = m4(14 := pot_byte C);
          m6 = m5(17 := m5 17 OR chip_byte C)
      in nvram_checksum True (s\<lparr>ram := m6\<rparr>))"

section \<open>The serial protocol\<close>

text \<open>The bits of a byte, first the highest; a sequence of clock pulses.\<close>

definition byte_bits :: "u8 \<Rightarrow> u8 list" where
  "byte_bits v = map (\<lambda>i. if bit v i then 1 else 0) [7, 6, 5, 4, 3, 2, 1, 0]"

fun serial :: "(u8 \<Rightarrow> rtc \<Rightarrow> (u8 \<times> rtc) res) \<Rightarrow> u8 list \<Rightarrow> rtc \<Rightarrow> (u8 list \<times> rtc) res" where
  "serial io [] s = Inr ([], s)"
| "serial io (d # ds) s = bnd (io d s) (\<lambda>(b, s1). bnd (serial io ds s1) (\<lambda>(bs, s2). Inr (b # bs, s2)))"

lemma serial_append:
  "serial io (xs @ ys) s = bnd (serial io xs s) (\<lambda>(bs, s1). bnd (serial io ys s1) (\<lambda>(cs, s2). Inr (bs @ cs, s2)))"
proof (induction xs arbitrary: s)
  case Nil
  show ?case by (cases "serial io ys s") auto
next
  case (Cons x xs)
  show ?case
  proof (cases "io x s")
    case (Inr p)
    obtain b s1 where p: "p = (b, s1)" by (cases p)
    show ?thesis
    proof (cases "serial io xs s1")
      case (Inr q)
      then show ?thesis using \<open>io x s = Inr p\<close> p Cons.IH [of s1]
        by (cases q, cases "serial io ys (snd q)") auto
    qed (use Inr p Cons.IH [of s1] in simp)
  qed simp
qed

lemma less_8_cases: "n < 8 \<Longrightarrow> n = 0 \<or> n = 1 \<or> n = 2 \<or> n = 3 \<or> n = 4 \<or> n = 5 \<or> n = 6 \<or> n = (7 :: nat)"
  by linarith

lemma bit_shift_in: "bit (shift_in v d) n \<longleftrightarrow> (if n = 0 then d \<noteq> 0 else n < 8 \<and> bit v (n - 1))"
  unfolding shift_in_def bit_or_iff bit_push_bit_iff by (cases n) (auto simp: bit_1_iff)

lemma shift_in_byte: "fold (\<lambda>d v. shift_in v d) (byte_bits a) v = a"
proof (rule bit_word_eqI)
  fix n assume "n < LENGTH(8)"
  then have "n < 8" by simp
  then show "bit (fold (\<lambda>d v. shift_in v d) (byte_bits a) v) n = bit a n"
    by (drule_tac less_8_cases) (elim disjE; simp add: byte_bits_def bit_shift_in)
qed

lemma shift_out_bit: "9 \<le> ph \<Longrightarrow> ph \<le> 16 \<Longrightarrow> shift_out v ph = (if bit v (16 - ph) then 1 else 0)"
proof -
  assume "9 \<le> ph" "ph \<le> 16"
  then have "v AND push_bit (16 - ph) 1 \<noteq> 0 \<longleftrightarrow> bit v (16 - ph)"
    by (simp add: push_bit_of_1 and_exp_eq_0_iff_not_bit)
  then show ?thesis by (simp add: shift_out_def)
qed

section \<open>The interface of a serial chip\<close>

text \<open>
  What the two chips share: an address byte, of which bit 7 selects writing, then any number of data
  bytes. A byte to read is fetched with its first bit, a byte to write is stored with its last.
\<close>

locale serial_chip =
  fixes io :: "u8 \<Rightarrow> rtc \<Rightarrow> (u8 \<times> rtc) res" and fetch store :: "rtc \<Rightarrow> rtc res" and nxt :: "u8 \<Rightarrow> u8"
  assumes io: "io d s0 =
      (let s = s0\<lparr>phase := phase s0 + 1\<rparr>
       in if phase s \<le> 8 then Inr (d, s\<lparr>rtc_addr := shift_in (rtc_addr s) d\<rparr>)
          else
            bnd (if phase s = 9 \<and> rtc_addr s AND RTC_ADDR_WRITE = 0 then fetch s else Inr s) (\<lambda>s1.
            let (b, s2) = (if rtc_addr s1 AND RTC_ADDR_WRITE \<noteq> 0
                           then (d, s1\<lparr>rtc_val := shift_in (rtc_val s1) d\<rparr>)
                           else (shift_out (rtc_val s1) (phase s1), s1))
            in if phase s2 = 16 then
                 bnd (if rtc_addr s2 AND RTC_ADDR_WRITE \<noteq> 0 then store s2 else Inr s2) (\<lambda>s3.
                   Inr (b, s3\<lparr>rtc_addr := nxt (rtc_addr s3), phase := phase s3 - 8\<rparr>))
               else Inr (b, s2)))"
    and fetch: "fetch s = Inr t \<Longrightarrow> rtc_addr t = rtc_addr s \<and> phase t = phase s"
    and store: "store s = Inr t \<Longrightarrow> rtc_addr t = rtc_addr s \<and> phase t = phase s"
begin

lemma io_header: "phase s < 8 \<Longrightarrow> io d s = Inr (d, s\<lparr>phase := phase s + 1, rtc_addr := shift_in (rtc_addr s) d\<rparr>)"
  by (simp add: io Let_def)

lemma header_bits:
  "phase s + length ds \<le> 8 \<Longrightarrow> serial io ds s =
     Inr (ds, s\<lparr>phase := phase s + length ds, rtc_addr := fold (\<lambda>d v. shift_in v d) ds (rtc_addr s)\<rparr>)"
proof (induction ds arbitrary: s)
  case (Cons d ds)
  then show ?case by (simp add: io_header)
qed simp

lemma header: "phase s = 0 \<Longrightarrow> serial io (byte_bits a) s = Inr (byte_bits a, s\<lparr>phase := 8, rtc_addr := a\<rparr>)"
  using header_bits [of s "byte_bits a"] by (simp add: shift_in_byte) (simp add: byte_bits_def)

lemma io_write:
  "8 \<le> phase s \<Longrightarrow> phase s < 15 \<Longrightarrow> rtc_addr s AND RTC_ADDR_WRITE \<noteq> 0 \<Longrightarrow>
     io d s = Inr (d, s\<lparr>phase := phase s + 1, rtc_val := shift_in (rtc_val s) d\<rparr>)"
  by (simp add: io Let_def)

lemma io_write_last:
  "phase s = 15 \<Longrightarrow> rtc_addr s AND RTC_ADDR_WRITE \<noteq> 0 \<Longrightarrow>
     io d s = bnd (store (s\<lparr>phase := 16, rtc_val := shift_in (rtc_val s) d\<rparr>)) (\<lambda>t.
       Inr (d, t\<lparr>rtc_addr := nxt (rtc_addr s), phase := 8\<rparr>))"
  using store by (cases "store (s\<lparr>phase := 16, rtc_val := shift_in (rtc_val s) d\<rparr>)") (fastforce simp: io Let_def)+

lemma write_bits:
  "8 \<le> phase s \<Longrightarrow> phase s + length ds \<le> 15 \<Longrightarrow> rtc_addr s AND RTC_ADDR_WRITE \<noteq> 0 \<Longrightarrow> serial io ds s =
     Inr (ds, s\<lparr>phase := phase s + length ds, rtc_val := fold (\<lambda>d v. shift_in v d) ds (rtc_val s)\<rparr>)"
proof (induction ds arbitrary: s)
  case (Cons d ds)
  then show ?case by (simp add: io_write)
qed simp

lemma write_byte:
  assumes "phase s = 8" "rtc_addr s AND RTC_ADDR_WRITE \<noteq> 0"
  shows "serial io (byte_bits v) s = bnd (store (s\<lparr>phase := 16, rtc_val := v\<rparr>)) (\<lambda>t.
    Inr (byte_bits v, t\<lparr>rtc_addr := nxt (rtc_addr s), phase := 8\<rparr>))"
proof -
  obtain ds d where v: "byte_bits v = ds @ [d]" "length ds = 7" by (simp add: byte_bits_def)
  have "shift_in (fold (\<lambda>d v. shift_in v d) ds x) d = v" for x
    using shift_in_byte [of v x] v(1) by simp
  with assms v show ?thesis
    by (cases "store (s\<lparr>phase := 16, rtc_val := v\<rparr>)") (simp_all add: serial_append write_bits io_write_last)
qed

lemma io_read_first:
  "phase s = 8 \<Longrightarrow> rtc_addr s AND RTC_ADDR_WRITE = 0 \<Longrightarrow>
     io d s = bnd (fetch (s\<lparr>phase := 9\<rparr>)) (\<lambda>t. Inr (shift_out (rtc_val t) 9, t))"
  using fetch by (cases "fetch (s\<lparr>phase := 9\<rparr>)") (fastforce simp: io Let_def)+

lemma io_read:
  "9 \<le> phase s \<Longrightarrow> phase s < 15 \<Longrightarrow> rtc_addr s AND RTC_ADDR_WRITE = 0 \<Longrightarrow>
     io d s = Inr (shift_out (rtc_val s) (phase s + 1), s\<lparr>phase := phase s + 1\<rparr>)"
  by (simp add: io Let_def)

lemma io_read_last:
  "phase s = 15 \<Longrightarrow> rtc_addr s AND RTC_ADDR_WRITE = 0 \<Longrightarrow>
     io d s = Inr (shift_out (rtc_val s) 16, s\<lparr>rtc_addr := nxt (rtc_addr s), phase := 8\<rparr>)"
  by (simp add: io Let_def)

lemma read_byte:
  assumes "phase s = 8" "rtc_addr s AND RTC_ADDR_WRITE = 0" "length ds = 8"
  shows "serial io ds s = bnd (fetch (s\<lparr>phase := 9\<rparr>)) (\<lambda>t.
    Inr (byte_bits (rtc_val t), t\<lparr>rtc_addr := nxt (rtc_addr s), phase := 8\<rparr>))"
proof (cases "fetch (s\<lparr>phase := 9\<rparr>)")
  case (Inl e)
  then show ?thesis using assms by (cases ds) (simp_all add: io_read_first)
next
  case (Inr t)
  then have t: "rtc_addr t = rtc_addr s" "phase t = 9" using fetch by fastforce+
  obtain d0 d1 d2 d3 d4 d5 d6 d7 where ds: "ds = [d0, d1, d2, d3, d4, d5, d6, d7]"
    using assms(3) by (auto simp: numeral_eq_Suc length_Suc_conv)
  show ?thesis
    using assms(1,2) Inr t
    by (simp add: ds io_read_first io_read io_read_last shift_out_bit byte_bits_def)
qed

end

text \<open>A serial chip whose first 32 addresses are the memory.\<close>

locale serial_ram = serial_chip +
  assumes fetch_ram: "k < 32 \<Longrightarrow> rtc_addr s = of_nat k \<Longrightarrow> fetch s = Inr (s\<lparr>rtc_val := ram s k\<rparr>)"
    and store_ram: "k < 32 \<Longrightarrow> rtc_addr s = 0x80 + of_nat k \<Longrightarrow> store s = Inr (s\<lparr>ram := (ram s)(k := rtc_val s)\<rparr>)"
    and nxt_ram: "k < 31 \<Longrightarrow> nxt (of_nat k) = of_nat (k + 1)" "k < 31 \<Longrightarrow> nxt (0x80 + of_nat k) = 0x80 + of_nat (k + 1)"
    and write_bit: "k < 32 \<Longrightarrow> (0x80 + of_nat k) AND RTC_ADDR_WRITE \<noteq> 0" "k < 32 \<Longrightarrow> of_nat k AND RTC_ADDR_WRITE = 0"
begin

lemma burst_write:
  "k + length vs \<le> 32 \<Longrightarrow> phase s = 8 \<Longrightarrow> (vs \<noteq> [] \<Longrightarrow> rtc_addr s = 0x80 + of_nat k) \<Longrightarrow>
    \<exists>t. serial io (concat (map byte_bits vs)) s = Inr (concat (map byte_bits vs), t) \<and>
      ram t = (\<lambda>i. if k \<le> i \<and> i < k + length vs then vs ! (i - k) else ram s i)"
proof (induction vs arbitrary: k s)
  case (Cons v vs)
  then have k: "k < 32" and a: "rtc_addr s = 0x80 + of_nat k" by simp_all
  let ?s1 = "s\<lparr>phase := 8, rtc_val := v, ram := (ram s)(k := v), rtc_addr := nxt (rtc_addr s)\<rparr>"
  have step: "serial io (byte_bits v) s = Inr (byte_bits v, ?s1)"
    using write_byte [of s v] store_ram [OF k, of "s\<lparr>phase := 16, rtc_val := v\<rparr>"] write_bit(1) [OF k] a Cons.prems(2)
    by simp
  have "vs \<noteq> [] \<Longrightarrow> rtc_addr ?s1 = 0x80 + of_nat (k + 1)"
    using nxt_ram(2) [of k] a Cons.prems(1) by (cases vs) simp_all
  then obtain t where t: "serial io (concat (map byte_bits vs)) ?s1 = Inr (concat (map byte_bits vs), t)"
    "ram t = (\<lambda>i. if k + 1 \<le> i \<and> i < k + 1 + length vs then vs ! (i - (k + 1)) else ram ?s1 i)"
    using Cons.IH [of "k + 1" ?s1] Cons.prems(1) by auto
  have "ram t = (\<lambda>i. if k \<le> i \<and> i < k + length (v # vs) then (v # vs) ! (i - k) else ram s i)"
    by (auto simp: t(2) fun_eq_iff nth_Cons')
  then show ?case using step t(1) by (simp add: serial_append)
qed (auto simp: fun_eq_iff)

lemma burst_read:
  "k + n \<le> 32 \<Longrightarrow> phase s = 8 \<Longrightarrow> (n \<noteq> 0 \<Longrightarrow> rtc_addr s = of_nat k) \<Longrightarrow> length ds = 8 * n \<Longrightarrow>
    \<exists>t. serial io ds s = Inr (concat (map (\<lambda>i. byte_bits (ram s i)) [k ..< k + n]), t)"
proof (induction n arbitrary: k s ds)
  case (Suc n)
  then have k: "k < 32" and a: "rtc_addr s = of_nat k" by simp_all
  let ?s1 = "s\<lparr>rtc_val := ram s k, rtc_addr := nxt (rtc_addr s)\<rparr>"
  have ds: "ds = take 8 ds @ drop 8 ds" "length (take 8 ds) = 8" "length (drop 8 ds) = 8 * n"
    using Suc.prems(4) by simp_all
  have step: "serial io (take 8 ds) s = Inr (byte_bits (ram s k), ?s1)"
    using read_byte [of s "take 8 ds"] fetch_ram [OF k, of "s\<lparr>phase := 9\<rparr>"] write_bit(2) [OF k] a ds(2) Suc.prems(2)
    by simp
  have "n \<noteq> 0 \<Longrightarrow> rtc_addr ?s1 = of_nat (k + 1)"
    using nxt_ram(1) [of k] a Suc.prems(1) by simp
  then obtain t where "serial io (drop 8 ds) ?s1 = Inr (concat (map (\<lambda>i. byte_bits (ram ?s1 i)) [k + 1 ..< k + 1 + n]), t)"
    using Suc.IH [of "k + 1" ?s1 "drop 8 ds"] Suc.prems(1,2) ds(3) by auto
  moreover have "serial io ds s = bnd (serial io (take 8 ds) s) (\<lambda>(bs, s1).
      bnd (serial io (drop 8 ds) s1) (\<lambda>(cs, s2). Inr (bs @ cs, s2)))"
    using serial_append [of io "take 8 ds" "drop 8 ds" s] by simp
  moreover have "[k ..< k + Suc n] = k # [k + 1 ..< k + 1 + n]" by (simp add: upt_conv_Cons del: upt_Suc)
  ultimately show ?case using step by (simp del: upt_Suc)
qed simp

lemma burst_roundtrip:
  assumes "k + length vs \<le> 32" "vs \<noteq> []" "length ds = 8 * length vs"
  shows "\<exists>bs t u. serial io (byte_bits (0x80 + of_nat k) @ concat (map byte_bits vs)) (rtc_interface_reset s) = Inr (bs, t) \<and>
    serial io (byte_bits (of_nat k) @ ds) (rtc_interface_reset t) =
      Inr (byte_bits (of_nat k) @ concat (map byte_bits vs), u)"
proof -
  let ?s1 = "(rtc_interface_reset s)\<lparr>phase := 8, rtc_addr := 0x80 + of_nat k\<rparr>"
  obtain t where t: "serial io (concat (map byte_bits vs)) ?s1 = Inr (concat (map byte_bits vs), t)"
    "ram t = (\<lambda>i. if k \<le> i \<and> i < k + length vs then vs ! (i - k) else ram ?s1 i)"
    using burst_write [OF assms(1), of ?s1] by auto
  let ?t1 = "(rtc_interface_reset t)\<lparr>phase := 8, rtc_addr := of_nat k\<rparr>"
  obtain u where u: "serial io ds ?t1 = Inr (concat (map (\<lambda>i. byte_bits (ram ?t1 i)) [k ..< k + length vs]), u)"
    using burst_read [OF assms(1), of ?t1 ds] assms(3) by auto
  have "map (\<lambda>i. byte_bits (ram ?t1 i)) [k ..< k + length vs] = map byte_bits vs"
    by (rule nth_equalityI) (simp_all add: rtc_interface_reset_def t(2))
  then show ?thesis
    using t(1) u header [of "rtc_interface_reset s" "0x80 + of_nat k"] header [of "rtc_interface_reset t" "of_nat k"]
    by (simp add: serial_append rtc_interface_reset_def)
qed

end

section \<open>Both chips are serial chips\<close>

lemma ram_addresses:
  "k < 32 \<Longrightarrow> (of_nat k :: u8) AND 0x20 = 0 \<and> (of_nat k :: u8) AND 0x40 = 0 \<and> (of_nat k :: u8) AND 0x80 = 0 \<and>
     unat ((of_nat k :: u8) AND 0x7F) = k \<and> unat ((of_nat k :: u8) AND 0x1F) = k \<and>
     (0x80 + of_nat k :: u8) AND 0x20 = 0 \<and> (0x80 + of_nat k :: u8) AND 0x40 = 0 \<and> (0x80 + of_nat k :: u8) AND 0x80 \<noteq> 0 \<and>
     unat ((0x80 + of_nat k :: u8) AND 0x7F) = k \<and> unat ((0x80 + of_nat k :: u8) AND 0x1F) = k \<and>
     (k < 31 \<longrightarrow> oldrtc_next (of_nat k) = of_nat (k + 1) \<and> oldrtc_next (0x80 + of_nat k) = 0x80 + of_nat (k + 1) \<and>
       newrtc_next (of_nat k) = of_nat (k + 1) \<and> newrtc_next (0x80 + of_nat k) = 0x80 + of_nat (k + 1))"
proof -
  have "list_all (\<lambda>k. (of_nat k :: u8) AND 0x20 = 0 \<and> (of_nat k :: u8) AND 0x40 = 0 \<and> (of_nat k :: u8) AND 0x80 = 0 \<and>
     unat ((of_nat k :: u8) AND 0x7F) = k \<and> unat ((of_nat k :: u8) AND 0x1F) = k \<and>
     (0x80 + of_nat k :: u8) AND 0x20 = 0 \<and> (0x80 + of_nat k :: u8) AND 0x40 = 0 \<and> (0x80 + of_nat k :: u8) AND 0x80 \<noteq> 0 \<and>
     unat ((0x80 + of_nat k :: u8) AND 0x7F) = k \<and> unat ((0x80 + of_nat k :: u8) AND 0x1F) = k \<and>
     (k < 31 \<longrightarrow> oldrtc_next (of_nat k) = of_nat (k + 1) \<and> oldrtc_next (0x80 + of_nat k) = 0x80 + of_nat (k + 1) \<and>
       newrtc_next (of_nat k) = of_nat (k + 1) \<and> newrtc_next (0x80 + of_nat k) = 0x80 + of_nat (k + 1))) [0 ..< 32]"
    by (simp add: upt_rec oldrtc_next_def newrtc_next_def)
  then show "k < 32 \<Longrightarrow> ?thesis" by (simp only: list_all_iff) simp
qed

lemma rtc_get_clock_keeps: "rtc_get_clock E s = (v, t) \<Longrightarrow> rtc_addr t = rtc_addr s \<and> phase t = phase s \<and> ram t = ram s"
  by (auto simp: rtc_get_clock_def my_get_rtc_time_def Let_def split: if_splits)

lemma newrtc_get_clock_keeps: "newrtc_get_clock E s = (v, t) \<Longrightarrow> rtc_addr t = rtc_addr s \<and> phase t = phase s \<and> ram t = ram s"
  by (auto simp: newrtc_get_clock_def Let_def)

lemma rtc_put_clock_keeps: "rtc_addr (rtc_put_clock E v s) = rtc_addr s" "phase (rtc_put_clock E v s) = phase s"
  by (simp_all add: rtc_put_clock_def my_set_rtc_time_def host_set_unix_time_def M68000_Stop_def Let_def)

lemma newrtc_put_clock_keeps: "rtc_addr (newrtc_put_clock v s) = rtc_addr s" "phase (newrtc_put_clock v s) = phase s"
  by (simp_all add: newrtc_put_clock_def newrtc_put_control_def set_timecntr_def host_set_unix_time_def M68000_Stop_def Let_def)

interpretation old: serial_ram "oldrtc_interface_io E" "oldrtc_fetch E" "oldrtc_store E" oldrtc_next
  for E
proof
  show "rtc_addr t = rtc_addr s \<and> phase t = phase s" if "oldrtc_fetch E s = Inr t" for s t
    using that rtc_get_clock_keeps [of E s]
    by (auto simp: oldrtc_fetch_def bnd_eq_Inr Let_def split: if_splits prod.splits)
  show "rtc_addr t = rtc_addr s \<and> phase t = phase s" if "oldrtc_store E s = Inr t" for s t
    using that by (auto simp: oldrtc_store_def bnd_eq_Inr rtc_put_clock_keeps split: if_splits)
qed (use ram_addresses in \<open>simp_all add: oldrtc_interface_io_def oldrtc_fetch_def oldrtc_store_def\<close>)

interpretation new: serial_ram "newrtc_interface_io E" "newrtc_fetch E" newrtc_store newrtc_next
  for E
proof
  show "rtc_addr t = rtc_addr s \<and> phase t = phase s" if "newrtc_fetch E s = Inr t" for s t
    using that newrtc_get_clock_keeps [of E s]
    by (auto simp: newrtc_fetch_def bnd_eq_Inr Let_def split: if_splits prod.splits)
  show "rtc_addr t = rtc_addr s \<and> phase t = phase s" if "newrtc_store s = Inr t" for s t
    using that by (auto simp: newrtc_store_def bnd_eq_Inr newrtc_put_clock_keeps split: if_splits)
qed (use ram_addresses in \<open>simp_all add: newrtc_interface_io_def newrtc_fetch_def newrtc_store_def\<close>)

section \<open>Lemmas for the properties\<close>

text \<open>The state without the registers of the serial interface.\<close>

definition forget :: "rtc \<Rightarrow> rtc" where
  "forget s = s\<lparr>rtc_addr := 0, rtc_val := 0, phase := 0\<rparr>"

lemma low_address: "a AND 0x80 = 0 \<Longrightarrow> a AND 0x7F = (a :: u8)"
proof (rule bit_word_eqI)
  fix n assume a: "a AND 0x80 = 0" and "n < LENGTH(8)"
  have "\<not> bit (a AND 0x80) 7" using a by simp
  then have "\<not> bit a 7" by (simp add: bit_simps)
  moreover have "n < 8" using \<open>n < LENGTH(8)\<close> by simp
  ultimately show "bit (a AND 0x7F) n = bit a n"
    by (drule_tac less_8_cases) (elim disjE; simp add: bit_simps)
qed

lemma write_address:
  assumes "a AND 0x80 = (0 :: u8)"
  shows "(a OR 0x80) AND 0x80 \<noteq> 0" "(a OR 0x80) AND 0x7F = a" "(a OR 0x80) AND 0x20 = a AND 0x20"
    "(a OR 0x80) AND 0x40 = a AND 0x40" "(a OR 0x80) AND 0x1F = a AND 0x1F"
  using low_address [OF assms] by (simp_all add: bit.conj_disj_distrib2)

lemma ucast_u8: "ucast (ucast (a :: u8) :: u32) = a"
  by (rule bit_word_eqI) (simp add: bit_simps)

lemma ram_index: "unat (a AND 0x1F :: u8) < 32"
  by (rule unat_and_less) simp

lemma host_time_regs: "rtc_host_unix_time E (s\<lparr>rtc_val := x, phase := y\<rparr>) = rtc_host_unix_time E s"
  by (simp add: rtc_host_unix_time_def split: option.split)

lemma rtc_get_clock_regs:
  "rtc_get_clock E (s\<lparr>rtc_val := x, phase := y\<rparr>) =
     (fst (rtc_get_clock E s), (snd (rtc_get_clock E s))\<lparr>rtc_val := x, phase := y\<rparr>)"
proof -
  have "my_get_rtc_time E (s\<lparr>rtc_val := x, phase := y\<rparr>) = (my_get_rtc_time E s)\<lparr>rtc_val := x, phase := y\<rparr>"
    by (rule rtc.equality) (simp_all add: my_get_rtc_time_def host_time_regs Let_def)
  then show ?thesis
    by (cases "my_get_rtc_time E s") (simp add: rtc_get_clock_def Let_def)
qed

lemma newrtc_get_clock_regs:
  "newrtc_get_clock E (s\<lparr>rtc_val := x, phase := y\<rparr>) =
     (fst (newrtc_get_clock E s), (snd (newrtc_get_clock E s))\<lparr>rtc_val := x, phase := y\<rparr>)"
proof -
  have "(s\<lparr>rtc_val := x, phase := y\<rparr>)\<lparr>timecntr := c\<rparr> = s\<lparr>timecntr := c\<rparr>\<lparr>rtc_val := x, phase := y\<rparr>" for c
    by (rule rtc.equality) simp_all
  then show ?thesis
    by (simp only: newrtc_get_clock_def Let_def host_time_regs) simp
qed

lemma rtc_put_clock_regs:
  "rtc_put_clock E v (s\<lparr>rtc_val := x, phase := y\<rparr>) = (rtc_put_clock E v s)\<lparr>rtc_val := x, phase := y\<rparr>"
  by (cases s) (simp add: rtc_put_clock_def my_set_rtc_time_def host_set_unix_time_def M68000_Stop_def Let_def)

lemma newrtc_put_control_regs:
  "newrtc_put_control v (s\<lparr>rtc_val := x, phase := y\<rparr>) = (newrtc_put_control v s)\<lparr>rtc_val := x, phase := y\<rparr>"
  by (cases "v AND NRTC_CLRFTU = 0"; cases "v AND NRTC_CLRALARM = 0"; cases "v AND NRTC_CLRPDOWN = 0";
      cases "v AND NRTC_POWERDOWN = 0"; cases s; simp add: newrtc_put_control_def M68000_Stop_def)

lemma newrtc_put_clock_regs:
  "newrtc_put_clock v (s\<lparr>rtc_val := x, phase := y\<rparr>) = (newrtc_put_clock v s)\<lparr>rtc_val := x, phase := y\<rparr>"
  unfolding newrtc_put_clock_def newrtc_put_control_regs
  by (cases s) (simp add: set_timecntr_def host_set_unix_time_def Let_def del: push_bit_numeral)

lemma forget_regs [simp]: "forget (s\<lparr>rtc_addr := a\<rparr>) = forget s" "forget (s\<lparr>rtc_val := x\<rparr>) = forget s"
  "forget (s\<lparr>phase := y\<rparr>) = forget s" "forget (rtc_interface_reset s) = forget s"
  by (simp_all add: forget_def rtc_interface_reset_def)

lemma reset_regs: "(rtc_interface_reset s)\<lparr>phase := p, rtc_addr := a\<rparr> = s\<lparr>rtc_addr := a, rtc_val := 0, phase := p\<rparr>"
  by (simp add: rtc_interface_reset_def)

lemma chip_address:
  assumes "a AND 0x60 \<noteq> 0x40" "a AND 0x20 = (0 :: u8)" "a AND 0x80 = 0"
  shows "a AND 0x7F = a AND 0x1F" "a AND 0x40 = 0"
proof -
  have b: "\<not> bit a 5"
  proof
    assume "bit a 5"
    then have "bit (a AND 0x20) 5" by (simp add: bit_simps)
    then show False using assms(2) by simp
  qed
  have b6: "\<not> bit a 6"
  proof
    assume "bit a 6"
    have "a AND 0x60 = 0x40"
    proof (rule bit_word_eqI)
      fix n assume "n < LENGTH(8)"
      then have "n < 8" by simp
      then show "bit (a AND 0x60) n = bit (0x40 :: u8) n"
        using b \<open>bit a 6\<close> by (drule_tac less_8_cases) (elim disjE; simp add: bit_simps)
    qed
    then show False using assms(1) by blast
  qed
  show "a AND 0x40 = 0" "a AND 0x7F = a AND 0x1F"
    by (rule bit_word_eqI; simp; drule less_8_cases; use b b6 in \<open>elim disjE; simp add: bit_simps\<close>)+
qed

lemma old_fetch_direct:
  assumes "nRTC E = MC68HC68T1" "a AND 0x80 = 0" "a AND 0x60 \<noteq> 0x40"
  shows "\<exists>v t u. Uae2026JitRtcReadByte E (ucast a) s = Inr (v, t) \<and>
    oldrtc_fetch E (s\<lparr>rtc_addr := a, rtc_val := 0, phase := 9\<rparr>) = Inr u \<and> rtc_val u = v \<and> forget u = forget t"
proof (cases "a AND 0x20 = 0")
  case True
  then show ?thesis
    using chip_address [OF assms(3) True assms(2)] assms(1,2) ram_index [of a] low_address [OF assms(2)]
    by (simp add: Uae2026JitRtcReadByte_def oldrtc_fetch_def ucast_u8)
next
  case False
  then show ?thesis
    using rtc_get_clock_regs [where E = E and s = "s\<lparr>rtc_addr := a\<rparr>" and x = 0 and y = 9] assms low_address [OF assms(2)]
    by (cases "rtc_get_clock E (s\<lparr>rtc_addr := a\<rparr>)") (simp add: Uae2026JitRtcReadByte_def oldrtc_fetch_def ucast_u8)
qed

lemma new_fetch_direct:
  assumes "nRTC E = MCCS1850" "a AND 0x80 = 0"
  shows "\<exists>v t u. Uae2026JitRtcReadByte E (ucast a) s = Inr (v, t) \<and>
    newrtc_fetch E (s\<lparr>rtc_addr := a, rtc_val := 0, phase := 9\<rparr>) = Inr u \<and> rtc_val u = v \<and> forget u = forget t"
proof (cases "a AND 0x20 = 0")
  case True
  then show ?thesis
    using assms ram_index [of a] low_address [OF assms(2)]
    by (simp add: Uae2026JitRtcReadByte_def newrtc_fetch_def ucast_u8)
next
  case False
  then show ?thesis
    using newrtc_get_clock_regs [where E = E and s = "s\<lparr>rtc_addr := a\<rparr>" and x = 0 and y = 9] assms low_address [OF assms(2)]
    by (cases "newrtc_get_clock E (s\<lparr>rtc_addr := a\<rparr>)") (simp add: Uae2026JitRtcReadByte_def newrtc_fetch_def ucast_u8)
qed

lemma old_store_direct:
  assumes "nRTC E = MC68HC68T1" "a AND 0x80 = 0" "a AND 0x60 \<noteq> 0x40"
  shows "\<exists>t u. Uae2026JitRtcWriteByte E (ucast a) (ucast v) s = Inr t \<and>
    oldrtc_store E (s\<lparr>rtc_addr := a OR 0x80, rtc_val := v, phase := 16\<rparr>) = Inr u \<and> forget u = forget t"
proof (cases "a AND 0x20 = 0")
  case True
  then show ?thesis
    using chip_address [OF assms(3) True assms(2)] assms(1,2) ram_index [of a] low_address [OF assms(2)]
    by (simp add: Uae2026JitRtcWriteByte_def oldrtc_store_def ucast_u8 write_address forget_def)
next
  case False
  then show ?thesis
    using rtc_put_clock_regs [where E = E and v = v and s = "s\<lparr>rtc_addr := a OR 0x80\<rparr>" and x = v and y = 16] assms low_address [OF assms(2)]
    by (simp add: Uae2026JitRtcWriteByte_def oldrtc_store_def ucast_u8 write_address)
qed

lemma new_store_direct:
  assumes "nRTC E = MCCS1850" "a AND 0x80 = 0"
  shows "\<exists>t u. Uae2026JitRtcWriteByte E (ucast a) (ucast v) s = Inr t \<and>
    newrtc_store (s\<lparr>rtc_addr := a OR 0x80, rtc_val := v, phase := 16\<rparr>) = Inr u \<and> forget u = forget t"
proof (cases "a AND 0x20 = 0")
  case True
  then show ?thesis
    using assms ram_index [of a] low_address [OF assms(2)]
    by (simp add: Uae2026JitRtcWriteByte_def newrtc_store_def ucast_u8 write_address forget_def)
next
  case False
  then show ?thesis
    using newrtc_put_clock_regs [where v = v and s = "s\<lparr>rtc_addr := a OR 0x80\<rparr>" and x = v and y = 16] assms low_address [OF assms(2)]
    by (simp add: Uae2026JitRtcWriteByte_def newrtc_store_def ucast_u8 write_address)
qed

section \<open>The checksum of the memory\<close>

definition nvram_word :: "(nat \<Rightarrow> u8) \<Rightarrow> nat \<Rightarrow> int" where
  "nvram_word m i = uint (push_bit 8 (ucast (m i)) OR ucast (m (i + 1)) :: u32)"

definition be_pair :: "u8 \<Rightarrow> u8 \<Rightarrow> u32" where
  "be_pair a b = push_bit 8 (ucast a) OR ucast b"

lemma bit_be_pair: "bit (be_pair a b) n \<longleftrightarrow> (if n < 8 then bit b n else n < 16 \<and> bit a (n - 8))"
  using bit_imp_le_length [of a "n - 8"] bit_imp_le_length [of b n]
  unfolding be_pair_def bit_or_iff bit_push_bit_iff bit_ucast_iff by auto

lemma be_pair_bits: "bit (be_pair a b) n \<Longrightarrow> n < 16"
  by (simp add: bit_be_pair split: if_splits)

lemma nvram_word_range: "0 \<le> nvram_word m i" "nvram_word m i < 0x10000"
proof -
  have "take_bit 16 (be_pair a b) = be_pair a b" for a b
    by (rule bit_word_eqI) (use be_pair_bits in \<open>auto simp: bit_take_bit_iff\<close>)
  then have "uint (be_pair a b) < 2 ^ 16" for a b
    by (metis take_bit_int_less_exp unsigned_take_bit_eq)
  then show "nvram_word m i < 0x10000" by (simp add: nvram_word_def be_pair_def)
qed (simp add: nvram_word_def)

lemma checksum_loop_sum:
  "0 \<le> acc \<Longrightarrow> acc < 0x10000 \<Longrightarrow> 0 \<le> checksum_loop m is acc \<and> checksum_loop m is acc < 0x10000 \<and>
     checksum_loop m is acc mod 0xFFFF = (acc + (\<Sum>i\<leftarrow>is. nvram_word m i)) mod 0xFFFF"
proof (induction "is" arbitrary: acc)
  case (Cons i "is")
  let ?a = "acc + nvram_word m i"
  let ?b = "if 0x10000 \<le> ?a then ?a - 0x10000 + 1 else ?a"
  have b: "0 \<le> ?b" "?b < 0x10000" using Cons.prems nvram_word_range [of m i] by auto
  have "?b mod 0xFFFF = ?a mod 0xFFFF"
    by (simp add: mod_eq_dvd_iff)
  then have "(?b + x) mod 0xFFFF = (?a + x) mod 0xFFFF" for x by (metis mod_add_left_eq)
  moreover have "checksum_loop m (i # is) acc = checksum_loop m is ?b"
    by (simp add: Let_def nvram_word_def)
  ultimately show ?case using Cons.IH [OF b] by (simp only: list.map sum_list.Cons) (simp only: add.assoc)
qed simp

lemma checksum_loop_cong:
  "(\<And>i. i \<in> set is \<Longrightarrow> m i = n i \<and> m (i + 1) = n (i + 1)) \<Longrightarrow> checksum_loop m is acc = checksum_loop n is acc"
  by (induction "is" arbitrary: acc) (simp_all add: Let_def)

lemma uint_small: "0 \<le> c \<Longrightarrow> c < 0x10000 \<Longrightarrow> uint (word_of_int c :: u32) = c"
  by (simp add: unsigned_of_int take_bit_int_eq_self)

lemma checksum_valid:
  "(\<Sum>i\<leftarrow>map (\<lambda>i. 2 * i) [0 ..< 16]. nvram_word (ram (nvram_checksum True s)) i) mod 0xFFFF = 0"
proof -
  let ?is = "map (\<lambda>i. 2 * i) [0 ..< 15 :: nat]"
  let ?c = "checksum_loop (ram s) ?is 0"
  let ?t = "nvram_checksum True s"
  have c: "0 \<le> ?c" "?c < 0x10000" "?c mod 0xFFFF = (\<Sum>i\<leftarrow>?is. nvram_word (ram s) i) mod 0xFFFF"
    using checksum_loop_sum [of 0 "ram s" ?is] by simp_all
  have same: "nvram_word (ram ?t) i = nvram_word (ram s) i" if "i \<in> set ?is" for i
    using that by (auto simp: nvram_word_def nvram_checksum_def Let_def; presburger)
  have w: "nvram_word (ram ?t) 30 = 0xFFFF - ?c"
  proof -
    define w where "w = (word_of_int (0xFFFF - ?c) :: u32)"
    have u: "uint w = 0xFFFF - ?c"
      unfolding w_def by (rule uint_small) (use c(1,2) in simp_all)
    then have "w = take_bit 16 w"
      using c(1,2) by (intro word_uint_eqI) (simp add: unsigned_take_bit_eq take_bit_int_eq_self)
    then have hi: "n < 16" if "bit w n" for n
      using that by (metis bit_take_bit_iff)
    have "be_pair (ucast (drop_bit 8 (w AND 0xFF00))) (ucast (w AND 0xFF)) = w"
    proof (rule bit_word_eqI)
      fix n
      have m: "bit (0xFF00 :: u32) k \<longleftrightarrow> 8 \<le> k \<and> k < 16" "bit (0xFF :: u32) k \<longleftrightarrow> k < 8" for k
      proof -
        have mm: "0xFF00 = (push_bit 8 (mask 8) :: u32)" "0xFF = (mask 8 :: u32)"
          by (simp_all add: mask_eq_exp_minus_1)
        show "bit (0xFF00 :: u32) k \<longleftrightarrow> 8 \<le> k \<and> k < 16" "bit (0xFF :: u32) k \<longleftrightarrow> k < 8"
          unfolding mm bit_push_bit_iff bit_mask_iff by auto
      qed
      show "bit (be_pair (ucast (drop_bit 8 (w AND 0xFF00))) (ucast (w AND 0xFF))) n = bit w n"
        unfolding bit_be_pair bit_ucast_iff bit_drop_bit_eq o_def bit_and_iff m using hi [of n] by auto
    qed
    moreover have "?t = s\<lparr>ram := (ram s)(30 := ucast (drop_bit 8 (w AND 0xFF00)), 31 := ucast (w AND 0xFF))\<rparr>"
      by (simp only: nvram_checksum_def Let_def w_def if_True)
    ultimately show ?thesis by (simp add: nvram_word_def be_pair_def [symmetric] u)
  qed
  have "(\<Sum>i\<leftarrow>map (\<lambda>i. 2 * i) [0 ..< 16]. nvram_word (ram ?t) i) = (\<Sum>i\<leftarrow>?is. nvram_word (ram s) i) + (0xFFFF - ?c)"
  proof -
    have "map (\<lambda>i. 2 * i) [0 ..< 16] = ?is @ [30 :: nat]" by (simp add: upt_rec)
    moreover have "map (nvram_word (ram ?t)) ?is = map (nvram_word (ram s)) ?is"
      by (rule map_cong [OF refl]) (rule same)
    ultimately show ?thesis
      by (simp only: map_append sum_list_append list.map sum_list.Cons sum_list.Nil w add_0_right)
  qed
  moreover have "(y + (0xFFFF - x)) mod 0xFFFF = 0" if "x mod 0xFFFF = y mod 0xFFFF" for x y :: int
  proof -
    have "0xFFFF dvd y - x" using that by (metis mod_eq_dvd_iff)
    then have "0xFFFF dvd (y - x) + 0xFFFF" by simp
    moreover have "(y - x) + 0xFFFF = y + (0xFFFF - x)" by simp
    ultimately show ?thesis by (metis dvd_imp_mod_0)
  qed
  ultimately show ?thesis using c(3) by (simp only:)
qed

section \<open>Setting and reading the time\<close>

text \<open>
  The dates of the calendar from 1970 to 2069, with months from 0 and years from 1900 as in the C library; among these
  years the leap years are those divisible by four. Then the fields the registers show.
\<close>

definition month_days :: "int \<Rightarrow> int \<Rightarrow> int" where
  "month_days month year =
     (if month = 1 then (if year mod 4 = 0 then 29 else 28) else if month \<in> {3, 5, 8, 10} then 30 else 31)"

definition valid_tm :: "tm \<Rightarrow> bool" where
  "valid_tm t \<longleftrightarrow> 0 \<le> tm_sec t \<and> tm_sec t < 60 \<and> 0 \<le> tm_min t \<and> tm_min t < 60 \<and> 0 \<le> tm_hour t \<and> tm_hour t < 24 \<and>
     1 \<le> tm_mday t \<and> tm_mday t \<le> month_days (tm_mon t) (tm_year t) \<and> 0 \<le> tm_mon t \<and> tm_mon t < 12 \<and> 70 \<le> tm_year t \<and> tm_year t < 170"

lemma month_days_le: "month_days m y \<le> 31"
  by (simp add: month_days_def)

lemma valid_tm_day: "valid_tm t \<Longrightarrow> 1 \<le> tm_mday t \<and> tm_mday t \<le> 31"
  using month_days_le [of "tm_mon t" "tm_year t"] by (simp add: valid_tm_def)

definition tm_fields :: "tm \<Rightarrow> int list" where
  "tm_fields t = [tm_sec t, tm_min t, tm_hour t, tm_mday t, tm_mon t, tm_year t]"

definition time_registers :: "RTC_TIME \<Rightarrow> u8 list" where
  "time_registers r = [t_sec r, t_min r, t_hour r, t_mday r, t_month r, t_year r]"

text \<open>The value the chip shows for each field, and a date with one field replaced.\<close>

definition shown :: "int list \<Rightarrow> u8 list" where
  "shown f = [toBCD (f ! 0), toBCD (f ! 1), toBCD (f ! 2), toBCD (f ! 3), toBCD (f ! 4 + 1), toBCD (f ! 5 mod 100)]"

definition of_fields :: "int \<Rightarrow> int list \<Rightarrow> tm" where
  "of_fields wday f = \<lparr>tm_sec = f ! 0, tm_min = f ! 1, tm_hour = f ! 2, tm_wday = wday, tm_mday = f ! 3, tm_mon = f ! 4, tm_year = f ! 5\<rparr>"

lemma sdiv_nonneg: "0 \<le> (a :: int) \<Longrightarrow> 0 < b \<Longrightarrow> a sdiv b = a div b \<and> a smod b = a mod b"
  by (simp add: signed_divide_int_def signed_modulo_int_def sgn_if)

lemma fromBCD_toBCD: "0 \<le> v \<Longrightarrow> v < 100 \<Longrightarrow> fromBCD (toBCD v) = v"
proof -
  assume v: "0 \<le> v" "v < 100"
  have "list_all (\<lambda>n. fromBCD (word_of_int (push_bit 4 (int n div 10 mod 10) OR int n mod 10)) = int n) [0 ..< 100]"
    by (simp add: upt_rec fromBCD_def)
  then have "fromBCD (word_of_int (push_bit 4 (int n div 10 mod 10) OR int n mod 10)) = int n" if "n < 100" for n
    using that by (simp add: list_all_iff)
  from this [of "nat v"] show ?thesis
    using v by (simp add: toBCD_def sdiv_nonneg)
qed

lemma year_two_digits:
  assumes "70 \<le> y" "y < 170"
  shows "fromBCDyr (toBCD (y mod 100)) = y" "(if y mod 100 < 70 then y mod 100 + 100 else y mod 100) = y"
proof -
  have m: "y mod 100 = (if y < 100 then y else y - 100)"
  proof (cases "y < 100")
    case False
    have "y mod 100 = (100 + (y - 100)) mod 100" by simp
    also have "\<dots> = (y - 100) mod 100" by (rule mod_add_self1)
    also have "\<dots> = y - 100" using assms False by (intro mod_pos_pos_trivial) simp_all
    finally show ?thesis using False by simp
  qed (use assms in simp)
  show c: "(if y mod 100 < 70 then y mod 100 + 100 else y mod 100) = y"
    unfolding m using assms by simp
  have "fromBCD (toBCD (y mod 100)) = y mod 100" by (rule fromBCD_toBCD) simp_all
  then show "fromBCDyr (toBCD (y mod 100)) = y" unfolding fromBCDyr_def Let_def by (simp only: c)
qed

lemma get_shows:
  assumes "tm_fields (gmtime E (host_clock s)) = f" "fixed_time E = None" "0 \<le> f ! 5"
  shows "time_registers (r_time (my_get_rtc_time E s)) = shown f"
  using assms by (auto simp: time_registers_def shown_def tm_fields_def my_get_rtc_time_def rtc_host_unix_time_def
      Let_def toBCDyr_def sdiv_nonneg)

lemma set_clock:
  assumes regs: "time_registers (r_time s) = shown [a, b, c, d, e, g]" and v: "valid_tm (of_fields 0 [a, b, c, d, e, g])"
    and w: "which < 6" and vx: "valid_tm (of_fields 0 ([a, b, c, d, e, g][which := x]))"
  shows "my_set_rtc_time E which (shown ([a, b, c, d, e, g][which := x]) ! which) s =
    s\<lparr>host_clock := mktime E (of_fields (fromBCD (t_wday (r_time s)) - 1) ([a, b, c, d, e, g][which := x]))\<rparr>"
proof -
  have r: "t_sec (r_time s) = toBCD a" "t_min (r_time s) = toBCD b" "t_hour (r_time s) = toBCD c"
    "t_mday (r_time s) = toBCD d" "t_month (r_time s) = toBCD (e + 1)" "t_year (r_time s) = toBCD (g mod 100)"
    using regs by (simp_all add: time_registers_def shown_def)
  have g: "fromBCDyr (toBCD (g mod 100)) = g"
    using v by (intro year_two_digits(1)) (simp_all add: valid_tm_def of_fields_def)
  have b: "fromBCD (toBCD a) = a" "fromBCD (toBCD b) = b" "fromBCD (toBCD c) = c" "fromBCD (toBCD d) = d"
    "fromBCD (toBCD (e + 1)) = e + 1"
    using v valid_tm_day [OF v] by (simp_all add: valid_tm_def of_fields_def fromBCD_toBCD)
  note defs = my_set_rtc_time_def host_set_unix_time_def shown_def r b g of_fields_def Let_def
  consider "which < 4" | "which = 4" | "which = 5" using w by linarith
  then show ?thesis
  proof cases
    case 1
    then have "0 \<le> x" "x < 100"
      using vx valid_tm_day [OF vx] by (auto simp: valid_tm_def of_fields_def less_Suc_eq numeral_eq_Suc)
    then have x: "fromBCD (toBCD x) = x" by (rule fromBCD_toBCD)
    consider "which = 0" | "which = 1" | "which = 2" | "which = 3" using 1 by linarith
    then show ?thesis by cases (simp_all add: defs x numeral_2_eq_2 numeral_3_eq_3)
  next
    case 2
    then have "fromBCD (toBCD (x + 1)) = x + 1"
      using vx by (simp add: valid_tm_def of_fields_def fromBCD_toBCD)
    then show ?thesis using 2 by (simp add: defs)
  next
    case 3
    then have "70 \<le> x" "x < 170" using vx by (simp_all add: valid_tm_def of_fields_def)
    then have x: "(if x mod 100 < 70 then x mod 100 + 100 else x mod 100) = x" by (rule year_two_digits(2))
    have "fromBCD (toBCD (x mod 100)) = x mod 100" by (rule fromBCD_toBCD) simp_all
    then show ?thesis using 3 x by (simp add: defs)
  qed
qed

section \<open>Properties of the clock chips\<close>

text \<open>
  C33. The serial interface and the direct access agree. Clocking an address and eight more bits
  through the bit-serial interface returns, as its last eight bits, the byte that the direct read
  of the translated core returns, and clocking in an address with the write bit and a byte has the
  effect of the direct write; in both cases the chip and the clock end in the same state. This
  holds for every address of the MCCS1850 and for all addresses of the MC68HC68T1 but 40 to 5f.
\<close>
theorem direct_access_agrees:
  assumes "a AND 0x80 = 0" "length ds = 8" "nRTC E = MCCS1850 \<or> a AND 0x60 \<noteq> 0x40"
  shows "(\<exists>v t u. Uae2026JitRtcReadByte E (ucast a) s = Inr (v, t) \<and>
      serial (rtc_interface_io E) (byte_bits a @ ds) (rtc_interface_reset s) = Inr (byte_bits a @ byte_bits v, u) \<and>
      forget u = forget t) \<and>
    (\<exists>bs t u. Uae2026JitRtcWriteByte E (ucast a) (ucast v) s = Inr t \<and>
      serial (rtc_interface_io E) (byte_bits (a OR 0x80) @ byte_bits v) (rtc_interface_reset s) = Inr (bs, u) \<and>
      forget u = forget t)"
proof -
  have p: "phase (rtc_interface_reset s) = 0" by (simp add: rtc_interface_reset_def)
  have swap: "s\<lparr>rtc_addr := x, phase := p, rtc_val := y\<rparr> = s\<lparr>rtc_addr := x, rtc_val := y, phase := p\<rparr>" for x y p
    by (rule rtc.equality) simp_all
  show ?thesis
  proof (cases "nRTC E")
    case MCCS1850
    then have io: "rtc_interface_io E = newrtc_interface_io E" by (simp add: rtc_interface_io_def fun_eq_iff)
    obtain v0 t u where r: "Uae2026JitRtcReadByte E (ucast a) s = Inr (v0, t)"
      "newrtc_fetch E (s\<lparr>rtc_addr := a, rtc_val := 0, phase := 9\<rparr>) = Inr u" "rtc_val u = v0" "forget u = forget t"
      using new_fetch_direct [OF MCCS1850 assms(1)] by blast
    obtain t' u' where w: "Uae2026JitRtcWriteByte E (ucast a) (ucast v) s = Inr t'"
      "newrtc_store (s\<lparr>rtc_addr := a OR 0x80, rtc_val := v, phase := 16\<rparr>) = Inr u'" "forget u' = forget t'"
      using new_store_direct [OF MCCS1850 assms(1)] by blast
    show ?thesis
      using r w assms(1,2) write_address(1) [OF assms(1)]
      by (simp add: io serial_append new.header [OF p] new.read_byte new.write_byte reset_regs swap)
  next
    case MC68HC68T1
    then have io: "rtc_interface_io E = oldrtc_interface_io E" by (simp add: rtc_interface_io_def fun_eq_iff)
    have a: "a AND 0x60 \<noteq> 0x40" using assms(3) MC68HC68T1 by simp
    obtain v0 t u where r: "Uae2026JitRtcReadByte E (ucast a) s = Inr (v0, t)"
      "oldrtc_fetch E (s\<lparr>rtc_addr := a, rtc_val := 0, phase := 9\<rparr>) = Inr u" "rtc_val u = v0" "forget u = forget t"
      using old_fetch_direct [OF MC68HC68T1 assms(1) a] by blast
    obtain t' u' where w: "Uae2026JitRtcWriteByte E (ucast a) (ucast v) s = Inr t'"
      "oldrtc_store E (s\<lparr>rtc_addr := a OR 0x80, rtc_val := v, phase := 16\<rparr>) = Inr u'" "forget u' = forget t'"
      using old_store_direct [OF MC68HC68T1 assms(1) a] by blast
    show ?thesis
      using r w assms(1,2) write_address(1) [OF assms(1)]
      by (simp add: io serial_append old.header [OF p] old.read_byte old.write_byte reset_regs swap)
  qed
qed

text \<open>
  The memory reads back. With either chip, any burst of bytes clocked into consecutive
  addresses of the 32-byte memory is returned bit by bit, highest bit first, by a burst read from
  the same address.
\<close>
theorem nvram_burst_roundtrip:
  assumes "k + length vs \<le> 32" "vs \<noteq> []" "length ds = 8 * length vs"
  shows "\<exists>bs t u. serial (rtc_interface_io E) (byte_bits (0x80 + of_nat k) @ concat (map byte_bits vs)) (rtc_interface_reset s) =
      Inr (bs, t) \<and>
    serial (rtc_interface_io E) (byte_bits (of_nat k) @ ds) (rtc_interface_reset t) =
      Inr (byte_bits (of_nat k) @ concat (map byte_bits vs), u)"
  using old.burst_roundtrip [OF assms, of E s] new.burst_roundtrip [OF assms, of E s]
  by (cases "nRTC E") (simp_all add: rtc_interface_io_def [abs_def])

text \<open>
  The MCCS1850 is safe. Whatever bits are clocked through its interface, from whatever state,
  no access leaves its two memories.
\<close>
theorem newrtc_never_faults:
  assumes "nRTC E = MCCS1850"
  shows "\<exists>r. serial (rtc_interface_io E) ds s = Inr r"
proof -
  have io: "rtc_interface_io E = newrtc_interface_io E" using assms by (simp add: rtc_interface_io_def fun_eq_iff)
  show ?thesis
    unfolding io
  proof (induction ds arbitrary: s)
    case (Cons d ds)
    have store: "\<exists>t. newrtc_store s = Inr t" for s by (simp add: newrtc_store_def ram_index)
    have fetch: "\<exists>t. newrtc_fetch E s = Inr t" for s
      by (simp add: newrtc_fetch_def ram_index split: prod.split)
    have "\<exists>r. newrtc_interface_io E d s = Inr r"
      using store fetch [of "s\<lparr>phase := Suc (phase s)\<rparr>"]
      by (auto simp: newrtc_interface_io_def Let_def bnd_def split: sum.splits) (metis sum.distinct(1) store)+
    then obtain b t where "newrtc_interface_io E d s = Inr (b, t)" by fast
    moreover obtain bs u where "serial (newrtc_interface_io E) ds t = Inr (bs, u)" using Cons.IH [of t] by fast
    ultimately show ?case by simp
  qed simp
qed

text \<open>
  The MC68HC68T1 leaves its memory. The index into the 32-byte memory is masked with 7f and
  not with 1f: reading or writing any of the addresses 40 to 5f is an access outside the array.
\<close>
theorem oldrtc_leaves_memory:
  assumes "nRTC E = MC68HC68T1" "k < 32"
  shows "serial (rtc_interface_io E) (byte_bits (0x40 + of_nat k) @ [d]) (rtc_interface_reset s) = Inl ArrayOOB \<and>
    serial (rtc_interface_io E) (byte_bits (0xC0 + of_nat k) @ byte_bits v) (rtc_interface_reset s) = Inl ArrayOOB"
proof -
  have io: "rtc_interface_io E = oldrtc_interface_io E" using assms(1) by (simp add: rtc_interface_io_def fun_eq_iff)
  have p: "phase (rtc_interface_reset s) = 0" by (simp add: rtc_interface_reset_def)
  have "list_all (\<lambda>k. (0x40 + of_nat k :: u8) AND 0x20 = 0 \<and> (0x40 + of_nat k :: u8) AND 0x80 = 0 \<and>
      32 \<le> unat ((0x40 + of_nat k :: u8) AND 0x7F) \<and> (0xC0 + of_nat k :: u8) AND 0x20 = 0 \<and>
      (0xC0 + of_nat k :: u8) AND 0x80 \<noteq> 0 \<and> 32 \<le> unat ((0xC0 + of_nat k :: u8) AND 0x7F)) [0 ..< 32]"
    by (simp add: upt_rec)
  then have a: "(0x40 + of_nat k :: u8) AND 0x20 = 0" "(0x40 + of_nat k :: u8) AND 0x80 = 0"
      "\<not> unat ((0x40 + of_nat k :: u8) AND 0x7F) < 32" "(0xC0 + of_nat k :: u8) AND 0x20 = 0"
      "(0xC0 + of_nat k :: u8) AND 0x80 \<noteq> 0" "\<not> unat ((0xC0 + of_nat k :: u8) AND 0x7F) < 32"
    using assms(2) by (simp_all only: list_all_iff) (simp_all add: not_less)
  show ?thesis
    using a by (simp add: io serial_append old.header [OF p] old.io_read_first old.write_byte reset_regs
        oldrtc_fetch_def oldrtc_store_def arr_get_def arr_put_def)
qed

text \<open>
  The checksum of the initial memory. For every configuration and every ROM, the sixteen
  big-endian words of the initial memory, the checksum included, add up to 0 modulo 65535 (a sum
  of all ones in the end-around-carry arithmetic of the ROM).
\<close>
theorem nvram_init_checksum:
  "(\<Sum>i\<leftarrow>map (\<lambda>i. 2 * i) [0 ..< 16].
      uint (push_bit 8 (ucast (ram (nvram_init C NEXTRom s) i)) OR ucast (ram (nvram_init C NEXTRom s) (i + 1)) :: u32))
   mod 0xFFFF = 0"
  using checksum_valid unfolding nvram_init_def Let_def nvram_word_def by blast

text \<open>
  C34. Setting the clock. For any calendar functions of the host that are inverse to each other on the dates of the
  calendar from 1970 to 2069, and unless the host time is fixed by the environment: when the registers of the
  MC68HC68T1 show such a date, writing one field so that the result is again such a date, and reading the time back,
  shows the new value in that field and the old values in all others.
\<close>
theorem clock_set_then_read:
  assumes "\<And>t. valid_tm t \<Longrightarrow> tm_fields (gmtime E (mktime E t)) = tm_fields t" "fixed_time E = None"
    "time_registers (r_time s) = shown [a, b, c, d, e, g]" "valid_tm (of_fields 0 [a, b, c, d, e, g])" "which < 6"
    "valid_tm (of_fields 0 ([a, b, c, d, e, g][which := x]))"
    "rtc_addr s AND RTC_ADDR_MASK = [0x20, 0x21, 0x22, 0x24, 0x25, 0x26] ! which"
  shows "time_registers (r_time (my_get_rtc_time E
      (rtc_put_clock E (shown ([a, b, c, d, e, g][which := x]) ! which) s))) = shown ([a, b, c, d, e, g][which := x])"
proof -
  let ?f = "[a, b, c, d, e, g][which := x]"
  let ?t = "of_fields (fromBCD (t_wday (r_time s)) - 1) ?f"
  let ?s = "s\<lparr>host_clock := mktime E ?t\<rparr>"
  consider "which = 0" | "which = 1" | "which = 2" | "which = 3" | "which = 4" | "which = 5"
    using assms(5) by linarith
  then have put: "rtc_put_clock E v s = my_set_rtc_time E which v s" and fields: "tm_fields ?t = ?f" for v
    using assms(7) by (cases; simp add: rtc_put_clock_def tm_fields_def of_fields_def)+
  have "valid_tm ?t" "0 \<le> ?f ! 5" using assms(6) by (simp_all add: valid_tm_def of_fields_def)
  then have "time_registers (r_time (my_get_rtc_time E ?s)) = shown ?f"
    using fields get_shows [of E ?s ?f] assms(1) [of ?t] assms(2) by simp
  then show ?thesis
    using set_clock [OF assms(3-6), of E] by (simp only: put)
qed

section \<open>Witnesses\<close>

text \<open>A calendar of months of 31 days, and the state of a chip.\<close>

definition plain_mktime :: "tm \<Rightarrow> time_t" where
  "plain_mktime t = word_of_int
     (tm_sec t + 60 * (tm_min t + 60 * (tm_hour t + 24 * (tm_mday t + 32 * (tm_mon t + 12 * tm_year t)))))"

definition plain_gmtime :: "time_t \<Rightarrow> tm" where
  "plain_gmtime w =
     (let n = uint w
      in of_fields 0 [n mod 60, n div 60 mod 60, n div 60 div 60 mod 24, n div 60 div 60 div 24 mod 32,
           n div 60 div 60 div 24 div 32 mod 12, n div 60 div 60 div 24 div 32 div 12])"

lemma mixed_radix:
  fixes a m b k :: int
  assumes "0 \<le> a" "a < m" "0 \<le> b" "b < k"
  shows "(a + m * b) mod m = a" "(a + m * b) div m = b" "0 \<le> a + m * b" "a + m * b < m * k"
proof -
  have "m * b \<le> m * (k - 1)" using assms by (intro mult_left_mono) simp_all
  then show "a + m * b < m * k" using assms by (simp add: right_diff_distrib)
qed (use assms in simp_all)

lemma plain_calendar: "valid_tm t \<Longrightarrow> tm_fields (plain_gmtime (plain_mktime t)) = tm_fields t"
proof -
  assume v: "valid_tm t"
  define n1 where "n1 = tm_mon t + 12 * tm_year t"
  define n2 where "n2 = tm_mday t + 32 * n1"
  define n3 where "n3 = tm_hour t + 24 * n2"
  define n4 where "n4 = tm_min t + 60 * n3"
  define n5 where "n5 = tm_sec t + 60 * n4"
  note v = v [unfolded valid_tm_def] valid_tm_day [OF v]
  note r1 = mixed_radix [of "tm_mon t" 12 "tm_year t" 170, folded n1_def]
  note r2 = mixed_radix [of "tm_mday t" 32 n1 2040, folded n2_def]
  note r3 = mixed_radix [of "tm_hour t" 24 n2 65280, folded n3_def]
  note r4 = mixed_radix [of "tm_min t" 60 n3 1566720, folded n4_def]
  note r5 = mixed_radix [of "tm_sec t" 60 n4 94003200, folded n5_def]
  have b1: "0 \<le> n1" "n1 < 2040" using r1(3,4) v by simp_all
  have b2: "0 \<le> n2" "n2 < 65280" using r2(3,4) b1 v by simp_all
  have b3: "0 \<le> n3" "n3 < 1566720" using r3(3,4) b2 v by simp_all
  have b4: "0 \<le> n4" "n4 < 94003200" using r4(3,4) b3 v by simp_all
  have b5: "0 \<le> n5" "n5 < 5640192000" using r5(3,4) b4 v by simp_all
  have m: "plain_mktime t = word_of_int n5"
    by (simp only: plain_mktime_def n5_def n4_def n3_def n2_def n1_def)
  have u: "uint (word_of_int n5 :: time_t) = n5"
    using b5 by (simp add: unsigned_of_int take_bit_int_eq_self)
  have d: "n5 mod 60 = tm_sec t" "n5 div 60 = n4" "n4 mod 60 = tm_min t" "n4 div 60 = n3" "n3 mod 24 = tm_hour t"
    "n3 div 24 = n2" "n2 mod 32 = tm_mday t" "n2 div 32 = n1" "n1 mod 12 = tm_mon t" "n1 div 12 = tm_year t"
    by (rule r5 r4 r3 r2 r1; use b1 b2 b3 b4 v in linarith)+
  show ?thesis
    by (simp add: m plain_gmtime_def u Let_def d of_fields_def tm_fields_def)
qed

definition plain_env :: "RTCCHIP \<Rightarrow> rtc_env" where
  "plain_env c = \<lparr>nRTC = c, fixed_time = None, gmtime = plain_gmtime, mktime = plain_mktime\<rparr>"

definition chip_state :: rtc where
  "chip_state =
     \<lparr>rtc_addr = 0xA1, rtc_val = 0, phase = 0, ram = (\<lambda>_. 0),
      r_time = \<lparr>t_sec = toBCD 30, t_min = toBCD 15, t_hour = toBCD 12, t_wday = 2, t_mday = toBCD 7,
                t_month = toBCD 10, t_year = toBCD 93\<rparr>,
      status = 0, clkctrl = 0, intctrl = 0, timecntr = 0, alarmcntr = 0, nstatus = 0, control = 0,
      ram2 = (\<lambda>_. 0), host_clock = 0, int_power = False, stopped = False\<rparr>"

lemma clock_set_then_read_witness:
  "time_registers (r_time (my_get_rtc_time (plain_env MC68HC68T1)
      (rtc_put_clock (plain_env MC68HC68T1) (shown ([30, 15, 12, 7, 9, 93][3 := 31]) ! 3) (chip_state\<lparr>rtc_addr := 0xA4\<rparr>)))) =
    shown ([30, 15, 12, 7, 9, 93][3 := 31])"
proof (rule clock_set_then_read)
  show "tm_fields (gmtime (plain_env MC68HC68T1) (mktime (plain_env MC68HC68T1) t)) = tm_fields t" if "valid_tm t" for t
    using plain_calendar [OF that] by (simp add: plain_env_def)
qed (simp_all add: plain_env_def chip_state_def time_registers_def shown_def valid_tm_def of_fields_def month_days_def)

lemma direct_access_agrees_witness:
  "\<exists>v t u. Uae2026JitRtcReadByte (plain_env MC68HC68T1) (ucast (0x30 :: u8)) chip_state = Inr (v, t) \<and>
    serial (rtc_interface_io (plain_env MC68HC68T1)) (byte_bits 0x30 @ replicate 8 0) (rtc_interface_reset chip_state) =
      Inr (byte_bits 0x30 @ byte_bits v, u) \<and> forget u = forget t"
  by (rule direct_access_agrees [THEN conjunct1]) simp_all

lemma nvram_burst_roundtrip_witness:
  "\<exists>bs t u. serial (rtc_interface_io (plain_env MCCS1850)) (byte_bits (0x80 + of_nat 30) @ concat (map byte_bits [0x12, 0x34]))
        (rtc_interface_reset chip_state) = Inr (bs, t) \<and>
    serial (rtc_interface_io (plain_env MCCS1850)) (byte_bits (of_nat 30) @ replicate 16 0) (rtc_interface_reset t) =
      Inr (byte_bits (of_nat 30) @ concat (map byte_bits [0x12, 0x34]), u)"
  by (rule nvram_burst_roundtrip) simp_all

lemma newrtc_never_faults_witness:
  "\<exists>r. serial (rtc_interface_io (plain_env MCCS1850)) (byte_bits 0xFF @ byte_bits 0x55) chip_state = Inr r"
  by (rule newrtc_never_faults) (simp add: plain_env_def)

lemma oldrtc_leaves_memory_witness:
  "serial (rtc_interface_io (plain_env MC68HC68T1)) (byte_bits (0x40 + of_nat 3) @ [0]) (rtc_interface_reset chip_state) =
      Inl ArrayOOB \<and>
    serial (rtc_interface_io (plain_env MC68HC68T1)) (byte_bits (0xC0 + of_nat 3) @ byte_bits 0x77)
      (rtc_interface_reset chip_state) = Inl ArrayOOB"
  by (rule oldrtc_leaves_memory) (simp_all add: plain_env_def)

end
