(* ===== verification/Sys_Reg.thy ===== *)
theory Sys_Reg
  imports Cyc_Int Rtc_Nvram
begin

text \<open>
  The system registers (src/sysReg.c): the control registers with the serial lines of the clock
  chip, the interrupt status and mask, the hardware clock, the event counter and the colour video
  interrupt. The bytes that the processor writes and reads are arguments and results of the
  handlers; the calls to the DSP core and to the host timing are recorded in the order made.
\<close>

section \<open>State\<close>

datatype MACHINETYPE = NEXT_CUBE030 | NEXT_CUBE040 | NEXT_STATION

datatype MEMORY_SPEED = MEMORY_120NS | MEMORY_100NS | MEMORY_80NS | MEMORY_60NS

record scr_conf =
  sys_bTurbo :: bool
  sys_bColor :: bool
  nMachineType :: MACHINETYPE
  sys_nCpuFreq :: u32
  nMemorySpeed :: MEMORY_SPEED

datatype scr_call = DSP_Reset | DSP_Start u8 | host_hardclock int u64

record sysreg =
  SCR_ROM_overlay :: u8
  scr1 :: u32
  scr2_0 :: u8
  scr2_1 :: u8
  scr2_2 :: u8
  scr2_3 :: u8
  intStat :: u32
  intMask :: u32
  dsp_intr_at_block_end :: u8
  dsp_dma_unpacked :: u8
  hardclock_csr :: u8
  hardclock1 :: u8
  hardclock0 :: u8
  latch_hardclock :: int
  hardClockLastLatch :: u64
  sysTimerOffset :: u64
  resetTimer :: bool
  col_vid_intr :: u8
  s_rtc :: rtc
  s_cyc :: cycint
  calls :: "scr_call list"

abbreviation "SCR1_NEXT_COMPUTER \<equiv> (0x00010152 :: u32)"
abbreviation "SCR1_SLAB_MONO \<equiv> (0x00011052 :: u32)"
abbreviation "SCR1_SLAB_COLOR \<equiv> (0x00013052 :: u32)"
abbreviation "SCR1_CUBE \<equiv> (0x00012052 :: u32)"
abbreviation "SCR1_TURBO \<equiv> (0x00004000 :: u32)"
abbreviation "SCR1_CONST_MASK \<equiv> (0xFFFFFF00 :: u32)"
abbreviation "SCR2_DSP_RESET \<equiv> (0x80 :: u8)"
abbreviation "SCR2_DSP_BLK_END \<equiv> (0x40 :: u8)"
abbreviation "SCR2_DSP_UNPKD \<equiv> (0x20 :: u8)"
abbreviation "SCR2_SOFTINT2 \<equiv> (0x02 :: u8)"
abbreviation "SCR2_SOFTINT1 \<equiv> (0x01 :: u8)"
abbreviation "SCR2_TIMERIPL7 \<equiv> (0x80 :: u8)"
abbreviation "SCR2_RTDATA \<equiv> (0x04 :: u8)"
abbreviation "SCR2_RTCLK \<equiv> (0x02 :: u8)"
abbreviation "SCR2_RTCE \<equiv> (0x01 :: u8)"
abbreviation "SCR2_ROM \<equiv> (0x80 :: u8)"
abbreviation "SCR2_DSP_INT_EN \<equiv> (0x40 :: u8)"
abbreviation "INT_SOFT1 \<equiv> (0x00000001 :: u32)"
abbreviation "INT_SOFT2 \<equiv> (0x00000002 :: u32)"
abbreviation "INT_POWER \<equiv> (0x00000004 :: u32)"
abbreviation "INT_DSP_L3 \<equiv> (0x00000040 :: u32)"
abbreviation "INT_DISK \<equiv> (0x00002000 :: u32)"
abbreviation "INT_DSP_L4 \<equiv> (0x00004000 :: u32)"
abbreviation "INT_TIMER \<equiv> (0x20000000 :: u32)"
abbreviation "INT_L7_MASK \<equiv> (0xC0000000 :: u32)"
abbreviation "INT_L6_MASK \<equiv> (0x3FFC0000 :: u32)"
abbreviation "INT_L5_MASK \<equiv> (0x00038000 :: u32)"
abbreviation "INT_L4_MASK \<equiv> (0x00004000 :: u32)"
abbreviation "INT_L3_MASK \<equiv> (0x00003FFC :: u32)"
abbreviation "INT_L2_MASK \<equiv> (0x00000002 :: u32)"
abbreviation "INT_L1_MASK \<equiv> (0x00000001 :: u32)"
abbreviation "HARDCLOCK_ENABLE \<equiv> (0x80 :: u8)"
abbreviation "HARDCLOCK_LATCH \<equiv> (0x40 :: u8)"
abbreviation "VID_CMD_CLEAR_INT \<equiv> (0x01 :: u8)"
abbreviation "VID_CMD_ENABLE_INT \<equiv> (0x02 :: u8)"
abbreviation "INTERRUPT_HARDCLOCK \<equiv> (2 :: nat)"

section \<open>Interrupt status\<close>

definition set_interrupt :: "u32 \<Rightarrow> bool \<Rightarrow> sysreg \<Rightarrow> sysreg" where
  "set_interrupt intr state s =
     (if state then s\<lparr>intStat := intStat s OR intr\<rparr> else s\<lparr>intStat := intStat s AND NOT intr\<rparr>)"

definition set_dsp_interrupt :: "scr_conf \<Rightarrow> bool \<Rightarrow> sysreg \<Rightarrow> sysreg" where
  "set_dsp_interrupt C state s =
     (if scr2_3 s AND SCR2_DSP_INT_EN \<noteq> 0 \<or> sys_bTurbo C then set_interrupt INT_DSP_L4 state s
      else set_interrupt INT_DSP_L3 state s)"

definition get_interrupt_level :: "sysreg \<Rightarrow> int res" where
  "get_interrupt_level s =
     (let interrupt = intStat s AND intMask s
      in if interrupt = 0 then Inr 0
         else if interrupt AND INT_L7_MASK \<noteq> 0 then Inr 7
         else if interrupt AND INT_TIMER \<noteq> 0 \<and> scr2_2 s AND SCR2_TIMERIPL7 \<noteq> 0 then Inr 7
         else if interrupt AND INT_L6_MASK \<noteq> 0 then Inr 6
         else if interrupt AND INT_L5_MASK \<noteq> 0 then Inr 5
         else if interrupt AND INT_L4_MASK \<noteq> 0 then Inr 4
         else if interrupt AND INT_L3_MASK \<noteq> 0 then Inr 3
         else if interrupt AND INT_L2_MASK \<noteq> 0 then Inr 2
         else if interrupt AND INT_L1_MASK \<noteq> 0 then Inr 1
         else Inl AssertFailure)"

definition IntRegStatRead :: "sysreg \<Rightarrow> u32" where
  "IntRegStatRead s = intStat s"

definition IntRegStatWrite :: "u32 \<Rightarrow> sysreg \<Rightarrow> sysreg" where
  "IntRegStatWrite v s = s\<lparr>intStat := v\<rparr>"

definition IntRegMaskRead :: "sysreg \<Rightarrow> u32" where
  "IntRegMaskRead s = intMask s"

definition IntRegMaskWrite :: "u32 \<Rightarrow> sysreg \<Rightarrow> sysreg" where
  "IntRegMaskWrite v s = s\<lparr>intMask := v\<rparr>"

section \<open>System control registers\<close>

definition SCR_Reset :: "scr_conf \<Rightarrow> sysreg \<Rightarrow> sysreg" where
  "SCR_Reset C s0 =
     (let s = s0\<lparr>SCR_ROM_overlay := 0, scr2_0 := 0, scr2_1 := 0,
                 scr2_2 := (if sys_bTurbo C then 0x10 else 0x00),
                 scr2_3 := (if sys_bTurbo C then 0x80 else 0x00), intStat := 0, intMask := 0\<rparr>
      in if sys_bTurbo C then
           s\<lparr>scr1 := SCR1_TURBO OR (if nMachineType C = NEXT_CUBE040 then 0 else 0xF0000000)\<rparr>
         else
           let base = (case nMachineType C of
                   NEXT_CUBE030 \<Rightarrow> SCR1_NEXT_COMPUTER
                 | NEXT_CUBE040 \<Rightarrow> SCR1_CUBE
                 | NEXT_STATION \<Rightarrow> (if sys_bColor C then SCR1_SLAB_COLOR else SCR1_SLAB_MONO)) AND SCR1_CONST_MASK;
               f = sint (sys_nCpuFreq C);
               cpu_speed = (if f < 20 then 0 else if f < 25 then 1 else if f < 33 then 2 else 3) :: u8;
               memory_speed = (case nMemorySpeed C of
                   MEMORY_120NS \<Rightarrow> 0x00 | MEMORY_100NS \<Rightarrow> 0x50 | MEMORY_80NS \<Rightarrow> 0xA0 | MEMORY_60NS \<Rightarrow> 0xF0) :: u8
           in s\<lparr>scr1 := base OR ucast ((memory_speed AND 0xF0) OR (cpu_speed AND 0x03))\<rparr>)"

definition SCR1_Read0 :: "sysreg \<Rightarrow> u8" where
  "SCR1_Read0 s = ucast (drop_bit 24 (scr1 s AND 0xFF000000))"

definition SCR1_Read1 :: "sysreg \<Rightarrow> u8" where
  "SCR1_Read1 s = ucast (drop_bit 16 (scr1 s AND 0x00FF0000))"

definition SCR1_Read2 :: "sysreg \<Rightarrow> u8" where
  "SCR1_Read2 s = ucast (drop_bit 8 (scr1 s AND 0x0000FF00))"

definition SCR1_Read3 :: "sysreg \<Rightarrow> u8" where
  "SCR1_Read3 s = ucast (scr1 s AND 0x000000FF)"

text \<open>A line of a control register that changed, as an interrupt.\<close>

definition soft_interrupt :: "u8 \<Rightarrow> u8 \<Rightarrow> u32 \<Rightarrow> sysreg \<Rightarrow> sysreg" where
  "soft_interrupt old line intr s =
     (if old AND line \<noteq> scr2_0 s AND line then set_interrupt intr (scr2_0 s AND line \<noteq> 0) s else s)"

definition log_call :: "scr_call \<Rightarrow> sysreg \<Rightarrow> sysreg" where
  "log_call c s = s\<lparr>calls := calls s @ [c]\<rparr>"

definition SCR2_Write0 :: "u8 \<Rightarrow> sysreg \<Rightarrow> sysreg" where
  "SCR2_Write0 v s =
     (let old = scr2_0 s;
          s1 = soft_interrupt old SCR2_SOFTINT1 INT_SOFT1 (s\<lparr>scr2_0 := v\<rparr>);
          s2 = soft_interrupt old SCR2_SOFTINT2 INT_SOFT2 s1;
          s3 = (if v AND SCR2_DSP_RESET = 0 \<and> old AND SCR2_DSP_RESET \<noteq> 0 then log_call DSP_Reset s2
                else if v AND SCR2_DSP_RESET \<noteq> 0 \<and> old AND SCR2_DSP_RESET = 0
                then log_call (DSP_Start (NOT (drop_bit 3 v) AND 3)) s2 else s2)
      in s3\<lparr>dsp_intr_at_block_end := v AND SCR2_DSP_BLK_END, dsp_dma_unpacked := v AND SCR2_DSP_UNPKD\<rparr>)"

definition SCR2_Read0 :: "sysreg \<Rightarrow> u8" where
  "SCR2_Read0 s = scr2_0 s"

definition SCR2_Write1 :: "u8 \<Rightarrow> sysreg \<Rightarrow> sysreg" where
  "SCR2_Write1 v s = s\<lparr>scr2_1 := v\<rparr>"

definition SCR2_Read1 :: "sysreg \<Rightarrow> u8" where
  "SCR2_Read1 s = scr2_1 s"

definition SCR2_Write2 :: "rtc_env \<Rightarrow> u8 \<Rightarrow> sysreg \<Rightarrow> sysreg res" where
  "SCR2_Write2 E v s =
     (let old = scr2_2 s; s1 = s\<lparr>scr2_2 := v\<rparr>
      in if v AND SCR2_RTCE \<noteq> 0 then
           if old AND SCR2_RTCLK \<noteq> v AND SCR2_RTCLK \<and> v AND SCR2_RTCLK = 0 then
             let rtdata = v AND SCR2_RTDATA;
                 s2 = s1\<lparr>scr2_2 := scr2_2 s1 AND NOT SCR2_RTDATA\<rparr>
             in bnd (rtc_interface_io E rtdata (s_rtc s2)) (\<lambda>(b, r).
                  Inr (s2\<lparr>s_rtc := r, scr2_2 := scr2_2 s2 OR (if b \<noteq> 0 then SCR2_RTDATA else 0)\<rparr>))
           else Inr s1
         else Inr (s1\<lparr>s_rtc := rtc_interface_reset (s_rtc s1)\<rparr>))"

definition SCR2_Read2 :: "sysreg \<Rightarrow> u8" where
  "SCR2_Read2 s = scr2_2 s"

definition SCR2_Write3 :: "scr_conf \<Rightarrow> u8 \<Rightarrow> sysreg \<Rightarrow> sysreg" where
  "SCR2_Write3 C v s =
     (let old = scr2_3 s;
          s1 = s\<lparr>scr2_3 := v\<rparr>;
          s2 = (if old AND SCR2_ROM \<noteq> v AND SCR2_ROM then s1\<lparr>SCR_ROM_overlay := v AND SCR2_ROM\<rparr> else s1)
      in if old AND SCR2_DSP_INT_EN \<noteq> v AND SCR2_DSP_INT_EN \<and> intStat s2 AND (INT_DSP_L3 OR INT_DSP_L4) \<noteq> 0
         then set_dsp_interrupt C True (set_interrupt (INT_DSP_L3 OR INT_DSP_L4) False s2)
         else s2)"

definition SCR2_Read3 :: "sysreg \<Rightarrow> u8" where
  "SCR2_Read3 s = scr2_3 s"

section \<open>Hardware clock\<close>

definition Hardclock_InterruptHandler :: "sysconf \<Rightarrow> i64 \<Rightarrow> sysreg \<Rightarrow> sysreg res" where
  "Hardclock_InterruptHandler E now s =
     bnd (CycInt_AcknowledgeInterrupt (s_cyc s)) (\<lambda>c.
       let s1 = s\<lparr>s_cyc := c\<rparr>
       in if hardclock_csr s1 AND HARDCLOCK_ENABLE \<noteq> 0 \<and> 0 < latch_hardclock s1 then
            let s2 = set_interrupt INT_TIMER True s1;
                s3 = log_call (host_hardclock (latch_hardclock s2) (now - hardClockLastLatch s2)) s2;
                s4 = s3\<lparr>hardClockLastLatch := now\<rparr>
            in bnd (CycInt_AddRelativeInterruptUs E now (word_of_int (latch_hardclock s4)) 0 INTERRUPT_HARDCLOCK (s_cyc s4))
                 (\<lambda>c. Inr (s4\<lparr>s_cyc := c\<rparr>))
          else Inr s1)"

definition HardclockRead0 :: "sysreg \<Rightarrow> u8" where
  "HardclockRead0 s = word_of_int (drop_bit 8 (latch_hardclock s))"

definition HardclockRead1 :: "sysreg \<Rightarrow> u8" where
  "HardclockRead1 s = word_of_int (latch_hardclock s AND 0xff)"

definition HardclockWrite0 :: "u8 \<Rightarrow> sysreg \<Rightarrow> sysreg" where
  "HardclockWrite0 v s = s\<lparr>hardclock0 := v\<rparr>"

definition HardclockWrite1 :: "u8 \<Rightarrow> sysreg \<Rightarrow> sysreg" where
  "HardclockWrite1 v s = s\<lparr>hardclock1 := v\<rparr>"

definition HardclockWriteCSR :: "sysconf \<Rightarrow> i64 \<Rightarrow> u8 \<Rightarrow> sysreg \<Rightarrow> sysreg res" where
  "HardclockWriteCSR E now v s =
     (let s1 = s\<lparr>hardclock_csr := v\<rparr>;
          s2 = (if v AND HARDCLOCK_LATCH \<noteq> 0 then
                  s1\<lparr>hardclock_csr := v AND NOT HARDCLOCK_LATCH,
                     latch_hardclock := push_bit 8 (uint (hardclock0 s1)) OR uint (hardclock1 s1),
                     hardClockLastLatch := now\<rparr>
                else s1)
      in bnd (if hardclock_csr s2 AND HARDCLOCK_ENABLE \<noteq> 0 \<and> 0 < latch_hardclock s2 then
                bnd (CycInt_AddRelativeInterruptUs E now (word_of_int (latch_hardclock s2)) 0 INTERRUPT_HARDCLOCK (s_cyc s2))
                  (\<lambda>c. Inr (s2\<lparr>s_cyc := c\<rparr>))
              else Inr s2)
           (\<lambda>s3. Inr (set_interrupt INT_TIMER False s3)))"

definition HardclockReadCSR :: "sysreg \<Rightarrow> u8 \<times> sysreg" where
  "HardclockReadCSR s = (hardclock_csr s, set_interrupt INT_TIMER False s)"

section \<open>Event counter and colour video\<close>

definition System_Timer_Read :: "u64 \<Rightarrow> sysreg \<Rightarrow> u32 \<times> sysreg" where
  "System_Timer_Read now s =
     (let s1 = (if resetTimer s then s\<lparr>sysTimerOffset := now, resetTimer := False\<rparr> else s)
      in (ucast ((now - sysTimerOffset s1) AND 0xFFFFF), s1))"

definition System_Timer_Write :: "sysreg \<Rightarrow> sysreg" where
  "System_Timer_Write s = s\<lparr>resetTimer := True\<rparr>"

definition ColorVideo_CMD_Write :: "u8 \<Rightarrow> sysreg \<Rightarrow> sysreg" where
  "ColorVideo_CMD_Write v s =
     (let s1 = s\<lparr>col_vid_intr := v\<rparr>
      in if v AND VID_CMD_CLEAR_INT \<noteq> 0 then set_interrupt INT_DISK False s1 else s1)"

definition color_video_interrupt :: "sysreg \<Rightarrow> sysreg" where
  "color_video_interrupt s =
     (if col_vid_intr s AND VID_CMD_ENABLE_INT \<noteq> 0 then
        (set_interrupt INT_DISK True s)\<lparr>col_vid_intr := col_vid_intr s AND NOT VID_CMD_ENABLE_INT\<rparr>
      else s)"

section \<open>Interrupt levels\<close>

text \<open>The level of each line, bit 7 of the control register moving the timer to level 7.\<close>

definition line_level :: "bool \<Rightarrow> nat \<Rightarrow> int" where
  "line_level timer7 b =
     (if b = 0 then 1 else if b = 1 then 2 else if b < 14 then 3 else if b = 14 then 4
      else if b < 18 then 5 else if b = 29 \<and> timer7 then 7 else if b < 30 then 6 else 7)"

lemma line_level_pos: "0 \<le> line_level timer7 b"
  by (simp add: line_level_def)

lemma Max_insert_zero:
  fixes f :: "'b \<Rightarrow> int"
  assumes "finite P" "\<And>b. 0 \<le> f b"
  shows "Max (insert 0 (f ` P)) = (if P = {} then 0 else Max (f ` P))"
proof (cases "P = {}")
  case False
  then obtain b where "b \<in> P" by blast
  then have "f b \<le> Max (f ` P)" using assms(1) by simp
  then have "0 \<le> Max (f ` P)" using assms(2) [of b] by linarith
  then show ?thesis using assms(1) False by (simp add: Max_insert)
qed simp

lemma and_nonzero: "w AND m \<noteq> 0 \<longleftrightarrow> (\<exists>b < 32. bit w b \<and> bit (m :: u32) b)"
proof
  assume "w AND m \<noteq> 0"
  then obtain b where "bit (w AND m) b" using bit_eq_iff [of "w AND m" 0] by auto
  then show "\<exists>b < 32. bit w b \<and> bit m b"
    using bit_imp_le_length [of w b] by (auto simp: bit_and_iff)
next
  assume "\<exists>b < 32. bit w b \<and> bit m b"
  then obtain b where "bit (w AND m) b" by (auto simp: bit_and_iff)
  then show "w AND m \<noteq> 0" by auto
qed

lemma line_masks:
  assumes "b < 32"
  shows "bit INT_L7_MASK b \<longleftrightarrow> 30 \<le> b" "bit INT_L6_MASK b \<longleftrightarrow> 18 \<le> b \<and> b < 30"
    "bit INT_L5_MASK b \<longleftrightarrow> 15 \<le> b \<and> b < 18" "bit INT_L4_MASK b \<longleftrightarrow> b = 14"
    "bit INT_L3_MASK b \<longleftrightarrow> 2 \<le> b \<and> b < 14" "bit INT_L2_MASK b \<longleftrightarrow> b = 1"
    "bit INT_L1_MASK b \<longleftrightarrow> b = 0" "bit INT_TIMER b \<longleftrightarrow> b = 29"
proof -
  have "list_all (\<lambda>b. (bit INT_L7_MASK b \<longleftrightarrow> 30 \<le> b) \<and> (bit INT_L6_MASK b \<longleftrightarrow> 18 \<le> b \<and> b < 30) \<and>
     (bit INT_L5_MASK b \<longleftrightarrow> 15 \<le> b \<and> b < 18) \<and> (bit INT_L4_MASK b \<longleftrightarrow> b = 14) \<and>
     (bit INT_L3_MASK b \<longleftrightarrow> 2 \<le> b \<and> b < 14) \<and> (bit INT_L2_MASK b \<longleftrightarrow> b = 1) \<and>
     (bit INT_L1_MASK b \<longleftrightarrow> b = 0) \<and> (bit INT_TIMER b \<longleftrightarrow> b = 29)) [0 ..< 32]"
    by (simp add: upt_rec)
  with assms show "bit INT_L7_MASK b \<longleftrightarrow> 30 \<le> b" "bit INT_L6_MASK b \<longleftrightarrow> 18 \<le> b \<and> b < 30"
    "bit INT_L5_MASK b \<longleftrightarrow> 15 \<le> b \<and> b < 18" "bit INT_L4_MASK b \<longleftrightarrow> b = 14"
    "bit INT_L3_MASK b \<longleftrightarrow> 2 \<le> b \<and> b < 14" "bit INT_L2_MASK b \<longleftrightarrow> b = 1"
    "bit INT_L1_MASK b \<longleftrightarrow> b = 0" "bit INT_TIMER b \<longleftrightarrow> b = 29"
    by (simp_all only: list_all_iff) simp_all
qed

text \<open>The lines pending and enabled, and a chain of tests from the highest level down.\<close>

definition pending :: "sysreg \<Rightarrow> nat set" where
  "pending s = {b. b < 32 \<and> bit (intStat s AND intMask s) b}"

lemma pending_mask:
  "(intStat s AND intMask s) AND m \<noteq> 0 \<longleftrightarrow> (\<exists>b \<in> pending s. bit m b)"
  by (auto simp: and_nonzero pending_def)

lemma pending_zero: "intStat s AND intMask s = 0 \<longleftrightarrow> pending s = {}"
  using and_nonzero [of "intStat s AND intMask s" "- 1"] by (auto simp: pending_def)

lemma level_tests:
  fixes s
  defines "timer7 \<equiv> scr2_2 s AND SCR2_TIMERIPL7 \<noteq> 0"
  defines "has \<equiv> \<lambda>l. \<exists>b \<in> pending s. line_level timer7 b = l"
  shows "get_interrupt_level s =
    (if pending s = {} then Inr 0 else if has 7 then Inr 7 else if has 6 then Inr 6 else if has 5 then Inr 5
     else if has 4 then Inr 4 else if has 3 then Inr 3 else if has 2 then Inr 2 else if has 1 then Inr 1
     else Inl AssertFailure)"
proof -
  let ?w = "intStat s AND intMask s"
  have P: "b < 32" if "b \<in> pending s" for b using that by (simp add: pending_def)
  have lev: "line_level timer7 b = 7 \<longleftrightarrow> bit INT_L7_MASK b \<or> bit INT_TIMER b \<and> timer7"
    "line_level timer7 b = 6 \<longleftrightarrow> bit INT_L6_MASK b \<and> \<not> (bit INT_TIMER b \<and> timer7)"
    "line_level timer7 b = 5 \<longleftrightarrow> bit INT_L5_MASK b" "line_level timer7 b = 4 \<longleftrightarrow> bit INT_L4_MASK b"
    "line_level timer7 b = 3 \<longleftrightarrow> bit INT_L3_MASK b" "line_level timer7 b = 2 \<longleftrightarrow> bit INT_L2_MASK b"
    "line_level timer7 b = 1 \<longleftrightarrow> bit INT_L1_MASK b" if "b \<in> pending s" for b
    unfolding line_masks [OF P [OF that]] using P [OF that] by (simp_all add: line_level_def)
  have l7: "has 7 \<longleftrightarrow> ?w AND INT_L7_MASK \<noteq> 0 \<or> ?w AND INT_TIMER \<noteq> 0 \<and> timer7"
    unfolding pending_mask has_def by (simp only: lev cong: bex_cong) blast
  have l6: "has 6 \<longleftrightarrow> ?w AND INT_L6_MASK \<noteq> 0" if "\<not> (?w AND INT_TIMER \<noteq> 0 \<and> timer7)"
    using that unfolding pending_mask has_def by (simp only: lev cong: bex_cong) blast
  have l5: "has 5 \<longleftrightarrow> ?w AND INT_L5_MASK \<noteq> 0" and l4: "has 4 \<longleftrightarrow> ?w AND INT_L4_MASK \<noteq> 0"
    and l3: "has 3 \<longleftrightarrow> ?w AND INT_L3_MASK \<noteq> 0" and l2: "has 2 \<longleftrightarrow> ?w AND INT_L2_MASK \<noteq> 0"
    and l1: "has 1 \<longleftrightarrow> ?w AND INT_L1_MASK \<noteq> 0"
    unfolding pending_mask has_def by (simp_all only: lev cong: bex_cong)
  show ?thesis
  proof (cases "?w AND INT_TIMER \<noteq> 0 \<and> timer7")
    case True
    then show ?thesis
      unfolding get_interrupt_level_def Let_def pending_zero timer7_def [symmetric] l7 by (simp only: simp_thms if_cancel if_True)
  next
    case False
    show ?thesis
      unfolding get_interrupt_level_def Let_def pending_zero timer7_def [symmetric] l7 l6 [OF False] l5 l4 l3 l2 l1
      by (simp only: False simp_thms if_False)
  qed
qed

lemma first_is_max:
  fixes f :: "nat \<Rightarrow> int"
  assumes "\<And>b. b \<in> P \<Longrightarrow> 1 \<le> f b \<and> f b \<le> 7" "finite P" "P \<noteq> {}"
  shows "(\<exists>b \<in> P. f b = Max (f ` P))" "\<And>l. Max (f ` P) < l \<Longrightarrow> \<not> (\<exists>b \<in> P. f b = l)" "1 \<le> Max (f ` P)" "Max (f ` P) \<le> 7"
proof -
  have m: "Max (f ` P) \<in> f ` P" using assms(2,3) by (intro Max_in) simp_all
  then show "\<exists>b \<in> P. f b = Max (f ` P)" by auto
  show "\<not> (\<exists>b \<in> P. f b = l)" if "Max (f ` P) < l" for l
    using that Max_ge [of "f ` P"] assms(2) by fastforce
  show "1 \<le> Max (f ` P)" "Max (f ` P) \<le> 7" using m assms(1) by auto
qed

lemma level_max:
  "get_interrupt_level s = Inr (if pending s = {} then 0
     else Max (line_level (scr2_2 s AND SCR2_TIMERIPL7 \<noteq> 0) ` pending s))"
proof (cases "pending s = {}")
  case True
  then show ?thesis by (simp add: level_tests)
next
  case False
  let ?f = "line_level (scr2_2 s AND SCR2_TIMERIPL7 \<noteq> 0)"
  let ?m = "Max (?f ` pending s)"
  have fin: "finite (pending s)" by (simp add: pending_def)
  have r: "1 \<le> ?f b \<and> ?f b \<le> 7" for b by (simp add: line_level_def)
  define H where "H = (\<lambda>l. \<exists>b \<in> pending s. ?f b = l)"
  note m = first_is_max [of "pending s" ?f, OF r fin False, folded H_def]
  have H: "H ?m" "\<And>l. ?m < l \<Longrightarrow> \<not> H l" using m(1,2) by (auto simp: H_def)
  have lt: "get_interrupt_level s = (if H 7 then Inr 7 else if H 6 then Inr 6 else if H 5 then Inr 5
     else if H 4 then Inr 4 else if H 3 then Inr 3 else if H 2 then Inr 2 else if H 1 then Inr 1
     else Inl AssertFailure)"
    using level_tests [of s] False by (simp only: H_def if_False)
  consider "?m = 7" | "?m = 6" | "?m = 5" | "?m = 4" | "?m = 3" | "?m = 2" | "?m = 1" using m(3,4) by linarith
  then show ?thesis using H False by cases (simp_all add: lt)
qed

section \<open>The serial lines in the control register\<close>

text \<open>A result with the returned bit as a truth value; the interface only asks whether a bit is 0.\<close>

definition as_bool :: "(u8 \<times> 'a) res \<Rightarrow> (bool \<times> 'a) res" where
  "as_bool r = bnd r (\<lambda>(b, t). Inr (b \<noteq> 0, t))"

lemma shift_in_bool: "(d \<noteq> 0) = (d' \<noteq> 0) \<Longrightarrow> shift_in v d = shift_in v d'"
  by (simp add: shift_in_def)

context serial_chip
begin

lemma io_bool:
  assumes d: "(d \<noteq> 0) = (d' \<noteq> 0)"
  shows "as_bool (io d s) = as_bool (io d' s)"
proof (cases "phase s + 1 \<le> 8")
  case True
  then show ?thesis using d by (simp add: io Let_def as_bool_def shift_in_bool [OF d])
next
  case False
  let ?s = "s\<lparr>phase := phase s + 1\<rparr>"
  let ?f = "if phase ?s = 9 \<and> rtc_addr ?s AND RTC_ADDR_WRITE = 0 then fetch ?s else Inr ?s"
  show ?thesis
  proof (cases ?f)
    case (Inl e)
    then show ?thesis using False by (simp add: io Let_def as_bool_def split: if_splits)
  next
    case (Inr s1)
    have "io d s = bnd ?f (\<lambda>s1.
            let (b, s2) = (if rtc_addr s1 AND RTC_ADDR_WRITE \<noteq> 0
                           then (d, s1\<lparr>rtc_val := shift_in (rtc_val s1) d\<rparr>)
                           else (shift_out (rtc_val s1) (phase s1), s1))
            in if phase s2 = 16 then
                 bnd (if rtc_addr s2 AND RTC_ADDR_WRITE \<noteq> 0 then store s2 else Inr s2) (\<lambda>s3.
                   Inr (b, s3\<lparr>rtc_addr := nxt (rtc_addr s3), phase := phase s3 - 8\<rparr>))
               else Inr (b, s2))" for d
      using False by (simp add: io Let_def)
    then show ?thesis
      using d unfolding Inr bnd_Inr as_bool_def shift_in_bool [OF d]
      by (cases "store (s1\<lparr>rtc_val := shift_in (rtc_val s1) d'\<rparr>)") (simp_all add: Let_def shift_in_bool [OF d])
  qed
qed

end

lemma rtc_io_bool:
  "(d \<noteq> 0) = (d' \<noteq> 0) \<Longrightarrow> as_bool (rtc_interface_io E d s) = as_bool (rtc_interface_io E d' s)"
  by (cases "nRTC E"; simp only: rtc_interface_io_def RTCCHIP.case; rule old.io_bool new.io_bool; assumption)

text \<open>
  The way software drives the chip: for each bit the clock line goes high and low with the data
  line set, and the data line is read back.
\<close>

definition clock_bit :: "rtc_env \<Rightarrow> bool \<Rightarrow> sysreg \<Rightarrow> (bool \<times> sysreg) res" where
  "clock_bit E d s =
     (let v = SCR2_RTCE OR (if d then SCR2_RTDATA else 0)
      in bnd (SCR2_Write2 E (v OR SCR2_RTCLK) s) (\<lambda>s1.
         bnd (SCR2_Write2 E v s1) (\<lambda>s2. Inr (SCR2_Read2 s2 AND SCR2_RTDATA \<noteq> 0, s2))))"

fun clock_bits :: "rtc_env \<Rightarrow> bool list \<Rightarrow> sysreg \<Rightarrow> (bool list \<times> sysreg) res" where
  "clock_bits E [] s = Inr ([], s)"
| "clock_bits E (d # ds) s =
     bnd (clock_bit E d s) (\<lambda>(b, s1). bnd (clock_bits E ds s1) (\<lambda>(bs, s2). Inr (b # bs, s2)))"

definition select_chip :: "rtc_env \<Rightarrow> sysreg \<Rightarrow> sysreg res" where
  "select_chip E s = SCR2_Write2 E 0 s"

lemma write_clock_high: "v AND SCR2_RTCE \<noteq> 0 \<Longrightarrow> v AND SCR2_RTCLK \<noteq> 0 \<Longrightarrow> SCR2_Write2 E v s = Inr (s\<lparr>scr2_2 := v\<rparr>)"
  by (simp add: SCR2_Write2_def Let_def)

lemma write_clock_low:
  assumes "v AND SCR2_RTCE \<noteq> 0" "v AND SCR2_RTCLK = 0" "scr2_2 s AND SCR2_RTCLK \<noteq> 0"
    "rtc_interface_io E (v AND SCR2_RTDATA) (s_rtc s) = Inr (b, r)"
  shows "SCR2_Write2 E v s =
    Inr (s\<lparr>s_rtc := r, scr2_2 := (v AND NOT SCR2_RTDATA) OR (if b \<noteq> 0 then SCR2_RTDATA else 0)\<rparr>)"
proof -
  have "s\<lparr>scr2_2 := x, s_rtc := r, scr2_2 := y\<rparr> = s\<lparr>s_rtc := r, scr2_2 := y\<rparr>" for x y
    by (rule sysreg.equality) simp_all
  then show ?thesis using assms by (simp add: SCR2_Write2_def Let_def)
qed

lemma clock_bit_io:
  "rtc_interface_io E (if d then 1 else 0) (s_rtc s) = Inr (b, r) \<Longrightarrow>
    \<exists>v. clock_bit E d s = Inr (b \<noteq> 0, s\<lparr>s_rtc := r, scr2_2 := v\<rparr>)"
proof -
  assume io: "rtc_interface_io E (if d then 1 else 0) (s_rtc s) = Inr (b, r)"
  let ?d = "(SCR2_RTCE OR (if d then SCR2_RTDATA else 0)) AND SCR2_RTDATA"
  have "(?d \<noteq> 0) = ((if d then 1 else 0 :: u8) \<noteq> 0)" by simp
  from rtc_io_bool [OF this, of E "s_rtc s"] obtain b' where
    b': "rtc_interface_io E ?d (s_rtc s) = Inr (b', r)" "(b' \<noteq> 0) = (b \<noteq> 0)"
    unfolding io by (cases "rtc_interface_io E ?d (s_rtc s)") (auto simp: as_bool_def)
  let ?v = "SCR2_RTCE OR (if d then SCR2_RTDATA else 0)"
  let ?w = "(?v AND NOT SCR2_RTDATA) OR (if b' \<noteq> 0 then SCR2_RTDATA else 0)"
  have high: "SCR2_Write2 E (?v OR SCR2_RTCLK) s = Inr (s\<lparr>scr2_2 := ?v OR SCR2_RTCLK\<rparr>)"
    by (rule write_clock_high) simp_all
  have low: "SCR2_Write2 E ?v (s\<lparr>scr2_2 := ?v OR SCR2_RTCLK\<rparr>) =
      Inr (s\<lparr>scr2_2 := ?v OR SCR2_RTCLK\<rparr>\<lparr>s_rtc := r, scr2_2 := ?w\<rparr>)"
    by (rule write_clock_low) (use b' in simp_all)
  have s: "s\<lparr>scr2_2 := ?v OR SCR2_RTCLK\<rparr>\<lparr>s_rtc := r, scr2_2 := ?w\<rparr> = s\<lparr>s_rtc := r, scr2_2 := ?w\<rparr>"
    by (rule sysreg.equality) simp_all
  have "(?w AND SCR2_RTDATA \<noteq> 0) = (b \<noteq> 0)" using b'(2) by (cases d; cases "b' = 0") simp_all
  then have "clock_bit E d s = Inr (b \<noteq> 0, s\<lparr>s_rtc := r, scr2_2 := ?w\<rparr>)"
    unfolding clock_bit_def Let_def high low bnd_Inr s SCR2_Read2_def by simp
  then show ?thesis by blast
qed

definition bits :: "u8 \<Rightarrow> bool list" where
  "bits v = map (bit v) [7, 6, 5, 4, 3, 2, 1, 0]"

abbreviation "line_bits \<equiv> map (\<lambda>d. if d then 1 else 0 :: u8)"

lemma byte_bits_bits: "byte_bits v = line_bits (bits v)"
  by (simp add: byte_bits_def bits_def)

lemma bits_back: "map (\<lambda>b. b \<noteq> 0) (line_bits ds) = ds"
  by (induction ds) simp_all

lemma concat_bits: "concat (map byte_bits vs) = line_bits (concat (map bits vs))"
  by (induction vs) (simp_all add: byte_bits_bits)

lemma clock_bits_serial:
  "serial (rtc_interface_io E) (line_bits ds) (s_rtc s) = Inr (bs, r) \<Longrightarrow>
    \<exists>v. clock_bits E ds s = Inr (map (\<lambda>b. b \<noteq> 0) bs, s\<lparr>s_rtc := r, scr2_2 := v\<rparr>)"
proof (induction ds arbitrary: s bs)
  case Nil
  then show ?case by (auto intro!: exI [of _ "scr2_2 s"])
next
  case (Cons d ds)
  from Cons.prems obtain b r1 cs where 1: "rtc_interface_io E (if d then 1 else 0) (s_rtc s) = Inr (b, r1)"
    "serial (rtc_interface_io E) (line_bits ds) r1 = Inr (cs, r)" "bs = b # cs"
    by (auto simp: bnd_eq_Inr)
  obtain v where v: "clock_bit E d s = Inr (b \<noteq> 0, s\<lparr>s_rtc := r1, scr2_2 := v\<rparr>)"
    using clock_bit_io [OF 1(1)] by blast
  obtain v' where "clock_bits E ds (s\<lparr>s_rtc := r1, scr2_2 := v\<rparr>) =
      Inr (map (\<lambda>b. b \<noteq> 0) cs, s\<lparr>s_rtc := r1, scr2_2 := v\<rparr>\<lparr>s_rtc := r, scr2_2 := v'\<rparr>)"
    using Cons.IH [of "s\<lparr>s_rtc := r1, scr2_2 := v\<rparr>" cs] 1(2) by auto
  moreover have "s\<lparr>s_rtc := r1, scr2_2 := v\<rparr>\<lparr>s_rtc := r, scr2_2 := v'\<rparr> = s\<lparr>s_rtc := r, scr2_2 := v'\<rparr>"
    by (rule sysreg.equality) simp_all
  ultimately show ?case using v 1(3) by (auto intro: exI [of _ v'])
qed

lemma select_resets: "select_chip E s = Inr (s\<lparr>scr2_2 := 0, s_rtc := rtc_interface_reset (s_rtc s)\<rparr>)"
  by (simp add: select_chip_def SCR2_Write2_def)

lemma rtc_burst:
  assumes "k + length vs \<le> 32" "vs \<noteq> []" "length ds = 8 * length vs"
  shows "\<exists>bs t u. serial (rtc_interface_io E) (byte_bits (0x80 + of_nat k) @ concat (map byte_bits vs)) (rtc_interface_reset r) =
      Inr (bs, t) \<and>
    serial (rtc_interface_io E) (byte_bits (of_nat k) @ ds) (rtc_interface_reset t) =
      Inr (byte_bits (of_nat k) @ concat (map byte_bits vs), u)"
  using old.burst_roundtrip [OF assms, of E r] new.burst_roundtrip [OF assms, of E r]
  by (cases "nRTC E") (simp_all add: rtc_interface_io_def [abs_def])

section \<open>The hardware clock\<close>

lemma period_product:
  assumes "0 \<le> L" "L < 0x10000" "0 < sint (f :: u32)"
  shows "sint (word_of_int L * scast f :: i64) = L * sint f" "word_of_int L * scast f \<noteq> INT64_MAX"
proof -
  have "sint f < 2 ^ 31" using sint_lt [of f] by simp
  then have f: "sint f \<le> 2 ^ 31" by simp
  have b: "0 \<le> L * sint f" "L * sint f \<le> 0x10000 * 2 ^ 31"
    using assms f by (simp, intro mult_mono) simp_all
  then have b63: "L * sint f < 2 ^ 62" by simp
  have "sint (word_of_int (L * sint f) :: i64) = L * sint f"
    by (subst sint_sbintrunc', rule signed_take_bit_int_eq_self) (use b b63 in simp_all)
  moreover have "(word_of_int L * scast f :: i64) = word_of_int (L * sint f)"
    unfolding scast_eq wi_hom_mult ..
  ultimately show s: "sint (word_of_int L * scast f :: i64) = L * sint f" by (simp only:)
  show "word_of_int L * scast f \<noteq> INT64_MAX"
  proof
    assume "word_of_int L * scast f = INT64_MAX"
    then have "L * sint f = sint INT64_MAX" using s by (simp only:)
    moreover have "sint INT64_MAX = 2 ^ 63 - 1" by simp
    ultimately show False using b63 by simp
  qed
qed

lemma latch_range: "0 \<le> push_bit 8 (uint (a :: u8)) OR uint (b :: u8)" "push_bit 8 (uint (a :: u8)) OR uint (b :: u8) < 0x10000"
proof -
  have "push_bit 8 (uint a) < 2 ^ 16" "uint b < 2 ^ 16"
    using uint_bounded [of a] uint_bounded [of b] by (simp_all add: push_bit_eq_mult)
  then show "push_bit 8 (uint a) OR uint b < 0x10000"
    using OR_upper [of "push_bit 8 (uint a)" 16 "uint b"] by simp
qed simp

lemma timer_armed:
  assumes "cyc_ok c" "0 < ActiveInterrupt c \<or> nCyclesOver c = 0" "\<not> bRealtime E" "0 < sint (nCpuFreq E)"
    "0 < L" "L < 0x10000"
  shows "\<exists>t. CycInt_AddRelativeInterruptUs E now (word_of_int L) 0 INTERRUPT_HARDCLOCK c = Inr t \<and> cyc_ok t \<and>
    0 < ActiveInterrupt t \<and> nCyclesOver t = 0 \<and>
    deadline t = (deadline c)(INTERRUPT_HARDCLOCK \<mapsto> word_of_int L * scast (nCpuFreq E))"
proof -
  let ?p = "word_of_int L * scast (nCpuFreq E) :: i64"
  have p: "0 \<le> sint ?p" "?p \<noteq> INT64_MAX"
    using period_product [of L "nCpuFreq E"] assms(4-6) by simp_all
  have "sint (word_of_int L :: i64) = L"
    by (subst sint_sbintrunc', rule signed_take_bit_int_eq_self) (use assms(5,6) in simp_all)
  then show ?thesis
    using AddCycles_arms [OF assms(1) _ _ p(1) assms(2), of INTERRUPT_HARDCLOCK] p(2) assms(3,5)
    by (auto simp: CycInt_AddRelativeInterruptUs_def)
qed

section \<open>Properties of the system registers\<close>

text \<open>
  C28. The interrupt level. The chain of masks always finds a level (the abort is never reached),
  and it is the highest of the levels of the lines that are pending and enabled, the timer counting
  as level 7 when software asks for it, and 0 when there is none.
\<close>
theorem interrupt_level_is_highest:
  "get_interrupt_level s =
     Inr (Max (insert 0 {line_level (scr2_2 s AND SCR2_TIMERIPL7 \<noteq> 0) b | b.
       b < 32 \<and> bit (intStat s) b \<and> bit (intMask s) b}))"
proof -
  have "{line_level t b | b. b < 32 \<and> bit (intStat s) b \<and> bit (intMask s) b} = line_level t ` pending s" for t
    by (auto simp: pending_def bit_and_iff)
  moreover have "finite (pending s)" by (simp add: pending_def)
  then have "Max (insert 0 (line_level t ` pending s)) =
      (if pending s = {} then 0 else Max (line_level t ` pending s))" for t
    by (rule Max_insert_zero) (rule line_level_pos)
  ultimately show ?thesis by (simp add: level_max)
qed

text \<open>
  C29. The memory of the clock chip through the control register. Software that deselects the chip,
  clocks out the write address of a place in the memory and any bytes on the data and clock lines of
  the system control register, deselects it again and clocks out the address to read finds exactly
  these bytes, highest bit first, on the data line: the edge detection of the register and the
  serial protocol of either chip fit together.
\<close>
theorem nvram_through_register:
  assumes "k + length vs \<le> 32" "vs \<noteq> []" "length ds = 8 * length vs"
  shows "\<exists>s0 bs t t0 u. select_chip E s = Inr s0 \<and>
    clock_bits E (bits (0x80 + of_nat k) @ concat (map bits vs)) s0 = Inr (bs, t) \<and>
    select_chip E t = Inr t0 \<and>
    clock_bits E (bits (of_nat k) @ ds) t0 = Inr (bits (of_nat k) @ concat (map bits vs), u)"
proof -
  obtain bs r r' where 1: "serial (rtc_interface_io E) (byte_bits (0x80 + of_nat k) @ concat (map byte_bits vs))
      (rtc_interface_reset (s_rtc s)) = Inr (bs, r)"
    "serial (rtc_interface_io E) (byte_bits (of_nat k) @ line_bits ds) (rtc_interface_reset r) =
      Inr (byte_bits (of_nat k) @ concat (map byte_bits vs), r')"
    using rtc_burst [OF assms(1,2), of "line_bits ds" E "s_rtc s"] assms(3) by auto
  let ?s0 = "s\<lparr>scr2_2 := 0, s_rtc := rtc_interface_reset (s_rtc s)\<rparr>"
  obtain v where t: "clock_bits E (bits (0x80 + of_nat k) @ concat (map bits vs)) ?s0 =
      Inr (map (\<lambda>b. b \<noteq> 0) bs, ?s0\<lparr>s_rtc := r, scr2_2 := v\<rparr>)"
    using clock_bits_serial [of E "bits (0x80 + of_nat k) @ concat (map bits vs)" ?s0 bs r] 1(1)
    by (auto simp: byte_bits_bits concat_bits)
  let ?t = "?s0\<lparr>s_rtc := r, scr2_2 := v\<rparr>"
  let ?t0 = "?t\<lparr>scr2_2 := 0, s_rtc := rtc_interface_reset (s_rtc ?t)\<rparr>"
  obtain w where "clock_bits E (bits (of_nat k) @ ds) ?t0 =
      Inr (map (\<lambda>b. b \<noteq> 0) (line_bits (bits (of_nat k) @ concat (map bits vs))), ?t0\<lparr>s_rtc := r', scr2_2 := w\<rparr>)"
    using clock_bits_serial [of E "bits (of_nat k) @ ds" ?t0 "line_bits (bits (of_nat k) @ concat (map bits vs))" r'] 1(2)
    by (auto simp: byte_bits_bits concat_bits)
  then have u: "clock_bits E (bits (of_nat k) @ ds) ?t0 = Inr (bits (of_nat k) @ concat (map bits vs), ?t0\<lparr>s_rtc := r', scr2_2 := w\<rparr>)"
    by (simp only: bits_back)
  show ?thesis
    by (intro exI conjI, rule select_resets, rule t, rule select_resets, rule u)
qed

text \<open>
  C30. The hardware clock is periodic when timers count cycles (real-time mode, where this timer counts
  microseconds of the host, is excluded). While another event is active, or no cycles have been counted since
  the last one, writing the latch and enable bits with a nonzero count arms the timer with exactly that many
  microseconds of cycles, leaves all other events as they are and clears the pending timer interrupt. Whenever
  afterwards the event is the active one and the latched count and control byte are unchanged, its handler raises the
  timer interrupt and arms the timer with the same period again, leaving all other events as they are.
\<close>
theorem hardclock_periodic:
  assumes "cyc_ok (s_cyc s)" "0 < ActiveInterrupt (s_cyc s) \<or> nCyclesOver (s_cyc s) = 0"
    "\<not> bRealtime E" "0 < sint (nCpuFreq E)" "hardclock0 s \<noteq> 0 \<or> hardclock1 s \<noteq> 0"
  shows "\<exists>t. HardclockWriteCSR E now 0xC0 s = Inr t \<and> \<not> bit (intStat t) 29 \<and>
    sint (word_of_int (latch_hardclock t) * scast (nCpuFreq E) :: i64) =
      (256 * uint (hardclock0 s) + uint (hardclock1 s)) * sint (nCpuFreq E) \<and>
    deadline (s_cyc t) = (deadline (s_cyc s))(INTERRUPT_HARDCLOCK \<mapsto> word_of_int (latch_hardclock t) * scast (nCpuFreq E)) \<and>
    (\<forall>u now'. cyc_ok (s_cyc u) \<and> ActiveInterrupt (s_cyc u) = INTERRUPT_HARDCLOCK \<and>
        hardclock_csr u = hardclock_csr t \<and> latch_hardclock u = latch_hardclock t \<longrightarrow>
      (\<exists>v. Hardclock_InterruptHandler E now' u = Inr v \<and> bit (intStat v) 29 \<and>
        deadline (s_cyc v) = (deadline (s_cyc u))(INTERRUPT_HARDCLOCK \<mapsto> word_of_int (latch_hardclock t) * scast (nCpuFreq E))))"
proof -
  define L where "L = push_bit 8 (uint (hardclock0 s)) OR uint (hardclock1 s)"
  have L: "L = 256 * uint (hardclock0 s) + uint (hardclock1 s)"
  proof -
    have "push_bit 8 (uint (hardclock0 s)) AND uint (hardclock1 s) = 0"
      by (rule bit_eqI) (auto simp: bit_simps bit_uint_iff dest: bit_imp_le_length)
    then have "L = push_bit 8 (uint (hardclock0 s)) + uint (hardclock1 s)"
      unfolding L_def by (rule disjunctive_add_eq_or [symmetric])
    then show ?thesis by (simp add: push_bit_eq_mult)
  qed
  have pos: "0 < uint (hardclock0 s) \<or> 0 < uint (hardclock1 s)" using assms(5) by (metis uint_ge_0 order_le_imp_less_or_eq unsigned_eq_0_iff)
  have range: "0 < L" "L < 0x10000"
    using pos latch_range(2) [of "hardclock0 s" "hardclock1 s"] uint_ge_0 [of "hardclock0 s"] uint_ge_0 [of "hardclock1 s"]
    unfolding L_def [symmetric] L by (linarith, simp)
  let ?p = "word_of_int L * scast (nCpuFreq E) :: i64"
  obtain c where c: "CycInt_AddRelativeInterruptUs E now (word_of_int L) 0 INTERRUPT_HARDCLOCK (s_cyc s) = Inr c"
    "deadline c = (deadline (s_cyc s))(INTERRUPT_HARDCLOCK \<mapsto> ?p)"
    using timer_armed [OF assms(1-4) range] by blast
  define t where "t = set_interrupt INT_TIMER False
    (s\<lparr>hardclock_csr := 0x80, latch_hardclock := L, hardClockLastLatch := now, s_cyc := c\<rparr>)"
  have t: "hardclock_csr t = 0x80" "latch_hardclock t = L" "s_cyc t = c"
    by (simp_all add: t_def set_interrupt_def)
  have w: "HardclockWriteCSR E now 0xC0 s = Inr t"
    using c(1) range(1) by (simp add: HardclockWriteCSR_def Let_def L_def [symmetric] t_def)
  have b: "\<not> bit (intStat t) 29"
    by (simp add: t_def set_interrupt_def bit_and_iff bit_not_iff)
  have p: "sint ?p = L * sint (nCpuFreq E)" using range assms(4) by (intro period_product) simp_all
  have h: "\<exists>v. Hardclock_InterruptHandler E now' u = Inr v \<and> bit (intStat v) 29 \<and>
      deadline (s_cyc v) = (deadline (s_cyc u))(INTERRUPT_HARDCLOCK \<mapsto> ?p)"
    if u: "cyc_ok (s_cyc u)" "ActiveInterrupt (s_cyc u) = INTERRUPT_HARDCLOCK" "hardclock_csr u = 0x80" "latch_hardclock u = L"
    for u now'
  proof -
    obtain c1 where c1: "CycInt_AcknowledgeInterrupt (s_cyc u) = Inr c1" "cyc_ok c1" "nCyclesOver c1 = 0"
      "deadline c1 = (deadline (s_cyc u))(INTERRUPT_HARDCLOCK := None)"
      using Acknowledge_disarms [OF u(1)] u(2) by auto
    obtain c2 where c2: "CycInt_AddRelativeInterruptUs E now' (word_of_int L) 0 INTERRUPT_HARDCLOCK c1 = Inr c2"
      "deadline c2 = (deadline c1)(INTERRUPT_HARDCLOCK \<mapsto> ?p)"
      using timer_armed [OF c1(2) _ assms(3,4) range] c1(3) by blast
    show ?thesis
      using c1 c2 u range(1)
      by (simp add: Hardclock_InterruptHandler_def Let_def set_interrupt_def log_call_def bit_or_iff)
  qed
  show ?thesis
    using w b p c(2) h by (intro exI [of _ t]) (simp add: t L)
qed

section \<open>Witnesses\<close>

definition sys_state :: sysreg where
  "sys_state =
     \<lparr>SCR_ROM_overlay = 0, scr1 = 0, scr2_0 = 0, scr2_1 = 0, scr2_2 = 0, scr2_3 = 0, intStat = 0, intMask = 0,
      dsp_intr_at_block_end = 0, dsp_dma_unpacked = 0, hardclock_csr = 0, hardclock1 = 0xE8, hardclock0 = 3,
      latch_hardclock = 0, hardClockLastLatch = 0, sysTimerOffset = 0, resetTimer = False, col_vid_intr = 0,
      s_rtc = chip_state, s_cyc = cyc_vbl, calls = []\<rparr>"

lemma nvram_through_register_witness:
  "\<exists>s0 bs t t0 u. select_chip (plain_env MC68HC68T1) sys_state = Inr s0 \<and>
    clock_bits (plain_env MC68HC68T1) (bits (0x80 + of_nat 31) @ concat (map bits [0x5A])) s0 = Inr (bs, t) \<and>
    select_chip (plain_env MC68HC68T1) t = Inr t0 \<and>
    clock_bits (plain_env MC68HC68T1) (bits (of_nat 31) @ replicate 8 True) t0 =
      Inr (bits (of_nat 31) @ concat (map bits [0x5A]), u)"
  by (rule nvram_through_register) simp_all

lemma hardclock_periodic_witness:
  "\<exists>t. HardclockWriteCSR \<lparr>bRealtime = False, nCpuFreq = 25\<rparr> 0 0xC0 sys_state = Inr t \<and> \<not> bit (intStat t) 29 \<and>
    (\<exists>d. deadline (s_cyc t) INTERRUPT_HARDCLOCK = Some d \<and> sint d = 25000)"
  using hardclock_periodic [of sys_state "\<lparr>bRealtime = False, nCpuFreq = 25\<rparr>" 0] cyc_vbl_busy
  by (auto simp: sys_state_def cyc_busy_def)

end
