(* ===== verification/Kms.thy ===== *)
theory Kms
  imports Sys_Reg
begin

text \<open>
  The keyboard, mouse and sound logic (src/kms.c): its status bytes and data registers, the commands
  of the host, keyboard events, and the mouse, whose movements are cut into steps that a timed event
  delivers one by one. The calls into the sound logic and the two resets are recorded in the order
  made; whether the sound channels are active is an argument.
\<close>

section \<open>State\<close>

datatype kms_call =
    snd_gpo_access u8 | snd_start_output u8 | snd_stop_output | snd_start_input u8 | snd_stop_input
  | host_darkmatter bool | M68000_Reset bool

record kms =
  st_snd_dma :: u8
  st_km :: u8
  st_transmit :: u8
  st_cmd :: u8
  kms_data :: u32
  km_data :: u32
  km_address :: u32
  km_dev_msk :: u32
  m_button_right :: bool
  m_button_left :: bool
  m_move_left :: bool
  m_move_up :: bool
  m_move_x :: int
  m_move_y :: int
  m_move_dx :: int
  m_move_dy :: int
  k_sys :: sysreg
  k_calls :: "kms_call list"

abbreviation "SNDOUT_DMA_ENABLE \<equiv> (0x80 :: u8)"
abbreviation "SNDOUT_DMA_REQUEST \<equiv> (0x40 :: u8)"
abbreviation "SNDOUT_DMA_UNDERRUN \<equiv> (0x20 :: u8)"
abbreviation "SNDIN_DMA_ENABLE \<equiv> (0x08 :: u8)"
abbreviation "SNDIN_DMA_REQUEST \<equiv> (0x04 :: u8)"
abbreviation "SNDIN_DMA_OVERRUN \<equiv> (0x02 :: u8)"
abbreviation "KBD_INT \<equiv> (0x80 :: u8)"
abbreviation "KBD_RECEIVED \<equiv> (0x40 :: u8)"
abbreviation "KBD_OVERRUN \<equiv> (0x20 :: u8)"
abbreviation "NMI_RECEIVED \<equiv> (0x10 :: u8)"
abbreviation "KMS_INT \<equiv> (0x08 :: u8)"
abbreviation "KMS_RECEIVED \<equiv> (0x04 :: u8)"
abbreviation "KMS_OVERRUN \<equiv> (0x02 :: u8)"
abbreviation "KMS_ENABLE \<equiv> (0x02 :: u8)"
abbreviation "TX_LOOP \<equiv> (0x01 :: u8)"
abbreviation "KMSCMD_RESET \<equiv> (0xFF :: u8)"
abbreviation "KMSCMD_ASNDOUT \<equiv> (0xC7 :: u8)"
abbreviation "KMSCMD_KMREG \<equiv> (0xC5 :: u8)"
abbreviation "KMSCMD_CTRLOUT \<equiv> (0xC4 :: u8)"
abbreviation "KMSCMD_VOLCTRL \<equiv> (0xC2 :: u8)"
abbreviation "KMSCMD_SND_IN \<equiv> (0x03 :: u8)"
abbreviation "KMSCMD_SND_OUT \<equiv> (0x07 :: u8)"
abbreviation "KMSCMD_SIO_MASK \<equiv> (0xC7 :: u8)"
abbreviation "SIO_ENABLE \<equiv> (0x08 :: u8)"
abbreviation "SIO_DBL_SMPL \<equiv> (0x10 :: u8)"
abbreviation "SIO_ZERO \<equiv> (0x20 :: u8)"
abbreviation "KMSCMD_KBD_RECV \<equiv> (0xC6 :: u8)"
abbreviation "KM_RESET \<equiv> (0x0F :: u8)"
abbreviation "KM_SET_ADDR \<equiv> (0xEF :: u8)"
abbreviation "KM_ADDR_MASK \<equiv> (0x0E :: u8)"
abbreviation "KM_ADDR_MOUSE \<equiv> (0x01 :: u32)"
abbreviation "INT_KEYMOUSE \<equiv> (0x00000008 :: u32)"
abbreviation "INT_MONITOR \<equiv> (0x00000010 :: u32)"
abbreviation "INT_SOUND_OVRUN \<equiv> (0x00000100 :: u32)"
abbreviation "INT_NMI \<equiv> (0x80000000 :: u32)"
abbreviation "NO_RESPONSE_ERR \<equiv> (0x40000000 :: u32)"
abbreviation "USER_POLL \<equiv> (0x20000000 :: u32)"
abbreviation "DEVICE_INVALID \<equiv> (0x10000000 :: u32)"
abbreviation "DEVICE_MASTER \<equiv> (0x10000000 :: u32)"
abbreviation "MOUSE_Y \<equiv> (0x0000FE00 :: u32)"
abbreviation "MOUSE_RIGHT_UP \<equiv> (0x00000100 :: u32)"
abbreviation "MOUSE_X \<equiv> (0x000000FE :: u32)"
abbreviation "MOUSE_LEFT_UP \<equiv> (0x00000001 :: u32)"
abbreviation "KBD_KEY_VALID \<equiv> (0x00008000 :: u32)"
abbreviation "KBD_KEY_UP \<equiv> (0x00000080 :: u32)"
abbreviation "INTERRUPT_MOUSE \<equiv> (3 :: nat)"

definition KMS_Reset :: "kms \<Rightarrow> kms" where
  "KMS_Reset s = s\<lparr>st_snd_dma := 0, st_km := 0, st_transmit := 0, st_cmd := 0, kms_data := 0, km_data := 0\<rparr>"

definition kms_irq :: "u32 \<Rightarrow> bool \<Rightarrow> kms \<Rightarrow> kms" where
  "kms_irq intr state s = s\<lparr>k_sys := set_interrupt intr state (k_sys s)\<rparr>"

definition kms_log :: "kms_call \<Rightarrow> kms \<Rightarrow> kms" where
  "kms_log c s = s\<lparr>k_calls := k_calls s @ [c]\<rparr>"

section \<open>Events of the keyboard and the mouse\<close>

definition kms_interrupt :: "kms \<Rightarrow> kms" where
  "kms_interrupt s =
     (let s1 = s\<lparr>st_cmd := KMSCMD_KBD_RECV\<rparr>;
          s2 = (if st_km s1 AND KBD_RECEIVED \<noteq> 0 then s1\<lparr>st_km := st_km s1 OR KBD_OVERRUN\<rparr> else s1)
      in kms_irq INT_KEYMOUSE True (s2\<lparr>st_km := st_km s2 OR (KBD_RECEIVED OR KBD_INT)\<rparr>))"

definition kms_device_enabled :: "u32 \<Rightarrow> kms \<Rightarrow> bool" where
  "kms_device_enabled dev_addr s =
     list_ex (\<lambda>i. let mask = drop_bit i (km_dev_msk s) AND 0xF in mask = dev_addr \<and> mask \<noteq> 0xF)
       [28, 24, 20, 16, 12, 8]"

definition kms_response :: "kms \<Rightarrow> kms" where
  "kms_response s =
     kms_interrupt (s\<lparr>km_data := (push_bit 24 (km_address s) OR USER_POLL) OR (NO_RESPONSE_ERR OR DEVICE_INVALID)\<rparr>)"

text \<open>The word a key event leaves in the data register.\<close>

definition key_event :: "u8 \<Rightarrow> u8 \<Rightarrow> u32 \<Rightarrow> kms \<Rightarrow> kms" where
  "key_event modkeys keycode up s =
     (if kms_device_enabled (km_address s) s then
        kms_interrupt (s\<lparr>km_data := (push_bit 24 (km_address s) OR DEVICE_MASTER) OR
          (push_bit 8 (ucast modkeys) OR ucast keycode OR KBD_KEY_VALID OR up)\<rparr>)
      else s)"

definition kms_keydown :: "rtc_env \<Rightarrow> u8 \<Rightarrow> u8 \<Rightarrow> kms \<Rightarrow> kms" where
  "kms_keydown E modkeys keycode s =
     (if keycode = 0x26 \<and> modkeys AND 0x18 \<noteq> 0 then kms_irq INT_NMI True s
      else if keycode = 0x25 \<and> modkeys AND 0x28 = 0x28 then
        kms_log (M68000_Reset False) (kms_log (host_darkmatter False) s)
      else if keycode = 0x58 then
        kms_irq INT_POWER True (s\<lparr>k_sys := (k_sys s)\<lparr>s_rtc := rtc_request_power_down E (s_rtc (k_sys s))\<rparr>\<rparr>)
      else key_event modkeys keycode 0 s)"

definition kms_keyup :: "rtc_env \<Rightarrow> u8 \<Rightarrow> u8 \<Rightarrow> kms \<Rightarrow> kms" where
  "kms_keyup E modkeys keycode s =
     (if keycode = 0x58 then
        kms_irq INT_POWER False (s\<lparr>k_sys := (k_sys s)\<lparr>s_rtc := rtc_stop_pdown_request E (s_rtc (k_sys s))\<rparr>\<rparr>)
      else key_event modkeys keycode KBD_KEY_UP s)"

definition mouse_buttons :: "kms \<Rightarrow> u32" where
  "mouse_buttons s =
     (if m_button_left s then 0 else MOUSE_LEFT_UP) OR (if m_button_right s then 0 else MOUSE_RIGHT_UP)"

definition kms_mouse_button :: "bool \<Rightarrow> bool \<Rightarrow> kms \<Rightarrow> kms" where
  "kms_mouse_button left down s =
     (let s1 = (if left then s\<lparr>m_button_left := down\<rparr> else s\<lparr>m_button_right := down\<rparr>)
      in if kms_device_enabled (km_address s1 OR KM_ADDR_MOUSE) s1 then
           kms_interrupt (s1\<lparr>km_data := push_bit 24 (km_address s1 OR KM_ADDR_MOUSE) OR mouse_buttons s1\<rparr>)
         else s1)"

definition kms_mouse_move :: "int \<Rightarrow> bool \<Rightarrow> int \<Rightarrow> bool \<Rightarrow> kms \<Rightarrow> kms res" where
  "kms_mouse_move x left y up s =
     (if x < 0 \<or> y < 0 then Inl AssertFailure
      else
        let xsteps = (if x div 8 = 0 then 1 else x div 8);
            ysteps = (if y div 8 = 0 then 1 else y div 8);
            s1 = s\<lparr>m_move_left := left, m_move_up := up, m_move_x := x, m_move_dx := x div xsteps,
                   m_move_y := y, m_move_dy := y div ysteps\<rparr>
        in bnd (CycInt_AddRelativeInterruptCycles 10 INTERRUPT_MOUSE (s_cyc (k_sys s1))) (\<lambda>c.
             Inr (s1\<lparr>k_sys := (k_sys s1)\<lparr>s_cyc := c\<rparr>\<rparr>)))"

definition kms_mouse_move_step :: "kms \<Rightarrow> kms" where
  "kms_mouse_move_step s =
     (let x = (if m_move_dx s < m_move_x s then m_move_dx s else m_move_x s);
          y = (if m_move_dy s < m_move_y s then m_move_dy s else m_move_y s);
          s1 = s\<lparr>m_move_x := m_move_x s - x, m_move_y := m_move_y s - y\<rparr>;
          x1 = (if \<not> m_move_left s1 \<and> 0 < x then (0x40 - x) OR 0x40 else x);
          y1 = (if \<not> m_move_up s1 \<and> 0 < y then (0x40 - y) OR 0x40 else y)
      in if kms_device_enabled (km_address s1 OR KM_ADDR_MOUSE) s1 then
           kms_interrupt (s1\<lparr>km_data := push_bit 24 (km_address s1 OR KM_ADDR_MOUSE) OR
             (word_of_int (push_bit 1 x1) AND MOUSE_X) OR (word_of_int (push_bit 9 y1) AND MOUSE_Y) OR
             mouse_buttons s1\<rparr>)
         else s1)"

definition Mouse_Handler :: "sysconf \<Rightarrow> i64 \<Rightarrow> kms \<Rightarrow> kms res" where
  "Mouse_Handler E now s =
     bnd (CycInt_AcknowledgeInterrupt (s_cyc (k_sys s))) (\<lambda>c.
       let s1 = s\<lparr>k_sys := (k_sys s)\<lparr>s_cyc := c\<rparr>\<rparr>
       in if 0 < m_move_x s1 \<or> 0 < m_move_y s1 then
            let s2 = kms_mouse_move_step s1
            in bnd (CycInt_AddRelativeInterruptUs E now 1000 0 INTERRUPT_MOUSE (s_cyc (k_sys s2))) (\<lambda>c.
                 Inr (s2\<lparr>k_sys := (k_sys s2)\<lparr>s_cyc := c\<rparr>\<rparr>))
          else Inr s1)"

section \<open>Commands and registers\<close>

definition access_km_reg :: "u32 \<Rightarrow> kms \<Rightarrow> kms" where
  "access_km_reg data s =
     (let reg_addr = ucast (drop_bit 24 data AND 0xFF) :: u8;
          reg_data = ucast (drop_bit 16 data AND 0xFF) :: u8
      in if reg_addr = KM_RESET then kms_response s
         else if reg_addr = KM_SET_ADDR then kms_response (s\<lparr>km_address := ucast (reg_data AND KM_ADDR_MASK)\<rparr>)
         else kms_response s)"

definition KMS_command :: "u8 \<Rightarrow> u32 \<Rightarrow> kms \<Rightarrow> kms" where
  "KMS_command command data s =
     (if command = KMSCMD_KBD_RECV then s\<lparr>km_dev_msk := data\<rparr>
      else if command = KMSCMD_RESET \<or> command = KMSCMD_ASNDOUT then s
      else if command = KMSCMD_KMREG then access_km_reg data s
      else if command = KMSCMD_CTRLOUT then kms_log (snd_gpo_access (ucast (drop_bit 24 data))) s
      else if command = KMSCMD_VOLCTRL then s
      else if command AND KMSCMD_SIO_MASK = KMSCMD_SND_OUT then
        if command AND SIO_ENABLE \<noteq> 0 then kms_log (snd_start_output (command AND (SIO_DBL_SMPL OR SIO_ZERO))) s
        else kms_log snd_stop_output (s\<lparr>st_snd_dma := st_snd_dma s AND NOT (SNDOUT_DMA_UNDERRUN OR SNDOUT_DMA_REQUEST)\<rparr>)
      else if command AND KMSCMD_SIO_MASK = KMSCMD_SND_IN then
        if command AND SIO_ENABLE \<noteq> 0 then kms_log (snd_start_input command) s
        else kms_log snd_stop_input (s\<lparr>st_snd_dma := st_snd_dma s AND NOT (SNDIN_DMA_OVERRUN OR SNDIN_DMA_REQUEST)\<rparr>)
      else s)"

definition KMS_Ctrl_Snd_Write :: "bool \<Rightarrow> bool \<Rightarrow> u8 \<Rightarrow> kms \<Rightarrow> kms" where
  "KMS_Ctrl_Snd_Write output_active input_active val s =
     (let enable = SNDOUT_DMA_ENABLE OR SNDIN_DMA_ENABLE;
          s1 = s\<lparr>st_snd_dma := (st_snd_dma s AND NOT enable) OR (val AND enable)\<rparr>;
          s2 = (if val AND SNDOUT_DMA_UNDERRUN \<noteq> 0 \<and> \<not> output_active then
                  kms_irq INT_SOUND_OVRUN False
                    (s1\<lparr>st_snd_dma := st_snd_dma s1 AND NOT (SNDOUT_DMA_UNDERRUN OR SNDOUT_DMA_REQUEST)\<rparr>)
                else s1)
      in if val AND SNDIN_DMA_OVERRUN \<noteq> 0 \<and> \<not> input_active then
           kms_irq INT_SOUND_OVRUN False
             (s2\<lparr>st_snd_dma := st_snd_dma s2 AND NOT (SNDIN_DMA_OVERRUN OR SNDIN_DMA_REQUEST)\<rparr>)
         else s2)"

definition KMS_Stat_Snd_Read :: "kms \<Rightarrow> u8" where
  "KMS_Stat_Snd_Read s = st_snd_dma s"

definition kms_sndout_underrun :: "kms \<Rightarrow> kms" where
  "kms_sndout_underrun s =
     kms_irq INT_SOUND_OVRUN True (s\<lparr>st_snd_dma := st_snd_dma s OR (SNDOUT_DMA_UNDERRUN OR SNDOUT_DMA_REQUEST)\<rparr>)"

definition kms_sndin_overrun :: "kms \<Rightarrow> kms" where
  "kms_sndin_overrun s =
     kms_irq INT_SOUND_OVRUN True (s\<lparr>st_snd_dma := st_snd_dma s OR (SNDIN_DMA_OVERRUN OR SNDIN_DMA_REQUEST)\<rparr>)"

definition KMS_Ctrl_KM_Write :: "u8 \<Rightarrow> kms \<Rightarrow> kms" where
  "KMS_Ctrl_KM_Write val s =
     (let s1 = (if val AND KBD_OVERRUN \<noteq> 0 then
                  kms_irq INT_KEYMOUSE False (s\<lparr>st_km := st_km s AND NOT (KBD_RECEIVED OR KBD_OVERRUN OR KBD_INT)\<rparr>)
                else s);
          s2 = (if val AND NMI_RECEIVED \<noteq> 0 then
                  kms_irq INT_NMI False (s1\<lparr>st_km := st_km s1 AND NOT NMI_RECEIVED\<rparr>)
                else s1)
      in if val AND KMS_OVERRUN \<noteq> 0 then
           kms_irq INT_MONITOR False (s2\<lparr>st_km := st_km s2 AND NOT (KMS_RECEIVED OR KMS_OVERRUN OR KMS_INT)\<rparr>)
         else s2)"

definition KMS_Stat_KM_Read :: "kms \<Rightarrow> u8" where
  "KMS_Stat_KM_Read s = st_km s"

definition KMS_Ctrl_TX_Write :: "u8 \<Rightarrow> kms \<Rightarrow> kms" where
  "KMS_Ctrl_TX_Write val s =
     s\<lparr>st_transmit := (st_transmit s AND NOT (KMS_ENABLE OR TX_LOOP)) OR (val AND (KMS_ENABLE OR TX_LOOP))\<rparr>"

definition KMS_Stat_TX_Read :: "kms \<Rightarrow> u8" where
  "KMS_Stat_TX_Read s = st_transmit s"

definition KMS_Ctrl_Cmd_Write :: "u8 \<Rightarrow> kms \<Rightarrow> kms" where
  "KMS_Ctrl_Cmd_Write val s = s\<lparr>st_cmd := val\<rparr>"

definition KMS_Stat_Cmd_Read :: "kms \<Rightarrow> u8" where
  "KMS_Stat_Cmd_Read s = st_cmd s"

definition KMS_Data_Write :: "u32 \<Rightarrow> kms \<Rightarrow> kms" where
  "KMS_Data_Write v s = (let s1 = s\<lparr>kms_data := v\<rparr> in KMS_command (st_cmd s1) (kms_data s1) s1)"

definition KMS_Data_Read :: "kms \<Rightarrow> u32" where
  "KMS_Data_Read s = kms_data s"

definition KMS_KM_Data_Read :: "kms \<Rightarrow> u32 \<times> kms" where
  "KMS_KM_Data_Read s =
     (km_data s, kms_irq INT_KEYMOUSE False (s\<lparr>st_km := st_km s AND NOT (KBD_RECEIVED OR KBD_INT)\<rparr>))"

section \<open>Steps of the mouse\<close>

text \<open>A field of seven bits read as a signed number; the movement a data word reports.\<close>

definition signed7 :: "u32 \<Rightarrow> int" where
  "signed7 w = (let v = uint (w AND 0x7F) in if 64 \<le> v then v - 128 else v)"

definition movement :: "u32 \<Rightarrow> int \<times> int" where
  "movement w = (signed7 (drop_bit 1 w), signed7 (drop_bit 9 w))"

lemma low_bits_cases: "n < 7 \<Longrightarrow> n = 0 \<or> n = 1 \<or> n = 2 \<or> n = 3 \<or> n = 4 \<or> n = 5 \<or> n = (6 :: nat)"
  by linarith

lemma buttons_bits: "bit (mouse_buttons s) n \<Longrightarrow> n = 0 \<or> n = 8"
proof -
  have "bit (1 :: u32) n \<longleftrightarrow> n = 0" "bit (0x100 :: u32) n \<longleftrightarrow> n = 8"
    using bit_push_bit_iff [of 8 "1 :: u32" n] by (auto simp: bit_1_iff)
  then show "bit (mouse_buttons s) n \<Longrightarrow> n = 0 \<or> n = 8"
    by (auto simp: mouse_buttons_def bit_or_iff split: if_splits)
qed

lemma bit_7F: "bit (0x7F :: u32) n \<longleftrightarrow> n < 7"
  using bit_mask_iff [of 7 n, where 'a = "32 word"] by (auto simp: mask_eq_exp_minus_1)

lemma mouse_masks: "bit MOUSE_X n \<longleftrightarrow> 1 \<le> n \<and> n < 8" "bit MOUSE_Y n \<longleftrightarrow> 9 \<le> n \<and> n < 16"
proof -
  have m: "MOUSE_X = push_bit 1 0x7F" "MOUSE_Y = push_bit 9 0x7F" by simp_all
  show "bit MOUSE_X n \<longleftrightarrow> 1 \<le> n \<and> n < 8" "bit MOUSE_Y n \<longleftrightarrow> 9 \<le> n \<and> n < 16"
    unfolding m bit_push_bit_iff bit_7F by auto
qed

lemma field_x:
  "drop_bit 1 (push_bit 24 a OR (push_bit 1 x AND MOUSE_X) OR (push_bit 9 y AND MOUSE_Y) OR mouse_buttons s) AND 0x7F =
     x AND 0x7F"
proof (rule bit_word_eqI)
  fix n
  show "bit (drop_bit 1 (push_bit 24 a OR (push_bit 1 x AND MOUSE_X) OR (push_bit 9 y AND MOUSE_Y) OR mouse_buttons s) AND 0x7F) n =
      bit (x AND 0x7F) n"
    unfolding bit_and_iff bit_drop_bit_eq o_def bit_or_iff bit_push_bit_iff bit_7F mouse_masks
    using buttons_bits [of s "1 + n"] by auto
qed

lemma field_y:
  "drop_bit 9 (push_bit 24 a OR (push_bit 1 x AND MOUSE_X) OR (push_bit 9 y AND MOUSE_Y) OR mouse_buttons s) AND 0x7F =
     y AND 0x7F"
proof (rule bit_word_eqI)
  fix n
  show "bit (drop_bit 9 (push_bit 24 a OR (push_bit 1 x AND MOUSE_X) OR (push_bit 9 y AND MOUSE_Y) OR mouse_buttons s) AND 0x7F) n =
      bit (y AND 0x7F) n"
    unfolding bit_and_iff bit_drop_bit_eq o_def bit_or_iff bit_push_bit_iff bit_7F mouse_masks
    using buttons_bits [of s "9 + n"] by auto
qed

lemma signed7_x:
  "signed7 (drop_bit 1 (push_bit 24 a OR (push_bit 1 x AND MOUSE_X) OR (push_bit 9 y AND MOUSE_Y) OR mouse_buttons s)) = signed7 x"
  unfolding signed7_def field_x by (rule refl)

lemma signed7_y:
  "signed7 (drop_bit 9 (push_bit 24 a OR (push_bit 1 x AND MOUSE_X) OR (push_bit 9 y AND MOUSE_Y) OR mouse_buttons s)) = signed7 y"
  unfolding signed7_def field_y by (rule refl)

text \<open>The code of a step of at most 15 units.\<close>

definition step_code :: "bool \<Rightarrow> int \<Rightarrow> int" where
  "step_code positive v = (if \<not> positive \<and> 0 < v then (0x40 - v) OR 0x40 else v)"

lemma step_code_signed:
  assumes "0 \<le> v" "v \<le> 15"
  shows "signed7 (word_of_int (step_code positive v)) = (if positive then v else - v)"
proof -
  have "list_all (\<lambda>v. signed7 (word_of_int (step_code True v)) = v \<and> signed7 (word_of_int (step_code False v)) = - v)
      [0, 1, 2, 3, 4, 5, 6, 7, 8, 9, 10, 11, 12, 13, 14, 15]"
    by (simp add: step_code_def signed7_def)
  moreover have "v \<in> {0 .. 15}" using assms by simp
  then have "v \<in> set [0, 1, 2, 3, 4, 5, 6, 7, 8, 9, 10, 11, 12, 13, 14, 15]" by (simp add: simp_from_to)
  ultimately show ?thesis by (cases positive) (auto simp: list_all_iff)
qed

lemma push_word: "(word_of_int (push_bit n v) :: u32) = push_bit n (word_of_int v)"
  by (rule bit_word_eqI) (auto simp: bit_simps)

text \<open>A movement under way.\<close>

definition moving_ok :: "kms \<Rightarrow> bool" where
  "moving_ok s \<longleftrightarrow> 0 \<le> m_move_x s \<and> 0 \<le> m_move_y s \<and> m_move_dx s \<le> 15 \<and> m_move_dy s \<le> 15 \<and>
     (0 < m_move_x s \<longrightarrow> 0 < m_move_dx s) \<and> (0 < m_move_y s \<longrightarrow> 0 < m_move_dy s) \<and> 0 \<le> m_move_dx s \<and> 0 \<le> m_move_dy s \<and>
     kms_device_enabled (km_address s OR KM_ADDR_MOUSE) s"

definition signed_rest :: "kms \<Rightarrow> int \<times> int" where
  "signed_rest s = ((if m_move_left s then m_move_x s else - m_move_x s), (if m_move_up s then m_move_y s else - m_move_y s))"

lemma interrupt_keeps:
  "m_move_x (kms_interrupt s) = m_move_x s" "m_move_y (kms_interrupt s) = m_move_y s"
  "m_move_dx (kms_interrupt s) = m_move_dx s" "m_move_dy (kms_interrupt s) = m_move_dy s"
  "m_move_left (kms_interrupt s) = m_move_left s" "m_move_up (kms_interrupt s) = m_move_up s"
  "km_address (kms_interrupt s) = km_address s" "km_dev_msk (kms_interrupt s) = km_dev_msk s"
  "km_data (kms_interrupt s) = km_data s" "s_cyc (k_sys (kms_interrupt s)) = s_cyc (k_sys s)"
  by (simp_all add: kms_interrupt_def kms_irq_def set_interrupt_def Let_def)

lemma enabled_cong: "km_dev_msk s = km_dev_msk t \<Longrightarrow> kms_device_enabled d s = kms_device_enabled d t"
  by (simp add: kms_device_enabled_def)

lemma move_step:
  assumes "moving_ok s"
  defines "t \<equiv> kms_mouse_move_step s"
  shows "moving_ok t" "signed_rest s = (fst (movement (km_data t)) + fst (signed_rest t), snd (movement (km_data t)) + snd (signed_rest t))"
    "0 < m_move_x s \<or> 0 < m_move_y s \<Longrightarrow> nat (m_move_x t) + nat (m_move_y t) < nat (m_move_x s) + nat (m_move_y s)"
    "s_cyc (k_sys t) = s_cyc (k_sys s)"
proof -
  define x where "x = (if m_move_dx s < m_move_x s then m_move_dx s else m_move_x s)"
  define y where "y = (if m_move_dy s < m_move_y s then m_move_dy s else m_move_y s)"
  let ?s1 = "s\<lparr>m_move_x := m_move_x s - x, m_move_y := m_move_y s - y\<rparr>"
  let ?w = "push_bit 24 (km_address s OR KM_ADDR_MOUSE) OR (push_bit 1 (word_of_int (step_code (m_move_left s) x)) AND MOUSE_X) OR
    (push_bit 9 (word_of_int (step_code (m_move_up s) y)) AND MOUSE_Y) OR mouse_buttons ?s1"
  have en: "kms_device_enabled (km_address s OR KM_ADDR_MOUSE) ?s1"
    using assms(1) by (simp add: moving_ok_def kms_device_enabled_def)
  have t: "t = kms_interrupt (?s1\<lparr>km_data := ?w\<rparr>)"
    using en by (simp add: t_def kms_mouse_move_step_def Let_def x_def [symmetric] y_def [symmetric] step_code_def push_word)
  have r: "0 \<le> x" "x \<le> 15" "0 \<le> y" "y \<le> 15" "x \<le> m_move_x s" "y \<le> m_move_y s"
    "0 < m_move_x s \<longrightarrow> 0 < x" "0 < m_move_y s \<longrightarrow> 0 < y"
    using assms(1) by (auto simp: moving_ok_def x_def y_def)
  show "moving_ok t"
    using assms(1) r by (simp add: t moving_ok_def interrupt_keeps kms_device_enabled_def)
  have w: "km_data t = ?w" by (simp add: t interrupt_keeps)
  have m: "movement (km_data t) = ((if m_move_left s then x else - x), (if m_move_up s then y else - y))"
    unfolding w movement_def signed7_x signed7_y using step_code_signed [OF r(1,2)] step_code_signed [OF r(3,4)] by simp
  show "signed_rest s = (fst (movement (km_data t)) + fst (signed_rest t), snd (movement (km_data t)) + snd (signed_rest t))"
    unfolding m by (simp add: t signed_rest_def interrupt_keeps)
  show "nat (m_move_x t) + nat (m_move_y t) < nat (m_move_x s) + nat (m_move_y s)" if "0 < m_move_x s \<or> 0 < m_move_y s"
    using that r by (simp add: t interrupt_keeps) linarith
  show "s_cyc (k_sys t) = s_cyc (k_sys s)" by (simp add: t interrupt_keeps)
qed

section \<open>A movement is delivered\<close>

text \<open>
  The mouse events that follow the start of a movement: the environment (the guest, the other
  events) runs until the mouse event is the active one, and the handler is called; it goes on as long
  as the handler leaves the event armed. Result: the movements reported, in order.
\<close>

definition mouse_armed :: "kms \<Rightarrow> bool" where
  "mouse_armed s \<longleftrightarrow> deadline (s_cyc (k_sys s)) INTERRUPT_MOUSE \<noteq> None"

fun deliver :: "sysconf \<Rightarrow> (nat \<Rightarrow> kms \<Rightarrow> kms) \<Rightarrow> nat \<Rightarrow> kms \<Rightarrow> ((int \<times> int) list \<times> kms) option res" where
  "deliver E env 0 s = Inr None"
| "deliver E env (Suc n) s =
     (let s1 = env n s
      in bnd (Mouse_Handler E 0 s1) (\<lambda>t.
           let d = (if 0 < m_move_x s1 \<or> 0 < m_move_y s1 then [movement (km_data t)] else [])
           in if mouse_armed t then bnd (deliver E env n t) (\<lambda>r. Inr (map_option (\<lambda>(ds, u). (d @ ds, u)) r))
              else Inr (Some (d, t))))"

text \<open>The environment leaves the movement and the address of the mouse as they are.\<close>

definition mouse_same :: "kms \<Rightarrow> kms \<Rightarrow> bool" where
  "mouse_same s t \<longleftrightarrow> m_move_x t = m_move_x s \<and> m_move_y t = m_move_y s \<and> m_move_dx t = m_move_dx s \<and>
     m_move_dy t = m_move_dy s \<and> m_move_left t = m_move_left s \<and> m_move_up t = m_move_up s \<and>
     km_address t = km_address s \<and> km_dev_msk t = km_dev_msk s"

definition waits_for_mouse :: "(nat \<Rightarrow> kms \<Rightarrow> kms) \<Rightarrow> bool" where
  "waits_for_mouse env \<longleftrightarrow> (\<forall>n s. mouse_same s (env n s) \<and> cyc_ok (s_cyc (k_sys (env n s))) \<and>
     ActiveInterrupt (s_cyc (k_sys (env n s))) = INTERRUPT_MOUSE)"

lemma mouse_same_ok: "mouse_same s t \<Longrightarrow> moving_ok t = moving_ok s" "mouse_same s t \<Longrightarrow> signed_rest t = signed_rest s"
  by (simp_all add: mouse_same_def moving_ok_def signed_rest_def kms_device_enabled_def)

lemma rearmed:
  assumes "cyc_ok c" "nCyclesOver c = 0" "\<not> bRealtime E" "0 < sint (nCpuFreq E)"
  shows "\<exists>t. CycInt_AddRelativeInterruptUs E now 1000 0 INTERRUPT_MOUSE c = Inr t \<and> deadline t INTERRUPT_MOUSE \<noteq> None"
proof -
  let ?p = "word_of_int 1000 * scast (nCpuFreq E) :: i64"
  have "0 \<le> sint ?p" using period_product [of 1000 "nCpuFreq E"] assms(4) by simp
  then show ?thesis
    using AddCycles_arms [OF assms(1), of INTERRUPT_MOUSE ?p] assms(2,3)
    by (auto simp: CycInt_AddRelativeInterruptUs_def)
qed

lemma handler_step:
  assumes "moving_ok s" "cyc_ok (s_cyc (k_sys s))" "ActiveInterrupt (s_cyc (k_sys s)) = INTERRUPT_MOUSE"
    "\<not> bRealtime E" "0 < sint (nCpuFreq E)"
  shows "\<exists>t. Mouse_Handler E now s = Inr t \<and> mouse_armed t = (0 < m_move_x s \<or> 0 < m_move_y s) \<and> moving_ok t \<and>
    (if 0 < m_move_x s \<or> 0 < m_move_y s
     then signed_rest s = (fst (movement (km_data t)) + fst (signed_rest t), snd (movement (km_data t)) + snd (signed_rest t)) \<and>
       nat (m_move_x t) + nat (m_move_y t) < nat (m_move_x s) + nat (m_move_y s)
     else signed_rest t = signed_rest s)"
proof -
  obtain c where c: "CycInt_AcknowledgeInterrupt (s_cyc (k_sys s)) = Inr c" "cyc_ok c" "nCyclesOver c = 0"
    "deadline c INTERRUPT_MOUSE = None"
    using Acknowledge_disarms [OF assms(2)] assms(3) by auto
  let ?s1 = "s\<lparr>k_sys := (k_sys s)\<lparr>s_cyc := c\<rparr>\<rparr>"
  have ok: "moving_ok ?s1" using assms(1) by (simp add: moving_ok_def kms_device_enabled_def)
  show ?thesis
  proof (cases "0 < m_move_x s \<or> 0 < m_move_y s")
    case True
    let ?t = "kms_mouse_move_step ?s1"
    note m = move_step [OF ok]
    obtain d where d: "CycInt_AddRelativeInterruptUs E now 1000 0 INTERRUPT_MOUSE c = Inr d" "deadline d INTERRUPT_MOUSE \<noteq> None"
      using rearmed [OF c(2,3) assms(4,5)] by blast
    let ?u = "?t\<lparr>k_sys := (k_sys ?t)\<lparr>s_cyc := d\<rparr>\<rparr>"
    have "Mouse_Handler E now s = Inr ?u" using True c(1) d(1) m(4) by (simp add: Mouse_Handler_def Let_def)
    moreover have "moving_ok ?u" "signed_rest ?u = signed_rest ?t"
      using m(1) by (simp_all add: moving_ok_def signed_rest_def kms_device_enabled_def)
    moreover have "signed_rest s = signed_rest ?s1" by (simp add: signed_rest_def)
    ultimately show ?thesis using True d(2) m(2,3) by (intro exI [of _ ?u]) (simp add: mouse_armed_def)
  next
    case False
    then show ?thesis using c ok
      by (intro exI [of _ ?s1]) (simp add: Mouse_Handler_def Let_def mouse_armed_def signed_rest_def)
  qed
qed

lemma deliver_all:
  assumes "waits_for_mouse env" "\<not> bRealtime E" "0 < sint (nCpuFreq E)"
  shows "moving_ok s \<Longrightarrow> nat (m_move_x s) + nat (m_move_y s) < n \<Longrightarrow>
    \<exists>ds u. deliver E env n s = Inr (Some (ds, u)) \<and> m_move_x u = 0 \<and> m_move_y u = 0 \<and>
      sum_list (map fst ds) = fst (signed_rest s) \<and> sum_list (map snd ds) = snd (signed_rest s)"
proof (induction n arbitrary: s)
  case (Suc n)
  define s1 where "s1 = env n s"
  have e: "mouse_same s s1" "cyc_ok (s_cyc (k_sys s1))" "ActiveInterrupt (s_cyc (k_sys s1)) = INTERRUPT_MOUSE"
    using assms(1) by (simp_all add: waits_for_mouse_def s1_def)
  have ok: "moving_ok s1" using Suc.prems(1) mouse_same_ok [OF e(1)] by simp
  have x: "m_move_x s1 = m_move_x s" "m_move_y s1 = m_move_y s" using e(1) by (simp_all add: mouse_same_def)
  have nn: "0 \<le> m_move_x s" "0 \<le> m_move_y s" using Suc.prems(1) by (simp_all add: moving_ok_def)
  obtain t where t: "Mouse_Handler E 0 s1 = Inr t" "mouse_armed t = (0 < m_move_x s \<or> 0 < m_move_y s)" "moving_ok t"
    "if 0 < m_move_x s \<or> 0 < m_move_y s
     then signed_rest s = (fst (movement (km_data t)) + fst (signed_rest t), snd (movement (km_data t)) + snd (signed_rest t)) \<and>
       nat (m_move_x t) + nat (m_move_y t) < nat (m_move_x s) + nat (m_move_y s)
     else signed_rest t = signed_rest s"
    using handler_step [OF ok e(2,3) assms(2,3)] x mouse_same_ok(2) [OF e(1)] by metis
  show ?case
  proof (cases "0 < m_move_x s \<or> 0 < m_move_y s")
    case True
    then have r: "signed_rest s = (fst (movement (km_data t)) + fst (signed_rest t), snd (movement (km_data t)) + snd (signed_rest t))"
      "nat (m_move_x t) + nat (m_move_y t) < n"
      using t(4) Suc.prems(2) by auto
    obtain ds u where "deliver E env n t = Inr (Some (ds, u))" "m_move_x u = 0" "m_move_y u = 0"
      "sum_list (map fst ds) = fst (signed_rest t)" "sum_list (map snd ds) = snd (signed_rest t)"
      using Suc.IH [OF t(3) r(2)] by blast
    then show ?thesis using True t(1,2) r(1) by (auto simp: s1_def [symmetric] x Let_def)
  next
    case False
    then have "m_move_x s = 0" "m_move_y s = 0" using nn by auto
    moreover have "m_move_x t = 0" "m_move_y t = 0"
      using t(3,4) False calculation by (auto simp: signed_rest_def split: if_splits)
    ultimately show ?thesis using False t(1,2) by (simp add: s1_def [symmetric] x Let_def signed_rest_def)
  qed
qed simp

lemma step_size:
  fixes x :: int
  assumes "0 \<le> x"
  defines "d \<equiv> x div (if x div 8 = 0 then 1 else x div 8)"
  shows "0 \<le> d" "d \<le> 15" "0 < x \<Longrightarrow> 0 < d"
proof -
  define k where "k = x div 8"
  have k: "0 \<le> k" "8 * k \<le> x" "x < 8 * k + 8" using assms(1) by (auto simp: k_def)
  have "0 \<le> d \<and> d \<le> 15 \<and> (0 < x \<longrightarrow> 0 < d)"
  proof (cases "k = 0")
    case True
    then show ?thesis using k assms(1) by (simp add: d_def k_def [symmetric])
  next
    case False
    then have kp: "0 < k" "1 \<le> k" using k by auto
    define q where "q = x div k"
    have xq: "k * q \<le> x" "x < k * q + k"
      using kp(1) mult_div_mod_eq [of k x] pos_mod_bound [of k x] pos_mod_sign [of k x] unfolding q_def by linarith+
    have "q < 16"
    proof (rule ccontr)
      assume "\<not> q < 16"
      then have "k * 16 \<le> k * q" using kp by (intro mult_left_mono) auto
      then show False using xq k kp by linarith
    qed
    moreover have "8 \<le> q"
    proof (rule ccontr)
      assume "\<not> 8 \<le> q"
      then have "k * q \<le> k * 7" using kp by (intro mult_left_mono) auto
      then show False using xq k kp by linarith
    qed
    ultimately show ?thesis using False by (simp add: d_def k_def [symmetric] q_def)
  qed
  then show "0 \<le> d" "d \<le> 15" "0 < x \<Longrightarrow> 0 < d" by auto
qed

section \<open>The event register\<close>

text \<open>
  What the event register promises: it holds the last event, whether that has not been read yet, and
  whether an event was lost since the overrun was last cleared. Its steps on the chip: a key event, the
  answer to a poll, the read of the data register, and a write of the control register that clears.
\<close>

datatype km_action = Key u8 u8 u32 | Poll_Answer | Read_Event | Clear_Overrun u8

fun km_step :: "km_action \<Rightarrow> kms \<Rightarrow> kms" where
  "km_step (Key modkeys keycode up) s = key_event modkeys keycode up s"
| "km_step Poll_Answer s = kms_response s"
| "km_step Read_Event s = snd (KMS_KM_Data_Read s)"
| "km_step (Clear_Overrun val) s = KMS_Ctrl_KM_Write val s"

fun event_word :: "u32 \<Rightarrow> km_action \<Rightarrow> u32" where
  "event_word a (Key modkeys keycode up) =
     (push_bit 24 a OR DEVICE_MASTER) OR (push_bit 8 (ucast modkeys) OR ucast keycode OR KBD_KEY_VALID OR up)"
| "event_word a _ = (push_bit 24 a OR USER_POLL) OR (NO_RESPONSE_ERR OR DEVICE_INVALID)"

record event_reg =
  last_event :: u32
  unread :: bool
  lost :: bool

fun reg_step :: "u32 \<Rightarrow> km_action \<Rightarrow> event_reg \<Rightarrow> event_reg" where
  "reg_step a Read_Event r = r\<lparr>unread := False\<rparr>"
| "reg_step a (Clear_Overrun val) r = (if val AND KBD_OVERRUN \<noteq> 0 then r\<lparr>unread := False, lost := False\<rparr> else r)"
| "reg_step a e r = \<lparr>last_event = event_word a e, unread = True, lost = lost r \<or> unread r\<rparr>"

definition event_abs :: "kms \<Rightarrow> event_reg" where
  "event_abs s = \<lparr>last_event = km_data s, unread = bit (st_km s) 6, lost = bit (st_km s) 5\<rparr>"

text \<open>The interrupt bit of the status and the interrupt line follow the received bit.\<close>

definition km_ok :: "kms \<Rightarrow> bool" where
  "km_ok s \<longleftrightarrow> bit (st_km s) 7 = bit (st_km s) 6 \<and> bit (intStat (k_sys s)) 3 = bit (st_km s) 6 \<and>
     kms_device_enabled (km_address s) s"

lemma bit_received: "bit KBD_RECEIVED n \<longleftrightarrow> n = 6"
  using bit_push_bit_iff [of 6 "1 :: u8" n] by (auto simp: bit_1_iff)

lemma bit_overrun: "bit KBD_OVERRUN n \<longleftrightarrow> n = 5"
  using bit_push_bit_iff [of 5 "1 :: u8" n] by (auto simp: bit_1_iff)

lemma bit_kbd_int: "bit KBD_INT n \<longleftrightarrow> n = 7"
  using bit_push_bit_iff [of 7 "1 :: u8" n] by (auto simp: bit_1_iff)

lemma bit_nmi: "bit NMI_RECEIVED n \<longleftrightarrow> n = 4"
  using bit_push_bit_iff [of 4 "1 :: u8" n] by (auto simp: bit_1_iff)

lemma line_keymouse: "bit INT_KEYMOUSE n \<longleftrightarrow> n = 3"
  using bit_push_bit_iff [of 3 "1 :: u32" n] by (auto simp: bit_1_iff)

lemma line_monitor: "bit INT_MONITOR n \<longleftrightarrow> n = 4"
  using bit_push_bit_iff [of 4 "1 :: u32" n] by (auto simp: bit_1_iff)

lemma line_nmi: "bit INT_NMI n \<longleftrightarrow> n = 31"
  using bit_push_bit_iff [of 31 "1 :: u32" n] by (auto simp: bit_1_iff)

lemmas km_masks = bit_received bit_overrun bit_kbd_int bit_nmi line_keymouse line_monitor line_nmi

lemma and_single: "(w :: u8) AND KBD_RECEIVED \<noteq> 0 \<longleftrightarrow> bit w 6" "(w :: u8) AND KBD_OVERRUN \<noteq> 0 \<longleftrightarrow> bit w 5"
  unfolding bit_eq_iff [of "w AND KBD_RECEIVED" 0] bit_eq_iff [of "w AND KBD_OVERRUN" 0] bit_and_iff bit_received bit_overrun
  by auto

lemma bit_received_int: "bit (0xC0 :: u8) n \<longleftrightarrow> n = 6 \<or> n = 7"
proof -
  have e: "(0xC0 :: u8) = KBD_RECEIVED OR KBD_INT" by simp
  show ?thesis unfolding e bit_or_iff km_masks by (rule refl)
qed

lemma interrupt_sets:
  "bit (st_km (kms_interrupt s)) n = (bit (st_km s) n \<or> n = 6 \<or> n = 7 \<or> n = 5 \<and> bit (st_km s) 6)"
  "bit (intStat (k_sys (kms_interrupt s))) 3"
proof -
  have e: "st_km (kms_interrupt s) = (if bit (st_km s) 6 then st_km s OR KBD_OVERRUN else st_km s) OR 0xC0"
    "intStat (k_sys (kms_interrupt s)) = intStat (k_sys s) OR INT_KEYMOUSE"
    by (simp_all add: kms_interrupt_def kms_irq_def set_interrupt_def Let_def and_single)
  show "bit (st_km (kms_interrupt s)) n = (bit (st_km s) n \<or> n = 6 \<or> n = 7 \<or> n = 5 \<and> bit (st_km s) 6)"
    unfolding e by (cases "bit (st_km s) 6") (simp_all only: if_True if_False bit_or_iff km_masks bit_received_int, auto)
  show "bit (intStat (k_sys (kms_interrupt s))) 3" unfolding e bit_or_iff km_masks by simp
qed

lemma enabled_keep: "kms_device_enabled d (s\<lparr>km_data := w\<rparr>) = kms_device_enabled d s"
  "kms_device_enabled d (s\<lparr>st_km := v\<rparr>) = kms_device_enabled d s"
  "kms_device_enabled d (kms_irq i b s) = kms_device_enabled d s"
  "kms_device_enabled d (kms_interrupt s) = kms_device_enabled d s"
  by (rule enabled_cong, simp add: interrupt_keeps kms_irq_def)+

lemma bit_overrun_all: "bit (0xE0 :: u8) n \<longleftrightarrow> n = 5 \<or> n = 6 \<or> n = 7"
proof -
  have e: "(0xE0 :: u8) = KBD_OVERRUN OR 0xC0" by simp
  show ?thesis unfolding e bit_or_iff km_masks bit_received_int by (rule refl)
qed

lemma read_clears:
  fixes s
  defines "t \<equiv> snd (KMS_KM_Data_Read s)"
  shows "bit (st_km t) 5 = bit (st_km s) 5" "\<not> bit (st_km t) 6" "\<not> bit (st_km t) 7" "\<not> bit (intStat (k_sys t)) 3"
    "km_data t = km_data s" "km_address t = km_address s" "kms_device_enabled d t = kms_device_enabled d s"
proof -
  have e: "st_km t = st_km s AND NOT 0xC0" "intStat (k_sys t) = intStat (k_sys s) AND NOT INT_KEYMOUSE"
    by (simp_all add: t_def KMS_KM_Data_Read_def kms_irq_def set_interrupt_def)
  show "bit (st_km t) 5 = bit (st_km s) 5" "\<not> bit (st_km t) 6" "\<not> bit (st_km t) 7" "\<not> bit (intStat (k_sys t)) 3"
    unfolding e bit_and_iff bit_not_iff bit_received_int km_masks by simp_all
  show "km_data t = km_data s" "km_address t = km_address s"
    by (simp_all add: t_def KMS_KM_Data_Read_def kms_irq_def)
  show "kms_device_enabled d t = kms_device_enabled d s"
    by (rule enabled_cong) (simp add: t_def KMS_KM_Data_Read_def kms_irq_def)
qed

lemma clear_clears:
  fixes v s
  defines "t \<equiv> KMS_Ctrl_KM_Write v s"
  shows "bit (st_km t) 5 = (bit (st_km s) 5 \<and> v AND KBD_OVERRUN = 0)" "bit (st_km t) 6 = (bit (st_km s) 6 \<and> v AND KBD_OVERRUN = 0)"
    "bit (st_km t) 7 = (bit (st_km s) 7 \<and> v AND KBD_OVERRUN = 0)"
    "bit (intStat (k_sys t)) 3 = (bit (intStat (k_sys s)) 3 \<and> v AND KBD_OVERRUN = 0)"
    "km_data t = km_data s" "km_address t = km_address s" "kms_device_enabled d t = kms_device_enabled d s"
proof -
  define m where "m = (if v AND KBD_OVERRUN \<noteq> 0 then NOT 0xE0 else NOT (0 :: u8))"
  define m' where "m' = (if v AND NMI_RECEIVED \<noteq> 0 then NOT NMI_RECEIVED else NOT (0 :: u8))"
  define m'' where "m'' = (if v AND KMS_OVERRUN \<noteq> 0 then NOT 0x0E else NOT (0 :: u8))"
  define i where "i = (if v AND KBD_OVERRUN \<noteq> 0 then NOT INT_KEYMOUSE else NOT (0 :: u32))"
  define i' where "i' = (if v AND NMI_RECEIVED \<noteq> 0 then NOT INT_NMI else NOT (0 :: u32))"
  define i'' where "i'' = (if v AND KMS_OVERRUN \<noteq> 0 then NOT INT_MONITOR else NOT (0 :: u32))"
  note d = m_def m'_def m''_def i_def i'_def i''_def
  have e: "st_km t = st_km s AND m AND m' AND m''" "intStat (k_sys t) = intStat (k_sys s) AND i AND i' AND i''"
    by (simp_all add: t_def KMS_Ctrl_KM_Write_def Let_def kms_irq_def set_interrupt_def d ac_simps)
  have low: "bit (0x0E :: u8) 5 = False" "bit (0x0E :: u8) 6 = False" "bit (0x0E :: u8) 7 = False" by simp_all
  have b: "bit m n = (n < 8 \<and> (v AND KBD_OVERRUN \<noteq> 0 \<longrightarrow> n \<noteq> 5 \<and> n \<noteq> 6 \<and> n \<noteq> 7))"
    "bit m' 5" "bit m' 6" "bit m' 7" "bit m'' 5" "bit m'' 6" "bit m'' 7"
    "bit i 3 = (v AND KBD_OVERRUN = 0)" "bit i' 3" "bit i'' 3" for n
    unfolding d by (simp_all only: if_distrib [of "\<lambda>w. bit w n" for n] bit_not_iff bit_overrun_all km_masks low split: if_split) simp_all
  show "bit (st_km t) 5 = (bit (st_km s) 5 \<and> v AND KBD_OVERRUN = 0)" "bit (st_km t) 6 = (bit (st_km s) 6 \<and> v AND KBD_OVERRUN = 0)"
    "bit (st_km t) 7 = (bit (st_km s) 7 \<and> v AND KBD_OVERRUN = 0)"
    "bit (intStat (k_sys t)) 3 = (bit (intStat (k_sys s)) 3 \<and> v AND KBD_OVERRUN = 0)"
    unfolding e bit_and_iff b by (simp_all add: b)
  show "km_data t = km_data s" "km_address t = km_address s"
    by (simp_all add: t_def KMS_Ctrl_KM_Write_def Let_def kms_irq_def)
  show "kms_device_enabled d t = kms_device_enabled d s"
    by (rule enabled_cong) (simp add: t_def KMS_Ctrl_KM_Write_def Let_def kms_irq_def)
qed

lemma km_step_ok:
  assumes "km_ok s"
  shows "km_ok (km_step a s) \<and> km_address (km_step a s) = km_address s \<and>
    event_abs (km_step a s) = reg_step (km_address s) a (event_abs s)"
proof (cases a)
  case (Key m k u)
  then show ?thesis using assms
    by (auto simp: km_ok_def event_abs_def key_event_def interrupt_sets interrupt_keeps enabled_keep)
next
  case Poll_Answer
  then show ?thesis using assms
    by (auto simp: km_ok_def event_abs_def kms_response_def interrupt_sets interrupt_keeps enabled_keep)
next
  case Read_Event
  then show ?thesis using assms by (simp add: km_ok_def event_abs_def read_clears)
next
  case (Clear_Overrun v)
  then show ?thesis using assms by (auto simp: km_ok_def event_abs_def clear_clears)
qed

section \<open>Properties of the keyboard and the mouse\<close>

text \<open>
  C31. A mouse movement is delivered whole. When the mouse is enabled and timers count cycles (not real-time
  mode), a movement of any size is reported in steps: the handler of the mouse event is armed again until nothing
  is left, after at most one event more than the movement has units, and the signed seven-bit fields of the reported
  words add up to exactly the movement. In between anything may run that starts no other movement, leaves the
  address and the enabled devices of the keyboard controller alone and lets the mouse event come up.
\<close>
theorem mouse_movement_delivered:
  assumes "0 \<le> x" "0 \<le> y" "kms_device_enabled (km_address s OR KM_ADDR_MOUSE) s"
    "cyc_ok (s_cyc (k_sys s))" "waits_for_mouse env" "\<not> bRealtime E" "0 < sint (nCpuFreq E)"
  shows "\<exists>s0 ds u. kms_mouse_move x left y up s = Inr s0 \<and>
    deliver E env (nat x + nat y + 1) s0 = Inr (Some (ds, u)) \<and> m_move_x u = 0 \<and> m_move_y u = 0 \<and>
    sum_list (map fst ds) = (if left then x else - x) \<and> sum_list (map snd ds) = (if up then y else - y)"
proof -
  let ?dx = "x div (if x div 8 = 0 then 1 else x div 8)" and ?dy = "y div (if y div 8 = 0 then 1 else y div 8)"
  let ?s1 = "s\<lparr>m_move_left := left, m_move_up := up, m_move_x := x, m_move_dx := ?dx, m_move_y := y, m_move_dy := ?dy\<rparr>"
  obtain c where c: "CycInt_AddRelativeInterruptCycles 10 INTERRUPT_MOUSE (s_cyc (k_sys s)) = Inr c"
    by (auto simp: CycInt_AddRelativeInterruptCycles_def Let_def)
  let ?s0 = "?s1\<lparr>k_sys := (k_sys ?s1)\<lparr>s_cyc := c\<rparr>\<rparr>"
  have "kms_mouse_move x left y up s = Inr ?s0" using assms(1,2) c by (simp add: kms_mouse_move_def Let_def)
  moreover have "moving_ok ?s0"
    using assms(1-3) step_size [OF assms(1)] step_size [OF assms(2)] by (simp add: moving_ok_def kms_device_enabled_def)
  then have "\<exists>ds u. deliver E env (nat x + nat y + 1) ?s0 = Inr (Some (ds, u)) \<and> m_move_x u = 0 \<and> m_move_y u = 0 \<and>
      sum_list (map fst ds) = fst (signed_rest ?s0) \<and> sum_list (map snd ds) = snd (signed_rest ?s0)"
    by (rule deliver_all [OF assms(5-7)]) simp
  ultimately show ?thesis by (auto simp: signed_rest_def)
qed

text \<open>
  C32. The event register refines its contract. While the keyboard is enabled, and starting with the interrupt bit and
  line in agreement with the received bit, over any sequence of key events, poll answers, reads
  and clearing writes the data register holds the last event, the received bit says whether it is
  unread, the overrun bit is set exactly when an event replaced an unread one since the last clearing
  write, and the interrupt bit and the interrupt line are raised exactly while an event is unread.
\<close>
theorem keyboard_overrun_tracked:
  assumes "km_ok s"
  shows "km_ok (fold km_step as s) \<and> event_abs (fold km_step as s) = fold (reg_step (km_address s)) as (event_abs s)"
  using assms
proof (induction as arbitrary: s)
  case (Cons a as)
  then show ?case using km_step_ok [OF Cons.prems, of a] Cons.IH [of "km_step a s"] by simp
qed simp

section \<open>Witnesses\<close>

text \<open>The command that enables devices names seven addresses; the one in bits 4 to 7 is never compared.\<close>

lemma seventh_address_ignored: "\<not> kms_device_enabled d (s\<lparr>km_dev_msk := 0xFFFFFF3F\<rparr>)"
  by (auto simp: kms_device_enabled_def Let_def)

definition cyc_mouse :: cycint where
  "cyc_mouse = (case CycInt_AddRelativeInterruptCycles 10 INTERRUPT_MOUSE cyc_boot of Inr t \<Rightarrow> t | Inl _ \<Rightarrow> cyc_boot)"

lemma cyc_mouse_active: "cyc_ok cyc_mouse" "ActiveInterrupt cyc_mouse = INTERRUPT_MOUSE"
proof -
  obtain t where t: "CycInt_AddRelativeInterruptCycles 10 INTERRUPT_MOUSE cyc_boot = Inr t" "cyc_ok t" "earliest t"
    "deadline t = (deadline cyc_boot)(INTERRUPT_MOUSE \<mapsto> 10)" "0 < ActiveInterrupt t"
    using AddCycles_arms [OF cyc_boot_ok(1), of INTERRUPT_MOUSE 10] cyc_boot_ok(2) by auto
  have d: "deadline cyc_boot = (\<lambda>_. None)"
    by (auto simp: deadline_def cyc_boot_def CycInt_Reset_def Let_def fun_eq_iff)
  show "cyc_ok cyc_mouse" using t(1,2) by (simp add: cyc_mouse_def)
  show "ActiveInterrupt cyc_mouse = INTERRUPT_MOUSE"
    using t(1,3,4,5) by (auto simp: cyc_mouse_def earliest_def d split: if_splits)
qed

definition kms_state :: kms where
  "kms_state =
     \<lparr>st_snd_dma = 0, st_km = 0, st_transmit = 0, st_cmd = 0, kms_data = 0, km_data = 0, km_address = 2,
      km_dev_msk = 0x23FFFFFF, m_button_right = False, m_button_left = False, m_move_left = False, m_move_up = False,
      m_move_x = 0, m_move_y = 0, m_move_dx = 0, m_move_dy = 0, k_sys = sys_state, k_calls = []\<rparr>"

definition until_mouse :: "nat \<Rightarrow> kms \<Rightarrow> kms" where
  "until_mouse n s = s\<lparr>k_sys := (k_sys s)\<lparr>s_cyc := cyc_mouse\<rparr>\<rparr>"

lemma mouse_movement_delivered_witness:
  "\<exists>s0 ds u. kms_mouse_move 20 False 3 True kms_state = Inr s0 \<and>
    deliver \<lparr>bRealtime = False, nCpuFreq = 25\<rparr> until_mouse 24 s0 = Inr (Some (ds, u)) \<and>
    sum_list (map fst ds) = -20 \<and> sum_list (map snd ds) = 3"
proof -
  have e: "kms_device_enabled (km_address kms_state OR KM_ADDR_MOUSE) kms_state"
    by (simp add: kms_device_enabled_def kms_state_def Let_def)
  have w: "waits_for_mouse until_mouse"
    using cyc_mouse_active by (simp add: waits_for_mouse_def until_mouse_def mouse_same_def)
  have c: "cyc_ok (s_cyc (k_sys kms_state))" using cyc_vbl_busy by (simp add: kms_state_def sys_state_def cyc_busy_def)
  show ?thesis
    using mouse_movement_delivered [OF _ _ e c w, of 20 3 "\<lparr>bRealtime = False, nCpuFreq = 25\<rparr>" False True] by auto
qed

lemma keyboard_overrun_tracked_witness:
  "km_ok (fold km_step [Key 0 0x25 0, Key 0 0x26 0, Read_Event] kms_state) \<and>
    lost (event_abs (fold km_step [Key 0 0x25 0, Key 0 0x26 0, Read_Event] kms_state)) \<and>
    last_event (event_abs (fold km_step [Key 0 0x25 0, Key 0 0x26 0, Read_Event] kms_state)) = 0x12008026"
proof -
  have "km_ok kms_state" by (simp add: km_ok_def kms_state_def sys_state_def kms_device_enabled_def Let_def)
  from keyboard_overrun_tracked [OF this, of "[Key 0 0x25 0, Key 0 0x26 0, Read_Event]"]
  show ?thesis by (simp add: event_abs_def kms_state_def)
qed

end
