(* ===== verification/Scsi_Disk.thy ===== *)
theory Scsi_Disk
  imports Nd_Prelude
begin

text \<open>
  The SCSI targets (src/scsi.c): the disks with their sense data, the sector buffer that holds one
  block or reply while the bus is in a data phase, and the commands. The files of the host that hold
  the images are a store of byte lists; \<open>File_Read\<close> and \<open>File_Write\<close> are those of src/file.c, with the
  positions and partial reads of the standard library (the names of the three standard streams are not used for images). Images stay as long as they are open. The
  block trace that an environment variable turns on is left out, its counter is kept.
\<close>

section \<open>Host files\<close>

text \<open>
  The regular files of the host with their permissions. An open file is its name and whether it was
  opened for update.
\<close>

record hostfs =
  fs_bytes :: "string \<Rightarrow> u8 list option"
  fs_readable :: "string \<Rightarrow> bool"
  fs_writable :: "string \<Rightarrow> bool"

record FILE =
  f_name :: string
  f_update :: bool

definition File_Exists :: "string \<Rightarrow> hostfs \<Rightarrow> bool" where
  "File_Exists name h \<longleftrightarrow> fs_bytes h name \<noteq> None \<and> (fs_readable h name \<or> fs_writable h name)"

definition File_Open :: "string \<Rightarrow> bool \<Rightarrow> hostfs \<Rightarrow> FILE option" where
  "File_Open path update h =
     (if path = '''' then None
      else if fs_bytes h path \<noteq> None \<and> fs_readable h path \<and> (update \<longrightarrow> fs_writable h path)
      then Some \<lparr>f_name = path, f_update = update\<rparr> else None)"

definition file_content :: "string \<Rightarrow> hostfs \<Rightarrow> u8 list" where
  "file_content name h = (case fs_bytes h name of None \<Rightarrow> [] | Some bs \<Rightarrow> bs)"

definition File_Length :: "string \<Rightarrow> hostfs \<Rightarrow> u64" where
  "File_Length name h =
     (if fs_bytes h name \<noteq> None \<and> fs_readable h name then of_nat (length (file_content name h)) else - 1)"

definition File_Read :: "u8 list \<Rightarrow> nat \<Rightarrow> nat \<Rightarrow> FILE \<Rightarrow> hostfs \<Rightarrow> u8 list" where
  "File_Read data n offset fp h =
     (let got = take n (drop offset (file_content (f_name fp) h)) in got @ drop (length got) data)"

definition File_Write :: "u8 list \<Rightarrow> nat \<Rightarrow> FILE \<Rightarrow> hostfs \<Rightarrow> hostfs" where
  "File_Write data offset fp h =
     (if f_update fp then
        let old = file_content (f_name fp) h;
            pre = take offset old @ replicate (offset - length old) 0
        in h\<lparr>fs_bytes := (fs_bytes h)(f_name fp \<mapsto> pre @ data @ drop (offset + length data) old)\<rparr>
      else h)"

section \<open>State\<close>

datatype SCSI_DEVTYPE = DEVTYPE_NONE | DEVTYPE_HARDDISK | DEVTYPE_CD | DEVTYPE_FLOPPY

datatype WRITEPROTECTION = WRITEPROT_OFF | WRITEPROT_ON | WRITEPROT_AUTO

record SCSIDISK =
  szImageName :: string
  nDeviceType :: SCSI_DEVTYPE
  bDiskInserted :: bool
  bWriteProtected :: bool

text \<open>The shadow of a disk: the number of its entries and the entries, one block each.\<close>

record SCSIdisk =
  devtype :: SCSI_DEVTYPE
  dsk :: "FILE option"
  d_size :: u64
  readonly :: bool
  d_lun :: u8
  d_status :: u8
  d_message :: u8
  sense_key :: u8
  sense_code :: u8
  sense_valid :: bool
  sense_info :: u32
  lba :: u32
  blockcounter :: u32
  lastlba :: u32
  shadow :: "(nat \<times> (nat \<Rightarrow> u8 list option)) option"

record scsi =
  disks :: "nat \<Rightarrow> SCSIdisk"
  bus_target :: u8
  bus_phase :: u8
  buf_data :: "u8 list"
  buf_limit :: int
  buf_size :: int
  buf_disk :: bool
  inquiry_bytes :: "u8 list"
  io_seq :: u64
  scsi_targets :: "nat \<Rightarrow> SCSIDISK"
  nWriteProtection :: WRITEPROTECTION
  host :: hostfs

abbreviation "ESP_MAX_DEVS \<equiv> (7 :: nat)"
abbreviation "BLOCKSIZE \<equiv> (512 :: nat)"
abbreviation "PHASE_DO \<equiv> (0 :: u8)"
abbreviation "PHASE_DI \<equiv> (1 :: u8)"
abbreviation "PHASE_CD \<equiv> (2 :: u8)"
abbreviation "PHASE_ST \<equiv> (3 :: u8)"
abbreviation "PHASE_MO \<equiv> (6 :: u8)"
abbreviation "PHASE_MI \<equiv> (7 :: u8)"
abbreviation "STAT_GOOD \<equiv> (0 :: u8)"
abbreviation "STAT_CHECK_COND \<equiv> (2 :: u8)"
abbreviation "MSG_COMPLETE \<equiv> (0 :: u8)"
abbreviation "MSG_IDENTIFY_MASK \<equiv> (0x80 :: u8)"
abbreviation "MSG_LUNMASK \<equiv> (7 :: u8)"
abbreviation "SK_NOSENSE \<equiv> (0 :: u8)"
abbreviation "SK_NOTREADY \<equiv> (2 :: u8)"
abbreviation "SK_HARDWARE \<equiv> (4 :: u8)"
abbreviation "SK_ILLEGAL_REQ \<equiv> (5 :: u8)"
abbreviation "SK_DATAPROTECT \<equiv> (7 :: u8)"
abbreviation "SC_NO_ERROR \<equiv> (0 :: u8)"
abbreviation "SC_WRITE_FAULT \<equiv> (3 :: u8)"
abbreviation "SC_NOT_READY \<equiv> (4 :: u8)"
abbreviation "SC_INVALID_CMD \<equiv> (0x20 :: u8)"
abbreviation "SC_INVALID_LBA \<equiv> (0x21 :: u8)"
abbreviation "SC_INVALID_CDB \<equiv> (0x24 :: u8)"
abbreviation "SC_INVALID_LUN \<equiv> (0x25 :: u8)"
abbreviation "SC_WRITE_PROTECT \<equiv> (0x27 :: u8)"

text \<open>The disk selected on the bus, and its update; the array has seven entries.\<close>

definition cur :: "scsi \<Rightarrow> SCSIdisk res" where
  "cur s = arr_get ESP_MAX_DEVS (disks s) (unat (bus_target s))"

definition set_cur :: "SCSIdisk \<Rightarrow> scsi \<Rightarrow> scsi" where
  "set_cur d s = s\<lparr>disks := (disks s)(unat (bus_target s) := d)\<rparr>"

definition set_phase :: "u8 \<Rightarrow> scsi \<Rightarrow> scsi" where
  "set_phase p s = s\<lparr>bus_phase := p\<rparr>"

text \<open>A copy to the start of the buffer, as \<^verbatim>\<open>memcpy\<close> does it.\<close>

definition buf_copy :: "u8 list \<Rightarrow> scsi \<Rightarrow> scsi" where
  "buf_copy bs s = s\<lparr>buf_data := bs @ drop (length bs) (buf_data s)\<rparr>"

section \<open>Insertion and ejection\<close>

definition SCSI_Eject :: "nat \<Rightarrow> scsi \<Rightarrow> scsi res" where
  "SCSI_Eject i s =
     bnd (arr_get ESP_MAX_DEVS (disks s) i) (\<lambda>d.
       Inr (s\<lparr>disks := (disks s)(i := d\<lparr>dsk := None, d_size := 0, readonly := False, shadow := None\<rparr>)\<rparr>))"

definition SCSI_EjectDisk :: "nat \<Rightarrow> scsi \<Rightarrow> scsi res" where
  "SCSI_EjectDisk i s =
     bnd (arr_get ESP_MAX_DEVS (scsi_targets s) i) (\<lambda>c.
       SCSI_Eject i (s\<lparr>scsi_targets := (scsi_targets s)(i := c\<lparr>bDiskInserted := False, szImageName := ''''\<rparr>)\<rparr>))"

definition insert_failed :: "SCSIdisk \<Rightarrow> SCSIdisk" where
  "insert_failed d =
     (let d1 = d\<lparr>dsk := None, d_size := 0, readonly := False\<rparr>
      in if devtype d1 = DEVTYPE_HARDDISK then d1\<lparr>devtype := DEVTYPE_NONE\<rparr> else d1)"

definition SCSI_Insert :: "nat \<Rightarrow> scsi \<Rightarrow> scsi res" where
  "SCSI_Insert i s =
     bnd (arr_get ESP_MAX_DEVS (disks s) i) (\<lambda>d0.
     bnd (arr_get ESP_MAX_DEVS (scsi_targets s) i) (\<lambda>c.
       let d = d0\<lparr>d_lun := 0, d_status := 0, d_message := 0, sense_code := 0, sense_key := 0, sense_info := 0,
               sense_valid := False, lba := 0, lastlba := 0, blockcounter := 0, shadow := None\<rparr>;
           name = szImageName c; h = host s;
           d2 = (if File_Exists name h \<and> bDiskInserted c then
                   if bWriteProtected c \<or> nDeviceType c = DEVTYPE_CD then
                     (case File_Open name False h of
                        None \<Rightarrow> insert_failed d
                      | Some f \<Rightarrow> d\<lparr>dsk := Some f, d_size := File_Length name h, readonly := True\<rparr>)
                   else
                     (case File_Open name True h of
                        None \<Rightarrow> (case File_Open name False h of
                           None \<Rightarrow> insert_failed d
                         | Some f \<Rightarrow> d\<lparr>dsk := Some f, d_size := File_Length name h, readonly := True\<rparr>)
                      | Some f \<Rightarrow> d\<lparr>dsk := Some f, d_size := File_Length name h, readonly := False\<rparr>)
                 else d\<lparr>d_size := 0, dsk := None, readonly := False\<rparr>)
       in Inr (s\<lparr>disks := (disks s)(i := d2)\<rparr>)))"

definition SCSI_Init :: "scsi \<Rightarrow> scsi res" where
  "SCSI_Init = each (\<lambda>i s.
     bnd (arr_get ESP_MAX_DEVS (disks s) i) (\<lambda>d.
       SCSI_Insert i (s\<lparr>disks := (disks s)(i := d\<lparr>devtype := nDeviceType (scsi_targets s i)\<rparr>)\<rparr>))) [0 ..< ESP_MAX_DEVS]"

definition SCSI_Uninit :: "scsi \<Rightarrow> scsi res" where
  "SCSI_Uninit = each (\<lambda>i s.
     bnd (arr_get ESP_MAX_DEVS (disks s) i) (\<lambda>d. if dsk d \<noteq> None then SCSI_Eject i s else Inr s)) [0 ..< ESP_MAX_DEVS]"

definition SCSI_Reset :: "scsi \<Rightarrow> scsi res" where
  "SCSI_Reset s = bnd (SCSI_Uninit s) SCSI_Init"

section \<open>Command blocks and times\<close>

definition COMMAND_ReadInt16 :: "(nat \<Rightarrow> u8) \<Rightarrow> nat \<Rightarrow> u32" where
  "COMMAND_ReadInt16 a i = push_bit 8 (ucast (a i)) OR ucast (a (i + 1))"

definition COMMAND_ReadInt24 :: "(nat \<Rightarrow> u8) \<Rightarrow> nat \<Rightarrow> u32" where
  "COMMAND_ReadInt24 a i = push_bit 16 (ucast (a i)) OR push_bit 8 (ucast (a (i + 1))) OR ucast (a (i + 2))"

definition COMMAND_ReadInt32 :: "(nat \<Rightarrow> u8) \<Rightarrow> nat \<Rightarrow> u32" where
  "COMMAND_ReadInt32 a i =
     push_bit 24 (ucast (a i)) OR push_bit 16 (ucast (a (i + 1))) OR push_bit 8 (ucast (a (i + 2))) OR ucast (a (i + 3))"

definition SCSI_GetCommandLength :: "u8 \<Rightarrow> int" where
  "SCSI_GetCommandLength opcode =
     (let group_code = drop_bit 5 (opcode AND 0xE0)
      in if group_code = 0 then 6 else if group_code = 1 then 10 else if group_code = 5 then 12 else 6)"

definition SCSI_GetTransferLength :: "u8 \<Rightarrow> (nat \<Rightarrow> u8) \<Rightarrow> int" where
  "SCSI_GetTransferLength opcode cdb =
     (if opcode < 0x20 then uint (cdb 4) else uint (COMMAND_ReadInt16 cdb 7))"

definition SCSI_GetOffset :: "u8 \<Rightarrow> (nat \<Rightarrow> u8) \<Rightarrow> u64" where
  "SCSI_GetOffset opcode cdb =
     (if opcode < 0x20 then ucast (COMMAND_ReadInt24 cdb 1 AND 0x1FFFFF) else ucast (COMMAND_ReadInt32 cdb 2))"

definition SCSI_GetCount :: "u8 \<Rightarrow> (nat \<Rightarrow> u8) \<Rightarrow> int" where
  "SCSI_GetCount opcode cdb =
     (if opcode < 0x20 then (if cdb 4 = 0 then 0x100 else uint (cdb 4)) else uint (COMMAND_ReadInt16 cdb 7))"

text \<open>
  Cylinders, heads and sectors of a disk: the first exact division, by falling numbers of heads and
  then of sectors, or the largest tracks.
\<close>

definition tracks :: "(u32 \<times> u32) list" where
  "tracks = [(h, s). h \<leftarrow> rev (map of_nat [1 ..< 17]), s \<leftarrow> rev (map of_nat [16 ..< 64])]"

definition SCSI_GuessGeometry :: "u32 \<Rightarrow> u32 \<times> u32 \<times> u32" where
  "SCSI_GuessGeometry blocks =
     (case List.find (\<lambda>(h, s). blocks mod (s * h) = 0) tracks of
        Some (h, s) \<Rightarrow> (blocks div (s * h), h, s)
      | None \<Rightarrow>
          let h = 16; s = 63; c = blocks div (s * h)
          in (if blocks mod (s * h) \<noteq> 0 then c + 1 else c, h, s))"

definition SCSI_Seek_Time :: "scsi \<Rightarrow> int res" where
  "SCSI_Seek_Time s =
     (if buf_disk s then
        bnd (cur s) (\<lambda>d.
          let seek = (case devtype d of DEVTYPE_HARDDISK \<Rightarrow> 20000 | DEVTYPE_CD \<Rightarrow> 500000 | DEVTYPE_FLOPPY \<Rightarrow> 200000
              | DEVTYPE_NONE \<Rightarrow> 0);
            seekoffset = (if lba d < lastlba d then uint (lastlba d - lba d) else uint (lba d - lastlba d));
            disksize = sint (d_size d div 512)
          in if devtype d = DEVTYPE_NONE then Inr 0
             else if disksize \<le> 0 then Inr 0
             else let t = seek * seekoffset div disksize in Inr (if 500000 < t then 500000 else t))
      else Inr 0)"

definition SCSI_Sector_Time :: "scsi \<Rightarrow> int res" where
  "SCSI_Sector_Time s =
     bnd (cur s) (\<lambda>d.
       let sectors = (if uint (blockcounter d) \<le> 0 then 1 else uint (blockcounter d))
       in Inr (if buf_disk s then
            (case devtype d of DEVTYPE_HARDDISK \<Rightarrow> sectors * 350 | DEVTYPE_CD \<Rightarrow> sectors * 3250
             | DEVTYPE_FLOPPY \<Rightarrow> sectors * 5500 | DEVTYPE_NONE \<Rightarrow> 1000)
          else 100))"

section \<open>Blocks\<close>

definition fail_sense :: "u8 \<Rightarrow> SCSIdisk \<Rightarrow> SCSIdisk" where
  "fail_sense code d = d\<lparr>d_status := STAT_CHECK_COND, sense_code := code, sense_valid := False\<rparr>"

definition good_sense :: "SCSIdisk \<Rightarrow> SCSIdisk" where
  "good_sense d = d\<lparr>d_status := STAT_GOOD, sense_code := SC_NO_ERROR, sense_valid := False\<rparr>"

definition bad_lba :: "SCSIdisk \<Rightarrow> SCSIdisk" where
  "bad_lba d = d\<lparr>d_status := STAT_CHECK_COND, sense_code := SC_INVALID_LBA, sense_valid := True, sense_info := lba d\<rparr>"

definition next_block :: "SCSIdisk \<Rightarrow> SCSIdisk" where
  "next_block d = (good_sense d)\<lparr>lba := lba d + 1, blockcounter := blockcounter d - 1\<rparr>"

definition block_offset :: "SCSIdisk \<Rightarrow> u64" where
  "block_offset d = ucast (lba d) * 512"

definition the_file :: "SCSIdisk \<Rightarrow> FILE res" where
  "the_file d = (case dsk d of None \<Rightarrow> Inl NullDeref | Some f \<Rightarrow> Inr f)"

text \<open>The store of a block: the image, or the shadow when images must not be written.\<close>

definition put_block :: "scsi \<Rightarrow> SCSIdisk \<Rightarrow> (SCSIdisk \<times> hostfs) res" where
  "put_block s d =
     (if nWriteProtection s \<noteq> WRITEPROT_ON then
        bnd (the_file d) (\<lambda>f. Inr (d, File_Write (take BLOCKSIZE (buf_data s)) (unat (block_offset d)) f (host s)))
      else
        case shadow d of
          Some (n, sh) \<Rightarrow>
            bnd (arr_get n sh (unat (lba d))) (\<lambda>_.
              Inr (d\<lparr>shadow := Some (n, sh(unat (lba d) \<mapsto> take BLOCKSIZE (buf_data s)))\<rparr>, host s))
        | None \<Rightarrow> Inr (d\<lparr>shadow := Some (unat (ucast (d_size d div 512) :: u32), \<lambda>_. None)\<rparr>, host s))"

definition scsi_write_sector :: "scsi \<Rightarrow> scsi res" where
  "scsi_write_sector s =
     bnd (cur s) (\<lambda>d.
       if block_offset d < d_size d then
         bnd (put_block (s\<lparr>io_seq := io_seq s + 1\<rparr>) d) (\<lambda>(d1, h).
           let d2 = next_block d1;
               s1 = set_cur d2 (s\<lparr>io_seq := io_seq s + 1, host := h, buf_limit := int BLOCKSIZE, buf_size := 0\<rparr>)
           in Inr (if blockcounter d2 = 0 then set_phase PHASE_ST s1 else s1))
       else Inr (set_phase PHASE_ST (set_cur (bad_lba d) s)))"

definition SCSIdisk_Receive_Data :: "u8 \<Rightarrow> scsi \<Rightarrow> scsi res" where
  "SCSIdisk_Receive_Data val s =
     (if buf_size s < 0 \<or> int BLOCKSIZE \<le> buf_size s then Inl ArrayOOB
      else
        let s1 = s\<lparr>buf_data := (buf_data s)[nat (buf_size s) := val], buf_size := buf_size s + 1\<rparr>
        in if buf_size s1 = buf_limit s1 then
             if buf_disk s1 then scsi_write_sector s1 else Inr (set_phase PHASE_ST s1)
           else Inr s1)"

text \<open>The block a read finds: that of the shadow when it has one, else that of the image.\<close>

definition get_block :: "scsi \<Rightarrow> SCSIdisk \<Rightarrow> u8 list res" where
  "get_block s d =
     bnd (case shadow d of None \<Rightarrow> Inr None | Some (n, sh) \<Rightarrow> arr_get n sh (unat (lba d))) (\<lambda>x.
       case x of
         Some bs \<Rightarrow> Inr (bs @ drop (length bs) (buf_data s))
       | None \<Rightarrow> bnd (the_file d) (\<lambda>f. Inr (File_Read (buf_data s) BLOCKSIZE (unat (block_offset d)) f (host s))))"

definition scsi_read_sector :: "scsi \<Rightarrow> scsi res" where
  "scsi_read_sector s =
     bnd (cur s) (\<lambda>d.
       if blockcounter d = 0 then Inr (set_phase PHASE_ST s)
       else if block_offset d < d_size d then
         bnd (get_block s d) (\<lambda>bs.
           Inr (set_cur (next_block d) (s\<lparr>buf_data := bs, buf_limit := int BLOCKSIZE, buf_size := int BLOCKSIZE,
             io_seq := io_seq s + 1\<rparr>)))
       else Inr (set_phase PHASE_ST (set_cur (bad_lba d) s)))"

definition SCSIdisk_Send_Data :: "scsi \<Rightarrow> (u8 \<times> scsi) res" where
  "SCSIdisk_Send_Data s =
     (let i = buf_limit s - buf_size s
      in if i < 0 \<or> int BLOCKSIZE \<le> i then Inl ArrayOOB
         else
           let val = buf_data s ! nat i; s1 = s\<lparr>buf_size := buf_size s - 1\<rparr>
           in if buf_size s1 = 0 then
                if buf_disk s1 then bnd (scsi_read_sector s1) (\<lambda>s2. Inr (val, s2))
                else Inr (val, set_phase PHASE_ST s1)
              else Inr (val, s1))"

section \<open>Commands\<close>

definition SCSI_TestUnitReady :: "scsi \<Rightarrow> scsi res" where
  "SCSI_TestUnitReady s =
     bnd (cur s) (\<lambda>d.
       Inr (set_phase PHASE_ST (set_cur
         (if devtype d \<noteq> DEVTYPE_NONE \<and> devtype d \<noteq> DEVTYPE_HARDDISK \<and> dsk d = None
          then d\<lparr>d_status := STAT_CHECK_COND, sense_code := SC_NOT_READY\<rparr>
          else d\<lparr>d_status := STAT_GOOD, sense_code := SC_NO_ERROR\<rparr>) s)))"

definition be_bytes :: "u32 \<Rightarrow> u8 list" where
  "be_bytes w = [ucast (drop_bit 24 w), ucast (drop_bit 16 w), ucast (drop_bit 8 w), ucast w]"

text \<open>A reply of the target: its bytes fill the buffer and the bus enters the data-in phase.\<close>

definition reply :: "u8 list \<Rightarrow> scsi \<Rightarrow> scsi" where
  "reply bs s = set_phase PHASE_DI ((buf_copy bs s)\<lparr>buf_limit := int (length bs), buf_size := int (length bs), buf_disk := False\<rparr>)"

definition SCSI_ReadCapacity :: "scsi \<Rightarrow> scsi res" where
  "SCSI_ReadCapacity s =
     bnd (cur s) (\<lambda>d.
       let sectors = ucast (d_size d div 512 - 1) :: u32
       in Inr (set_cur (good_sense d) (reply (be_bytes sectors @ be_bytes 512) s)))"

definition SCSI_WriteSector :: "(nat \<Rightarrow> u8) \<Rightarrow> scsi \<Rightarrow> scsi res" where
  "SCSI_WriteSector cdb s =
     bnd (cur s) (\<lambda>d.
       let d1 = d\<lparr>lastlba := lba d, lba := ucast (SCSI_GetOffset (cdb 0) cdb),
                 blockcounter := word_of_int (SCSI_GetCount (cdb 0) cdb)\<rparr>
       in if readonly d1 then Inr (set_phase PHASE_ST (set_cur (fail_sense SC_WRITE_PROTECT d1) s))
          else Inr (set_phase PHASE_DO ((set_cur d1 s)\<lparr>buf_disk := True, buf_size := 0, buf_limit := int BLOCKSIZE\<rparr>)))"

definition SCSI_ReadSector :: "(nat \<Rightarrow> u8) \<Rightarrow> scsi \<Rightarrow> scsi res" where
  "SCSI_ReadSector cdb s =
     bnd (cur s) (\<lambda>d.
       let d1 = d\<lparr>lastlba := lba d, lba := ucast (SCSI_GetOffset (cdb 0) cdb),
                 blockcounter := word_of_int (SCSI_GetCount (cdb 0) cdb)\<rparr>
       in scsi_read_sector (set_phase PHASE_DI ((set_cur d1 s)\<lparr>buf_disk := True, buf_size := 0\<rparr>)))"

definition inquiry_model :: "SCSI_DEVTYPE \<Rightarrow> u8 list \<Rightarrow> u8 list" where
  "inquiry_model t bs =
     (let put = (\<lambda>model bs. take 16 bs @ model @ drop 22 bs)
      in case t of
        DEVTYPE_HARDDISK \<Rightarrow> put [0x48, 0x44, 0x44, 0x20, 0x20, 0x20] (bs[0 := 0, 1 := (bs ! 1) AND NOT 0x80])
      | DEVTYPE_CD \<Rightarrow> put [0x43, 0x44, 0x2D, 0x52, 0x4F, 0x4D] (bs[0 := 5, 1 := (bs ! 1) OR 0x80])
      | DEVTYPE_FLOPPY \<Rightarrow> put [0x46, 0x4C, 0x4F, 0x50, 0x50, 0x59] (bs[0 := 0, 1 := (bs ! 1) OR 0x80])
      | DEVTYPE_NONE \<Rightarrow> bs)"

definition SCSI_Inquiry :: "(nat \<Rightarrow> u8) \<Rightarrow> scsi \<Rightarrow> scsi res" where
  "SCSI_Inquiry cdb s =
     bnd (cur s) (\<lambda>d.
       let b1 = inquiry_model (devtype d) (inquiry_bytes s);
           b2 = (if d_lun d \<noteq> 0 then b1[0 := 0x7F] else b1);
           limit = SCSI_GetTransferLength (cdb 0) cdb
       in Inr (set_cur (good_sense d) (reply (take (nat limit) b2) (s\<lparr>inquiry_bytes := b2\<rparr>))))"

definition SCSI_StartStop :: "(nat \<Rightarrow> u8) \<Rightarrow> scsi \<Rightarrow> scsi res" where
  "SCSI_StartStop cdb s =
     bnd (cur s) (\<lambda>d.
     bnd (if cdb 4 AND 3 = 2 \<and> devtype d \<noteq> DEVTYPE_HARDDISK then SCSI_EjectDisk (unat (bus_target s)) s else Inr s) (\<lambda>s1.
     bnd (cur s1) (\<lambda>d1. Inr (set_phase PHASE_ST (set_cur (d1\<lparr>d_status := STAT_GOOD\<rparr>) s1)))))"

definition key_of_code :: "u8 \<Rightarrow> u8" where
  "key_of_code code =
     (if code = SC_NO_ERROR then SK_NOSENSE
      else if code = SC_NOT_READY then SK_NOTREADY
      else if code \<in> {SC_WRITE_FAULT, SC_INVALID_CMD, SC_INVALID_LBA, SC_INVALID_CDB, SC_INVALID_LUN} then SK_ILLEGAL_REQ
      else if code = SC_WRITE_PROTECT then SK_DATAPROTECT
      else SK_HARDWARE)"

definition sense_bytes :: "SCSIdisk \<Rightarrow> u8 list" where
  "sense_bytes d =
     [if sense_valid d then 0xF0 else 0x70, 0, key_of_code (sense_code d)] @
     (if sense_valid d then be_bytes (sense_info d) else [0, 0, 0, 0]) @
     [14, 0, 0, 0, 0, sense_code d, 0, 0, 0, 0, 0, 0, 0, 0, 0]"

definition SCSI_RequestSense :: "(nat \<Rightarrow> u8) \<Rightarrow> scsi \<Rightarrow> scsi res" where
  "SCSI_RequestSense cdb s =
     bnd (cur s) (\<lambda>d.
       let n = SCSI_GetCount (cdb 0) cdb;
           nRetLen = (if n \<le> 0 then 4 else if 22 < n then 22 else n);
           d1 = d\<lparr>sense_key := key_of_code (sense_code d), d_status := STAT_GOOD\<rparr>
       in Inr (set_cur d1 (reply (take (nat nRetLen) (sense_bytes d)) s)))"

text \<open>The default values of the mode page; its size is the length of the list.\<close>

definition SCSI_GetModePage :: "u8 \<Rightarrow> SCSIdisk \<Rightarrow> u8 list" where
  "SCSI_GetModePage pagecode d =
     (if pagecode = 0 then [0x00, 0x02, 0x80, 0x00]
      else if pagecode = 1 then [0x01, 0x06, 0x00, 0x1B, 0x0B, 0x00, 0x00, 0xFF]
      else if pagecode = 4 then
        (let (cylinders, heads, sectors) = SCSI_GuessGeometry (ucast (d_size d div 512))
         in [0x04, 0x12, ucast (drop_bit 16 cylinders AND 0xFF), ucast (drop_bit 8 cylinders AND 0xFF),
             ucast (cylinders AND 0xFF), ucast heads] @ replicate 14 0)
      else [])"

definition page_values :: "u8 \<Rightarrow> u8 list \<Rightarrow> u8 list" where
  "page_values pagecontrol page =
     (if pagecontrol = 0 then page else if pagecontrol = 1 then replicate (length page) 0 else page)"

definition SCSI_ModeSense :: "(nat \<Rightarrow> u8) \<Rightarrow> scsi \<Rightarrow> scsi res" where
  "SCSI_ModeSense cdb s =
     bnd (cur s) (\<lambda>d.
       let sectors = ucast (d_size d div 512) :: u32;
           pagecontrol = drop_bit 6 (cdb 2 AND 0x0C);
           pagecode = cdb 2 AND 0x3F;
           block = (if cdb 1 AND 8 = 0
                    then [0, ucast (drop_bit 16 sectors), ucast (drop_bit 8 sectors), ucast sectors, 0, 0, 2, 0] else []);
           pages = (if pagecode = 0x3F
                    then concat (map (\<lambda>p. page_values pagecontrol (SCSI_GetModePage (of_nat p) d)) [0 ..< 0x3F])
                    else page_values pagecontrol (SCSI_GetModePage pagecode d));
           bytes = [0, if readonly d then 0x80 else 0, 8] @ block @ pages;
           retbuf = of_nat (length bytes) # bytes;
           limit = min (int (length retbuf)) (SCSI_GetTransferLength (cdb 0) cdb)
       in Inr (set_cur (good_sense d) (reply (take (nat limit) retbuf) s)))"

definition SCSI_FormatDrive :: "(nat \<Rightarrow> u8) \<Rightarrow> scsi \<Rightarrow> scsi res" where
  "SCSI_FormatDrive cdb s =
     (if cdb 1 AND 0x10 \<noteq> 0 then Inl Aborted
      else bnd (cur s) (\<lambda>d. Inr (set_phase PHASE_ST (set_cur (d\<lparr>d_status := STAT_GOOD\<rparr>) s))))"

definition complete :: "scsi \<Rightarrow> scsi res" where
  "complete s = bnd (cur s) (\<lambda>d. Inr (set_cur (d\<lparr>d_message := MSG_COMPLETE\<rparr>) s))"

definition SCSI_Emulate_Command :: "(nat \<Rightarrow> u8) \<Rightarrow> scsi \<Rightarrow> scsi res" where
  "SCSI_Emulate_Command cdb s =
     (let opcode = cdb 0
      in bnd (if opcode = 0x12 then SCSI_Inquiry cdb s
         else if opcode = 0x03 then SCSI_RequestSense cdb s
         else bnd (cur s) (\<lambda>d.
           if d_lun d \<noteq> 0 then
             Inr (set_cur (d\<lparr>d_status := STAT_CHECK_COND, d_message := MSG_COMPLETE, sense_code := SC_INVALID_LUN,
               sense_valid := False\<rparr>) (set_phase PHASE_ST s))
           else if opcode = 0x00 then SCSI_TestUnitReady s
           else if opcode = 0x25 then SCSI_ReadCapacity s
           else if opcode = 0x08 \<or> opcode = 0x28 then SCSI_ReadSector cdb s
           else if opcode = 0x0A \<or> opcode = 0x2A then SCSI_WriteSector cdb s
           else if opcode = 0x0B then Inl Aborted
           else if opcode = 0x1B then SCSI_StartStop cdb s
           else if opcode = 0x15 then Inl Aborted
           else if opcode = 0x1A then SCSI_ModeSense cdb s
           else if opcode = 0x04 then SCSI_FormatDrive cdb s
           else Inr (set_phase PHASE_ST (set_cur (fail_sense SC_INVALID_CMD d) s)))) complete)"

definition SCSIdisk_Receive_Command :: "(nat \<Rightarrow> u8) \<Rightarrow> u8 \<Rightarrow> scsi \<Rightarrow> scsi res" where
  "SCSIdisk_Receive_Command cdb identify s =
     (let lun = (if identify AND MSG_IDENTIFY_MASK \<noteq> 0 then identify AND MSG_LUNMASK else drop_bit 5 (cdb 1 AND 0xE0))
      in bnd (cur s) (\<lambda>d. SCSI_Emulate_Command cdb (set_cur (d\<lparr>d_lun := lun\<rparr>) s)))"

definition SCSIdisk_Select :: "u8 \<Rightarrow> scsi \<Rightarrow> (bool \<times> scsi) res" where
  "SCSIdisk_Select target s =
     bnd (arr_get ESP_MAX_DEVS (disks s) (unat target)) (\<lambda>d.
       if devtype d = DEVTYPE_NONE then Inr (True, set_phase PHASE_ST s)
       else Inr (False, s\<lparr>bus_target := target\<rparr>))"

definition SCSIdisk_Send_Status :: "scsi \<Rightarrow> (u8 \<times> scsi) res" where
  "SCSIdisk_Send_Status s = (let s1 = set_phase PHASE_MI s in bnd (cur s1) (\<lambda>d. Inr (d_status d, s1)))"

definition SCSIdisk_Send_Message :: "scsi \<Rightarrow> u8 res" where
  "SCSIdisk_Send_Message s = bnd (cur s) (\<lambda>d. Inr (d_message d))"

section \<open>The disk as a store of blocks\<close>

text \<open>What a disk promises: a store of blocks of 512 bytes, addressed by number.\<close>

definition disk_blocks :: "SCSIdisk \<Rightarrow> nat" where
  "disk_blocks d = unat (d_size d) div BLOCKSIZE"

definition block_at :: "hostfs \<Rightarrow> SCSIdisk \<Rightarrow> nat \<Rightarrow> u8 list" where
  "block_at h d i =
     (case (case shadow d of None \<Rightarrow> None | Some (n, sh) \<Rightarrow> sh i) of
        Some bs \<Rightarrow> bs
      | None \<Rightarrow> (case dsk d of None \<Rightarrow> [] | Some f \<Rightarrow> take BLOCKSIZE (drop (BLOCKSIZE * i) (file_content (f_name f) h))))"

text \<open>A disk with a whole number of blocks whose image is open.\<close>

definition disk_ok :: "hostfs \<Rightarrow> SCSIdisk \<Rightarrow> bool" where
  "disk_ok h d \<longleftrightarrow>
     (\<exists>f. dsk d = Some f \<and> length (file_content (f_name f) h) = unat (d_size d)) \<and>
     BLOCKSIZE dvd unat (d_size d) \<and> disk_blocks d < 2 ^ 32 \<and>
     (case shadow d of None \<Rightarrow> True | Some (n, sh) \<Rightarrow> n = disk_blocks d \<and> (\<forall>i bs. sh i = Some bs \<longrightarrow> length bs = BLOCKSIZE))"

text \<open>Writes reach the image, or the shadow that already exists.\<close>

definition storing :: "scsi \<Rightarrow> SCSIdisk \<Rightarrow> bool" where
  "storing s d \<longleftrightarrow>
     (if nWriteProtection s = WRITEPROT_ON then shadow d \<noteq> None
      else shadow d = None \<and> (\<exists>f. dsk d = Some f \<and> f_update f))"

definition scsi_ok :: "scsi \<Rightarrow> bool" where
  "scsi_ok s \<longleftrightarrow> unat (bus_target s) < ESP_MAX_DEVS \<and> length (buf_data s) = BLOCKSIZE \<and> length (inquiry_bytes s) = 54"

lemma cur_ok: "scsi_ok s \<Longrightarrow> cur s = Inr (disks s (unat (bus_target s)))"
  by (simp add: scsi_ok_def cur_def)

lemma cur_set_cur [simp]: "unat (bus_target s) < ESP_MAX_DEVS \<Longrightarrow> cur (set_cur d s) = Inr d"
  by (simp add: cur_def set_cur_def)

lemma set_cur_keeps [simp]:
  "bus_target (set_cur d s) = bus_target s" "bus_phase (set_cur d s) = bus_phase s" "buf_data (set_cur d s) = buf_data s"
  "buf_limit (set_cur d s) = buf_limit s" "buf_size (set_cur d s) = buf_size s" "buf_disk (set_cur d s) = buf_disk s"
  "inquiry_bytes (set_cur d s) = inquiry_bytes s" "nWriteProtection (set_cur d s) = nWriteProtection s" "host (set_cur d s) = host s"
  "scsi_targets (set_cur d s) = scsi_targets s" "io_seq (set_cur d s) = io_seq s"
  by (simp_all add: set_cur_def)

lemma set_phase_keeps [simp]:
  "bus_target (set_phase p s) = bus_target s" "bus_phase (set_phase p s) = p" "buf_data (set_phase p s) = buf_data s"
  "buf_limit (set_phase p s) = buf_limit s" "buf_size (set_phase p s) = buf_size s" "buf_disk (set_phase p s) = buf_disk s"
  "inquiry_bytes (set_phase p s) = inquiry_bytes s" "nWriteProtection (set_phase p s) = nWriteProtection s" "host (set_phase p s) = host s"
  "scsi_targets (set_phase p s) = scsi_targets s" "disks (set_phase p s) = disks s" "cur (set_phase p s) = cur s"
  by (simp_all add: set_phase_def cur_def)

lemma scsi_ok_keeps [simp]:
  "scsi_ok (set_phase p s) = scsi_ok s" "scsi_ok (set_cur d s) = scsi_ok s"
  by (simp_all add: scsi_ok_def)

text \<open>The offset of a block on the disk.\<close>

lemma block_offset_nat: "unat (block_offset d) = BLOCKSIZE * unat (lba d)"
proof -
  have "unat (lba d) < 2 ^ LENGTH(32)" by (rule unsigned_less)
  then have "unat (lba d) < 2 ^ 32" by simp
  moreover have "unat (ucast (lba d) :: u64) = unat (lba d)" using calculation
    by (simp add: unsigned_ucast_eq take_bit_nat_eq_self)
  ultimately show ?thesis by (simp add: block_offset_def unat_mult_lem [THEN iffD1])
qed

lemma block_inside:
  "BLOCKSIZE dvd unat (d_size d) \<Longrightarrow> block_offset d < d_size d \<longleftrightarrow> unat (lba d) < disk_blocks d"
  by (auto simp: word_less_nat_alt block_offset_nat disk_blocks_def elim!: dvdE)

lemma shadow_count: "disk_blocks d < 2 ^ 32 \<Longrightarrow> unat (ucast (d_size d div 512) :: u32) = disk_blocks d"
  by (simp add: unsigned_ucast_eq disk_blocks_def unat_div take_bit_nat_eq_self)

text \<open>One block of a list of whole blocks.\<close>

lemma block_length: "BLOCKSIZE * i + BLOCKSIZE \<le> length xs \<Longrightarrow> length (take BLOCKSIZE (drop (BLOCKSIZE * i) xs)) = BLOCKSIZE"
  by simp

lemma block_replace:
  assumes "length bs = BLOCKSIZE" "BLOCKSIZE * k + BLOCKSIZE \<le> length xs" "BLOCKSIZE * i + BLOCKSIZE \<le> length xs"
  shows "take BLOCKSIZE (drop (BLOCKSIZE * i) (take (BLOCKSIZE * k) xs @ bs @ drop (BLOCKSIZE * k + BLOCKSIZE) xs)) =
    (if i = k then bs else take BLOCKSIZE (drop (BLOCKSIZE * i) xs))"
proof (rule nth_equalityI)
  define ys where "ys = take (BLOCKSIZE * k) xs @ bs @ drop (BLOCKSIZE * k + BLOCKSIZE) xs"
  have len: "length ys = length xs" using assms by (simp add: ys_def)
  show "length (take BLOCKSIZE (drop (BLOCKSIZE * i) (take (BLOCKSIZE * k) xs @ bs @ drop (BLOCKSIZE * k + BLOCKSIZE) xs))) =
      length (if i = k then bs else take BLOCKSIZE (drop (BLOCKSIZE * i) xs))"
    unfolding ys_def [symmetric] using assms by (simp add: len)
  fix j
  assume "j < length (take BLOCKSIZE (drop (BLOCKSIZE * i) (take (BLOCKSIZE * k) xs @ bs @ drop (BLOCKSIZE * k + BLOCKSIZE) xs)))"
  then have j: "j < BLOCKSIZE" by (simp only: length_take min_less_iff_conj)
  consider "i < k" | "i = k" | "k < i" by linarith
  then show "take BLOCKSIZE (drop (BLOCKSIZE * i) (take (BLOCKSIZE * k) xs @ bs @ drop (BLOCKSIZE * k + BLOCKSIZE) xs)) ! j =
      (if i = k then bs else take BLOCKSIZE (drop (BLOCKSIZE * i) xs)) ! j"
  proof cases
    case 1
    then have "BLOCKSIZE * i + j < BLOCKSIZE * k" using j by linarith
    then show ?thesis using 1 j assms by (simp add: nth_append)
  next
    case 2
    then show ?thesis using j assms by (simp add: nth_append)
  next
    case 3
    then have "\<not> BLOCKSIZE * i + j < BLOCKSIZE * k" "\<not> BLOCKSIZE * i + j - BLOCKSIZE * k < BLOCKSIZE" by linarith+
    then show ?thesis using 3 j assms by (simp add: nth_append)
  qed
qed

lemma block_at_length:
  assumes "disk_ok h d" "i < disk_blocks d"
  shows "length (block_at h d i) = BLOCKSIZE"
proof -
  obtain f where f: "dsk d = Some f" "length (file_content (f_name f) h) = unat (d_size d)" "BLOCKSIZE dvd unat (d_size d)"
    using assms(1) by (auto simp: disk_ok_def)
  have "BLOCKSIZE * i + BLOCKSIZE \<le> unat (d_size d)"
    using f(3) assms(2) by (auto simp: disk_blocks_def elim!: dvdE)
  then show ?thesis using f assms(1) by (auto simp: block_at_def disk_ok_def split: option.splits)
qed

lemma get_block_at:
  assumes "disk_ok (host s) d" "unat (lba d) < disk_blocks d" "length (buf_data s) = BLOCKSIZE"
  shows "get_block s d = Inr (block_at (host s) d (unat (lba d)))"
proof -
  obtain f where f: "dsk d = Some f" "length (file_content (f_name f) (host s)) = unat (d_size d)" "BLOCKSIZE dvd unat (d_size d)"
    using assms(1) by (auto simp: disk_ok_def)
  have "BLOCKSIZE * unat (lba d) + BLOCKSIZE \<le> unat (d_size d)"
    using f(3) assms(2) by (auto simp: disk_blocks_def elim!: dvdE)
  then show ?thesis
    using f assms by (auto simp: get_block_def block_at_def disk_ok_def the_file_def File_Read_def Let_def block_offset_nat
        split: option.splits)
qed

lemma put_block_at:
  assumes "disk_ok (host s) d" "unat (lba d) < disk_blocks d" "length (buf_data s) = BLOCKSIZE" "storing s d"
  shows "\<exists>sh h. put_block s d = Inr (d\<lparr>shadow := sh\<rparr>, h) \<and> disk_ok h (d\<lparr>shadow := sh\<rparr>) \<and> storing s (d\<lparr>shadow := sh\<rparr>) \<and>
    (\<forall>i < disk_blocks d. block_at h (d\<lparr>shadow := sh\<rparr>) i = (if i = unat (lba d) then buf_data s else block_at (host s) d i))"
proof -
  obtain f where f: "dsk d = Some f" "length (file_content (f_name f) (host s)) = unat (d_size d)" "BLOCKSIZE dvd unat (d_size d)"
    using assms(1) by (auto simp: disk_ok_def)
  have inside: "BLOCKSIZE * i + BLOCKSIZE \<le> unat (d_size d)" if "i < disk_blocks d" for i
    using f(3) that by (auto simp: disk_blocks_def elim!: dvdE)
  show ?thesis
  proof (cases "nWriteProtection s = WRITEPROT_ON")
    case True
    then obtain n sh where sh: "shadow d = Some (n, sh)" using assms(4) by (auto simp: storing_def)
    let ?sh = "Some (n, sh(unat (lba d) \<mapsto> buf_data s))"
    have "put_block s d = Inr (d\<lparr>shadow := ?sh\<rparr>, host s)"
      using True sh assms by (simp add: put_block_def disk_ok_def)
    moreover have "disk_ok (host s) (d\<lparr>shadow := ?sh\<rparr>)"
      using assms(1,3) sh by (auto simp: disk_ok_def disk_blocks_def split: option.splits)
    moreover have "storing s (d\<lparr>shadow := ?sh\<rparr>)" using True by (simp add: storing_def)
    moreover have "block_at (host s) (d\<lparr>shadow := ?sh\<rparr>) i = (if i = unat (lba d) then buf_data s else block_at (host s) d i)" for i
      using sh by (auto simp: block_at_def split: option.splits)
    ultimately show ?thesis by blast
  next
    case False
    then have sh: "shadow d = None" "f_update f" using assms(4) f(1) by (auto simp: storing_def)
    have d: "d\<lparr>shadow := None\<rparr> = d" using sh(1) by simp
    let ?h = "File_Write (buf_data s) (BLOCKSIZE * unat (lba d)) f (host s)"
    have c: "file_content (f_name f) ?h = take (BLOCKSIZE * unat (lba d)) (file_content (f_name f) (host s)) @ buf_data s @
        drop (BLOCKSIZE * unat (lba d) + BLOCKSIZE) (file_content (f_name f) (host s))"
      using sh(2) inside [OF assms(2)] f(2) assms(3) by (simp add: File_Write_def file_content_def [of _ "_\<lparr>fs_bytes := _\<rparr>"] Let_def)
    have "put_block s d = Inr (d, ?h)"
      using False f(1) assms(3) by (simp add: put_block_def the_file_def block_offset_nat)
    moreover have "disk_ok ?h d"
      using assms(1,3) f inside [OF assms(2)] sh by (auto simp: disk_ok_def c)
    moreover have "block_at ?h d i = (if i = unat (lba d) then buf_data s else block_at (host s) d i)" if "i < disk_blocks d" for i
      using block_replace [OF assms(3), of "unat (lba d)" "file_content (f_name f) (host s)" i] inside [OF assms(2)] inside [OF that] f sh
      by (simp add: block_at_def c)
    ultimately show ?thesis using assms(4) d by (intro exI [of _ None] exI [of _ ?h]) simp
  qed
qed

section \<open>Transfers\<close>

lemma each_Nil [simp]: "each f [] = Inr"
  by (rule ext) simp

abbreviation "dk s \<equiv> disks s (unat (bus_target s))"

text \<open>The bytes an initiator gets when it takes \<open>n\<close> bytes.\<close>

fun send_data :: "nat \<Rightarrow> scsi \<Rightarrow> (u8 list \<times> scsi) res" where
  "send_data 0 s = Inr ([], s)"
| "send_data (Suc n) s =
     bnd (SCSIdisk_Send_Data s) (\<lambda>(b, t). bnd (send_data n t) (\<lambda>(bs, u). Inr (b # bs, u)))"

lemma send_data_add:
  "send_data (m + n) s = bnd (send_data m s) (\<lambda>(xs, t). bnd (send_data n t) (\<lambda>(ys, u). Inr (xs @ ys, u)))"
proof (induction m arbitrary: s)
  case 0
  then show ?case by (cases "send_data n s") auto
next
  case (Suc m)
  show ?case
  proof (cases "SCSIdisk_Send_Data s")
    case (Inr p)
    obtain b t where p: "p = (b, t)" by (cases p)
    show ?thesis using Suc.IH [of t] Inr p
      by (cases "send_data m t") (auto simp: bnd_assoc bnd_def split: sum.split)
  qed simp
qed

lemma send_data_length: "send_data n s = Inr (bs, t) \<Longrightarrow> length bs = n"
  by (induction n arbitrary: s bs) (auto simp: bnd_eq_Inr)

text \<open>The bytes of a data-in phase: the bus offers each of them.\<close>

primrec sends :: "u8 list \<Rightarrow> scsi \<Rightarrow> scsi \<Rightarrow> bool" where
  "sends [] s t \<longleftrightarrow> t = s"
| "sends (b # bs) s t \<longleftrightarrow> bus_phase s = PHASE_DI \<and> (\<exists>u. SCSIdisk_Send_Data s = Inr (b, u) \<and> sends bs u t)"

lemma send_disk_byte:
  assumes "SCSIdisk_Send_Data s = Inr (b, t)" "buf_disk s" "buf_limit s = 512"
  shows "buf_disk t \<and> buf_limit t = 512 \<and> (bus_phase t = bus_phase s \<or> SCSIdisk_Send_Data t = Inl ArrayOOB)"
  using assms
  by (auto simp: SCSIdisk_Send_Data_def scsi_read_sector_def Let_def bnd_eq_Inr split: if_splits)

lemma sends_data:
  "send_data n s = Inr (bs, t) \<Longrightarrow> buf_disk s \<Longrightarrow> buf_limit s = 512 \<Longrightarrow> bus_phase s = PHASE_DI \<Longrightarrow> sends bs s t"
proof (induction n arbitrary: s bs)
  case (Suc n)
  obtain b u cs where u: "SCSIdisk_Send_Data s = Inr (b, u)" "send_data n u = Inr (cs, t)" "bs = b # cs"
    using Suc.prems(1) by (auto simp: bnd_eq_Inr)
  have k: "buf_disk u" "buf_limit u = 512" "bus_phase u = PHASE_DI \<or> SCSIdisk_Send_Data u = Inl ArrayOOB"
    using send_disk_byte [OF u(1) Suc.prems(2,3)] Suc.prems(4) by auto
  have "sends cs u t"
  proof (cases "bus_phase u = PHASE_DI")
    case True
    then show ?thesis using Suc.IH [OF u(2) k(1,2)] by simp
  next
    case False
    then show ?thesis using k(3) u(2) by (cases n) auto
  qed
  then show ?case using Suc.prems(4) u(1,3) by auto
qed simp

text \<open>A data-out phase gathers the bytes of a block and stores it with the last one.\<close>

lemma recv_block:
  "scsi_ok s \<Longrightarrow> buf_disk s \<Longrightarrow> buf_limit s = 512 \<Longrightarrow> buf_size s = int k \<Longrightarrow> k + length bs = BLOCKSIZE \<Longrightarrow> bs \<noteq> [] \<Longrightarrow>
    each SCSIdisk_Receive_Data bs s = scsi_write_sector (s\<lparr>buf_data := take k (buf_data s) @ bs, buf_size := 512\<rparr>)"
proof (induction bs arbitrary: s k)
  case (Cons b bs)
  let ?s = "s\<lparr>buf_data := (buf_data s)[k := b], buf_size := int k + 1\<rparr>"
  have len: "length (buf_data s) = BLOCKSIZE" "k < BLOCKSIZE" using Cons.prems by (simp_all add: scsi_ok_def)
  have t: "take k (buf_data s) @ b # bs = take (Suc k) ((buf_data s)[k := b]) @ bs"
    using len by (simp add: take_Suc_conv_app_nth)
  show ?case
  proof (cases "bs = []")
    case True
    then have k: "k = 511" using Cons.prems(5) by simp
    have d: "(buf_data s)[k := b] = take k (buf_data s) @ [b]"
      using len k by (simp add: upd_conv_take_nth_drop)
    have "SCSIdisk_Receive_Data b s = scsi_write_sector (s\<lparr>buf_data := take k (buf_data s) @ [b], buf_size := 512\<rparr>)"
      using Cons.prems True k d by (simp add: SCSIdisk_Receive_Data_def Let_def)
    then show ?thesis using True by simp
  next
    case False
    have ok: "scsi_ok ?s" using Cons.prems(1) by (simp add: scsi_ok_def)
    have nl: "int k + 1 \<noteq> 512" using Cons.prems(5) False by (cases bs) auto
    have "SCSIdisk_Receive_Data b s = Inr ?s"
      using Cons.prems(3,4) len(2) nl by (simp add: SCSIdisk_Receive_Data_def Let_def)
    then have "each SCSIdisk_Receive_Data (b # bs) s = each SCSIdisk_Receive_Data bs ?s" by simp
    also have "\<dots> = scsi_write_sector (?s\<lparr>buf_data := take (Suc k) (buf_data ?s) @ bs, buf_size := 512\<rparr>)"
      using Cons.prems ok False by (intro Cons.IH) simp_all
    finally show ?thesis by (simp add: t)
  qed
qed simp

text \<open>The bytes of a data-out phase: the bus asks for each of them.\<close>

primrec receives :: "u8 list \<Rightarrow> scsi \<Rightarrow> scsi \<Rightarrow> bool" where
  "receives [] s t \<longleftrightarrow> t = s"
| "receives (b # bs) s t \<longleftrightarrow> bus_phase s = PHASE_DO \<and> (\<exists>u. SCSIdisk_Receive_Data b s = Inr u \<and> receives bs u t)"

lemma receives_append: "receives (xs @ ys) s t \<longleftrightarrow> (\<exists>u. receives xs s u \<and> receives ys u t)"
  by (induction xs arbitrary: s) auto

lemma receives_each: "receives bs s t \<Longrightarrow> each SCSIdisk_Receive_Data bs s = Inr t"
  by (induction bs arbitrary: s) auto

lemma receives_block:
  "each SCSIdisk_Receive_Data bs s = Inr t \<Longrightarrow> bus_phase s = PHASE_DO \<Longrightarrow> buf_limit s = 512 \<Longrightarrow> buf_size s = int k \<Longrightarrow>
   k + length bs = BLOCKSIZE \<Longrightarrow> receives bs s t"
proof (induction bs arbitrary: s k)
  case (Cons b bs)
  obtain u where u: "SCSIdisk_Receive_Data b s = Inr u" "each SCSIdisk_Receive_Data bs u = Inr t"
    using Cons.prems(1) by (cases "SCSIdisk_Receive_Data b s") auto
  show ?case
  proof (cases "bs = []")
    case True
    then show ?thesis using u Cons.prems(2) by simp
  next
    case False
    let ?s = "s\<lparr>buf_data := (buf_data s)[k := b], buf_size := int k + 1\<rparr>"
    have lt: "k < BLOCKSIZE" "int k + 1 \<noteq> 512" using Cons.prems(5) False by (cases bs; auto)+
    have "u = ?s" using u(1) Cons.prems(3,4) lt by (simp add: SCSIdisk_Receive_Data_def Let_def)
    then show ?thesis using Cons.IH [of u "Suc k"] u Cons.prems by auto
  qed
qed simp

lemma unat_1_eq: "unat (w :: u32) = Suc 0 \<Longrightarrow> w = 1"
  by (simp add: word_unat_eq_iff)

lemma unat_plus_one: "unat w + 1 < 2 ^ 32 \<Longrightarrow> unat (w + 1 :: u32) = unat w + 1"
  by (simp add: unat_word_ariths)

lemma unat_pred: "unat (w :: u32) = Suc n \<Longrightarrow> unat (w - 1) = n"
  using unatSuc [of "w - 1"] by (cases "w = 0") auto

text \<open>The disk keeps its size and stays usable; the blocks are as the function says.\<close>

definition disk_to :: "scsi \<Rightarrow> scsi \<Rightarrow> (nat \<Rightarrow> u8 list) \<Rightarrow> bool" where
  "disk_to s t B \<longleftrightarrow> scsi_ok t \<and> bus_target t = bus_target s \<and> disk_ok (host t) (dk t) \<and>
     disk_blocks (dk t) = disk_blocks (dk s) \<and> (\<forall>i < disk_blocks (dk s). block_at (host t) (dk t) i = B i)"

lemma block_at_cong: "shadow d = shadow d' \<Longrightarrow> dsk d = dsk d' \<Longrightarrow> block_at h d i = block_at h d' i"
  by (simp add: block_at_def cong: option.case_cong)

lemma disk_ok_cong: "shadow d = shadow d' \<Longrightarrow> dsk d = dsk d' \<Longrightarrow> d_size d = d_size d' \<Longrightarrow> disk_ok h d = disk_ok h d'"
  by (simp add: disk_ok_def disk_blocks_def cong: option.case_cong)

lemma storing_cong: "shadow d = shadow d' \<Longrightarrow> dsk d = dsk d' \<Longrightarrow> nWriteProtection s = nWriteProtection s' \<Longrightarrow> storing s d = storing s' d'"
  by (simp add: storing_def)

lemma next_block_keeps [simp]:
  "shadow (next_block d) = shadow d" "dsk (next_block d) = dsk d" "d_size (next_block d) = d_size d"
  "lba (next_block d) = lba d + 1" "blockcounter (next_block d) = blockcounter d - 1" "d_status (next_block d) = STAT_GOOD"
  "disk_blocks (next_block d) = disk_blocks d"
  by (simp_all add: next_block_def good_sense_def disk_blocks_def)

lemma write_sector_ok:
  assumes "scsi_ok s" "disk_ok (host s) (dk s)" "storing s (dk s)" "unat (lba (dk s)) < disk_blocks (dk s)"
  shows "\<exists>t. scsi_write_sector s = Inr t \<and>
    disk_to s t (\<lambda>i. if i = unat (lba (dk s)) then buf_data s else block_at (host s) (dk s) i) \<and> storing t (dk t) \<and>
    lba (dk t) = lba (dk s) + 1 \<and> blockcounter (dk t) = blockcounter (dk s) - 1 \<and> d_status (dk t) = STAT_GOOD \<and>
    buf_disk t = buf_disk s \<and> buf_limit t = 512 \<and> buf_size t = 0 \<and>
    bus_phase t = (if blockcounter (dk s) = 1 then PHASE_ST else bus_phase s)"
proof -
  let ?s = "s\<lparr>io_seq := io_seq s + 1\<rparr>"
  have len: "length (buf_data s) = BLOCKSIZE" "unat (bus_target s) < ESP_MAX_DEVS" "length (inquiry_bytes s) = 54"
    using assms(1) by (simp_all add: scsi_ok_def)
  have inside: "block_offset (dk s) < d_size (dk s)"
    using block_inside assms(2,4) by (simp add: disk_ok_def)
  have st: "storing ?s (dk s)" using assms(3) by (simp add: storing_def)
  obtain sh h where p: "put_block ?s (dk s) = Inr ((dk s)\<lparr>shadow := sh\<rparr>, h)"
    "disk_ok h ((dk s)\<lparr>shadow := sh\<rparr>)" "storing ?s ((dk s)\<lparr>shadow := sh\<rparr>)"
    "\<forall>i < disk_blocks (dk s). block_at h ((dk s)\<lparr>shadow := sh\<rparr>) i =
      (if i = unat (lba (dk s)) then buf_data ?s else block_at (host ?s) (dk s) i)"
    using put_block_at [of ?s "dk s"] st assms(2,4) len(1) by auto
  let ?d = "next_block ((dk s)\<lparr>shadow := sh\<rparr>)"
  let ?t1 = "set_cur ?d (s\<lparr>io_seq := io_seq s + 1, host := h, buf_limit := int BLOCKSIZE, buf_size := 0\<rparr>)"
  define t where "t = (if blockcounter (dk s) = 1 then set_phase PHASE_ST ?t1 else ?t1)"
  have w: "scsi_write_sector s = Inr t"
    using inside p(1) len(2) by (simp add: scsi_write_sector_def cur_def Let_def t_def)
  have tf: "host t = h" "bus_target t = bus_target s" "nWriteProtection t = nWriteProtection s"
    "buf_data t = buf_data s" "inquiry_bytes t = inquiry_bytes s" "buf_disk t = buf_disk s" "buf_limit t = 512" "buf_size t = 0"
    "bus_phase t = (if blockcounter (dk s) = 1 then PHASE_ST else bus_phase s)"
    by (simp_all add: t_def)
  have td: "disks t (unat (bus_target s)) = ?d" by (simp add: t_def set_cur_def)
  have "disk_ok h ?d" using p(2) by (subst disk_ok_cong [of _ "(dk s)\<lparr>shadow := sh\<rparr>"]) simp_all
  moreover have "block_at h ?d i = block_at h ((dk s)\<lparr>shadow := sh\<rparr>) i" for i by (rule block_at_cong) simp_all
  moreover have "storing t ?d" using p(3) by (subst storing_cong [of _ "(dk s)\<lparr>shadow := sh\<rparr>" _ ?s]) (simp_all add: tf)
  moreover have "disk_blocks ?d = disk_blocks (dk s)" by (simp add: disk_blocks_def)
  ultimately show ?thesis
    using w p(4) len by (intro exI [of _ t]) (auto simp: disk_to_def tf td scsi_ok_def)
qed

lemma recv_blocks:
  "scsi_ok s \<Longrightarrow> disk_ok (host s) (dk s) \<Longrightarrow> storing s (dk s) \<Longrightarrow> buf_disk s \<Longrightarrow> buf_limit s = 512 \<Longrightarrow> buf_size s = 0 \<Longrightarrow>
   bus_phase s = PHASE_DO \<Longrightarrow> length bs = BLOCKSIZE * Suc n \<Longrightarrow> unat (blockcounter (dk s)) = Suc n \<Longrightarrow>
   unat (lba (dk s)) = a \<Longrightarrow> a + Suc n \<le> disk_blocks (dk s) \<Longrightarrow>
   \<exists>t. receives bs s t \<and> bus_phase t = PHASE_ST \<and> d_status (dk t) = STAT_GOOD \<and>
     disk_to s t (\<lambda>i. if a \<le> i \<and> i < a + Suc n
       then take BLOCKSIZE (drop (BLOCKSIZE * (i - a)) bs) else block_at (host s) (dk s) i)"
proof (induction n arbitrary: s bs a)
  case 0
  let ?s = "s\<lparr>buf_data := bs, buf_size := 512\<rparr>"
  have ok: "scsi_ok ?s" using 0 by (simp add: scsi_ok_def)
  have st: "storing ?s (dk ?s)" using 0 by (simp add: storing_def)
  have b1: "blockcounter (dk s) = 1" using 0(9) unat_1_eq by blast
  have "each SCSIdisk_Receive_Data bs s = scsi_write_sector ?s"
    using recv_block [of s 0 bs] 0 by (cases bs) (auto simp: scsi_ok_def)
  moreover have "each SCSIdisk_Receive_Data bs s = Inr t \<Longrightarrow> receives bs s t" for t
    using receives_block [of bs s t 0] 0 by simp
  ultimately show ?case
    using write_sector_ok [of ?s, OF ok _ st] 0 b1 by (auto simp: disk_to_def)
next
  case (Suc n)
  define bs1 where "bs1 = take BLOCKSIZE bs"
  define bs2 where "bs2 = drop BLOCKSIZE bs"
  have split: "bs = bs1 @ bs2" "length bs1 = BLOCKSIZE" "length bs2 = BLOCKSIZE * Suc n"
    using Suc.prems(8) by (simp_all add: bs1_def bs2_def)
  let ?s = "s\<lparr>buf_data := bs1, buf_size := 512\<rparr>"
  have ok: "scsi_ok ?s" using Suc.prems(1) split(2) by (simp add: scsi_ok_def)
  have st: "storing ?s (dk ?s)" using Suc.prems(3) by (simp add: storing_def)
  have b1: "blockcounter (dk s) \<noteq> 1" using Suc.prems(9) by auto
  have r: "each SCSIdisk_Receive_Data bs1 s = scsi_write_sector ?s"
    using recv_block [of s 0 bs1] Suc.prems split by (cases bs1) auto
  obtain t where t: "scsi_write_sector ?s = Inr t" "disk_to ?s t (\<lambda>i. if i = unat (lba (dk ?s)) then buf_data ?s else block_at (host ?s) (dk ?s) i)"
    "storing t (dk t)" "lba (dk t) = lba (dk s) + 1" "blockcounter (dk t) = blockcounter (dk s) - 1"
    "buf_disk t" "buf_limit t = 512" "buf_size t = 0" "bus_phase t = PHASE_DO"
    using write_sector_ok [of ?s, OF ok _ st] Suc.prems b1 by auto
  have d: "scsi_ok t" "bus_target t = bus_target s" "disk_ok (host t) (dk t)" "disk_blocks (dk t) = disk_blocks (dk s)"
    "\<And>i. i < disk_blocks (dk s) \<Longrightarrow> block_at (host t) (dk t) i = (if i = a then bs1 else block_at (host s) (dk s) i)"
    using t(2) using Suc.prems(10) by (auto simp: disk_to_def)
  have "disk_blocks (dk s) < 2 ^ 32" using Suc.prems(2) by (simp add: disk_ok_def)
  then have "a + 1 < 2 ^ 32" using Suc.prems(11) by simp
  then have la: "unat (lba (dk t)) = a + 1"
    using unat_plus_one [of "lba (dk s)"] Suc.prems(10) by (simp add: t(4))
  have bc: "unat (blockcounter (dk t)) = Suc n"
    using unat_pred [OF Suc.prems(9)] by (simp add: t(5))
  obtain u where u: "receives bs2 t u" "bus_phase u = PHASE_ST" "d_status (dk u) = STAT_GOOD"
    "disk_to t u (\<lambda>i. if a + 1 \<le> i \<and> i < a + 1 + Suc n then take BLOCKSIZE (drop (BLOCKSIZE * (i - (a + 1))) bs2)
       else block_at (host t) (dk t) i)"
    using Suc.IH [OF d(1) d(3) t(3) t(6-9) split(3) bc la] Suc.prems(11) d(4) by auto
  have tail: "take BLOCKSIZE (drop (BLOCKSIZE * (i - a)) bs) = take BLOCKSIZE (drop (BLOCKSIZE * (i - (a + 1))) bs2)" if "a + 1 \<le> i" for i
  proof -
    have "BLOCKSIZE * (i - a) = BLOCKSIZE * (i - (a + 1)) + BLOCKSIZE" using that by simp
    then show ?thesis using split by simp
  qed
  have head: "take BLOCKSIZE bs = bs1" by (simp add: bs1_def)
  have e: "receives bs s u"
    using receives_block [of bs1 s t 0] r t(1) u(1) split(2) Suc.prems(5-7) by (auto simp: split(1) receives_append)
  have "block_at (host u) (dk u) i = (if a \<le> i \<and> i < a + Suc (Suc n)
      then take BLOCKSIZE (drop (BLOCKSIZE * (i - a)) bs) else block_at (host s) (dk s) i)" if "i < disk_blocks (dk s)" for i
    using u(4) d(4,5) that tail [of i] head by (cases "i = a") (auto simp: disk_to_def)
  then have "disk_to s u (\<lambda>i. if a \<le> i \<and> i < a + Suc (Suc n)
      then take BLOCKSIZE (drop (BLOCKSIZE * (i - a)) bs) else block_at (host s) (dk s) i)"
    using u(4) d(2,4) unfolding disk_to_def by metis
  with e u(2,3) show ?case by blast
qed

section \<open>Reads\<close>

lemma read_sector_ok:
  assumes "scsi_ok s" "disk_ok (host s) (dk s)" "unat (lba (dk s)) < disk_blocks (dk s)" "blockcounter (dk s) \<noteq> 0"
  shows "\<exists>t. scsi_read_sector s = Inr t \<and> disk_to s t (block_at (host s) (dk s)) \<and>
    buf_data t = block_at (host s) (dk s) (unat (lba (dk s))) \<and> buf_limit t = 512 \<and> buf_size t = 512 \<and>
    buf_disk t = buf_disk s \<and> lba (dk t) = lba (dk s) + 1 \<and> blockcounter (dk t) = blockcounter (dk s) - 1 \<and>
    d_status (dk t) = STAT_GOOD \<and> bus_phase t = bus_phase s"
proof -
  have len: "length (buf_data s) = BLOCKSIZE" "unat (bus_target s) < ESP_MAX_DEVS" "length (inquiry_bytes s) = 54"
    using assms(1) by (simp_all add: scsi_ok_def)
  have inside: "block_offset (dk s) < d_size (dk s)"
    using block_inside assms(2,3) by (simp add: disk_ok_def)
  let ?b = "block_at (host s) (dk s) (unat (lba (dk s)))"
  define t where "t = set_cur (next_block (dk s)) (s\<lparr>buf_data := ?b, buf_limit := 512, buf_size := 512, io_seq := io_seq s + 1\<rparr>)"
  have r: "scsi_read_sector s = Inr t"
    using inside get_block_at [OF assms(2,3) len(1)] assms(4) len(2) by (simp add: scsi_read_sector_def cur_def t_def)
  have tf: "host t = host s" "bus_target t = bus_target s" "buf_data t = ?b" "buf_limit t = 512" "buf_size t = 512"
    "buf_disk t = buf_disk s" "bus_phase t = bus_phase s" "inquiry_bytes t = inquiry_bytes s"
    by (simp_all add: t_def)
  have td: "disks t (unat (bus_target s)) = next_block (dk s)" by (simp add: t_def set_cur_def)
  have "disk_ok (host s) (next_block (dk s))" using assms(2) by (subst disk_ok_cong [of _ "dk s"]) simp_all
  moreover have "block_at (host s) (next_block (dk s)) i = block_at (host s) (dk s) i" for i by (rule block_at_cong) simp_all
  ultimately show ?thesis
    using r len block_at_length [OF assms(2,3)] by (intro exI [of _ t]) (simp add: disk_to_def tf td scsi_ok_def)
qed

text \<open>A data-in phase hands out the buffer and asks for the next block with the last byte.\<close>

lemma send_block:
  "length (buf_data s) = BLOCKSIZE \<Longrightarrow> buf_disk s \<Longrightarrow> buf_limit s = 512 \<Longrightarrow> buf_size s = int (Suc k) \<Longrightarrow> Suc k \<le> BLOCKSIZE \<Longrightarrow>
    send_data (Suc k) s = bnd (scsi_read_sector (s\<lparr>buf_size := 0\<rparr>)) (\<lambda>t. Inr (drop (BLOCKSIZE - Suc k) (buf_data s), t))"
proof (induction k arbitrary: s)
  case 0
  then have "SCSIdisk_Send_Data s = bnd (scsi_read_sector (s\<lparr>buf_size := 0\<rparr>)) (\<lambda>t. Inr (buf_data s ! 511, t))"
    by (simp add: SCSIdisk_Send_Data_def Let_def)
  moreover have "drop 511 (buf_data s) = [buf_data s ! 511]"
    using 0(1) Cons_nth_drop_Suc [of 511 "buf_data s"] by simp
  ultimately show ?case by (simp add: bnd_assoc)
next
  case (Suc k)
  let ?s = "s\<lparr>buf_size := int (Suc k)\<rparr>"
  have i: "BLOCKSIZE - Suc (Suc k) < BLOCKSIZE" "nat (512 - int (Suc (Suc k))) = BLOCKSIZE - Suc (Suc k)" using Suc.prems(5) by linarith+
  have b: "SCSIdisk_Send_Data s = Inr (buf_data s ! (BLOCKSIZE - Suc (Suc k)), ?s)"
    using Suc.prems i by (simp add: SCSIdisk_Send_Data_def Let_def)
  have d: "drop (BLOCKSIZE - Suc (Suc k)) (buf_data s) = buf_data s ! (BLOCKSIZE - Suc (Suc k)) # drop (BLOCKSIZE - Suc k) (buf_data s)"
  proof -
    have e: "Suc (BLOCKSIZE - Suc (Suc k)) = BLOCKSIZE - Suc k" using Suc.prems(5) by linarith
    show ?thesis
      using Cons_nth_drop_Suc [of "BLOCKSIZE - Suc (Suc k)" "buf_data s"] Suc.prems(1) i(1) unfolding e by simp
  qed
  have n: "send_data (Suc k) ?s = bnd (scsi_read_sector (?s\<lparr>buf_size := 0\<rparr>)) (\<lambda>t. Inr (drop (BLOCKSIZE - Suc k) (buf_data ?s), t))"
    using Suc.prems by (intro Suc.IH) simp_all
  show ?case
    unfolding send_data.simps(2) [of "Suc k" s] b d bnd_Inr prod.case n by (simp add: bnd_assoc)
qed

lemma send_blocks:
  "scsi_ok s \<Longrightarrow> disk_ok (host s) (dk s) \<Longrightarrow> buf_disk s \<Longrightarrow> buf_limit s = 512 \<Longrightarrow> buf_size s = 512 \<Longrightarrow> bus_phase s = PHASE_DI \<Longrightarrow>
   d_status (dk s) = STAT_GOOD \<Longrightarrow>
   unat (blockcounter (dk s)) = n \<Longrightarrow> unat (lba (dk s)) = a \<Longrightarrow> a + n \<le> disk_blocks (dk s) \<Longrightarrow>
   \<exists>t. send_data (BLOCKSIZE * Suc n) s = Inr (buf_data s @ concat (map (block_at (host s) (dk s)) [a ..< a + n]), t) \<and>
     bus_phase t = PHASE_ST \<and> d_status (dk t) = STAT_GOOD \<and> disk_to s t (block_at (host s) (dk s))"
proof (induction n arbitrary: s a)
  case 0
  let ?s = "s\<lparr>buf_size := 0\<rparr>"
  have len: "length (buf_data s) = BLOCKSIZE" "unat (bus_target s) < ESP_MAX_DEVS" using 0 by (simp_all add: scsi_ok_def)
  have z: "blockcounter (dk s) = 0" using 0 by (simp add: unat_eq_0)
  have "scsi_read_sector ?s = Inr (set_phase PHASE_ST ?s)"
    using len(2) z by (simp add: scsi_read_sector_def cur_def)
  then have "send_data (Suc 511) s = Inr (buf_data s, set_phase PHASE_ST ?s)"
    using send_block [OF len(1) 0(3,4), of 511] 0(5) by simp
  then show ?case using 0 by (intro exI [of _ "set_phase PHASE_ST ?s"]) (simp add: disk_to_def scsi_ok_def)
next
  case (Suc n)
  let ?s = "s\<lparr>buf_size := 0\<rparr>"
  have len: "length (buf_data s) = BLOCKSIZE" using Suc.prems(1) by (simp add: scsi_ok_def)
  have ok: "scsi_ok ?s" "disk_ok (host ?s) (dk ?s)" using Suc.prems(1,2) by (simp_all add: scsi_ok_def)
  have bc: "blockcounter (dk s) \<noteq> 0" using Suc.prems(8) by auto
  obtain t where t: "scsi_read_sector ?s = Inr t" "disk_to ?s t (block_at (host ?s) (dk ?s))"
    "buf_data t = block_at (host s) (dk s) a" "buf_limit t = 512" "buf_size t = 512" "buf_disk t"
    "lba (dk t) = lba (dk s) + 1" "blockcounter (dk t) = blockcounter (dk s) - 1" "d_status (dk t) = STAT_GOOD" "bus_phase t = PHASE_DI"
    using read_sector_ok [OF ok] Suc.prems bc by auto
  have d: "scsi_ok t" "bus_target t = bus_target s" "disk_ok (host t) (dk t)" "disk_blocks (dk t) = disk_blocks (dk s)"
    "\<And>i. i < disk_blocks (dk s) \<Longrightarrow> block_at (host t) (dk t) i = block_at (host s) (dk s) i"
    using t(2) by (auto simp: disk_to_def)
  have "disk_blocks (dk s) < 2 ^ 32" using Suc.prems(2) by (simp add: disk_ok_def)
  then have la: "unat (lba (dk t)) = a + 1"
    using unat_plus_one [of "lba (dk s)"] Suc.prems(9,10) by (simp add: t(7))
  have cn: "unat (blockcounter (dk t)) = n" using unat_pred [OF Suc.prems(8)] by (simp add: t(8))
  obtain u where u: "send_data (BLOCKSIZE * Suc n) t = Inr (buf_data t @ concat (map (block_at (host t) (dk t)) [a + 1 ..< a + 1 + n]), u)"
    "bus_phase u = PHASE_ST" "d_status (dk u) = STAT_GOOD" "disk_to t u (block_at (host t) (dk t))"
    using Suc.IH [OF d(1,3) t(6,4,5,10,9) cn la] Suc.prems(10) d(4) by auto
  have one: "send_data (Suc 511) s = Inr (buf_data s, t)"
    using send_block [OF len Suc.prems(3,4), of 511] Suc.prems(5) t(1) by simp
  have up: "[a ..< a + Suc n] = a # [a + 1 ..< a + 1 + n]" using upt_conv_Cons [of a "a + Suc n"] by simp
  have m: "map (block_at (host t) (dk t)) [a + 1 ..< a + 1 + n] = map (block_at (host s) (dk s)) [a + 1 ..< a + 1 + n]"
    using d(5) Suc.prems(10) by (intro map_cong) auto
  have "send_data (BLOCKSIZE * Suc (Suc n)) s = send_data (Suc 511 + BLOCKSIZE * Suc n) s" by simp
  also have "\<dots> = Inr (buf_data s @ concat (map (block_at (host s) (dk s)) [a ..< a + Suc n]), u)"
    unfolding send_data_add one up by (simp only: bnd_Inr prod.case u(1) m t(3) list.map concat.simps append_assoc)
  finally show ?case using u d by (auto simp: disk_to_def)
qed

lemma concat_blocks:
  "length bs = BLOCKSIZE * n \<Longrightarrow> concat (map (\<lambda>i. take BLOCKSIZE (drop (BLOCKSIZE * (i - a)) bs)) [a ..< a + n]) = bs"
proof (induction n arbitrary: a bs)
  case (Suc n)
  have up: "[a ..< a + Suc n] = a # map Suc [a ..< a + n]" using upt_conv_Cons [of a "a + Suc n"] by (simp add: map_Suc_upt)
  have "take BLOCKSIZE (drop (BLOCKSIZE * (Suc i - a)) bs) = take BLOCKSIZE (drop (BLOCKSIZE * (i - a)) (drop BLOCKSIZE bs))" if "a \<le> i" for i
    using that by (simp add: Suc_diff_le add.commute)
  then have "concat (map (\<lambda>i. take BLOCKSIZE (drop (BLOCKSIZE * (i - a)) bs)) (map Suc [a ..< a + n])) =
      concat (map (\<lambda>i. take BLOCKSIZE (drop (BLOCKSIZE * (i - a)) (drop BLOCKSIZE bs))) [a ..< a + n])"
    unfolding map_map o_def by (intro arg_cong [of _ _ concat] map_cong) auto
  also have "\<dots> = drop BLOCKSIZE bs" using Suc.prems by (intro Suc.IH) simp
  finally have "concat (map (\<lambda>i. take BLOCKSIZE (drop (BLOCKSIZE * (i - a)) bs)) (map Suc [a ..< a + n])) = drop BLOCKSIZE bs" .
  then show ?case unfolding up list.map concat.simps by simp
qed simp

section \<open>Commands of the initiator\<close>

text \<open>A command block that addresses \<open>n\<close> blocks from \<open>a\<close>; the identify messages for unit 0.\<close>

definition addresses :: "(nat \<Rightarrow> u8) \<Rightarrow> nat \<Rightarrow> nat \<Rightarrow> bool" where
  "addresses cdb a n \<longleftrightarrow> SCSI_GetOffset (cdb 0) cdb = of_nat a \<and> a < 2 ^ 32 \<and> SCSI_GetCount (cdb 0) cdb = int n \<and> n < 2 ^ 32"

definition unit0 :: "u8 \<Rightarrow> bool" where
  "unit0 identify \<longleftrightarrow> identify = 0x80 \<or> identify = 0xC0"

definition is_write :: "(nat \<Rightarrow> u8) \<Rightarrow> bool" where
  "is_write cdb \<longleftrightarrow> cdb 0 = 0x0A \<or> cdb 0 = 0x2A"

definition is_read :: "(nat \<Rightarrow> u8) \<Rightarrow> bool" where
  "is_read cdb \<longleftrightarrow> cdb 0 = 0x08 \<or> cdb 0 = 0x28"

text \<open>The disk that takes a command for blocks.\<close>

definition addressed :: "(nat \<Rightarrow> u8) \<Rightarrow> SCSIdisk \<Rightarrow> SCSIdisk" where
  "addressed cdb d = d\<lparr>d_lun := 0, lastlba := lba d, lba := ucast (SCSI_GetOffset (cdb 0) cdb),
     blockcounter := word_of_int (SCSI_GetCount (cdb 0) cdb)\<rparr>"

lemma addressed_keeps [simp]:
  "shadow (addressed cdb d) = shadow d" "dsk (addressed cdb d) = dsk d" "d_size (addressed cdb d) = d_size d"
  "readonly (addressed cdb d) = readonly d" "disk_blocks (addressed cdb d) = disk_blocks d" "d_lun (addressed cdb d) = 0"
  by (simp_all add: addressed_def disk_blocks_def)

lemma addressed_at:
  assumes "addresses cdb a n"
  shows "unat (lba (addressed cdb d)) = a" "unat (blockcounter (addressed cdb d)) = n"
proof -
  have "SCSI_GetOffset (cdb 0) cdb = of_nat a" "a < 2 ^ 32" "SCSI_GetCount (cdb 0) cdb = int n" "n < 2 ^ 32"
    using assms by (simp_all add: addresses_def)
  then show "unat (lba (addressed cdb d)) = a" "unat (blockcounter (addressed cdb d)) = n"
    by (simp_all add: addressed_def unsigned_ucast_eq unsigned_of_nat take_bit_nat_eq_self)
qed

lemma receive_command:
  assumes "scsi_ok s" "unit0 identify"
  shows "SCSIdisk_Receive_Command cdb identify s = SCSI_Emulate_Command cdb (set_cur ((dk s)\<lparr>d_lun := 0\<rparr>) s)"
  using assms by (auto simp: SCSIdisk_Receive_Command_def cur_ok unit0_def)

lemma set_cur_twice [simp]: "set_cur d (set_cur d' s) = set_cur d s"
  by (simp add: set_cur_def)

lemma dk_set_cur [simp]: "disks (set_cur d s) (unat (bus_target s)) = d"
  by (simp add: set_cur_def)

lemma write_command:
  assumes "scsi_ok s" "unit0 identify" "is_write cdb" "\<not> readonly (dk s)"
  shows "\<exists>t. SCSIdisk_Receive_Command cdb identify s = Inr t \<and> scsi_ok t \<and> bus_target t = bus_target s \<and>
    host t = host s \<and> nWriteProtection t = nWriteProtection s \<and> buf_disk t \<and> buf_size t = 0 \<and> buf_limit t = 512 \<and>
    bus_phase t = PHASE_DO \<and> dk t = (addressed cdb (dk s))\<lparr>d_message := MSG_COMPLETE\<rparr>"
proof -
  have tg: "unat (bus_target s) < ESP_MAX_DEVS" using assms(1) by (simp add: scsi_ok_def)
  let ?s1 = "set_cur ((dk s)\<lparr>d_lun := 0\<rparr>) s"
  define t1 where "t1 = set_phase PHASE_DO ((set_cur (addressed cdb (dk s)) s)\<lparr>buf_disk := True, buf_size := 0, buf_limit := int BLOCKSIZE\<rparr>)"
  have w: "SCSI_WriteSector cdb ?s1 = Inr t1"
    using tg assms(4) by (simp add: SCSI_WriteSector_def t1_def addressed_def Let_def)
  have c: "cur t1 = Inr (addressed cdb (dk s))" using tg by (simp add: t1_def cur_def set_cur_def set_phase_def)
  let ?t = "set_cur ((addressed cdb (dk s))\<lparr>d_message := MSG_COMPLETE\<rparr>) t1"
  have "SCSIdisk_Receive_Command cdb identify s = Inr ?t"
    using receive_command [OF assms(1,2)] w c assms(3) tg
    by (auto simp: SCSI_Emulate_Command_def is_write_def Let_def complete_def)
  moreover have "bus_target t1 = bus_target s" by (simp add: t1_def)
  ultimately show ?thesis using assms(1)
    by (intro exI [of _ ?t]) (simp add: t1_def scsi_ok_def set_cur_def set_phase_def)
qed

lemma read_command:
  assumes "scsi_ok s" "unit0 identify" "is_read cdb"
  shows "SCSIdisk_Receive_Command cdb identify s =
    bnd (scsi_read_sector (set_phase PHASE_DI ((set_cur (addressed cdb (dk s)) s)\<lparr>buf_disk := True, buf_size := 0\<rparr>))) complete"
proof -
  have tg: "unat (bus_target s) < ESP_MAX_DEVS" using assms(1) by (simp add: scsi_ok_def)
  let ?s1 = "set_cur ((dk s)\<lparr>d_lun := 0\<rparr>) s"
  have "SCSI_ReadSector cdb ?s1 =
      scsi_read_sector (set_phase PHASE_DI ((set_cur (addressed cdb (dk s)) s)\<lparr>buf_disk := True, buf_size := 0\<rparr>))"
    using tg by (simp add: SCSI_ReadSector_def addressed_def Let_def)
  then show ?thesis
    using receive_command [OF assms(1,2)] assms(3) tg by (auto simp: SCSI_Emulate_Command_def is_read_def Let_def)
qed

lemma complete_ok:
  assumes "scsi_ok s"
  shows "complete s = Inr (set_cur ((dk s)\<lparr>d_message := MSG_COMPLETE\<rparr>) s)"
  using assms by (simp add: complete_def cur_ok)

text \<open>A whole read command: its blocks, in order.\<close>

lemma read_blocks:
  assumes "scsi_ok s" "disk_ok (host s) (dk s)" "unit0 identify" "is_read cdb" "addresses cdb a (Suc n)"
    "a + Suc n \<le> disk_blocks (dk s)"
  shows "\<exists>u v. SCSIdisk_Receive_Command cdb identify s = Inr u \<and> bus_phase u = PHASE_DI \<and>
    send_data (BLOCKSIZE * Suc n) u = Inr (concat (map (block_at (host s) (dk s)) [a ..< a + Suc n]), v) \<and>
    sends (concat (map (block_at (host s) (dk s)) [a ..< a + Suc n])) u v \<and>
    bus_phase v = PHASE_ST \<and> d_status (dk v) = STAT_GOOD \<and> disk_to s v (block_at (host s) (dk s))"
proof -
  have tg: "unat (bus_target s) < ESP_MAX_DEVS" using assms(1) by (simp add: scsi_ok_def)
  define s1 where "s1 = set_phase PHASE_DI ((set_cur (addressed cdb (dk s)) s)\<lparr>buf_disk := True, buf_size := 0\<rparr>)"
  have s1: "scsi_ok s1" "host s1 = host s" "bus_target s1 = bus_target s" "buf_disk s1" "bus_phase s1 = PHASE_DI"
    using assms(1) by (simp_all add: s1_def scsi_ok_def)
  have d1: "disks s1 (unat (bus_target s)) = addressed cdb (dk s)" by (simp add: s1_def set_cur_def)
  have ok: "disk_ok (host s) (addressed cdb (dk s))" using assms(2) by (subst disk_ok_cong [of _ "dk s"]) simp_all
  have B: "block_at (host s) (addressed cdb (dk s)) = block_at (host s) (dk s)" by (intro ext block_at_cong) simp_all
  have bc: "blockcounter (addressed cdb (dk s)) \<noteq> 0" using addressed_at(2) [OF assms(5), of "dk s"] by auto
  have lb: "unat (lba (dk s1)) < disk_blocks (dk s1)" "blockcounter (dk s1) \<noteq> 0" "disk_ok (host s1) (dk s1)"
    using ok bc addressed_at(1) [OF assms(5)] assms(6) by (simp_all add: s1(2,3) d1)
  obtain t where t: "scsi_read_sector s1 = Inr t" "disk_to s1 t (block_at (host s1) (dk s1))"
    "buf_data t = block_at (host s1) (dk s1) (unat (lba (dk s1)))" "buf_limit t = 512" "buf_size t = 512" "buf_disk t"
    "lba (dk t) = lba (dk s1) + 1" "blockcounter (dk t) = blockcounter (dk s1) - 1" "d_status (dk t) = STAT_GOOD" "bus_phase t = PHASE_DI"
    using read_sector_ok [OF s1(1) lb(3,1,2)] s1(4,5) by auto
  have tt: "scsi_ok t" "bus_target t = bus_target s" "disk_ok (host t) (dk t)" "disk_blocks (dk t) = disk_blocks (dk s)"
    "\<And>i. i < disk_blocks (dk s) \<Longrightarrow> block_at (host t) (dk t) i = block_at (host s) (dk s) i"
    using t(2) by (auto simp: disk_to_def s1 d1 B)
  define u where "u = set_cur ((dk t)\<lparr>d_message := MSG_COMPLETE\<rparr>) t"
  have r: "SCSIdisk_Receive_Command cdb identify s = Inr u"
    using read_command [OF assms(1,3,4)] t(1) complete_ok [OF tt(1)] by (simp add: s1_def [symmetric] u_def)
  have uf: "scsi_ok u" "bus_target u = bus_target s" "host u = host t" "buf_disk u" "buf_limit u = 512" "buf_size u = 512"
    "bus_phase u = PHASE_DI" "buf_data u = block_at (host s) (dk s) a"
    using tt t addressed_at(1) [OF assms(5)] by (simp_all add: u_def s1 d1 B)
  have ud: "disks u (unat (bus_target s)) = (dk t)\<lparr>d_message := MSG_COMPLETE\<rparr>" by (simp add: u_def set_cur_def tt(2))
  have uok: "disk_ok (host u) (dk u)" using tt(3) by (subst disk_ok_cong [of _ "dk t"]) (simp_all add: uf ud)
  have uB: "block_at (host u) (dk u) i = block_at (host t) (dk t) i" for i by (subst block_at_cong [of _ "dk t"]) (simp_all add: uf ud)
  have ub: "disk_blocks (dk u) = disk_blocks (dk s)" using tt(2,4) by (simp add: uf ud disk_blocks_def)
  have un: "unat (blockcounter (dk u)) = n"
    using unat_pred [of "blockcounter (addressed cdb (dk s))" n] addressed_at(2) [OF assms(5), of "dk s"]
    by (simp add: uf ud t(8) s1 d1)
  have "disk_blocks (dk s) < 2 ^ 32" using assms(2) by (simp add: disk_ok_def)
  then have ua: "unat (lba (dk u)) = a + 1"
    using unat_plus_one [of "lba (addressed cdb (dk s))"] addressed_at(1) [OF assms(5), of "dk s"] assms(6)
    by (simp add: uf ud t(7) s1 d1)
  obtain v where v: "send_data (BLOCKSIZE * Suc n) u = Inr (buf_data u @ concat (map (block_at (host u) (dk u)) [a + 1 ..< a + 1 + n]), v)"
    "bus_phase v = PHASE_ST" "d_status (dk v) = STAT_GOOD" "disk_to u v (block_at (host u) (dk u))"
    using send_blocks [OF uf(1) uok uf(4-7) _ un ua] assms(6) ub t(9) tt(2) by (auto simp: uf ud)
  have up: "[a ..< a + Suc n] = a # [a + 1 ..< a + 1 + n]" using upt_conv_Cons [of a "a + Suc n"] by simp
  have m: "map (block_at (host u) (dk u)) [a + 1 ..< a + 1 + n] = map (block_at (host s) (dk s)) [a + 1 ..< a + 1 + n]"
    using tt(5) assms(6) uB by (intro map_cong) auto
  have "disk_to s v (block_at (host s) (dk s))"
    using v(4) tt(5) uB ub uf by (auto simp: disk_to_def)
  moreover have "send_data (BLOCKSIZE * Suc n) u = Inr (concat (map (block_at (host s) (dk s)) [a ..< a + Suc n]), v)"
    unfolding v(1) m up by (simp only: uf(8) list.map concat.simps)
  ultimately show ?thesis using r uf(4,5,7) v(2,3) sends_data by blast
qed

text \<open>A whole write command.\<close>

lemma write_blocks:
  assumes "scsi_ok s" "disk_ok (host s) (dk s)" "storing s (dk s)" "\<not> readonly (dk s)" "unit0 identify" "is_write cdb"
    "addresses cdb a (Suc n)" "a + Suc n \<le> disk_blocks (dk s)" "length bs = BLOCKSIZE * Suc n"
  shows "\<exists>t0 t. SCSIdisk_Receive_Command cdb identify s = Inr t0 \<and> bus_phase t0 = PHASE_DO \<and>
    receives bs t0 t \<and> bus_phase t = PHASE_ST \<and> d_status (dk t) = STAT_GOOD \<and>
    disk_to s t (\<lambda>i. if a \<le> i \<and> i < a + Suc n then take BLOCKSIZE (drop (BLOCKSIZE * (i - a)) bs) else block_at (host s) (dk s) i)"
proof -
  obtain t0 where t0: "SCSIdisk_Receive_Command cdb identify s = Inr t0" "scsi_ok t0" "bus_target t0 = bus_target s"
    "host t0 = host s" "nWriteProtection t0 = nWriteProtection s" "buf_disk t0" "buf_size t0 = 0" "buf_limit t0 = 512"
    "bus_phase t0 = PHASE_DO" "dk t0 = (addressed cdb (dk s))\<lparr>d_message := MSG_COMPLETE\<rparr>"
    using write_command [OF assms(1,5,6,4)] by blast
  let ?d = "(addressed cdb (dk s))\<lparr>d_message := MSG_COMPLETE\<rparr>"
  have dk0: "disks t0 (unat (bus_target s)) = ?d" using t0(3,10) by simp
  have ok: "disk_ok (host t0) (dk t0)" using assms(2) by (subst disk_ok_cong [of _ "dk s"]) (simp_all add: t0(3,4) dk0)
  have st: "storing t0 (dk t0)" using assms(3) by (subst storing_cong [of _ "dk s" _ s]) (simp_all add: t0(3,5) dk0)
  have bl: "disk_blocks (dk t0) = disk_blocks (dk s)" by (simp add: t0(3) dk0 disk_blocks_def)
  have B: "block_at (host t0) (dk t0) i = block_at (host s) (dk s) i" for i
    by (subst block_at_cong [of _ "dk s"]) (simp_all add: t0(3,4) dk0)
  have at: "unat (blockcounter (dk t0)) = Suc n" "unat (lba (dk t0)) = a"
    using addressed_at [OF assms(7), of "dk s"] by (simp_all add: t0(3) dk0)
  obtain t where t: "receives bs t0 t" "bus_phase t = PHASE_ST" "d_status (dk t) = STAT_GOOD"
    "disk_to t0 t (\<lambda>i. if a \<le> i \<and> i < a + Suc n then take BLOCKSIZE (drop (BLOCKSIZE * (i - a)) bs) else block_at (host t0) (dk t0) i)"
    using recv_blocks [OF t0(2) ok st t0(6,8,7,9) assms(9) at(1,2)] assms(8) bl by auto
  have "disk_to s t (\<lambda>i. if a \<le> i \<and> i < a + Suc n then take BLOCKSIZE (drop (BLOCKSIZE * (i - a)) bs) else block_at (host s) (dk s) i)"
    using t(4) bl B t0(3) by (auto simp: disk_to_def)
  then show ?thesis using t0(1,9) t(1-3) by blast
qed

section \<open>Geometry\<close>

lemma geometry_product:
  assumes "h \<in> {1 .. 16}" "s \<in> {16 .. 63}"
  shows "unat (of_nat s * of_nat h :: u32) = s * h"
proof -
  have "s * h \<le> 63 * 16" using assms by (intro mult_mono) auto
  then show ?thesis by (simp add: unat_word_ariths unsigned_of_nat take_bit_nat_eq_self flip: of_nat_mult)
qed

lemma in_pairs: "(h, k) \<in> set [(h, s). h \<leftarrow> xs, s \<leftarrow> ys] \<Longrightarrow> h \<in> set xs \<and> k \<in> set ys"
  by auto

lemma in_tracks: "(h, k) \<in> set tracks \<Longrightarrow> \<exists>h' \<in> {1 .. 16}. \<exists>k' \<in> {16 .. 63}. h = of_nat h' \<and> k = of_nat k'"
proof -
  assume "(h, k) \<in> set tracks"
  then have "h \<in> of_nat ` {1 ..< 17}" "k \<in> of_nat ` {16 ..< 64}"
    unfolding tracks_def by (auto dest: in_pairs simp only: set_rev set_map set_upt)
  moreover have "{1 ..< 17} = {1 .. 16 :: nat}" "{16 ..< 64} = {16 .. 63 :: nat}" by auto
  ultimately show ?thesis by (simp only: image_iff bex_simps)
qed

lemma geometry_cases:
  "(\<exists>h \<in> {1 .. 16}. \<exists>k \<in> {16 .. 63}. SCSI_GuessGeometry w = (w div (of_nat k * of_nat h), of_nat h, of_nat k) \<and>
      unat w mod (k * h) = 0) \<or>
   SCSI_GuessGeometry w = (if w mod (63 * 16) \<noteq> 0 then w div (63 * 16) + 1 else w div (63 * 16), 16, 63)"
proof (cases "List.find (\<lambda>(h, s). w mod (s * h) = 0) tracks")
  case None
  then show ?thesis by (simp add: SCSI_GuessGeometry_def Let_def)
next
  case (Some p)
  obtain h k where p: "p = (h, k)" by (cases p)
  obtain i where i: "i < length tracks" "case tracks ! i of (h, s) \<Rightarrow> w mod (s * h) = 0" "p = tracks ! i"
    by (rule exE [OF find_Some_iff [THEN iffD1, OF Some]], elim conjE) (rule that)
  have ht: "(h, k) \<in> set tracks" using i(3) p nth_mem [OF i(1)] by simp
  have "w mod (k * h) = 0" using i(2) by (simp only: i(3) [symmetric] p prod.case)
  obtain h' k' where hk: "h = of_nat h'" "k = of_nat k'" "h' \<in> {1 .. 16}" "k' \<in> {16 .. 63}"
    using in_tracks [OF ht] by blast
  have "unat (w mod (k * h)) = 0" using \<open>w mod (k * h) = 0\<close> by (simp only: unsigned_0)
  then have "unat w mod (k' * h') = 0"
    unfolding unat_mod hk geometry_product [OF hk(3,4)] .
  moreover have "SCSI_GuessGeometry w = (w div (of_nat k' * of_nat h'), of_nat h', of_nat k')"
    using Some p hk(1,2) by (simp add: SCSI_GuessGeometry_def)
  ultimately show ?thesis
    using hk(3,4) by - (rule disjI1, rule bexI [of _ h'], rule bexI [of _ k'], rule conjI)
qed

section \<open>Properties of the disks\<close>

text \<open>
  C6. What is written to a disk that can store it is read back. On a disk whose image is open and consists of
  whole blocks, that is not read-only and stores what it is sent (its image is writable and not
  protected, or it is protected and its shadow already exists: the first write to a protected disk is excluded, it
  is lost), a write command for one or more blocks that all lie within the disk, followed by their bytes, and then a
  read command for the same blocks hands out exactly these bytes; both end in the status phase with good status, and
  every other block of the disk keeps its content.
\<close>
theorem scsi_write_then_read:
  assumes "scsi_ok s" "disk_ok (host s) (dk s)" "storing s (dk s)" "\<not> readonly (dk s)" "unit0 identify"
    "is_write w" "is_read r" "addresses w a (Suc n)" "addresses r a (Suc n)" "a + Suc n \<le> disk_blocks (dk s)"
    "length bs = BLOCKSIZE * Suc n"
  shows "\<exists>t0 t u v. SCSIdisk_Receive_Command w identify s = Inr t0 \<and> each SCSIdisk_Receive_Data bs t0 = Inr t \<and>
    bus_phase t = PHASE_ST \<and> d_status (dk t) = STAT_GOOD \<and>
    SCSIdisk_Receive_Command r identify t = Inr u \<and> send_data (BLOCKSIZE * Suc n) u = Inr (bs, v) \<and>
    bus_phase v = PHASE_ST \<and> d_status (dk v) = STAT_GOOD \<and>
    (\<forall>i < disk_blocks (dk s). i < a \<or> a + n < i \<longrightarrow> block_at (host v) (dk v) i = block_at (host s) (dk s) i)"
proof -
  let ?B = "\<lambda>i. if a \<le> i \<and> i < a + Suc n then take BLOCKSIZE (drop (BLOCKSIZE * (i - a)) bs) else block_at (host s) (dk s) i"
  obtain t0 t where t: "SCSIdisk_Receive_Command w identify s = Inr t0" "each SCSIdisk_Receive_Data bs t0 = Inr t"
    "bus_phase t = PHASE_ST" "d_status (dk t) = STAT_GOOD" "disk_to s t ?B"
    using write_blocks [OF assms(1-6,8,10,11)] receives_each by blast
  have d: "scsi_ok t" "bus_target t = bus_target s" "disk_ok (host t) (dk t)" "disk_blocks (dk t) = disk_blocks (dk s)"
    "\<And>i. i < disk_blocks (dk s) \<Longrightarrow> block_at (host t) (dk t) i = ?B i"
    using t(5) unfolding disk_to_def by blast+
  obtain u v where u: "SCSIdisk_Receive_Command r identify t = Inr u"
    "send_data (BLOCKSIZE * Suc n) u = Inr (concat (map (block_at (host t) (dk t)) [a ..< a + Suc n]), v)"
    "bus_phase v = PHASE_ST" "d_status (dk v) = STAT_GOOD" "disk_to t v (block_at (host t) (dk t))"
    using read_blocks [OF d(1,3) assms(5,7,9)] assms(10) d(4) by auto
  have "map (block_at (host t) (dk t)) [a ..< a + Suc n] = map (\<lambda>i. take BLOCKSIZE (drop (BLOCKSIZE * (i - a)) bs)) [a ..< a + Suc n]"
    using d(5) assms(10) by (intro map_cong) auto
  then have "concat (map (block_at (host t) (dk t)) [a ..< a + Suc n]) = bs"
    by (simp only: concat_blocks [OF assms(11)])
  then have sd: "send_data (BLOCKSIZE * Suc n) u = Inr (bs, v)" using u(2) by (simp only:)
  have "block_at (host v) (dk v) i = block_at (host s) (dk s) i" if "i < disk_blocks (dk s)" "i < a \<or> a + n < i" for i
    using u(5) d(4,5) that by (auto simp: disk_to_def)
  then show ?thesis using t(1-4) u(1,3,4) sd by blast
qed

text \<open>
  C37. The first block written to a protected image is lost. When images must not be written, the
  shadow of a disk is created by the first write, which does not store its block: the write reports
  good status, and reading the block back gives what was there before.
\<close>
theorem first_shadow_write_lost:
  assumes "scsi_ok s" "disk_ok (host s) (dk s)" "nWriteProtection s = WRITEPROT_ON" "shadow (dk s) = None" "\<not> readonly (dk s)"
    "unit0 identify" "is_write w" "is_read r" "addresses w a 1" "addresses r a 1" "a < disk_blocks (dk s)" "length bs = BLOCKSIZE"
  shows "\<exists>t0 t u v. SCSIdisk_Receive_Command w identify s = Inr t0 \<and> each SCSIdisk_Receive_Data bs t0 = Inr t \<and>
    bus_phase t = PHASE_ST \<and> d_status (dk t) = STAT_GOOD \<and> storing t (dk t) \<and>
    SCSIdisk_Receive_Command r identify t = Inr u \<and> send_data BLOCKSIZE u = Inr (block_at (host s) (dk s) a, v)"
proof -
  obtain t0 where t0: "SCSIdisk_Receive_Command w identify s = Inr t0" "scsi_ok t0" "bus_target t0 = bus_target s"
    "host t0 = host s" "nWriteProtection t0 = nWriteProtection s" "buf_disk t0" "buf_size t0 = 0" "buf_limit t0 = 512"
    "bus_phase t0 = PHASE_DO" "dk t0 = (addressed w (dk s))\<lparr>d_message := MSG_COMPLETE\<rparr>"
    using write_command [OF assms(1,6,7,5)] by blast
  let ?d = "(addressed w (dk s))\<lparr>d_message := MSG_COMPLETE\<rparr>"
  have tg: "unat (bus_target s) < ESP_MAX_DEVS" using assms(1) by (simp add: scsi_ok_def)
  have dk0: "disks t0 (unat (bus_target s)) = ?d" using t0(3,10) by simp
  have at: "blockcounter ?d = 1" "unat (lba ?d) = a"
    using addressed_at [OF assms(9), of "dk s"] by (simp_all add: unat_1_eq)
  have inside: "block_offset ?d < d_size ?d"
    using block_inside [of ?d] assms(2,11) at(2) by (simp add: disk_ok_def disk_blocks_def)
  let ?s1 = "t0\<lparr>buf_data := bs, buf_size := 512\<rparr>"
  have r: "each SCSIdisk_Receive_Data bs t0 = scsi_write_sector ?s1"
    using recv_block [OF t0(2,6,8), of 0 bs] t0(7) assms(12) by (cases bs) auto
  let ?sh = "Some (disk_blocks (dk s), \<lambda>_. None) :: (nat \<times> (nat \<Rightarrow> u8 list option)) option"
  let ?d2 = "next_block (?d\<lparr>shadow := ?sh\<rparr>)"
  define t where "t = set_phase PHASE_ST (set_cur ?d2
    (?s1\<lparr>io_seq := io_seq t0 + 1, host := host t0, buf_limit := int BLOCKSIZE, buf_size := 0\<rparr>))"
  have sc: "unat (ucast (d_size (dk s) div 512) :: u32) = disk_blocks (dk s)"
    using assms(2) by (intro shadow_count) (simp add: disk_ok_def)
  have w: "scsi_write_sector ?s1 = Inr t"
    using inside at tg assms(3,4) sc
    by (simp add: scsi_write_sector_def cur_def t0 dk0 put_block_def Let_def t_def)
  have tf: "bus_target t = bus_target s" "host t = host s" "nWriteProtection t = WRITEPROT_ON" "bus_phase t = PHASE_ST"
    using assms(3) by (simp_all add: t_def t0)
  have td: "disks t (unat (bus_target s)) = ?d2" using t0(3) by (simp add: t_def set_cur_def set_phase_def)
  have ok: "scsi_ok t" using t0(2) assms(12) by (simp add: t_def scsi_ok_def)
  have dok: "disk_ok (host t) (dk t)" using assms(2,4) by (auto simp: tf td disk_ok_def disk_blocks_def)
  have B: "block_at (host t) (dk t) i = block_at (host s) (dk s) i" for i
    using assms(4) by (simp add: tf td block_at_def cong: option.case_cong)
  have bl: "disk_blocks (dk t) = disk_blocks (dk s)" by (simp add: tf td disk_blocks_def)
  obtain u v where u: "SCSIdisk_Receive_Command r identify t = Inr u"
    "send_data (BLOCKSIZE * Suc 0) u = Inr (concat (map (block_at (host t) (dk t)) [a ..< a + Suc 0]), v)"
    using read_blocks [OF ok dok assms(6,8), of a 0] assms(10,11) bl by auto
  have "storing t (dk t)" using tf(3) by (simp add: storing_def tf(1) td)
  then show ?thesis using t0(1) r w u tf B by (intro exI conjI) (auto simp: td)
qed

text \<open>
  C35. A read past the end is refused and reported. The command ends in the status phase with check
  condition, and a request for sense data then gives the sense key of an illegal request, the
  code of an invalid address, and the address itself.
\<close>
theorem read_past_end_reported:
  assumes "scsi_ok s" "BLOCKSIZE dvd unat (d_size (dk s))" "unit0 identify" "is_read r" "addresses r a (Suc n)" "disk_blocks (dk s) \<le> a"
    "q 0 = 0x03" "q 4 = 22"
  shows "\<exists>t u. SCSIdisk_Receive_Command r identify s = Inr t \<and> bus_phase t = PHASE_ST \<and> d_status (dk t) = STAT_CHECK_COND \<and>
    SCSIdisk_Receive_Command q identify t = Inr u \<and> bus_phase u = PHASE_DI \<and> d_status (dk u) = STAT_GOOD \<and>
    take 22 (buf_data u) = [0xF0, 0, SK_ILLEGAL_REQ] @ be_bytes (of_nat a) @ [14, 0, 0, 0, 0, SC_INVALID_LBA, 0, 0, 0, 0, 0, 0, 0, 0, 0] \<and>
    buf_size u = 22 \<and> host u = host s \<and> block_at (host u) (dk u) = block_at (host s) (dk s)"
proof -
  have tg: "unat (bus_target s) < ESP_MAX_DEVS" using assms(1) by (simp add: scsi_ok_def)
  let ?d = "addressed r (dk s)"
  have at: "blockcounter ?d \<noteq> 0" "unat (lba ?d) = a" using addressed_at [OF assms(5), of "dk s"] by auto
  have la: "lba ?d = of_nat a" using at(2) [symmetric] by simp
  have out: "\<not> block_offset ?d < d_size ?d" using block_inside [of ?d] assms(2,6) at(2) by simp
  define s1 where "s1 = set_phase PHASE_DI ((set_cur ?d s)\<lparr>buf_disk := True, buf_size := 0\<rparr>)"
  have c1: "cur s1 = Inr ?d" using tg by (simp add: s1_def cur_def set_cur_def set_phase_def)
  define t where "t = set_cur ((bad_lba ?d)\<lparr>d_message := MSG_COMPLETE\<rparr>) (set_phase PHASE_ST (set_cur (bad_lba ?d) s1))"
  have tf: "bus_target t = bus_target s" "host t = host s" "bus_phase t = PHASE_ST" "buf_data t = buf_data s" "scsi_ok t"
    using assms(1) by (simp_all add: t_def s1_def scsi_ok_def)
  have ts: "bus_target s1 = bus_target s" by (simp add: s1_def)
  have td: "disks t (unat (bus_target s)) = (bad_lba ?d)\<lparr>d_message := MSG_COMPLETE\<rparr>" by (simp add: t_def set_cur_def ts set_phase_def)
  have "scsi_read_sector s1 = Inr (set_phase PHASE_ST (set_cur (bad_lba ?d) s1))"
    using c1 at(1) out by (simp add: scsi_read_sector_def)
  then have r: "SCSIdisk_Receive_Command r identify s = Inr t"
    using read_command [OF assms(1,3,4)] tg by (simp add: s1_def [symmetric] t_def complete_def ts)
  let ?d0 = "(dk t)\<lparr>d_lun := 0\<rparr>"
  let ?bs = "take 22 (sense_bytes ?d0)"
  define u1 where "u1 = set_cur (?d0\<lparr>sense_key := key_of_code (sense_code ?d0), d_status := STAT_GOOD\<rparr>) (reply ?bs (set_cur ?d0 t))"
  define u where "u = set_cur ((?d0\<lparr>sense_key := key_of_code (sense_code ?d0), d_status := STAT_GOOD\<rparr>)\<lparr>d_message := MSG_COMPLETE\<rparr>) u1"
  have cnt: "SCSI_GetCount (q 0) q = 22" using assms(7,8) by (simp add: SCSI_GetCount_def)
  have rt: "bus_target (reply xs x) = bus_target x" for xs x by (simp add: reply_def buf_copy_def)
  have "SCSI_RequestSense q (set_cur ?d0 t) = Inr u1"
    using tg cnt by (simp add: SCSI_RequestSense_def tf u1_def Let_def del: set_cur_twice)
  moreover have "cur u1 = Inr (?d0\<lparr>sense_key := key_of_code (sense_code ?d0), d_status := STAT_GOOD\<rparr>)"
    using tg by (simp add: u1_def rt tf)
  ultimately have q: "SCSIdisk_Receive_Command q identify t = Inr u"
    using receive_command [OF tf(5) assms(3)] assms(7) by (simp add: SCSI_Emulate_Command_def Let_def complete_def u_def)
  have sb: "sense_bytes ?d0 = [0xF0, 0, SK_ILLEGAL_REQ] @ be_bytes (of_nat a) @ [14, 0, 0, 0, 0, SC_INVALID_LBA, 0, 0, 0, 0, 0, 0, 0, 0, 0]"
    by (simp add: sense_bytes_def tf td bad_lba_def key_of_code_def la)
  have len: "length (sense_bytes ?d0) = 22" unfolding sb by (simp add: be_bytes_def)
  have ub: "take 22 (buf_data u) = sense_bytes ?d0" "buf_size u = 22" "bus_phase u = PHASE_DI" "host u = host s" "bus_target u = bus_target s"
    using len tf by (simp_all add: u_def u1_def reply_def buf_copy_def)
  have ud: "shadow (disks u (unat (bus_target s))) = shadow (dk s)" "dsk (disks u (unat (bus_target s))) = dsk (dk s)"
    "d_status (disks u (unat (bus_target s))) = STAT_GOOD"
    by (simp_all add: u_def u1_def set_cur_def rt tf td bad_lba_def)
  have bk: "block_at (host u) (dk u) = block_at (host s) (dk s)" 
    by (rule ext, simp only: ub(4,5), rule block_at_cong) (simp_all add: ud)
  have st: "d_status (dk t) = STAT_CHECK_COND" "d_status (dk u) = STAT_GOOD" using ud(3) by (simp_all add: tf ub(5) td bad_lba_def)
  have tk: "take 22 (buf_data u) = [0xF0, 0, SK_ILLEGAL_REQ] @ be_bytes (of_nat a) @ [14, 0, 0, 0, 0, SC_INVALID_LBA, 0, 0, 0, 0, 0, 0, 0, 0, 0]"
    using ub(1) sb by (simp only:)
  show ?thesis
    by (rule exI [of _ t], rule exI [of _ u], intro conjI, rule r, rule tf(3), rule st(1), rule q, rule ub(3), rule st(2), rule tk, rule ub(2), rule ub(4), rule bk)
qed

lemma round_up:
  "n = 1008 * q + r \<Longrightarrow> r < 1008 \<Longrightarrow>
    (n :: nat) \<le> (if r \<noteq> 0 then q + 1 else q) * 1008 \<and> (if r \<noteq> 0 then q + 1 else q) * 1008 < n + 1008"
  by simp

lemma whole_cylinders:
  "(n :: nat) \<le> (if n mod 1008 \<noteq> 0 then n div 1008 + 1 else n div 1008) * 1008 \<and>
    (if n mod 1008 \<noteq> 0 then n div 1008 + 1 else n div 1008) * 1008 < n + 1008"
  by (rule round_up [OF mult_div_mod_eq [symmetric]]) simp

text \<open>
  C36. The guessed geometry covers the disk. It has 1 to 16 heads and 16 to 63 sectors per track, its
  capacity is at least the number of blocks of the disk, and exceeds it by less than one cylinder.
\<close>
theorem geometry_covers:
  "\<exists>c h k. SCSI_GuessGeometry w = (c, h, k) \<and> unat h \<in> {1 .. 16} \<and> unat k \<in> {16 .. 63} \<and>
    unat w \<le> unat c * unat h * unat k \<and> unat c * unat h * unat k < unat w + unat h * unat k"
  using geometry_cases [of w]
proof (elim disjE bexE conjE)
  fix h k
  assume hk: "h \<in> {1 .. 16}" "k \<in> {16 .. 63}" "SCSI_GuessGeometry w = (w div (of_nat k * of_nat h), of_nat h, of_nat k)"
    "unat w mod (k * h) = 0"
  have u: "unat (of_nat h :: u32) = h" "unat (of_nat k :: u32) = k" using hk(1,2) by (simp_all add: unsigned_of_nat take_bit_nat_eq_self)
  have "unat w div (k * h) * h * k = unat w" 
    using hk(4) div_mult_mod_eq [of "unat w" "k * h"] by (simp only: mult.assoc mult.commute [of h] add_0_right)
  moreover have "0 < h * k" using hk(1,2) by auto
  ultimately show ?thesis using hk u
    by - (rule exI [of _ "w div (of_nat k * of_nat h)"], rule exI [of _ "of_nat h"], rule exI [of _ "of_nat k"],
      simp add: unat_div geometry_product [OF hk(1,2)])
next
  assume g: "SCSI_GuessGeometry w = (if w mod (63 * 16) \<noteq> 0 then w div (63 * 16) + 1 else w div (63 * 16), 16, 63)"
  define c :: u32 where "c = (if w mod (63 * 16) \<noteq> 0 then w div (63 * 16) + 1 else w div (63 * 16))"
  have m: "w mod (63 * 16) = 0 \<longleftrightarrow> unat w mod 1008 = 0" by (simp add: word_unat_eq_iff unat_mod)
  have "unat w < 2 ^ LENGTH(32)" by (rule unsigned_less)
  then have lt: "unat w div 1008 + 1 < 2 ^ 32" by simp
  have d: "unat (w div (63 * 16)) = unat w div 1008" by (simp add: unat_div)
  have "unat c = (if unat w mod 1008 \<noteq> 0 then unat w div 1008 + 1 else unat w div 1008)"
    using unat_plus_one [of "w div (63 * 16)"] lt unfolding c_def m d by (simp add: unat_div)
  then have "unat w \<le> unat c * 1008 \<and> unat c * 1008 < unat w + 1008" by (simp only: whole_cylinders)
  then show ?thesis using g
    by - (rule exI [of _ c], rule exI [of _ 16], rule exI [of _ 63], simp add: c_def)
qed

section \<open>No access outside the buffers\<close>

text \<open>What holds between the accesses of a well-behaved initiator.\<close>

definition disk_fits :: "hostfs \<Rightarrow> SCSIdisk \<Rightarrow> bool" where
  "disk_fits h d \<longleftrightarrow> (if dsk d = None then d_size d = 0 else disk_ok h d)"

definition bus_ok :: "scsi \<Rightarrow> bool" where
  "bus_ok s \<longleftrightarrow> scsi_ok s \<and> (\<forall>i < ESP_MAX_DEVS. disk_fits (host s) (disks s i)) \<and>
     (bus_phase s = PHASE_DI \<longrightarrow> 0 < buf_size s \<and> buf_size s \<le> buf_limit s \<and> buf_limit s \<le> 512) \<and>
     (bus_phase s = PHASE_DO \<longrightarrow> 0 \<le> buf_size s \<and> buf_size s < 512 \<and> buf_limit s = 512 \<and> buf_disk s)"

datatype bus_action = Select u8 | Command "nat \<Rightarrow> u8" u8 | Take_Byte | Give_Byte u8 | Take_Status

text \<open>
  The initiator selects one of the seven targets, moves data only in the phase the bus is in, and
  sends no command that the model ends with \<open>Aborted\<close> and no request for an empty reply.
\<close>

definition command_fits :: "(nat \<Rightarrow> u8) \<Rightarrow> bool" where
  "command_fits cdb \<longleftrightarrow> cdb 0 \<noteq> 0x0B \<and> cdb 0 \<noteq> 0x15 \<and> (cdb 0 = 0x04 \<longrightarrow> cdb 1 AND 0x10 = 0) \<and>
     (cdb 0 = 0x12 \<or> cdb 0 = 0x1A \<longrightarrow> cdb 4 \<noteq> 0)"

fun allowed :: "bus_action \<Rightarrow> scsi \<Rightarrow> bool" where
  "allowed (Select t) s = (t < 7)"
| "allowed (Command cdb identify) s = command_fits cdb"
| "allowed Take_Byte s = (bus_phase s = PHASE_DI)"
| "allowed (Give_Byte v) s = (bus_phase s = PHASE_DO)"
| "allowed Take_Status s = True"

fun bus_step :: "bus_action \<Rightarrow> scsi \<Rightarrow> scsi res" where
  "bus_step (Select t) s = bnd (SCSIdisk_Select t s) (\<lambda>(_, t). Inr t)"
| "bus_step (Command cdb identify) s = SCSIdisk_Receive_Command cdb identify s"
| "bus_step Take_Byte s = bnd (SCSIdisk_Send_Data s) (\<lambda>(_, t). Inr t)"
| "bus_step (Give_Byte v) s = SCSIdisk_Receive_Data v s"
| "bus_step Take_Status s = bnd (SCSIdisk_Send_Status s) (\<lambda>(_, t). Inr t)"

lemma bus_okI:
  "scsi_ok t \<Longrightarrow> (\<And>i. i < ESP_MAX_DEVS \<Longrightarrow> disk_fits (host t) (disks t i)) \<Longrightarrow>
    (bus_phase t = PHASE_DI \<Longrightarrow> 0 < buf_size t \<and> buf_size t \<le> buf_limit t \<and> buf_limit t \<le> 512) \<Longrightarrow>
    (bus_phase t = PHASE_DO \<Longrightarrow> 0 \<le> buf_size t \<and> buf_size t < 512 \<and> buf_limit t = 512 \<and> buf_disk t) \<Longrightarrow> bus_ok t"
  by (simp add: bus_ok_def)

lemma bus_ok_tgt: "bus_ok s \<Longrightarrow> unat (bus_target s) < ESP_MAX_DEVS" "bus_ok s \<Longrightarrow> disk_fits (host s) (dk s)"
  by (simp_all add: bus_ok_def scsi_ok_def)

text \<open>A step that puts the current disk back with the same image and leaves the data phases.\<close>

lemma disk_fits_cong:
  "shadow d = shadow d' \<Longrightarrow> dsk d = dsk d' \<Longrightarrow> d_size d = d_size d' \<Longrightarrow> disk_fits h d = disk_fits h d'"
  using disk_ok_cong [of d d' h] by (simp add: disk_fits_def)

lemma status_ok:
  assumes "bus_ok s" "disk_fits (host s) d" "p \<noteq> PHASE_DI" "p \<noteq> PHASE_DO"
  shows "bus_ok (set_phase p (set_cur d s))" "bus_ok (set_cur d (set_phase p s))"
  using assms by (auto simp: bus_ok_def set_cur_def set_phase_def scsi_ok_def)

lemma reply_ok:
  assumes "bus_ok s" "disk_fits (host s) d" "0 < length bs" "length bs \<le> BLOCKSIZE" "length iq = 54"
  shows "bus_ok (set_cur d (reply bs (s\<lparr>inquiry_bytes := iq\<rparr>)))" "bus_ok (set_cur d (reply bs s))"
  using assms by (auto simp: bus_ok_def set_cur_def reply_def set_phase_def buf_copy_def scsi_ok_def)

lemma complete_bus_ok: "bus_ok s \<Longrightarrow> returns bus_ok (complete s)"
proof -
  assume s: "bus_ok s"
  have "disk_fits (host s) ((dk s)\<lparr>d_message := MSG_COMPLETE\<rparr>)"
    using bus_ok_tgt(2) [OF s] by (subst disk_fits_cong [of _ "dk s"]) simp_all
  then show ?thesis using s bus_ok_tgt(1) [OF s]
    by (auto simp: complete_def cur_def bus_ok_def set_cur_def scsi_ok_def)
qed

lemma command_kinds:
  "returns bus_ok r \<Longrightarrow> returns bus_ok (bnd r complete)"
  by (rule returns_bnd) (erule returns_mono, erule complete_bus_ok)

definition quiet :: "scsi \<Rightarrow> bool" where
  "quiet s \<longleftrightarrow> scsi_ok s \<and> (\<forall>i < ESP_MAX_DEVS. disk_fits (host s) (disks s i))"

lemma quiet_bus: "bus_ok s \<Longrightarrow> quiet s"
  by (simp add: bus_ok_def quiet_def)

lemma quiet_status: "quiet s \<Longrightarrow> bus_phase s \<noteq> PHASE_DI \<Longrightarrow> bus_phase s \<noteq> PHASE_DO \<Longrightarrow> bus_ok s"
  by (simp add: bus_ok_def quiet_def)

lemma quiet_set_cur: "quiet s \<Longrightarrow> disk_fits (host s) d \<Longrightarrow> quiet (set_cur d s)"
  by (auto simp: quiet_def set_cur_def scsi_ok_def)

lemma quiet_phase [simp]: "quiet (set_phase p s) = quiet s"
  by (simp add: quiet_def)

lemma quiet_cur: "quiet s \<Longrightarrow> cur s = Inr (dk s)" "quiet s \<Longrightarrow> disk_fits (host s) (dk s)" "quiet s \<Longrightarrow> unat (bus_target s) < ESP_MAX_DEVS"
  "quiet s \<Longrightarrow> length (buf_data s) = BLOCKSIZE"
  by (simp_all add: quiet_def cur_ok scsi_ok_def)

lemma fits_inside:
  assumes "disk_fits h d" "block_offset d < d_size d"
  shows "disk_ok h d" "unat (lba d) < disk_blocks d"
proof -
  show ok: "disk_ok h d" using assms by (auto simp: disk_fits_def split: if_splits)
  show "unat (lba d) < disk_blocks d" using block_inside assms(2) ok by (simp add: disk_ok_def)
qed

lemma fits_sense [simp]:
  "disk_fits h (bad_lba d) = disk_fits h d" "disk_fits h (next_block d) = disk_fits h d" "disk_fits h (good_sense d) = disk_fits h d"
  "disk_fits h (fail_sense c d) = disk_fits h d" "disk_fits h (addressed cdb d) = disk_fits h d"
  "disk_fits h (d\<lparr>d_status := st\<rparr>) = disk_fits h d" "disk_fits h (d\<lparr>d_lun := l\<rparr>) = disk_fits h d"
  "disk_fits h (d\<lparr>d_message := m\<rparr>) = disk_fits h d" "disk_fits h (d\<lparr>sense_code := c\<rparr>) = disk_fits h d"
  "disk_fits h (d\<lparr>sense_key := c\<rparr>) = disk_fits h d" "disk_fits h (d\<lparr>sense_valid := b\<rparr>) = disk_fits h d"
  "disk_fits h (d\<lparr>lastlba := l1\<rparr>) = disk_fits h d" "disk_fits h (d\<lparr>lba := l2\<rparr>) = disk_fits h d" "disk_fits h (d\<lparr>blockcounter := l3\<rparr>) = disk_fits h d"
  by (rule disk_fits_cong; simp add: bad_lba_def next_block_def good_sense_def fail_sense_def addressed_def)+

lemma read_sector_safe:
  assumes "quiet s" "bus_phase s = PHASE_DI"
  shows "returns bus_ok (scsi_read_sector s)"
proof -
  let ?d = "dk s"
  show ?thesis
  proof (cases "blockcounter ?d \<noteq> 0 \<and> block_offset ?d < d_size ?d")
    case True
    note ok = fits_inside [OF quiet_cur(2) [OF assms(1)] conjunct2 [OF True]]
    let ?b = "block_at (host s) ?d (unat (lba ?d))"
    have "scsi_read_sector s = Inr (set_cur (next_block ?d) (s\<lparr>buf_data := ?b, buf_limit := 512, buf_size := 512, io_seq := io_seq s + 1\<rparr>))"
      using True get_block_at [OF ok quiet_cur(4) [OF assms(1)]] quiet_cur(1) [OF assms(1)] by (simp add: scsi_read_sector_def)
    moreover have "length ?b = BLOCKSIZE" using ok by (rule block_at_length)
    ultimately show ?thesis
      using assms by (auto simp: quiet_def bus_ok_def set_cur_def scsi_ok_def)
  next
    case False
    then show ?thesis
      using assms quiet_cur [OF assms(1)]
      by (auto simp: scsi_read_sector_def intro!: quiet_status quiet_set_cur)
  qed
qed

lemma File_Write_length:
  "offset + length data \<le> length (file_content (f_name f) h) \<Longrightarrow>
    length (file_content n (File_Write data offset f h)) = length (file_content n h)"
  by (simp add: File_Write_def file_content_def Let_def)

lemma disk_fits_host:
  "(\<And>n. length (file_content n h) = length (file_content n h')) \<Longrightarrow> disk_fits h d = disk_fits h' d"
  by (simp add: disk_fits_def disk_ok_def)

lemma put_block_safe:
  assumes "disk_ok (host s) d" "unat (lba d) < disk_blocks d" "length (buf_data s) = BLOCKSIZE"
  shows "\<exists>sh h. put_block s d = Inr (d\<lparr>shadow := sh\<rparr>, h) \<and> disk_ok h (d\<lparr>shadow := sh\<rparr>) \<and>
    (\<forall>n. length (file_content n h) = length (file_content n (host s)))"
proof -
  obtain f where f: "dsk d = Some f" "length (file_content (f_name f) (host s)) = unat (d_size d)" "BLOCKSIZE dvd unat (d_size d)"
    using assms(1) by (auto simp: disk_ok_def)
  have inside: "BLOCKSIZE * unat (lba d) + BLOCKSIZE \<le> unat (d_size d)"
    using f(3) assms(2) by (auto simp: disk_blocks_def elim!: dvdE)
  consider "nWriteProtection s \<noteq> WRITEPROT_ON" | "nWriteProtection s = WRITEPROT_ON" "shadow d = None"
    | n sh where "nWriteProtection s = WRITEPROT_ON" "shadow d = Some (n, sh)"
    by (cases "nWriteProtection s = WRITEPROT_ON"; cases "shadow d") auto
  then show ?thesis
  proof cases
    case 1
    let ?h = "File_Write (buf_data s) (BLOCKSIZE * unat (lba d)) f (host s)"
    have l: "length (file_content n ?h) = length (file_content n (host s))" for n
      using inside f(2) assms(3) by (intro File_Write_length) simp
    have "put_block s d = Inr (d, ?h)" using 1 f(1) assms(3) by (simp add: put_block_def the_file_def block_offset_nat)
    moreover have "disk_ok ?h d" using assms(1) by (simp add: disk_ok_def l)
    moreover have "d\<lparr>shadow := shadow d\<rparr> = d" by simp
    ultimately show ?thesis using l by (intro exI [of _ "shadow d"] exI [of _ ?h]) simp
  next
    case 2
    let ?sh = "Some (unat (ucast (d_size d div 512) :: u32), \<lambda>_. None) :: (nat \<times> (nat \<Rightarrow> u8 list option)) option"
    have "put_block s d = Inr (d\<lparr>shadow := ?sh\<rparr>, host s)" using 2 by (simp add: put_block_def)
    moreover have "disk_ok (host s) (d\<lparr>shadow := ?sh\<rparr>)"
      using assms(1) shadow_count [of d] by (auto simp: disk_ok_def disk_blocks_def)
    ultimately show ?thesis by blast
  next
    case 3
    let ?sh = "Some (n, sh(unat (lba d) \<mapsto> buf_data s))"
    have "put_block s d = Inr (d\<lparr>shadow := ?sh\<rparr>, host s)"
      using 3 assms by (simp add: put_block_def disk_ok_def)
    moreover have "disk_ok (host s) (d\<lparr>shadow := ?sh\<rparr>)"
      using assms(1,3) 3 by (auto simp: disk_ok_def disk_blocks_def split: option.splits)
    ultimately show ?thesis by blast
  qed
qed

lemma write_sector_safe:
  assumes "quiet s" "bus_phase s = PHASE_DO" "buf_disk s"
  shows "returns bus_ok (scsi_write_sector s)"
proof (cases "block_offset (dk s) < d_size (dk s)")
  case True
  note ok = fits_inside [OF quiet_cur(2) [OF assms(1)] True]
  let ?s = "s\<lparr>io_seq := io_seq s + 1\<rparr>"
  obtain sh h where p: "put_block ?s (dk s) = Inr ((dk s)\<lparr>shadow := sh\<rparr>, h)" "disk_ok h ((dk s)\<lparr>shadow := sh\<rparr>)"
    "\<forall>n. length (file_content n h) = length (file_content n (host s))"
    using put_block_safe [of ?s "dk s"] ok quiet_cur(4) [OF assms(1)] by auto
  let ?d = "next_block ((dk s)\<lparr>shadow := sh\<rparr>)"
  let ?t1 = "set_cur ?d (s\<lparr>io_seq := io_seq s + 1, host := h, buf_limit := int BLOCKSIZE, buf_size := 0\<rparr>)"
  have w: "scsi_write_sector s = Inr (if blockcounter ?d = 0 then set_phase PHASE_ST ?t1 else ?t1)"
    using True p(1) quiet_cur [OF assms(1)] by (simp add: scsi_write_sector_def Let_def)
  have "dsk (dk s) \<noteq> None" using ok(1) by (auto simp: disk_ok_def)
  then have fd: "disk_fits h ?d" using p(2) by (auto simp: disk_fits_def [of h "(dk s)\<lparr>shadow := sh\<rparr>"])
  have "disk_fits h (disks s i)" if "i < ESP_MAX_DEVS" for i
    using assms(1) that disk_fits_host [of h "host s"] p(3) by (auto simp: quiet_def)
  then have "quiet ?t1" using fd assms(1) by (auto simp: quiet_def set_cur_def scsi_ok_def)
  then show ?thesis using assms unfolding w by (auto simp: bus_ok_def quiet_def)
next
  case False
  then show ?thesis
    using assms quiet_cur [OF assms(1)] by (auto simp: scsi_write_sector_def intro!: quiet_status quiet_set_cur)
qed

lemma take_safe:
  assumes "bus_ok s" "bus_phase s = PHASE_DI"
  shows "returns (\<lambda>(_, t). bus_ok t) (SCSIdisk_Send_Data s)"
proof -
  let ?s1 = "s\<lparr>buf_size := buf_size s - 1\<rparr>"
  have q: "quiet ?s1" "bus_phase ?s1 = PHASE_DI" using assms by (auto simp: bus_ok_def quiet_def scsi_ok_def)
  have b: "0 < buf_size s" "buf_size s \<le> buf_limit s" "buf_limit s \<le> 512" using assms by (simp_all add: bus_ok_def)
  have st: "bus_ok (set_phase PHASE_ST ?s1)" using q(1) by (intro quiet_status) simp_all
  have go: "bus_ok ?s1" if "buf_size s \<noteq> 1" using assms b that by (auto simp: bus_ok_def scsi_ok_def)
  obtain t where "scsi_read_sector ?s1 = Inr t" "bus_ok t" using read_sector_safe [OF q] by (auto simp: returns_iff)
  then show ?thesis using b st go by (auto simp: SCSIdisk_Send_Data_def Let_def)
qed

lemma give_safe:
  assumes "bus_ok s" "bus_phase s = PHASE_DO"
  shows "returns bus_ok (SCSIdisk_Receive_Data v s)"
proof -
  have b: "0 \<le> buf_size s" "buf_size s < 512" "buf_limit s = 512" "buf_disk s" using assms by (simp_all add: bus_ok_def)
  let ?s1 = "s\<lparr>buf_data := (buf_data s)[nat (buf_size s) := v], buf_size := buf_size s + 1\<rparr>"
  have q: "quiet ?s1" "bus_phase ?s1 = PHASE_DO" "buf_disk ?s1" using assms b by (auto simp: bus_ok_def quiet_def scsi_ok_def)
  have "bus_ok ?s1" if "buf_size s + 1 \<noteq> 512" using q b that by (auto simp: bus_ok_def quiet_def)
  then show ?thesis using b write_sector_safe [OF q]
    by (cases "buf_size s = 511") (simp_all add: SCSIdisk_Receive_Data_def Let_def)
qed

lemma status_end:
  assumes "quiet s" "disk_fits (host s) d"
  shows "bus_ok (set_phase PHASE_ST (set_cur d s))" "bus_ok (set_cur d (set_phase PHASE_ST s))"
  using quiet_set_cur [OF assms] assms quiet_set_cur [of "set_phase PHASE_ST s" d]
  by (auto intro!: quiet_status)

lemma reply_end:
  assumes "quiet s" "disk_fits (host s) d" "0 < length bs" "length bs \<le> BLOCKSIZE"
  shows "bus_ok (set_cur d (reply bs s))"
  using assms by (auto simp: bus_ok_def quiet_def set_cur_def reply_def set_phase_def buf_copy_def scsi_ok_def)

lemma sense_length: "length (sense_bytes d) = 22"
  by (simp add: sense_bytes_def be_bytes_def)

lemma inquiry_length: "length bs = 54 \<Longrightarrow> length (inquiry_model t bs) = 54"
  by (cases t) (simp_all add: inquiry_model_def)

lemma page_length: "length (page_values p (SCSI_GetModePage c d)) = (if c = 0 then 4 else if c = 1 then 8 else if c = 4 then 20 else 0)"
  by (simp add: page_values_def SCSI_GetModePage_def split: prod.split)

lemma all_pages_length:
  "length (concat (map (\<lambda>c. page_values p (SCSI_GetModePage (of_nat c) d)) [0 ..< 0x3F])) = 32"
proof -
  have "(\<Sum>c\<leftarrow>[0 ..< 0x3F]. length (page_values p (SCSI_GetModePage (of_nat c) d))) =
      (\<Sum>c\<leftarrow>[0 ..< 0x3F]. if c = 0 then 4 else if c = 1 then 8 else if c = 4 then 20 else 0)"
  proof (rule arg_cong [of _ _ sum_list], rule map_cong)
    fix c :: nat
    assume "c \<in> set [0 ..< 0x3F]"
    then have "c < 2 ^ 8" by simp
    then have "(of_nat c :: u8) = of_nat k \<longleftrightarrow> c = k" if "k < 2 ^ 8" for k
      using that by (simp add: word_unat_eq_iff unsigned_of_nat take_bit_nat_eq_self)
    from this [of 0] this [of 1] this [of 4]
    show "length (page_values p (SCSI_GetModePage (of_nat c) d)) = (if c = 0 then 4 else if c = 1 then 8 else if c = 4 then 20 else 0)"
      unfolding page_length by simp
  qed simp
  moreover have "(\<Sum>c\<leftarrow>[0 ..< 0x3F]. if c = 0 then 4 else if c = 1 then 8 else if c = 4 then 20 else 0) = (32 :: nat)" by code_simp
  ultimately show ?thesis by (simp only: length_concat map_map o_def)
qed

lemma command_safe:
  assumes "quiet s" "command_fits cdb"
  shows "returns bus_ok (SCSI_Emulate_Command cdb s)"
proof -
  note c [simp] = quiet_cur [OF assms(1)]
  note st = status_end [OF assms(1)]
  have pos: "0 < unat (cdb 4)" "0 < uint (cdb 4)" if "cdb 4 \<noteq> 0"
    using that unat_gt_0 [of "cdb 4"] by (auto simp: uint_nat simp del: of_nat_unat)
  have inq: "returns bus_ok (SCSI_Inquiry cdb s)" if "cdb 0 = 0x12"
  proof -
    let ?b = "if d_lun (dk s) \<noteq> 0 then (inquiry_model (devtype (dk s)) (inquiry_bytes s))[0 := 0x7F]
      else inquiry_model (devtype (dk s)) (inquiry_bytes s)"
    have len: "length ?b = 54" using assms(1) by (simp add: inquiry_length quiet_def scsi_ok_def)
    then have "quiet (s\<lparr>inquiry_bytes := ?b\<rparr>)" using assms(1) by (simp add: quiet_def scsi_ok_def)
    then have "bus_ok (set_cur (good_sense (dk s)) (reply (take (nat (uint (cdb 4))) ?b) (s\<lparr>inquiry_bytes := ?b\<rparr>)))"
      using pos assms(2) that len by (intro reply_end) (auto simp: command_fits_def)
    then show ?thesis using that by (simp add: SCSI_Inquiry_def Let_def SCSI_GetTransferLength_def)
  qed
  have sense: "returns bus_ok (SCSI_RequestSense cdb s)"
  proof -
    let ?k = "nat (if SCSI_GetCount (cdb 0) cdb \<le> 0 then 4 else if 22 < SCSI_GetCount (cdb 0) cdb then 22 else SCSI_GetCount (cdb 0) cdb)"
    let ?d = "(dk s)\<lparr>sense_key := key_of_code (sense_code (dk s)), d_status := STAT_GOOD\<rparr>"
    have "bus_ok (set_cur ?d (reply (take ?k (sense_bytes (dk s))) s))"
      by (rule reply_end [OF assms(1)]) (simp_all add: sense_length)
    then show ?thesis by (simp only: SCSI_RequestSense_def Let_def c(1) bnd_Inr returns_Inr)
  qed
  have tur: "returns bus_ok (SCSI_TestUnitReady s)" using st by (simp add: SCSI_TestUnitReady_def)
  have cap: "returns bus_ok (SCSI_ReadCapacity s)" using reply_end [OF assms(1)] by (simp add: SCSI_ReadCapacity_def be_bytes_def Let_def)
  have rd: "returns bus_ok (SCSI_ReadSector cdb s)"
    unfolding SCSI_ReadSector_def Let_def c(1) bnd_Inr
    using quiet_set_cur [OF assms(1)] assms(1) by (intro read_sector_safe) (simp_all add: quiet_def scsi_ok_def)
  have wr: "returns bus_ok (SCSI_WriteSector cdb s)"
    using st quiet_set_cur [OF assms(1)] assms(1)
    by (simp add: SCSI_WriteSector_def Let_def bus_ok_def quiet_def scsi_ok_def set_phase_def)
  have ej: "returns (\<lambda>t. quiet t \<and> bus_target t = bus_target s) (SCSI_EjectDisk (unat (bus_target s)) s)"
    using assms(1) c(3) by (auto simp: SCSI_EjectDisk_def SCSI_Eject_def quiet_def scsi_ok_def disk_fits_def)
  have fin: "returns bus_ok (bnd (cur t) (\<lambda>d. Inr (set_phase PHASE_ST (set_cur (d\<lparr>d_status := STAT_GOOD\<rparr>) t))))" if "quiet t" for t
    using status_end [OF that] quiet_cur [OF that] by simp
  have ss: "returns bus_ok (SCSI_StartStop cdb s)"
    unfolding SCSI_StartStop_def c(1) bnd_Inr
    using ej fin assms(1) st(1) by (intro returns_bnd [where m = "if _ then _ else _"]) (auto simp: returns_iff)
  have rep: "bus_ok (set_cur (good_sense (dk s)) (reply (take (nat (min (int (length (x # b))) (uint (cdb 4)))) (x # b)) s))"
    if "length b \<le> 50" "cdb 4 \<noteq> 0" for x b
    using pos [OF that(2)] that(1) by (intro reply_end [OF assms(1)]) auto
  have tl: "SCSI_GetTransferLength (cdb 0) cdb = uint (cdb 4)" if "cdb 0 = 0x1A" using that by (simp add: SCSI_GetTransferLength_def)
  have ms: "returns bus_ok (SCSI_ModeSense cdb s)" if "cdb 0 = 0x1A"
    unfolding SCSI_ModeSense_def Let_def c(1) bnd_Inr returns_Inr tl [OF that]
    by (rule rep) (use assms(2) that in \<open>simp_all add: command_fits_def page_length all_pages_length\<close>)
  have fd: "returns bus_ok (SCSI_FormatDrive cdb s)" if "cdb 0 = 0x04"
    using assms(2) that st by (simp add: command_fits_def SCSI_FormatDrive_def)
  show ?thesis
    using assms(2) inq sense tur cap rd wr ss ms fd st
    unfolding SCSI_Emulate_Command_def Let_def command_fits_def
    by (intro command_kinds) simp
qed

lemma bus_step_safe:
  assumes "bus_ok s" "allowed a s"
  shows "returns bus_ok (bus_step a s)"
proof (cases a)
  case (Select t)
  then have t: "unat t < ESP_MAX_DEVS" using assms(2) by (simp add: word_less_nat_alt)
  have "bus_ok (set_phase PHASE_ST s)" using quiet_bus [OF assms(1)] by (intro quiet_status) simp_all
  moreover have "bus_ok (s\<lparr>bus_target := t\<rparr>)" using assms(1) t by (simp add: bus_ok_def scsi_ok_def)
  ultimately show ?thesis using t by (simp add: Select SCSIdisk_Select_def)
next
  case (Command cdb identify)
  note q = quiet_bus [OF assms(1)]
  have "quiet (set_cur ((dk s)\<lparr>d_lun := l\<rparr>) s)" for l using quiet_set_cur [OF q] quiet_cur(2) [OF q] by simp
  then show ?thesis using assms(2) quiet_cur(1) [OF q] command_safe
    by (simp add: Command SCSIdisk_Receive_Command_def Let_def)
next
  case Take_Byte
  then show ?thesis using take_safe [OF assms(1)] assms(2)
    by (auto simp: returns_iff)
next
  case (Give_Byte v)
  then show ?thesis using give_safe [OF assms(1)] assms(2) by simp
next
  case Take_Status
  have "bus_ok (set_phase PHASE_MI s)" using quiet_bus [OF assms(1)] by (intro quiet_status) simp_all
  then show ?thesis using quiet_cur(1) [OF quiet_bus [OF assms(1)]]
    by (simp add: Take_Status SCSIdisk_Send_Status_def Let_def)
qed

text \<open>
  C16. The targets never leave their buffers. In a consistent state of the bus every open image has as many bytes as
  its target believes, in whole blocks of 512; a target without an image has size 0; a shadow covers its disk; and
  in a data phase the counters of the buffer lie within its 512 bytes. From such a state an initiator may select
  targets 0 to 6, send commands, move a byte in the data phase the bus is in and take the status, in any order and
  for as long as it likes, as long as it sends no SEEK and no MODE SELECT, no FORMAT with a data phase and no INQUIRY or
  MODE SENSE that asks for no bytes (these stop the emulator or hand out a byte that is not there). Then every
  step returns and leaves a consistent state: no index leaves the sector buffer, the shadow or the table of disks
  and no missing image is used.
\<close>
theorem scsi_bus_safe:
  assumes "bus_ok s"
  shows "returns bus_ok (each (\<lambda>a s. if allowed a s then bus_step a s else Inr s) as s)"
  by (rule each_returns) (simp_all add: assms bus_step_safe)

section \<open>Witnesses\<close>

definition two_blocks :: hostfs where
  "two_blocks = \<lparr>fs_bytes = [''hd'' \<mapsto> replicate 1024 0x11], fs_readable = (\<lambda>_. True), fs_writable = (\<lambda>_. True)\<rparr>"

definition empty_disk :: SCSIdisk where
  "empty_disk =
     \<lparr>devtype = DEVTYPE_NONE, dsk = None, d_size = 0, readonly = False, d_lun = 0, d_status = 0, d_message = 0,
      sense_key = 0, sense_code = 0, sense_valid = False, sense_info = 0, lba = 0, blockcounter = 0, lastlba = 0, shadow = None\<rparr>"

definition hard_disk :: SCSIdisk where
  "hard_disk = empty_disk\<lparr>devtype := DEVTYPE_HARDDISK, dsk := Some \<lparr>f_name = ''hd'', f_update = True\<rparr>, d_size := 1024\<rparr>"

definition scsi_state :: "WRITEPROTECTION \<Rightarrow> scsi" where
  "scsi_state wp =
     \<lparr>disks = (\<lambda>_. empty_disk)(0 := hard_disk), bus_target = 0, bus_phase = PHASE_ST, buf_data = replicate 512 0,
      buf_limit = 0, buf_size = 0, buf_disk = False, inquiry_bytes = replicate 54 0, io_seq = 0,
      scsi_targets = (\<lambda>_. \<lparr>szImageName = '''', nDeviceType = DEVTYPE_NONE, bDiskInserted = False, bWriteProtected = False\<rparr>),
      nWriteProtection = wp, host = two_blocks\<rparr>"

definition cdb6 :: "u8 \<Rightarrow> u8 \<Rightarrow> u8 \<Rightarrow> nat \<Rightarrow> u8" where
  "cdb6 opcode block count = (\<lambda>_. 0)(0 := opcode, 3 := block, 4 := count)"

lemma scsi_state_ok: "scsi_ok (scsi_state wp)" "disk_ok (host (scsi_state wp)) (dk (scsi_state wp))"
  "disk_blocks (dk (scsi_state wp)) = 2" "bus_ok (scsi_state wp)"
  by (simp_all add: scsi_ok_def scsi_state_def disk_ok_def hard_disk_def empty_disk_def two_blocks_def file_content_def
      disk_blocks_def bus_ok_def disk_fits_def)

lemma cdb6_addresses:
  "addresses (cdb6 0x0A 1 1) 1 1" "addresses (cdb6 0x08 1 1) 1 1" "addresses (cdb6 0x08 5 1) 5 1"
  by (simp_all add: addresses_def cdb6_def SCSI_GetOffset_def SCSI_GetCount_def COMMAND_ReadInt24_def)

lemma scsi_write_then_read_witness:
  "\<exists>t0 t u v. SCSIdisk_Receive_Command (cdb6 0x0A 1 1) 0x80 (scsi_state WRITEPROT_OFF) = Inr t0 \<and>
    each SCSIdisk_Receive_Data (replicate 512 0x5A) t0 = Inr t \<and>
    SCSIdisk_Receive_Command (cdb6 0x08 1 1) 0x80 t = Inr u \<and> send_data 512 u = Inr (replicate 512 0x5A, v)"
proof -
  have st: "storing (scsi_state WRITEPROT_OFF) (dk (scsi_state WRITEPROT_OFF))" "\<not> readonly (dk (scsi_state WRITEPROT_OFF))"
    by (simp_all add: storing_def scsi_state_def hard_disk_def empty_disk_def)
  show ?thesis
    using scsi_write_then_read [OF scsi_state_ok(1,2) st, where identify = "0x80" and w = "cdb6 0x0A 1 1" and r = "cdb6 0x08 1 1" and a = 1
        and n = 0 and bs = "replicate 512 0x5A"]
      cdb6_addresses scsi_state_ok(3) [of WRITEPROT_OFF]
    by (auto simp: unit0_def is_write_def is_read_def cdb6_def)
qed

lemma first_shadow_write_lost_witness:
  "\<exists>t0 t u v. SCSIdisk_Receive_Command (cdb6 0x0A 1 1) 0x80 (scsi_state WRITEPROT_ON) = Inr t0 \<and>
    each SCSIdisk_Receive_Data (replicate 512 0x5A) t0 = Inr t \<and> d_status (dk t) = STAT_GOOD \<and>
    SCSIdisk_Receive_Command (cdb6 0x08 1 1) 0x80 t = Inr u \<and> send_data 512 u = Inr (replicate 512 0x11, v)"
proof -
  let ?s = "scsi_state WRITEPROT_ON"
  have st: "nWriteProtection ?s = WRITEPROT_ON" "shadow (dk ?s) = None" "\<not> readonly (dk ?s)"
    by (simp_all add: scsi_state_def hard_disk_def empty_disk_def)
  have b: "block_at (host ?s) (dk ?s) 1 = replicate 512 0x11"
    by (simp add: block_at_def scsi_state_def hard_disk_def empty_disk_def file_content_def two_blocks_def)
  show ?thesis
    using first_shadow_write_lost [OF scsi_state_ok(1,2) st, where identify = "0x80" and w = "cdb6 0x0A 1 1" and r = "cdb6 0x08 1 1" and a = 1
        and bs = "replicate 512 0x5A"]
      cdb6_addresses scsi_state_ok(3) [of WRITEPROT_ON]
    unfolding b by (auto simp: unit0_def is_write_def is_read_def cdb6_def)
qed

lemma read_past_end_reported_witness:
  "\<exists>t u. SCSIdisk_Receive_Command (cdb6 0x08 5 1) 0x80 (scsi_state WRITEPROT_OFF) = Inr t \<and> d_status (dk t) = STAT_CHECK_COND \<and>
    SCSIdisk_Receive_Command (cdb6 0x03 0 22) 0x80 t = Inr u \<and> take 7 (take 22 (buf_data u)) = [0xF0, 0, 5, 0, 0, 0, 5]"
proof -
  let ?s = "scsi_state WRITEPROT_OFF"
  have dv: "BLOCKSIZE dvd unat (d_size (dk ?s))" by (simp add: scsi_state_def hard_disk_def)
  show ?thesis
    using read_past_end_reported [OF scsi_state_ok(1) dv, where identify = "0x80" and r = "cdb6 0x08 5 1" and a = 5 and n = 0
        and q = "cdb6 0x03 0 22"]
      cdb6_addresses scsi_state_ok(3) [of WRITEPROT_OFF]
    by (fastforce simp: unit0_def is_read_def cdb6_def be_bytes_def)
qed

lemma scsi_bus_safe_witness:
  "returns bus_ok (each (\<lambda>a s. if allowed a s then bus_step a s else Inr s)
     [Select 0, Command (cdb6 0x08 1 1) 0x80, Take_Byte, Take_Status] (scsi_state WRITEPROT_OFF))"
  by (rule scsi_bus_safe) (rule scsi_state_ok)

end
