(* ===== verification/Dma.thy ===== *)
theory Dma
  imports Sys_Reg
begin

text \<open>
  The DMA controller (src/dma.c): twelve channels with their registers, chained transfers and interrupts, and
  the transfers between memory and the buffers of the devices. The SCSI channel and the optical disk
  channel go through a burst buffer of 16 bytes; their loops are written once, over a record of the operations by
  which a device hands out or takes a byte, and the two channels are their instances
  (the SCSI disk itself is attached in the theory of the controller).

  The memory of the m68k is a function from addresses to bytes. Its access functions belong to the processor
  core; which addresses raise a bus error is an argument. The exception of a bus error is caught in
  every transfer but one, so the transfers return whether it was raised.
\<close>

section \<open>State\<close>

record dma_channel =
  c_csr :: u8
  c_saved_next :: u32
  c_saved_limit :: u32
  c_saved_start :: u32
  c_saved_stop :: u32
  c_next :: u32
  c_limit :: u32
  c_start :: u32
  c_stop :: u32
  c_direction :: u8

text \<open>
  The buffers of the devices: those of the floppy and optical drives count in unsigned, those of the printer
  and the network in signed integers.
\<close>

record io_buffer =
  b_data :: "nat \<Rightarrow> u8"
  b_size :: u32
  b_limit :: u32

record net_buffer =
  n_data :: "nat \<Rightarrow> u8"
  n_size :: int
  n_limit :: int

text \<open>
  The globals of dma.c and of the headers it shares with its devices. \<open>notified\<close> lists the ranges reported to
  the translator of the m68k (\<^verbatim>\<open>Uae2026JitNotifyDeviceMemoryWrite\<close>), \<open>irqb_calls\<close>
  counts the calls of \<^verbatim>\<open>DSP_SetIRQB\<close>.
\<close>

record dmac =
  dma :: "nat \<Rightarrow> dma_channel"
  espdma_buf_size :: int
  espdma_buf_limit :: int
  espdma_buf :: "nat \<Rightarrow> u8"
  modma_buf_size :: int
  modma_buf_limit :: int
  modma_buf :: "nat \<Rightarrow> u8"
  m2m_buffer :: "nat \<Rightarrow> u32"
  m2m_buffer_size :: int
  saved_next_turbo :: u32
  esp_dma_control :: u8
  esp_dma_status :: u8
  floppy_select :: bool
  flp_buffer :: io_buffer
  ecc_buffer :: "nat \<Rightarrow> io_buffer"
  eccin :: nat
  eccout :: nat
  lp_buffer :: net_buffer
  enet_rx_buffer :: net_buffer
  enet_tx_buffer :: net_buffer
  scc_buf :: u8
  d_mem :: "u32 \<Rightarrow> u8"
  notified :: "(u32 \<times> u32) list"
  irqb_calls :: nat
  d_sys :: sysreg

record bus_env =
  m_readable :: "u32 \<Rightarrow> bool"
  m_writable :: "u32 \<Rightarrow> bool"

abbreviation "DMA_CHANNELS \<equiv> (12 :: nat)"
abbreviation "CHANNEL_SCSI \<equiv> (0 :: nat)"
abbreviation "CHANNEL_SOUNDOUT \<equiv> (1 :: nat)"
abbreviation "CHANNEL_DISK \<equiv> (2 :: nat)"
abbreviation "CHANNEL_SOUNDIN \<equiv> (3 :: nat)"
abbreviation "CHANNEL_PRINTER \<equiv> (4 :: nat)"
abbreviation "CHANNEL_SCC \<equiv> (5 :: nat)"
abbreviation "CHANNEL_DSP \<equiv> (6 :: nat)"
abbreviation "CHANNEL_EN_TX \<equiv> (7 :: nat)"
abbreviation "CHANNEL_EN_RX \<equiv> (8 :: nat)"
abbreviation "CHANNEL_VIDEO \<equiv> (9 :: nat)"
abbreviation "CHANNEL_M2R \<equiv> (10 :: nat)"
abbreviation "CHANNEL_R2M \<equiv> (11 :: nat)"
abbreviation "DMA_BURST_SIZE \<equiv> (16 :: nat)"
abbreviation "DMA_ENABLE \<equiv> (0x01 :: u8)"
abbreviation "DMA_SUPDATE \<equiv> (0x02 :: u8)"
abbreviation "DMA_COMPLETE \<equiv> (0x08 :: u8)"
abbreviation "DMA_BUSEXC \<equiv> (0x10 :: u8)"
abbreviation "DMA_SETENABLE \<equiv> (0x01 :: u8)"
abbreviation "DMA_SETSUPDATE \<equiv> (0x02 :: u8)"
abbreviation "DMA_DEV2M \<equiv> (0x04 :: u8)"
abbreviation "DMA_CLRCOMPLETE \<equiv> (0x08 :: u8)"
abbreviation "DMA_RESET \<equiv> (0x10 :: u8)"
abbreviation "DMA_INITBUF \<equiv> (0x20 :: u8)"
abbreviation "INT_VIDEO \<equiv> (0x00000020 :: u32)"
abbreviation "INT_SCSI_DMA \<equiv> (0x04000000 :: u32)"
abbreviation "INTERRUPT_M2M_IO \<equiv> (6 :: nat)"
abbreviation "EN_EOP \<equiv> (0x80000000 :: u32)"
abbreviation "EN_BOP \<equiv> (0x40000000 :: u32)"

definition chan :: "dmac \<Rightarrow> nat \<Rightarrow> dma_channel res" where
  "chan s c = arr_get DMA_CHANNELS (dma s) c"

definition set_chan :: "nat \<Rightarrow> dma_channel \<Rightarrow> dmac \<Rightarrow> dmac" where
  "set_chan c x s = s\<lparr>dma := (dma s)(c := x)\<rparr>"

definition dma_irq :: "u32 \<Rightarrow> bool \<Rightarrow> dmac \<Rightarrow> dmac" where
  "dma_irq intr state s = s\<lparr>d_sys := set_interrupt intr state (d_sys s)\<rparr>"

section \<open>Channel numbers\<close>

text \<open>An unknown address gives -1 in the code, an index before the array.\<close>

definition get_channel :: "u32 \<Rightarrow> nat option" where
  "get_channel address =
     (let channel = address AND 0x1FFFF
      in if channel = 0x010 then Some CHANNEL_SCSI
         else if channel = 0x040 then Some CHANNEL_SOUNDOUT
         else if channel = 0x050 then Some CHANNEL_DISK
         else if channel = 0x080 then Some CHANNEL_SOUNDIN
         else if channel = 0x090 then Some CHANNEL_PRINTER
         else if channel = 0x0c0 then Some CHANNEL_SCC
         else if channel = 0x0d0 then Some CHANNEL_DSP
         else if channel = 0x110 then Some CHANNEL_EN_TX
         else if channel = 0x150 then Some CHANNEL_EN_RX
         else if channel = 0x180 then Some CHANNEL_VIDEO
         else if channel = 0x1d0 then Some CHANNEL_M2R
         else if channel = 0x1c0 then Some CHANNEL_R2M
         else None)"

definition get_interrupt_type :: "nat \<Rightarrow> u32" where
  "get_interrupt_type channel =
     (if channel = CHANNEL_SCSI then 0x04000000
      else if channel = CHANNEL_SOUNDOUT then 0x00800000
      else if channel = CHANNEL_DISK then 0x02000000
      else if channel = CHANNEL_SOUNDIN then 0x00400000
      else if channel = CHANNEL_PRINTER then 0x01000000
      else if channel = CHANNEL_SCC then 0x00200000
      else if channel = CHANNEL_DSP then 0x00100000
      else if channel = CHANNEL_EN_TX then 0x10000000
      else if channel = CHANNEL_EN_RX then 0x08000000
      else if channel = CHANNEL_VIDEO then INT_VIDEO
      else if channel = CHANNEL_M2R then 0x00080000
      else if channel = CHANNEL_R2M then 0x00040000
      else 0)"

text \<open>The channel of a register at distance \<open>off\<close> from its CSR, and a channel number for the array.\<close>

definition reg_channel :: "u32 \<Rightarrow> u32 \<Rightarrow> nat res" where
  "reg_channel off address = (case get_channel (address - off) of None \<Rightarrow> Inl ArrayOOB | Some c \<Rightarrow> Inr c)"

definition reg_read :: "(dma_channel \<Rightarrow> 'a) \<Rightarrow> u32 \<Rightarrow> u32 \<Rightarrow> dmac \<Rightarrow> 'a res" where
  "reg_read f off address s = bnd (reg_channel off address) (\<lambda>c. bnd (chan s c) (\<lambda>x. Inr (f x)))"

definition reg_write :: "(dma_channel \<Rightarrow> dma_channel) \<Rightarrow> u32 \<Rightarrow> u32 \<Rightarrow> dmac \<Rightarrow> dmac res" where
  "reg_write f off address s =
     bnd (reg_channel off address) (\<lambda>c. bnd (chan s c) (\<lambda>x. Inr (set_chan c (f x) s)))"

section \<open>Address registers\<close>

definition DMA_Saved_Next_Read :: "u32 \<Rightarrow> dmac \<Rightarrow> u32 res" where
  "DMA_Saved_Next_Read a s = reg_read c_saved_next 0x3FF0 a s"

definition DMA_Saved_Next_Write :: "u32 \<Rightarrow> u32 \<Rightarrow> dmac \<Rightarrow> dmac res" where
  "DMA_Saved_Next_Write a v s = reg_write (c_saved_next_update (\<lambda>_. v)) 0x3FF0 a s"

definition DMA_Saved_Limit_Read :: "u32 \<Rightarrow> dmac \<Rightarrow> u32 res" where
  "DMA_Saved_Limit_Read a s = reg_read c_saved_limit 0x3FF4 a s"

definition DMA_Saved_Limit_Write :: "u32 \<Rightarrow> u32 \<Rightarrow> dmac \<Rightarrow> dmac res" where
  "DMA_Saved_Limit_Write a v s = reg_write (c_saved_limit_update (\<lambda>_. v)) 0x3FF4 a s"

definition DMA_Saved_Start_Read :: "u32 \<Rightarrow> dmac \<Rightarrow> u32 res" where
  "DMA_Saved_Start_Read a s = reg_read c_saved_start 0x3FF8 a s"

definition DMA_Saved_Start_Write :: "u32 \<Rightarrow> u32 \<Rightarrow> dmac \<Rightarrow> dmac res" where
  "DMA_Saved_Start_Write a v s = reg_write (c_saved_start_update (\<lambda>_. v)) 0x3FF8 a s"

definition DMA_Saved_Stop_Read :: "u32 \<Rightarrow> dmac \<Rightarrow> u32 res" where
  "DMA_Saved_Stop_Read a s = reg_read c_saved_stop 0x3FFC a s"

definition DMA_Saved_Stop_Write :: "u32 \<Rightarrow> u32 \<Rightarrow> dmac \<Rightarrow> dmac res" where
  "DMA_Saved_Stop_Write a v s = reg_write (c_saved_stop_update (\<lambda>_. v)) 0x3FFC a s"

definition DMA_Next_Read :: "u32 \<Rightarrow> dmac \<Rightarrow> u32 res" where
  "DMA_Next_Read a s = reg_read c_next 0x4000 a s"

definition DMA_Next_Write :: "u32 \<Rightarrow> u32 \<Rightarrow> dmac \<Rightarrow> dmac res" where
  "DMA_Next_Write a v s = reg_write (c_next_update (\<lambda>_. v)) 0x4000 a s"

definition DMA_Limit_Read :: "u32 \<Rightarrow> dmac \<Rightarrow> u32 res" where
  "DMA_Limit_Read a s = reg_read c_limit 0x4004 a s"

definition DMA_Limit_Write :: "u32 \<Rightarrow> u32 \<Rightarrow> dmac \<Rightarrow> dmac res" where
  "DMA_Limit_Write a v s = reg_write (c_limit_update (\<lambda>_. v)) 0x4004 a s"

definition DMA_Start_Read :: "u32 \<Rightarrow> dmac \<Rightarrow> u32 res" where
  "DMA_Start_Read a s = reg_read c_start 0x4008 a s"

definition DMA_Start_Write :: "u32 \<Rightarrow> u32 \<Rightarrow> dmac \<Rightarrow> dmac res" where
  "DMA_Start_Write a v s = reg_write (c_start_update (\<lambda>_. v)) 0x4008 a s"

definition DMA_Stop_Read :: "u32 \<Rightarrow> dmac \<Rightarrow> u32 res" where
  "DMA_Stop_Read a s = reg_read c_stop 0x400C a s"

definition DMA_Stop_Write :: "u32 \<Rightarrow> u32 \<Rightarrow> dmac \<Rightarrow> dmac res" where
  "DMA_Stop_Write a v s = reg_write (c_stop_update (\<lambda>_. v)) 0x400C a s"

definition DMA_Init_Read :: "u32 \<Rightarrow> dmac \<Rightarrow> u32 res" where
  "DMA_Init_Read a s = reg_read c_next 0x4200 a s"

definition dma_initialize_buffer :: "nat \<Rightarrow> u8 \<Rightarrow> dmac \<Rightarrow> dmac" where
  "dma_initialize_buffer channel offset s =
     (if channel = CHANNEL_SCSI then s\<lparr>esp_dma_status := 0, espdma_buf_size := 0, espdma_buf_limit := uint offset\<rparr>
      else if channel = CHANNEL_DISK then s\<lparr>modma_buf_size := 0, modma_buf_limit := uint offset\<rparr>
      else s)"

definition DMA_Init_Write :: "u32 \<Rightarrow> u32 \<Rightarrow> dmac \<Rightarrow> dmac res" where
  "DMA_Init_Write a v s =
     bnd (reg_channel 0x4200 a) (\<lambda>c.
     bnd (chan s c) (\<lambda>x.
       Inr (dma_initialize_buffer c (ucast (v AND 0xF)) (set_chan c (x\<lparr>c_next := v\<rparr>) s))))"

definition TDMA_Saved_Next_Read :: "dmac \<Rightarrow> u32" where
  "TDMA_Saved_Next_Read s = saved_next_turbo s"

section \<open>Interrupts\<close>

definition dma_interrupt :: "nat \<Rightarrow> dmac \<Rightarrow> dmac" where
  "dma_interrupt channel s =
     (let x = dma s channel
      in if c_next x = c_limit x then
           let x1 = x\<lparr>c_csr := c_csr x OR DMA_COMPLETE\<rparr>;
               x2 = (if c_csr x1 AND DMA_SUPDATE \<noteq> 0
                     then x1\<lparr>c_next := c_start x1, c_limit := c_stop x1, c_csr := c_csr x1 AND NOT DMA_SUPDATE\<rparr>
                     else x1\<lparr>c_csr := c_csr x1 AND NOT DMA_ENABLE\<rparr>)
           in dma_irq (get_interrupt_type channel) True (set_chan channel x2 s)
         else if c_csr x AND DMA_BUSEXC \<noteq> 0 then dma_irq (get_interrupt_type channel) True s
         else s)"

definition dma_enet_interrupt :: "nat \<Rightarrow> dmac \<Rightarrow> dmac" where
  "dma_enet_interrupt channel s =
     (let x = dma s channel;
          x1 = x\<lparr>c_csr := c_csr x OR DMA_COMPLETE\<rparr>;
          s1 = (if c_csr x1 AND DMA_SUPDATE \<noteq> 0
                then set_chan channel (x1\<lparr>c_next := c_start x1, c_limit := c_stop x1, c_csr := c_csr x1 AND NOT DMA_SUPDATE\<rparr>)
                  (s\<lparr>saved_next_turbo := c_next x1\<rparr>)
                else set_chan channel (x1\<lparr>c_csr := c_csr x1 AND NOT DMA_ENABLE\<rparr>) s)
      in dma_irq (get_interrupt_type channel) True s1)"

text \<open>The state a caught bus error leaves in the channel.\<close>

definition bus_exception :: "nat \<Rightarrow> dmac \<Rightarrow> dmac" where
  "bus_exception channel s =
     (let x = dma s channel
      in set_chan channel (x\<lparr>c_csr := (c_csr x AND NOT DMA_ENABLE) OR (DMA_COMPLETE OR DMA_BUSEXC)\<rparr>) s)"

definition dma_video_interrupt :: "dmac \<Rightarrow> dmac res" where
  "dma_video_interrupt s =
     (let l = c_limit (dma s CHANNEL_VIDEO)
      in if l = 0xEA then Inr (dma_irq INT_VIDEO True s)
         else if l \<noteq> 0 \<and> l \<noteq> 0xEA then Inl Aborted
         else Inr s)"

section \<open>Memory\<close>

definition mem_getlong :: "(u32 \<Rightarrow> u8) \<Rightarrow> u32 \<Rightarrow> u32" where
  "mem_getlong m a =
     push_bit 24 (ucast (m a)) OR push_bit 16 (ucast (m (a + 1))) OR push_bit 8 (ucast (m (a + 2))) OR ucast (m (a + 3))"

definition mem_putlong :: "u32 \<Rightarrow> u32 \<Rightarrow> (u32 \<Rightarrow> u8) \<Rightarrow> u32 \<Rightarrow> u8" where
  "mem_putlong a v m =
     m(a := ucast (drop_bit 24 v), a + 1 := ucast (drop_bit 16 v), a + 2 := ucast (drop_bit 8 v), a + 3 := ucast v)"

text \<open>Long words in the burst buffers.\<close>

definition dma_getlong :: "(nat \<Rightarrow> u8) \<Rightarrow> int \<Rightarrow> u32 res" where
  "dma_getlong buf pos =
     (if pos < 0 \<or> int DMA_BURST_SIZE \<le> pos + 3 then Inl ArrayOOB
      else let i = nat pos
           in Inr (push_bit 24 (ucast (buf i)) OR push_bit 16 (ucast (buf (i + 1))) OR
                push_bit 8 (ucast (buf (i + 2))) OR ucast (buf (i + 3))))"

definition dma_putlong :: "u32 \<Rightarrow> (nat \<Rightarrow> u8) \<Rightarrow> int \<Rightarrow> (nat \<Rightarrow> u8) res" where
  "dma_putlong v buf pos =
     (if pos < 0 \<or> int DMA_BURST_SIZE \<le> pos + 3 then Inl ArrayOOB
      else let i = nat pos
           in Inr (buf(i := ucast (drop_bit 24 v), i + 1 := ucast (drop_bit 16 v), i + 2 := ucast (drop_bit 8 v),
                i + 3 := ucast v)))"

section \<open>Bursts\<close>

text \<open>
  The operations of a device at its channel: does it offer a byte, take it from the device, does it accept a
  byte, give it to the device, and what happens before a full burst buffer is emptied. \<open>p_offers\<close> and \<open>p_space\<close> bound the number of bytes
  the device can still hand out and accept; they are not part of the code and serve as bounds of the loops.
\<close>

record 'd port =
  p_ready :: "'d \<Rightarrow> bool"
  p_take :: "'d \<Rightarrow> (u8 \<times> 'd) res"
  p_room :: "'d \<Rightarrow> bool"
  p_give :: "u8 \<Rightarrow> 'd \<Rightarrow> 'd res"
  p_toggle :: "'d \<Rightarrow> 'd"
  p_offers :: "'d \<Rightarrow> nat"
  p_space :: "'d \<Rightarrow> nat"

text \<open>
  What the loops of a transfer change: the address registers of the channel, size, limit and bytes of
  its burst buffer, the memory and the device.
\<close>

record 'd xfer =
  x_next :: u32
  x_limit :: u32
  x_size :: int
  x_fill :: int
  x_buf :: "nat \<Rightarrow> u8"
  x_mem :: "u32 \<Rightarrow> u8"
  x_dev :: 'd

text \<open>Device to memory: fill the burst buffer from the device, empty it to memory.\<close>

function fill_burst :: "'d port \<Rightarrow> 'd xfer \<Rightarrow> 'd xfer res" where
  "fill_burst P x =
     (if x_fill x < int DMA_BURST_SIZE \<and> p_ready P (x_dev x) then
        (case p_take P (x_dev x) of
           Inl e \<Rightarrow> Inl e
         | Inr (v, d) \<Rightarrow>
             if x_fill x < 0 then Inl ArrayOOB
             else fill_burst P (x\<lparr>x_buf := (x_buf x)(nat (x_fill x) := v), x_fill := x_fill x + 1,
                    x_size := x_size x + 1, x_dev := d\<rparr>))
      else Inr x)"
  by pat_completeness auto
termination by (relation "measure (\<lambda>(P, x). nat (16 - x_fill x))") auto

function empty_burst :: "bus_env \<Rightarrow> 'd xfer \<Rightarrow> (bool \<times> 'd xfer) res" where
  "empty_burst B x =
     (if x_next x < x_limit x \<and> 0 < x_size x then
        (case dma_getlong (x_buf x) (int DMA_BURST_SIZE - x_size x) of
           Inl e \<Rightarrow> Inl e
         | Inr v \<Rightarrow>
             if m_writable B (x_next x) then
               empty_burst B (x\<lparr>x_mem := mem_putlong (x_next x) v (x_mem x), x_next := x_next x + 4, x_size := x_size x - 4\<rparr>)
             else Inr (True, x))
      else Inr (False, x))"
  by pat_completeness auto
termination by (relation "measure (\<lambda>(B, x). nat (x_size x))") auto

declare fill_burst.simps [simp del] empty_burst.simps [simp del]

fun write_bursts :: "nat \<Rightarrow> 'd port \<Rightarrow> bus_env \<Rightarrow> 'd xfer \<Rightarrow> (bool \<times> 'd xfer) res" where
  "write_bursts 0 P B x = Inl StackOverflow"
| "write_bursts (Suc n) P B x =
     (if x_next x \<le> x_limit x then
        bnd (if x_fill x < int DMA_BURST_SIZE then fill_burst P x else Inr x) (\<lambda>x1.
          if x_fill x1 < int DMA_BURST_SIZE then Inr (False, x1)
          else
            bnd (empty_burst B (x1\<lparr>x_dev := p_toggle P (x_dev x1)\<rparr>)) (\<lambda>(berr, x2).
              if berr \<or> 0 < x_size x2 then Inr (berr, x2)
              else write_bursts n P B (x2\<lparr>x_fill := x_size x2\<rparr>)))
      else Inr (False, x))"

text \<open>Memory to device: fill the burst buffer from memory, empty it to the device.\<close>

function fetch_burst :: "bus_env \<Rightarrow> 'd xfer \<Rightarrow> (bool \<times> 'd xfer) res" where
  "fetch_burst B x =
     (if x_next x < x_limit x \<and> x_fill x < int DMA_BURST_SIZE then
        (if m_readable B (x_next x) then
           (case dma_putlong (mem_getlong (x_mem x) (x_next x)) (x_buf x) (x_fill x) of
              Inl e \<Rightarrow> Inl e
            | Inr buf \<Rightarrow>
                fetch_burst B (x\<lparr>x_buf := buf, x_next := x_next x + 4, x_fill := x_fill x + 4, x_size := x_size x + 4\<rparr>))
         else Inr (True, x))
      else Inr (False, x))"
  by pat_completeness auto
termination by (relation "measure (\<lambda>(B, x). nat (16 - x_fill x))") auto

function drain_burst :: "'d port \<Rightarrow> 'd xfer \<Rightarrow> 'd xfer res" where
  "drain_burst P x =
     (if 0 < x_size x \<and> p_room P (x_dev x) then
        (let i = x_fill x - x_size x
         in if i < 0 \<or> int DMA_BURST_SIZE \<le> i then Inl ArrayOOB
            else
              (case p_give P (x_buf x (nat i)) (x_dev x) of
                 Inl e \<Rightarrow> Inl e
               | Inr d \<Rightarrow> drain_burst P (x\<lparr>x_size := x_size x - 1, x_dev := d\<rparr>)))
      else Inr x)"
  by pat_completeness auto
termination by (relation "measure (\<lambda>(P, x). nat (x_size x))") (auto simp: Let_def)

declare fetch_burst.simps [simp del] drain_burst.simps [simp del]

fun read_bursts :: "nat \<Rightarrow> 'd port \<Rightarrow> bus_env \<Rightarrow> 'd xfer \<Rightarrow> (bool \<times> 'd xfer) res" where
  "read_bursts 0 P B x = Inl StackOverflow"
| "read_bursts (Suc n) P B x =
     (if x_next x < x_limit x then
        bnd (if x_fill x < int DMA_BURST_SIZE then fetch_burst B x else Inr (False, x)) (\<lambda>(berr, x1).
          if berr \<or> x_fill x1 < int DMA_BURST_SIZE then Inr (berr, x1)
          else
            bnd (drain_burst P (x1\<lparr>x_dev := p_toggle P (x_dev x1)\<rparr>)) (\<lambda>x2.
              if 0 < x_size x2 then Inr (False, x2)
              else read_bursts n P B (x2\<lparr>x_fill := x_size x2\<rparr>)))
      else Inr (False, x))"

text \<open>The checks at the start of both directions.\<close>

definition misaligned :: "dma_channel \<Rightarrow> bool" where
  "misaligned x \<longleftrightarrow> c_limit x mod 16 \<noteq> 0 \<or> c_next x mod 4 \<noteq> 0"

section \<open>Optical disk channel\<close>

definition take_ecc :: "dmac \<Rightarrow> (u8 \<times> dmac) res" where
  "take_ecc s =
     (let b = ecc_buffer s (eccout s)
      in bnd (arr_get 1296 (b_data b) (unat (b_limit b - b_size b))) (\<lambda>v.
         Inr (v, s\<lparr>ecc_buffer := (ecc_buffer s)(eccout s := b\<lparr>b_size := b_size b - 1\<rparr>)\<rparr>)))"

definition give_ecc :: "u8 \<Rightarrow> dmac \<Rightarrow> dmac res" where
  "give_ecc v s =
     (let b = ecc_buffer s (eccin s)
      in bnd (arr_put 1296 (b_data b) (unat (b_size b)) v) (\<lambda>a.
         Inr (s\<lparr>ecc_buffer := (ecc_buffer s)(eccin s := b\<lparr>b_data := a, b_size := b_size b + 1\<rparr>)\<rparr>)))"

definition mo_port :: "dmac port" where
  "mo_port =
     \<lparr>p_ready = (\<lambda>s. 0 < b_size (ecc_buffer s (eccout s))), p_take = take_ecc,
      p_room = (\<lambda>s. b_size (ecc_buffer s (eccin s)) < b_limit (ecc_buffer s (eccin s))), p_give = give_ecc,
      p_toggle = (\<lambda>s. s),
      p_offers = (\<lambda>s. unat (b_size (ecc_buffer s (eccout s)))),
      p_space = (\<lambda>s. unat (b_limit (ecc_buffer s (eccin s))) - unat (b_size (ecc_buffer s (eccin s))))\<rparr>"

definition mo_xfer :: "dmac \<Rightarrow> dmac xfer" where
  "mo_xfer s =
     \<lparr>x_next = c_next (dma s CHANNEL_DISK), x_limit = c_limit (dma s CHANNEL_DISK), x_size = modma_buf_size s,
      x_fill = modma_buf_limit s, x_buf = modma_buf s, x_mem = d_mem s, x_dev = s\<rparr>"

definition mo_done :: "bool \<times> dmac xfer \<Rightarrow> dmac" where
  "mo_done r =
     (let x = snd r; s = x_dev x;
          s1 = set_chan CHANNEL_DISK ((dma s CHANNEL_DISK)\<lparr>c_next := x_next x\<rparr>)
            (s\<lparr>modma_buf_size := x_size x, modma_buf_limit := x_fill x, modma_buf := x_buf x, d_mem := x_mem x\<rparr>)
      in if fst r then bus_exception CHANNEL_DISK s1 else s1)"

definition dma_mo_write_memory :: "bus_env \<Rightarrow> dmac \<Rightarrow> dmac res" where
  "dma_mo_write_memory B s =
     (if c_csr (dma s CHANNEL_DISK) AND DMA_ENABLE = 0 then Inr s
      else if misaligned (dma s CHANNEL_DISK) then Inl Aborted
      else bnd (write_bursts (p_offers mo_port s + 2) mo_port B (mo_xfer s)) (\<lambda>r.
             Inr (dma_interrupt CHANNEL_DISK (mo_done r))))"

definition dma_mo_read_memory :: "bus_env \<Rightarrow> dmac \<Rightarrow> dmac res" where
  "dma_mo_read_memory B s =
     (if c_csr (dma s CHANNEL_DISK) AND DMA_ENABLE = 0 then Inr s
      else if misaligned (dma s CHANNEL_DISK) then Inl Aborted
      else bnd (read_bursts (p_space mo_port s + nat (- modma_buf_size s) + 2) mo_port B (mo_xfer s)) (\<lambda>r.
             Inr (dma_interrupt CHANNEL_DISK (mo_done r))))"

section \<open>Flushing the SCSI channel\<close>

definition esp_putlong :: "bus_env \<Rightarrow> dmac \<Rightarrow> (bool \<times> dmac) res" where
  "esp_putlong B s =
     (let x = dma s CHANNEL_SCSI
      in bnd (dma_getlong (espdma_buf s) (espdma_buf_limit s - espdma_buf_size s)) (\<lambda>v.
           if m_writable B (c_next x)
           then Inr (False, s\<lparr>d_mem := mem_putlong (c_next x) v (d_mem s), espdma_buf_size := espdma_buf_size s - 4\<rparr>)
           else Inr (True, s)))"

definition skip_long :: "dmac \<Rightarrow> dmac" where
  "skip_long s = (let x = dma s CHANNEL_SCSI in set_chan CHANNEL_SCSI (x\<lparr>c_next := c_next x + 4\<rparr>) s)"

definition notify :: "u32 \<Rightarrow> u32 \<Rightarrow> dmac \<Rightarrow> dmac" where
  "notify a n s = s\<lparr>notified := notified s @ [(a, n)]\<rparr>"

definition flush_skipped :: "dmac \<Rightarrow> bool" where
  "flush_skipped s \<longleftrightarrow> c_csr (dma s CHANNEL_SCSI) AND DMA_ENABLE = 0 \<or> c_direction (dma s CHANNEL_SCSI) \<noteq> DMA_DEV2M"

definition dma_esp_flush_buffer :: "bus_env \<Rightarrow> dmac \<Rightarrow> dmac res" where
  "dma_esp_flush_buffer B s =
     (if flush_skipped s then Inr s
      else
        bnd (if c_next (dma s CHANNEL_SCSI) < c_limit (dma s CHANNEL_SCSI) then
               bnd (if 0 < espdma_buf_size s then esp_putlong B s else Inr (False, s)) (\<lambda>(berr, s1).
                 if berr then Inr (bus_exception CHANNEL_SCSI s1)
                 else let s2 = skip_long s1 in Inr (notify (c_next (dma s2 CHANNEL_SCSI) - 4) 4 s2))
             else Inr s) (\<lambda>s3. Inr (dma_interrupt CHANNEL_SCSI s3)))"

text \<open>The loop of the Turbo version; the exception leaves it.\<close>

primrec tdma_flush_loop :: "nat \<Rightarrow> bus_env \<Rightarrow> dmac \<Rightarrow> (bool \<times> dmac) res" where
  "tdma_flush_loop 0 B s = Inr (False, s)"
| "tdma_flush_loop (Suc n) B s =
     (if c_next (dma s CHANNEL_SCSI) < c_limit (dma s CHANNEL_SCSI) then
        bnd (if espdma_buf_size s \<noteq> 0 then esp_putlong B s else Inr (False, s)) (\<lambda>(berr, s1).
          if berr then Inr (True, s1) else tdma_flush_loop n B (skip_long s1))
      else tdma_flush_loop n B s)"

definition tdma_flush_buffer :: "bus_env \<Rightarrow> dmac \<Rightarrow> dmac res" where
  "tdma_flush_buffer B s =
     (if flush_skipped s then Inr s
      else
        let tdma_wr_start = c_next (dma s CHANNEL_SCSI)
        in bnd (tdma_flush_loop 4 B s) (\<lambda>(berr, s1).
             let n = c_next (dma s1 CHANNEL_SCSI);
                 s2 = (if berr then bus_exception CHANNEL_SCSI s1
                       else if tdma_wr_start < n then notify tdma_wr_start (n - tdma_wr_start) s1 else s1)
             in Inr (dma_interrupt CHANNEL_SCSI s2)))"

section \<open>Memory to memory\<close>

function m2m_fill :: "bus_env \<Rightarrow> dmac \<Rightarrow> (bool \<times> dmac) res" where
  "m2m_fill B s =
     (if m2m_buffer_size s < int DMA_BURST_SIZE then
        let x = dma s CHANNEL_M2R
        in if \<not> m_readable B (c_next x) then Inr (True, s)
           else if m2m_buffer_size s < 0 then Inl ArrayOOB
           else m2m_fill B (set_chan CHANNEL_M2R (x\<lparr>c_next := c_next x + 1\<rparr>)
                  (s\<lparr>m2m_buffer := (m2m_buffer s)(nat (m2m_buffer_size s) := ucast (d_mem s (c_next x))),
                     m2m_buffer_size := m2m_buffer_size s + 1\<rparr>))
      else Inr (False, s))"
  by pat_completeness auto
termination by (relation "measure (\<lambda>(B, s). nat (16 - m2m_buffer_size s))") (auto simp: set_chan_def)

function m2m_empty :: "bus_env \<Rightarrow> dmac \<Rightarrow> (bool \<times> dmac) res" where
  "m2m_empty B s =
     (if 0 < m2m_buffer_size s then
        let x = dma s CHANNEL_R2M
        in if int DMA_BURST_SIZE < m2m_buffer_size s then Inl ArrayOOB
           else if \<not> m_writable B (c_next x) then Inr (True, s)
           else m2m_empty B (set_chan CHANNEL_R2M (x\<lparr>c_next := c_next x + 1\<rparr>)
                  (s\<lparr>d_mem := (d_mem s)(c_next x := ucast (m2m_buffer s (nat (16 - m2m_buffer_size s)))),
                     m2m_buffer_size := m2m_buffer_size s - 1\<rparr>))
      else Inr (False, s))"
  by pat_completeness auto
termination by (relation "measure (\<lambda>(B, s). nat (m2m_buffer_size s))") (auto simp: set_chan_def)

declare m2m_fill.simps [simp del] m2m_empty.simps [simp del]

definition catch :: "nat \<Rightarrow> (bool \<times> dmac) res \<Rightarrow> dmac res" where
  "catch channel r = bnd r (\<lambda>(berr, s). Inr (if berr then bus_exception channel s else s))"

definition dma_m2m_write_memory :: "bus_env \<Rightarrow> dmac \<Rightarrow> dmac res" where
  "dma_m2m_write_memory B s =
     bnd (if c_next (dma s CHANNEL_R2M) < c_limit (dma s CHANNEL_R2M) then
            bnd (if c_next (dma s CHANNEL_M2R) < c_limit (dma s CHANNEL_M2R)
                 then bnd (catch CHANNEL_M2R (m2m_fill B (s\<lparr>m2m_buffer_size := 0\<rparr>))) (\<lambda>s1. Inr (dma_interrupt CHANNEL_M2R s1))
                 else Inr (s\<lparr>m2m_buffer_size := int DMA_BURST_SIZE\<rparr>))
              (\<lambda>s2. catch CHANNEL_R2M (m2m_empty B s2))
          else Inr s)
       (\<lambda>s3. Inr (dma_interrupt CHANNEL_R2M s3))"

definition m2m_timer :: "dmac \<Rightarrow> dmac res" where
  "m2m_timer s =
     bnd (CycInt_AddRelativeInterruptCycles 4 INTERRUPT_M2M_IO (s_cyc (d_sys s))) (\<lambda>c.
       Inr (s\<lparr>d_sys := (d_sys s)\<lparr>s_cyc := c\<rparr>\<rparr>))"

definition M2MDMA_IO_Handler :: "bus_env \<Rightarrow> dmac \<Rightarrow> dmac res" where
  "M2MDMA_IO_Handler B s =
     bnd (CycInt_AcknowledgeInterrupt (s_cyc (d_sys s))) (\<lambda>c.
       let s1 = s\<lparr>d_sys := (d_sys s)\<lparr>s_cyc := c\<rparr>\<rparr>
       in if c_csr (dma s1 CHANNEL_R2M) AND DMA_ENABLE \<noteq> 0
          then bnd (dma_m2m_write_memory B s1) m2m_timer
          else Inr s1)"

definition dma_m2m :: "dmac \<Rightarrow> dmac res" where
  "dma_m2m s =
     (let r = dma s CHANNEL_R2M; m = dma s CHANNEL_M2R
      in if c_csr m AND DMA_ENABLE \<noteq> 0 \<and> c_csr r AND DMA_ENABLE \<noteq> 0 then
           if (c_limit r - c_next r) mod 16 \<noteq> 0 \<or> (c_limit m - c_next m) mod 16 \<noteq> 0 then Inr s
           else m2m_timer s
         else Inr s)"

section \<open>Control and status register\<close>

text \<open>The four bytes of the register; a byte access of the 68030 leaves the others as they were.\<close>

definition DMA_CSR_Read :: "u32 \<Rightarrow> dmac \<Rightarrow> u8 list res" where
  "DMA_CSR_Read a s = reg_read (\<lambda>x. [c_csr x, 0, 0, 0]) 0 a s"

text \<open>The commands of a write, in the order of the code, on the registers of the channel.\<close>

definition csr_on :: "u8 \<Rightarrow> dma_channel \<Rightarrow> dma_channel" where
  "csr_on flags x = x\<lparr>c_csr := c_csr x OR flags\<rparr>"

definition csr_off :: "u8 \<Rightarrow> dma_channel \<Rightarrow> dma_channel" where
  "csr_off flags x = x\<lparr>c_csr := c_csr x AND NOT flags\<rparr>"

definition upd_chan :: "nat \<Rightarrow> (dma_channel \<Rightarrow> dma_channel) \<Rightarrow> dmac \<Rightarrow> dmac" where
  "upd_chan c f s = set_chan c (f (dma s c)) s"

definition csr_enable :: "nat \<Rightarrow> dmac \<Rightarrow> dmac res" where
  "csr_enable c s =
     (let s1 = upd_chan c (csr_on DMA_ENABLE) s
      in if c = CHANNEL_R2M \<or> c = CHANNEL_M2R then
           dma_m2m (if c_next (dma s1 c) = c_limit (dma s1 c) then upd_chan c (csr_off DMA_ENABLE) s1 else s1)
         else Inr s1)"

definition DMA_CSR_Write :: "u32 \<Rightarrow> u8 \<Rightarrow> u8 \<Rightarrow> u8 \<Rightarrow> u8 \<Rightarrow> dmac \<Rightarrow> dmac res" where
  "DMA_CSR_Write a v0 v1 v2 v3 s =
     bnd (reg_channel 0 a) (\<lambda>c.
       let w = v0 OR v1 OR v2 OR v3;
           s1 = upd_chan c (c_direction_update (\<lambda>_. w AND DMA_DEV2M)) s;
           s2 = (if w AND DMA_RESET \<noteq> 0 then upd_chan c (csr_off (DMA_COMPLETE OR DMA_SUPDATE OR DMA_ENABLE)) s1 else s1);
           s3 = (if w AND DMA_INITBUF \<noteq> 0 then dma_initialize_buffer c 0 s2 else s2);
           s4 = (if w AND DMA_SETSUPDATE \<noteq> 0 then upd_chan c (csr_on DMA_SUPDATE) s3 else s3)
       in bnd (if w AND DMA_SETENABLE \<noteq> 0 then csr_enable c s4 else Inr s4) (\<lambda>s5.
            let s6 = (if w AND DMA_CLRCOMPLETE \<noteq> 0 then upd_chan c (csr_off DMA_COMPLETE) s5 else s5)
            in Inr (dma_irq (get_interrupt_type c) False s6)))"

definition TDMA_CSR_Read :: "u32 \<Rightarrow> dmac \<Rightarrow> u32 res" where
  "TDMA_CSR_Read a s = reg_read (\<lambda>x. push_bit 24 (ucast (c_csr x))) 0 a s"

definition TDMA_CSR_Write :: "u32 \<Rightarrow> u32 \<Rightarrow> dmac \<Rightarrow> dmac res" where
  "TDMA_CSR_Write a w s =
     bnd (reg_channel 0 a) (\<lambda>c.
       let s1 = upd_chan c (c_direction_update (\<lambda>_. ucast (drop_bit 16 w) AND DMA_DEV2M)) s;
           s2 = (if w AND 0x00100000 \<noteq> 0 then upd_chan c (csr_off (DMA_COMPLETE OR DMA_SUPDATE OR DMA_ENABLE)) s1 else s1);
           s3 = (if w AND 0x00800000 \<noteq> 0 then dma_initialize_buffer c 0 s2 else s2);
           s4 = (if w AND 0x00020000 \<noteq> 0 then upd_chan c (csr_on DMA_SUPDATE) s3 else s3);
           s5 = (if w AND 0x00010000 \<noteq> 0 then upd_chan c (csr_on DMA_ENABLE) s4 else s4);
           s6 = (if w AND 0x00080000 \<noteq> 0 then upd_chan c (csr_off DMA_COMPLETE) s5 else s5)
       in Inr (dma_irq (get_interrupt_type c) False s6))"

section \<open>Channels without a burst buffer\<close>

text \<open>A byte moved forward: the address is still below the limit, so it does not wrap around.\<close>

lemma closer: "a < (b :: u32) \<Longrightarrow> unat (b - (a + 1)) < unat (b - a)"
proof -
  assume a: "a < b"
  then have "unat a < unat b" "unat b < 2 ^ 32" using unsigned_less [of b] by (simp_all add: word_less_nat_alt)
  moreover from this have "unat (a + 1) = Suc (unat a)" by (simp add: unat_word_ariths)
  ultimately show ?thesis by (simp add: unat_sub_if' word_le_nat_alt)
qed

text \<open>Sound output returns the length it was asked for and the bytes it has read.\<close>

function sndout_loop :: "bus_env \<Rightarrow> u8 list \<Rightarrow> dmac \<Rightarrow> bool \<times> u8 list \<times> dmac" where
  "sndout_loop B bs s =
     (let x = dma s CHANNEL_SOUNDOUT
      in if c_next x < c_limit x then
           if m_readable B (c_next x)
           then sndout_loop B (bs @ [d_mem s (c_next x)]) (set_chan CHANNEL_SOUNDOUT (x\<lparr>c_next := c_next x + 1\<rparr>) s)
           else (True, bs, s)
         else (False, bs, s))"
  by pat_completeness auto
termination
  by (relation "measure (\<lambda>(B, bs, s). unat (c_limit (dma s CHANNEL_SOUNDOUT) - c_next (dma s CHANNEL_SOUNDOUT)))")
    (auto simp: set_chan_def closer)

definition dma_sndout_read_memory :: "bus_env \<Rightarrow> dmac \<Rightarrow> int \<times> u8 list option \<times> dmac" where
  "dma_sndout_read_memory B s =
     (let x = dma s CHANNEL_SOUNDOUT
      in if c_csr x AND DMA_ENABLE \<noteq> 0 then
           let s1 = (if c_limit x AND 3 \<noteq> 0 \<or> c_next x AND 3 \<noteq> 0
                     then set_chan CHANNEL_SOUNDOUT (x\<lparr>c_next := c_next x AND NOT 3, c_limit := c_limit x AND NOT 3\<rparr>) s
                     else s);
               x1 = dma s1 CHANNEL_SOUNDOUT;
               (berr, bs, s2) = sndout_loop B [] s1
           in (sint (c_limit x1 - c_next x1), Some bs, if berr then bus_exception CHANNEL_SOUNDOUT s2 else s2)
         else (0, None, s))"

definition dma_sndout_intr :: "dmac \<Rightarrow> dmac" where
  "dma_sndout_intr s =
     (if c_csr (dma s CHANNEL_SOUNDOUT) AND DMA_ENABLE \<noteq> 0 then dma_interrupt CHANNEL_SOUNDOUT s else s)"

text \<open>Sound input takes samples from a recorder; a negative one means that there is none.\<close>

function sndin_loop :: "bus_env \<Rightarrow> ('a \<Rightarrow> int \<times> 'a) \<Rightarrow> 'a \<Rightarrow> dmac \<Rightarrow> bool \<times> 'a \<times> dmac" where
  "sndin_loop B rd a s =
     (let x = dma s CHANNEL_SOUNDIN
      in if c_next x < c_limit x then
           (case rd a of (v, a1) \<Rightarrow>
             if v < 0 then (False, a1, s)
             else if m_writable B (c_next x)
             then sndin_loop B rd a1 (set_chan CHANNEL_SOUNDIN (x\<lparr>c_next := c_next x + 1\<rparr>)
                    (s\<lparr>d_mem := (d_mem s)(c_next x := word_of_int v)\<rparr>))
             else (True, a1, s))
         else (False, a, s))"
  by pat_completeness auto
termination
  by (relation "measure (\<lambda>(B, rd, a, s). unat (c_limit (dma s CHANNEL_SOUNDIN) - c_next (dma s CHANNEL_SOUNDIN)))")
    (auto simp: set_chan_def closer)

definition dma_sndin_write_memory :: "bus_env \<Rightarrow> ('a \<Rightarrow> int \<times> 'a) \<Rightarrow> 'a \<Rightarrow> dmac \<Rightarrow> bool \<times> 'a \<times> dmac" where
  "dma_sndin_write_memory B rd a s =
     (if c_csr (dma s CHANNEL_SOUNDIN) AND DMA_ENABLE \<noteq> 0 then
        let (berr, a1, s1) = sndin_loop B rd a s;
            s2 = (if berr then bus_exception CHANNEL_SOUNDIN s1 else s1);
            s3 = upd_chan CHANNEL_SOUNDIN (\<lambda>x. x\<lparr>c_saved_limit := c_next x\<rparr>) s2;
            s4 = dma_interrupt CHANNEL_SOUNDIN s3
        in (c_next (dma s4 CHANNEL_SOUNDIN) = c_limit (dma s4 CHANNEL_SOUNDIN), a1, s4)
      else (True, a, s))"

abbreviation "NET_BUFFER \<equiv> (65536 :: nat)"

text \<open>A byte into a buffer of the printer or the network, and one out of it.\<close>

definition net_put :: "u8 \<Rightarrow> net_buffer \<Rightarrow> net_buffer res" where
  "net_put v b =
     (if n_size b < 0 \<or> int NET_BUFFER \<le> n_size b then Inl ArrayOOB
      else Inr (b\<lparr>n_data := (n_data b)(nat (n_size b) := v), n_size := n_size b + 1\<rparr>))"

definition net_get :: "net_buffer \<Rightarrow> (u8 \<times> net_buffer) res" where
  "net_get b =
     (let i = n_limit b - n_size b
      in if i < 0 \<or> int NET_BUFFER \<le> i then Inl ArrayOOB
         else Inr (n_data b (nat i), b\<lparr>n_size := n_size b - 1\<rparr>))"

function printer_loop :: "bus_env \<Rightarrow> dmac \<Rightarrow> (bool \<times> dmac) res" where
  "printer_loop B s =
     (let x = dma s CHANNEL_PRINTER
      in if c_next x < c_limit x \<and> n_size (lp_buffer s) < n_limit (lp_buffer s) then
           if m_readable B (c_next x) then
             (case net_put (d_mem s (c_next x)) (lp_buffer s) of
                Inl e \<Rightarrow> Inl e
              | Inr b \<Rightarrow> printer_loop B (set_chan CHANNEL_PRINTER (x\<lparr>c_next := c_next x + 1\<rparr>) (s\<lparr>lp_buffer := b\<rparr>)))
           else Inr (True, s)
         else Inr (False, s))"
  by pat_completeness auto
termination
  by (relation "measure (\<lambda>(B, s). unat (c_limit (dma s CHANNEL_PRINTER) - c_next (dma s CHANNEL_PRINTER)))")
    (auto simp: set_chan_def closer)

definition dma_printer_read_memory :: "bus_env \<Rightarrow> dmac \<Rightarrow> dmac res" where
  "dma_printer_read_memory B s =
     (let x = dma s CHANNEL_PRINTER
      in if c_csr x AND DMA_ENABLE \<noteq> 0 then
           if c_limit x mod 4 \<noteq> 0 \<or> c_next x mod 4 \<noteq> 0 then Inl Aborted
           else bnd (catch CHANNEL_PRINTER (printer_loop B s)) (\<lambda>s1. Inr (dma_interrupt CHANNEL_PRINTER s1))
         else Inr s)"

function enet_write_loop :: "bus_env \<Rightarrow> dmac \<Rightarrow> (bool \<times> dmac) res" where
  "enet_write_loop B s =
     (let x = dma s CHANNEL_EN_RX
      in if c_next x < c_limit x \<and> 0 < n_size (enet_rx_buffer s) then
           (case net_get (enet_rx_buffer s) of
              Inl e \<Rightarrow> Inl e
            | Inr (v, b) \<Rightarrow>
                if m_writable B (c_next x)
                then enet_write_loop B (set_chan CHANNEL_EN_RX (x\<lparr>c_next := c_next x + 1\<rparr>)
                       (s\<lparr>d_mem := (d_mem s)(c_next x := v), enet_rx_buffer := b\<rparr>))
                else Inr (True, s))
         else Inr (False, s))"
  by pat_completeness auto
termination
  by (relation "measure (\<lambda>(B, s). unat (c_limit (dma s CHANNEL_EN_RX) - c_next (dma s CHANNEL_EN_RX)))")
    (auto simp: set_chan_def closer)

definition dma_enet_write_memory :: "bus_env \<Rightarrow> bool \<Rightarrow> dmac \<Rightarrow> dmac res" where
  "dma_enet_write_memory B eop s =
     (let x = dma s CHANNEL_EN_RX
      in if c_csr x AND DMA_ENABLE = 0 then Inr s
         else if c_limit x mod 16 \<noteq> 0 \<or> c_next x mod 16 \<noteq> 0 then Inl Aborted
         else bnd (catch CHANNEL_EN_RX (enet_write_loop B s)) (\<lambda>s1.
           let s2 = (if n_size (enet_rx_buffer s1) = 0 then
                       let t = (if eop then upd_chan CHANNEL_EN_RX (\<lambda>x. x\<lparr>c_next := c_next x OR EN_BOP\<rparr>) s1 else s1)
                       in upd_chan CHANNEL_EN_RX (\<lambda>x. x\<lparr>c_saved_limit := c_next x\<rparr>) t
                     else s1)
           in Inr (dma_enet_interrupt CHANNEL_EN_RX s2)))"

definition ENADDR :: "u32 \<Rightarrow> u32" where
  "ENADDR x = x AND NOT (EN_EOP OR EN_BOP)"

function enet_read_loop :: "bus_env \<Rightarrow> dmac \<Rightarrow> (bool \<times> dmac) res" where
  "enet_read_loop B s =
     (let x = dma s CHANNEL_EN_TX
      in if c_next x < ENADDR (c_limit x) \<and> n_size (enet_tx_buffer s) < n_limit (enet_tx_buffer s) then
           if m_readable B (c_next x) then
             (case net_put (d_mem s (c_next x)) (enet_tx_buffer s) of
                Inl e \<Rightarrow> Inl e
              | Inr b \<Rightarrow> enet_read_loop B (set_chan CHANNEL_EN_TX (x\<lparr>c_next := c_next x + 1\<rparr>) (s\<lparr>enet_tx_buffer := b\<rparr>)))
           else Inr (True, s)
         else Inr (False, s))"
  by pat_completeness auto
termination
  by (relation "measure (\<lambda>(B, s). unat (ENADDR (c_limit (dma s CHANNEL_EN_TX)) - c_next (dma s CHANNEL_EN_TX)))")
    (auto simp: set_chan_def closer)

definition dma_enet_read_memory :: "bus_env \<Rightarrow> dmac \<Rightarrow> (bool \<times> dmac) res" where
  "dma_enet_read_memory B s =
     (if c_csr (dma s CHANNEL_EN_TX) AND DMA_ENABLE \<noteq> 0 then
        bnd (catch CHANNEL_EN_TX (enet_read_loop B s)) (\<lambda>s1.
          Inr (c_limit (dma s1 CHANNEL_EN_TX) AND EN_EOP \<noteq> 0, dma_enet_interrupt CHANNEL_EN_TX s1))
      else Inr (False, s))"

text \<open>The signal processor moves one byte per call.\<close>

definition dsp_done :: "dmac \<Rightarrow> dmac" where
  "dsp_done s =
     (if c_next (dma s CHANNEL_DSP) = c_limit (dma s CHANNEL_DSP)
      then dma_interrupt CHANNEL_DSP (s\<lparr>irqb_calls := irqb_calls s + 1\<rparr>) else s)"

definition dma_dsp_write_memory :: "bus_env \<Rightarrow> u8 \<Rightarrow> dmac \<Rightarrow> dmac" where
  "dma_dsp_write_memory B v s =
     (let x = dma s CHANNEL_DSP
      in if c_csr x AND DMA_ENABLE = 0 then s
         else dsp_done
           (if c_next x < c_limit x then
              if m_writable B (c_next x)
              then set_chan CHANNEL_DSP (x\<lparr>c_next := c_next x + 1\<rparr>) (s\<lparr>d_mem := (d_mem s)(c_next x := v)\<rparr>)
              else bus_exception CHANNEL_DSP s
            else s))"

definition dma_dsp_read_memory :: "bus_env \<Rightarrow> dmac \<Rightarrow> u8 \<times> dmac" where
  "dma_dsp_read_memory B s =
     (let x = dma s CHANNEL_DSP
      in if c_csr x AND DMA_ENABLE = 0 then (0, s)
         else if c_next x < c_limit x then
           if m_readable B (c_next x)
           then (d_mem s (c_next x), dsp_done (set_chan CHANNEL_DSP (x\<lparr>c_next := c_next x + 1\<rparr>) s))
           else (0, dsp_done (bus_exception CHANNEL_DSP s))
         else (0, dsp_done s))"

definition dma_dsp_ready :: "dmac \<Rightarrow> bool" where
  "dma_dsp_ready s \<longleftrightarrow>
     c_csr (dma s CHANNEL_DSP) AND DMA_ENABLE \<noteq> 0 \<and> c_next (dma s CHANNEL_DSP) < c_limit (dma s CHANNEL_DSP)"

text \<open>The serial channel has no handler for a bus error: the exception leaves the function.\<close>

function dma_scc_read_memory :: "bus_env \<Rightarrow> dmac \<Rightarrow> bool \<times> dmac" where
  "dma_scc_read_memory B s =
     (let x = dma s CHANNEL_SCC
      in if c_next x < c_limit x then
           if m_readable B (c_next x)
           then dma_scc_read_memory B (set_chan CHANNEL_SCC (x\<lparr>c_next := c_next x + 1\<rparr>) (s\<lparr>scc_buf := d_mem s (c_next x)\<rparr>))
           else (True, s)
         else (False, dma_interrupt CHANNEL_SCC s))"
  by pat_completeness auto
termination
  by (relation "measure (\<lambda>(B, s). unat (c_limit (dma s CHANNEL_SCC) - c_next (dma s CHANNEL_SCC)))")
    (auto simp: set_chan_def closer)

declare sndout_loop.simps [simp del] sndin_loop.simps [simp del] printer_loop.simps [simp del]
  enet_write_loop.simps [simp del] enet_read_loop.simps [simp del] dma_scc_read_memory.simps [simp del]

section \<open>Bytes in memory\<close>

primrec put_bytes :: "u32 \<Rightarrow> u8 list \<Rightarrow> (u32 \<Rightarrow> u8) \<Rightarrow> u32 \<Rightarrow> u8" where
  "put_bytes a [] m = m"
| "put_bytes a (b # bs) m = put_bytes (a + 1) bs (m(a := b))"

definition get_bytes :: "u32 \<Rightarrow> nat \<Rightarrow> (u32 \<Rightarrow> u8) \<Rightarrow> u8 list" where
  "get_bytes a n m = map (\<lambda>i. m (a + of_nat i)) [0 ..< n]"

lemma length_get_bytes [simp]: "length (get_bytes a n m) = n"
  by (simp add: get_bytes_def)

lemma get_bytes_add: "get_bytes a (m + n) f = get_bytes a m f @ get_bytes (a + of_nat m) n f"
  by (induction n) (simp_all add: get_bytes_def add.assoc)

lemma get_bytes_Suc: "get_bytes a (Suc n) f = f a # get_bytes (a + 1) n f"
  using get_bytes_add [of a 1 n f] by (simp add: get_bytes_def)

lemma put_bytes_append: "put_bytes a (xs @ ys) m = put_bytes (a + of_nat (length xs)) ys (put_bytes a xs m)"
  by (induction xs arbitrary: a m) (simp_all add: add.assoc)

text \<open>Addresses outside the range written keep their bytes; \<open>d\<close> is the distance from its start.\<close>

lemma put_bytes_other: "length bs \<le> unat (x - a) \<Longrightarrow> put_bytes a bs m x = m x"
proof (induction bs arbitrary: a m)
  case (Cons b bs)
  have n0: "x - a \<noteq> 0" using Cons.prems by (auto simp: unat_eq_0 [symmetric])
  have "x - (a + 1) = (x - a) - 1" by simp
  then have "unat (x - (a + 1)) = unat (x - a) - 1" using n0 by (metis unat_minus_one)
  then show ?case using Cons n0 by auto
qed simp

lemma put_bytes_at:
  "i < length bs \<Longrightarrow> length bs \<le> 2 ^ 32 \<Longrightarrow> put_bytes a bs m (a + of_nat i) = bs ! i"
proof (induction bs arbitrary: a m i)
  case (Cons b bs)
  show ?case
  proof (cases i)
    case 0
    have "length bs \<le> unat (a - (a + 1))" using Cons.prems(2) by (simp add: unsigned_minus_1_eq_mask mask_eq_exp_minus_1)
    then show ?thesis using 0 put_bytes_other [of bs a "a + 1" "m(a := b)"] by simp
  next
    case (Suc j)
    have "put_bytes (a + 1) bs (m(a := b)) (a + 1 + of_nat j) = bs ! j" using Cons Suc by simp
    then show ?thesis using Suc by (simp add: add.assoc)
  qed
qed simp

lemma get_put_bytes: "length bs \<le> 2 ^ 32 \<Longrightarrow> get_bytes a (length bs) (put_bytes a bs m) = bs"
  by (rule nth_equalityI) (simp_all add: get_bytes_def put_bytes_at)

lemma get_bytes_cong: "(\<And>i. i < n \<Longrightarrow> f (a + of_nat i) = g (a + of_nat i)) \<Longrightarrow> get_bytes a n f = get_bytes a n g"
  by (simp add: get_bytes_def)

text \<open>A long word is its four bytes, high byte first.\<close>

definition long_of :: "u8 \<Rightarrow> u8 \<Rightarrow> u8 \<Rightarrow> u8 \<Rightarrow> u32" where
  "long_of b0 b1 b2 b3 = push_bit 24 (ucast b0) OR push_bit 16 (ucast b1) OR push_bit 8 (ucast b2) OR ucast b3"

lemma long_of_bytes [simp]:
  "ucast (drop_bit 24 (long_of b0 b1 b2 b3)) = b0" "ucast (drop_bit 16 (long_of b0 b1 b2 b3)) = b1"
  "ucast (drop_bit 8 (long_of b0 b1 b2 b3)) = b2" "ucast (long_of b0 b1 b2 b3) = b3"
  by (rule bit_word_eqI; auto simp: long_of_def bit_simps dest: bit_imp_le_length)+

lemma mem_putlong_bytes: "mem_putlong a (long_of b0 b1 b2 b3) m = put_bytes a [b0, b1, b2, b3] m"
proof -
  have "a + 1 + 1 = a + 2" "a + 1 + 1 + 1 = a + 3" "a + 2 + 1 = a + 3" by simp_all
  then show ?thesis by (simp add: mem_putlong_def add.commute)
qed

lemma mem_getlong_bytes: "mem_getlong m a = long_of (m a) (m (a + 1)) (m (a + 2)) (m (a + 3))"
  by (simp add: mem_getlong_def long_of_def)

lemma dma_getlong_bytes:
  "i + 3 < 16 \<Longrightarrow> dma_getlong buf (int i) = Inr (long_of (buf i) (buf (i + 1)) (buf (i + 2)) (buf (i + 3)))"
  by (simp add: dma_getlong_def long_of_def)

lemma dma_putlong_bytes:
  "i + 3 < 16 \<Longrightarrow> dma_putlong (long_of b0 b1 b2 b3) buf (int i) = Inr (buf(i := b0, i + 1 := b1, i + 2 := b2, i + 3 := b3))"
  by (simp add: dma_putlong_def)

section \<open>Devices that hand out bytes\<close>

text \<open>
  The interface of a device as the source of a transfer: taking a byte uses up what it offers, and
  the step before a full buffer is emptied does not affect the bytes it hands out.
\<close>

locale byte_source =
  fixes P :: "'d port"
  assumes take_offers: "p_ready P d \<Longrightarrow> p_take P d = Inr (v, e) \<Longrightarrow> Suc (p_offers P e) \<le> p_offers P d"
    and offers_toggle [simp]: "p_offers P (p_toggle P d) = p_offers P d"
    and ready_toggle [simp]: "p_ready P (p_toggle P d) = p_ready P d"
    and take_toggle: "p_take P d = Inr (v, e) \<Longrightarrow> p_take P (p_toggle P d) = Inr (v, p_toggle P e)"
    and take_bound [simp]: "p_take P d \<noteq> Inl StackOverflow"

text \<open>\<open>takes P bs d e\<close>: the device hands out the bytes \<open>bs\<close> one after the other, from state \<open>d\<close> to \<open>e\<close>.\<close>

primrec takes :: "'d port \<Rightarrow> u8 list \<Rightarrow> 'd \<Rightarrow> 'd \<Rightarrow> bool" where
  "takes P [] d e \<longleftrightarrow> e = d"
| "takes P (b # bs) d e \<longleftrightarrow> p_ready P d \<and> (\<exists>d1. p_take P d = Inr (b, d1) \<and> takes P bs d1 e)"

lemma takes_append: "takes P (xs @ ys) d e \<longleftrightarrow> (\<exists>c. takes P xs d c \<and> takes P ys c e)"
  by (induction xs arbitrary: d) auto

lemma empty_bound: "empty_burst B x \<noteq> Inl StackOverflow"
proof (induction B x rule: empty_burst.induct)
  case (1 B x)
  then show ?case
    by (subst empty_burst.simps) (auto simp: dma_getlong_def Let_def split: sum.split)
qed

lemma empty_keeps:
  "empty_burst B x = Inr (b, y) \<Longrightarrow> x_dev y = x_dev x \<and> x_fill y = x_fill x \<and> x_limit y = x_limit x"
proof (induction "nat (x_size x)" arbitrary: x rule: less_induct)
  case less
  show ?case
  proof (cases "x_next x < x_limit x \<and> 0 < x_size x")
    case True
    show ?thesis
    proof (cases "b = True \<and> y = x")
      case False
      with less.prems True obtain v where
        "empty_burst B (x\<lparr>x_mem := mem_putlong (x_next x) v (x_mem x), x_next := x_next x + 4, x_size := x_size x - 4\<rparr>) = Inr (b, y)"
        by (subst (asm) empty_burst.simps) (auto split: sum.splits if_splits)
      from less.hyps [OF _ this] show ?thesis using True by simp
    qed simp
  next
    case False
    then have "y = x" using less.prems by (subst (asm) empty_burst.simps) auto
    then show ?thesis by simp
  qed
qed

context byte_source
begin

lemma fill_bound: "fill_burst P x \<noteq> Inl StackOverflow"
proof (induction "nat (16 - x_fill x)" arbitrary: x rule: less_induct)
  case less
  then show ?case
    by (subst fill_burst.simps) (auto split: sum.split dest: arg_cong [of _ _ "\<lambda>r. r \<noteq> Inl StackOverflow"])
qed

lemma fill_offers:
  "fill_burst P x = Inr y \<Longrightarrow> p_offers P (x_dev y) + nat (x_fill y) \<le> p_offers P (x_dev x) + nat (x_fill x) \<and> x_fill x \<le> x_fill y"
proof (induction "nat (16 - x_fill x)" arbitrary: x rule: less_induct)
  case less
  show ?case
  proof (cases "x_fill x < 16 \<and> p_ready P (x_dev x)")
    case True
    with less.prems obtain v d where t: "p_take P (x_dev x) = Inr (v, d)" "0 \<le> x_fill x"
      "fill_burst P (x\<lparr>x_buf := (x_buf x)(nat (x_fill x) := v), x_fill := x_fill x + 1, x_size := x_size x + 1, x_dev := d\<rparr>) = Inr y"
      by (subst (asm) fill_burst.simps) (auto split: sum.splits if_splits)
    show ?thesis using less.hyps [OF _ t(3)] take_offers [OF _ t(1)] True t(2) by auto
  next
    case False
    then have "y = x" using less.prems by (subst (asm) fill_burst.simps) auto
    then show ?thesis by simp
  qed
qed

lemma write_enough:
  "p_offers P (x_dev x) + (if x_fill x < 16 then 1 else 2) \<le> n \<Longrightarrow> write_bursts n P B x \<noteq> Inl StackOverflow"
proof (induction n arbitrary: x)
  case (Suc n)
  define r where "r = (if x_fill x < int DMA_BURST_SIZE then fill_burst P x else Inr x)"
  have step: "write_bursts n P B (x2\<lparr>x_fill := x_size x2\<rparr>) \<noteq> Inl StackOverflow"
    if r: "r = Inr x1" "\<not> x_fill x1 < 16" and x2: "empty_burst B (x1\<lparr>x_dev := p_toggle P (x_dev x1)\<rparr>) = Inr (b, x2)"
      "\<not> 0 < x_size x2" for x1 x2 b
  proof (rule Suc.IH)
    have d: "x_dev x2 = p_toggle P (x_dev x1)" using empty_keeps [OF x2(1)] by simp
    have "p_offers P (x_dev x1) + (if x_fill x < 16 then 1 else 0) \<le> p_offers P (x_dev x)"
    proof (cases "x_fill x < 16")
      case True
      then have "fill_burst P x = Inr x1" using r(1) by (simp add: r_def)
      from fill_offers [OF this] show ?thesis using True r(2) by auto
    next
      case False
      then show ?thesis using r(1) by (simp add: r_def)
    qed
    then show "p_offers P (x_dev (x2\<lparr>x_fill := x_size x2\<rparr>)) + (if x_fill (x2\<lparr>x_fill := x_size x2\<rparr>) < 16 then 1 else 2) \<le> n"
      using Suc.prems x2(2) by (auto simp: d split: if_splits)
  qed
  have rb: "r \<noteq> Inl StackOverflow" using fill_bound by (simp add: r_def)
  have w: "write_bursts (Suc n) P B x =
    (if x_next x \<le> x_limit x then
       bnd r (\<lambda>x1. if x_fill x1 < 16 then Inr (False, x1)
         else bnd (empty_burst B (x1\<lparr>x_dev := p_toggle P (x_dev x1)\<rparr>)) (\<lambda>(berr, x2).
           if berr \<or> 0 < x_size x2 then Inr (berr, x2) else write_bursts n P B (x2\<lparr>x_fill := x_size x2\<rparr>)))
     else Inr (False, x))" by (simp add: r_def)
  show ?case
    unfolding w using rb step empty_bound [of B] by (auto simp: bnd_eq_Inl split: if_splits)
qed (simp split: if_splits)

end

lemma unat_advance: "unat (a :: u32) + k \<le> unat (b :: u32) \<Longrightarrow> unat (a + of_nat k) = unat a + k"
proof -
  assume a: "unat a + k \<le> unat b"
  have "unat b < 2 ^ LENGTH(32)" by (rule unsigned_less)
  with a show ?thesis by (simp add: unat_word_ariths unsigned_of_nat take_bit_eq_mod)
qed

text \<open>The burst buffer after \<open>bs\<close> has been put into it from position \<open>k\<close> on.\<close>

definition buf_with :: "nat \<Rightarrow> u8 list \<Rightarrow> (nat \<Rightarrow> u8) \<Rightarrow> nat \<Rightarrow> u8" where
  "buf_with k bs f i = (if k \<le> i \<and> i < k + length bs then bs ! (i - k) else f i)"

lemma buf_with_Nil [simp]: "buf_with k [] f = f"
  by (intro ext) (auto simp: buf_with_def)

lemma buf_with_Cons: "buf_with k (b # bs) f = buf_with (Suc k) bs (f(k := b))"
  by (intro ext) (auto simp: buf_with_def nth_Cons' Suc_diff_le)

lemma buf_with_get: "map (buf_with 0 bs f) [0 ..< length bs] = bs"
  by (rule nth_equalityI) (simp_all add: buf_with_def)

text \<open>Emptying: \<open>4 * k\<close> bytes of the buffer go to memory.\<close>

lemma empty_burst_run:
  "x_size x = int (4 * k) \<Longrightarrow> k \<le> 4 \<Longrightarrow> unat (x_next x) + 4 * k \<le> unat (x_limit x) \<Longrightarrow>
   (\<And>j. j < k \<Longrightarrow> m_writable B (x_next x + 4 * of_nat j)) \<Longrightarrow>
   empty_burst B x = Inr (False, x\<lparr>x_size := 0, x_next := x_next x + of_nat (4 * k),
     x_mem := put_bytes (x_next x) (map (x_buf x) [16 - 4 * k ..< 16]) (x_mem x)\<rparr>)"
proof (induction k arbitrary: x)
  case 0
  then have "\<not> 0 < x_size x" by simp
  then show ?case using 0 by (subst empty_burst.simps) (simp add: xfer.equality)
next
  case (Suc k)
  define i where "i = 16 - 4 * Suc k"
  let ?y = "x\<lparr>x_mem := put_bytes (x_next x) [x_buf x i, x_buf x (i + 1), x_buf x (i + 2), x_buf x (i + 3)] (x_mem x),
    x_next := x_next x + 4, x_size := int (4 * k)\<rparr>"
  have lt: "x_next x < x_limit x" using Suc.prems(3) by (simp add: word_less_nat_alt)
  have w: "m_writable B (x_next x)" using Suc.prems(4) [of 0] by simp
  have i: "int 16 - x_size x = int i" "i + 3 < 16" "x_size x - 4 = int (4 * k)" "0 < x_size x"
    using Suc.prems(1,2) by (simp_all add: i_def)
  have e: "empty_burst B x = empty_burst B ?y"
    by (subst empty_burst.simps)
      (simp only: i lt w dma_getlong_bytes [OF i(2)] mem_putlong_bytes if_True simp_thms sum.case)
  have nx: "unat (x_next x + 4) = unat (x_next x) + 4"
    using unat_advance [of "x_next x" 4 "x_limit x"] Suc.prems(3) by simp
  have wr: "m_writable B (x_next x + 4 + 4 * of_nat j)" if "j < k" for j
    using Suc.prems(4) [of "Suc j"] that by (simp add: algebra_simps)
  have m: "map (x_buf x) [16 - 4 * Suc k ..< 16] =
      [x_buf x i, x_buf x (i + 1), x_buf x (i + 2), x_buf x (i + 3)] @ map (x_buf x) [16 - 4 * k ..< 16]"
  proof -
    have "16 - 4 * k = Suc (Suc (Suc (Suc i)))" using Suc.prems(2) by (simp add: i_def)
    then have "[i ..< 16] = [i, i + 1, i + 2, i + 3] @ [16 - 4 * k ..< 16]" using i(2) by (simp add: upt_conv_Cons)
    then show ?thesis unfolding i_def [symmetric] by (simp only: map_append list.map)
  qed
  have ih: "empty_burst B ?y = Inr (False, ?y\<lparr>x_size := 0, x_next := x_next x + 4 + of_nat (4 * k),
      x_mem := put_bytes (x_next x + 4) (map (x_buf x) [16 - 4 * k ..< 16]) (x_mem ?y)\<rparr>)"
    using Suc.IH [of ?y] nx wr Suc.prems(2,3) by (simp del: put_bytes.simps)
  have p: "put_bytes (x_next x) (map (x_buf x) [16 - 4 * Suc k ..< 16]) (x_mem x) =
      put_bytes (x_next x + 4) (map (x_buf x) [16 - 4 * k ..< 16]) (x_mem ?y)"
    unfolding m put_bytes_append by (simp del: put_bytes.simps)
  have n: "x_next x + of_nat (4 * Suc k) = x_next x + 4 + of_nat (4 * k)" by simp
  show ?case unfolding e ih p n by (simp del: put_bytes.simps)
qed

context byte_source
begin

lemma takes_toggle: "takes P bs d e \<Longrightarrow> takes P bs (p_toggle P d) (p_toggle P e)"
  by (induction bs arbitrary: d) (auto dest: take_toggle)

lemma toggle_funpow [simp]: "p_ready P ((p_toggle P ^^ n) d) = p_ready P d"
  by (induction n) simp_all

lemma fill_run:
  "takes P bs (x_dev x) e \<Longrightarrow> x_fill x = int k \<Longrightarrow> k + length bs \<le> 16 \<Longrightarrow> k + length bs = 16 \<or> \<not> p_ready P e \<Longrightarrow>
   fill_burst P x = Inr (x\<lparr>x_buf := buf_with k bs (x_buf x), x_fill := x_fill x + int (length bs),
     x_size := x_size x + int (length bs), x_dev := e\<rparr>)"
proof (induction bs arbitrary: x k)
  case Nil
  then show ?case by (subst fill_burst.simps) auto
next
  case (Cons b bs)
  then obtain d where d: "p_ready P (x_dev x)" "p_take P (x_dev x) = Inr (b, d)" "takes P bs d e" by auto
  let ?y = "x\<lparr>x_buf := (x_buf x)(k := b), x_fill := x_fill x + 1, x_size := x_size x + 1, x_dev := d\<rparr>"
  have "fill_burst P x = fill_burst P ?y" using d(1,2) Cons.prems(2,3) by (subst fill_burst.simps) simp
  then show ?case using Cons.IH [of ?y "Suc k"] d(3) Cons.prems by (simp add: buf_with_Cons fun_upd_def add.assoc)
qed

text \<open>
  A transfer of \<open>16 * m\<close> bytes that the device hands out before it has no more, to memory without
  bus errors.
\<close>

lemma write_run:
  "takes P bs (x_dev x) e \<Longrightarrow> \<not> p_ready P e \<Longrightarrow> length bs = 16 * m \<Longrightarrow> x_size x = 0 \<Longrightarrow> x_fill x = 0 \<Longrightarrow>
   unat (x_next x) + 16 * m = unat (x_limit x) \<Longrightarrow> (\<And>j. j < 4 * m \<Longrightarrow> m_writable B (x_next x + 4 * of_nat j)) \<Longrightarrow>
   m < n \<Longrightarrow>
   \<exists>buf. write_bursts n P B x = Inr (False, x\<lparr>x_buf := buf, x_next := x_limit x,
     x_mem := put_bytes (x_next x) bs (x_mem x), x_dev := (p_toggle P ^^ m) e\<rparr>)"
proof (induction m arbitrary: n x bs e)
  case 0
  then obtain k where n: "n = Suc k" by (cases n) auto
  have e: "bs = []" "e = x_dev x" "x_next x = x_limit x" using 0 by (auto simp: word_unat_eq_iff)
  have "fill_burst P x = Inr x" using e 0 by (subst fill_burst.simps) simp
  then have "write_bursts n P B x = Inr (False, x\<lparr>x_buf := x_buf x, x_next := x_limit x,
     x_mem := put_bytes (x_next x) bs (x_mem x), x_dev := (p_toggle P ^^ 0) e\<rparr>)"
    using e 0 by (simp add: n xfer.equality)
  then show ?case by blast
next
  case (Suc m)
  then obtain k where n: "n = Suc k" "m < k" by (cases n) auto
  let ?xs = "take 16 bs" and ?ys = "drop 16 bs"
  have len: "length ?xs = 16" "length ?ys = 16 * m" using Suc.prems(3) by simp_all
  obtain c where c: "takes P ?xs (x_dev x) c" "takes P ?ys c e"
    using Suc.prems(1) takes_append [of P ?xs ?ys] by auto
  define x1 where "x1 = x\<lparr>x_buf := buf_with 0 ?xs (x_buf x), x_fill := 16, x_size := 16, x_dev := c\<rparr>"
  have f: "fill_burst P x = Inr x1"
    using fill_run [OF c(1), of 0] len(1) Suc.prems(4,5) by (simp add: x1_def)
  let ?x2 = "x1\<lparr>x_dev := p_toggle P c\<rparr>"
  define x3 where "x3 = ?x2\<lparr>x_size := 0, x_next := x_next x + 16, x_mem := put_bytes (x_next x) ?xs (x_mem x)\<rparr>"
  have g: "map (x_buf ?x2) [0 ..< 16] = ?xs" using buf_with_get [of ?xs "x_buf x"] len(1) by (simp add: x1_def)
  have w: "m_writable B (x_next ?x2 + 4 * of_nat j)" if "j < 4" for j using Suc.prems(7) [of j] that by (simp add: x1_def)
  have "empty_burst B ?x2 = Inr (False, x3)"
    using empty_burst_run [of ?x2 4 B] w g Suc.prems(6) by (simp add: x3_def x1_def)
  then have s: "write_bursts n P B x = write_bursts k P B (x3\<lparr>x_fill := 0\<rparr>)"
    using f Suc.prems(4-6) by (simp add: n(1) word_le_nat_alt) (simp add: x1_def x3_def)
  let ?x4 = "x3\<lparr>x_fill := 0\<rparr>"
  have nx: "unat (x_next x + 16) = unat (x_next x) + 16"
    using unat_advance [of "x_next x" 16 "x_limit x"] Suc.prems(6) by simp
  have wr: "m_writable B (x_next x + 16 + 4 * of_nat j)" if "j < 4 * m" for j
    using Suc.prems(7) [of "4 + j"] that by (simp add: algebra_simps)
  obtain buf where b: "write_bursts k P B ?x4 = Inr (False, ?x4\<lparr>x_buf := buf, x_next := x_limit x,
     x_mem := put_bytes (x_next x + 16) ?ys (x_mem x3), x_dev := (p_toggle P ^^ m) (p_toggle P e)\<rparr>)"
    using Suc.IH [of ?ys ?x4 "p_toggle P e" k] takes_toggle [OF c(2)] Suc.prems(2,6) len(2) nx wr n(2)
    by (auto simp: x3_def x1_def)
  have p: "put_bytes (x_next x) bs (x_mem x) = put_bytes (x_next x + 16) ?ys (put_bytes (x_next x) ?xs (x_mem x))"
    using put_bytes_append [of "x_next x" ?xs ?ys "x_mem x"] len(1) by simp
  have "write_bursts n P B x = Inr (False, x\<lparr>x_buf := buf, x_next := x_limit x,
     x_mem := put_bytes (x_next x) bs (x_mem x), x_dev := (p_toggle P ^^ Suc m) e\<rparr>)"
    using s b Suc.prems(4,5) by (simp add: p x3_def x1_def funpow_swap1 xfer.equality)
  then show ?case by blast
qed

end

section \<open>Devices that accept bytes\<close>

text \<open>The interface of a device as the target of a transfer.\<close>

locale byte_sink =
  fixes P :: "'d port"
  assumes give_space: "p_room P d \<Longrightarrow> p_give P v d = Inr e \<Longrightarrow> Suc (p_space P e) \<le> p_space P d"
    and space_toggle [simp]: "p_space P (p_toggle P d) = p_space P d"
    and room_toggle [simp]: "p_room P (p_toggle P d) = p_room P d"
    and give_toggle: "p_give P v d = Inr e \<Longrightarrow> p_give P v (p_toggle P d) = Inr (p_toggle P e)"
    and give_bound [simp]: "p_give P v d \<noteq> Inl StackOverflow"

primrec gives :: "'d port \<Rightarrow> u8 list \<Rightarrow> 'd \<Rightarrow> 'd \<Rightarrow> bool" where
  "gives P [] d e \<longleftrightarrow> e = d"
| "gives P (b # bs) d e \<longleftrightarrow> p_room P d \<and> (\<exists>d1. p_give P b d = Inr d1 \<and> gives P bs d1 e)"

lemma gives_append: "gives P (xs @ ys) d e \<longleftrightarrow> (\<exists>c. gives P xs d c \<and> gives P ys c e)"
  by (induction xs arbitrary: d) auto

lemma fetch_keeps:
  "fetch_burst B x = Inr (b, y) \<Longrightarrow> x_dev y = x_dev x \<and> x_size y - x_size x = x_fill y - x_fill x"
proof (induction "nat (16 - x_fill x)" arbitrary: x rule: less_induct)
  case less
  show ?case
  proof (cases "x_next x < x_limit x \<and> x_fill x < 16 \<and> \<not> (b = True \<and> y = x)")
    case True
    with less.prems obtain buf where
      "fetch_burst B (x\<lparr>x_buf := buf, x_next := x_next x + 4, x_fill := x_fill x + 4, x_size := x_size x + 4\<rparr>) = Inr (b, y)"
      by (subst (asm) fetch_burst.simps) (auto split: sum.splits if_splits)
    from less.hyps [OF _ this] show ?thesis using True by simp
  next
    case False
    then have "y = x" using less.prems by (subst (asm) fetch_burst.simps) (auto split: if_splits)
    then show ?thesis by simp
  qed
qed

lemma fetch_bound: "fetch_burst B x \<noteq> Inl StackOverflow"
proof (induction B x rule: fetch_burst.induct)
  case (1 B x)
  then show ?case
    by (subst fetch_burst.simps) (auto simp: dma_putlong_def Let_def split: sum.split)
qed

text \<open>Filling from memory: \<open>4 * k\<close> bytes end the buffer.\<close>

lemma fetch_burst_run:
  "x_fill x = 16 - int (4 * k) \<Longrightarrow> k \<le> 4 \<Longrightarrow> unat (x_next x) + 4 * k \<le> unat (x_limit x) \<Longrightarrow>
   (\<And>j. j < k \<Longrightarrow> m_readable B (x_next x + 4 * of_nat j)) \<Longrightarrow>
   fetch_burst B x = Inr (False, x\<lparr>x_fill := 16, x_size := x_size x + int (4 * k), x_next := x_next x + of_nat (4 * k),
     x_buf := buf_with (16 - 4 * k) (get_bytes (x_next x) (4 * k) (x_mem x)) (x_buf x)\<rparr>)"
proof (induction k arbitrary: x)
  case 0
  then show ?case by (subst fetch_burst.simps) (simp add: xfer.equality get_bytes_def)
next
  case (Suc k)
  define i where "i = 16 - 4 * Suc k"
  let ?m = "x_mem x" and ?a = "x_next x"
  define f where "f = (x_buf x)(i := ?m ?a, i + 1 := ?m (?a + 1), i + 2 := ?m (?a + 2), i + 3 := ?m (?a + 3))"
  let ?y = "x\<lparr>x_buf := f,
    x_next := ?a + 4, x_fill := x_fill x + 4, x_size := x_size x + 4\<rparr>"
  have lt: "?a < x_limit x" using Suc.prems(3) by (simp add: word_less_nat_alt)
  have r: "m_readable B ?a" using Suc.prems(4) [of 0] by simp
  have i: "x_fill x = int i" "i + 3 < 16" "int i < int 16" using Suc.prems(1,2) by (simp_all add: i_def)
  have e: "fetch_burst B x = fetch_burst B ?y"
    by (subst fetch_burst.simps)
      (simp only: i lt r mem_getlong_bytes dma_putlong_bytes [OF i(2)] f_def if_True simp_thms sum.case)
  have nx: "unat (?a + 4) = unat ?a + 4" using unat_advance [of ?a 4 "x_limit x"] Suc.prems(3) by simp
  have rd: "m_readable B (?a + 4 + 4 * of_nat j)" if "j < k" for j
    using Suc.prems(4) [of "Suc j"] that by (simp add: algebra_simps)
  have ih: "fetch_burst B ?y = Inr (False, ?y\<lparr>x_fill := 16, x_size := x_size ?y + int (4 * k), x_next := ?a + 4 + of_nat (4 * k),
      x_buf := buf_with (16 - 4 * k) (get_bytes (?a + 4) (4 * k) ?m) (x_buf ?y)\<rparr>)"
    using Suc.IH [of ?y] nx rd Suc.prems(1-3) by simp
  have g: "get_bytes ?a (4 * Suc k) ?m = [?m ?a, ?m (?a + 1), ?m (?a + 2), ?m (?a + 3)] @ get_bytes (?a + 4) (4 * k) ?m"
    using get_bytes_add [of ?a 4 "4 * k" ?m] by (simp add: get_bytes_Suc numeral_eq_Suc add.assoc) 
  have j: "16 - 4 * k = Suc (Suc (Suc (Suc i)))" using Suc.prems(2) by (simp add: i_def)
  have b: "buf_with (16 - 4 * Suc k) (get_bytes ?a (4 * Suc k) ?m) (x_buf x) =
      buf_with (16 - 4 * k) (get_bytes (?a + 4) (4 * k) ?m) (x_buf ?y)"
    unfolding g i_def [symmetric] j by (simp add: buf_with_Cons numeral_eq_Suc f_def)
  have n: "?a + of_nat (4 * Suc k) = ?a + 4 + of_nat (4 * k)" "x_size x + int (4 * Suc k) = x_size ?y + int (4 * k)" by simp_all
  show ?case unfolding e ih b n by simp
qed

context byte_sink
begin

lemma gives_toggle: "gives P bs d e \<Longrightarrow> gives P bs (p_toggle P d) (p_toggle P e)"
  by (induction bs arbitrary: d) (auto dest: give_toggle)

lemma drain_bound: "drain_burst P x \<noteq> Inl StackOverflow"
proof (induction "nat (x_size x)" arbitrary: x rule: less_induct)
  case less
  then show ?case
    by (subst drain_burst.simps)
      (auto simp: Let_def split: sum.split dest: arg_cong [of _ _ "\<lambda>r. r \<noteq> Inl StackOverflow"])
qed

lemma drain_space:
  "drain_burst P x = Inr y \<Longrightarrow> x_fill y = x_fill x \<and> (if x_size x \<le> 0 then y = x
    else 0 \<le> x_size y \<and> x_size y \<le> x_size x \<and> p_space P (x_dev y) + nat (x_size x - x_size y) \<le> p_space P (x_dev x))"
proof (induction "nat (x_size x)" arbitrary: x rule: less_induct)
  case less
  show ?case
  proof (cases "0 < x_size x \<and> p_room P (x_dev x)")
    case True
    with less.prems obtain v d where t: "p_give P v (x_dev x) = Inr d"
      "drain_burst P (x\<lparr>x_size := x_size x - 1, x_dev := d\<rparr>) = Inr y"
      by (subst (asm) drain_burst.simps) (auto simp: Let_def split: sum.splits if_splits)
    show ?thesis using less.hyps [OF _ t(2)] give_space [OF _ t(1)] True by (auto split: if_splits)
  next
    case False
    then have "y = x" using less.prems by (subst (asm) drain_burst.simps) auto
    then show ?thesis by simp
  qed
qed

lemma drain_run:
  "gives P bs (x_dev x) e \<Longrightarrow> x_fill x = 16 \<Longrightarrow> x_size x = int (length bs) \<Longrightarrow> length bs \<le> 16 \<Longrightarrow>
   bs = map (x_buf x) [16 - length bs ..< 16] \<Longrightarrow>
   drain_burst P x = Inr (x\<lparr>x_size := 0, x_dev := e\<rparr>)"
proof (induction bs arbitrary: x)
  case Nil
  then show ?case by (subst drain_burst.simps) (simp add: xfer.equality)
next
  case (Cons b bs)
  then obtain d where d: "p_room P (x_dev x)" "p_give P b (x_dev x) = Inr d" "gives P bs d e" by auto
  define i where "i = 16 - length (b # bs)"
  have u: "[16 - length (b # bs) ..< 16] = i # [16 - length bs ..< 16]"
  proof -
    have s: "16 - length bs = Suc i" and lt: "i < 16" using Cons.prems(4) by (simp_all add: i_def)
    show ?thesis unfolding i_def [symmetric] s by (rule upt_conv_Cons [OF lt])
  qed
  have b: "b = x_buf x i" "bs = map (x_buf x) [16 - length bs ..< 16]" using Cons.prems(5) unfolding u by simp_all
  have i: "x_fill x - x_size x = int i" "i < 16" using Cons.prems(2-4) by (simp_all add: i_def)
  let ?y = "x\<lparr>x_size := int (length bs), x_dev := d\<rparr>"
  have s: "x_size x - 1 = int (length bs)" "0 < x_size x" using Cons.prems(3) by simp_all
  have "drain_burst P x = drain_burst P ?y"
    using i(2) d(1,2) by (subst drain_burst.simps) (simp add: i(1) s Let_def b(1) [symmetric])
  then show ?case using Cons.IH [of ?y] d(3) Cons.prems(2,4) b(2) by simp
qed

lemma read_enough:
  "p_space P (x_dev x) + nat (- x_size x) + (if x_fill x < 16 then 1 else 2) \<le> n \<Longrightarrow> read_bursts n P B x \<noteq> Inl StackOverflow"
proof (induction n arbitrary: x)
  case (Suc n)
  define r where "r = (if x_fill x < int DMA_BURST_SIZE then fetch_burst B x else Inr (False, x))"
  have step: "read_bursts n P B (x2\<lparr>x_fill := x_size x2\<rparr>) \<noteq> Inl StackOverflow"
    if r: "r = Inr (b, x1)" "\<not> x_fill x1 < 16" and x2: "drain_burst P (x1\<lparr>x_dev := p_toggle P (x_dev x1)\<rparr>) = Inr x2"
      "\<not> 0 < x_size x2" for x1 x2 b
  proof (rule Suc.IH)
    have f: "x_dev x1 = x_dev x \<and> x_size x1 - x_size x = x_fill x1 - x_fill x \<and> (16 \<le> x_fill x \<longrightarrow> x1 = x)"
      using r(1) fetch_keeps [of B x b x1] by (auto simp: r_def split: if_splits)
    show "p_space P (x_dev (x2\<lparr>x_fill := x_size x2\<rparr>)) + nat (- x_size (x2\<lparr>x_fill := x_size x2\<rparr>)) +
        (if x_fill (x2\<lparr>x_fill := x_size x2\<rparr>) < 16 then 1 else 2) \<le> n"
      using drain_space [OF x2(1)] f Suc.prems x2(2) r(2) by (auto split: if_splits)
  qed
  have rb: "r \<noteq> Inl StackOverflow" using fetch_bound [of B x] by (simp add: r_def)
  have w: "read_bursts (Suc n) P B x =
    (if x_next x < x_limit x then
       bnd r (\<lambda>(berr, x1). if berr \<or> x_fill x1 < 16 then Inr (berr, x1)
         else bnd (drain_burst P (x1\<lparr>x_dev := p_toggle P (x_dev x1)\<rparr>)) (\<lambda>x2.
           if 0 < x_size x2 then Inr (False, x2) else read_bursts n P B (x2\<lparr>x_fill := x_size x2\<rparr>)))
     else Inr (False, x))" by (simp add: r_def)
  show ?case
    unfolding w using rb step drain_bound by (auto simp: bnd_eq_Inl split: if_splits)
qed (simp split: if_splits)

text \<open>A transfer of \<open>16 * m\<close> bytes of memory that the device accepts.\<close>

lemma read_run:
  "gives P (get_bytes (x_next x) (16 * m) (x_mem x)) (x_dev x) e \<Longrightarrow> x_size x = 0 \<Longrightarrow> x_fill x = 0 \<Longrightarrow>
   unat (x_next x) + 16 * m = unat (x_limit x) \<Longrightarrow> (\<And>j. j < 4 * m \<Longrightarrow> m_readable B (x_next x + 4 * of_nat j)) \<Longrightarrow>
   m < n \<Longrightarrow>
   \<exists>buf. read_bursts n P B x = Inr (False, x\<lparr>x_buf := buf, x_next := x_limit x, x_dev := (p_toggle P ^^ m) e\<rparr>)"
proof (induction m arbitrary: n x e)
  case 0
  then obtain k where n: "n = Suc k" by (cases n) auto
  have e: "e = x_dev x" "x_next x = x_limit x" using 0 by (auto simp: word_unat_eq_iff get_bytes_def)
  have "read_bursts n P B x = Inr (False, x\<lparr>x_buf := x_buf x, x_next := x_limit x, x_dev := (p_toggle P ^^ 0) e\<rparr>)"
    using e by (simp add: n xfer.equality)
  then show ?case by blast
next
  case (Suc m)
  then obtain k where n: "n = Suc k" "m < k" by (cases n) auto
  let ?a = "x_next x"
  let ?xs = "get_bytes ?a 16 (x_mem x)" and ?ys = "get_bytes (?a + 16) (16 * m) (x_mem x)"
  have "get_bytes ?a (16 * Suc m) (x_mem x) = ?xs @ ?ys" using get_bytes_add [of ?a 16 "16 * m" "x_mem x"] by simp
  then obtain c where c: "gives P ?xs (x_dev x) c" "gives P ?ys c e" using Suc.prems(1) by (auto simp: gives_append)
  have rd: "m_readable B (?a + 4 * of_nat j)" if "j < 4 * Suc m" for j using Suc.prems(5) that by simp
  define x1 where "x1 = x\<lparr>x_fill := 16, x_size := 16, x_next := ?a + 16, x_buf := buf_with 0 ?xs (x_buf x)\<rparr>"
  have f: "fetch_burst B x = Inr (False, x1)"
    using fetch_burst_run [of x 4 B] Suc.prems(2-4) rd by (simp add: x1_def)
  let ?x2 = "x1\<lparr>x_dev := p_toggle P (x_dev x)\<rparr>"
  have dr: "drain_burst P ?x2 = Inr (?x2\<lparr>x_size := 0, x_dev := p_toggle P c\<rparr>)"
  proof (rule drain_run [of ?xs])
    show "gives P ?xs (x_dev ?x2) (p_toggle P c)" using gives_toggle [OF c(1)] by simp
    show "?xs = map (x_buf ?x2) [16 - length ?xs ..< 16]"
      using buf_with_get [of ?xs "x_buf x"] by (simp add: x1_def)
  qed (simp_all add: x1_def)
  define x4 where "x4 = x\<lparr>x_next := ?a + 16, x_buf := buf_with 0 ?xs (x_buf x), x_dev := p_toggle P c\<rparr>"
  have lt: "?a < x_limit x" using Suc.prems(4) by (simp add: word_less_nat_alt)
  have x: "x_dev x1 = x_dev x" "x_fill x1 = 16" by (simp_all add: x1_def)
  have x4: "?x2\<lparr>x_size := 0, x_dev := p_toggle P c\<rparr>\<lparr>x_fill := 0\<rparr> = x4"
    using Suc.prems(2,3) by (simp add: x1_def x4_def xfer.equality)
  have s: "read_bursts n P B x = read_bursts k P B x4"
    using f lt Suc.prems(3) dr x4 by (simp add: n(1) x)
  have nx: "unat (?a + 16) = unat ?a + 16" using unat_advance [of ?a 16 "x_limit x"] Suc.prems(4) by simp
  have wr: "m_readable B (?a + 16 + 4 * of_nat j)" if "j < 4 * m" for j
    using rd [of "4 + j"] that by (simp add: algebra_simps)
  obtain buf where b: "read_bursts k P B x4 = Inr (False, x4\<lparr>x_buf := buf, x_next := x_limit x4,
      x_dev := (p_toggle P ^^ m) (p_toggle P e)\<rparr>)"
    using Suc.IH [of x4 "p_toggle P e" k] gives_toggle [OF c(2)] Suc.prems(2-4) nx wr n(2) by (auto simp: x4_def)
  have "read_bursts n P B x = Inr (False, x\<lparr>x_buf := buf, x_next := x_limit x, x_dev := (p_toggle P ^^ Suc m) e\<rparr>)"
    using s b by (simp add: x4_def funpow_swap1)
  then show ?case by blast
qed

end

section \<open>The optical disk channel\<close>

lemma unat_dec: "0 < (a :: u32) \<Longrightarrow> Suc (unat (a - 1)) = unat a"
proof -
  assume "0 < a"
  then have "a \<noteq> 0" "0 < unat a" by (auto simp: word_less_nat_alt)
  then show ?thesis by (simp add: unat_minus_one)
qed

lemma unat_succ: "a < (b :: u32) \<Longrightarrow> unat (a + 1) = Suc (unat a)"
  using unat_advance [of a 1 b] by (simp add: word_less_nat_alt)

interpretation mo_source: byte_source mo_port
proof
  fix d :: dmac and v e
  assume "p_ready mo_port d" "p_take mo_port d = Inr (v, e)"
  then show "Suc (p_offers mo_port e) \<le> p_offers mo_port d"
    by (auto simp: mo_port_def take_ecc_def Let_def bnd_eq_Inr unat_dec)
qed (auto simp: mo_port_def take_ecc_def arr_get_def Let_def)

interpretation mo_sink: byte_sink mo_port
proof
  fix d :: dmac and v e
  assume r: "p_room mo_port d" "p_give mo_port v d = Inr e"
  let ?b = "ecc_buffer d (eccin d)"
  have lt: "b_size ?b < b_limit ?b" using r(1) by (simp add: mo_port_def)
  obtain a where e: "e = d\<lparr>ecc_buffer := (ecc_buffer d)(eccin d := ?b\<lparr>b_data := a, b_size := b_size ?b + 1\<rparr>)\<rparr>"
    using r(2) by (auto simp: mo_port_def give_ecc_def Let_def bnd_eq_Inr)
  show "Suc (p_space mo_port e) \<le> p_space mo_port d"
    using lt unat_succ [OF lt] by (simp add: mo_port_def e word_less_nat_alt)
qed (auto simp: mo_port_def give_ecc_def arr_put_def Let_def)

lemma mo_done_def2:
  "mo_done (b, x) = (let s = x_dev x;
     s1 = set_chan CHANNEL_DISK ((dma s CHANNEL_DISK)\<lparr>c_next := x_next x\<rparr>)
       (s\<lparr>modma_buf_size := x_size x, modma_buf_limit := x_fill x, modma_buf := x_buf x, d_mem := x_mem x\<rparr>)
     in if b then bus_exception CHANNEL_DISK s1 else s1)"
  by (simp add: mo_done_def Let_def)

lemma mo_write_bound: "dma_mo_write_memory B s \<noteq> Inl StackOverflow"
  using mo_source.write_enough [of "mo_xfer s" "p_offers mo_port s + 2" B]
  by (auto simp: dma_mo_write_memory_def bnd_eq_Inl mo_xfer_def split: if_splits)

lemma mo_read_bound: "dma_mo_read_memory B s \<noteq> Inl StackOverflow"
  using mo_sink.read_enough [of "mo_xfer s" "p_space mo_port s + nat (- modma_buf_size s) + 2" B]
  by (auto simp: dma_mo_read_memory_def bnd_eq_Inl mo_xfer_def split: if_splits)

text \<open>What the correction buffer hands out: its last \<open>b_size\<close> bytes before \<open>b_limit\<close>.\<close>

definition ecc_bytes :: "io_buffer \<Rightarrow> u8 list" where
  "ecc_bytes b = map (b_data b) [unat (b_limit b) - unat (b_size b) ..< unat (b_limit b)]"

definition ecc_emptied :: "dmac \<Rightarrow> dmac" where
  "ecc_emptied s = s\<lparr>ecc_buffer := (ecc_buffer s)(eccout s := (ecc_buffer s (eccout s))\<lparr>b_size := 0\<rparr>)\<rparr>"

lemma mo_takes:
  "unat (b_size (ecc_buffer s (eccout s))) = n \<Longrightarrow> n \<le> unat (b_limit (ecc_buffer s (eccout s))) \<Longrightarrow>
   unat (b_limit (ecc_buffer s (eccout s))) \<le> 1296 \<Longrightarrow>
   takes mo_port (ecc_bytes (ecc_buffer s (eccout s))) s (ecc_emptied s)"
proof (induction n arbitrary: s)
  case 0
  then have "b_size (ecc_buffer s (eccout s)) = 0" by (simp add: unat_eq_0)
  then have "(ecc_buffer s)(eccout s := (ecc_buffer s (eccout s))\<lparr>b_size := 0\<rparr>) = ecc_buffer s"
    by (simp add: fun_upd_idem io_buffer.equality)
  then show ?case using 0 by (simp add: ecc_bytes_def ecc_emptied_def)
next
  case (Suc n)
  let ?b = "ecc_buffer s (eccout s)"
  define t where "t = s\<lparr>ecc_buffer := (ecc_buffer s)(eccout s := ?b\<lparr>b_size := b_size ?b - 1\<rparr>)\<rparr>"
  have pos: "0 < b_size ?b" using Suc.prems(1) by (metis Zero_neq_Suc unat_0 word_gt_0)
  have n: "unat (b_size ?b - 1) = n" using unat_dec [OF pos] Suc.prems(1) by simp
  have le: "b_size ?b \<le> b_limit ?b" using Suc.prems(1,2) by (simp add: word_le_nat_alt)
  define i where "i = unat (b_limit ?b) - Suc n"
  have i: "unat (b_limit ?b - b_size ?b) = i" "i < 1296" "Suc i = unat (b_limit ?b) - n" "i < unat (b_limit ?b)"
    using Suc.prems le by (simp_all add: i_def unat_sub)
  have tk: "p_take mo_port s = Inr (b_data ?b i, t)"
    using i(1,2) by (simp add: mo_port_def take_ecc_def Let_def t_def)
  have bs: "ecc_bytes ?b = b_data ?b i # ecc_bytes (ecc_buffer t (eccout t))"
    using Suc.prems(1) n i(3) upt_conv_Cons [OF i(4)] by (simp add: ecc_bytes_def t_def i_def [symmetric])
  have "takes mo_port (ecc_bytes (ecc_buffer t (eccout t))) t (ecc_emptied t)"
    using Suc.IH [of t] n Suc.prems by (simp add: t_def)
  moreover have "ecc_emptied t = ecc_emptied s" by (simp add: ecc_emptied_def t_def)
  ultimately show ?case using pos tk unfolding bs by (auto simp: mo_port_def)
qed

text \<open>The state after a complete transfer: the channel has reached its limit and interrupts.\<close>

definition channel_done :: "nat \<Rightarrow> dma_channel \<Rightarrow> dma_channel" where
  "channel_done c x =
     (let x1 = x\<lparr>c_next := c_limit x, c_csr := c_csr x OR DMA_COMPLETE\<rparr>
      in if c_csr x1 AND DMA_SUPDATE \<noteq> 0
         then x1\<lparr>c_next := c_start x, c_limit := c_stop x, c_csr := c_csr x1 AND NOT DMA_SUPDATE\<rparr>
         else x1\<lparr>c_csr := c_csr x1 AND NOT DMA_ENABLE\<rparr>)"

lemma dma_interrupt_done:
  assumes "dma s c = x\<lparr>c_next := c_limit x\<rparr>"
  shows "dma_interrupt c s = dma_irq (get_interrupt_type c) True (set_chan c (channel_done c x) s)"
  by (simp add: dma_interrupt_def channel_done_def assms Let_def)

lemma mo_write_complete:
  assumes "c_csr (dma s CHANNEL_DISK) AND DMA_ENABLE \<noteq> 0" "\<not> misaligned (dma s CHANNEL_DISK)"
    "modma_buf_size s = 0" "modma_buf_limit s = 0"
    "unat (b_limit (ecc_buffer s (eccout s))) \<le> 1296" "b_size (ecc_buffer s (eccout s)) \<le> b_limit (ecc_buffer s (eccout s))"
    "unat (b_size (ecc_buffer s (eccout s))) = 16 * m"
    "unat (c_next (dma s CHANNEL_DISK)) + 16 * m = unat (c_limit (dma s CHANNEL_DISK))"
    "\<And>j. j < 4 * m \<Longrightarrow> m_writable B (c_next (dma s CHANNEL_DISK) + 4 * of_nat j)"
  shows "\<exists>buf. dma_mo_write_memory B s =
    Inr (dma_irq 0x02000000 True (set_chan CHANNEL_DISK (channel_done CHANNEL_DISK (dma s CHANNEL_DISK))
      ((ecc_emptied s)\<lparr>modma_buf_size := 0, modma_buf_limit := 0, modma_buf := buf,
        d_mem := put_bytes (c_next (dma s CHANNEL_DISK)) (ecc_bytes (ecc_buffer s (eccout s))) (d_mem s)\<rparr>)))"
proof -
  let ?b = "ecc_buffer s (eccout s)" and ?x = "dma s CHANNEL_DISK"
  have tk: "takes mo_port (ecc_bytes ?b) s (ecc_emptied s)"
    using mo_takes [of s "16 * m"] assms(5-7) by (simp add: word_le_nat_alt)
  have nr: "\<not> p_ready mo_port (ecc_emptied s)" by (simp add: mo_port_def ecc_emptied_def)
  have len: "length (ecc_bytes ?b) = 16 * m" using assms(6,7) by (simp add: ecc_bytes_def word_le_nat_alt)
  have fu: "m < p_offers mo_port s + 2" using assms(7) by (simp add: mo_port_def)
  have tg: "(p_toggle mo_port ^^ m) (ecc_emptied s) = ecc_emptied s" by (induction m) (simp_all add: mo_port_def)
  obtain buf where w: "write_bursts (p_offers mo_port s + 2) mo_port B (mo_xfer s) = Inr (False, (mo_xfer s)\<lparr>x_buf := buf,
      x_next := c_limit ?x, x_mem := put_bytes (c_next ?x) (ecc_bytes ?b) (d_mem s), x_dev := ecc_emptied s\<rparr>)"
    using mo_source.write_run [of "ecc_bytes ?b" "mo_xfer s" "ecc_emptied s" m B "p_offers mo_port s + 2"]
      tk nr len fu assms(3,4,8,9) by (auto simp: tg mo_xfer_def)
  let ?t = "set_chan CHANNEL_DISK (?x\<lparr>c_next := c_limit ?x\<rparr>)
    ((ecc_emptied s)\<lparr>modma_buf_size := 0, modma_buf_limit := 0, modma_buf := buf,
        d_mem := put_bytes (c_next ?x) (ecc_bytes ?b) (d_mem s)\<rparr>)"
  have d: "dma (ecc_emptied s) = dma s" by (simp add: ecc_emptied_def)
  have "dma_mo_write_memory B s = Inr (dma_interrupt CHANNEL_DISK ?t)"
    using assms(1-4) w by (simp add: dma_mo_write_memory_def mo_done_def2 Let_def d mo_xfer_def)
  also have "dma_interrupt CHANNEL_DISK ?t = dma_irq 0x02000000 True (set_chan CHANNEL_DISK (channel_done CHANNEL_DISK ?x) ?t)"
    using dma_interrupt_done [of ?t CHANNEL_DISK ?x] by (simp add: set_chan_def get_interrupt_type_def)
  finally show ?thesis by (auto simp: set_chan_def intro!: exI [of _ buf])
qed

text \<open>What the correction buffer accepts: bytes from its size on, up to its limit.\<close>

definition ecc_filled :: "u8 list \<Rightarrow> dmac \<Rightarrow> dmac" where
  "ecc_filled bs s =
     (let b = ecc_buffer s (eccin s)
      in s\<lparr>ecc_buffer := (ecc_buffer s)(eccin s := b\<lparr>b_data := buf_with (unat (b_size b)) bs (b_data b),
           b_size := b_size b + of_nat (length bs)\<rparr>)\<rparr>)"

lemma mo_gives:
  "unat (b_size (ecc_buffer s (eccin s))) + length bs \<le> unat (b_limit (ecc_buffer s (eccin s))) \<Longrightarrow>
   unat (b_limit (ecc_buffer s (eccin s))) \<le> 1296 \<Longrightarrow> gives mo_port bs s (ecc_filled bs s)"
proof (induction bs arbitrary: s)
  case Nil
  then show ?case by (simp add: ecc_filled_def Let_def fun_upd_idem io_buffer.equality)
next
  case (Cons v bs)
  let ?b = "ecc_buffer s (eccin s)"
  define k where "k = unat (b_size ?b)"
  define t where "t = s\<lparr>ecc_buffer := (ecc_buffer s)(eccin s := ?b\<lparr>b_data := (b_data ?b)(k := v), b_size := b_size ?b + 1\<rparr>)\<rparr>"
  have lt: "b_size ?b < b_limit ?b" using Cons.prems(1) by (simp add: word_less_nat_alt)
  have k: "k < 1296" "unat (b_size ?b + 1) = Suc k" using Cons.prems unat_succ [OF lt] by (simp_all add: k_def)
  have gv: "p_give mo_port v s = Inr t"
    using k(1) by (simp add: mo_port_def give_ecc_def Let_def t_def k_def)
  have "gives mo_port bs t (ecc_filled bs t)"
    using Cons.IH [of t] Cons.prems k(2) by (simp add: t_def k_def)
  moreover have "ecc_filled bs t = ecc_filled (v # bs) s"
    using k(2) by (simp add: ecc_filled_def Let_def t_def k_def buf_with_Cons add.assoc)
  ultimately show ?case using lt gv by (auto simp: mo_port_def)
qed

lemma mo_read_complete:
  assumes "c_csr (dma s CHANNEL_DISK) AND DMA_ENABLE \<noteq> 0" "\<not> misaligned (dma s CHANNEL_DISK)"
    "modma_buf_size s = 0" "modma_buf_limit s = 0"
    "unat (b_limit (ecc_buffer s (eccin s))) \<le> 1296"
    "unat (b_size (ecc_buffer s (eccin s))) + 16 * m \<le> unat (b_limit (ecc_buffer s (eccin s)))"
    "unat (c_next (dma s CHANNEL_DISK)) + 16 * m = unat (c_limit (dma s CHANNEL_DISK))"
    "\<And>j. j < 4 * m \<Longrightarrow> m_readable B (c_next (dma s CHANNEL_DISK) + 4 * of_nat j)"
  shows "\<exists>buf. dma_mo_read_memory B s =
    Inr (dma_irq 0x02000000 True (set_chan CHANNEL_DISK (channel_done CHANNEL_DISK (dma s CHANNEL_DISK))
      ((ecc_filled (get_bytes (c_next (dma s CHANNEL_DISK)) (16 * m) (d_mem s)) s)\<lparr>modma_buf_size := 0, modma_buf_limit := 0, modma_buf := buf\<rparr>)))"
proof -
  let ?x = "dma s CHANNEL_DISK" and ?bs = "get_bytes (c_next (dma s CHANNEL_DISK)) (16 * m) (d_mem s)"
  have gv: "gives mo_port ?bs s (ecc_filled ?bs s)" using mo_gives [of s ?bs] assms(5,6) by simp
  have fu: "m < p_space mo_port s + 2" using assms(6) by (simp add: mo_port_def)
  have tg: "(p_toggle mo_port ^^ m) e = e" for e by (induction m) (simp_all add: mo_port_def)
  define n where "n = p_space mo_port s + nat (- modma_buf_size s) + 2"
  have "m < n" using fu by (simp add: n_def)
  then obtain buf where w: "read_bursts n mo_port B (mo_xfer s) =
      Inr (False, (mo_xfer s)\<lparr>x_buf := buf, x_next := c_limit ?x, x_dev := ecc_filled ?bs s\<rparr>)"
    using mo_sink.read_run [of "mo_xfer s" m "ecc_filled ?bs s" B n] gv assms(3,4,7,8) by (auto simp: tg mo_xfer_def)
  let ?t = "set_chan CHANNEL_DISK (?x\<lparr>c_next := c_limit ?x\<rparr>)
    ((ecc_filled ?bs s)\<lparr>modma_buf_size := 0, modma_buf_limit := 0, modma_buf := buf\<rparr>)"
  have d: "dma (ecc_filled ?bs s) = dma s" "d_mem (ecc_filled ?bs s) = d_mem s" by (simp_all add: ecc_filled_def Let_def)
  have md: "t\<lparr>modma_buf_size := 0, modma_buf_limit := 0, modma_buf := buf, d_mem := d_mem t\<rparr> =
      t\<lparr>modma_buf_size := 0, modma_buf_limit := 0, modma_buf := buf\<rparr>" for t by (cases t) simp
  have dn: "mo_done (False, (mo_xfer s)\<lparr>x_buf := buf, x_next := c_limit ?x, x_dev := ecc_filled ?bs s\<rparr>) = ?t"
    by (simp only: mo_done_def2 Let_def mo_xfer_def dmac.simps xfer.simps d assms(3,4) if_False md [of "ecc_filled ?bs s", unfolded d])
  have "dma_mo_read_memory B s = Inr (dma_interrupt CHANNEL_DISK ?t)"
    using assms(1,2) w unfolding n_def by (simp only: dma_mo_read_memory_def dn bnd_Inr if_False simp_thms)
  also have "dma_interrupt CHANNEL_DISK ?t = dma_irq 0x02000000 True (set_chan CHANNEL_DISK (channel_done CHANNEL_DISK ?x) ?t)"
    using dma_interrupt_done [of ?t CHANNEL_DISK ?x] by (simp add: set_chan_def get_interrupt_type_def)
  finally show ?thesis by (auto simp: set_chan_def intro!: exI [of _ buf])
qed

section \<open>Memory to memory\<close>

lemma get_bytes_snoc: "get_bytes a (Suc n) f = get_bytes a n f @ [f (a + of_nat n)]"
  by (simp add: get_bytes_def)

definition move_next :: "nat \<Rightarrow> u32 \<Rightarrow> dmac \<Rightarrow> dmac" where
  "move_next c n s = upd_chan c (\<lambda>x. x\<lparr>c_next := c_next x + n\<rparr>) s"

lemma move_next_simps [simp]:
  "dma (move_next c n s) c = (dma s c)\<lparr>c_next := c_next (dma s c) + n\<rparr>"
  "c \<noteq> d \<Longrightarrow> dma (move_next c n s) d = dma s d"
  "d_mem (move_next c n s) = d_mem s" "d_sys (move_next c n s) = d_sys s" "m2m_buffer (move_next c n s) = m2m_buffer s"
  "m2m_buffer_size (move_next c n s) = m2m_buffer_size s" "notified (move_next c n s) = notified s"
  by (simp_all add: move_next_def upd_chan_def set_chan_def)

lemma move_next_0 [simp]: "move_next c 0 s = s"
  by (simp add: move_next_def upd_chan_def set_chan_def dmac.equality dma_channel.equality)

lemma move_next_step:
  "dma t = dma s \<Longrightarrow> move_next c n (set_chan c ((dma s c)\<lparr>c_next := c_next (dma s c) + 1\<rparr>) t) = move_next c (1 + n) t"
  by (simp add: move_next_def upd_chan_def set_chan_def add.assoc)

text \<open>Reading \<open>n\<close> bytes ends the buffer; the bytes go to its last \<open>n\<close> places.\<close>

definition m2m_with :: "nat \<Rightarrow> u8 list \<Rightarrow> (nat \<Rightarrow> u32) \<Rightarrow> nat \<Rightarrow> u32" where
  "m2m_with k bs f i = (if k \<le> i \<and> i < k + length bs then ucast (bs ! (i - k)) else f i)"

lemma m2m_with_Cons: "m2m_with k (b # bs) f = m2m_with (Suc k) bs (f(k := ucast b))"
  by (intro ext) (auto simp: m2m_with_def nth_Cons' Suc_diff_le)

lemma m2m_fill_run:
  "m2m_buffer_size s = 16 - int n \<Longrightarrow> n \<le> 16 \<Longrightarrow> (\<And>j. j < n \<Longrightarrow> m_readable B (c_next (dma s CHANNEL_M2R) + of_nat j)) \<Longrightarrow>
   m2m_fill B s = Inr (False, move_next CHANNEL_M2R (of_nat n) (s\<lparr>
     m2m_buffer := m2m_with (16 - n) (get_bytes (c_next (dma s CHANNEL_M2R)) n (d_mem s)) (m2m_buffer s), m2m_buffer_size := 16, d_mem := d_mem s\<rparr>))"
proof (induction n arbitrary: s)
  case 0
  have "m2m_with 16 [] (m2m_buffer s) = m2m_buffer s" by (intro ext) (auto simp: m2m_with_def)
  then show ?case using 0 by (subst m2m_fill.simps) (simp add: dmac.equality get_bytes_def)
next
  case (Suc n)
  let ?x = "dma s CHANNEL_M2R"
  let ?a = "c_next ?x"
  define k where "k = 16 - Suc n"
  define f where "f = (m2m_buffer s)(k := ucast (d_mem s ?a))"
  let ?t = "set_chan CHANNEL_M2R (?x\<lparr>c_next := ?a + 1\<rparr>) (s\<lparr>m2m_buffer := f, m2m_buffer_size := 16 - int n, d_mem := d_mem s\<rparr>)"
  have k: "m2m_buffer_size s = int k" "k < 16" "16 - n = Suc k" "int k + 1 = 16 - int n"
    using Suc.prems(1,2) by (simp_all add: k_def)
  have r: "m_readable B ?a" using Suc.prems(3) [of 0] by simp
  have "s\<lparr>m2m_buffer := f, m2m_buffer_size := 16 - int n\<rparr> = s\<lparr>m2m_buffer := f, m2m_buffer_size := 16 - int n, d_mem := d_mem s\<rparr>"
    by (simp add: dmac.equality)
  then have e: "m2m_fill B s = m2m_fill B ?t"
    using k(2) r by (subst m2m_fill.simps) (simp add: k(1,4) Let_def f_def)
  have t: "dma ?t CHANNEL_M2R = ?x\<lparr>c_next := ?a + 1\<rparr>" "d_mem ?t = d_mem s" "m2m_buffer ?t = f" "m2m_buffer_size ?t = 16 - int n"
    by (simp_all add: set_chan_def)
  have rd: "m_readable B (?a + 1 + of_nat j)" if "j < n" for j using Suc.prems(3) [of "Suc j"] that by (simp add: algebra_simps)
  have g: "m2m_with (16 - Suc n) (get_bytes ?a (Suc n) (d_mem s)) (m2m_buffer s) =
      m2m_with (16 - n) (get_bytes (?a + 1) n (d_mem s)) f"
    unfolding k_def [symmetric] k(3) get_bytes_Suc m2m_with_Cons f_def ..
  have "m2m_fill B ?t = Inr (False, move_next CHANNEL_M2R (of_nat n) (?t\<lparr>m2m_buffer := m2m_with (16 - n) (get_bytes (?a + 1) n (d_mem s)) f,
     m2m_buffer_size := 16, d_mem := d_mem s\<rparr>))"
    using Suc.IH [of ?t] Suc.prems(2) rd unfolding t by (simp add: t)
  also have "?t\<lparr>m2m_buffer := m2m_with (16 - n) (get_bytes (?a + 1) n (d_mem s)) f, m2m_buffer_size := 16, d_mem := d_mem s\<rparr> =
      set_chan CHANNEL_M2R (?x\<lparr>c_next := ?a + 1\<rparr>) (s\<lparr>m2m_buffer := m2m_with (16 - n) (get_bytes (?a + 1) n (d_mem s)) f,
        m2m_buffer_size := 16, d_mem := d_mem s\<rparr>)"
    by (simp add: set_chan_def)
  finally show ?case unfolding e g by (simp add: move_next_step)
qed

lemma m2m_empty_run:
  "m2m_buffer_size s = int n \<Longrightarrow> n \<le> 16 \<Longrightarrow> (\<And>j. j < n \<Longrightarrow> m_writable B (c_next (dma s CHANNEL_R2M) + of_nat j)) \<Longrightarrow>
   m2m_empty B s = Inr (False, move_next CHANNEL_R2M (of_nat n) (s\<lparr>m2m_buffer := m2m_buffer s, m2m_buffer_size := 0,
     d_mem := put_bytes (c_next (dma s CHANNEL_R2M)) (map (\<lambda>i. ucast (m2m_buffer s i)) [16 - n ..< 16]) (d_mem s)\<rparr>))"
proof (induction n arbitrary: s)
  case 0
  then show ?case by (subst m2m_empty.simps) (simp add: dmac.equality)
next
  case (Suc n)
  let ?x = "dma s CHANNEL_R2M"
  let ?a = "c_next ?x"
  define k where "k = 16 - Suc n"
  define b where "b = (ucast (m2m_buffer s k) :: u8)"
  define mm where "mm = (d_mem s)(?a := b)"
  let ?t = "set_chan CHANNEL_R2M (?x\<lparr>c_next := ?a + 1\<rparr>) (s\<lparr>m2m_buffer := m2m_buffer s, m2m_buffer_size := int n, d_mem := mm\<rparr>)"
  have k: "nat (16 - int (Suc n)) = k" "k < 16" "16 - n = Suc k" "int (Suc n) - 1 = int n" using Suc.prems(2) by (simp_all add: k_def)
  have u: "[16 - Suc n ..< 16] = k # [16 - n ..< 16]" unfolding k(3) k_def [symmetric] by (rule upt_conv_Cons [OF k(2)])
  have w: "m_writable B ?a" using Suc.prems(3) [of 0] by simp
  have "s\<lparr>d_mem := (d_mem s)(?a := b), m2m_buffer_size := int n\<rparr> =
      s\<lparr>m2m_buffer := m2m_buffer s, m2m_buffer_size := int n, d_mem := mm\<rparr>" by (simp add: dmac.equality mm_def)
  then have e: "m2m_empty B s = m2m_empty B ?t"
    using Suc.prems(2) w by (subst m2m_empty.simps) (simp only: Suc.prems(1) k b_def [symmetric] Let_def, simp)
  have t: "dma ?t CHANNEL_R2M = ?x\<lparr>c_next := ?a + 1\<rparr>" "d_mem ?t = mm" "m2m_buffer ?t = m2m_buffer s"
    "m2m_buffer_size ?t = int n"
    by (simp_all add: set_chan_def)
  have wr: "m_writable B (?a + 1 + of_nat j)" if "j < n" for j using Suc.prems(3) [of "Suc j"] that by (simp add: algebra_simps)
  define m where "m = put_bytes (?a + 1) (map (\<lambda>i. ucast (m2m_buffer s i)) [16 - n ..< 16]) mm"
  have "m2m_empty B ?t = Inr (False, move_next CHANNEL_R2M (of_nat n)
      (?t\<lparr>m2m_buffer := m2m_buffer s, m2m_buffer_size := 0, d_mem := m\<rparr>))"
    using Suc.IH [of ?t] Suc.prems(2) wr unfolding t m_def by simp
  also have "?t\<lparr>m2m_buffer := m2m_buffer s, m2m_buffer_size := 0, d_mem := m\<rparr> =
      set_chan CHANNEL_R2M (?x\<lparr>c_next := ?a + 1\<rparr>) (s\<lparr>m2m_buffer := m2m_buffer s, m2m_buffer_size := 0, d_mem := m\<rparr>)"
    by (simp add: set_chan_def)
  finally have "m2m_empty B s = Inr (False, move_next CHANNEL_R2M (of_nat (Suc n))
      (s\<lparr>m2m_buffer := m2m_buffer s, m2m_buffer_size := 0, d_mem := m\<rparr>))"
    unfolding e by (simp add: move_next_step)
  moreover have "put_bytes ?a (map (\<lambda>i. ucast (m2m_buffer s i)) (k # [16 - n ..< 16])) (d_mem s) = m"
    by (simp add: m_def mm_def b_def)
  ultimately show ?case unfolding u by simp
qed

lemma dma_interrupt_simps [simp]:
  "d_mem (dma_interrupt c s) = d_mem s" "notified (dma_interrupt c s) = notified s"
  "m2m_buffer (dma_interrupt c s) = m2m_buffer s" "m2m_buffer_size (dma_interrupt c s) = m2m_buffer_size s"
  "s_cyc (d_sys (dma_interrupt c s)) = s_cyc (d_sys s)" "c \<noteq> d \<Longrightarrow> dma (dma_interrupt c s) d = dma s d"
  by (simp_all add: dma_interrupt_def dma_irq_def set_chan_def set_interrupt_def Let_def)

lemma dma_interrupt_chan:
  "dma (dma_interrupt c s) c = (if c_next (dma s c) = c_limit (dma s c) then channel_done c (dma s c) else dma s c)"
  by (simp add: dma_interrupt_def channel_done_def dma_irq_def set_chan_def Let_def)

lemma dma_interrupt_line:
  "c_next (dma s c) = c_limit (dma s c) \<Longrightarrow> intStat (d_sys (dma_interrupt c s)) = intStat (d_sys s) OR get_interrupt_type c"
  by (simp add: dma_interrupt_def dma_irq_def set_chan_def set_interrupt_def Let_def)

lemma dma_interrupt_raises: "intStat (d_sys s) AND intStat (d_sys (dma_interrupt c s)) = intStat (d_sys s)"
  by (simp add: dma_interrupt_def dma_irq_def set_chan_def set_interrupt_def Let_def and.assoc [symmetric] bit.conj_disj_distrib)

lemma low_byte: "ucast (ucast (b :: u8) :: u32) = b"
  by (rule bit_word_eqI) (auto simp: bit_simps dest: bit_imp_le_length)

text \<open>One burst: 16 bytes are read before any is written.\<close>

lemma m2m_burst:
  assumes "c_next (dma s CHANNEL_M2R) < c_limit (dma s CHANNEL_M2R)" "c_next (dma s CHANNEL_R2M) < c_limit (dma s CHANNEL_R2M)"
    "\<And>j. j < 16 \<Longrightarrow> m_readable B (c_next (dma s CHANNEL_M2R) + of_nat j)"
    "\<And>j. j < 16 \<Longrightarrow> m_writable B (c_next (dma s CHANNEL_R2M) + of_nat j)"
  defines "bs \<equiv> get_bytes (c_next (dma s CHANNEL_M2R)) 16 (d_mem s)"
  shows "dma_m2m_write_memory B s = Inr (dma_interrupt CHANNEL_R2M (move_next CHANNEL_R2M 16
    ((dma_interrupt CHANNEL_M2R (move_next CHANNEL_M2R 16 (s\<lparr>m2m_buffer := m2m_with 0 bs (m2m_buffer s), m2m_buffer_size := 16\<rparr>)))
      \<lparr>m2m_buffer_size := 0, d_mem := put_bytes (c_next (dma s CHANNEL_R2M)) bs (d_mem s)\<rparr>)))"
proof -
  let ?s0 = "s\<lparr>m2m_buffer_size := 0\<rparr>"
  let ?s1 = "move_next CHANNEL_M2R 16 (s\<lparr>m2m_buffer := m2m_with 0 bs (m2m_buffer s), m2m_buffer_size := 16\<rparr>)"
  have f: "m2m_fill B ?s0 = Inr (False, ?s1)"
    using m2m_fill_run [of ?s0 16 B] assms(3) by (simp add: bs_def)
  let ?s2 = "dma_interrupt CHANNEL_M2R ?s1"
  have len: "length bs = 16" by (simp add: bs_def)
  have b: "map (\<lambda>i. ucast (m2m_buffer ?s2 i)) [16 - 16 ..< 16] = bs"
    by (rule nth_equalityI) (simp_all add: len m2m_with_def low_byte)
  have w: "m_writable B (c_next (dma ?s2 CHANNEL_R2M) + of_nat j)" if "j < 16" for j using assms(4) [OF that] by simp
  have "m2m_empty B ?s2 = Inr (False, move_next CHANNEL_R2M 16 (?s2\<lparr>m2m_buffer := m2m_buffer ?s2, m2m_buffer_size := 0,
      d_mem := put_bytes (c_next (dma ?s2 CHANNEL_R2M)) bs (d_mem ?s2)\<rparr>))"
    using m2m_empty_run [of ?s2 16 B] w unfolding b by simp
  also have "?s2\<lparr>m2m_buffer := m2m_buffer ?s2, m2m_buffer_size := 0,
      d_mem := put_bytes (c_next (dma ?s2 CHANNEL_R2M)) bs (d_mem ?s2)\<rparr> =
      ?s2\<lparr>m2m_buffer_size := 0, d_mem := put_bytes (c_next (dma s CHANNEL_R2M)) bs (d_mem s)\<rparr>"
    by (simp add: dmac.equality)
  finally show ?thesis
    using assms(1,2) by (simp add: dma_m2m_write_memory_def catch_def f)
qed

text \<open>Both channels armed for \<open>16 * n\<close> bytes, without chaining.\<close>

definition plain :: "dma_channel \<Rightarrow> u32 \<Rightarrow> nat \<Rightarrow> bool" where
  "plain x a n \<longleftrightarrow> c_next x = a \<and> unat a + 16 * n = unat (c_limit x) \<and> c_csr x AND DMA_ENABLE \<noteq> 0 \<and> c_csr x AND DMA_SUPDATE = 0"

definition m2m_armed :: "u32 \<Rightarrow> u32 \<Rightarrow> nat \<Rightarrow> dmac \<Rightarrow> bool" where
  "m2m_armed a b n s \<longleftrightarrow> plain (dma s CHANNEL_M2R) a n \<and> plain (dma s CHANNEL_R2M) b n \<and> cyc_ok (s_cyc (d_sys s))"

definition finished :: "dma_channel \<Rightarrow> bool" where
  "finished x \<longleftrightarrow> c_next x = c_limit x \<and> c_csr x AND DMA_ENABLE = 0 \<and> c_csr x AND DMA_COMPLETE \<noteq> 0"

lemma done_finished: "c_csr x AND DMA_SUPDATE = 0 \<Longrightarrow> finished (channel_done c x)"
proof -
  assume a: "c_csr x AND DMA_SUPDATE = 0"
  have "(c_csr x OR DMA_COMPLETE) AND DMA_SUPDATE = c_csr x AND DMA_SUPDATE" by (simp add: bit.conj_disj_distrib2)
  moreover have "((c_csr x OR DMA_COMPLETE) AND NOT DMA_ENABLE) AND DMA_COMPLETE = DMA_COMPLETE"
    by (rule bit_word_eqI) (auto simp: bit_simps intro: gr0I)
  moreover have "((c_csr x OR DMA_COMPLETE) AND NOT DMA_ENABLE) AND DMA_ENABLE = 0" by (simp add: and.assoc)
  ultimately show ?thesis using a by (simp add: channel_done_def finished_def)
qed

lemma done_other: "c_csr x AND DMA_SUPDATE = 0 \<Longrightarrow> c_limit (channel_done c x) = c_limit x"
proof -
  assume a: "c_csr x AND DMA_SUPDATE = 0"
  have "(c_csr x OR DMA_COMPLETE) AND DMA_SUPDATE = c_csr x AND DMA_SUPDATE" by (simp add: bit.conj_disj_distrib2)
  then show ?thesis using a by (simp add: channel_done_def)
qed

text \<open>A channel after one burst: at its limit it is finished, before it goes on.\<close>

lemma burst_chan:
  assumes "plain x a (Suc m)" "dma s c = x\<lparr>c_next := c_next x + 16\<rparr>"
  shows "if m = 0 then finished (dma (dma_interrupt c s) c) \<and> c_next (dma s c) = c_limit (dma s c)
    else plain (dma (dma_interrupt c s) c) (a + 16) m"
proof -
  have n: "unat (a + 16) = unat a + 16" using unat_advance [of a 16 "c_limit x"] assms(1) by (simp add: plain_def)
  have e: "a + 16 = c_limit x \<longleftrightarrow> m = 0" using n assms(1) by (auto simp: plain_def word_unat_eq_iff)
  have p: "c_next x = a" "c_csr x AND DMA_SUPDATE = 0" using assms(1) by (simp_all add: plain_def)
  show ?thesis
    using e p n assms done_finished [of "x\<lparr>c_next := a + 16\<rparr>"] by (auto simp: dma_interrupt_chan plain_def)
qed

lemma plain_less: "plain x a (Suc m) \<Longrightarrow> c_next x < c_limit x"
  by (simp add: plain_def word_less_nat_alt)

definition m2m_lines :: u32 where
  "m2m_lines = 0x000C0000"

text \<open>One call of the handler with \<open>16 * Suc m\<close> bytes to go.\<close>

lemma m2m_step:
  assumes "m2m_armed a b (Suc m) s"
    "\<And>j. j < 16 \<Longrightarrow> m_readable B (a + of_nat j)" "\<And>j. j < 16 \<Longrightarrow> m_writable B (b + of_nat j)"
  shows "\<exists>t. M2MDMA_IO_Handler B s = Inr t \<and> d_mem t = put_bytes b (get_bytes a 16 (d_mem s)) (d_mem s) \<and>
    notified t = notified s \<and>
    (if m = 0 then finished (dma t CHANNEL_M2R) \<and> finished (dma t CHANNEL_R2M) \<and>
       intStat (d_sys t) AND m2m_lines = m2m_lines
     else m2m_armed (a + 16) (b + 16) m t)"
proof -
  let ?r = "dma s CHANNEL_R2M" and ?m = "dma s CHANNEL_M2R"
  have ch: "plain ?m a (Suc m)" "plain ?r b (Suc m)" "cyc_ok (s_cyc (d_sys s))" using assms(1) by (simp_all add: m2m_armed_def)
  obtain c where c: "CycInt_AcknowledgeInterrupt (s_cyc (d_sys s)) = Inr c" "cyc_ok c" "nCyclesOver c = 0"
    using Acknowledge_disarms [OF ch(3)] by blast
  obtain c1 where c1: "CycInt_AddRelativeInterruptCycles 4 INTERRUPT_M2M_IO c = Inr c1" "cyc_ok c1"
    using AddCycles_arms [OF c(2), of INTERRUPT_M2M_IO 4] c(3) by auto
  define s1 where "s1 = s\<lparr>d_sys := (d_sys s)\<lparr>s_cyc := c\<rparr>\<rparr>"
  have s1: "dma s1 = dma s" "d_mem s1 = d_mem s" "s_cyc (d_sys s1) = c" "notified s1 = notified s" by (simp_all add: s1_def)
  define bs where "bs = get_bytes a 16 (d_mem s)"
  define s2 where "s2 = move_next CHANNEL_M2R 16 (s1\<lparr>m2m_buffer := m2m_with 0 bs (m2m_buffer s1), m2m_buffer_size := 16\<rparr>)"
  define s3 where "s3 = move_next CHANNEL_R2M 16 ((dma_interrupt CHANNEL_M2R s2)
    \<lparr>m2m_buffer_size := 0, d_mem := put_bytes b bs (d_mem s)\<rparr>)"
  define s4 where "s4 = dma_interrupt CHANNEL_R2M s3"
  have nx: "c_next ?m = a" "c_next ?r = b" using ch by (simp_all add: plain_def)
  have w: "dma_m2m_write_memory B s1 = Inr s4"
    using m2m_burst [of s1 B] plain_less [OF ch(1)] plain_less [OF ch(2)] assms(2,3)
    by (simp add: s1 nx s4_def s3_def s2_def bs_def)
  define t where "t = s4\<lparr>d_sys := (d_sys s4)\<lparr>s_cyc := c1\<rparr>\<rparr>"
  have cy: "s_cyc (d_sys s4) = c" by (simp add: s4_def s3_def s2_def s1)
  have h: "M2MDMA_IO_Handler B s = Inr t"
    using c(1) c1(1) ch(2) w by (simp add: M2MDMA_IO_Handler_def s1_def [symmetric] s1 plain_def m2m_timer_def cy t_def)
  have d2: "dma s2 CHANNEL_M2R = ?m\<lparr>c_next := c_next ?m + 16\<rparr>" by (simp add: s2_def s1)
  have d3: "dma s3 CHANNEL_R2M = ?r\<lparr>c_next := c_next ?r + 16\<rparr>" by (simp add: s3_def s2_def s1)
  have m4: "dma s4 CHANNEL_M2R = dma (dma_interrupt CHANNEL_M2R s2) CHANNEL_M2R" by (simp add: s4_def s3_def)
  have r4: "dma s4 CHANNEL_R2M = dma (dma_interrupt CHANNEL_R2M s3) CHANNEL_R2M" by (simp add: s4_def)
  have mem: "d_mem t = put_bytes b bs (d_mem s)" "notified t = notified s" by (simp_all add: t_def s4_def s3_def s2_def s1)
  have fin: "intStat (d_sys t) AND m2m_lines = m2m_lines" if "m = 0"
  proof -
    have "c_next (dma s2 CHANNEL_M2R) = c_limit (dma s2 CHANNEL_M2R)" "c_next (dma s3 CHANNEL_R2M) = c_limit (dma s3 CHANNEL_R2M)"
      using burst_chan [OF ch(1) d2] burst_chan [OF ch(2) d3] that by simp_all
    then have "intStat (d_sys s4) = intStat (d_sys s2) OR 0x00080000 OR 0x00040000"
      by (simp add: s4_def dma_interrupt_line) (simp add: s3_def dma_interrupt_line get_interrupt_type_def or.assoc)
    then show ?thesis by (simp add: t_def m2m_lines_def bit.conj_disj_distrib2 or.assoc)
  qed
  show ?thesis
    using h mem fin burst_chan [OF ch(1) d2] burst_chan [OF ch(2) d3] c1(2)
    by (auto simp: bs_def m4 r4 m2m_armed_def t_def)
qed

text \<open>A number of calls of a handler.\<close>

primrec rounds :: "nat \<Rightarrow> ('s \<Rightarrow> 's res) \<Rightarrow> 's \<Rightarrow> 's res" where
  "rounds 0 f s = Inr s"
| "rounds (Suc n) f s = bnd (f s) (rounds n f)"

text \<open>
  The bytes a copy still has to read are not touched by a burst, when the destination does not
  start inside the source.
\<close>

lemma ahead_kept:
  assumes "unat (a - b) + 16 * Suc m \<le> 2 ^ 32" "length bs = 16"
  shows "get_bytes (a + 16) (16 * m) (put_bytes b bs f) = get_bytes (a + 16) (16 * m) f"
proof (rule get_bytes_cong)
  fix i assume i: "i < 16 * m"
  have 1: "unat ((a - b) + of_nat (16 + i)) = unat (a - b) + (16 + i)"
    using assms(1) i by (simp add: unat_word_ariths unsigned_of_nat take_bit_eq_mod)
  have 2: "a + 16 + of_nat i - b = (a - b) + of_nat (16 + i)" by simp
  show "put_bytes b bs f (a + 16 + of_nat i) = f (a + 16 + of_nat i)"
    by (rule put_bytes_other, unfold 2 1 assms(2), simp)
qed

lemma m2m_run:
  "m2m_armed a b (Suc m) s \<Longrightarrow> (\<And>j. j < 16 * Suc m \<Longrightarrow> m_readable B (a + of_nat j)) \<Longrightarrow>
   (\<And>j. j < 16 * Suc m \<Longrightarrow> m_writable B (b + of_nat j)) \<Longrightarrow> unat (a - b) + 16 * Suc m \<le> 2 ^ 32 \<Longrightarrow>
   \<exists>t. rounds (Suc m) (M2MDMA_IO_Handler B) s = Inr t \<and>
     d_mem t = put_bytes b (get_bytes a (16 * Suc m) (d_mem s)) (d_mem s) \<and> notified t = notified s \<and>
     finished (dma t CHANNEL_M2R) \<and> finished (dma t CHANNEL_R2M) \<and> intStat (d_sys t) AND m2m_lines = m2m_lines"
proof (induction m arbitrary: a b s)
  case 0
  then obtain t where t: "M2MDMA_IO_Handler B s = Inr t" "d_mem t = put_bytes b (get_bytes a 16 (d_mem s)) (d_mem s)"
    "notified t = notified s" "finished (dma t CHANNEL_M2R)" "finished (dma t CHANNEL_R2M)"
    "intStat (d_sys t) AND m2m_lines = m2m_lines"
    using m2m_step [of a b 0 s B] by auto
  then show ?case by simp
next
  case (Suc m)
  let ?bs = "get_bytes a 16 (d_mem s)"
  obtain u where u: "M2MDMA_IO_Handler B s = Inr u" "d_mem u = put_bytes b ?bs (d_mem s)"
    "notified u = notified s" "m2m_armed (a + 16) (b + 16) (Suc m) u"
    using m2m_step [OF Suc.prems(1), of B] Suc.prems(2,3) by auto
  have rd: "m_readable B (a + 16 + of_nat j)" if "j < 16 * Suc m" for j
    using Suc.prems(2) [of "16 + j"] that by (simp add: algebra_simps)
  have wr: "m_writable B (b + 16 + of_nat j)" if "j < 16 * Suc m" for j
    using Suc.prems(3) [of "16 + j"] that by (simp add: algebra_simps)
  obtain t where t: "rounds (Suc m) (M2MDMA_IO_Handler B) u = Inr t"
    "d_mem t = put_bytes (b + 16) (get_bytes (a + 16) (16 * Suc m) (d_mem u)) (d_mem u)" "notified t = notified u"
    "finished (dma t CHANNEL_M2R)" "finished (dma t CHANNEL_R2M)" "intStat (d_sys t) AND m2m_lines = m2m_lines"
    using Suc.IH [OF u(4) rd wr] Suc.prems(4) by auto
  have g: "get_bytes a (16 * Suc (Suc m)) (d_mem s) = ?bs @ get_bytes (a + 16) (16 * Suc m) (d_mem u)"
    using get_bytes_add [of a 16 "16 * Suc m" "d_mem s"] ahead_kept [OF Suc.prems(4), of ?bs "d_mem s"] by (simp add: u(2))
  have "d_mem t = put_bytes b (get_bytes a (16 * Suc (Suc m)) (d_mem s)) (d_mem s)"
    unfolding g put_bytes_append t(2) by (simp add: u(2))
  then show ?case using t u(1,3) by auto
qed

section \<open>Properties\<close>

text \<open>
  C15. Memory to memory copy. With both channels armed for \<open>16 * n\<close> bytes, no bus error, and a destination
  that does not start inside the source, \<open>n\<close> calls of the event handler copy the bytes as \<^verbatim>\<open>memmove\<close> does, leave
  every other byte of memory, stop both channels at their limits and raise both interrupts.
\<close>
theorem m2m_copies:
  assumes "m2m_armed a b n s" "0 < n" "unat (a - b) + 16 * n \<le> 2 ^ 32"
    "\<forall>j < 16 * n. m_readable B (a + of_nat j) \<and> m_writable B (b + of_nat j)"
  shows "\<exists>t. rounds n (M2MDMA_IO_Handler B) s = Inr t \<and>
    get_bytes b (16 * n) (d_mem t) = get_bytes a (16 * n) (d_mem s) \<and>
    (\<forall>x. 16 * n \<le> unat (x - b) \<longrightarrow> d_mem t x = d_mem s x) \<and>
    finished (dma t CHANNEL_M2R) \<and> finished (dma t CHANNEL_R2M) \<and> intStat (d_sys t) AND m2m_lines = m2m_lines"
proof -
  obtain m where n: "n = Suc m" using assms(2) by (cases n) auto
  obtain t where t: "rounds n (M2MDMA_IO_Handler B) s = Inr t"
    "d_mem t = put_bytes b (get_bytes a (16 * n) (d_mem s)) (d_mem s)"
    "finished (dma t CHANNEL_M2R)" "finished (dma t CHANNEL_R2M)" "intStat (d_sys t) AND m2m_lines = m2m_lines"
    using m2m_run [of a b m s B] assms unfolding n by blast
  have "16 * n \<le> 2 ^ 32" using assms(3) by linarith
  then have "get_bytes b (16 * n) (d_mem t) = get_bytes a (16 * n) (d_mem s)"
    using get_put_bytes [of "get_bytes a (16 * n) (d_mem s)" b "d_mem s"] by (simp add: t(2))
  moreover have "d_mem t x = d_mem s x" if "16 * n \<le> unat (x - b)" for x
    using that put_bytes_other [of "get_bytes a (16 * n) (d_mem s)" x b "d_mem s"] by (simp add: t(2))
  ultimately show ?thesis using t by blast
qed

text \<open>
  C38. The optical disk channel. A complete transfer puts the bytes of the correction buffer in order into memory and
  nothing else, empties the buffer, moves the channel on (to the next part of a chain if there is one) and raises its interrupt. But it does not report
  the range to the translator of the m68k, which the comment at the top of the file names as a source of stale code:
  only the SCSI channel does.
\<close>
theorem optical_dma_delivers:
  assumes "c_csr (dma s CHANNEL_DISK) AND DMA_ENABLE \<noteq> 0" "\<not> misaligned (dma s CHANNEL_DISK)"
    "modma_buf_size s = 0" "modma_buf_limit s = 0"
    "unat (b_limit (ecc_buffer s (eccout s))) \<le> 1296" "b_size (ecc_buffer s (eccout s)) \<le> b_limit (ecc_buffer s (eccout s))"
    "unat (b_size (ecc_buffer s (eccout s))) = 16 * m"
    "unat (c_next (dma s CHANNEL_DISK)) + 16 * m = unat (c_limit (dma s CHANNEL_DISK))"
    "\<forall>j < 4 * m. m_writable B (c_next (dma s CHANNEL_DISK) + 4 * of_nat j)"
  shows "\<exists>t. dma_mo_write_memory B s = Inr t \<and>
    get_bytes (c_next (dma s CHANNEL_DISK)) (16 * m) (d_mem t) = ecc_bytes (ecc_buffer s (eccout s)) \<and>
    (\<forall>x. 16 * m \<le> unat (x - c_next (dma s CHANNEL_DISK)) \<longrightarrow> d_mem t x = d_mem s x) \<and>
    b_size (ecc_buffer t (eccout t)) = 0 \<and> dma t CHANNEL_DISK = channel_done CHANNEL_DISK (dma s CHANNEL_DISK) \<and>
    bit (intStat (d_sys t)) 25 \<and> notified t = notified s"
proof -
  let ?bs = "ecc_bytes (ecc_buffer s (eccout s))" and ?a = "c_next (dma s CHANNEL_DISK)"
  obtain buf where w: "dma_mo_write_memory B s =
    Inr (dma_irq 0x02000000 True (set_chan CHANNEL_DISK (channel_done CHANNEL_DISK (dma s CHANNEL_DISK))
      ((ecc_emptied s)\<lparr>modma_buf_size := 0, modma_buf_limit := 0, modma_buf := buf, d_mem := put_bytes ?a ?bs (d_mem s)\<rparr>)))"
    using mo_write_complete [of s m B] assms by blast
  have len: "length ?bs = 16 * m" using assms(6,7) by (simp add: ecc_bytes_def word_le_nat_alt)
  have "16 * m \<le> 2 ^ 32" using assms(5-7) by (simp add: word_le_nat_alt)
  then have g: "get_bytes ?a (16 * m) (put_bytes ?a ?bs (d_mem s)) = ?bs"
    using get_put_bytes [of ?bs ?a "d_mem s"] by (simp add: len)
  have o: "put_bytes ?a ?bs (d_mem s) x = d_mem s x" if "16 * m \<le> unat (x - ?a)" for x
    using that by (intro put_bytes_other) (simp add: len)
  have b: "bit (x OR 0x02000000 :: u32) 25" for x by (simp add: bit_or_iff)
  show ?thesis unfolding w
    by (rule exI, rule conjI, rule refl, insert g o)
      (simp add: dma_irq_def set_chan_def ecc_emptied_def set_interrupt_def b)
qed

section \<open>Witnesses\<close>

definition idle_channel :: dma_channel where
  "idle_channel = \<lparr>c_csr = 0, c_saved_next = 0, c_saved_limit = 0, c_saved_start = 0, c_saved_stop = 0,
     c_next = 0, c_limit = 0, c_start = 0, c_stop = 0, c_direction = 0\<rparr>"

definition dma_state :: dmac where
  "dma_state =
     \<lparr>dma = (\<lambda>_. idle_channel), espdma_buf_size = 0, espdma_buf_limit = 0, espdma_buf = (\<lambda>_. 0), modma_buf_size = 0,
      modma_buf_limit = 0, modma_buf = (\<lambda>_. 0), m2m_buffer = (\<lambda>_. 0), m2m_buffer_size = 0, saved_next_turbo = 0,
      esp_dma_control = 0, esp_dma_status = 0, floppy_select = False,
      flp_buffer = \<lparr>b_data = (\<lambda>_. 0), b_size = 0, b_limit = 0\<rparr>,
      ecc_buffer = (\<lambda>_. \<lparr>b_data = (\<lambda>i. of_nat i), b_size = 1024, b_limit = 1024\<rparr>), eccin = 0, eccout = 1,
      lp_buffer = \<lparr>n_data = (\<lambda>_. 0), n_size = 0, n_limit = 0\<rparr>, enet_rx_buffer = \<lparr>n_data = (\<lambda>_. 0), n_size = 0, n_limit = 0\<rparr>,
      enet_tx_buffer = \<lparr>n_data = (\<lambda>_. 0), n_size = 0, n_limit = 0\<rparr>, scc_buf = 0, d_mem = (\<lambda>a. ucast a), notified = [],
      irqb_calls = 0, d_sys = sys_state\<rparr>"

definition armed_channel :: "u32 \<Rightarrow> u32 \<Rightarrow> dma_channel" where
  "armed_channel a l = idle_channel\<lparr>c_csr := DMA_ENABLE, c_next := a, c_limit := l\<rparr>"

definition all_ram :: bus_env where
  "all_ram = \<lparr>m_readable = (\<lambda>_. True), m_writable = (\<lambda>_. True)\<rparr>"

lemma m2m_copies_witness:
  "\<exists>t. rounds 2 (M2MDMA_IO_Handler all_ram) (dma_state\<lparr>dma := (dma dma_state)
       (CHANNEL_M2R := armed_channel 0x1008 0x1028, CHANNEL_R2M := armed_channel 0x1000 0x1020)\<rparr>) = Inr t \<and>
     d_mem t 0x1000 = 0x08 \<and> d_mem t 0x2000 = 0"
proof -
  let ?s = "dma_state\<lparr>dma := (dma dma_state)(CHANNEL_M2R := armed_channel 0x1008 0x1028, CHANNEL_R2M := armed_channel 0x1000 0x1020)\<rparr>"
  have a: "m2m_armed 0x1008 0x1000 2 ?s"
    using cyc_vbl_busy by (simp add: m2m_armed_def plain_def armed_channel_def idle_channel_def dma_state_def sys_state_def cyc_busy_def)
  obtain t where t: "rounds 2 (M2MDMA_IO_Handler all_ram) ?s = Inr t"
    "get_bytes 0x1000 (16 * 2) (d_mem t) = get_bytes 0x1008 (16 * 2) (d_mem ?s)"
    "\<forall>x. 16 * 2 \<le> unat (x - 0x1000) \<longrightarrow> d_mem t x = d_mem ?s x"
    using m2m_copies [OF a, of all_ram] by (auto simp: all_ram_def)
  have "d_mem t 0x1000 = d_mem ?s 0x1008"
    using arg_cong [OF t(2), of hd] by (simp add: get_bytes_def upt_rec)
  moreover have "d_mem t 0x2000 = d_mem ?s 0x2000" using t(3) by simp
  ultimately show ?thesis using t(1) by (auto simp: dma_state_def)
qed

lemma optical_dma_delivers_witness:
  "\<exists>t. dma_mo_write_memory all_ram (dma_state\<lparr>dma := (dma dma_state)(CHANNEL_DISK := armed_channel 0x4000 0x4400)\<rparr>) = Inr t \<and>
     get_bytes 0x4000 1024 (d_mem t) = map of_nat [0 ..< 1024] \<and> notified t = []"
proof -
  let ?s = "dma_state\<lparr>dma := (dma dma_state)(CHANNEL_DISK := armed_channel 0x4000 0x4400)\<rparr>"
  have "\<exists>t. dma_mo_write_memory all_ram ?s = Inr t \<and>
    get_bytes (c_next (dma ?s CHANNEL_DISK)) (16 * 64) (d_mem t) = ecc_bytes (ecc_buffer ?s (eccout ?s)) \<and>
    (\<forall>x. 16 * 64 \<le> unat (x - c_next (dma ?s CHANNEL_DISK)) \<longrightarrow> d_mem t x = d_mem ?s x) \<and>
    b_size (ecc_buffer t (eccout t)) = 0 \<and> dma t CHANNEL_DISK = channel_done CHANNEL_DISK (dma ?s CHANNEL_DISK) \<and>
    bit (intStat (d_sys t)) 25 \<and> notified t = notified ?s"
    by (rule optical_dma_delivers)
      (simp_all add: armed_channel_def idle_channel_def dma_state_def misaligned_def all_ram_def)
  then show ?thesis by (simp add: armed_channel_def idle_channel_def dma_state_def ecc_bytes_def del: upt_rec_numeral) blast
qed

end
