(* ===== verification/Esp.thy ===== *)
theory Esp
  imports Scsi_Disk Dma
begin

text \<open>
  The SCSI controller (src/esp.c) and its DMA channel (the SCSI part of src/dma.c). The controller has a
  FIFO of 16 bytes, a command register of two ranks, and a state (disconnected, initiator, target)
  that decides which commands are legal. A command ends with an interrupt that a timed event raises; reading
  the interrupt status lowers it and starts the command that waits in the second rank. Starting and
  finishing commands call each other; the recursion ends because a waiting command is taken out of the second rank before it
  starts. Commands the code ends with \<^verbatim>\<open>abort\<close> are the fault \<open>Aborted\<close>.
\<close>

section \<open>State\<close>

datatype SCSI_STATE = DISCONNECTED | INITIATOR | TARGET

datatype esp_io = ESP_IO_STATE_TRANSFERING | ESP_IO_STATE_FLUSHING | ESP_IO_STATE_DONE

record esp =
  esp_state :: SCSI_STATE
  esp_cmd_state :: u8
  writetranscountl :: u8
  writetranscounth :: u8
  fifo :: "nat \<Rightarrow> u8"
  command0 :: u8
  command1 :: u8
  e_status :: u8
  selectbusid :: u8
  intstatus :: u8
  selecttimeout :: u8
  seqstep :: u8
  syncperiod :: u8
  fifoflags :: u8
  syncoffset :: u8
  configuration :: u8
  clockconv :: u8
  esptest :: u8
  esp_counter :: u32
  mode_dma :: u8
  esp_io_state :: esp_io
  e_scsi :: scsi
  e_dma :: dmac

text \<open>
  What the controller takes from outside: the clock of the machine and of the host, the addresses without bus
  errors, the contents of the command buffer before it is filled, and two settings of the configuration.
\<close>

record esp_env =
  e_conf :: sysconf
  e_now :: i64
  e_bus :: bus_env
  e_stack :: "nat \<Rightarrow> u8"
  e_bTurbo :: bool
  e_ncr53c90 :: bool

abbreviation "SCSI_CDB_MAX_SIZE \<equiv> (12 :: nat)"
abbreviation "ESP_FIFO_SIZE \<equiv> (16 :: nat)"
abbreviation "CMD_TYP_MASK \<equiv> (0x70 :: u8)"
abbreviation "ESP_CMD_INPROGRESS \<equiv> (1 :: u8)"
abbreviation "ESP_CMD_WAITING \<equiv> (2 :: u8)"
abbreviation "CMD_DMA \<equiv> (0x80 :: u8)"
abbreviation "CMD_CMD \<equiv> (0x7F :: u8)"
abbreviation "CMD_NOP \<equiv> (0x00 :: u8)"
abbreviation "CMD_FLUSH \<equiv> (0x01 :: u8)"
abbreviation "CMD_RESET \<equiv> (0x02 :: u8)"
abbreviation "CMD_BUSRESET \<equiv> (0x03 :: u8)"
abbreviation "CMD_TI \<equiv> (0x10 :: u8)"
abbreviation "CMD_ICCS \<equiv> (0x11 :: u8)"
abbreviation "CMD_MSGACC \<equiv> (0x12 :: u8)"
abbreviation "CMD_PAD \<equiv> (0x18 :: u8)"
abbreviation "CMD_SEL \<equiv> (0x41 :: u8)"
abbreviation "CMD_SELATN \<equiv> (0x42 :: u8)"
abbreviation "CMD_ENSEL \<equiv> (0x44 :: u8)"
abbreviation "STAT_VGC \<equiv> (0x08 :: u8)"
abbreviation "STAT_TC \<equiv> (0x10 :: u8)"
abbreviation "STAT_PE \<equiv> (0x20 :: u8)"
abbreviation "STAT_GE \<equiv> (0x40 :: u8)"
abbreviation "STAT_INT \<equiv> (0x80 :: u8)"
abbreviation "BUSID_DID \<equiv> (0x07 :: u8)"
abbreviation "INTR_FC \<equiv> (0x08 :: u8)"
abbreviation "INTR_BS \<equiv> (0x10 :: u8)"
abbreviation "INTR_DC \<equiv> (0x20 :: u8)"
abbreviation "INTR_ILL \<equiv> (0x40 :: u8)"
abbreviation "INTR_RST \<equiv> (0x80 :: u8)"
abbreviation "CFG1_RESREPT \<equiv> (0x40 :: u8)"
abbreviation "ESPCTRL_ENABLE_INT \<equiv> (0x20 :: u8)"
abbreviation "ESPCTRL_FLUSH \<equiv> (0x04 :: u8)"
abbreviation "ESPCTRL_RESET \<equiv> (0x02 :: u8)"
abbreviation "ESPSTAT_STATE_MASK \<equiv> (0xC0 :: u8)"
abbreviation "ESPSTAT_STATE_D0S1 \<equiv> (0x40 :: u8)"
abbreviation "ESPSTAT_STATE_D1S0 \<equiv> (0xC0 :: u8)"
abbreviation "INT_SCSI \<equiv> (0x00001000 :: u32)"
abbreviation "INTERRUPT_ESP \<equiv> (4 :: nat)"

section \<open>Helpers\<close>

definition esp_timer :: "esp_env \<Rightarrow> int \<Rightarrow> int \<Rightarrow> nat \<Rightarrow> esp \<Rightarrow> esp res" where
  "esp_timer E us usreal h s =
     bnd (CycInt_AddRelativeInterruptUs (e_conf E) (e_now E) (word_of_int us) (word_of_int usreal) h (s_cyc (d_sys (e_dma s)))) (\<lambda>c.
       Inr (s\<lparr>e_dma := (e_dma s)\<lparr>d_sys := (d_sys (e_dma s))\<lparr>s_cyc := c\<rparr>\<rparr>\<rparr>))"

definition esp_timer_cycles :: "i64 \<Rightarrow> nat \<Rightarrow> esp \<Rightarrow> esp res" where
  "esp_timer_cycles n h s =
     bnd (CycInt_AddRelativeInterruptCycles n h (s_cyc (d_sys (e_dma s)))) (\<lambda>c.
       Inr (s\<lparr>e_dma := (e_dma s)\<lparr>d_sys := (d_sys (e_dma s))\<lparr>s_cyc := c\<rparr>\<rparr>\<rparr>))"

definition esp_acknowledge :: "esp \<Rightarrow> esp res" where
  "esp_acknowledge s =
     bnd (CycInt_AcknowledgeInterrupt (s_cyc (d_sys (e_dma s)))) (\<lambda>c.
       Inr (s\<lparr>e_dma := (e_dma s)\<lparr>d_sys := (d_sys (e_dma s))\<lparr>s_cyc := c\<rparr>\<rparr>\<rparr>))"

definition esp_irq :: "bool \<Rightarrow> esp \<Rightarrow> esp" where
  "esp_irq state s = s\<lparr>e_dma := dma_irq INT_SCSI state (e_dma s)\<rparr>"

definition esp_phase :: "u8 \<Rightarrow> esp \<Rightarrow> esp" where
  "esp_phase p s = s\<lparr>e_scsi := set_phase p (e_scsi s)\<rparr>"

section \<open>FIFO\<close>

definition esp_fifo_read :: "esp \<Rightarrow> u8 \<times> esp" where
  "esp_fifo_read s =
     (if 0 < fifoflags s then
        (fifo s 0, s\<lparr>fifo := (\<lambda>i. if i < ESP_FIFO_SIZE - 1 then fifo s (i + 1) else fifo s i)(ESP_FIFO_SIZE - 1 := 0),
           fifoflags := fifoflags s - 1\<rparr>)
      else (0, s))"

definition esp_fifo_write :: "u8 \<Rightarrow> esp \<Rightarrow> esp res" where
  "esp_fifo_write val s =
     (if fifoflags s = 16 then
        bnd (arr_put ESP_FIFO_SIZE (fifo s) (unat (fifoflags s - 1)) val) (\<lambda>f.
          Inr (s\<lparr>fifo := f, e_status := e_status s OR STAT_GE\<rparr>))
      else
        let n = fifoflags s + 1
        in bnd (arr_put ESP_FIFO_SIZE (fifo s) (unat (n - 1)) val) (\<lambda>f. Inr (s\<lparr>fifo := f, fifoflags := n\<rparr>)))"

definition esp_fifo_clear :: "esp \<Rightarrow> esp" where
  "esp_fifo_clear s =
     s\<lparr>fifo := (\<lambda>i. if i < ESP_FIFO_SIZE then 0 else fifo s i), fifoflags := fifoflags s AND 0xE0\<rparr>"

section \<open>Reset and selection\<close>

definition esp_command_clear :: "esp \<Rightarrow> esp" where
  "esp_command_clear s =
     (let s1 = s\<lparr>command0 := 0\<rparr>
      in if command1 s1 AND CMD_CMD \<noteq> CMD_RESET
         then s1\<lparr>command1 := 0, esp_cmd_state := esp_cmd_state s1 AND NOT ESP_CMD_WAITING\<rparr> else s1)"

definition esp_reset_soft :: "esp \<Rightarrow> esp" where
  "esp_reset_soft s =
     (esp_command_clear (s\<lparr>e_status := e_status s AND NOT STAT_TC, mode_dma := 0, esp_counter := 0, seqstep := 0\<rparr>))
       \<lparr>esp_state := DISCONNECTED\<rparr>"

text \<open>The command block from the FIFO: at most twelve bytes, the rest of the buffer as it was.\<close>

fun esp_read_cdb :: "nat \<Rightarrow> nat \<Rightarrow> (nat \<Rightarrow> u8) \<Rightarrow> esp \<Rightarrow> (nat \<Rightarrow> u8) \<times> esp" where
  "esp_read_cdb 0 i buf s = (buf, s)"
| "esp_read_cdb (Suc n) i buf s =
     (if 0 < fifoflags s then
        let (b, s1) = esp_fifo_read s in esp_read_cdb n (Suc i) (buf(i := b)) s1
      else (buf, s))"

definition esp_select :: "esp_env \<Rightarrow> bool \<Rightarrow> esp \<Rightarrow> esp res" where
  "esp_select E atn s =
     (let target = selectbusid s AND BUSID_DID
      in bnd (SCSIdisk_Select target (e_scsi s)) (\<lambda>(timeout, sc).
        let s1 = s\<lparr>seqstep := 0, e_scsi := sc\<rparr>
        in if timeout then
             let s2 = (esp_command_clear (s1\<lparr>intstatus := INTR_DC\<rparr>))\<lparr>esp_state := DISCONNECTED\<rparr>
             in esp_timer E ((uint (selecttimeout s) * 8192 * uint (clockconv s)) div 20) 0 INTERRUPT_ESP s2
           else if mode_dma s1 = 1 then Inl Aborted
           else
             let (msg, s2) = (if atn then esp_fifo_read ((esp_phase PHASE_MO s1)\<lparr>seqstep := 1\<rparr>) else (0, s1));
                 (cdb, s3) = esp_read_cdb SCSI_CDB_MAX_SIZE 0 (e_stack E) ((esp_phase PHASE_CD s2)\<lparr>seqstep := 3\<rparr>)
             in bnd (SCSIdisk_Receive_Command cdb msg (e_scsi s3)) (\<lambda>sc.
                  esp_timer E 100 20 INTERRUPT_ESP
                    ((esp_command_clear (s3\<lparr>e_scsi := sc, seqstep := 4\<rparr>))
                       \<lparr>intstatus := INTR_BS OR INTR_FC, esp_state := INITIATOR\<rparr>))))"

section \<open>Transfers without DMA\<close>

text \<open>The end of a transfer; the result says whether it is complete.\<close>

definition esp_transfer_done :: "esp_env \<Rightarrow> bool \<Rightarrow> esp \<Rightarrow> (bool \<times> esp) res" where
  "esp_transfer_done E write s =
     (if esp_counter s = 0 then
        bnd (esp_timer E 100 20 INTERRUPT_ESP (s\<lparr>intstatus := INTR_FC, e_status := e_status s OR STAT_TC\<rparr>)) (\<lambda>t. Inr (True, t))
      else if (write \<and> bus_phase (e_scsi s) \<noteq> PHASE_DI) \<or> (\<not> write \<and> bus_phase (e_scsi s) \<noteq> PHASE_DO) then
        bnd (esp_timer E 100 20 INTERRUPT_ESP ((esp_command_clear s)\<lparr>intstatus := INTR_BS\<rparr>)) (\<lambda>t. Inr (True, t))
      else Inr (False, s))"

definition esp_transfer_info :: "esp_env \<Rightarrow> esp \<Rightarrow> esp res" where
  "esp_transfer_info E s =
     (if mode_dma s \<noteq> 0 then
        let s1 = s\<lparr>esp_io_state := ESP_IO_STATE_TRANSFERING\<rparr>
        in bnd (SCSI_Seek_Time (e_scsi s1)) (\<lambda>k. bnd (SCSI_Sector_Time (e_scsi s1)) (\<lambda>n.
             esp_timer E (k + n) 100 INTERRUPT_ESP_IO s1))
      else if bus_phase (e_scsi s) = PHASE_DI then
        bnd (SCSIdisk_Send_Data (e_scsi s)) (\<lambda>(b, sc).
        bnd (esp_fifo_write b (s\<lparr>e_scsi := sc\<rparr>)) (esp_timer_cycles 20 INTERRUPT_ESP))
      else if bus_phase (e_scsi s) = PHASE_MI \<or> bus_phase (e_scsi s) = PHASE_ST then esp_timer_cycles 20 INTERRUPT_ESP s
      else Inl Aborted)"

function pad_in :: "esp \<Rightarrow> esp res" where
  "pad_in s =
     (if bus_phase (e_scsi s) = PHASE_DI \<and> 0 < esp_counter s then
        (case SCSIdisk_Send_Data (e_scsi s) of
           Inl e \<Rightarrow> Inl e
         | Inr (b, sc) \<Rightarrow> pad_in (s\<lparr>e_scsi := sc, esp_counter := esp_counter s - 1\<rparr>))
      else Inr s)"
  by pat_completeness auto
termination
proof (relation "measure (\<lambda>s. unat (esp_counter s))")
  fix s :: esp and x p y
  assume "bus_phase (e_scsi s) = PHASE_DI \<and> 0 < esp_counter s"
  then show "(s\<lparr>e_scsi := y, esp_counter := esp_counter s - 1\<rparr>, s) \<in> measure (\<lambda>s. unat (esp_counter s))"
    using unat_dec [of "esp_counter s"] by simp
qed simp

function pad_out :: "esp \<Rightarrow> esp res" where
  "pad_out s =
     (if bus_phase (e_scsi s) = PHASE_DO \<and> 0 < esp_counter s then
        (case SCSIdisk_Receive_Data 0 (e_scsi s) of
           Inl e \<Rightarrow> Inl e
         | Inr sc \<Rightarrow> pad_out (s\<lparr>e_scsi := sc, esp_counter := esp_counter s - 1\<rparr>))
      else Inr s)"
  by pat_completeness auto
termination
proof (relation "measure (\<lambda>s. unat (esp_counter s))")
  fix s :: esp and y
  assume "bus_phase (e_scsi s) = PHASE_DO \<and> 0 < esp_counter s"
  then show "(s\<lparr>e_scsi := y, esp_counter := esp_counter s - 1\<rparr>, s) \<in> measure (\<lambda>s. unat (esp_counter s))"
    using unat_dec [of "esp_counter s"] by simp
qed simp

declare pad_in.simps [simp del] pad_out.simps [simp del]

definition esp_transfer_pad :: "esp_env \<Rightarrow> esp \<Rightarrow> esp res" where
  "esp_transfer_pad E s =
     (if bus_phase (e_scsi s) = PHASE_DI then bnd (pad_in s) (\<lambda>t. bnd (esp_transfer_done E True t) (\<lambda>(b, u). Inr u))
      else if bus_phase (e_scsi s) = PHASE_DO then bnd (pad_out s) (\<lambda>t. bnd (esp_transfer_done E False t) (\<lambda>(b, u). Inr u))
      else Inl Aborted)"

definition esp_initiator_command_complete :: "esp_env \<Rightarrow> esp \<Rightarrow> esp res" where
  "esp_initiator_command_complete E s =
     (if mode_dma s = 1 then Inl Aborted
      else
        bnd (SCSIdisk_Send_Status (e_scsi s)) (\<lambda>(b, sc).
        bnd (esp_fifo_write b (s\<lparr>e_scsi := sc\<rparr>)) (\<lambda>s1.
          if bus_phase (e_scsi s1) \<noteq> PHASE_MI then
            esp_timer E 100 20 INTERRUPT_ESP ((esp_command_clear s1)\<lparr>intstatus := INTR_BS\<rparr>)
          else
            bnd (SCSIdisk_Send_Message (e_scsi s1)) (\<lambda>m.
            bnd (esp_fifo_write m s1) (\<lambda>s2. esp_timer E 100 20 INTERRUPT_ESP (s2\<lparr>intstatus := INTR_FC\<rparr>))))))"

definition esp_message_accepted :: "esp_env \<Rightarrow> esp \<Rightarrow> esp res" where
  "esp_message_accepted E s =
     esp_timer E 100 20 INTERRUPT_ESP ((esp_phase PHASE_ST s)\<lparr>intstatus := INTR_BS, esp_state := DISCONNECTED\<rparr>)"

section \<open>Commands\<close>

definition esp_waiting :: "esp \<Rightarrow> nat" where
  "esp_waiting s = (if esp_cmd_state s AND ESP_CMD_WAITING \<noteq> 0 then 1 else 0)"

text \<open>The part of a chip reset before the command is finished.\<close>

definition esp_chip_reset :: "esp \<Rightarrow> esp" where
  "esp_chip_reset s =
     (let s1 = esp_fifo_clear (s\<lparr>clockconv := 2, configuration := configuration s AND NOT 0xF8\<rparr>);
          s2 = esp_irq False (s1\<lparr>syncperiod := 5, syncoffset := 0, e_status := e_status s1 AND NOT STAT_INT\<rparr>);
          s3 = s2\<lparr>intstatus := 0, e_status := e_status s2 AND NOT (STAT_VGC OR STAT_PE OR STAT_GE)\<rparr>
      in esp_reset_soft s3)"

text \<open>The commands of the target mode, and those of the other modes that are not emulated.\<close>

definition unemulated :: "u8 \<Rightarrow> bool" where
  "unemulated c \<longleftrightarrow> c \<in> {0x40, 0x43, 0x45, 0x1A, 0x20, 0x21, 0x22, 0x23, 0x24, 0x25, 0x27, 0x28, 0x29, 0x2A, 0x2B}"

definition illegal_in_state :: "u8 \<Rightarrow> esp \<Rightarrow> bool" where
  "illegal_in_state cmd s \<longleftrightarrow> cmd AND CMD_TYP_MASK \<noteq> 0 \<and>
     (esp_state s = TARGET \<and> cmd AND 0x20 = 0 \<or> esp_state s = INITIATOR \<and> cmd AND 0x10 = 0 \<or>
      esp_state s = DISCONNECTED \<and> cmd AND 0x40 = 0)"

definition esp_illegal :: "esp_env \<Rightarrow> esp \<Rightarrow> esp res" where
  "esp_illegal E s =
     (let s1 = esp_command_clear s in esp_timer E 100 20 INTERRUPT_ESP (s1\<lparr>intstatus := intstatus s1 OR INTR_ILL\<rparr>))"

definition esp_load_counter :: "u8 \<Rightarrow> esp \<Rightarrow> esp" where
  "esp_load_counter cmd s =
     (if cmd AND CMD_DMA \<noteq> 0 then
        let n = ucast (writetranscountl s) OR push_bit 8 (ucast (writetranscounth s))
        in s\<lparr>esp_counter := (if n = 0 then 0x10000 else n), e_status := e_status s AND NOT STAT_TC, mode_dma := 1\<rparr>
      else s\<lparr>mode_dma := 0\<rparr>)"

lemma waiting_clear: "esp_waiting (esp_command_clear s) \<le> esp_waiting s"
  by (simp add: esp_waiting_def esp_command_clear_def Let_def and.assoc)

lemma waiting_simps [simp]:
  "esp_waiting (esp_fifo_clear s) = esp_waiting s" "esp_waiting (esp_irq b s) = esp_waiting s"
  "esp_waiting (esp_load_counter cmd s) = esp_waiting s"
  by (simp_all add: esp_waiting_def esp_fifo_clear_def esp_irq_def esp_load_counter_def Let_def)

lemma waiting_soft: "esp_waiting (esp_reset_soft s) \<le> esp_waiting s"
  using waiting_clear [of "s\<lparr>e_status := e_status s AND NOT STAT_TC, mode_dma := 0, esp_counter := 0, seqstep := 0\<rparr>"]
  by (simp add: esp_reset_soft_def esp_waiting_def)

lemma waiting_reset: "esp_waiting (esp_chip_reset s) \<le> esp_waiting s"
  unfolding esp_chip_reset_def Let_def by (rule order_trans [OF waiting_soft]) (simp add: esp_waiting_def esp_irq_def esp_fifo_clear_def)

lemma waiting_start: "esp_waiting (s\<lparr>esp_cmd_state := esp_cmd_state s OR ESP_CMD_INPROGRESS\<rparr>) = esp_waiting s"
  by (simp add: esp_waiting_def bit.conj_disj_distrib2)

lemma waiting_taken: "esp_waiting (s\<lparr>esp_cmd_state := esp_cmd_state s AND NOT ESP_CMD_WAITING\<rparr>) = 0"
  by (simp add: esp_waiting_def and.assoc)

lemma waiting_finish: "esp_waiting (s\<lparr>esp_cmd_state := esp_cmd_state s AND NOT ESP_CMD_INPROGRESS\<rparr>) = esp_waiting s"
proof -
  have "(esp_cmd_state s AND NOT ESP_CMD_INPROGRESS) AND ESP_CMD_WAITING = esp_cmd_state s AND ESP_CMD_WAITING"
    by (simp add: and.assoc)
  then show ?thesis by (simp add: esp_waiting_def)
qed

text \<open>A command taken out of the second rank leaves none there, so the calls nest at most twice.\<close>

definition esp_level :: "(esp_env \<times> esp + esp_env \<times> u8 \<times> esp) + (esp_env \<times> esp + esp_env \<times> esp + esp_env \<times> esp) \<Rightarrow> nat" where
  "esp_level = case_sum
     (case_sum (\<lambda>(E, s). 3 * esp_waiting s) (\<lambda>(E, c, s). 3 * esp_waiting s + 2))
     (case_sum (\<lambda>(E, s). 3 * esp_waiting s + 1) (case_sum (\<lambda>(E, s). 3 * esp_waiting s + 1) (\<lambda>(E, s). 3 * esp_waiting s + 1)))"

function esp_finish_command :: "esp_env \<Rightarrow> esp \<Rightarrow> esp res"
  and esp_start_command :: "esp_env \<Rightarrow> u8 \<Rightarrow> esp \<Rightarrow> esp res"
  and esp_flush_fifo :: "esp_env \<Rightarrow> esp \<Rightarrow> esp res"
  and esp_reset_hard :: "esp_env \<Rightarrow> esp \<Rightarrow> esp res"
  and esp_bus_reset :: "esp_env \<Rightarrow> esp \<Rightarrow> esp res" where
  "esp_finish_command E s =
     (let s1 = s\<lparr>esp_cmd_state := esp_cmd_state s AND NOT ESP_CMD_INPROGRESS\<rparr>
      in if esp_cmd_state s1 AND ESP_CMD_WAITING \<noteq> 0 then
           esp_start_command E (command1 s1)
             (s1\<lparr>command0 := command1 s1, command1 := 0, esp_cmd_state := esp_cmd_state s1 AND NOT ESP_CMD_WAITING\<rparr>)
         else Inr s1)"
| "esp_start_command E cmd s =
     (let s1 = s\<lparr>esp_cmd_state := esp_cmd_state s OR ESP_CMD_INPROGRESS\<rparr>; c = cmd AND CMD_CMD
      in if illegal_in_state cmd s1 then esp_illegal E s1
         else
           let s2 = esp_load_counter cmd s1
           in if c = CMD_NOP then esp_finish_command E s2
              else if c = CMD_FLUSH then esp_flush_fifo E s2
              else if c = CMD_RESET then esp_reset_hard E s2
              else if c = CMD_BUSRESET then esp_bus_reset E s2
              else if c = CMD_SEL then esp_select E False s2
              else if c = CMD_SELATN then esp_select E True s2
              else if c = CMD_ENSEL then esp_finish_command E s2
              else if c = CMD_TI then esp_transfer_info E s2
              else if c = CMD_ICCS then esp_initiator_command_complete E s2
              else if c = CMD_MSGACC then esp_message_accepted E s2
              else if c = CMD_PAD then esp_transfer_pad E s2
              else if unemulated c then Inl Aborted
              else esp_illegal E s2)"
| "esp_flush_fifo E s = esp_finish_command E (esp_fifo_clear s)"
| "esp_reset_hard E s = esp_finish_command E (esp_chip_reset s)"
| "esp_bus_reset E s =
     (let s1 = esp_reset_soft s
      in if configuration s1 AND CFG1_RESREPT = 0 then
           esp_timer E 500 0 INTERRUPT_ESP (esp_phase PHASE_MI (s1\<lparr>intstatus := INTR_RST\<rparr>))
         else esp_finish_command E s1)"
  by pat_completeness auto

termination
proof (relation "measure esp_level", goal_cases)
  case (2 E s x)
  have "esp_waiting s = 1" using 2 waiting_finish [of s] by (simp add: esp_waiting_def split: if_splits)
  then show ?case using waiting_taken [of "s\<lparr>esp_cmd_state := esp_cmd_state s AND NOT ESP_CMD_INPROGRESS\<rparr>"] 2
    by (simp add: esp_level_def esp_waiting_def)
next
  case (9 E s)
  then show ?case using waiting_reset [of s] by (simp add: esp_level_def)
next
  case (10 E s)
  then show ?case using waiting_soft [of s] by (simp add: esp_level_def)
qed (simp_all add: esp_level_def waiting_start)

declare esp_finish_command.simps [simp del] esp_start_command.simps [simp del] esp_flush_fifo.simps [simp del]
  esp_reset_hard.simps [simp del] esp_bus_reset.simps [simp del]

definition esp_command_write :: "esp_env \<Rightarrow> u8 \<Rightarrow> esp \<Rightarrow> esp res" where
  "esp_command_write E cmd s =
     (let s1 = (if command1 s AND CMD_CMD = CMD_RESET \<and> cmd AND CMD_CMD \<noteq> CMD_NOP then s
          else s\<lparr>command1 := cmd,
            e_status := (if esp_cmd_state s AND ESP_CMD_WAITING \<noteq> 0 then e_status s OR STAT_GE else e_status s)\<rparr>)
      in if command1 s1 AND CMD_CMD = CMD_RESET \<or> command1 s1 AND CMD_CMD = CMD_BUSRESET
         then esp_start_command E (command1 s1) s1
         else if esp_cmd_state s1 AND ESP_CMD_INPROGRESS \<noteq> 0
         then Inr (s1\<lparr>esp_cmd_state := esp_cmd_state s1 OR ESP_CMD_WAITING\<rparr>)
         else esp_start_command E (command1 s1) (s1\<lparr>command0 := command1 s1, command1 := 0\<rparr>))"

section \<open>Interrupt line\<close>

definition esp_raise_irq :: "esp \<Rightarrow> esp" where
  "esp_raise_irq s =
     (if e_status s AND STAT_INT = 0 then
        let s1 = s\<lparr>e_status := e_status s OR STAT_INT\<rparr>
        in if esp_dma_control (e_dma s1) AND ESPCTRL_ENABLE_INT \<noteq> 0 then esp_irq True s1 else s1
      else s)"

definition esp_lower_irq :: "esp_env \<Rightarrow> esp \<Rightarrow> esp res" where
  "esp_lower_irq E s =
     (if e_status s AND STAT_INT \<noteq> 0
      then esp_finish_command E (esp_irq False (s\<lparr>e_status := e_status s AND NOT STAT_INT\<rparr>))
      else Inr s)"

definition ESP_InterruptHandler :: "esp \<Rightarrow> esp res" where
  "ESP_InterruptHandler s = bnd (esp_acknowledge s) (\<lambda>t. Inr (esp_raise_irq t))"

section \<open>DMA channel\<close>

definition ESP_DMA_set_status :: "esp \<Rightarrow> esp" where
  "ESP_DMA_set_status s =
     (let v = esp_dma_status (e_dma s);
          w = (v AND NOT ESPSTAT_STATE_MASK) OR
            (if v AND ESPSTAT_STATE_MASK = ESPSTAT_STATE_D0S1 then ESPSTAT_STATE_D1S0 else ESPSTAT_STATE_D0S1)
      in s\<lparr>e_dma := (e_dma s)\<lparr>esp_dma_status := w\<rparr>\<rparr>)"

text \<open>The channel serves the floppy drive or the SCSI bus.\<close>

definition channel_take :: "esp \<Rightarrow> (u8 \<times> esp) res" where
  "channel_take s =
     (if floppy_select (e_dma s) then
        let b = flp_buffer (e_dma s)
        in bnd (arr_get 1024 (b_data b) (unat (b_limit b - b_size b))) (\<lambda>v.
             Inr (v, s\<lparr>e_dma := (e_dma s)\<lparr>flp_buffer := b\<lparr>b_size := b_size b - 1\<rparr>\<rparr>\<rparr>))
      else bnd (SCSIdisk_Send_Data (e_scsi s)) (\<lambda>(v, sc). Inr (v, s\<lparr>e_scsi := sc, esp_counter := esp_counter s - 1\<rparr>)))"

definition channel_give :: "u8 \<Rightarrow> esp \<Rightarrow> esp res" where
  "channel_give v s =
     (if floppy_select (e_dma s) then
        let b = flp_buffer (e_dma s)
        in bnd (arr_put 1024 (b_data b) (unat (b_size b)) v) (\<lambda>a.
             Inr (s\<lparr>e_dma := (e_dma s)\<lparr>flp_buffer := b\<lparr>b_data := a, b_size := b_size b + 1\<rparr>\<rparr>\<rparr>))
      else bnd (SCSIdisk_Receive_Data v (e_scsi s)) (\<lambda>sc. Inr (s\<lparr>e_scsi := sc, esp_counter := esp_counter s - 1\<rparr>)))"

definition esp_port :: "esp port" where
  "esp_port =
     \<lparr>p_ready = (\<lambda>s. if floppy_select (e_dma s) then 0 < b_size (flp_buffer (e_dma s))
        else 0 < esp_counter s \<and> bus_phase (e_scsi s) = PHASE_DI),
      p_take = channel_take,
      p_room = (\<lambda>s. if floppy_select (e_dma s) then b_size (flp_buffer (e_dma s)) < b_limit (flp_buffer (e_dma s))
        else 0 < esp_counter s \<and> bus_phase (e_scsi s) = PHASE_DO),
      p_give = channel_give,
      p_toggle = ESP_DMA_set_status,
      p_offers = (\<lambda>s. if floppy_select (e_dma s) then unat (b_size (flp_buffer (e_dma s))) else unat (esp_counter s)),
      p_space = (\<lambda>s. if floppy_select (e_dma s)
        then unat (b_limit (flp_buffer (e_dma s))) - unat (b_size (flp_buffer (e_dma s))) else unat (esp_counter s))\<rparr>"

definition esp_xfer :: "esp \<Rightarrow> esp xfer" where
  "esp_xfer s =
     \<lparr>x_next = c_next (dma (e_dma s) CHANNEL_SCSI), x_limit = c_limit (dma (e_dma s) CHANNEL_SCSI),
      x_size = espdma_buf_size (e_dma s), x_fill = espdma_buf_limit (e_dma s), x_buf = espdma_buf (e_dma s),
      x_mem = d_mem (e_dma s), x_dev = s\<rparr>"

definition esp_moved :: "esp xfer \<Rightarrow> dmac" where
  "esp_moved x =
     (let d = e_dma (x_dev x)
      in set_chan CHANNEL_SCSI ((dma d CHANNEL_SCSI)\<lparr>c_next := x_next x\<rparr>)
           (d\<lparr>espdma_buf_size := x_size x, espdma_buf_limit := x_fill x, espdma_buf := x_buf x, d_mem := x_mem x\<rparr>))"

definition dma_esp_write_memory :: "esp_env \<Rightarrow> esp \<Rightarrow> esp res" where
  "dma_esp_write_memory E s =
     (let start = c_next (dma (e_dma s) CHANNEL_SCSI)
      in if c_csr (dma (e_dma s) CHANNEL_SCSI) AND DMA_ENABLE = 0 then Inr s
         else if misaligned (dma (e_dma s) CHANNEL_SCSI) then Inl Aborted
         else bnd (write_bursts (p_offers esp_port s + 2) esp_port (e_bus E) (esp_xfer s)) (\<lambda>(berr, x).
           let d = esp_moved x;
               d1 = (if berr then bus_exception CHANNEL_SCSI d
                     else if start < x_next x then notify start (x_next x - start) d else d)
           in Inr ((x_dev x)\<lparr>e_dma := dma_interrupt CHANNEL_SCSI d1\<rparr>)))"

definition dma_esp_read_memory :: "esp_env \<Rightarrow> esp \<Rightarrow> esp res" where
  "dma_esp_read_memory E s =
     (if c_csr (dma (e_dma s) CHANNEL_SCSI) AND DMA_ENABLE = 0 then Inr s
      else if misaligned (dma (e_dma s) CHANNEL_SCSI) then Inl Aborted
      else bnd (read_bursts (p_space esp_port s + nat (- espdma_buf_size (e_dma s)) + 2) esp_port (e_bus E) (esp_xfer s)) (\<lambda>(berr, x).
        let d = esp_moved x
        in Inr ((x_dev x)\<lparr>e_dma := dma_interrupt CHANNEL_SCSI (if berr then bus_exception CHANNEL_SCSI d else d)\<rparr>)))"

definition ESP_IO_Handler :: "esp_env \<Rightarrow> esp \<Rightarrow> esp res" where
  "ESP_IO_Handler E s =
     bnd (esp_acknowledge s) (\<lambda>s1.
       case esp_io_state s1 of
         ESP_IO_STATE_TRANSFERING \<Rightarrow>
           if bus_phase (e_scsi s1) = PHASE_DI then
             bnd (dma_esp_write_memory E s1) (\<lambda>s2.
             bnd (esp_transfer_done E True s2) (\<lambda>(b, s3).
               esp_timer E 100 0 INTERRUPT_ESP_IO (if b then s3\<lparr>esp_io_state := ESP_IO_STATE_FLUSHING\<rparr> else s3)))
           else if bus_phase (e_scsi s1) = PHASE_DO then
             bnd (dma_esp_read_memory E s1) (\<lambda>s2.
             bnd (esp_transfer_done E False s2) (\<lambda>(b, s3).
               if b then Inr s3 else esp_timer E 100 0 INTERRUPT_ESP_IO s3))
           else esp_timer E 100 0 INTERRUPT_ESP_IO s1
       | ESP_IO_STATE_FLUSHING \<Rightarrow> dma_esp_write_memory E s1
       | ESP_IO_STATE_DONE \<Rightarrow> Inr s1)"

section \<open>Registers\<close>

definition ESP_DMA_CTRL_Read :: "esp \<Rightarrow> u8" where
  "ESP_DMA_CTRL_Read s = esp_dma_control (e_dma s)"

definition ESP_DMA_CTRL_Write :: "esp_env \<Rightarrow> u8 \<Rightarrow> esp \<Rightarrow> esp res" where
  "ESP_DMA_CTRL_Write E v s =
     (let s1 = s\<lparr>e_dma := (e_dma s)\<lparr>esp_dma_control := v\<rparr>\<rparr>
      in bnd (if v AND ESPCTRL_FLUSH \<noteq> 0 then
                bnd (if e_bTurbo E then tdma_flush_buffer (e_bus E) (e_dma s1) else dma_esp_flush_buffer (e_bus E) (e_dma s1))
                  (\<lambda>d. Inr (s1\<lparr>e_dma := d\<rparr>))
              else Inr s1) (\<lambda>s2.
         bnd (if esp_dma_control (e_dma s2) AND ESPCTRL_RESET \<noteq> 0 then esp_reset_hard E s2 else Inr s2) (\<lambda>s3.
           Inr (if esp_dma_control (e_dma s3) AND ESPCTRL_ENABLE_INT \<noteq> 0
                then (if e_status s3 AND STAT_INT \<noteq> 0 then esp_irq True s3 else s3)
                else esp_irq False s3))))"

definition ESP_DMA_FIFO_STAT_Read :: "esp \<Rightarrow> u8" where
  "ESP_DMA_FIFO_STAT_Read s = esp_dma_status (e_dma s)"

definition ESP_DMA_FIFO_STAT_Write :: "u8 \<Rightarrow> esp \<Rightarrow> esp" where
  "ESP_DMA_FIFO_STAT_Write v s = s\<lparr>e_dma := (e_dma s)\<lparr>esp_dma_status := v\<rparr>\<rparr>"

definition ESP_TransCountL_Read :: "esp \<Rightarrow> u8" where
  "ESP_TransCountL_Read s = ucast (esp_counter s AND 0xFF)"

definition ESP_TransCountL_Write :: "u8 \<Rightarrow> esp \<Rightarrow> esp" where
  "ESP_TransCountL_Write v s = s\<lparr>writetranscountl := v\<rparr>"

definition ESP_TransCountH_Read :: "esp \<Rightarrow> u8" where
  "ESP_TransCountH_Read s = ucast (drop_bit 8 (esp_counter s) AND 0xFF)"

definition ESP_TransCountH_Write :: "u8 \<Rightarrow> esp \<Rightarrow> esp" where
  "ESP_TransCountH_Write v s = s\<lparr>writetranscounth := v\<rparr>"

definition ESP_FIFO_Read :: "esp \<Rightarrow> u8 \<times> esp" where
  "ESP_FIFO_Read s = esp_fifo_read s"

definition ESP_FIFO_Write :: "u8 \<Rightarrow> esp \<Rightarrow> esp res" where
  "ESP_FIFO_Write v s = esp_fifo_write v s"

definition ESP_Command_Read :: "esp \<Rightarrow> u8" where
  "ESP_Command_Read s = command0 s"

definition ESP_Command_Write :: "esp_env \<Rightarrow> u8 \<Rightarrow> esp \<Rightarrow> esp res" where
  "ESP_Command_Write E v s = esp_command_write E v s"

definition ESP_Status_Read :: "esp \<Rightarrow> u8" where
  "ESP_Status_Read s = (e_status s AND 0xF8) OR (bus_phase (e_scsi s) AND 0x07)"

definition ESP_SelectBusID_Write :: "u8 \<Rightarrow> esp \<Rightarrow> esp" where
  "ESP_SelectBusID_Write v s = s\<lparr>selectbusid := v\<rparr>"

definition ESP_IntStatus_Read :: "esp_env \<Rightarrow> esp \<Rightarrow> (u8 \<times> esp) res" where
  "ESP_IntStatus_Read E s =
     (if e_status s AND STAT_INT \<noteq> 0 then
        bnd (esp_lower_irq E (s\<lparr>intstatus := 0, e_status := e_status s AND NOT (STAT_VGC OR STAT_PE OR STAT_GE)\<rparr>))
          (\<lambda>t. Inr (intstatus s, t))
      else Inr (intstatus s, s))"

definition ESP_SelectTimeout_Write :: "u8 \<Rightarrow> esp \<Rightarrow> esp" where
  "ESP_SelectTimeout_Write v s = s\<lparr>selecttimeout := v\<rparr>"

definition ESP_SeqStep_Read :: "esp \<Rightarrow> u8" where
  "ESP_SeqStep_Read s = seqstep s"

definition ESP_SyncPeriod_Write :: "u8 \<Rightarrow> esp \<Rightarrow> esp" where
  "ESP_SyncPeriod_Write v s = s\<lparr>syncperiod := v\<rparr>"

definition ESP_FIFOflags_Read :: "esp \<Rightarrow> u8" where
  "ESP_FIFOflags_Read s = fifoflags s"

definition ESP_SyncOffset_Write :: "u8 \<Rightarrow> esp \<Rightarrow> esp" where
  "ESP_SyncOffset_Write v s = s\<lparr>syncoffset := v\<rparr>"

definition ESP_Configuration_Read :: "esp \<Rightarrow> u8" where
  "ESP_Configuration_Read s = configuration s"

definition ESP_Configuration_Write :: "u8 \<Rightarrow> esp \<Rightarrow> esp" where
  "ESP_Configuration_Write v s = s\<lparr>configuration := v\<rparr>"

definition ESP_ClockConv_Write :: "u8 \<Rightarrow> esp \<Rightarrow> esp" where
  "ESP_ClockConv_Write v s = s\<lparr>clockconv := v\<rparr>"

definition ESP_Test_Write :: "u8 \<Rightarrow> esp \<Rightarrow> esp" where
  "ESP_Test_Write v s = s\<lparr>esptest := v\<rparr>"

text \<open>The old chip reads 0; with the new one the location keeps its contents \<open>old\<close>.\<close>

definition ESP_Conf2_Read :: "esp_env \<Rightarrow> u8 \<Rightarrow> u8" where
  "ESP_Conf2_Read E old = (if e_ncr53c90 E then 0 else old)"

section \<open>The FIFO as a bounded queue\<close>

text \<open>
  The interface of a bounded queue of bytes: what a full queue does with another byte is left open.
\<close>

locale byte_fifo =
  fixes ok :: "'s \<Rightarrow> bool" and contents :: "'s \<Rightarrow> u8 list" and capacity :: nat
    and put :: "u8 \<Rightarrow> 's \<Rightarrow> 's res" and get :: "'s \<Rightarrow> u8 \<times> 's"
  assumes put_law: "ok s \<Longrightarrow> length (contents s) < capacity \<Longrightarrow>
      \<exists>t. put v s = Inr t \<and> ok t \<and> contents t = contents s @ [v]"
    and get_law: "ok s \<Longrightarrow> contents s = v # vs \<Longrightarrow> \<exists>t. get s = (v, t) \<and> ok t \<and> contents t = vs"
begin

primrec get_all :: "nat \<Rightarrow> 's \<Rightarrow> u8 list \<times> 's" where
  "get_all 0 s = ([], s)"
| "get_all (Suc n) s = (let (v, t) = get s; (vs, u) = get_all n t in (v # vs, u))"

lemma put_list:
  "ok s \<Longrightarrow> length (contents s) + length vs \<le> capacity \<Longrightarrow>
   \<exists>t. each put vs s = Inr t \<and> ok t \<and> contents t = contents s @ vs"
proof (induction vs arbitrary: s)
  case (Cons v vs)
  then obtain t where t: "put v s = Inr t" "ok t" "contents t = contents s @ [v]" using put_law [of s v] by auto
  then show ?case using Cons.IH [of t] Cons.prems(2) by auto
qed simp

lemma get_list: "ok s \<Longrightarrow> contents s = vs @ ws \<Longrightarrow> \<exists>t. get_all (length vs) s = (vs, t) \<and> ok t \<and> contents t = ws"
proof (induction vs arbitrary: s)
  case (Cons v vs)
  then obtain t where t: "get s = (v, t)" "ok t" "contents t = vs @ ws" using get_law [of s v] by auto
  then show ?case using Cons.IH [of t] by auto
qed simp

lemma put_then_get:
  assumes "ok s" "contents s = []" "length vs \<le> capacity"
  shows "\<exists>t u. each put vs s = Inr t \<and> get_all (length vs) t = (vs, u) \<and> contents u = []"
  using put_list [of s vs] get_list [of _ vs "[]"] assms by fastforce

end

definition fifo_ok :: "esp \<Rightarrow> bool" where
  "fifo_ok s \<longleftrightarrow> fifoflags s \<le> 16"

definition fifo_list :: "esp \<Rightarrow> u8 list" where
  "fifo_list s = map (fifo s) [0 ..< unat (fifoflags s)]"

lemma length_fifo_list [simp]: "length (fifo_list s) = unat (fifoflags s)"
  by (simp add: fifo_list_def)

lemma flags_inc: "(f :: u8) < 16 \<Longrightarrow> unat (f + 1) = Suc (unat f)"
  by (simp add: word_less_nat_alt unat_word_ariths)

lemma flags_dec: "0 < (f :: u8) \<Longrightarrow> unat f = Suc (unat (f - 1))"
proof -
  assume "0 < f"
  then have "f \<noteq> 0" "0 < unat f" by (auto simp: word_less_nat_alt)
  then show ?thesis by (simp add: unat_minus_one)
qed

lemma fifo_write_room:
  assumes "fifo_ok s" "length (fifo_list s) < ESP_FIFO_SIZE"
  shows "esp_fifo_write v s = Inr (s\<lparr>fifo := (fifo s)(unat (fifoflags s) := v), fifoflags := fifoflags s + 1\<rparr>)"
    "unat (fifoflags s + 1) = Suc (unat (fifoflags s))"
proof -
  have lt: "fifoflags s < 16" using assms(2) by (simp add: word_less_nat_alt)
  then show "unat (fifoflags s + 1) = Suc (unat (fifoflags s))" by (rule flags_inc)
  show "esp_fifo_write v s = Inr (s\<lparr>fifo := (fifo s)(unat (fifoflags s) := v), fifoflags := fifoflags s + 1\<rparr>)"
    using lt assms(2) by (auto simp: esp_fifo_write_def Let_def)
qed

lemma fifo_write_full:
  "fifoflags s = 16 \<Longrightarrow> esp_fifo_write v s = Inr (s\<lparr>fifo := (fifo s)(15 := v), e_status := e_status s OR STAT_GE\<rparr>)"
  by (simp add: esp_fifo_write_def)

lemma fifo_read_list:
  assumes "fifo_ok s" "fifo_list s = v # vs"
  shows "fst (esp_fifo_read s) = v \<and> fifo_ok (snd (esp_fifo_read s)) \<and> fifo_list (snd (esp_fifo_read s)) = vs"
proof -
  let ?n = "unat (fifoflags s - 1)"
  have pos: "0 < fifoflags s"
    using assms(2) by (metis fifo_list_def list.simps(3,8) unat_0 upt_0 word_neq_0_conv)
  have n: "unat (fifoflags s) = Suc ?n" by (rule flags_dec [OF pos])
  have le: "?n < 16" using assms(1) n by (simp add: fifo_ok_def word_le_nat_alt)
  have l: "fifo_list s = fifo s 0 # map (\<lambda>i. fifo s (Suc i)) [0 ..< ?n]"
    unfolding fifo_list_def n by (subst upt_conv_Cons) (simp_all add: map_Suc_upt [symmetric] del: map_Suc_upt upt_Suc)
  have m: "map (\<lambda>i. if i < 15 then fifo s (i + 1) else fifo s i) [0 ..< ?n] = map (\<lambda>i. fifo s (Suc i)) [0 ..< ?n]"
    using le by (intro map_cong) auto
  show ?thesis using assms(2) pos le m unfolding l
    by (simp add: esp_fifo_read_def fifo_list_def fifo_ok_def word_le_nat_alt)
qed

interpretation esp_queue: byte_fifo fifo_ok fifo_list ESP_FIFO_SIZE esp_fifo_write esp_fifo_read
proof
  fix s v
  assume a: "fifo_ok s" "length (fifo_list s) < ESP_FIFO_SIZE"
  let ?t = "s\<lparr>fifo := (fifo s)(unat (fifoflags s) := v), fifoflags := fifoflags s + 1\<rparr>"
  have "fifo_list ?t = fifo_list s @ [v]" by (simp add: fifo_list_def fifo_write_room(2) [OF a])
  moreover have "fifo_ok ?t" using a(2) fifo_write_room(2) [OF a] by (simp add: fifo_ok_def word_le_nat_alt)
  ultimately show "\<exists>t. esp_fifo_write v s = Inr t \<and> fifo_ok t \<and> fifo_list t = fifo_list s @ [v]"
    using fifo_write_room(1) [OF a] by blast
next
  fix s v vs
  assume "fifo_ok s" "fifo_list s = v # vs"
  then show "\<exists>t. esp_fifo_read s = (v, t) \<and> fifo_ok t \<and> fifo_list t = vs"
    using fifo_read_list [of s v vs] by (metis prod.collapse)
qed

section \<open>Selection hands the FIFO to the target\<close>

lemma read_fields [simp]:
  "e_scsi (snd (esp_fifo_read s)) = e_scsi s" "e_dma (snd (esp_fifo_read s)) = e_dma s"
  "mode_dma (snd (esp_fifo_read s)) = mode_dma s" "command1 (snd (esp_fifo_read s)) = command1 s"
  "esp_cmd_state (snd (esp_fifo_read s)) = esp_cmd_state s"
  by (simp_all add: esp_fifo_read_def)

text \<open>The bytes \<open>bs\<close> in the command buffer, from place \<open>i\<close> on.\<close>

lemma read_cdb_list:
  "fifo_ok s \<Longrightarrow> fifo_list s = bs \<Longrightarrow> length bs \<le> n \<Longrightarrow>
   \<exists>t. esp_read_cdb n i buf s = (buf_with i bs buf, t) \<and> fifo_list t = [] \<and> e_scsi t = e_scsi s \<and> e_dma t = e_dma s \<and>
     command1 t = command1 s \<and> esp_cmd_state t = esp_cmd_state s"
proof (induction bs arbitrary: n i buf s)
  case Nil
  then have "fifoflags s = 0" by (metis length_fifo_list list.size(3) unat_eq_0)
  then show ?case using Nil by (cases n) simp_all
next
  case (Cons b bs)
  then obtain m where n: "n = Suc m" "length bs \<le> m" by (cases n) auto
  obtain t where t: "esp_fifo_read s = (b, t)" "fifo_ok t" "fifo_list t = bs"
    using esp_queue.get_law [OF Cons.prems(1,2)] by blast
  have "0 < fifoflags s" using Cons.prems(2) by (metis length_fifo_list list.distinct(1) list.size(3) length_0_conv unat_0 word_neq_0_conv)
  then show ?case
    using Cons.IH [of t m "Suc i" "buf(i := b)"] t n read_fields [of s] by (auto simp: buf_with_Cons fun_upd_def)
qed

section \<open>The bus as a device of the channel\<close>

lemma send_no_overflow: "SCSIdisk_Send_Data s \<noteq> Inl StackOverflow"
  by (auto simp: SCSIdisk_Send_Data_def scsi_read_sector_def get_block_def the_file_def cur_def arr_get_def Let_def bnd_eq_Inl
      split: if_splits option.splits)

lemma receive_no_overflow: "SCSIdisk_Receive_Data v s \<noteq> Inl StackOverflow"
  by (auto simp: SCSIdisk_Receive_Data_def scsi_write_sector_def put_block_def the_file_def cur_def arr_get_def Let_def bnd_eq_Inl
      split: if_splits option.splits)

lemma take_no_overflow: "channel_take s \<noteq> Inl StackOverflow"
  using send_no_overflow by (auto simp: channel_take_def arr_get_def Let_def bnd_eq_Inl)

lemma give_no_overflow: "channel_give v s \<noteq> Inl StackOverflow"
  using receive_no_overflow by (auto simp: channel_give_def arr_put_def Let_def bnd_eq_Inl)

lemma toggle_fields [simp]:
  "e_scsi (ESP_DMA_set_status s) = e_scsi s" "esp_counter (ESP_DMA_set_status s) = esp_counter s"
  "floppy_select (e_dma (ESP_DMA_set_status s)) = floppy_select (e_dma s)"
  "flp_buffer (e_dma (ESP_DMA_set_status s)) = flp_buffer (e_dma s)"
  "esp_dma_status (e_dma (ESP_DMA_set_status s)) = (esp_dma_status (e_dma s) AND NOT ESPSTAT_STATE_MASK) OR
     (if esp_dma_status (e_dma s) AND ESPSTAT_STATE_MASK = ESPSTAT_STATE_D0S1 then ESPSTAT_STATE_D1S0 else ESPSTAT_STATE_D0S1)"
  by (simp_all add: ESP_DMA_set_status_def Let_def)

text \<open>The state bits of the channel are written by no other part of a transfer.\<close>

definition dma_state_bits :: "u8 \<Rightarrow> esp \<Rightarrow> esp" where
  "dma_state_bits w s = s\<lparr>e_dma := (e_dma s)\<lparr>esp_dma_status := w\<rparr>\<rparr>"

lemma toggle_bits: "\<exists>f. \<forall>s. ESP_DMA_set_status s = dma_state_bits (f (esp_dma_status (e_dma s))) s"
  unfolding ESP_DMA_set_status_def dma_state_bits_def Let_def by (rule exI) (rule allI, rule refl)

lemma take_bits:
  "channel_take s = Inr (v, t) \<Longrightarrow> channel_take (dma_state_bits w s) = Inr (v, dma_state_bits w t) \<and>
    esp_dma_status (e_dma t) = esp_dma_status (e_dma s)"
  by (auto simp: channel_take_def dma_state_bits_def Let_def bnd_eq_Inr split: if_splits)

lemma give_bits:
  "channel_give v s = Inr t \<Longrightarrow> channel_give v (dma_state_bits w s) = Inr (dma_state_bits w t) \<and>
    esp_dma_status (e_dma t) = esp_dma_status (e_dma s)"
  by (auto simp: channel_give_def dma_state_bits_def Let_def bnd_eq_Inr split: if_splits)

lemma take_toggled: "channel_take s = Inr (v, t) \<Longrightarrow> channel_take (ESP_DMA_set_status s) = Inr (v, ESP_DMA_set_status t)"
  using toggle_bits take_bits by metis

lemma give_toggled: "channel_give v s = Inr t \<Longrightarrow> channel_give v (ESP_DMA_set_status s) = Inr (ESP_DMA_set_status t)"
  using toggle_bits give_bits by metis

interpretation esp_source: byte_source esp_port
proof
  fix d :: esp and v e
  assume "p_ready esp_port d" "p_take esp_port d = Inr (v, e)"
  then show "Suc (p_offers esp_port e) \<le> p_offers esp_port d"
    by (auto simp: esp_port_def channel_take_def Let_def bnd_eq_Inr unat_dec split: if_splits)
qed (use take_toggled take_no_overflow in \<open>auto simp: esp_port_def\<close>)

interpretation esp_sink: byte_sink esp_port
proof
  fix d :: esp and v e
  assume r: "p_room esp_port d" "p_give esp_port v d = Inr e"
  show "Suc (p_space esp_port e) \<le> p_space esp_port d"
  proof (cases "floppy_select (e_dma d)")
    case True
    let ?b = "flp_buffer (e_dma d)"
    have lt: "b_size ?b < b_limit ?b" using r(1) True by (simp add: esp_port_def)
    obtain a where e: "e = d\<lparr>e_dma := (e_dma d)\<lparr>flp_buffer := ?b\<lparr>b_data := a, b_size := b_size ?b + 1\<rparr>\<rparr>\<rparr>"
      using r(2) True by (auto simp: esp_port_def channel_give_def Let_def bnd_eq_Inr)
    show ?thesis using lt unat_succ [OF lt] True by (simp add: esp_port_def e word_less_nat_alt)
  next
    case False
    then show ?thesis using r by (auto simp: esp_port_def channel_give_def bnd_eq_Inr unat_dec)
  qed
qed (use give_toggled give_no_overflow in \<open>auto simp: esp_port_def\<close>)

text \<open>The fuel of the transfers is enough: they end, with a fault of the program or without.\<close>

lemma esp_write_bound: "dma_esp_write_memory E s \<noteq> Inl StackOverflow"
  using esp_source.write_enough [of "esp_xfer s" "p_offers esp_port s + 2" "e_bus E"]
  by (auto simp: dma_esp_write_memory_def bnd_eq_Inl esp_xfer_def Let_def split: if_splits)

lemma esp_read_bound: "dma_esp_read_memory E s \<noteq> Inl StackOverflow"
  using esp_sink.read_enough [of "esp_xfer s" "p_space esp_port s + nat (- espdma_buf_size (e_dma s)) + 2" "e_bus E"]
  by (auto simp: dma_esp_read_memory_def bnd_eq_Inl esp_xfer_def Let_def split: if_splits)

section \<open>Selection\<close>

lemma clear_scsi: "esp_command_clear (s\<lparr>e_scsi := x\<rparr>) = (esp_command_clear s)\<lparr>e_scsi := x\<rparr>"
  by (simp add: esp_command_clear_def Let_def)

lemma clear_keeps [simp]:
  "fifo_list (esp_command_clear s) = fifo_list s" "e_dma (esp_command_clear s) = e_dma s"
  "e_scsi (esp_command_clear s) = e_scsi s" "fifoflags (esp_command_clear s) = fifoflags s"
  "mode_dma (esp_command_clear s) = mode_dma s" "esp_counter (esp_command_clear s) = esp_counter s"
  "seqstep (esp_command_clear s) = seqstep s"
  by (simp_all add: esp_command_clear_def fifo_list_def Let_def)

text \<open>The state in which the chip waits for a command.\<close>

definition esp_idle :: "esp \<Rightarrow> bool" where
  "esp_idle s \<longleftrightarrow> esp_cmd_state s = 0 \<and> command1 s = 0"

text \<open>An idle chip starts the command at once.\<close>

lemma command_idle:
  assumes "esp_idle s" "cmd AND CMD_CMD \<noteq> CMD_RESET" "cmd AND CMD_CMD \<noteq> CMD_BUSRESET"
  shows "ESP_Command_Write E cmd s = esp_start_command E cmd (s\<lparr>command0 := cmd\<rparr>)"
proof -
  have e: "s\<lparr>command0 := cmd, command1 := 0\<rparr> = s\<lparr>command0 := cmd\<rparr>"
    using assms(1) by (simp add: esp_idle_def esp.equality)
  have "ESP_Command_Write E cmd s = esp_start_command E cmd (s\<lparr>command0 := cmd, command1 := 0\<rparr>)"
    using assms by (simp add: ESP_Command_Write_def esp_command_write_def esp_idle_def Let_def)
  then show ?thesis unfolding e .
qed

lemma start_sel:
  assumes "esp_state s = DISCONNECTED"
  shows "esp_start_command E CMD_SEL s =
    esp_select E False (s\<lparr>esp_cmd_state := esp_cmd_state s OR ESP_CMD_INPROGRESS, mode_dma := 0\<rparr>)"
  using assms by (subst esp_start_command.simps) (simp add: illegal_in_state_def esp_load_counter_def Let_def)

lemma start_selatn:
  assumes "esp_state s = DISCONNECTED"
  shows "esp_start_command E CMD_SELATN s =
    esp_select E True (s\<lparr>esp_cmd_state := esp_cmd_state s OR ESP_CMD_INPROGRESS, mode_dma := 0\<rparr>)"
  using assms by (subst esp_start_command.simps) (simp add: illegal_in_state_def esp_load_counter_def Let_def)

lemma each_fifo:
  assumes "fifo_ok s" "fifo_list s = []" "length bs \<le> ESP_FIFO_SIZE"
  shows "\<exists>t. each ESP_FIFO_Write bs s = Inr t \<and> fifo_ok t \<and> fifo_list t = bs"
  using esp_queue.put_list [of s bs] assms by (simp add: ESP_FIFO_Write_def [abs_def])

text \<open>A byte written to the FIFO changes nothing but the FIFO and the gross error bit.\<close>

definition fifo_only :: "esp \<Rightarrow> esp \<Rightarrow> bool" where
  "fifo_only s t \<longleftrightarrow> (\<exists>f n e. t = s\<lparr>fifo := f, fifoflags := n, e_status := e\<rparr>)"

lemma fifo_only_refl: "fifo_only s s"
  unfolding fifo_only_def by (rule exI [of _ "fifo s"], rule exI [of _ "fifoflags s"], rule exI [of _ "e_status s"]) simp

lemma fifo_only_trans: "fifo_only s t \<Longrightarrow> fifo_only t u \<Longrightarrow> fifo_only s u"
  unfolding fifo_only_def by (elim exE) auto

lemma write_fifo_only: "ESP_FIFO_Write b s = Inr t \<Longrightarrow> fifo_only s t"
proof -
  assume w: "ESP_FIFO_Write b s = Inr t"
  have "\<exists>f. t = s\<lparr>fifo := f, fifoflags := fifoflags s, e_status := e_status s OR STAT_GE\<rparr> \<or>
      t = s\<lparr>fifo := f, fifoflags := fifoflags s + 1, e_status := e_status s\<rparr>"
    using w by (auto simp: ESP_FIFO_Write_def esp_fifo_write_def Let_def bnd_eq_Inr split: if_splits)
  then show ?thesis unfolding fifo_only_def by blast
qed

lemma each_fifo_only: "each ESP_FIFO_Write bs s = Inr t \<Longrightarrow> fifo_only s t"
proof (induction bs arbitrary: s)
  case Nil
  then show ?case using fifo_only_refl by simp
next
  case (Cons b bs)
  then obtain u where "ESP_FIFO_Write b s = Inr u" "each ESP_FIFO_Write bs u = Inr t" by (auto simp: bnd_eq_Inr)
  then show ?case using Cons.IH write_fifo_only fifo_only_trans by blast
qed

lemma fifo_only_keeps:
  "fifo_only s t \<Longrightarrow> esp_idle t = esp_idle s" "fifo_only s t \<Longrightarrow> esp_state t = esp_state s"
  "fifo_only s t \<Longrightarrow> e_scsi t = e_scsi s" "fifo_only s t \<Longrightarrow> e_dma t = e_dma s" "fifo_only s t \<Longrightarrow> selectbusid t = selectbusid s"
  "fifo_only s t \<Longrightarrow> esp_cmd_state t = esp_cmd_state s" "fifo_only s t \<Longrightarrow> command1 t = command1 s"
  by (auto simp: fifo_only_def esp_idle_def)

text \<open>Selection of a target that is there, with an identify message and a command in the FIFO.\<close>

lemma select_present:
  assumes "fifo_ok s" "fifo_list s = msg # cdb" "length cdb \<le> SCSI_CDB_MAX_SIZE" "mode_dma s = 0"
    "SCSIdisk_Select (selectbusid s AND BUSID_DID) (e_scsi s) = Inr (False, sc)"
  shows "\<exists>t. esp_select E True s = bnd (SCSIdisk_Receive_Command (buf_with 0 cdb (e_stack E)) msg (set_phase PHASE_CD sc))
      (\<lambda>sc'. esp_timer E 100 20 INTERRUPT_ESP (t\<lparr>e_scsi := sc'\<rparr>)) \<and>
    fifo_list t = [] \<and> intstatus t = INTR_BS OR INTR_FC \<and> esp_state t = INITIATOR \<and> seqstep t = 4 \<and> e_dma t = e_dma s"
proof -
  let ?s1 = "(esp_phase PHASE_MO (s\<lparr>seqstep := 0, e_scsi := sc\<rparr>))\<lparr>seqstep := 1\<rparr>"
  have f1: "fifo_ok ?s1" "fifo_list ?s1 = msg # cdb" "e_dma ?s1 = e_dma s"
    using assms(1,2) by (simp_all add: fifo_ok_def fifo_list_def esp_phase_def)
  obtain s2 where r: "esp_fifo_read ?s1 = (msg, s2)" "fifo_ok s2" "fifo_list s2 = cdb"
    using esp_queue.get_law [OF f1(1,2)] by blast
  have s2: "e_scsi s2 = set_phase PHASE_MO sc" "e_dma s2 = e_dma s"
    using read_fields(1,2) [of ?s1] unfolding r(1) by (simp_all add: esp_phase_def)
  let ?s3 = "(esp_phase PHASE_CD s2)\<lparr>seqstep := 3\<rparr>"
  have f3: "fifo_ok ?s3" "fifo_list ?s3 = cdb" using r(2,3) by (simp_all add: fifo_ok_def fifo_list_def esp_phase_def)
  obtain s4 where c: "esp_read_cdb SCSI_CDB_MAX_SIZE 0 (e_stack E) ?s3 = (buf_with 0 cdb (e_stack E), s4)" "fifo_list s4 = []"
    "e_scsi s4 = set_phase PHASE_CD sc" "e_dma s4 = e_dma s"
    using read_cdb_list [OF f3 assms(3), of 0 "e_stack E"] s2 by (auto simp: esp_phase_def set_phase_def)
  let ?t = "(esp_command_clear (s4\<lparr>seqstep := 4\<rparr>))\<lparr>intstatus := INTR_BS OR INTR_FC, esp_state := INITIATOR\<rparr>"
  have g: "(esp_command_clear (s4\<lparr>e_scsi := x, seqstep := 4\<rparr>))\<lparr>intstatus := INTR_BS OR INTR_FC, esp_state := INITIATOR\<rparr> =
      ?t\<lparr>e_scsi := x\<rparr>" for x
  proof -
    have e: "s4\<lparr>e_scsi := x, seqstep := 4\<rparr> = s4\<lparr>seqstep := 4, e_scsi := x\<rparr>" by (cases s4) simp
    show ?thesis unfolding e clear_scsi by (cases "esp_command_clear (s4\<lparr>seqstep := 4\<rparr>)") simp
  qed
  have "esp_select E True s = bnd (SCSIdisk_Receive_Command (buf_with 0 cdb (e_stack E)) msg (e_scsi s4))
      (\<lambda>x. esp_timer E 100 20 INTERRUPT_ESP
        ((esp_command_clear (s4\<lparr>e_scsi := x, seqstep := 4\<rparr>))\<lparr>intstatus := INTR_BS OR INTR_FC, esp_state := INITIATOR\<rparr>))"
    unfolding esp_select_def Let_def assms(5) bnd_Inr prod.case using assms(4) r(1) c(1) by simp
  then have "esp_select E True s = bnd (SCSIdisk_Receive_Command (buf_with 0 cdb (e_stack E)) msg (set_phase PHASE_CD sc))
      (\<lambda>sc'. esp_timer E 100 20 INTERRUPT_ESP (?t\<lparr>e_scsi := sc'\<rparr>))"
    unfolding g c(3) .
  moreover have "fifo_list ?t = []" "intstatus ?t = INTR_BS OR INTR_FC" "esp_state ?t = INITIATOR" "seqstep ?t = 4" "e_dma ?t = e_dma s"
    using c(2,4) clear_keeps(1) [of "s4\<lparr>seqstep := 4\<rparr>"] by (simp_all add: fifo_list_def)
  ultimately show ?thesis by blast
qed

lemma select_device:
  "unat target < ESP_MAX_DEVS \<Longrightarrow> devtype (disks s (unat target)) \<noteq> DEVTYPE_NONE \<Longrightarrow>
   SCSIdisk_Select target s = Inr (False, s\<lparr>bus_target := target\<rparr>)"
  by (simp add: SCSIdisk_Select_def)

lemma id_bound: "selectbusid s AND BUSID_DID \<noteq> 7 \<Longrightarrow> unat (selectbusid s AND BUSID_DID) < ESP_MAX_DEVS"
proof -
  assume n: "selectbusid s AND BUSID_DID \<noteq> 7"
  have "selectbusid s AND BUSID_DID \<le> 7" by (rule word_and_le1)
  then have "selectbusid s AND BUSID_DID < 7" using n by simp
  then show ?thesis by (simp add: word_less_nat_alt)
qed

text \<open>
  C13. Selection with attention hands the FIFO to the target. The host writes an identify message and a
  command of at most twelve bytes to the empty FIFO of an idle, disconnected chip, and then the command
  select with ATN. When the addressed device is there it becomes the target of the bus and receives in the command phase exactly
  these bytes, in order, with the message; the chip is then an initiator with an empty FIFO at
  sequence step 4 and will interrupt with function complete and bus service.
\<close>
theorem select_sends_command:
  assumes "esp_idle s" "esp_state s = DISCONNECTED" "fifo_ok s" "fifo_list s = []" "length cdb \<le> SCSI_CDB_MAX_SIZE"
    "selectbusid s AND BUSID_DID \<noteq> 7"
    "devtype (disks (e_scsi s) (unat (selectbusid s AND BUSID_DID))) \<noteq> DEVTYPE_NONE"
  shows "\<exists>t. bnd (each ESP_FIFO_Write (msg # cdb) s) (ESP_Command_Write E CMD_SELATN) =
      bnd (SCSIdisk_Receive_Command (buf_with 0 cdb (e_stack E)) msg
            (set_phase PHASE_CD ((e_scsi s)\<lparr>bus_target := selectbusid s AND BUSID_DID\<rparr>)))
        (\<lambda>sc. esp_timer E 100 20 INTERRUPT_ESP (t\<lparr>e_scsi := sc\<rparr>)) \<and>
    fifo_list t = [] \<and> intstatus t = INTR_BS OR INTR_FC \<and> esp_state t = INITIATOR \<and> seqstep t = 4 \<and> e_dma t = e_dma s"
proof -
  obtain u where u: "each ESP_FIFO_Write (msg # cdb) s = Inr u" "fifo_ok u" "fifo_list u = msg # cdb"
    using each_fifo [OF assms(3,4), of "msg # cdb"] assms(5) by auto
  note k = fifo_only_keeps [OF each_fifo_only [OF u(1)]]
  let ?v = "u\<lparr>command0 := CMD_SELATN, esp_cmd_state := esp_cmd_state u OR ESP_CMD_INPROGRESS, mode_dma := 0\<rparr>"
  have "ESP_Command_Write E CMD_SELATN u = esp_select E True ?v"
    using command_idle [of u CMD_SELATN E] start_selatn [of "u\<lparr>command0 := CMD_SELATN\<rparr>" E] k(1,2) assms(1,2) by simp
  moreover have "fifo_ok ?v" "fifo_list ?v = msg # cdb" "e_dma ?v = e_dma s" "selectbusid ?v = selectbusid s" "e_scsi ?v = e_scsi s" "mode_dma ?v = 0"
    using u(2,3) k by (simp_all add: fifo_ok_def fifo_list_def)
  moreover have "SCSIdisk_Select (selectbusid ?v AND BUSID_DID) (e_scsi ?v) =
      Inr (False, (e_scsi s)\<lparr>bus_target := selectbusid s AND BUSID_DID\<rparr>)"
    using select_device [OF id_bound [OF assms(6)] assms(7)] k(3,5) by simp
  ultimately show ?thesis
    using select_present [of ?v msg cdb _ E] assms(5) u(1) by (simp only: bnd_Inr) 
qed

text \<open>
  C39. Selecting bus id 7 is outside the array of targets. The register holds any of the ids 0 to 7 but the
  bus has seven targets, so a selection of id 7, which the chip itself has, reads beyond the array instead of timing out.
\<close>
theorem select_id7_out_of_bounds:
  assumes "esp_idle s" "esp_state s = DISCONNECTED" "selectbusid s AND BUSID_DID = 7" "cmd = CMD_SEL \<or> cmd = CMD_SELATN"
  shows "ESP_Command_Write E cmd s = Inl ArrayOOB"
proof -
  have "esp_select E b t = Inl ArrayOOB" if "selectbusid t = selectbusid s" for b t
    using that assms(3) by (simp add: esp_select_def SCSIdisk_Select_def arr_get_def)
  then show ?thesis
    using command_idle [of s cmd E] start_sel start_selatn assms by auto
qed

section \<open>Transfers between the disks and memory\<close>

definition bus_moved :: "scsi \<Rightarrow> nat \<Rightarrow> esp \<Rightarrow> esp" where
  "bus_moved t n d = d\<lparr>e_scsi := t, esp_counter := esp_counter d - of_nat n\<rparr>"

lemma bus_moved_0: "bus_moved (e_scsi d) 0 d = d"
  by (simp add: bus_moved_def)

lemma bus_moved_step: "bus_moved t n (d\<lparr>e_scsi := u, esp_counter := esp_counter d - 1\<rparr>) = bus_moved t (Suc n) d"
  by (simp add: bus_moved_def)

lemma counter_dec: "Suc n \<le> unat (c :: u32) \<Longrightarrow> 0 < c \<and> n \<le> unat (c - 1)"
proof -
  assume "Suc n \<le> unat c"
  then have "0 < c" by (simp add: word_less_nat_alt)
  then show ?thesis using unat_dec [of c] \<open>Suc n \<le> unat c\<close> by simp
qed

lemma sends_takes:
  "sends bs (e_scsi d) t \<Longrightarrow> \<not> floppy_select (e_dma d) \<Longrightarrow> length bs \<le> unat (esp_counter d) \<Longrightarrow>
   takes esp_port bs d (bus_moved t (length bs) d)"
proof (induction bs arbitrary: d)
  case Nil
  then show ?case by (simp add: bus_moved_0)
next
  case (Cons b bs)
  then obtain u where u: "bus_phase (e_scsi d) = PHASE_DI" "SCSIdisk_Send_Data (e_scsi d) = Inr (b, u)" "sends bs u t" by auto
  let ?d = "d\<lparr>e_scsi := u, esp_counter := esp_counter d - 1\<rparr>"
  have c: "0 < esp_counter d" "length bs \<le> unat (esp_counter d - 1)" using counter_dec Cons.prems(3) by auto
  have "takes esp_port bs ?d (bus_moved t (Suc (length bs)) d)"
    using Cons.IH [of ?d] u(3) Cons.prems(2) c(2) by (simp only: bus_moved_step) simp
  moreover have "p_ready esp_port d" "p_take esp_port d = Inr (b, ?d)"
    using u(1,2) c(1) Cons.prems(2) by (simp_all add: esp_port_def channel_take_def)
  ultimately show ?case by auto
qed

lemma receives_gives:
  "receives bs (e_scsi d) t \<Longrightarrow> \<not> floppy_select (e_dma d) \<Longrightarrow> length bs \<le> unat (esp_counter d) \<Longrightarrow>
   gives esp_port bs d (bus_moved t (length bs) d)"
proof (induction bs arbitrary: d)
  case Nil
  then show ?case by (simp add: bus_moved_0)
next
  case (Cons b bs)
  then obtain u where u: "bus_phase (e_scsi d) = PHASE_DO" "SCSIdisk_Receive_Data b (e_scsi d) = Inr u" "receives bs u t" by auto
  let ?d = "d\<lparr>e_scsi := u, esp_counter := esp_counter d - 1\<rparr>"
  have c: "0 < esp_counter d" "length bs \<le> unat (esp_counter d - 1)" using counter_dec Cons.prems(3) by auto
  have "gives esp_port bs ?d (bus_moved t (Suc (length bs)) d)"
    using Cons.IH [of ?d] u(3) Cons.prems(2) c(2) by (simp only: bus_moved_step) simp
  moreover have "p_room esp_port d" "p_give esp_port b d = Inr ?d"
    using u(1,2) c(1) Cons.prems(2) by (simp_all add: esp_port_def channel_give_def)
  ultimately show ?case by auto
qed

text \<open>
  The channel and the counter are set up for \<open>16 * m\<close> bytes from address \<open>a\<close> on, for the SCSI bus, and
  hold no residual bytes.
\<close>

definition channel_armed :: "u32 \<Rightarrow> nat \<Rightarrow> esp \<Rightarrow> bool" where
  "channel_armed a m s \<longleftrightarrow> c_csr (dma (e_dma s) CHANNEL_SCSI) AND DMA_ENABLE \<noteq> 0 \<and> \<not> misaligned (dma (e_dma s) CHANNEL_SCSI) \<and>
     \<not> floppy_select (e_dma s) \<and> espdma_buf_size (e_dma s) = 0 \<and> espdma_buf_limit (e_dma s) = 0 \<and>
     c_next (dma (e_dma s) CHANNEL_SCSI) = a \<and> unat a + 16 * m = unat (c_limit (dma (e_dma s) CHANNEL_SCSI)) \<and>
     unat (esp_counter s) = 16 * m"

lemma toggles_keep [simp]:
  "e_scsi ((ESP_DMA_set_status ^^ m) s) = e_scsi s" "esp_counter ((ESP_DMA_set_status ^^ m) s) = esp_counter s"
  by (induction m) simp_all

lemma toggles_dma: "\<exists>w. e_dma ((ESP_DMA_set_status ^^ m) s) = (e_dma s)\<lparr>esp_dma_status := w\<rparr>"
proof (induction m)
  case 0
  then show ?case by (intro exI [of _ "esp_dma_status (e_dma s)"]) simp
next
  case (Suc m)
  then obtain w where "e_dma ((ESP_DMA_set_status ^^ m) s) = (e_dma s)\<lparr>esp_dma_status := w\<rparr>" by blast
  moreover obtain f where f: "\<And>t. ESP_DMA_set_status t = dma_state_bits (f (esp_dma_status (e_dma t))) t"
    using toggle_bits by blast
  have "e_dma (ESP_DMA_set_status t) = (e_dma t)\<lparr>esp_dma_status := f (esp_dma_status (e_dma t))\<rparr>" for t
    by (simp add: f dma_state_bits_def)
  ultimately show ?case by auto
qed

lemma counter_done: "unat (c :: u32) = n \<Longrightarrow> c - of_nat n = 0"
  by (auto simp: word_unat_eq_iff)

text \<open>The state after such a transfer, for the state \<open>v\<close> in which it leaves the bus.\<close>

definition esp_finished :: "esp \<Rightarrow> scsi \<Rightarrow> esp \<Rightarrow> bool" where
  "esp_finished s v t \<longleftrightarrow> e_scsi t = v \<and> esp_counter t = 0 \<and>
     dma (e_dma t) CHANNEL_SCSI = channel_done CHANNEL_SCSI (dma (e_dma s) CHANNEL_SCSI) \<and>
     espdma_buf_size (e_dma t) = 0 \<and> espdma_buf_limit (e_dma t) = 0"


lemma limit_add: "unat (a :: u32) + n = unat (b :: u32) \<Longrightarrow> a + of_nat n = b"
  by (metis of_nat_add of_nat_unat ucast_id)

lemma write_moves:
  assumes "channel_armed a m s" "sends bs (e_scsi s) v" "length bs = 16 * m"
    "\<And>j. j < 4 * m \<Longrightarrow> m_writable (e_bus E) (a + 4 * of_nat j)"
  shows "\<exists>t. dma_esp_write_memory E s = Inr t \<and> esp_finished s v t \<and> d_mem (e_dma t) = put_bytes a bs (d_mem (e_dma s)) \<and>
    notified (e_dma t) = notified (e_dma s) @ (if m = 0 then [] else [(a, of_nat (16 * m))])"
proof -
  let ?x = "dma (e_dma s) CHANNEL_SCSI"
  define e where "e = (ESP_DMA_set_status ^^ m) (bus_moved v (16 * m) s)"
  have a: "c_csr ?x AND DMA_ENABLE \<noteq> 0" "\<not> misaligned ?x" "\<not> floppy_select (e_dma s)" "espdma_buf_size (e_dma s) = 0"
    "espdma_buf_limit (e_dma s) = 0" "c_next ?x = a" "unat a + 16 * m = unat (c_limit ?x)" "unat (esp_counter s) = 16 * m"
    using assms(1) by (simp_all add: channel_armed_def)
  have tk: "takes esp_port bs s (bus_moved v (16 * m) s)"
    using sends_takes [OF assms(2) a(3)] a(8) assms(3) by simp
  have z: "esp_counter (bus_moved v (16 * m) s) = 0" using counter_done [OF a(8)] by (simp add: bus_moved_def)
  have nr: "\<not> p_ready esp_port (bus_moved v (16 * m) s)" using z a(3) by (simp add: esp_port_def bus_moved_def)
  have fu: "m < p_offers esp_port s + 2" using a(3,8) by (simp add: esp_port_def)
  have tg: "p_toggle esp_port = ESP_DMA_set_status" by (simp add: esp_port_def)
  obtain buf where w: "write_bursts (p_offers esp_port s + 2) esp_port (e_bus E) (esp_xfer s) = Inr (False, (esp_xfer s)\<lparr>x_buf := buf,
      x_next := c_limit ?x, x_mem := put_bytes a bs (d_mem (e_dma s)), x_dev := e\<rparr>)"
    using esp_source.write_run [of bs "esp_xfer s" "bus_moved v (16 * m) s" m "e_bus E" "p_offers esp_port s + 2"]
      tk nr fu assms(3,4) a by (auto simp: tg esp_xfer_def e_def)
  obtain st where d: "e_dma e = (e_dma s)\<lparr>esp_dma_status := st\<rparr>"
    using toggles_dma [of m "bus_moved v (16 * m) s"] by (auto simp: e_def bus_moved_def)
  have es: "e_scsi e = v" "esp_counter e = 0" using z by (simp_all add: e_def bus_moved_def)
  let ?y = "(esp_xfer s)\<lparr>x_buf := buf, x_next := c_limit ?x, x_mem := put_bytes a bs (d_mem (e_dma s)), x_dev := e\<rparr>"
  define d1 where "d1 = (if a < c_limit ?x then notify a (c_limit ?x - a) (esp_moved ?y) else esp_moved ?y)"
  have r: "dma_esp_write_memory E s = Inr (e\<lparr>e_dma := dma_interrupt CHANNEL_SCSI d1\<rparr>)"
    using a(1,2,6) w by (simp add: dma_esp_write_memory_def Let_def d1_def)
  have d1: "dma d1 CHANNEL_SCSI = ?x\<lparr>c_next := c_limit ?x\<rparr>" "espdma_buf_size d1 = 0" "espdma_buf_limit d1 = 0"
    "d_mem d1 = put_bytes a bs (d_mem (e_dma s))"
    "notified d1 = notified (e_dma s) @ (if a < c_limit ?x then [(a, c_limit ?x - a)] else [])"
    using a(4,5) by (simp_all add: d1_def notify_def esp_moved_def Let_def d set_chan_def esp_xfer_def)
  have n1: "a < c_limit ?x \<longleftrightarrow> m \<noteq> 0" using a(7) by (auto simp: word_less_nat_alt)
  have "a + of_nat (16 * m) = c_limit ?x" using limit_add [OF a(7)] .
  then have n2: "c_limit ?x - a = of_nat (16 * m)" by (metis add_diff_cancel_left')
  show ?thesis
    unfolding r by (intro exI [of _ "e\<lparr>e_dma := dma_interrupt CHANNEL_SCSI d1\<rparr>"] conjI refl)
      (simp_all add: esp_finished_def es d1 n1 n2 dma_interrupt_done [OF d1(1)] dma_irq_def set_chan_def)
qed

lemma read_moves:
  assumes "channel_armed a m s" "receives (get_bytes a (16 * m) (d_mem (e_dma s))) (e_scsi s) v"
    "\<And>j. j < 4 * m \<Longrightarrow> m_readable (e_bus E) (a + 4 * of_nat j)"
  shows "\<exists>t. dma_esp_read_memory E s = Inr t \<and> esp_finished s v t \<and> d_mem (e_dma t) = d_mem (e_dma s)"
proof -
  let ?x = "dma (e_dma s) CHANNEL_SCSI" and ?bs = "get_bytes a (16 * m) (d_mem (e_dma s))"
  define e where "e = (ESP_DMA_set_status ^^ m) (bus_moved v (16 * m) s)"
  have a: "c_csr ?x AND DMA_ENABLE \<noteq> 0" "\<not> misaligned ?x" "\<not> floppy_select (e_dma s)" "espdma_buf_size (e_dma s) = 0"
    "espdma_buf_limit (e_dma s) = 0" "c_next ?x = a" "unat a + 16 * m = unat (c_limit ?x)" "unat (esp_counter s) = 16 * m"
    using assms(1) by (simp_all add: channel_armed_def)
  have gv: "gives esp_port ?bs s (bus_moved v (16 * m) s)"
    using receives_gives [OF assms(2) a(3)] a(8) by simp
  have z: "esp_counter (bus_moved v (16 * m) s) = 0" using counter_done [OF a(8)] by (simp add: bus_moved_def)
  have fu: "m < p_space esp_port s + 2" using a(3,8) by (simp add: esp_port_def)
  have tg: "p_toggle esp_port = ESP_DMA_set_status" by (simp add: esp_port_def)
  obtain buf where w: "read_bursts (p_space esp_port s + 2) esp_port (e_bus E) (esp_xfer s) =
      Inr (False, (esp_xfer s)\<lparr>x_buf := buf, x_next := c_limit ?x, x_dev := e\<rparr>)"
    using esp_sink.read_run [of "esp_xfer s" m "bus_moved v (16 * m) s" "e_bus E" "p_space esp_port s + 2"]
      gv fu assms(3) a by (auto simp: tg esp_xfer_def e_def)
  obtain st where d: "e_dma e = (e_dma s)\<lparr>esp_dma_status := st\<rparr>"
    using toggles_dma [of m "bus_moved v (16 * m) s"] by (auto simp: e_def bus_moved_def)
  have es: "e_scsi e = v" "esp_counter e = 0" using z by (simp_all add: e_def bus_moved_def)
  define d1 where "d1 = esp_moved ((esp_xfer s)\<lparr>x_buf := buf, x_next := c_limit ?x, x_dev := e\<rparr>)"
  have r: "dma_esp_read_memory E s = Inr (e\<lparr>e_dma := dma_interrupt CHANNEL_SCSI d1\<rparr>)"
    using a(1,2,4) w by (simp add: dma_esp_read_memory_def Let_def d1_def)
  have d1: "dma d1 CHANNEL_SCSI = ?x\<lparr>c_next := c_limit ?x\<rparr>" "espdma_buf_size d1 = 0" "espdma_buf_limit d1 = 0" "d_mem d1 = d_mem (e_dma s)"
    using a(4,5) by (simp_all add: d1_def esp_moved_def Let_def d set_chan_def esp_xfer_def)
  show ?thesis
    unfolding r by (intro exI [of _ "e\<lparr>e_dma := dma_interrupt CHANNEL_SCSI d1\<rparr>"] conjI refl)
      (simp_all add: esp_finished_def es d1 dma_interrupt_done [OF d1(1)] dma_irq_def set_chan_def)
qed

section \<open>Properties of the SCSI controller\<close>

text \<open>The channel is set up for the blocks \<open>0 ..< n\<close> of a command, with the memory behind it.\<close>

definition block_ready :: "(u32 \<Rightarrow> bool) \<Rightarrow> u32 \<Rightarrow> nat \<Rightarrow> esp \<Rightarrow> bool" where
  "block_ready ok a n s \<longleftrightarrow> channel_armed a (32 * n) s \<and> (\<forall>j < 128 * n. ok (a + 4 * of_nat j))"

text \<open>
  C8. Blocks of a disk reach memory. A read command for any number of blocks is received by a disk, and the
  channel is set up for as many bytes. One call of the transfer to memory then stores exactly the contents of these blocks
  from the start address on and changes no other byte, reports the range to the translator of the m68k, ends
  the command with good status in the status phase, brings the transfer counter to zero and completes the channel.
\<close>
theorem disk_reaches_memory:
  assumes "scsi_ok sc" "disk_ok (host sc) (dk sc)" "unit0 identify" "is_read cdb" "addresses cdb b (Suc n)"
    "b + Suc n \<le> disk_blocks (dk sc)" "SCSIdisk_Receive_Command cdb identify sc = Inr u"
    "block_ready (m_writable (e_bus E)) a (Suc n) s" "e_scsi s = u"
  shows "\<exists>t. dma_esp_write_memory E s = Inr t \<and>
    d_mem (e_dma t) = put_bytes a (concat (map (block_at (host sc) (dk sc)) [b ..< b + Suc n])) (d_mem (e_dma s)) \<and>
    notified (e_dma t) = notified (e_dma s) @ [(a, of_nat (BLOCKSIZE * Suc n))] \<and>
    bus_phase (e_scsi t) = PHASE_ST \<and> d_status (dk (e_scsi t)) = STAT_GOOD \<and> esp_counter t = 0 \<and>
    dma (e_dma t) CHANNEL_SCSI = channel_done CHANNEL_SCSI (dma (e_dma s) CHANNEL_SCSI)"
proof -
  let ?bs = "concat (map (block_at (host sc) (dk sc)) [b ..< b + Suc n])"
  obtain v where v: "send_data (BLOCKSIZE * Suc n) u = Inr (?bs, v)" "sends ?bs u v" "bus_phase v = PHASE_ST" "d_status (dk v) = STAT_GOOD"
    using read_blocks [OF assms(1-6)] assms(7) by auto
  have len: "length ?bs = 16 * (32 * Suc n)" using send_data_length [OF v(1)] by simp
  have ar: "channel_armed a (32 * Suc n) s" "\<And>j. j < 4 * (32 * Suc n) \<Longrightarrow> m_writable (e_bus E) (a + 4 * of_nat j)"
    using assms(8) by (simp_all add: block_ready_def)
  have se: "sends ?bs (e_scsi s) v" unfolding assms(9) by (rule v(2))
  have k: "16 * (32 * Suc n) = BLOCKSIZE * Suc n" "(32 * Suc n = 0) = False" by simp_all
  obtain t where t: "dma_esp_write_memory E s = Inr t" "esp_finished s v t" "d_mem (e_dma t) = put_bytes a ?bs (d_mem (e_dma s))"
    "notified (e_dma t) = notified (e_dma s) @ [(a, of_nat (BLOCKSIZE * Suc n))]"
    using write_moves [OF ar(1) se len ar(2)] unfolding k if_False by blast
  show ?thesis using t v(3,4) unfolding esp_finished_def by blast
qed

text \<open>
  C7. Memory reaches the blocks of a disk. A write command for any number of blocks is received by a disk that stores
  what it is given, and the channel is set up for as many bytes. One call of the transfer from memory then leaves
  in these blocks exactly the bytes of memory from the start address on, keeps every other block and all of memory, ends
  the command with good status in the status phase, brings the transfer counter to zero and completes the channel.
\<close>
theorem memory_reaches_disk:
  assumes "scsi_ok sc" "disk_ok (host sc) (dk sc)" "storing sc (dk sc)" "\<not> readonly (dk sc)" "unit0 identify" "is_write cdb"
    "addresses cdb b (Suc n)" "b + Suc n \<le> disk_blocks (dk sc)" "SCSIdisk_Receive_Command cdb identify sc = Inr u"
    "block_ready (m_readable (e_bus E)) a (Suc n) s" "e_scsi s = u"
  shows "\<exists>t. dma_esp_read_memory E s = Inr t \<and> d_mem (e_dma t) = d_mem (e_dma s) \<and>
    disk_to sc (e_scsi t) (\<lambda>i. if b \<le> i \<and> i < b + Suc n
      then take BLOCKSIZE (drop (BLOCKSIZE * (i - b)) (get_bytes a (BLOCKSIZE * Suc n) (d_mem (e_dma s)))) else block_at (host sc) (dk sc) i) \<and>
    bus_phase (e_scsi t) = PHASE_ST \<and> d_status (dk (e_scsi t)) = STAT_GOOD \<and> esp_counter t = 0 \<and>
    dma (e_dma t) CHANNEL_SCSI = channel_done CHANNEL_SCSI (dma (e_dma s) CHANNEL_SCSI)"
proof -
  let ?bs = "get_bytes a (BLOCKSIZE * Suc n) (d_mem (e_dma s))"
  obtain v where v: "receives ?bs u v" "bus_phase v = PHASE_ST" "d_status (dk v) = STAT_GOOD"
    "disk_to sc v (\<lambda>i. if b \<le> i \<and> i < b + Suc n then take BLOCKSIZE (drop (BLOCKSIZE * (i - b)) ?bs) else block_at (host sc) (dk sc) i)"
    using write_blocks [OF assms(1-8) length_get_bytes, of a "d_mem (e_dma s)"] unfolding assms(9) sum.inject by blast
  have k: "16 * (32 * Suc n) = BLOCKSIZE * Suc n" by simp
  have ar: "channel_armed a (32 * Suc n) s" "\<And>j. j < 4 * (32 * Suc n) \<Longrightarrow> m_readable (e_bus E) (a + 4 * of_nat j)"
    using assms(10) by (simp_all add: block_ready_def)
  have re: "receives (get_bytes a (16 * (32 * Suc n)) (d_mem (e_dma s))) (e_scsi s) v" unfolding assms(11) k by (rule v(1))
  obtain t where t: "dma_esp_read_memory E s = Inr t" "esp_finished s v t" "d_mem (e_dma t) = d_mem (e_dma s)"
    using read_moves [OF ar(1) re ar(2)] by blast
  show ?thesis using t v(2-4) unfolding esp_finished_def by blast
qed

section \<open>Invariants of the device of a transfer\<close>

lemma fill_inv:
  assumes "\<And>d v e. I d \<Longrightarrow> p_ready P d \<Longrightarrow> p_take P d = Inr (v, e) \<Longrightarrow> I e"
  shows "I (x_dev x) \<Longrightarrow> fill_burst P x = Inr y \<Longrightarrow> I (x_dev y)"
proof (induction "nat (16 - x_fill x)" arbitrary: x rule: less_induct)
  case less
  show ?case
  proof (cases "x_fill x < 16 \<and> p_ready P (x_dev x)")
    case True
    then obtain v d where d: "p_take P (x_dev x) = Inr (v, d)"
      "fill_burst P (x\<lparr>x_buf := (x_buf x)(nat (x_fill x) := v), x_fill := x_fill x + 1, x_size := x_size x + 1, x_dev := d\<rparr>) = Inr y"
      using less.prems(2) by (subst (asm) fill_burst.simps) (auto split: sum.splits if_splits)
    show ?thesis using less.hyps [OF _ _ d(2)] True assms [OF less.prems(1) _ d(1)] by simp
  next
    case False
    then have "y = x" using less.prems(2) by (subst (asm) fill_burst.simps) (auto split: if_splits)
    then show ?thesis using less.prems(1) by simp
  qed
qed

lemma drain_inv:
  assumes "\<And>d v e. I d \<Longrightarrow> p_room P d \<Longrightarrow> p_give P v d = Inr e \<Longrightarrow> I e"
  shows "I (x_dev x) \<Longrightarrow> drain_burst P x = Inr y \<Longrightarrow> I (x_dev y)"
proof (induction "nat (x_size x)" arbitrary: x rule: less_induct)
  case less
  show ?case
  proof (cases "0 < x_size x \<and> p_room P (x_dev x)")
    case True
    then obtain d where d: "p_give P (x_buf x (nat (x_fill x - x_size x))) (x_dev x) = Inr d"
      "drain_burst P (x\<lparr>x_size := x_size x - 1, x_dev := d\<rparr>) = Inr y"
      using less.prems(2) by (subst (asm) drain_burst.simps) (auto simp: Let_def split: sum.splits if_splits)
    show ?thesis using less.hyps [OF _ _ d(2)] True assms [OF less.prems(1) _ d(1)] by simp
  next
    case False
    then have "y = x" using less.prems(2) by (subst (asm) drain_burst.simps) (auto split: if_splits)
    then show ?thesis using less.prems(1) by simp
  qed
qed

lemma empty_dev: "empty_burst B x = Inr (b, y) \<Longrightarrow> x_dev y = x_dev x"
  using empty_keeps [of B x b y] by auto

lemma fetch_dev: "fetch_burst B x = Inr (b, y) \<Longrightarrow> x_dev y = x_dev x"
  using fetch_keeps [of B x b y] by auto

lemma write_inv:
  assumes "\<And>d v e. I d \<Longrightarrow> p_ready P d \<Longrightarrow> p_take P d = Inr (v, e) \<Longrightarrow> I e" "\<And>d. I d \<Longrightarrow> I (p_toggle P d)"
  shows "I (x_dev x) \<Longrightarrow> write_bursts n P B x = Inr (b, y) \<Longrightarrow> I (x_dev y)"
proof (induction n arbitrary: x)
  case (Suc n)
  show ?case
  proof (cases "x_next x \<le> x_limit x")
    case True
    obtain x1 where x1: "(if x_fill x < int DMA_BURST_SIZE then fill_burst P x else Inr x) = Inr x1"
      and w: "(if x_fill x1 < int DMA_BURST_SIZE then Inr (False, x1)
          else bnd (empty_burst B (x1\<lparr>x_dev := p_toggle P (x_dev x1)\<rparr>)) (\<lambda>(berr, x2).
              if berr \<or> 0 < x_size x2 then Inr (berr, x2) else write_bursts n P B (x2\<lparr>x_fill := x_size x2\<rparr>))) = Inr (b, y)"
      using Suc.prems(2) True by (simp only: write_bursts.simps if_True bnd_eq_Inr) blast
    have i: "I (x_dev x1)"
      using x1 fill_inv [of I P, OF assms(1)] Suc.prems(1) by (auto split: if_splits)
    have e: "I (x_dev x2)" if "empty_burst B (x1\<lparr>x_dev := p_toggle P (x_dev x1)\<rparr>) = Inr (c, x2)" for x2 c
      using i assms(2) empty_dev [OF that] by simp
    have st: "I (x_dev y)" if "I (x_dev z)" "write_bursts n P B (z\<lparr>x_fill := x_size z\<rparr>) = Inr (b, y)" for z
      using Suc.IH [OF _ that(2)] that(1) by simp
    show ?thesis
      using w i by (auto simp: bnd_eq_Inr split: if_splits dest: e st)
  qed (use Suc.prems in simp)
qed simp

lemma read_inv:
  assumes "\<And>d v e. I d \<Longrightarrow> p_room P d \<Longrightarrow> p_give P v d = Inr e \<Longrightarrow> I e" "\<And>d. I d \<Longrightarrow> I (p_toggle P d)"
  shows "I (x_dev x) \<Longrightarrow> read_bursts n P B x = Inr (b, y) \<Longrightarrow> I (x_dev y)"
proof (induction n arbitrary: x)
  case (Suc n)
  show ?case
  proof (cases "x_next x < x_limit x")
    case True
    obtain c x1 where x1: "(if x_fill x < int DMA_BURST_SIZE then fetch_burst B x else Inr (False, x)) = Inr (c, x1)"
      and w: "(if c \<or> x_fill x1 < int DMA_BURST_SIZE then Inr (c, x1)
          else bnd (drain_burst P (x1\<lparr>x_dev := p_toggle P (x_dev x1)\<rparr>)) (\<lambda>x2.
              if 0 < x_size x2 then Inr (False, x2) else read_bursts n P B (x2\<lparr>x_fill := x_size x2\<rparr>))) = Inr (b, y)"
      using Suc.prems(2) True by (simp only: read_bursts.simps if_True bnd_eq_Inr) fastforce
    have i: "I (x_dev x1)"
      using x1 fetch_dev [of B x c x1] Suc.prems(1) by (auto split: if_splits)
    have e: "I (x_dev x2)" if "drain_burst P (x1\<lparr>x_dev := p_toggle P (x_dev x1)\<rparr>) = Inr x2" for x2
      using drain_inv [of I P, OF assms(1) _ that] i assms(2) by simp
    have st: "I (x_dev y)" if "I (x_dev z)" "read_bursts n P B (z\<lparr>x_fill := x_size z\<rparr>) = Inr (b, y)" for z
      using Suc.IH [OF _ that(2)] that(1) by simp
    show ?thesis
      using w i by (auto simp: bnd_eq_Inr split: if_splits dest: e st)
  qed (use Suc.prems in simp)
qed simp

section \<open>The types of the registers\<close>

text \<open>
  The ranges the registers keep: at most 16 bytes in the FIFO, a DMA mode of 0 or 1, no command state bits
  besides in progress and waiting, and a transfer counter of at most 10000 (hexadecimal).
\<close>

definition esp_ok :: "esp \<Rightarrow> bool" where
  "esp_ok s \<longleftrightarrow> fifoflags s \<le> 16 \<and> mode_dma s \<le> 1 \<and> esp_cmd_state s AND 0xFC = 0 \<and> esp_counter s \<le> 0x10000"

named_theorems esp_ok_intros

lemma and_less: "x AND m = 0 \<Longrightarrow> (x AND y) AND m = (0 :: u8)"
  by (metis and.assoc and.commute and_zero_eq)

lemma ok_timer [esp_ok_intros]: "esp_ok s \<Longrightarrow> holds esp_ok (esp_timer E a b h s)"
  by (rule holdsI) (auto simp: esp_timer_def bnd_eq_Inr esp_ok_def)

lemma ok_timer_cycles [esp_ok_intros]: "esp_ok s \<Longrightarrow> holds esp_ok (esp_timer_cycles n h s)"
  by (rule holdsI) (auto simp: esp_timer_cycles_def bnd_eq_Inr esp_ok_def)

lemma ok_acknowledge [esp_ok_intros]: "esp_ok s \<Longrightarrow> holds esp_ok (esp_acknowledge s)"
  by (rule holdsI) (auto simp: esp_acknowledge_def bnd_eq_Inr esp_ok_def)

lemma ok_irq [simp]: "esp_ok (esp_irq b s) = esp_ok s"
  by (simp add: esp_ok_def esp_irq_def)

lemma ok_phase [simp]: "esp_ok (esp_phase p s) = esp_ok s"
  by (simp add: esp_ok_def esp_phase_def)

lemma ok_other [simp]:
  "esp_ok (s\<lparr>esp_state := a\<rparr>) = esp_ok s" "esp_ok (s\<lparr>command0 := c\<rparr>) = esp_ok s" "esp_ok (s\<lparr>command1 := c\<rparr>) = esp_ok s"
  "esp_ok (s\<lparr>intstatus := c\<rparr>) = esp_ok s" "esp_ok (s\<lparr>e_status := c\<rparr>) = esp_ok s" "esp_ok (s\<lparr>seqstep := c\<rparr>) = esp_ok s"
  "esp_ok (s\<lparr>e_scsi := sc\<rparr>) = esp_ok s" "esp_ok (s\<lparr>e_dma := d\<rparr>) = esp_ok s" "esp_ok (s\<lparr>esp_io_state := io\<rparr>) = esp_ok s"
  "esp_ok (s\<lparr>configuration := c\<rparr>) = esp_ok s" "esp_ok (s\<lparr>clockconv := c\<rparr>) = esp_ok s" "esp_ok (s\<lparr>syncperiod := c\<rparr>) = esp_ok s"
  "esp_ok (s\<lparr>syncoffset := c\<rparr>) = esp_ok s" "esp_ok (s\<lparr>selectbusid := c\<rparr>) = esp_ok s" "esp_ok (s\<lparr>selecttimeout := c\<rparr>) = esp_ok s"
  "esp_ok (s\<lparr>esptest := c\<rparr>) = esp_ok s" "esp_ok (s\<lparr>writetranscountl := c\<rparr>) = esp_ok s" "esp_ok (s\<lparr>writetranscounth := c\<rparr>) = esp_ok s"
  by (simp_all add: esp_ok_def)

lemma ok_clear [esp_ok_intros]: "esp_ok s \<Longrightarrow> esp_ok (esp_command_clear s)"
  using and_less [of "esp_cmd_state s" "0xFC" "NOT ESP_CMD_WAITING"] by (simp add: esp_command_clear_def esp_ok_def Let_def)

lemma ok_started [esp_ok_intros]: "esp_ok s \<Longrightarrow> esp_ok (s\<lparr>esp_cmd_state := esp_cmd_state s OR ESP_CMD_INPROGRESS\<rparr>)"
  by (simp add: esp_ok_def bit.conj_disj_distrib2)

lemma ok_wait [esp_ok_intros]: "esp_ok s \<Longrightarrow> esp_ok (s\<lparr>esp_cmd_state := esp_cmd_state s OR ESP_CMD_WAITING\<rparr>)"
  by (simp add: esp_ok_def bit.conj_disj_distrib2)

lemma ok_ended [esp_ok_intros]: "esp_ok s \<Longrightarrow> esp_ok (s\<lparr>esp_cmd_state := esp_cmd_state s AND NOT b\<rparr>)"
  using and_less [of "esp_cmd_state s" "0xFC" "NOT b"] by (simp add: esp_ok_def)

lemma ok_fifo_read [esp_ok_intros]: "esp_ok s \<Longrightarrow> esp_ok (snd (esp_fifo_read s))"
proof -
  assume s: "esp_ok s"
  have "fifoflags s - 1 \<le> 16" if "0 < fifoflags s"
    using s flags_dec [OF that] by (simp add: esp_ok_def word_le_nat_alt)
  then show ?thesis using s by (simp add: esp_fifo_read_def esp_ok_def)
qed

lemma ok_fifo_write [esp_ok_intros]: "esp_ok s \<Longrightarrow> holds esp_ok (esp_fifo_write v s)"
proof -
  assume s: "esp_ok s"
  have "fifoflags s + 1 \<le> 16" if "fifoflags s \<noteq> 16"
    using s that flags_inc [of "fifoflags s"] by (simp add: esp_ok_def word_le_nat_alt word_less_nat_alt word_unat_eq_iff)
  then show ?thesis using s by (intro holdsI) (auto simp: esp_fifo_write_def esp_ok_def Let_def bnd_eq_Inr split: if_splits)
qed

lemma ok_fifo_clear [esp_ok_intros]: "esp_ok s \<Longrightarrow> esp_ok (esp_fifo_clear s)"
proof -
  have "fifoflags s AND 0xE0 \<le> fifoflags s" by (rule word_and_le2)
  then show "esp_ok s \<Longrightarrow> ?thesis" by (auto simp: esp_fifo_clear_def esp_ok_def)
qed

lemma ok_soft [esp_ok_intros]: "esp_ok s \<Longrightarrow> esp_ok (esp_reset_soft s)"
  unfolding esp_reset_soft_def by (simp only: ok_other) (intro ok_clear, simp add: esp_ok_def)

lemma ok_chip [esp_ok_intros]: "esp_ok s \<Longrightarrow> esp_ok (esp_chip_reset s)"
  by (simp add: esp_chip_reset_def Let_def ok_soft ok_fifo_clear)

lemma ok_cdb: "esp_ok s \<Longrightarrow> esp_read_cdb n i buf s = (c, t) \<Longrightarrow> esp_ok t"
proof (induction n arbitrary: i buf s)
  case (Suc n)
  then show ?case using ok_fifo_read [of s] by (auto simp: Let_def split: if_splits prod.splits)
qed simp

lemma ok_load [esp_ok_intros]: "esp_ok s \<Longrightarrow> esp_ok (esp_load_counter cmd s)"
proof -
  assume s: "esp_ok s"
  let ?l = "ucast (writetranscountl s) :: u32" and ?h = "push_bit 8 (ucast (writetranscounth s)) :: u32"
  have "?l OR ?h \<le> 0x10000"
  proof -
    have "(?l OR ?h) AND mask 16 = ?l OR ?h"
      by (rule bit_word_eqI) (auto simp: bit_simps dest: bit_imp_le_length)
    then have "?l OR ?h \<le> mask 16" by (metis word_and_le1)
    then show ?thesis by (rule order_trans) (simp add: mask_eq_exp_minus_1)
  qed
  then show ?thesis using s by (simp add: esp_load_counter_def esp_ok_def Let_def)
qed

lemma okD: "holds esp_ok r \<Longrightarrow> r = Inr t \<Longrightarrow> esp_ok t"
  by (rule holdsD)

lemma ok_select [esp_ok_intros]:
  assumes "esp_ok s"
  shows "holds esp_ok (esp_select E atn s)"
proof (rule holdsI)
  fix t assume r: "esp_select E atn s = Inr t"
  obtain timeout sc where sel: "SCSIdisk_Select (selectbusid s AND BUSID_DID) (e_scsi s) = Inr (timeout, sc)"
    using r by (auto simp: esp_select_def Let_def bnd_eq_Inr)
  let ?s1 = "s\<lparr>seqstep := 0, e_scsi := sc\<rparr>"
  have ok1: "esp_ok ?s1" using assms by simp
  show "esp_ok t"
  proof (cases timeout)
    case True
    let ?s2 = "(esp_command_clear (?s1\<lparr>intstatus := INTR_DC\<rparr>))\<lparr>esp_state := DISCONNECTED\<rparr>"
    have "esp_ok ?s2" using ok_clear [of "?s1\<lparr>intstatus := INTR_DC\<rparr>"] ok1 by simp
    then show ?thesis using r sel True by (auto simp: esp_select_def Let_def dest!: okD [OF ok_timer, rotated])
  next
    case False
    let ?m = "if atn then esp_fifo_read ((esp_phase PHASE_MO ?s1)\<lparr>seqstep := 1\<rparr>) else (0, ?s1)"
    obtain msg s2 where m: "?m = (msg, s2)" by (cases ?m)
    have ok2: "esp_ok s2"
      using m ok1 ok_fifo_read [of "(esp_phase PHASE_MO ?s1)\<lparr>seqstep := 1\<rparr>"] by (auto split: if_splits)
    let ?c = "esp_read_cdb SCSI_CDB_MAX_SIZE 0 (e_stack E) ((esp_phase PHASE_CD s2)\<lparr>seqstep := 3\<rparr>)"
    obtain cdb s3 where c: "?c = (cdb, s3)" by (cases ?c)
    have ok3: "esp_ok s3" using ok_cdb [OF _ c] ok2 by simp
    have "bnd (SCSIdisk_Receive_Command cdb msg (e_scsi s3)) (\<lambda>sc. esp_timer E 100 20 INTERRUPT_ESP
        ((esp_command_clear (s3\<lparr>e_scsi := sc, seqstep := 4\<rparr>))\<lparr>intstatus := INTR_BS OR INTR_FC, esp_state := INITIATOR\<rparr>)) = Inr t"
      using r unfolding esp_select_def Let_def sel bnd_Inr prod.case m c using False by (simp split: if_splits)
    then obtain x where x: "esp_timer E 100 20 INTERRUPT_ESP
        ((esp_command_clear (s3\<lparr>e_scsi := x, seqstep := 4\<rparr>))\<lparr>intstatus := INTR_BS OR INTR_FC, esp_state := INITIATOR\<rparr>) = Inr t"
      unfolding bnd_eq_Inr by blast
    show ?thesis
    proof (rule okD [OF ok_timer x])
      show "esp_ok ((esp_command_clear (s3\<lparr>e_scsi := x, seqstep := 4\<rparr>))\<lparr>intstatus := INTR_BS OR INTR_FC, esp_state := INITIATOR\<rparr>)"
        using ok_clear [of "s3\<lparr>e_scsi := x, seqstep := 4\<rparr>"] ok3 by simp
    qed
  qed
qed

lemma ok_done: "esp_ok s \<Longrightarrow> esp_transfer_done E w s = Inr (b, t) \<Longrightarrow> esp_ok t"
  using ok_clear [of s] by (auto simp: esp_transfer_done_def bnd_eq_Inr split: if_splits dest!: okD [OF ok_timer, rotated])

lemma ok_info [esp_ok_intros]: "esp_ok s \<Longrightarrow> holds esp_ok (esp_transfer_info E s)"
  by (rule holdsI) (auto simp: esp_transfer_info_def Let_def bnd_eq_Inr split: if_splits
      dest!: okD [OF ok_timer, rotated] okD [OF ok_timer_cycles, rotated] okD [OF ok_fifo_write, rotated])

lemma counter_ok: "esp_ok s \<Longrightarrow> 0 < esp_counter s \<Longrightarrow> esp_ok (s\<lparr>e_scsi := x, esp_counter := esp_counter s - 1\<rparr>)"
  using unat_dec [of "esp_counter s"] by (simp add: esp_ok_def word_le_nat_alt)

lemma ok_pad_in: "esp_ok s \<Longrightarrow> pad_in s = Inr t \<Longrightarrow> esp_ok t"
proof (induction s rule: pad_in.induct)
  case (1 s)
  show ?case
  proof (cases "bus_phase (e_scsi s) = PHASE_DI \<and> 0 < esp_counter s")
    case True
    then obtain b sc where d: "SCSIdisk_Send_Data (e_scsi s) = Inr (b, sc)"
      "pad_in (s\<lparr>e_scsi := sc, esp_counter := esp_counter s - 1\<rparr>) = Inr t"
      using 1(3) by (subst (asm) pad_in.simps) (auto split: sum.splits)
    show ?thesis using 1(1) [OF True d(1) refl] counter_ok 1(2) True d(2) by blast
  next
    case False
    then show ?thesis using 1(2,3) by (subst (asm) pad_in.simps) auto
  qed
qed

lemma ok_pad_out: "esp_ok s \<Longrightarrow> pad_out s = Inr t \<Longrightarrow> esp_ok t"
proof (induction s rule: pad_out.induct)
  case (1 s)
  show ?case
  proof (cases "bus_phase (e_scsi s) = PHASE_DO \<and> 0 < esp_counter s")
    case True
    then obtain sc where d: "SCSIdisk_Receive_Data 0 (e_scsi s) = Inr sc"
      "pad_out (s\<lparr>e_scsi := sc, esp_counter := esp_counter s - 1\<rparr>) = Inr t"
      using 1(3) by (subst (asm) pad_out.simps) (auto split: sum.splits)
    show ?thesis using 1(1) [OF True d(1)] counter_ok 1(2) True d(2) by blast
  next
    case False
    then show ?thesis using 1(2,3) by (subst (asm) pad_out.simps) auto
  qed
qed

lemma ok_pad [esp_ok_intros]: "esp_ok s \<Longrightarrow> holds esp_ok (esp_transfer_pad E s)"
  by (rule holdsI) (auto simp: esp_transfer_pad_def bnd_eq_Inr split: if_splits dest: ok_pad_in ok_pad_out ok_done)

lemma ok_iccs [esp_ok_intros]: "esp_ok s \<Longrightarrow> holds esp_ok (esp_initiator_command_complete E s)"
  by (rule holdsI) (auto simp: esp_initiator_command_complete_def bnd_eq_Inr split: if_splits
      dest!: okD [OF ok_timer, rotated] okD [OF ok_fifo_write, rotated] intro: ok_clear)

lemma ok_accepted [esp_ok_intros]: "esp_ok s \<Longrightarrow> holds esp_ok (esp_message_accepted E s)"
  unfolding esp_message_accepted_def by (rule ok_timer) simp

lemma ok_illegal [esp_ok_intros]: "esp_ok s \<Longrightarrow> holds esp_ok (esp_illegal E s)"
  unfolding esp_illegal_def Let_def by (rule ok_timer) (simp add: ok_clear)

lemma ok_commands:
  "esp_ok s \<Longrightarrow> holds esp_ok (esp_finish_command E s)"
  "esp_ok s \<Longrightarrow> holds esp_ok (esp_start_command E cmd s)"
  "esp_ok s \<Longrightarrow> holds esp_ok (esp_flush_fifo E s)"
  "esp_ok s \<Longrightarrow> holds esp_ok (esp_reset_hard E s)"
  "esp_ok s \<Longrightarrow> holds esp_ok (esp_bus_reset E s)"
proof (induction E s and E cmd s and E s and E s and E s
    rule: esp_finish_command_esp_start_command_esp_flush_fifo_esp_reset_hard_esp_bus_reset.induct)
  case (1 E s)
  let ?s1 = "s\<lparr>esp_cmd_state := esp_cmd_state s AND NOT ESP_CMD_INPROGRESS\<rparr>"
  let ?s2 = "?s1\<lparr>command0 := command1 ?s1, command1 := 0, esp_cmd_state := esp_cmd_state ?s1 AND NOT ESP_CMD_WAITING\<rparr>"
  have "esp_ok ?s1" by (rule ok_ended [OF 1(2)])
  moreover have "esp_ok ?s2"
    using ok_ended [of "?s1\<lparr>command0 := command1 ?s1, command1 := 0\<rparr>" ESP_CMD_WAITING] \<open>esp_ok ?s1\<close> by simp
  ultimately show ?case unfolding esp_finish_command.simps [of E s] Let_def using 1(1) [OF refl] by (intro holds_if) simp_all
next
  case (2 E cmd s)
  let ?s1 = "s\<lparr>esp_cmd_state := esp_cmd_state s OR ESP_CMD_INPROGRESS\<rparr>"
  have s1: "esp_ok ?s1" by (rule ok_started [OF 2(6)])
  have s2: "esp_ok (esp_load_counter cmd ?s1)" by (rule ok_load [OF s1])
  note ih = 2(1-5) [OF refl refl _ refl]
  show ?case
    unfolding esp_start_command.simps [of E cmd s] Let_def
    using s1 s2 ih by (intro holds_if) (simp_all add: Let_def ok_illegal ok_select ok_info ok_iccs ok_accepted ok_pad)
next
  case (3 E s)
  then show ?case using ok_fifo_clear by (simp add: esp_flush_fifo.simps)
next
  case (4 E s)
  then show ?case using ok_chip by (simp add: esp_reset_hard.simps)
next
  case (5 E s)
  have "esp_ok (esp_reset_soft s)" by (rule ok_soft [OF 5(2)])
  then show ?case unfolding esp_bus_reset.simps [of E s] Let_def using 5(1) [OF refl] by (intro holds_if ok_timer) simp_all
qed

lemma ok_command [esp_ok_intros]:
  assumes "esp_ok s"
  shows "holds esp_ok (ESP_Command_Write E cmd s)"
proof -
  define s1 where "s1 = (if command1 s AND CMD_CMD = CMD_RESET \<and> cmd AND CMD_CMD \<noteq> CMD_NOP then s
      else s\<lparr>command1 := cmd, e_status := (if esp_cmd_state s AND ESP_CMD_WAITING \<noteq> 0 then e_status s OR STAT_GE else e_status s)\<rparr>)"
  have s1: "esp_ok s1" using assms by (simp add: s1_def)
  show ?thesis
    unfolding ESP_Command_Write_def esp_command_write_def s1_def [symmetric] Let_def
    using s1 by (intro holds_if ok_commands(2)) (simp_all add: ok_wait)
qed

lemma ok_raise: "esp_ok s \<Longrightarrow> esp_ok (esp_raise_irq s)"
  by (simp add: esp_raise_irq_def Let_def)

lemma ok_lower: "esp_ok s \<Longrightarrow> holds esp_ok (esp_lower_irq E s)"
  unfolding esp_lower_irq_def by (intro holds_if ok_commands(1)) simp_all

lemma ok_intstatus [esp_ok_intros]: "esp_ok s \<Longrightarrow> ESP_IntStatus_Read E s = Inr (v, t) \<Longrightarrow> esp_ok t"
proof -
  assume s: "esp_ok s" and r: "ESP_IntStatus_Read E s = Inr (v, t)"
  let ?s1 = "s\<lparr>intstatus := 0, e_status := e_status s AND NOT (STAT_VGC OR STAT_PE OR STAT_GE)\<rparr>"
  have "esp_ok ?s1" using s by simp
  moreover have "t = s \<or> esp_lower_irq E ?s1 = Inr t"
    using r unfolding ESP_IntStatus_Read_def by (cases "esp_lower_irq E ?s1") (auto split: if_splits)
  ultimately show ?thesis using s okD [OF ok_lower] by blast
qed

lemma ok_control [esp_ok_intros]:
  assumes "esp_ok s"
  shows "holds esp_ok (ESP_DMA_CTRL_Write E v s)"
proof (rule holdsI)
  fix t assume r: "ESP_DMA_CTRL_Write E v s = Inr t"
  let ?s1 = "s\<lparr>e_dma := (e_dma s)\<lparr>esp_dma_control := v\<rparr>\<rparr>"
  let ?f = "if e_bTurbo E then tdma_flush_buffer (e_bus E) (e_dma ?s1) else dma_esp_flush_buffer (e_bus E) (e_dma ?s1)"
  obtain s2 s3 where f: "(if v AND ESPCTRL_FLUSH \<noteq> 0 then bnd ?f (\<lambda>d. Inr (?s1\<lparr>e_dma := d\<rparr>)) else Inr ?s1) = Inr s2"
    and h: "(if esp_dma_control (e_dma s2) AND ESPCTRL_RESET \<noteq> 0 then esp_reset_hard E s2 else Inr s2) = Inr s3"
    and t: "Inr (if esp_dma_control (e_dma s3) AND ESPCTRL_ENABLE_INT \<noteq> 0 then (if e_status s3 AND STAT_INT \<noteq> 0 then esp_irq True s3 else s3)
      else esp_irq False s3) = (Inr t :: esp res)"
    using r unfolding ESP_DMA_CTRL_Write_def Let_def bnd_eq_Inr [of _ "\<lambda>s2. bnd (_ s2) _"] bnd_eq_Inr [of "if _ then esp_reset_hard _ _ else _"] by blast
  have "esp_ok s2" using f assms unfolding bnd_def by (cases ?f) (auto split: if_split_asm)
  then have "esp_ok s3" using h okD [OF ok_commands(4)] by (auto split: if_split_asm)
  then show "esp_ok t" using t by (auto split: if_split_asm)
qed

lemma moved_ok: "esp_ok d \<Longrightarrow> p_ready esp_port d \<Longrightarrow> p_take esp_port d = Inr (v, e) \<Longrightarrow> esp_ok e"
  using counter_ok [of d] by (auto simp: esp_port_def channel_take_def Let_def bnd_eq_Inr split: if_splits)

lemma given_ok: "esp_ok d \<Longrightarrow> p_room esp_port d \<Longrightarrow> p_give esp_port v d = Inr e \<Longrightarrow> esp_ok e"
  using counter_ok [of d] by (auto simp: esp_port_def channel_give_def Let_def bnd_eq_Inr split: if_splits)

lemma toggle_ok: "esp_ok d \<Longrightarrow> esp_ok (p_toggle esp_port d)"
  by (simp add: esp_port_def ESP_DMA_set_status_def Let_def)

lemma xfer_dev: "x_dev (esp_xfer s) = s"
  by (simp add: esp_xfer_def)

lemma ok_dma_write: "esp_ok s \<Longrightarrow> dma_esp_write_memory E s = Inr t \<Longrightarrow> esp_ok t"
proof -
  assume s: "esp_ok s" and r: "dma_esp_write_memory E s = Inr t"
  define n where "n = p_offers esp_port s + 2"
  have "t = s \<or> (\<exists>b x d. write_bursts n esp_port (e_bus E) (esp_xfer s) = Inr (b, x) \<and> t = (x_dev x)\<lparr>e_dma := d\<rparr>)"
    using r unfolding dma_esp_write_memory_def Let_def n_def [symmetric]
    by (cases "write_bursts n esp_port (e_bus E) (esp_xfer s)") (simp_all split: if_split_asm prod.split_asm, blast+)
  then show ?thesis
    using s write_inv [of esp_ok esp_port "esp_xfer s", OF moved_ok toggle_ok] unfolding xfer_dev by auto
qed

lemma ok_dma_read: "esp_ok s \<Longrightarrow> dma_esp_read_memory E s = Inr t \<Longrightarrow> esp_ok t"
proof -
  assume s: "esp_ok s" and r: "dma_esp_read_memory E s = Inr t"
  define n where "n = p_space esp_port s + nat (- espdma_buf_size (e_dma s)) + 2"
  have "t = s \<or> (\<exists>b x d. read_bursts n esp_port (e_bus E) (esp_xfer s) = Inr (b, x) \<and> t = (x_dev x)\<lparr>e_dma := d\<rparr>)"
    using r unfolding dma_esp_read_memory_def Let_def n_def [symmetric]
    by (cases "read_bursts n esp_port (e_bus E) (esp_xfer s)")
      (simp_all split: if_split_asm prod.split_asm, blast+)
  then show ?thesis
    using s read_inv [of esp_ok esp_port "esp_xfer s", OF given_ok toggle_ok] unfolding xfer_dev by auto
qed

lemma ok_interrupt [esp_ok_intros]: "esp_ok s \<Longrightarrow> holds esp_ok (ESP_InterruptHandler s)"
  by (rule holdsI) (auto simp: ESP_InterruptHandler_def bnd_eq_Inr intro: ok_raise dest!: okD [OF ok_acknowledge, rotated])

lemma ok_io [esp_ok_intros]:
  assumes "esp_ok s"
  shows "holds esp_ok (ESP_IO_Handler E s)"
proof (rule holdsI)
  fix t assume r: "ESP_IO_Handler E s = Inr t"
  obtain s1 where a: "esp_acknowledge s = Inr s1" using r by (auto simp: ESP_IO_Handler_def bnd_eq_Inr)
  have s1: "esp_ok s1" by (rule okD [OF ok_acknowledge [OF assms] a])
  show "esp_ok t"
  proof (cases "esp_io_state s1")
    case ESP_IO_STATE_TRANSFERING
    have w: "dma_esp_write_memory E s1 = Inr s2 \<Longrightarrow> esp_transfer_done E True s2 = Inr (b, s3) \<Longrightarrow> esp_ok s3" for s2 s3 b
      using ok_dma_write [OF s1] ok_done by blast
    have rd: "dma_esp_read_memory E s1 = Inr s2 \<Longrightarrow> esp_transfer_done E False s2 = Inr (b, s3) \<Longrightarrow> esp_ok s3" for s2 s3 b
      using ok_dma_read [OF s1] ok_done by blast
    show ?thesis
      using r s1 unfolding ESP_IO_Handler_def a bnd_Inr ESP_IO_STATE_TRANSFERING esp_io.case
      by (auto simp: bnd_eq_Inr split: if_split_asm dest: w rd dest!: okD [OF ok_timer, rotated])
  next
    case ESP_IO_STATE_FLUSHING
    then show ?thesis using r a ok_dma_write [OF s1] by (simp add: ESP_IO_Handler_def)
  next
    case ESP_IO_STATE_DONE
    then show ?thesis using r a s1 by (simp add: ESP_IO_Handler_def)
  qed
qed

section \<open>The controller as a machine\<close>

text \<open>The accesses of the processor that change the controller, and its two timed events.\<close>

datatype esp_action =
  WrControl u8 | WrDmaStatus u8 | WrCountL u8 | WrCountH u8 | RdFifo | WrFifo u8 | WrCommand u8 | WrBusID u8 | RdIntStatus |
  WrTimeout u8 | WrPeriod u8 | WrOffset u8 | WrConfig u8 | WrClock u8 | WrTest u8 | Interrupt | IoEvent

fun esp_do :: "esp_env \<Rightarrow> esp_action \<Rightarrow> esp \<Rightarrow> esp res" where
  "esp_do E (WrControl v) s = ESP_DMA_CTRL_Write E v s"
| "esp_do E (WrDmaStatus v) s = Inr (ESP_DMA_FIFO_STAT_Write v s)"
| "esp_do E (WrCountL v) s = Inr (ESP_TransCountL_Write v s)"
| "esp_do E (WrCountH v) s = Inr (ESP_TransCountH_Write v s)"
| "esp_do E RdFifo s = Inr (snd (ESP_FIFO_Read s))"
| "esp_do E (WrFifo v) s = ESP_FIFO_Write v s"
| "esp_do E (WrCommand v) s = ESP_Command_Write E v s"
| "esp_do E (WrBusID v) s = Inr (ESP_SelectBusID_Write v s)"
| "esp_do E RdIntStatus s = bnd (ESP_IntStatus_Read E s) (\<lambda>(v, t). Inr t)"
| "esp_do E (WrTimeout v) s = Inr (ESP_SelectTimeout_Write v s)"
| "esp_do E (WrPeriod v) s = Inr (ESP_SyncPeriod_Write v s)"
| "esp_do E (WrOffset v) s = Inr (ESP_SyncOffset_Write v s)"
| "esp_do E (WrConfig v) s = Inr (ESP_Configuration_Write v s)"
| "esp_do E (WrClock v) s = Inr (ESP_ClockConv_Write v s)"
| "esp_do E (WrTest v) s = Inr (ESP_Test_Write v s)"
| "esp_do E Interrupt s = ESP_InterruptHandler s"
| "esp_do E IoEvent s = ESP_IO_Handler E s"

lemma ok_do: "esp_ok s \<Longrightarrow> holds esp_ok (esp_do E a s)"
proof (cases a)
  case (WrFifo v)
  then show "esp_ok s \<Longrightarrow> ?thesis" using ok_fifo_write by (simp add: ESP_FIFO_Write_def)
next
  case RdIntStatus
  then show "esp_ok s \<Longrightarrow> ?thesis" using ok_intstatus by (auto intro!: holdsI simp: bnd_eq_Inr)
qed (simp_all add: ok_control ok_command ok_interrupt ok_io ok_fifo_read ESP_DMA_FIFO_STAT_Write_def ESP_TransCountL_Write_def
    ESP_TransCountH_Write_def ESP_FIFO_Read_def ESP_SelectBusID_Write_def ESP_SelectTimeout_Write_def ESP_SyncPeriod_Write_def
    ESP_SyncOffset_Write_def ESP_Configuration_Write_def ESP_ClockConv_Write_def ESP_Test_Write_def)

lemma fifo_in_array: "esp_ok s \<Longrightarrow> ESP_FIFO_Write v s \<noteq> Inl ArrayOOB"
  using fifo_write_full [of s v] fifo_write_room(1) [of s v]
  by (cases "fifoflags s = 16") (auto simp: ESP_FIFO_Write_def esp_ok_def fifo_ok_def word_le_nat_alt word_unat_eq_iff)

text \<open>
  C9. The registers of the controller keep their ranges. From any state in which they are in range, such as
  the cleared one at the start, every sequence of register accesses, interrupts and transfer events that returns leaves at most
  16 bytes in the FIFO, a DMA mode of 0 or 1, no command state but in progress and waiting, and a
  transfer counter of at most 10000 (hexadecimal); so no write to the FIFO is outside its array.
\<close>
theorem controller_keeps_ranges:
  assumes "esp_ok s"
  shows "holds (\<lambda>t. esp_ok t \<and> (\<forall>v. ESP_FIFO_Write v t \<noteq> Inl ArrayOOB)) (each (esp_do E) acts s)"
  using assms
proof (induction acts arbitrary: s)
  case Nil
  then show ?case using fifo_in_array by simp
next
  case (Cons a acts)
  show ?case using ok_do [OF Cons.prems, of E a] Cons.IH by (cases "esp_do E a s") simp_all
qed

text \<open>
  C10. Transfers of the channels end. The loops that move bytes between memory and the SCSI bus, the
  floppy drive or the optical disk return in every state, whatever the address registers, residual bytes and
  counters are: the bound on their rounds, the bytes the device has left and two more, is never
  reached.
\<close>
theorem channel_transfers_end:
  "dma_esp_write_memory E s \<noteq> Inl StackOverflow \<and> dma_esp_read_memory E s \<noteq> Inl StackOverflow \<and>
   dma_mo_write_memory B d \<noteq> Inl StackOverflow \<and> dma_mo_read_memory B d \<noteq> Inl StackOverflow"
  using esp_write_bound esp_read_bound mo_write_bound mo_read_bound by simp


section \<open>Witnesses\<close>

definition esp_cold :: esp where
  "esp_cold =
     \<lparr>esp_state = DISCONNECTED, esp_cmd_state = 0, writetranscountl = 0, writetranscounth = 0, fifo = (\<lambda>_. 0), command0 = 0,
      command1 = 0, e_status = 0, selectbusid = 0, intstatus = 0, selecttimeout = 0, seqstep = 0, syncperiod = 0, fifoflags = 0,
      syncoffset = 0, configuration = 0, clockconv = 0, esptest = 0, esp_counter = 0, mode_dma = 0,
      esp_io_state = ESP_IO_STATE_TRANSFERING, e_scsi = scsi_state WRITEPROT_OFF, e_dma = dma_state\<rparr>"

definition esp_world :: esp_env where
  "esp_world = \<lparr>e_conf = \<lparr>bRealtime = False, nCpuFreq = 25\<rparr>, e_now = 0, e_bus = all_ram, e_stack = (\<lambda>_. 0), e_bTurbo = False,
     e_ncr53c90 = True\<rparr>"

definition esp_armed :: "scsi \<Rightarrow> esp" where
  "esp_armed u = esp_cold\<lparr>esp_counter := 512, e_scsi := u,
     e_dma := dma_state\<lparr>dma := (dma dma_state)(CHANNEL_SCSI := armed_channel 0x1000 0x1200)\<rparr>\<rparr>"

lemma cold_idle: "esp_idle esp_cold" "esp_state esp_cold = DISCONNECTED" "fifo_ok esp_cold" "fifo_list esp_cold = []" "esp_ok esp_cold"
  by (simp_all add: esp_cold_def esp_idle_def fifo_ok_def fifo_list_def esp_ok_def)

lemma armed_ready: "block_ready (\<lambda>_. True) 0x1000 (Suc 0) (esp_armed u)" "e_scsi (esp_armed u) = u"
  by (simp_all add: esp_armed_def block_ready_def channel_armed_def armed_channel_def idle_channel_def misaligned_def esp_cold_def dma_state_def)

lemma select_sends_command_witness:
  "\<exists>t. bnd (each ESP_FIFO_Write [0x80, 0x08, 0, 0, 1, 1, 0] esp_cold) (ESP_Command_Write esp_world CMD_SELATN) =
      bnd (SCSIdisk_Receive_Command (buf_with 0 [0x08, 0, 0, 1, 1, 0] (\<lambda>_. 0)) 0x80
            (set_phase PHASE_CD ((scsi_state WRITEPROT_OFF)\<lparr>bus_target := 0\<rparr>)))
        (\<lambda>sc. esp_timer esp_world 100 20 INTERRUPT_ESP (t\<lparr>e_scsi := sc\<rparr>)) \<and> esp_state t = INITIATOR"
proof -
  have d: "selectbusid esp_cold AND BUSID_DID = 0" "e_scsi esp_cold = scsi_state WRITEPROT_OFF" by (simp_all add: esp_cold_def)
  have "devtype (disks (e_scsi esp_cold) (unat (selectbusid esp_cold AND BUSID_DID))) \<noteq> DEVTYPE_NONE"
    unfolding d by (simp add: scsi_state_def hard_disk_def)
  then show ?thesis
    using select_sends_command [OF cold_idle(1-4), of "[0x08, 0, 0, 1, 1, 0]" "0x80" esp_world] unfolding d
    by (auto simp: esp_world_def)
qed

lemma select_id7_out_of_bounds_witness:
  "ESP_Command_Write esp_world CMD_SEL (esp_cold\<lparr>selectbusid := 7\<rparr>) = Inl ArrayOOB"
  by (rule select_id7_out_of_bounds) (simp_all add: esp_cold_def esp_idle_def)

lemma disk_reaches_memory_witness:
  "\<exists>u t. SCSIdisk_Receive_Command (cdb6 0x08 1 1) 0x80 (scsi_state WRITEPROT_OFF) = Inr u \<and>
     dma_esp_write_memory esp_world (esp_armed u) = Inr t \<and>
     d_mem (e_dma t) = put_bytes 0x1000 (replicate 512 0x11) (\<lambda>a. ucast a) \<and> notified (e_dma t) = [(0x1000, 512)]"
proof -
  let ?s = "scsi_state WRITEPROT_OFF"
  have k: "unit0 0x80" "is_read (cdb6 0x08 1 1)" "addresses (cdb6 0x08 1 1) 1 (Suc 0)" "1 + Suc 0 \<le> disk_blocks (dk ?s)"
    using cdb6_addresses(2) scsi_state_ok(3) [of WRITEPROT_OFF] by (simp_all add: unit0_def is_read_def cdb6_def)
  obtain u where u: "SCSIdisk_Receive_Command (cdb6 0x08 1 1) 0x80 ?s = Inr u"
    using read_blocks [OF scsi_state_ok(1,2) k] by blast
  have b: "block_at (host ?s) (dk ?s) 1 = replicate 512 0x11"
    by (simp add: block_at_def scsi_state_def hard_disk_def empty_disk_def file_content_def two_blocks_def)
  have w: "block_ready (m_writable (e_bus esp_world)) 0x1000 (Suc 0) (esp_armed u)"
    using armed_ready(1) by (simp add: esp_world_def all_ram_def)
  have n: "notified (e_dma (esp_armed u)) = []" "d_mem (e_dma (esp_armed u)) = (\<lambda>a. ucast a)"
    by (simp_all add: esp_armed_def dma_state_def)
  have c: "concat (map (block_at (host ?s) (dk ?s)) [1 ..< 1 + Suc 0]) = replicate 512 0x11" using b by simp
  show ?thesis
    using u disk_reaches_memory [OF scsi_state_ok(1,2) k u w armed_ready(2)] unfolding n c append_Nil
    by (auto simp del: put_bytes.simps)
qed

lemma memory_reaches_disk_witness:
  "\<exists>u t. SCSIdisk_Receive_Command (cdb6 0x0A 1 1) 0x80 (scsi_state WRITEPROT_OFF) = Inr u \<and>
     dma_esp_read_memory esp_world (esp_armed u) = Inr t \<and>
     block_at (host (e_scsi t)) (dk (e_scsi t)) 1 = get_bytes 0x1000 512 (\<lambda>a. ucast a) \<and>
     block_at (host (e_scsi t)) (dk (e_scsi t)) 0 = replicate 512 0x11"
proof -
  let ?s = "scsi_state WRITEPROT_OFF"
  have k: "storing ?s (dk ?s)" "\<not> readonly (dk ?s)" "unit0 0x80" "is_write (cdb6 0x0A 1 1)" "addresses (cdb6 0x0A 1 1) 1 (Suc 0)"
    "1 + Suc 0 \<le> disk_blocks (dk ?s)"
    using cdb6_addresses(1) scsi_state_ok(3) [of WRITEPROT_OFF]
    by (simp_all add: unit0_def is_write_def cdb6_def) (simp_all add: storing_def scsi_state_def hard_disk_def empty_disk_def)
  obtain u where u: "SCSIdisk_Receive_Command (cdb6 0x0A 1 1) 0x80 ?s = Inr u"
    using write_blocks [OF scsi_state_ok(1,2) k, of "replicate 512 0"] by auto
  have b: "block_at (host ?s) (dk ?s) 0 = replicate 512 0x11"
    by (simp add: block_at_def scsi_state_def hard_disk_def empty_disk_def file_content_def two_blocks_def)
  have w: "block_ready (m_readable (e_bus esp_world)) 0x1000 (Suc 0) (esp_armed u)"
    using armed_ready(1) by (simp add: esp_world_def all_ram_def)
  have n: "d_mem (e_dma (esp_armed u)) = (\<lambda>a. ucast a)" by (simp add: esp_armed_def dma_state_def)
  let ?B = "\<lambda>i. if 1 \<le> i \<and> i < 1 + Suc 0 then take BLOCKSIZE (drop (BLOCKSIZE * (i - 1)) (get_bytes 0x1000 (BLOCKSIZE * Suc 0) (\<lambda>a. ucast a)))
    else block_at (host ?s) (dk ?s) i"
  obtain t where t: "dma_esp_read_memory esp_world (esp_armed u) = Inr t" "disk_to ?s (e_scsi t) ?B"
    using memory_reaches_disk [OF scsi_state_ok(1,2) k u w armed_ready(2)] unfolding n by blast
  have "block_at (host (e_scsi t)) (dk (e_scsi t)) i = ?B i" if "i < 2" for i
    using t(2) that unfolding disk_to_def scsi_state_ok(3) by blast
  from this [of 1] this [of 0] show ?thesis using u t(1) b by auto
qed

lemma controller_keeps_ranges_witness:
  "holds (\<lambda>t. esp_ok t \<and> (\<forall>v. ESP_FIFO_Write v t \<noteq> Inl ArrayOOB)) (each (esp_do esp_world) [WrFifo 0x80, WrCommand 0x42, Interrupt] esp_cold)"
  by (rule controller_keeps_ranges) (rule cold_idle)


end
