(* ===== verification/Reed_Solomon.thy ===== *)
theory Reed_Solomon
  imports Nd_Prelude
begin

text \<open>
  The Reed-Solomon codec of the magneto-optical drive (src/rs.c). A sector of 1024 bytes is stored
  as a square of 36 by 36 bytes: 32 rows of 32 data bytes, to which four check bytes per column and
  then four per row are added. Each string of 36 bytes is a code word of the code of length 36 over
  GF(256) whose generator has the roots 1, 2, 4 and 8; the field polynomial is 11d.

  The sector is a function from the byte index; accesses outside its 1296 bytes or outside the
  table \<^verbatim>\<open>t_exp\<close> are faults.
\<close>

section \<open>Tables\<close>

definition t_rem :: "u32 list" where
  "t_rem =
    [0x00000000, 0x0f367840, 0x1e6cf080, 0x115a88c0, 0x3cd8fd1d, 0x33ee855d, 0x22b40d9d, 0x2d8275dd,
     0x78ade73a, 0x779b9f7a, 0x66c117ba, 0x69f76ffa, 0x44751a27, 0x4b436267, 0x5a19eaa7, 0x552f92e7,
     0xf047d374, 0xff71ab34, 0xee2b23f4, 0xe11d5bb4, 0xcc9f2e69, 0xc3a95629, 0xd2f3dee9, 0xddc5a6a9,
     0x88ea344e, 0x87dc4c0e, 0x9686c4ce, 0x99b0bc8e, 0xb432c953, 0xbb04b113, 0xaa5e39d3, 0xa5684193,
     0xfd8ebbe8, 0xf2b8c3a8, 0xe3e24b68, 0xecd43328, 0xc15646f5, 0xce603eb5, 0xdf3ab675, 0xd00cce35,
     0x85235cd2, 0x8a152492, 0x9b4fac52, 0x9479d412, 0xb9fba1cf, 0xb6cdd98f, 0xa797514f, 0xa8a1290f,
     0x0dc9689c, 0x02ff10dc, 0x13a5981c, 0x1c93e05c, 0x31119581, 0x3e27edc1, 0x2f7d6501, 0x204b1d41,
     0x75648fa6, 0x7a52f7e6, 0x6b087f26, 0x643e0766, 0x49bc72bb, 0x468a0afb, 0x57d0823b, 0x58e6fa7b,
     0xe7016bcd, 0xe837138d, 0xf96d9b4d, 0xf65be30d, 0xdbd996d0, 0xd4efee90, 0xc5b56650, 0xca831e10,
     0x9fac8cf7, 0x909af4b7, 0x81c07c77, 0x8ef60437, 0xa37471ea, 0xac4209aa, 0xbd18816a, 0xb22ef92a,
     0x1746b8b9, 0x1870c0f9, 0x092a4839, 0x061c3079, 0x2b9e45a4, 0x24a83de4, 0x35f2b524, 0x3ac4cd64,
     0x6feb5f83, 0x60dd27c3, 0x7187af03, 0x7eb1d743, 0x5333a29e, 0x5c05dade, 0x4d5f521e, 0x42692a5e,
     0x1a8fd025, 0x15b9a865, 0x04e320a5, 0x0bd558e5, 0x26572d38, 0x29615578, 0x383bddb8, 0x370da5f8,
     0x6222371f, 0x6d144f5f, 0x7c4ec79f, 0x7378bfdf, 0x5efaca02, 0x51ccb242, 0x40963a82, 0x4fa042c2,
     0xeac80351, 0xe5fe7b11, 0xf4a4f3d1, 0xfb928b91, 0xd610fe4c, 0xd926860c, 0xc87c0ecc, 0xc74a768c,
     0x9265e46b, 0x9d539c2b, 0x8c0914eb, 0x833f6cab, 0xaebd1976, 0xa18b6136, 0xb0d1e9f6, 0xbfe791b6,
     0xd302d687, 0xdc34aec7, 0xcd6e2607, 0xc2585e47, 0xefda2b9a, 0xe0ec53da, 0xf1b6db1a, 0xfe80a35a,
     0xabaf31bd, 0xa49949fd, 0xb5c3c13d, 0xbaf5b97d, 0x9777cca0, 0x9841b4e0, 0x891b3c20, 0x862d4460,
     0x234505f3, 0x2c737db3, 0x3d29f573, 0x321f8d33, 0x1f9df8ee, 0x10ab80ae, 0x01f1086e, 0x0ec7702e,
     0x5be8e2c9, 0x54de9a89, 0x45841249, 0x4ab26a09, 0x67301fd4, 0x68066794, 0x795cef54, 0x766a9714,
     0x2e8c6d6f, 0x21ba152f, 0x30e09def, 0x3fd6e5af, 0x12549072, 0x1d62e832, 0x0c3860f2, 0x030e18b2,
     0x56218a55, 0x5917f215, 0x484d7ad5, 0x477b0295, 0x6af97748, 0x65cf0f08, 0x749587c8, 0x7ba3ff88,
     0xdecbbe1b, 0xd1fdc65b, 0xc0a74e9b, 0xcf9136db, 0xe2134306, 0xed253b46, 0xfc7fb386, 0xf349cbc6,
     0xa6665921, 0xa9502161, 0xb80aa9a1, 0xb73cd1e1, 0x9abea43c, 0x9588dc7c, 0x84d254bc, 0x8be42cfc,
     0x3403bd4a, 0x3b35c50a, 0x2a6f4dca, 0x2559358a, 0x08db4057, 0x07ed3817, 0x16b7b0d7, 0x1981c897,
     0x4cae5a70, 0x43982230, 0x52c2aaf0, 0x5df4d2b0, 0x7076a76d, 0x7f40df2d, 0x6e1a57ed, 0x612c2fad,
     0xc4446e3e, 0xcb72167e, 0xda289ebe, 0xd51ee6fe, 0xf89c9323, 0xf7aaeb63, 0xe6f063a3, 0xe9c61be3,
     0xbce98904, 0xb3dff144, 0xa2857984, 0xadb301c4, 0x80317419, 0x8f070c59, 0x9e5d8499, 0x916bfcd9,
     0xc98d06a2, 0xc6bb7ee2, 0xd7e1f622, 0xd8d78e62, 0xf555fbbf, 0xfa6383ff, 0xeb390b3f, 0xe40f737f,
     0xb120e198, 0xbe1699d8, 0xaf4c1118, 0xa07a6958, 0x8df81c85, 0x82ce64c5, 0x9394ec05, 0x9ca29445,
     0x39cad5d6, 0x36fcad96, 0x27a62556, 0x28905d16, 0x051228cb, 0x0a24508b, 0x1b7ed84b, 0x1448a00b,
     0x416732ec, 0x4e514aac, 0x5f0bc26c, 0x503dba2c, 0x7dbfcff1, 0x7289b7b1, 0x63d33f71, 0x6ce54731]"

definition t_exp :: "u8 list" where
  "t_exp =
    [0x01, 0x02, 0x04, 0x08, 0x10, 0x20, 0x40, 0x80, 0x1d, 0x3a, 0x74, 0xe8, 0xcd, 0x87, 0x13, 0x26,
     0x4c, 0x98, 0x2d, 0x5a, 0xb4, 0x75, 0xea, 0xc9, 0x8f, 0x03, 0x06, 0x0c, 0x18, 0x30, 0x60, 0xc0,
     0x9d, 0x27, 0x4e, 0x9c, 0x25, 0x4a, 0x94, 0x35, 0x6a, 0xd4, 0xb5, 0x77, 0xee, 0xc1, 0x9f, 0x23,
     0x46, 0x8c, 0x05, 0x0a, 0x14, 0x28, 0x50, 0xa0, 0x5d, 0xba, 0x69, 0xd2, 0xb9, 0x6f, 0xde, 0xa1,
     0x5f, 0xbe, 0x61, 0xc2, 0x99, 0x2f, 0x5e, 0xbc, 0x65, 0xca, 0x89, 0x0f, 0x1e, 0x3c, 0x78, 0xf0,
     0xfd, 0xe7, 0xd3, 0xbb, 0x6b, 0xd6, 0xb1, 0x7f, 0xfe, 0xe1, 0xdf, 0xa3, 0x5b, 0xb6, 0x71, 0xe2,
     0xd9, 0xaf, 0x43, 0x86, 0x11, 0x22, 0x44, 0x88, 0x0d, 0x1a, 0x34, 0x68, 0xd0, 0xbd, 0x67, 0xce,
     0x81, 0x1f, 0x3e, 0x7c, 0xf8, 0xed, 0xc7, 0x93, 0x3b, 0x76, 0xec, 0xc5, 0x97, 0x33, 0x66, 0xcc,
     0x85, 0x17, 0x2e, 0x5c, 0xb8, 0x6d, 0xda, 0xa9, 0x4f, 0x9e, 0x21, 0x42, 0x84, 0x15, 0x2a, 0x54,
     0xa8, 0x4d, 0x9a, 0x29, 0x52, 0xa4, 0x55, 0xaa, 0x49, 0x92, 0x39, 0x72, 0xe4, 0xd5, 0xb7, 0x73,
     0xe6, 0xd1, 0xbf, 0x63, 0xc6, 0x91, 0x3f, 0x7e, 0xfc, 0xe5, 0xd7, 0xb3, 0x7b, 0xf6, 0xf1, 0xff,
     0xe3, 0xdb, 0xab, 0x4b, 0x96, 0x31, 0x62, 0xc4, 0x95, 0x37, 0x6e, 0xdc, 0xa5, 0x57, 0xae, 0x41,
     0x82, 0x19, 0x32, 0x64, 0xc8, 0x8d, 0x07, 0x0e, 0x1c, 0x38, 0x70, 0xe0, 0xdd, 0xa7, 0x53, 0xa6,
     0x51, 0xa2, 0x59, 0xb2, 0x79, 0xf2, 0xf9, 0xef, 0xc3, 0x9b, 0x2b, 0x56, 0xac, 0x45, 0x8a, 0x09,
     0x12, 0x24, 0x48, 0x90, 0x3d, 0x7a, 0xf4, 0xf5, 0xf7, 0xf3, 0xfb, 0xeb, 0xcb, 0x8b, 0x0b, 0x16,
     0x2c, 0x58, 0xb0, 0x7d, 0xfa, 0xe9, 0xcf, 0x83, 0x1b, 0x36, 0x6c, 0xd8, 0xad, 0x47, 0x8e, 0x01,
     0x02, 0x04, 0x08, 0x10, 0x20, 0x40, 0x80, 0x1d, 0x3a, 0x74, 0xe8, 0xcd, 0x87, 0x13, 0x26, 0x4c,
     0x98, 0x2d, 0x5a, 0xb4, 0x75, 0xea, 0xc9, 0x8f, 0x03, 0x06, 0x0c, 0x18, 0x30, 0x60, 0xc0, 0x9d,
     0x27, 0x4e, 0x9c, 0x25, 0x4a, 0x94, 0x35, 0x6a, 0xd4, 0xb5, 0x77, 0xee, 0xc1, 0x9f, 0x23, 0x46,
     0x8c, 0x05, 0x0a, 0x14, 0x28, 0x50, 0xa0, 0x5d, 0xba, 0x69, 0xd2, 0xb9, 0x6f, 0xde, 0xa1, 0x5f,
     0xbe, 0x61, 0xc2, 0x99, 0x2f, 0x5e, 0xbc, 0x65, 0xca, 0x89, 0x0f, 0x1e, 0x3c, 0x78, 0xf0, 0xfd,
     0xe7, 0xd3, 0xbb, 0x6b, 0xd6, 0xb1, 0x7f, 0xfe, 0xe1, 0xdf, 0xa3, 0x5b, 0xb6, 0x71, 0xe2, 0xd9,
     0xaf, 0x43, 0x86, 0x11, 0x22, 0x44, 0x88, 0x0d, 0x1a, 0x34, 0x68, 0xd0, 0xbd, 0x67, 0xce, 0x81,
     0x1f, 0x3e, 0x7c, 0xf8, 0xed, 0xc7, 0x93, 0x3b, 0x76, 0xec, 0xc5, 0x97, 0x33, 0x66, 0xcc, 0x85,
     0x17, 0x2e, 0x5c, 0xb8, 0x6d, 0xda, 0xa9, 0x4f, 0x9e, 0x21, 0x42, 0x84, 0x15, 0x2a, 0x54, 0xa8,
     0x4d, 0x9a, 0x29, 0x52, 0xa4, 0x55, 0xaa, 0x49, 0x92, 0x39, 0x72, 0xe4, 0xd5, 0xb7, 0x73, 0xe6,
     0xd1, 0xbf, 0x63, 0xc6, 0x91, 0x3f, 0x7e, 0xfc, 0xe5, 0xd7, 0xb3, 0x7b, 0xf6, 0xf1, 0xff, 0xe3,
     0xdb, 0xab, 0x4b, 0x96, 0x31, 0x62, 0xc4, 0x95, 0x37, 0x6e, 0xdc, 0xa5, 0x57, 0xae, 0x41, 0x82,
     0x19, 0x32, 0x64, 0xc8, 0x8d, 0x07, 0x0e, 0x1c, 0x38, 0x70, 0xe0, 0xdd, 0xa7, 0x53, 0xa6, 0x51,
     0xa2, 0x59, 0xb2, 0x79, 0xf2, 0xf9, 0xef, 0xc3, 0x9b, 0x2b, 0x56, 0xac, 0x45, 0x8a, 0x09, 0x12,
     0x24, 0x48, 0x90, 0x3d, 0x7a, 0xf4, 0xf5, 0xf7, 0xf3, 0xfb, 0xeb, 0xcb, 0x8b, 0x0b, 0x16, 0x2c,
     0x58, 0xb0, 0x7d, 0xfa, 0xe9, 0xcf, 0x83, 0x1b, 0x36, 0x6c, 0xd8, 0xad, 0x47, 0x8e, 0x01, 0x02,
     0x04, 0x08, 0x10, 0x20, 0x40, 0x80, 0x1d, 0x3a, 0x74, 0xe8, 0xcd, 0x87, 0x13, 0x26, 0x4c, 0x98,
     0x2d, 0x5a, 0xb4, 0x75, 0xea, 0xc9, 0x8f, 0x03, 0x06, 0x0c, 0x18, 0x30, 0x60, 0xc0, 0x9d, 0x27,
     0x4e, 0x9c, 0x25, 0x4a, 0x94, 0x35, 0x6a, 0xd4, 0xb5, 0x77, 0xee, 0xc1, 0x9f, 0x23, 0x46, 0x8c,
     0x05, 0x0a, 0x14, 0x28, 0x50, 0xa0, 0x5d, 0xba, 0x69, 0xd2, 0xb9, 0x6f, 0xde, 0xa1, 0x5f, 0xbe,
     0x61, 0xc2, 0x99, 0x2f, 0x5e, 0xbc, 0x65, 0xca, 0x89, 0x0f, 0x1e, 0x3c, 0x78, 0xf0, 0xfd, 0xe7,
     0xd3, 0xbb, 0x6b, 0xd6, 0xb1, 0x7f, 0xfe, 0xe1, 0xdf, 0xa3, 0x5b, 0xb6, 0x71, 0xe2, 0xd9, 0xaf,
     0x43, 0x86, 0x11, 0x22, 0x44, 0x88, 0x0d, 0x1a, 0x34, 0x68, 0xd0, 0xbd, 0x67, 0xce, 0x81, 0x1f,
     0x3e, 0x7c, 0xf8, 0xed, 0xc7, 0x93, 0x3b, 0x76, 0xec, 0xc5, 0x97, 0x33, 0x66, 0xcc, 0x85, 0x17,
     0x2e, 0x5c, 0xb8, 0x6d, 0xda, 0xa9, 0x4f, 0x9e, 0x21, 0x42, 0x84, 0x15, 0x2a, 0x54, 0xa8, 0x4d,
     0x9a, 0x29, 0x52, 0xa4, 0x55, 0xaa, 0x49, 0x92, 0x39, 0x72, 0xe4, 0xd5, 0xb7, 0x73, 0xe6, 0xd1,
     0xbf, 0x63, 0xc6, 0x91, 0x3f, 0x7e, 0xfc, 0xe5, 0xd7, 0xb3, 0x7b, 0xf6, 0xf1, 0xff, 0xe3, 0xdb,
     0xab, 0x4b, 0x96, 0x31, 0x62, 0xc4, 0x95, 0x37, 0x6e, 0xdc, 0xa5, 0x57, 0xae, 0x41, 0x82, 0x19,
     0x32, 0x64, 0xc8, 0x8d, 0x07, 0x0e, 0x1c, 0x38, 0x70, 0xe0, 0xdd, 0xa7, 0x53, 0xa6, 0x51, 0xa2,
     0x59, 0xb2, 0x79, 0xf2, 0xf9, 0xef, 0xc3, 0x9b, 0x2b, 0x56, 0xac, 0x45, 0x8a, 0x09, 0x12, 0x24,
     0x48, 0x90, 0x3d, 0x7a, 0xf4, 0xf5, 0xf7, 0xf3, 0xfb, 0xeb, 0xcb, 0x8b, 0x0b, 0x16, 0x2c, 0x58,
     0xb0, 0x7d, 0xfa, 0xe9, 0xcf, 0x83, 0x1b, 0x36, 0x6c, 0xd8, 0xad, 0x47, 0x8e, 0x01, 0x02, 0x04]"

definition t_log :: "u8 list" where
  "t_log =
    [0x00, 0x00, 0x01, 0x19, 0x02, 0x32, 0x1a, 0xc6, 0x03, 0xdf, 0x33, 0xee, 0x1b, 0x68, 0xc7, 0x4b,
     0x04, 0x64, 0xe0, 0x0e, 0x34, 0x8d, 0xef, 0x81, 0x1c, 0xc1, 0x69, 0xf8, 0xc8, 0x08, 0x4c, 0x71,
     0x05, 0x8a, 0x65, 0x2f, 0xe1, 0x24, 0x0f, 0x21, 0x35, 0x93, 0x8e, 0xda, 0xf0, 0x12, 0x82, 0x45,
     0x1d, 0xb5, 0xc2, 0x7d, 0x6a, 0x27, 0xf9, 0xb9, 0xc9, 0x9a, 0x09, 0x78, 0x4d, 0xe4, 0x72, 0xa6,
     0x06, 0xbf, 0x8b, 0x62, 0x66, 0xdd, 0x30, 0xfd, 0xe2, 0x98, 0x25, 0xb3, 0x10, 0x91, 0x22, 0x88,
     0x36, 0xd0, 0x94, 0xce, 0x8f, 0x96, 0xdb, 0xbd, 0xf1, 0xd2, 0x13, 0x5c, 0x83, 0x38, 0x46, 0x40,
     0x1e, 0x42, 0xb6, 0xa3, 0xc3, 0x48, 0x7e, 0x6e, 0x6b, 0x3a, 0x28, 0x54, 0xfa, 0x85, 0xba, 0x3d,
     0xca, 0x5e, 0x9b, 0x9f, 0x0a, 0x15, 0x79, 0x2b, 0x4e, 0xd4, 0xe5, 0xac, 0x73, 0xf3, 0xa7, 0x57,
     0x07, 0x70, 0xc0, 0xf7, 0x8c, 0x80, 0x63, 0x0d, 0x67, 0x4a, 0xde, 0xed, 0x31, 0xc5, 0xfe, 0x18,
     0xe3, 0xa5, 0x99, 0x77, 0x26, 0xb8, 0xb4, 0x7c, 0x11, 0x44, 0x92, 0xd9, 0x23, 0x20, 0x89, 0x2e,
     0x37, 0x3f, 0xd1, 0x5b, 0x95, 0xbc, 0xcf, 0xcd, 0x90, 0x87, 0x97, 0xb2, 0xdc, 0xfc, 0xbe, 0x61,
     0xf2, 0x56, 0xd3, 0xab, 0x14, 0x2a, 0x5d, 0x9e, 0x84, 0x3c, 0x39, 0x53, 0x47, 0x6d, 0x41, 0xa2,
     0x1f, 0x2d, 0x43, 0xd8, 0xb7, 0x7b, 0xa4, 0x76, 0xc4, 0x17, 0x49, 0xec, 0x7f, 0x0c, 0x6f, 0xf6,
     0x6c, 0xa1, 0x3b, 0x52, 0x29, 0x9d, 0x55, 0xaa, 0xfb, 0x60, 0x86, 0xb1, 0xbb, 0xcc, 0x3e, 0x5a,
     0xcb, 0x59, 0x5f, 0xb0, 0x9c, 0xa9, 0xa0, 0x51, 0x0b, 0xf5, 0x16, 0xeb, 0x7a, 0x75, 0x2c, 0xd7,
     0x4f, 0xae, 0xd5, 0xe9, 0xe6, 0xe7, 0xad, 0xe8, 0x74, 0xd6, 0xf4, 0xea, 0xa8, 0x50, 0x58, 0xaf]"

section \<open>Access to sector and tables\<close>

abbreviation "RS_BYTES \<equiv> (1296 :: nat)"

definition t_exp_at :: "nat \<Rightarrow> u8 res" where
  "t_exp_at n = (if n < 768 then Inr (t_exp ! n) else Inl ArrayOOB)"

text \<open>The table \<^verbatim>\<open>t_log\<close> is indexed by a byte and always in range.\<close>

definition lg :: "u8 \<Rightarrow> nat" where
  "lg v = unat (t_log ! unat v)"

section \<open>Check bytes\<close>

fun ecc_loop :: "(nat \<Rightarrow> u8) \<Rightarrow> nat \<Rightarrow> nat \<Rightarrow> nat \<Rightarrow> nat \<Rightarrow> u32 \<Rightarrow> u32 res" where
  "ecc_loop sector p ss i 0 r = Inr r"
| "ecc_loop sector p ss i (Suc n) r =
     (let r1 = t_rem ! unat (drop_bit 24 r) XOR push_bit 8 r
      in if i < 32 then
           bnd (arr_get RS_BYTES sector p)
             (\<lambda>v. ecc_loop sector (p + ss) ss (i + 1) n (r1 XOR ucast v))
         else ecc_loop sector p ss (i + 1) n r1)"

definition be4 :: "u8 \<Rightarrow> u8 \<Rightarrow> u8 \<Rightarrow> u8 \<Rightarrow> u32" where
  "be4 b0 b1 b2 b3 =
     push_bit 24 (ucast b0) OR push_bit 16 (ucast b1) OR push_bit 8 (ucast b2) OR ucast b3"

definition get4 :: "(nat \<Rightarrow> u8) \<Rightarrow> nat \<Rightarrow> nat \<Rightarrow> u32 res" where
  "get4 sector p ss =
     bnd (arr_get RS_BYTES sector p) (\<lambda>b0.
     bnd (arr_get RS_BYTES sector (p + ss)) (\<lambda>b1.
     bnd (arr_get RS_BYTES sector (p + 2 * ss)) (\<lambda>b2.
     bnd (arr_get RS_BYTES sector (p + 3 * ss)) (\<lambda>b3. Inr (be4 b0 b1 b2 b3)))))"

definition ecc_block :: "(nat \<Rightarrow> u8) \<Rightarrow> nat \<Rightarrow> nat \<Rightarrow> u32 res" where
  "ecc_block sector s ss =
     bnd (get4 sector s ss) (\<lambda>r. ecc_loop sector (s + 4 * ss) ss 4 32 r)"

definition rs_encode_string :: "nat \<Rightarrow> nat \<Rightarrow> (nat \<Rightarrow> u8) \<Rightarrow> (nat \<Rightarrow> u8) res" where
  "rs_encode_string off step sector =
     bnd (ecc_block sector off step) (\<lambda>ecc.
     bnd (arr_put RS_BYTES sector (off + 32 * step) (ucast (drop_bit 24 ecc))) (\<lambda>s1.
     bnd (arr_put RS_BYTES s1 (off + 33 * step) (ucast (drop_bit 16 ecc))) (\<lambda>s2.
     bnd (arr_put RS_BYTES s2 (off + 34 * step) (ucast (drop_bit 8 ecc))) (\<lambda>s3.
     arr_put RS_BYTES s3 (off + 35 * step) (ucast ecc)))))"

section \<open>Error location\<close>

text \<open>\<open>acc ^= t_exp[t_log[a] + lb]\<close>, guarded by \<open>if (a)\<close>.\<close>

definition mac :: "u8 \<Rightarrow> nat \<Rightarrow> u8 \<Rightarrow> u8 res" where
  "mac a lb acc =
     (if a \<noteq> 0 then bnd (t_exp_at (lg a + lb)) (\<lambda>v. Inr (acc XOR v)) else Inr acc)"

definition syndrome_step :: "(nat \<Rightarrow> u8) \<Rightarrow> nat \<Rightarrow> nat \<Rightarrow> nat \<Rightarrow> (nat \<Rightarrow> u8) \<Rightarrow> (nat \<Rightarrow> u8) res" where
  "syndrome_step sector off step i syn =
     bnd (arr_get RS_BYTES sector (off + step * (35 - i))) (\<lambda>v.
       if v \<noteq> 0 then
         bnd (t_exp_at (lg v + i)) (\<lambda>e1.
         bnd (t_exp_at (lg v + 2 * i)) (\<lambda>e2.
         bnd (t_exp_at (lg v + 3 * i)) (\<lambda>e3.
           Inr (syn(1 := syn 1 XOR v, 2 := syn 2 XOR e1, 3 := syn 3 XOR e2, 4 := syn 4 XOR e3)))))
       else Inr syn)"

definition syndromes :: "(nat \<Rightarrow> u8) \<Rightarrow> nat \<Rightarrow> nat \<Rightarrow> (nat \<Rightarrow> u8) res" where
  "syndromes sector off step =
     each (syndrome_step sector off step) [0 ..< 36] ((\<lambda>_. 0)(0 := 1))"

text \<open>The Berlekamp-Massey iteration; its arrays have five elements.\<close>

record bm =
  sigma :: "nat \<Rightarrow> u8"
  omega :: "nat \<Rightarrow> u8"
  tau :: "nat \<Rightarrow> u8"
  gamma :: "nat \<Rightarrow> u8"
  bm_d :: int
  bm_b :: bool

definition bm_init :: bm where
  "bm_init =
     (let one = (\<lambda>_. 0)(0 := 1)
      in \<lparr>sigma = one, omega = one, tau = one, gamma = (\<lambda>_. 0), bm_d = 0, bm_b = False\<rparr>)"

definition bm_delta :: "(nat \<Rightarrow> u8) \<Rightarrow> nat \<Rightarrow> bm \<Rightarrow> u8 res" where
  "bm_delta syn l m =
     each (\<lambda>i delta.
         if sigma m i \<noteq> 0 \<and> syn (l - i) \<noteq> 0 then
           bnd (t_exp_at (lg (sigma m i) + lg (syn (l - i)))) (\<lambda>v. Inr (delta XOR v))
         else Inr delta) [0 ..< l + 1] 0"

definition shift_up :: "nat \<Rightarrow> (nat \<Rightarrow> u8) \<Rightarrow> (nat \<Rightarrow> u8)" where
  "shift_up l t = (fold (\<lambda>i t. t(l - i := t (l - i - 1))) [0 ..< l] t)(0 := 0)"

definition method_a :: "nat \<Rightarrow> u8 \<Rightarrow> bm \<Rightarrow> bm res" where
  "method_a l delta m0 =
     (let m = m0\<lparr>tau := shift_up l (tau m0), gamma := shift_up l (gamma m0)\<rparr>
      in if delta \<noteq> 0 then
           each (\<lambda>i m.
             bnd (mac (tau m i) (lg delta) (sigma m i)) (\<lambda>s.
             bnd (mac (gamma m i) (lg delta) (omega m i)) (\<lambda>w.
               Inr (m\<lparr>sigma := (sigma m)(i := s), omega := (omega m)(i := w)\<rparr>)))) [1 ..< l + 1] m
         else Inr m)"

definition method_b :: "nat \<Rightarrow> u8 \<Rightarrow> bm \<Rightarrow> bm res" where
  "method_b l delta m0 =
     (let m = m0\<lparr>bm_d := int l - bm_d m0, bm_b := \<not> bm_b m0\<rparr>;
          ldelta = lg delta;
          ildelta = unat ((of_nat ldelta :: u8) XOR 255)
      in each (\<lambda>i m.
           bnd (mac (tau m (i - 1)) ldelta (sigma m i)) (\<lambda>s.
           bnd (mac (gamma m (i - 1)) ldelta (omega m i)) (\<lambda>w.
             let m1 = m\<lparr>sigma := (sigma m)(i := s), omega := (omega m)(i := w)\<rparr>
             in bnd (mac (sigma m1 (i - 1)) ildelta 0) (\<lambda>t.
                bnd (mac (omega m1 (i - 1)) ildelta 0) (\<lambda>g.
                  Inr (m1\<lparr>tau := (tau m1)(i - 1 := t), gamma := (gamma m1)(i - 1 := g)\<rparr>))))))
           (rev [1 ..< l + 1]) m)"

definition bm_step :: "(nat \<Rightarrow> u8) \<Rightarrow> nat \<Rightarrow> bm \<Rightarrow> bm res" where
  "bm_step syn l m =
     bnd (bm_delta syn l m) (\<lambda>delta.
       let limit = int ((l + 1) div 2); exact = odd l
       in if delta = 0 \<or> limit < bm_d m \<or> bm_d m = limit \<and> exact \<and> \<not> bm_b m
          then method_a l delta m else method_b l delta m)"

definition berlekamp_massey :: "(nat \<Rightarrow> u8) \<Rightarrow> bm res" where
  "berlekamp_massey syn = each (bm_step syn) [1 ..< 5] bm_init"

section \<open>Error values\<close>

text \<open>The search for the first root; 256 if there is none.\<close>

fun find_root :: "bm \<Rightarrow> nat \<Rightarrow> nat \<Rightarrow> nat res" where
  "find_root m epos 0 = Inr epos"
| "find_root m epos (Suc n) =
     bnd (if sigma m 1 \<noteq> 0 then
            bnd (t_exp_at (255 - epos + lg (sigma m 1))) (\<lambda>v. Inr (sigma m 0 XOR v))
          else Inr (sigma m 0)) (\<lambda>res.
     bnd (t_exp_at (2 * (255 - epos) + lg (sigma m 2))) (\<lambda>v.
       if res XOR v = 0 then Inr epos else find_root m (epos + 1) n))"

text \<open>The value of the error at \<open>epos\<close>, the other error being at \<open>other\<close>; bytes wrap modulo 256.\<close>

definition error_value :: "bm \<Rightarrow> int \<Rightarrow> int \<Rightarrow> u8 res" where
  "error_value m epos other =
     bnd (mac (omega m 1) (nat (255 - epos)) (omega m 0)) (\<lambda>e1.
     bnd (mac (omega m 2) (nat (2 * (255 - epos))) e1) (\<lambda>e2.
     let err = t_log ! unat e2 + word_of_int epos
     in bnd (t_exp_at (nat (255 + other - epos))) (\<lambda>v.
        let dv = t_log ! unat (1 XOR v)
        in t_exp_at (nat (255 + uint err - uint dv)))))"

definition flip_byte :: "nat \<Rightarrow> nat \<Rightarrow> int \<Rightarrow> u8 \<Rightarrow> (nat \<Rightarrow> u8) \<Rightarrow> (nat \<Rightarrow> u8) res" where
  "flip_byte off step epos err sector =
     (let p = off + step * nat (35 - epos)
      in bnd (arr_get RS_BYTES sector p) (\<lambda>v. arr_put RS_BYTES sector p (v XOR err)))"

definition fix_errors :: "nat \<Rightarrow> nat \<Rightarrow> (nat \<Rightarrow> u8) \<Rightarrow> bm \<Rightarrow> (int \<times> (nat \<Rightarrow> u8)) res" where
  "fix_errors off step sector m =
     (if sigma m 3 \<noteq> 0 \<or> sigma m 4 \<noteq> 0 then Inr (- 1, sector)
      else if sigma m 2 \<noteq> 0 \<and> sigma m 0 \<noteq> 0 then
        bnd (find_root m 0 256) (\<lambda>epos1.
          if 35 < epos1 then Inr (- 1, sector)
          else
            let e = int (lg (sigma m 2)) - int epos1 - int (lg (sigma m 0));
                epos2 = (if e < 0 then e + 255 else e)
            in if 35 < epos2 then Inr (- 1, sector)
               else
                 bnd (error_value m (int epos1) epos2) (\<lambda>err1.
                 bnd (error_value m epos2 (int epos1)) (\<lambda>err2.
                 bnd (flip_byte off step (int epos1) err1 sector) (\<lambda>s1.
                 bnd (flip_byte off step epos2 err2 s1) (\<lambda>s2. Inr (2, s2))))))
      else if sigma m 1 \<noteq> 0 \<and> sigma m 0 \<noteq> 0 then
        (let epos = int (lg (sigma m 1)) - int (lg (sigma m 0))
         in if 35 < epos then Inr (- 1, sector)
            else bnd (flip_byte off step epos (sigma m 1 XOR omega m 1) sector)
                   (\<lambda>s. Inr (1, s)))
      else Inr (- 1, sector))"

definition rs_decode_string :: "nat \<Rightarrow> nat \<Rightarrow> (nat \<Rightarrow> u8) \<Rightarrow> (int \<times> (nat \<Rightarrow> u8)) res" where
  "rs_decode_string off step sector =
     bnd (ecc_block sector off step) (\<lambda>ecc.
     bnd (get4 sector (off + 32 * step) step) (\<lambda>ref_ecc.
       if ref_ecc = ecc then Inr (0, sector)
       else
         bnd (syndromes sector off step) (\<lambda>syn.
         bnd (berlekamp_massey syn) (\<lambda>m. fix_errors off step sector m))))"

section \<open>Sectors\<close>

definition memmove :: "nat \<Rightarrow> nat \<Rightarrow> nat \<Rightarrow> (nat \<Rightarrow> u8) \<Rightarrow> (nat \<Rightarrow> u8) res" where
  "memmove dst src n a =
     (if dst + n \<le> RS_BYTES \<and> src + n \<le> RS_BYTES
      then Inr (\<lambda>k. if dst \<le> k \<and> k < dst + n then a (src + (k - dst)) else a k)
      else Inl ArrayOOB)"

definition rs_encode :: "(nat \<Rightarrow> u8) \<Rightarrow> (nat \<Rightarrow> u8) res" where
  "rs_encode sector =
     bnd (each (\<lambda>i. memmove (36 * i) (32 * i) 32) (rev [1 ..< 32]) sector) (\<lambda>s1.
     bnd (each (\<lambda>i. rs_encode_string i 36) [0 ..< 32] s1) (\<lambda>s2.
     each (\<lambda>i. rs_encode_string (36 * i) 1) [0 ..< 36] s2))"

definition decode_row :: "nat \<Rightarrow> int \<times> (nat \<Rightarrow> u8) \<Rightarrow> (int \<times> (nat \<Rightarrow> u8)) res" where
  "decode_row i p =
     bnd (rs_decode_string (36 * i) 1 (snd p))
       (\<lambda>(e, s). Inr (if e \<noteq> - 1 then fst p + e else fst p, s))"

text \<open>The columns; the loop returns -1 at the first column it cannot correct.\<close>

fun decode_columns :: "nat list \<Rightarrow> int \<times> (nat \<Rightarrow> u8) \<Rightarrow> (int option \<times> (nat \<Rightarrow> u8)) res" where
  "decode_columns [] (c, s) = Inr (Some c, s)"
| "decode_columns (i # is) (c, s) =
     bnd (rs_decode_string i 36 s)
       (\<lambda>(e, s'). if e = - 1 then Inr (None, s') else decode_columns is (c + e, s'))"

definition rs_decode :: "(nat \<Rightarrow> u8) \<Rightarrow> (int \<times> (nat \<Rightarrow> u8)) res" where
  "rs_decode sector =
     bnd (each decode_row [0 ..< 36] (0, sector)) (\<lambda>(c, s1).
     bnd (decode_columns [0 ..< 32] (c, s1)) (\<lambda>(r, s2).
       case r of
         None \<Rightarrow> Inr (- 1, s2)
       | Some n \<Rightarrow>
           bnd (each (\<lambda>i. memmove (i * 32) (i * 36) 32) [1 ..< 32] s2) (\<lambda>s3. Inr (n, s3))))"

section \<open>The field\<close>

text \<open>Multiplication by 2 modulo the field polynomial, and by powers of 2.\<close>

definition xtime :: "u8 \<Rightarrow> u8" where
  "xtime v = push_bit 1 v XOR (if bit v 7 then 0x1d else 0)"

abbreviation xt :: "nat \<Rightarrow> u8 \<Rightarrow> u8" where
  "xt n \<equiv> (xtime ^^ n)"

lemma xtime_xor: "xtime (a XOR b) = xtime a XOR xtime b"
proof -
  have p: "push_bit 1 (a XOR b) = push_bit 1 a XOR push_bit 1 b"
    by (rule bit_word_eqI) (auto simp: bit_simps)
  show ?thesis unfolding xtime_def p by (simp add: bit_xor_iff xor.assoc xor.left_commute)
qed

lemma xtime_0 [simp]: "xtime 0 = 0"
  by (simp add: xtime_def)

lemma xt_0 [simp]: "xt n 0 = 0"
  by (induction n) simp_all

lemma xt_xor: "xt n (a XOR b) = xt n a XOR xt n b"
  by (induction n) (simp_all add: xtime_xor)

lemma xt_xt: "xt m (xt n v) = xt (m + n) v"
  by (simp add: funpow_add)

text \<open>The table of powers, checked entry by entry.\<close>

fun chain :: "u8 list \<Rightarrow> bool" where
  "chain (a # b # r) = (b = xtime a \<and> chain (b # r))"
| "chain _ = True"

lemma chain_nth: "chain xs \<Longrightarrow> Suc n < length xs \<Longrightarrow> xs ! Suc n = xtime (xs ! n)"
  by (induction xs arbitrary: n rule: chain.induct) (auto simp: nth_Cons split: nat.splits)

lemma t_exp_chain: "chain t_exp"
  by (simp add: t_exp_def xtime_def)

lemma t_exp_length: "length t_exp = 768"
  by (simp add: t_exp_def)

lemma t_exp_nth: "n < 768 \<Longrightarrow> t_exp ! n = xt n 1"
proof (induction n)
  case 0
  show ?case by (simp add: t_exp_def)
next
  case (Suc n)
  then show ?case using chain_nth [OF t_exp_chain, of n] by (simp add: t_exp_length)
qed

text \<open>The table of logarithms, by its inverse.\<close>

fun counts :: "u8 \<Rightarrow> u8 list \<Rightarrow> bool" where
  "counts v [] = True"
| "counts v (x # xs) = (x = v \<and> counts (v + 1) xs)"

lemma counts_nth: "counts v xs \<Longrightarrow> n < length xs \<Longrightarrow> xs ! n = v + of_nat n"
  by (induction xs arbitrary: n v) (auto simp: nth_Cons split: nat.splits)

lemma t_log_inverse: "counts 1 (map (\<lambda>l. t_exp ! unat l) (tl t_log))"
  by (simp add: t_log_def t_exp_def)

lemma t_log_length: "length t_log = 256"
  by (simp add: t_log_def)

lemma t_log_bound: "\<forall>l \<in> set t_log. l \<noteq> 255"
  by (simp add: t_log_def)

lemma unat_u8: "unat (v :: u8) < 256"
  using unsigned_less [of v] by simp

lemma lg_bound: "lg v < 255"
proof -
  let ?l = "t_log ! unat v"
  have "?l \<in> set t_log" using unat_u8 by (simp add: t_log_length)
  then have "?l \<noteq> 255" using t_log_bound by blast
  then have "unat ?l \<noteq> unat (255 :: u8)" using word_unat_eq_iff by blast
  then show ?thesis using unat_u8 [of ?l] by (simp add: lg_def)
qed

lemma xt_lg: assumes "v \<noteq> 0" shows "xt (lg v) 1 = v"
proof -
  let ?n = "unat v - 1"
  have v: "0 < unat v" "unat v < 256" using assms unat_u8 by (simp_all add: unat_gt_0)
  then have n: "?n < length (tl t_log)" by (simp add: t_log_length)
  have "map (\<lambda>l. t_exp ! unat l) (tl t_log) ! ?n = 1 + of_nat ?n"
    using counts_nth [OF t_log_inverse, of ?n] n by simp
  also have "\<dots> = of_nat (Suc ?n)" by simp
  also have "\<dots> = v" using v(1) by simp
  finally have "t_exp ! unat (tl t_log ! ?n) = v" using n by simp
  moreover have "tl t_log ! ?n = t_log ! unat v"
    using v by (simp add: nth_tl t_log_length)
  ultimately have "t_exp ! lg v = v" by (simp add: lg_def)
  then show ?thesis using lg_bound [of v] by (simp add: t_exp_nth)
qed

lemma xt_period: "xt 255 1 = 1"
  using t_exp_nth [of 255] by (simp add: t_exp_def)

text \<open>Multiplication through the tables.\<close>

lemma t_exp_at_lg:
  assumes "v \<noteq> 0" "lg v + n < 768"
  shows "t_exp_at (lg v + n) = Inr (xt n v)"
proof -
  have "xt (lg v + n) 1 = xt n (xt (lg v) 1)" by (simp add: xt_xt add.commute)
  with assms show ?thesis by (simp add: t_exp_at_def t_exp_nth xt_lg)
qed

lemma mac_xt: "n < 514 \<Longrightarrow> mac a n acc = Inr (acc XOR xt n a)"
  using lg_bound [of a] by (simp add: mac_def t_exp_at_lg)

section \<open>The check bytes are a polynomial remainder\<close>

text \<open>The value at \<open>2 ^ k\<close> of the polynomial whose four coefficients are the bytes of a word.\<close>

definition byte_of :: "nat \<Rightarrow> u32 \<Rightarrow> u8" where
  "byte_of i r = ucast (drop_bit (8 * i) r)"

definition eval4 :: "nat \<Rightarrow> u32 \<Rightarrow> u8" where
  "eval4 k r = xt (3 * k) (byte_of 3 r) XOR xt (2 * k) (byte_of 2 r) XOR xt k (byte_of 1 r) XOR byte_of 0 r"

lemma byte_of_xor: "byte_of i (a XOR b) = byte_of i a XOR byte_of i b"
  unfolding byte_of_def by (rule bit_word_eqI) (auto simp: bit_simps)

lemma eval4_xor: "eval4 k (a XOR b) = eval4 k a XOR eval4 k b"
  by (simp add: eval4_def byte_of_xor xt_xor xor.assoc xor.left_commute xor.commute)

lemma byte_of_ucast: "byte_of i (ucast (v :: u8)) = (if i = 0 then v else 0)"
proof (rule bit_word_eqI)
  fix n assume "n < LENGTH(8)"
  then show "bit (byte_of i (ucast v)) n = bit (if i = 0 then v else 0) n"
    using bit_imp_le_length [of v "8 * i + n"] by (auto simp: byte_of_def bit_simps)
qed

lemma eval4_byte: "eval4 k (ucast (v :: u8)) = v"
  by (simp add: eval4_def byte_of_ucast)

lemma byte_of_shift: "i < 4 \<Longrightarrow> byte_of i (push_bit 8 r) = (if i = 0 then 0 else byte_of (i - 1) r)"
  unfolding byte_of_def
  by (rule bit_word_eqI) (auto simp: bit_simps algebra_simps diff_mult_distrib2)

lemma byte_of_be4:
  "byte_of 3 (be4 a b c d) = a" "byte_of 2 (be4 a b c d) = b" "byte_of 1 (be4 a b c d) = c"
  "byte_of 0 (be4 a b c d) = d"
  unfolding byte_of_def be4_def
  by (rule bit_word_eqI; auto simp: bit_simps dest: bit_imp_le_length)+

text \<open>The table of remainders is spanned by the remainders of the eight single bits.\<close>

definition doubled :: "'a::len word \<Rightarrow> 'a word list \<Rightarrow> 'a word list" where
  "doubled c s = s @ map ((XOR) c) s"

fun xor_span :: "'a::len word list \<Rightarrow> 'a word list" where
  "xor_span [] = [0]"
| "xor_span (c # cs) = doubled c (xor_span cs)"

lemma xor_span_pairs:
  assumes "list_all2 P cs ds" "P 0 0" "\<And>a b c d. P a c \<Longrightarrow> P b d \<Longrightarrow> P (a XOR b) (c XOR d)"
  shows "list_all2 P (xor_span cs) (xor_span ds)"
  using assms(1)
proof (induction rule: list_all2_induct)
  case Nil
  show ?case using assms(2) by simp
next
  case (Cons c cs d ds)
  have "list_all2 P (map ((XOR) c) (xor_span cs)) (map ((XOR) d) (xor_span ds))"
    using Cons.IH Cons.hyps assms(3) by (auto simp: list.rel_map elim!: list_all2_mono)
  with Cons.IH show ?case by (simp add: doubled_def list_all2_appendI)
qed

lemma t_rem_span:
  "t_rem = xor_span [0xd302d687, 0xe7016bcd, 0xfd8ebbe8, 0xf047d374, 0x78ade73a, 0x3cd8fd1d, 0x1e6cf080, 0x0f367840]"
  by (simp add: t_rem_def doubled_def)

lemma bytes_span: "counts 0 (xor_span [0x80, 0x40, 0x20, 0x10, 8, 4, 2, 1])"
  by (simp add: doubled_def)

lemma t_rem_length: "length t_rem = 256"
  by (simp add: t_rem_def)

lemma xt_step: "xt (numeral n) v = xt (pred_numeral n) (xtime v)" "xt (Suc 0) v = xtime v"
  by (simp_all add: numeral_eq_Suc funpow_Suc_right del: funpow.simps)

lemma eval4_t_rem:
  assumes "k < 4"
  shows "eval4 k (t_rem ! unat v) = xt (4 * k) (v :: u8)"
proof -
  let ?P = "\<lambda>r v. eval4 k r = xt (4 * k) v"
  have k: "k = 0 \<or> k = 1 \<or> k = 2 \<or> k = 3" using assms by linarith
  have "list_all2 ?P [0xd302d687, 0xe7016bcd, 0xfd8ebbe8, 0xf047d374, 0x78ade73a, 0x3cd8fd1d, 0x1e6cf080, 0x0f367840]
    [0x80, 0x40, 0x20, 0x10, 8, 4, 2, 1]"
    unfolding list_all2_Cons list_all2_Nil using k
    by (elim disjE) (simp_all add: eval4_def byte_of_def xt_step xtime_def del: funpow.simps)
  then have a: "list_all2 ?P t_rem (xor_span [0x80, 0x40, 0x20, 0x10, 8, 4, 2, 1])"
    unfolding t_rem_span
    by (rule xor_span_pairs) (simp_all add: eval4_xor xt_xor, simp add: eval4_def byte_of_def)
  then have l: "length (xor_span [0x80, 0x40, 0x20, 0x10, 8, 4, 2, 1 :: u8]) = 256"
    by (metis list_all2_lengthD t_rem_length)
  have "xor_span [0x80, 0x40, 0x20, 0x10, 8, 4, 2, 1] ! unat v = (0 :: u8) + of_nat (unat v)"
    using unat_u8 [of v] by (intro counts_nth bytes_span) (simp only: l)
  with list_all2_nthD [OF a, of "unat v"] show ?thesis using unat_u8 [of v] by (simp add: t_rem_length)
qed

lemma top_byte: "unat (drop_bit 24 (r :: u32)) = unat (byte_of 3 r)"
proof -
  have "unat (drop_bit 24 r) < 256"
    using unsigned_less [of r, where ?'a = nat] by (simp add: drop_bit_eq_div unat_div_distrib div_less_iff_less_mult)
  then show ?thesis by (simp add: byte_of_def unsigned_ucast_eq take_bit_nat_eq_self)
qed

lemma eval4_step: "k < 4 \<Longrightarrow> eval4 k (t_rem ! unat (drop_bit 24 r) XOR push_bit 8 r) = xt k (eval4 k r)"
proof -
  have n: "k + 3 * k = 4 * k" "k + 2 * k = 3 * k" "k + k = 2 * k" by simp_all
  assume "k < 4"
  then show ?thesis unfolding eval4_xor top_byte
    by (simp add: eval4_t_rem) (simp add: eval4_def byte_of_shift xt_xor xt_xt n)
qed

text \<open>Values of the string of 36 bytes as a polynomial, highest coefficient first.\<close>

fun horner :: "nat \<Rightarrow> (nat \<Rightarrow> u8) \<Rightarrow> nat \<Rightarrow> u8" where
  "horner k f 0 = 0"
| "horner k f (Suc n) = xt k (horner k f n) XOR f n"

lemma horner_cong: "(\<And>j. j < n \<Longrightarrow> f j = g j) \<Longrightarrow> horner k f n = horner k g n"
  by (induction n) simp_all

lemma horner_flip:
  "horner k (f(p := f p XOR e)) n = horner k f n XOR (if p < n then xt (k * (n - 1 - p)) e else 0)"
proof (induction n)
  case (Suc n)
  have "p < n \<Longrightarrow> n - p = Suc (n - 1 - p)" by simp
  then show ?case using Suc
    by (auto simp: xt_xor xt_xt xor.assoc xor.left_commute xor.commute less_Suc_eq)
qed simp

fun ecc_steps :: "(nat \<Rightarrow> u8) \<Rightarrow> nat \<Rightarrow> nat \<Rightarrow> u32 \<Rightarrow> u32" where
  "ecc_steps f i 0 r = r"
| "ecc_steps f i (Suc n) r =
     (let r1 = t_rem ! unat (drop_bit 24 r) XOR push_bit 8 r
      in ecc_steps f (i + 1) n (if i < 32 then r1 XOR ucast (f i) else r1))"

definition ecc_word :: "(nat \<Rightarrow> u8) \<Rightarrow> u32" where
  "ecc_word f = ecc_steps f 4 32 (be4 (f 0) (f 1) (f 2) (f 3))"

definition ref_word :: "(nat \<Rightarrow> u8) \<Rightarrow> u32" where
  "ref_word f = be4 (f 32) (f 33) (f 34) (f 35)"

text \<open>The string at \<open>off\<close> with distance \<open>step\<close>, and whether it lies in the sector.\<close>

definition str :: "(nat \<Rightarrow> u8) \<Rightarrow> nat \<Rightarrow> nat \<Rightarrow> nat \<Rightarrow> u8" where
  "str sector off step j = sector (off + step * j)"

definition fits :: "nat \<Rightarrow> nat \<Rightarrow> bool" where
  "fits off step \<longleftrightarrow> off + step * 35 < RS_BYTES"

lemma fits_less: "fits off step \<Longrightarrow> j \<le> 35 \<Longrightarrow> off + step * j < RS_BYTES"
  using mult_le_mono2 [of j 35 step] unfolding fits_def by linarith

lemma ecc_loop_str:
  assumes "fits off step"
  shows "i + n \<le> 36 \<Longrightarrow> (i < 32 \<longrightarrow> p = off + step * i) \<Longrightarrow>
    ecc_loop sector p step i n r = Inr (ecc_steps (str sector off step) i n r)"
proof (induction n arbitrary: i p r)
  case (Suc n)
  show ?case
  proof (cases "i < 32")
    case True
    then have "p < RS_BYTES" "p + step = off + step * Suc i"
      using fits_less [OF assms, of i] Suc.prems by simp_all
    then show ?thesis using True Suc by (simp add: Let_def str_def)
  next
    case False
    then show ?thesis using Suc by (simp add: Let_def)
  qed
qed simp

lemma get4_str:
  assumes "fits off step" "j \<le> 32"
  shows "get4 sector (off + step * j) step =
    (let f = str sector off step in Inr (be4 (f j) (f (j + 1)) (f (j + 2)) (f (j + 3))))"
proof -
  have p: "off + step * j + step = off + step * (j + 1)" "off + step * j + 2 * step = off + step * (j + 2)"
    "off + step * j + 3 * step = off + step * (j + 3)"
    by (simp_all add: algebra_simps)
  have "arr_get RS_BYTES sector (off + step * i) = Inr (str sector off step i)" if "i \<le> 35" for i
    using fits_less [OF assms(1) that] by (simp add: str_def)
  then show ?thesis using assms(2) by (simp only: get4_def p) (simp add: Let_def)
qed

lemma ecc_block_str: "fits off step \<Longrightarrow> ecc_block sector off step = Inr (ecc_word (str sector off step))"
  using get4_str [of off step 0 sector] ecc_loop_str [of off step 4 32 "off + step * 4" sector]
  by (simp add: ecc_block_def ecc_word_def Let_def mult.commute numeral_2_eq_2)

lemma ecc_steps_eval:
  assumes "k < 4" "\<And>j. g j = (if j < 32 then f j else 0)"
  shows "eval4 k r = horner k g i \<Longrightarrow> eval4 k (ecc_steps f i n r) = horner k g (i + n)"
proof (induction n arbitrary: i r)
  case (Suc n)
  let ?r1 = "t_rem ! unat (drop_bit 24 r) XOR push_bit 8 r"
  have "eval4 k (if i < 32 then ?r1 XOR ucast (f i) else ?r1) = horner k g (Suc i)"
    using Suc.prems assms(2) [of i] by (auto simp: eval4_step [OF assms(1)] eval4_xor [of k "?r1"] eval4_byte)
  from Suc.IH [OF this] show ?case by (simp add: Let_def)
qed simp

lemma eval4_be4:
  "eval4 k (be4 a b c d) = xt (3 * k) a XOR xt (2 * k) b XOR xt k c XOR d"
  by (simp add: eval4_def byte_of_be4 del: One_nat_def)

lemma horner_4: "horner k f (n + 4) = xt (4 * k) (horner k f n) XOR eval4 k (be4 (f n) (f (n + 1)) (f (n + 2)) (f (n + 3)))"
proof -
  have "n + 4 = Suc (Suc (Suc (Suc n)))" "n + 1 = Suc n" "n + 2 = Suc (Suc n)" "n + 3 = Suc (Suc (Suc n))"
    by simp_all
  then show ?thesis
    by (simp add: eval4_be4 xt_xor xt_xt xor.assoc algebra_simps numeral_eq_Suc)
qed

lemma ecc_word_eval:
  assumes "k < 4"
  shows "eval4 k (ecc_word f) = xt (4 * k) (horner k f 32)"
proof -
  let ?g = "\<lambda>j. if j < 32 then f j else 0"
  have "eval4 k (be4 (f 0) (f 1) (f 2) (f 3)) = horner k ?g 4"
    using horner_4 [of k ?g 0] by (simp add: numeral_2_eq_2)
  then have "eval4 k (ecc_word f) = horner k ?g 36"
    using ecc_steps_eval [OF assms, of ?g f _ 4 32] by (simp add: ecc_word_def)
  also have "\<dots> = xt (4 * k) (horner k ?g 32)"
    using horner_4 [of k ?g 32] by (simp add: eval4_be4)
  also have "horner k ?g 32 = horner k f 32" by (rule horner_cong) simp
  finally show ?thesis .
qed

text \<open>The strings whose check bytes are right have the four roots.\<close>

lemma codeword_roots:
  assumes "ecc_word f = ref_word f" "k < 4"
  shows "horner k f 36 = 0"
  using horner_4 [of k f 32] ecc_word_eval [OF assms(2), of f] assms(1) by (simp add: ref_word_def)

section \<open>Syndromes\<close>

text \<open>The four syndromes after the first \<open>m\<close> bytes from the end.\<close>

fun syn_acc :: "nat \<Rightarrow> (nat \<Rightarrow> u8) \<Rightarrow> nat \<Rightarrow> u8" where
  "syn_acc k f 0 = 0"
| "syn_acc k f (Suc m) = syn_acc k f m XOR xt (k * m) (f (35 - m))"

definition syn_of :: "u8 \<Rightarrow> u8 \<Rightarrow> u8 \<Rightarrow> u8 \<Rightarrow> nat \<Rightarrow> u8" where
  "syn_of a b c d = (\<lambda>_. 0)(0 := 1, 1 := a, 2 := b, 3 := c, 4 := d)"

lemma syndrome_loop:
  assumes "fits off step"
  shows "m \<le> 36 \<Longrightarrow> each (syndrome_step sector off step) [0 ..< m] ((\<lambda>_. 0)(0 := 1)) =
    (let f = str sector off step
     in Inr (syn_of (syn_acc 0 f m) (syn_acc 1 f m) (syn_acc 2 f m) (syn_acc 3 f m)))"
proof (induction m)
  case 0
  show ?case by (auto simp: syn_of_def Let_def fun_eq_iff)
next
  case (Suc m)
  let ?v = "sector (off + step * (35 - m))"
  have p: "off + step * (35 - m) < RS_BYTES" using fits_less [OF assms, of "35 - m"] by simp
  have "?v \<noteq> 0 \<Longrightarrow> n < 513 \<Longrightarrow> t_exp_at (lg ?v + n) = Inr (xt n ?v)" for n
    using lg_bound [of ?v] by (simp add: t_exp_at_lg)
  then show ?case using Suc p
    by (auto simp: each_append syndrome_step_def Let_def str_def syn_of_def fun_upd_twist)
qed

lemma horner_syn:
  "m \<le> 36 \<Longrightarrow> horner k f 36 = xt (k * m) (horner k f (36 - m)) XOR syn_acc k f m"
proof (induction m)
  case (Suc m)
  then have "36 - m = Suc (35 - m)" by simp
  then show ?case using Suc by (simp add: xt_xor xt_xt xor.assoc xor.commute xor.left_commute add.commute)
qed simp

lemma syndromes_str:
  assumes "fits off step"
  shows "syndromes sector off step =
    (let f = str sector off step
     in Inr (syn_of (horner 0 f 36) (horner 1 f 36) (horner 2 f 36) (horner 3 f 36)))"
  using syndrome_loop [OF assms, of 36 sector] horner_syn [of 36]
  by (simp add: syndromes_def Let_def)

section \<open>Correction of a single error\<close>

text \<open>The iteration on the syndromes of one error \<open>e\<close> at distance \<open>i\<close> from the end.\<close>

lemma xt_inverse: "e \<noteq> 0 \<Longrightarrow> xt (255 - lg e) e = 1"
proof -
  assume e: "e \<noteq> 0"
  have "xt (255 - lg e) (xt (lg e) 1) = 1" using lg_bound [of e] by (simp add: xt_xt xt_period)
  then show ?thesis using e by (simp add: xt_lg)
qed

lemma xt_nonzero: "xt n v = 0 \<longleftrightarrow> v = 0"
proof
  assume z: "xt n v = 0"
  have "xt (255 * m) w = w" for m w
  proof (cases "w = 0")
    case False
    have p: "xt (255 * m) 1 = 1" for m
      by (induction m) (simp_all add: xt_xt [symmetric] xt_period)
    have "xt (255 * m) (xt (lg w) 1) = xt (lg w) (xt (255 * m) 1)" by (simp only: xt_xt add.commute)
    with False show ?thesis by (simp add: p xt_lg)
  qed simp
  then have "v = xt (255 * n) v" by simp
  also have "\<dots> = xt (254 * n) (xt n v)" by (simp add: xt_xt)
  finally show "v = 0" using z by simp
qed simp

lemma not_lg: "unat ((of_nat (lg v) :: u8) XOR 255) = 255 - lg v"
proof -
  have "lg v < 256" using lg_bound [of v] by simp
  then have "unat (of_nat (lg v) :: u8) = lg v" by (simp add: unat_of_nat take_bit_nat_eq_self)
  moreover have "(x :: u8) XOR 255 = 255 - x" for x
  proof -
    have "(255 :: u8) = - 1" by simp
    then have "x XOR 255 = x XOR - 1" by (simp only:)
    also have "\<dots> = NOT x" by (rule bit_word_eqI) (simp add: bit_simps)
    also have "\<dots> = 255 - x" by (simp add: not_eq_complement)
    finally show ?thesis .
  qed
  ultimately show ?thesis using lg_bound [of v] by (simp add: unat_sub word_le_nat_alt)
qed

lemma t_exp_at_lg_lg: "a \<noteq> 0 \<Longrightarrow> t_exp_at (lg a + lg b) = Inr (xt (lg b) a)"
  using lg_bound [of a] lg_bound [of b] by (simp add: t_exp_at_lg)

text \<open>Every byte but 0 is one of the first 255 powers of 2, so these are all different.\<close>

lemma powers_inj: "inj_on (\<lambda>n. xt n 1) {..< 255}"
proof (rule eq_card_imp_inj_on)
  have "(UNIV :: u8 set) - {0} = (\<lambda>n. xt n 1) ` {..< 255}"
  proof (intro set_eqI iffI)
    fix v :: u8 assume "v \<in> UNIV - {0}"
    then have "v = xt (lg v) 1" by (simp add: xt_lg)
    then show "v \<in> (\<lambda>n. xt n 1) ` {..< 255}" using lg_bound [of v] by blast
  qed (auto simp: xt_nonzero)
  moreover have "card ((UNIV :: u8 set) - {0}) = 255" by (simp add: card_word)
  ultimately show "card ((\<lambda>n. xt n 1) ` {..< 255}) = card {..< 255 :: nat}" by simp
qed simp

lemma lg_power: assumes "n < 255" shows "lg (xt n 1) = n"
proof -
  have "xt n 1 \<noteq> 0" by (simp add: xt_nonzero)
  then have "xt (lg (xt n 1)) 1 = xt n 1" by (rule xt_lg)
  then show ?thesis using inj_onD [OF powers_inj, of "lg (xt n 1)" n] assms lg_bound by simp
qed

lemma xor_zeroD: "a XOR b = 0 \<Longrightarrow> a = (b :: 'a::len word)"
  by (metis xor.assoc xor_self_eq xor.left_neutral xor.right_neutral)

text \<open>
  The iteration on the syndromes of one error \<open>e\<close> at distance \<open>i\<close> from the end: the locator is
  \<open>1 + 2 ^ i * x\<close> and the two polynomials differ by \<open>e\<close> in their linear coefficient.
\<close>

lemma bm_single:
  assumes e: "e \<noteq> 0" and i: "i < 255"
  shows "\<exists>m. berlekamp_massey (syn_of e (xt i e) (xt (2 * i) e) (xt (3 * i) e)) = Inr m \<and>
    sigma m 0 = 1 \<and> sigma m 1 = xt i 1 \<and> sigma m 2 = 0 \<and> sigma m 3 = 0 \<and> sigma m 4 = 0 \<and>
    omega m 1 = xt i 1 XOR e"
proof -
  let ?syn = "syn_of e (xt i e) (xt (2 * i) e) (xt (3 * i) e)"
  let ?f = "xt (255 - lg e) 1"
  let ?delta = "xt i e XOR xt (lg e) e"
  have lg1: "lg 1 = 0" using lg_power [of 0] by simp
  have le: "xt (lg e) 1 = e" using xt_lg [OF e] .
  have l: "lg v < 514" "255 - lg v < 514" for v using lg_bound [of v] by simp_all
  have syn: "?syn 0 = 1" "?syn (Suc 0) = e" "?syn 2 = xt i e" "?syn 3 = xt (2 * i) e" "?syn 4 = xt (3 * i) e"
    by (simp_all add: syn_of_def)
  have steps: "[Suc 0 ..< 5] = [Suc 0, 2, 3, 4]" "[0 ..< 3] = [0, Suc 0, 2]" "[0 ..< 4] = [0, Suc 0, 2, 3]"
    "[0 ..< 5] = [0, Suc 0, 2, 3, 4]" "[Suc 0 ..< 3] = [Suc 0, 2]"
    by (simp_all add: upt_rec)
  let ?m1 = "\<lparr>sigma = (\<lambda>_. 0)(0 := 1, Suc 0 := e), omega = (\<lambda>_. 0)(0 := 1), tau = (\<lambda>_. 0)(0 := ?f),
    gamma = (\<lambda>_. 0)(0 := ?f), bm_d = 1, bm_b = True\<rparr>"
  note step_defs = bm_step_def bm_delta_def method_b_def method_a_def shift_up_def
    t_exp_at_lg_lg mac_xt l not_lg le Let_def fun_eq_iff
  have m1: "bm_step ?syn (Suc 0) bm_init = Inr ?m1"
    using e by (simp add: step_defs bm_init_def syn)
  have il: "xt (255 - lg e) e = 1" using xt_inverse [OF e] .
  have xc: "xt a (xt b v) = xt b (xt a v)" for a b v by (simp only: xt_xt add.commute)
  let ?good = "\<lambda>m. (sigma m = (\<lambda>_. 0)(0 := 1, Suc 0 := xt i 1)) \<and> omega m (Suc 0) = xt i 1 XOR e"
  have d2: "bm_delta ?syn 2 ?m1 = Inr ?delta"
    using e by (simp add: bm_delta_def syn t_exp_at_lg_lg steps le xt_lg xt_nonzero)
  obtain m2 where m2: "bm_step ?syn 2 ?m1 = Inr m2" "?good m2"
  proof (cases "?delta = 0")
    case True
    then have "xt (lg e) e = xt i e" by (rule xor_zeroD [symmetric])
    then have "xt (255 - lg e) (xt (lg e) e) = xt i (xt (255 - lg e) e)" by (simp only: xc)
    then have ei: "e = xt i 1" by (simp only: xc il le)
    have "bm_step ?syn 2 ?m1 = method_a 2 0 ?m1"
      using True by (simp add: bm_step_def d2)
    then show ?thesis using that ei by (simp add: method_a_def)
  next
    case False
    have "xt (lg ?delta) ?f = xt (255 - lg e) ?delta" by (simp only: xc [of "lg ?delta"] xt_lg [OF False])
    also have "\<dots> = xt i 1 XOR e" unfolding xt_xor using il le by (simp only: xc [of "255 - lg e"])
    finally have d: "xt (lg ?delta) ?f = xt i 1 XOR e" .
    have "bm_step ?syn 2 ?m1 = method_b 2 ?delta ?m1"
      using False by (simp add: bm_step_def d2)
    moreover have "(\<lambda>_. 0)(0 := 1, 2 := 0, Suc 0 := e XOR xt i 1 XOR e) = (\<lambda>_. 0)(0 := 1, Suc 0 := xt i 1)"
      by (simp add: fun_eq_iff xor.commute xor.left_commute)
    ultimately show ?thesis using that d e False by (simp add: method_b_def mac_xt l not_lg steps Let_def)
  qed
  have prod: "xt (lg v) (xt i 1) = xt i v" if "v \<noteq> 0" for v
    by (simp only: xc [of "lg v"] xt_lg [OF that])
  have nz: "xt n e \<noteq> 0" "xt n 1 \<noteq> 0" for n using e by (simp_all add: xt_nonzero)
  have pr: "xt (lg (xt i e)) (xt i 1) = xt (2 * i) e" "xt (lg (xt (2 * i) e)) (xt i 1) = xt (3 * i) e"
    using prod [OF nz(1), of i] prod [OF nz(1), of "2 * i"] by (simp_all add: xt_xt flip: mult_2)
  have d3: "bm_delta ?syn 3 m = Inr 0" "bm_delta ?syn 4 m = Inr 0" if "?good m" for m
    using that nz
    by (simp_all add: bm_delta_def syn t_exp_at_lg_lg xt_lg pr steps)
  have later: "\<exists>m'. bm_step ?syn 3 m = Inr m' \<and> ?good m'" "\<exists>m'. bm_step ?syn 4 m = Inr m' \<and> ?good m'"
    if "?good m" for m
    using d3 [OF that] that by (simp_all add: bm_step_def method_a_def Let_def)
  obtain m3 where m3: "bm_step ?syn 3 m2 = Inr m3" "?good m3" using later(1) [OF m2(2)] by blast
  obtain m4 where m4: "bm_step ?syn 4 m3 = Inr m4" "?good m4" using later(2) [OF m3(2)] by blast
  have "berlekamp_massey ?syn = Inr m4"
    by (simp add: berlekamp_massey_def steps m1 m2(1) m3(1) m4(1))
  with m4(2) show ?thesis by simp
qed

text \<open>A code word in the sector, and a sector in which one of its bytes is damaged.\<close>

definition codeword :: "nat \<Rightarrow> nat \<Rightarrow> (nat \<Rightarrow> u8) \<Rightarrow> bool" where
  "codeword off step s \<longleftrightarrow> ecc_word (str s off step) = ref_word (str s off step)"

lemma decode_codeword:
  assumes "fits off step" "codeword off step s"
  shows "rs_decode_string off step s = Inr (0, s)"
  using assms get4_str [of off step 32 s]
  by (simp add: rs_decode_string_def ecc_block_str codeword_def Let_def ref_word_def mult.commute)

lemma str_flip:
  assumes "0 < step"
  shows "str (s(off + step * p := s (off + step * p) XOR e)) off step =
    (str s off step)(p := str s off step p XOR e)"
  using assms by (auto simp: str_def fun_eq_iff)

lemma decode_single:
  assumes fit: "fits off step" "0 < step" and cw: "codeword off step s" and e: "e \<noteq> 0" and p: "p < 36"
  defines "x \<equiv> s(off + step * p := s (off + step * p) XOR e)"
  shows "rs_decode_string off step x = Inr (1, s)"
proof -
  let ?f = "str s off step" and ?i = "35 - p"
  have x: "str x off step = ?f(p := ?f p XOR e)" unfolding x_def by (rule str_flip [OF fit(2)])
  have h: "horner k (str x off step) 36 = xt (k * ?i) e" if "k < 4" for k
    using codeword_roots [OF cw [unfolded codeword_def] that] p by (simp add: x horner_flip)
  have "ecc_word (str x off step) \<noteq> ref_word (str x off step)"
    using codeword_roots [of "str x off step" 0] h [of 0] e by auto
  moreover have "syndromes x off step = Inr (syn_of e (xt ?i e) (xt (2 * ?i) e) (xt (3 * ?i) e))"
    using syndromes_str [OF fit(1), of x] h [of 0] h [of 1] h [of 2] h [of 3] by (simp add: Let_def)
  moreover obtain m where m: "berlekamp_massey (syn_of e (xt ?i e) (xt (2 * ?i) e) (xt (3 * ?i) e)) = Inr m"
    "sigma m 0 = 1" "sigma m 1 = xt ?i 1" "sigma m 2 = 0" "sigma m 3 = 0" "sigma m 4 = 0"
    "omega m 1 = xt ?i 1 XOR e"
  proof -
    have "?i < 255" by simp
    from bm_single [OF e this] show ?thesis using that by blast
  qed
  moreover have "fix_errors off step x m = Inr (1, s)"
  proof -
    have l: "lg (xt ?i 1) = ?i" "lg 1 = 0" using lg_power [of ?i] lg_power [of 0] by simp_all
    have "flip_byte off step (int ?i) e x = Inr s"
      using fits_less [OF fit(1), of p] p
      by (simp add: flip_byte_def x_def xor.assoc)
    moreover have "xt ?i 1 XOR (xt ?i 1 XOR e) = e" by (simp add: xor.assoc [symmetric])
    ultimately show ?thesis using m p by (simp add: fix_errors_def xt_nonzero l)
  qed
  ultimately show ?thesis
    using get4_str [OF fit(1), of 32 x]
    by (simp add: rs_decode_string_def ecc_block_str [OF fit(1)] Let_def ref_word_def mult.commute)
qed

section \<open>Encoding a sector\<close>

lemma codeword_cong:
  assumes "\<And>j. j < 36 \<Longrightarrow> s (off + step * j) = t (off + step * j)"
  shows "codeword off step s = codeword off step t"
proof -
  have steps: "i + n \<le> 36 \<Longrightarrow> ecc_steps (str s off step) i n r = ecc_steps (str t off step) i n r" for i n r
    using assms by (induction n arbitrary: i r) (simp_all add: str_def Let_def)
  show ?thesis
    using assms [of 0] assms [of 1] assms [of 2] assms [of 3] assms [of 32] assms [of 33]
      assms [of 34] assms [of 35] steps [of 4 32]
    by (simp add: codeword_def ecc_word_def ref_word_def str_def)
qed

lemma be4_bytes:
  "be4 (ucast (drop_bit 24 r)) (ucast (drop_bit 16 r)) (ucast (drop_bit 8 r)) (ucast r) = (r :: u32)"
proof (rule bit_word_eqI)
  fix n assume n: "n < LENGTH(32)"
  consider "n < 8" | "8 \<le> n \<and> n < 16" | "16 \<le> n \<and> n < 24" | "24 \<le> n" by linarith
  then show "bit (be4 (ucast (drop_bit 24 r)) (ucast (drop_bit 16 r)) (ucast (drop_bit 8 r)) (ucast r)) n = bit r n"
    using n by cases (auto simp: be4_def bit_simps)
qed

lemma encode_string_ok:
  assumes fit: "fits off step" "0 < step"
  shows "\<exists>t. rs_encode_string off step s = Inr t \<and> codeword off step t \<and>
    (\<forall>k. (\<forall>j. 32 \<le> j \<and> j < 36 \<longrightarrow> k \<noteq> off + step * j) \<longrightarrow> t k = s k)"
proof -
  define r where "r = ecc_word (str s off step)"
  define t where "t = s(off + step * 32 := ucast (drop_bit 24 r), off + step * 33 := ucast (drop_bit 16 r),
    off + step * 34 := ucast (drop_bit 8 r), off + step * 35 := ucast r)"
  have run: "rs_encode_string off step s = Inr t"
    using fits_less [OF fit(1), of 32] fits_less [OF fit(1), of 33] fits_less [OF fit(1), of 34]
      fits_less [OF fit(1), of 35]
    by (simp add: rs_encode_string_def ecc_block_str [OF fit(1)] mult.commute t_def r_def)
  have same: "t k = s k" if "\<forall>j. 32 \<le> j \<and> j < 36 \<longrightarrow> k \<noteq> off + step * j" for k
    using that [THEN spec [of _ 32]] that [THEN spec [of _ 33]] that [THEN spec [of _ 34]] that [THEN spec [of _ 35]]
    by (simp add: t_def)
  have data: "str t off step j = str s off step j" if "j < 32" for j
    unfolding str_def using that fit(2) by (intro same) auto
  have "ecc_steps (str t off step) i n v = ecc_steps (str s off step) i n v" for i n v
    by (induction n arbitrary: i v) (simp_all add: data Let_def)
  then have "ecc_word (str t off step) = r" by (simp add: ecc_word_def data r_def)
  moreover have "ref_word (str t off step) = r"
    using fit(2) by (simp add: ref_word_def str_def be4_bytes t_def)
  ultimately have "codeword off step t" by (simp add: codeword_def)
  with run same show ?thesis by blast
qed

text \<open>The rows spread out to their distance of 36.\<close>

lemma spread_rows:
  assumes "1 \<le> m" "m \<le> 32"
  shows "\<exists>t. each (\<lambda>i. memmove (36 * i) (32 * i) 32) (rev [m ..< 32]) d = Inr t \<and>
    (\<forall>k < 36 * m. t k = d k) \<and> (\<forall>i j. m \<le> i \<and> i < 32 \<and> j < 32 \<longrightarrow> t (36 * i + j) = d (32 * i + j))"
  using assms(2,1)
proof (induction rule: inc_induct)
  case (step m)
  then obtain t where t: "each (\<lambda>i. memmove (36 * i) (32 * i) 32) (rev [Suc m ..< 32]) d = Inr t"
    "\<forall>k < 36 * Suc m. t k = d k"
    "\<forall>i j. Suc m \<le> i \<and> i < 32 \<and> j < 32 \<longrightarrow> t (36 * i + j) = d (32 * i + j)"
    by auto
  let ?t = "\<lambda>k. if 36 * m \<le> k \<and> k < 36 * m + 32 then t (32 * m + (k - 36 * m)) else t k"
  have "memmove (36 * m) (32 * m) 32 t = Inr ?t" using step.hyps by (simp add: memmove_def)
  moreover have "rev [m ..< 32] = rev [Suc m ..< 32] @ [m]" using step.hyps by (simp add: upt_conv_Cons)
  ultimately have run: "each (\<lambda>i. memmove (36 * i) (32 * i) 32) (rev [m ..< 32]) d = Inr ?t"
    using t(1) by (simp add: each_append)
  have low: "\<forall>k < 36 * m. ?t k = d k" using t(2) by auto
  have "?t (36 * i + j) = d (32 * i + j)" if "m \<le> i" "i < 32" "j < 32" for i j
  proof (cases "i = m")
    case True
    then show ?thesis using that t(2) by simp
  next
    case False
    then have "36 * m + 32 \<le> 36 * i + j" using that by linarith
    then show ?thesis using False that t(3) by simp
  qed
  with run low show ?case by blast
qed auto

lemma encode_columns:
  "m \<le> 32 \<Longrightarrow> \<exists>t. each (\<lambda>i. rs_encode_string i 36) [0 ..< m] s = Inr t \<and>
    (\<forall>i < m. codeword i 36 t) \<and> (\<forall>k. k < 1152 \<or> m \<le> k mod 36 \<longrightarrow> t k = s k)"
proof (induction m)
  case (Suc m)
  then obtain t where t: "each (\<lambda>i. rs_encode_string i 36) [0 ..< m] s = Inr t" "\<forall>i < m. codeword i 36 t"
    "\<forall>k. k < 1152 \<or> m \<le> k mod 36 \<longrightarrow> t k = s k" by auto
  have "fits m 36" using Suc.prems by (simp add: fits_def)
  then obtain u where u: "rs_encode_string m 36 t = Inr u" "codeword m 36 u"
    "\<forall>k. (\<forall>j. 32 \<le> j \<and> j < 36 \<longrightarrow> k \<noteq> m + 36 * j) \<longrightarrow> u k = t k"
    using encode_string_ok [of m 36 t] by auto
  have frame: "u k = t k" if "k mod 36 \<noteq> m \<or> k < 1152" for k
  proof -
    have "k \<noteq> m + 36 * j" if "32 \<le> j" for j
      using that \<open>k mod 36 \<noteq> m \<or> k < 1152\<close> Suc.prems by auto
    then show ?thesis using u(3) by blast
  qed
  have "codeword i 36 u = codeword i 36 t" if "i < m" for i
    using that Suc.prems by (intro codeword_cong frame) simp
  with u(2) t(2) have "\<forall>i < Suc m. codeword i 36 u" by (auto simp: less_Suc_eq)
  moreover have "\<forall>k. k < 1152 \<or> Suc m \<le> k mod 36 \<longrightarrow> u k = s k" using frame t(3) by auto
  ultimately show ?case using t(1) u(1) by (simp add: each_append)
qed simp

lemma encode_rows:
  "m \<le> 36 \<Longrightarrow> \<exists>t. each (\<lambda>i. rs_encode_string (36 * i) 1) [0 ..< m] s = Inr t \<and>
    (\<forall>i < m. codeword (36 * i) 1 t) \<and> (\<forall>k. k mod 36 < 32 \<or> 36 * m \<le> k \<longrightarrow> t k = s k)"
proof (induction m)
  case (Suc m)
  then obtain t where t: "each (\<lambda>i. rs_encode_string (36 * i) 1) [0 ..< m] s = Inr t"
    "\<forall>i < m. codeword (36 * i) 1 t" "\<forall>k. k mod 36 < 32 \<or> 36 * m \<le> k \<longrightarrow> t k = s k" by auto
  have "fits (36 * m) 1" using Suc.prems by (simp add: fits_def)
  then obtain u where u: "rs_encode_string (36 * m) 1 t = Inr u" "codeword (36 * m) 1 u"
    "\<forall>k. (\<forall>j. 32 \<le> j \<and> j < 36 \<longrightarrow> k \<noteq> 36 * m + 1 * j) \<longrightarrow> u k = t k"
    using encode_string_ok [of "36 * m" 1 t] by auto
  have frame: "u k = t k" if "k mod 36 < 32 \<or> k < 36 * m \<or> 36 * Suc m \<le> k" for k
  proof -
    have "k \<noteq> 36 * m + 1 * j" if "32 \<le> j" "j < 36" for j
      using that \<open>k mod 36 < 32 \<or> k < 36 * m \<or> 36 * Suc m \<le> k\<close> by auto
    then show ?thesis using u(3) by blast
  qed
  have "codeword (36 * i) 1 u = codeword (36 * i) 1 t" if "i < m" for i
    using that by (intro codeword_cong frame) auto
  with u(2) t(2) have "\<forall>i < Suc m. codeword (36 * i) 1 u" by (auto simp: less_Suc_eq)
  moreover have "\<forall>k. k mod 36 < 32 \<or> 36 * Suc m \<le> k \<longrightarrow> u k = s k" using frame t(3) by auto
  ultimately show ?case using t(1) u(1) by (simp add: each_append)
qed simp

text \<open>An encoded sector: every row and every data column is a code word.\<close>

definition encoded :: "(nat \<Rightarrow> u8) \<Rightarrow> (nat \<Rightarrow> u8) \<Rightarrow> bool" where
  "encoded d s \<longleftrightarrow>
     (\<forall>i < 36. codeword (36 * i) 1 s) \<and> (\<forall>i < 32. codeword i 36 s) \<and>
     (\<forall>i < 32. \<forall>j < 32. s (36 * i + j) = d (32 * i + j))"

lemma rs_encode_encoded: "\<exists>s. rs_encode d = Inr s \<and> encoded d s"
proof -
  obtain s1 where s1: "each (\<lambda>i. memmove (36 * i) (32 * i) 32) (rev [1 ..< 32]) d = Inr s1"
    "\<forall>k < 36. s1 k = d k" "\<forall>i j. 1 \<le> i \<and> i < 32 \<and> j < 32 \<longrightarrow> s1 (36 * i + j) = d (32 * i + j)"
    using spread_rows [of 1 d] by auto
  obtain s2 where s2: "each (\<lambda>i. rs_encode_string i 36) [0 ..< 32] s1 = Inr s2" "\<forall>i < 32. codeword i 36 s2"
    "\<forall>k. k < 1152 \<or> 32 \<le> k mod 36 \<longrightarrow> s2 k = s1 k"
    using encode_columns [of 32 s1] by auto
  obtain s3 where s3: "each (\<lambda>i. rs_encode_string (36 * i) 1) [0 ..< 36] s2 = Inr s3"
    "\<forall>i < 36. codeword (36 * i) 1 s3" "\<forall>k. k mod 36 < 32 \<or> 1296 \<le> k \<longrightarrow> s3 k = s2 k"
    using encode_rows [of 36 s2] by auto
  have "codeword i 36 s3 = codeword i 36 s2" if "i < 32" for i
    using that s3(3) by (intro codeword_cong) simp
  with s2(2) have "\<forall>i < 32. codeword i 36 s3" by simp
  moreover have "s3 (36 * i + j) = d (32 * i + j)" if "i < 32" "j < 32" for i j
  proof -
    have "s3 (36 * i + j) = s2 (36 * i + j)" using that s3(3) by simp
    also have "\<dots> = s1 (36 * i + j)" using that s2(3) by simp
    also have "\<dots> = d (32 * i + j)" using that s1(2,3) by (cases "i = 0") simp_all
    finally show ?thesis .
  qed
  ultimately have "encoded d s3" using s3(2) by (simp add: encoded_def)
  moreover have "rs_encode d = Inr s3" using s1(1) s2(1) s3(1) by (simp add: rs_encode_def)
  ultimately show ?thesis by blast
qed

section \<open>Decoding a sector\<close>

text \<open>Row \<open>r\<close> differs between two sectors; it has at most one damaged byte.\<close>

definition row_damaged :: "(nat \<Rightarrow> u8) \<Rightarrow> (nat \<Rightarrow> u8) \<Rightarrow> nat \<Rightarrow> bool" where
  "row_damaged s x r \<longleftrightarrow> (\<exists>c < 36. x (36 * r + c) \<noteq> s (36 * r + c))"

definition one_per_row :: "(nat \<Rightarrow> u8) \<Rightarrow> (nat \<Rightarrow> u8) \<Rightarrow> bool" where
  "one_per_row s x \<longleftrightarrow> (\<forall>r < 36. \<exists>p < 36. \<forall>c < 36. c \<noteq> p \<longrightarrow> x (36 * r + c) = s (36 * r + c))"

definition repaired :: "nat \<Rightarrow> (nat \<Rightarrow> u8) \<Rightarrow> (nat \<Rightarrow> u8) \<Rightarrow> (nat \<Rightarrow> u8)" where
  "repaired m s x = (\<lambda>k. if k < 36 * m then s k else x k)"

lemma decode_row_ok:
  assumes m: "m < 36" and cw: "codeword (36 * m) 1 s" and one: "one_per_row s x"
  shows "rs_decode_string (36 * m) 1 (repaired m s x) =
    Inr (of_bool (row_damaged s x m), repaired (Suc m) s x)"
proof -
  let ?t = "repaired (Suc m) s x"
  have fit: "fits (36 * m) 1" using m by (simp add: fits_def)
  have cwt: "codeword (36 * m) 1 ?t"
    using cw by (subst codeword_cong [of ?t _ _ s]) (simp_all add: repaired_def)
  obtain p where p: "p < 36" "\<forall>c < 36. c \<noteq> p \<longrightarrow> x (36 * m + c) = s (36 * m + c)"
    using one m by (auto simp: one_per_row_def)
  let ?e = "x (36 * m + p) XOR s (36 * m + p)"
  have cancel: "b XOR (a XOR b) = a" for a b :: u8 by (metis xor.assoc xor.commute xor_self_eq xor.right_neutral)
  have split: "repaired m s x = ?t(36 * m + 1 * p := ?t (36 * m + 1 * p) XOR ?e)"
  proof
    fix k
    have "x k = s k" if "36 * m \<le> k" "k < 36 * Suc m" "k \<noteq> 36 * m + p"
      using p(2) [rule_format, of "k - 36 * m"] that by simp
    then show "repaired m s x k = (?t(36 * m + 1 * p := ?t (36 * m + 1 * p) XOR ?e)) k"
      using p(1) by (auto simp: repaired_def cancel)
  qed
  show ?thesis
  proof (cases "?e = 0")
    case True
    then have "x (36 * m + p) = s (36 * m + p)" by (rule xor_zeroD)
    then have "\<not> row_damaged s x m" using p by (auto simp: row_damaged_def)
    moreover have "repaired m s x = ?t" using split True by simp
    ultimately show ?thesis using decode_codeword [OF fit cwt] by simp
  next
    case False
    then have "row_damaged s x m" using p(1) by (auto simp: row_damaged_def)
    then show ?thesis
      using decode_single [OF fit _ cwt False p(1)] by (simp only: split [symmetric]) simp
  qed
qed

lemma decode_rows:
  assumes "\<And>i. i < 36 \<Longrightarrow> codeword (36 * i) 1 s" "one_per_row s x"
  shows "m \<le> 36 \<Longrightarrow> each decode_row [0 ..< m] (0, x) =
    Inr (int (card {r. r < m \<and> row_damaged s x r}), repaired m s x)"
proof (induction m)
  case 0
  show ?case by (simp add: repaired_def)
next
  case (Suc m)
  have "{r. r < Suc m \<and> row_damaged s x r} =
      (if row_damaged s x m then insert m {r. r < m \<and> row_damaged s x r} else {r. r < m \<and> row_damaged s x r})"
    by (auto simp: less_Suc_eq)
  then show ?case
    using Suc decode_row_ok [OF _ assms(1,2), of m]
    by (simp add: each_append decode_row_def)
qed

lemma decode_columns_ok:
  "(\<And>i. i \<in> set is \<Longrightarrow> i < 32 \<and> codeword i 36 s) \<Longrightarrow> decode_columns is (c, s) = Inr (Some c, s)"
proof (induction "is")
  case (Cons i "is")
  then have i: "i < 32" "codeword i 36 s" by simp_all
  then have "fits i 36" by (simp add: fits_def)
  with i Cons show ?case by (simp add: decode_codeword)
qed simp

lemma gather_rows:
  "1 \<le> m \<Longrightarrow> m \<le> 32 \<Longrightarrow> \<exists>t. each (\<lambda>i. memmove (i * 32) (i * 36) 32) [1 ..< m] s = Inr t \<and>
    (\<forall>i < m. \<forall>j < 32. t (32 * i + j) = s (36 * i + j)) \<and> (\<forall>k. 32 * m \<le> k \<longrightarrow> t k = s k)"
proof (induction m rule: dec_induct)
  case (step m)
  then obtain t where t: "each (\<lambda>i. memmove (i * 32) (i * 36) 32) [1 ..< m] s = Inr t"
    "\<forall>i < m. \<forall>j < 32. t (32 * i + j) = s (36 * i + j)" "\<forall>k. 32 * m \<le> k \<longrightarrow> t k = s k" by auto
  let ?u = "\<lambda>k. if m * 32 \<le> k \<and> k < m * 32 + 32 then t (m * 36 + (k - m * 32)) else t k"
  have "memmove (m * 32) (m * 36) 32 t = Inr ?u" using step.prems by (simp add: memmove_def)
  then have run: "each (\<lambda>i. memmove (i * 32) (i * 36) 32) [1 ..< Suc m] s = Inr ?u"
    using t(1) step.hyps by (simp add: each_append)
  have "?u (32 * i + j) = s (36 * i + j)" if "i < Suc m" "j < 32" for i j
  proof (cases "i = m")
    case True
    then show ?thesis using that t(3) [rule_format, of "m * 36 + j"] by (simp add: mult.commute)
  next
    case False
    then have "32 * i + j < m * 32" using that by linarith
    then show ?thesis using False that t(2) by simp
  qed
  moreover have "?u k = s k" if "32 * Suc m \<le> k" for k using that t(3) by simp
  ultimately show ?case using run by blast
qed simp

lemma rs_decode_repairs:
  assumes enc: "encoded d s" and one: "one_per_row s x"
  shows "\<exists>y. rs_decode x = Inr (int (card {r. r < 36 \<and> row_damaged s x r}), y) \<and> (\<forall>k < 1024. y k = d k)"
proof -
  let ?t = "repaired 36 s x"
  have rows: "each decode_row [0 ..< 36] (0, x) = Inr (int (card {r. r < 36 \<and> row_damaged s x r}), ?t)"
    using enc by (intro decode_rows one) (simp_all add: encoded_def)
  have "codeword i 36 ?t = codeword i 36 s" if "i < 32" for i
    using that by (intro codeword_cong) (simp add: repaired_def)
  then have cols: "decode_columns [0 ..< 32] (c, ?t) = Inr (Some c, ?t)" for c
    using enc by (intro decode_columns_ok) (simp add: encoded_def)
  obtain y where y: "each (\<lambda>i. memmove (i * 32) (i * 36) 32) [1 ..< 32] ?t = Inr y"
    "\<forall>i < 32. \<forall>j < 32. y (32 * i + j) = ?t (36 * i + j)"
    using gather_rows [of 32 ?t] by auto
  have "y k = d k" if "k < 1024" for k
  proof -
    have k: "k div 32 < 32" "k mod 32 < 32" "32 * (k div 32) + k mod 32 = k" using that by simp_all
    then have "y k = ?t (36 * (k div 32) + k mod 32)" using y(2) by metis
    also have "\<dots> = s (36 * (k div 32) + k mod 32)"
    proof -
      have "36 * (k div 32) + k mod 32 < 36 * 36" using k(1,2) by linarith
      then show ?thesis by (simp only: repaired_def if_True)
    qed
    also have "\<dots> = d k" using enc k by (metis encoded_def)
    finally show ?thesis .
  qed
  then show ?thesis using rows cols y(1) by (simp add: rs_decode_def)
qed

section \<open>No access leaves the sector or the tables\<close>

lemma bm_step_returns:
  assumes "1 \<le> l" "sigma m 0 = 1"
  shows "returns (\<lambda>m. sigma m 0 = 1) (bm_step syn l m)"
proof -
  have l: "lg v < 514" "255 - lg v < 514" for v using lg_bound [of v] by simp_all
  have d: "returns (\<lambda>_. True) (bm_delta syn l m)"
    unfolding bm_delta_def by (rule each_returns) (simp_all add: t_exp_at_lg_lg)
  have a: "returns (\<lambda>m. sigma m 0 = 1) (method_a l v m)" for v
  proof (cases "v = 0")
    case False
    show ?thesis unfolding method_a_def Let_def if_P [OF False]
      by (rule each_returns) (use assms(2) in \<open>auto simp: mac_xt l\<close>)
  qed (use assms(2) in \<open>simp add: method_a_def\<close>)
  have b: "returns (\<lambda>m. sigma m 0 = 1) (method_b l v m)" for v
    unfolding method_b_def Let_def
    by (rule each_returns) (use assms(2) in \<open>auto simp: mac_xt l not_lg\<close>)
  obtain v where "bm_delta syn l m = Inr v" using d by (auto simp: returns_iff)
  then show ?thesis using a b by (simp add: bm_step_def Let_def)
qed

lemma berlekamp_massey_returns: "returns (\<lambda>m. sigma m 0 = 1) (berlekamp_massey syn)"
  unfolding berlekamp_massey_def
  by (rule each_returns) (auto intro: bm_step_returns simp: bm_init_def Let_def)

lemma t_exp_at_returns: "n < 768 \<Longrightarrow> t_exp_at n = Inr (t_exp ! n)"
  by (simp add: t_exp_at_def)

lemma find_root_returns: "\<exists>r. find_root m epos n = Inr r"
proof (induction n arbitrary: epos)
  case (Suc n)
  have "255 - epos + lg (sigma m 1) < 768" "2 * (255 - epos) + lg (sigma m 2) < 768"
    using lg_bound [of "sigma m 1"] lg_bound [of "sigma m 2"] by simp_all
  then show ?case using Suc.IH [of "epos + 1"] by (simp add: t_exp_at_returns)
qed simp

lemma error_value_returns:
  assumes "0 \<le> epos" "epos \<le> 35" "0 \<le> other" "other \<le> 35"
  shows "\<exists>v. error_value m epos other = Inr v"
proof -
  have "nat (255 - epos) < 514" "nat (2 * (255 - epos)) < 514" "nat (255 + other - epos) < 768"
    using assms by simp_all
  moreover have "nat (255 + uint a - uint b) < 768" for a b :: u8
  proof -
    have "uint a < 256" "0 \<le> uint b" using uint_bounded [of a] by simp_all
    then show ?thesis by linarith
  qed
  ultimately show ?thesis by (simp add: error_value_def mac_xt t_exp_at_returns Let_def)
qed

lemma flip_byte_returns:
  assumes "fits off step" "0 \<le> epos"
  shows "\<exists>t. flip_byte off step epos err s = Inr t"
  using fits_less [OF assms(1), of "nat (35 - epos)"] assms(2) by (simp add: flip_byte_def Let_def)

lemma fix_errors_returns:
  assumes fit: "fits off step" and s0: "sigma m 0 = 1"
  shows "\<exists>r. fix_errors off step s m = Inr r"
proof -
  have l1: "lg 1 = 0" using lg_power [of 0] by simp
  obtain e1 where e1: "find_root m 0 256 = Inr e1" using find_root_returns by blast
  let ?e = "int (lg (sigma m 2)) - int e1"
  let ?e2 = "if ?e < 0 then ?e + 255 else ?e"
  have two: "\<exists>r. bnd (error_value m (int e1) ?e2) (\<lambda>err1. bnd (error_value m ?e2 (int e1)) (\<lambda>err2.
      bnd (flip_byte off step (int e1) err1 s) (\<lambda>s1. bnd (flip_byte off step ?e2 err2 s1)
        (\<lambda>s2. Inr (2 :: int, s2))))) = Inr r"
    if "\<not> 35 < e1" "\<not> 35 < ?e2"
  proof -
    have b: "0 \<le> int e1" "int e1 \<le> 35" "0 \<le> ?e2" "?e2 \<le> 35" using that by simp_all
    obtain v1 v2 where "error_value m (int e1) ?e2 = Inr v1" "error_value m ?e2 (int e1) = Inr v2"
      using error_value_returns [OF b] error_value_returns [OF b(3,4,1,2)] by blast
    moreover obtain s1 where "flip_byte off step (int e1) v1 s = Inr s1"
      using flip_byte_returns [OF fit b(1)] by blast
    moreover obtain s2 where "flip_byte off step ?e2 v2 s1 = Inr s2"
      using flip_byte_returns [OF fit b(3)] by blast
    ultimately show ?thesis by simp
  qed
  have one: "\<exists>t. flip_byte off step (int (lg v)) err s = Inr t" for v err
    by (rule flip_byte_returns [OF fit]) simp
  show ?thesis
    using two one [of "sigma m 1" "sigma m 1 XOR omega m 1"]
    by (auto simp: fix_errors_def e1 s0 l1 Let_def)
qed

lemma rs_decode_string_returns:
  assumes fit: "fits off step"
  shows "\<exists>r. rs_decode_string off step s = Inr r"
proof -
  obtain m where m: "berlekamp_massey (syn_of (horner 0 (str s off step) 36) (horner 1 (str s off step) 36)
      (horner 2 (str s off step) 36) (horner 3 (str s off step) 36)) = Inr m" "sigma m 0 = 1"
    using berlekamp_massey_returns by (auto simp: returns_iff)
  show ?thesis
    using fix_errors_returns [OF fit m(2), of s] get4_str [OF fit, of 32 s] m(1)
    by (simp add: rs_decode_string_def ecc_block_str [OF fit] syndromes_str [OF fit] Let_def mult.commute)
qed

lemma decode_columns_returns:
  "(\<And>i. i \<in> set is \<Longrightarrow> i < 32) \<Longrightarrow> \<exists>r. decode_columns is p = Inr r"
proof (induction "is" arbitrary: p)
  case Nil
  show ?case by (cases p) simp
next
  case (Cons i "is")
  then have "i < 32" by simp
  then have "fits i 36" by (simp add: fits_def)
  then obtain e t where "rs_decode_string i 36 (snd p) = Inr (e, t)" using rs_decode_string_returns by fast
  then show ?case using Cons by (cases p) simp
qed

lemma rs_decode_returns: "\<exists>r. rs_decode x = Inr r"
proof -
  have "returns (\<lambda>_. True) (each decode_row [0 ..< 36] (0, x))"
  proof (rule each_returns)
    fix i :: nat and p :: "int \<times> (nat \<Rightarrow> u8)" assume "i \<in> set [0 ..< 36]"
    then have "fits (36 * i) 1" by (simp add: fits_def)
    then obtain e t where "rs_decode_string (36 * i) 1 (snd p) = Inr (e, t)"
      using rs_decode_string_returns by fast
    then show "returns (\<lambda>_. True) (decode_row i p)" by (simp add: decode_row_def)
  qed simp
  then obtain c s1 where "each decode_row [0 ..< 36] (0, x) = Inr (c, s1)" by (auto simp: returns_iff)
  moreover obtain r s2 where "decode_columns [0 ..< 32] (c, s1) = Inr (r, s2)"
    using decode_columns_returns [of "[0 ..< 32]" "(c, s1)"] by auto
  moreover obtain s3 where "each (\<lambda>i. memmove (i * 32) (i * 36) 32) [1 ..< 32] s2 = Inr s3"
    using gather_rows [of 32 s2] by auto
  ultimately show ?thesis by (cases r) (simp_all add: rs_decode_def)
qed

section \<open>Properties of the codec\<close>

text \<open>
  C5. Sector repair. Whatever 1024 bytes are encoded, a sector read back with at most one damaged
  byte in each of its 36 rows (up to 36 damaged bytes) decodes to the same 1024 bytes, and the
  result is the number of damaged rows.
\<close>
theorem sector_repaired:
  assumes "rs_encode d = Inr s" "one_per_row s x"
  shows "\<exists>y. rs_decode x = Inr (int (card {r. r < 36 \<and> row_damaged s x r}), y) \<and> (\<forall>k < 1024. y k = d k)"
  using assms rs_encode_encoded [of d] rs_decode_repairs by fastforce

lemma sector_repaired_witness:
  "\<exists>s. rs_encode (\<lambda>k. of_nat k) = Inr s \<and>
     (\<exists>y n. rs_decode (s(40 := s 40 + 1)) = Inr (n, y) \<and> (\<forall>k < 1024. y k = of_nat k))"
proof -
  obtain s where s: "rs_encode (\<lambda>k. of_nat k) = Inr s" using rs_encode_encoded by blast
  have "one_per_row s (s(40 := s 40 + 1))"
    unfolding one_per_row_def by (intro allI impI exI [of _ 4]; simp; presburger)
  from sector_repaired [OF s this] show ?thesis using s by blast
qed

text \<open>
  One error in a string. The encoder makes every string of 36 bytes of the sector a code word,
  whatever it held, and the decoder then restores it after any change of any one byte, check bytes
  included, and reports one error.
\<close>
theorem single_error_corrected:
  assumes "fits off step" "0 < step" "p < 36" "e \<noteq> 0"
  shows "\<exists>t. rs_encode_string off step s = Inr t \<and> rs_decode_string off step t = Inr (0, t) \<and>
    rs_decode_string off step (t(off + step * p := t (off + step * p) XOR e)) = Inr (1, t)"
proof -
  obtain t where t: "rs_encode_string off step s = Inr t" "codeword off step t"
    using encode_string_ok [OF assms(1,2)] by blast
  show ?thesis
    using t decode_codeword [OF assms(1) t(2)] decode_single [OF assms(1,2) t(2) assms(4,3)] by blast
qed

lemma single_error_corrected_witness:
  "\<exists>t. rs_encode_string 5 36 (\<lambda>k. of_nat k) = Inr t \<and> rs_decode_string 5 36 t = Inr (0, t) \<and>
    rs_decode_string 5 36 (t(5 + 36 * 7 := t (5 + 36 * 7) XOR 0x80)) = Inr (1, t)"
  by (rule single_error_corrected) (simp_all add: fits_def)

text \<open>
  Memory safety of the codec. For every content of the sector, the encoder and the decoder stay
  inside the 1296 bytes of the sector and the 768 entries of the table of powers, and return.
\<close>
theorem codec_stays_in_bounds: "(\<exists>s. rs_encode d = Inr s) \<and> (\<exists>r. rs_decode x = Inr r)"
  using rs_encode_encoded [of d] rs_decode_returns [of x] by blast

text \<open>
  The check bytes. The remainder register of the encoder, started with the first four bytes of
  a string, ends as four check bytes with which the string of 36 bytes is a polynomial that
  vanishes at 1, 2, 4 and 8, the roots of the generator: the table-driven division computes the
  Reed-Solomon remainder.
\<close>
theorem encoder_roots:
  assumes "fits off step" "0 < step" "k < 4"
  shows "\<exists>t. rs_encode_string off step s = Inr t \<and> horner k (\<lambda>j. t (off + step * j)) 36 = 0"
proof -
  obtain t where t: "rs_encode_string off step s = Inr t" "codeword off step t"
    using encode_string_ok [OF assms(1,2)] by blast
  have "horner k (str t off step) 36 = 0" using t(2) assms(3) by (simp add: codeword_def codeword_roots)
  moreover have "str t off step = (\<lambda>j. t (off + step * j))" by (simp add: str_def fun_eq_iff)
  ultimately show ?thesis using t(1) by simp
qed

lemma encoder_roots_witness:
  "\<exists>t. rs_encode_string 36 1 (\<lambda>k. of_nat k) = Inr t \<and> horner 2 (\<lambda>j. t (36 + 1 * j)) 36 = 0"
  by (rule encoder_roots) (simp_all add: fits_def)

section \<open>Two errors\<close>

lemma horner_zero: "horner k (\<lambda>_. 0) n = 0"
  by (induction n) simp_all

lemma ecc_steps_zero: "(\<And>j. j < 32 \<Longrightarrow> f j = 0) \<Longrightarrow> ecc_steps f i n 0 = 0"
proof (induction n arbitrary: i)
  case (Suc n)
  have "t_rem ! 0 = 0" by (simp add: t_rem_def)
  then show ?case using Suc by simp
qed simp

lemma ecc_word_zero: "(\<And>j. j < 32 \<Longrightarrow> f j = 0) \<Longrightarrow> ecc_word f = 0"
  by (simp add: ecc_word_def ecc_steps_zero be4_def)

lemma codeword_zero: "codeword off step (\<lambda>_. 0)"
  by (simp add: codeword_def ecc_word_zero str_def ref_word_def be4_def)

text \<open>The table entries that decoding two errors of value 1 in the last two bytes looks up.\<close>

lemma pair_lg: "lg 1 = 0" "lg 3 = 25" "lg 5 = 50" "lg 9 = 223" "lg 167 = 205" "lg 244 = 230"
  by (simp_all add: lg_def t_log_def)

lemma pair_exp:
  "t_exp_at 25 = Inr 3" "t_exp_at 50 = Inr 5" "t_exp_at 75 = Inr 15" "t_exp_at 205 = Inr 167"
  "t_exp_at 223 = Inr 9" "t_exp_at 230 = Inr 244" "t_exp_at 255 = Inr 1" "t_exp_at 280 = Inr 3"
  by (simp_all add: t_exp_at_def t_exp_def)

lemma bm_pair: "\<exists>m. berlekamp_massey (syn_of 0 3 5 9) = Inr m \<and> sigma m 3 \<noteq> 0"
proof -
  have steps: "[Suc 0 ..< 5] = [Suc 0, 2, 3, 4]" "[0 ..< 3] = [0, Suc 0, 2]" "[0 ..< 4] = [0, Suc 0, 2, 3]"
    "[0 ..< 5] = [0, Suc 0, 2, 3, 4]" "[Suc 0 ..< 3] = [Suc 0, 2]" "[Suc 0 ..< 4] = [Suc 0, 2, 3]"
    by (simp_all add: upt_rec)
  note defs = bm_step_def bm_delta_def method_b_def method_a_def shift_up_def mac_def pair_lg pair_exp
    syn_of_def Let_def steps fun_eq_iff
  let ?s = "syn_of 0 3 5 9"
  let ?z = "\<lambda>_ :: nat. 0 :: u8"
  let ?m1 = "\<lparr>sigma = ?z(0 := 1), omega = ?z(0 := 1), tau = ?z(Suc 0 := 1), gamma = ?z, bm_d = 0, bm_b = False\<rparr>"
  let ?m2 = "\<lparr>sigma = ?z(0 := 1, 2 := 3), omega = ?z(0 := 1), tau = ?z(0 := 244), gamma = ?z(0 := 244), bm_d = 2, bm_b = True\<rparr>"
  have "bm_step ?s (Suc 0) bm_init = Inr ?m1"
    by (simp add: defs bm_init_def)
  moreover have "bm_step ?s 2 ?m1 = Inr ?m2"
    by (simp add: defs)
  moreover let ?m3 = "\<lparr>sigma = ?z(0 := 1, 2 := 3, Suc 0 := 3), omega = ?z(0 := 1, Suc 0 := 3),
    tau = ?z(0 := 167, 2 := 244), gamma = ?z(0 := 167), bm_d = 1, bm_b = False\<rparr>"
  have "bm_step ?s 3 ?m2 = Inr ?m3"
    by (simp add: defs)
  moreover have "\<exists>m. bm_step ?s 4 ?m3 = Inr m \<and> sigma m 3 \<noteq> 0"
    by (simp add: defs)
  ultimately show ?thesis
    by (fastforce simp: berlekamp_massey_def steps)
qed

text \<open>
  Two errors of the same value. Two errors are within the distance of the code and the decoder
  has a branch for them, but its choice between the two update methods does not keep the length
  of the register: with the first syndrome 0 it ends with a locator of degree 3. The all-zero code
  word with its last two bytes changed to 1 is given up as uncorrectable.
\<close>
theorem equal_errors_uncorrected:
  "rs_decode_string 0 1 (\<lambda>_. 0) = Inr (0, \<lambda>_. 0) \<and>
   rs_decode_string 0 1 ((\<lambda>_. 0)(34 := 1, 35 := 1)) = Inr (- 1, (\<lambda>_. 0)(34 := 1, 35 := 1))"
proof -
  let ?z = "\<lambda>_ :: nat. 0 :: u8"
  let ?x = "?z(34 := 1, 35 := 1)"
  have fit: "fits 0 (Suc 0)" by (simp add: fits_def)
  have str: "str ?x 0 (Suc 0) = ?x" by (simp add: str_def fun_eq_iff)
  have flips: "?x = ?z(34 := ?z 34 XOR 1, 35 := (?z(34 := ?z 34 XOR 1)) 35 XOR 1)"
    by (simp add: fun_eq_iff)
  have syn: "horner k ?x 36 = xt k 1 XOR 1" for k
    by (subst flips, simp only: horner_flip, simp add: horner_zero horner_flip [of k ?z 34 1 36, simplified])
  obtain m where m: "berlekamp_massey (syn_of 0 3 5 9) = Inr m" "sigma m 3 \<noteq> 0" using bm_pair by blast
  have "xtime 1 XOR 1 = 3" "xt 2 1 XOR 1 = 5" "xt 3 1 XOR 1 = 9"
    by (simp_all add: xt_step xtime_def del: funpow.simps)
  then have "rs_decode_string 0 1 ?x = Inr (- 1, ?x)"
    using get4_str [OF fit, of 32 ?x] m
    by (simp add: rs_decode_string_def ecc_block_str [OF fit] syndromes_str [OF fit] str syn
        ecc_word_zero be4_def Let_def fix_errors_def)
  then show ?thesis using decode_codeword [OF fit codeword_zero] by simp
qed

end
