(* ===== verification/Mo.thy ===== *)
theory Mo
  imports Scsi_Disk Dma Reed_Solomon
begin

text \<open>
  The optical storage processor and its two magneto-optical drives (src/mo.c). The processor has two sector
  buffers, which take turns on the side of the disk and of memory (\<open>eccin\<close> and \<open>eccout\<close>, with the buffers in the
  state of the DMA controller), an error-correcting engine and a formatter. The drives spiral over their tracks: a timed event passes one sector
  after the other to the formatter, which acts when the sector it looks for comes by. Three timed events drive the
  machine: signals of the drives, passing sectors and the error-correcting engine.
\<close>

section \<open>State\<close>

datatype ecc_modes = ECC_MODE_READ | ECC_MODE_WRITE | ECC_MODE_VERIFY

datatype ecc_states = ECC_STATE_FILLING | ECC_STATE_DRAINING | ECC_STATE_ECCING | ECC_STATE_WAITING | ECC_STATE_DONE

datatype fmt_modes = FMT_MODE_READ | FMT_MODE_WRITE | FMT_MODE_ERASE | FMT_MODE_VERIFY | FMT_MODE_READ_ID | FMT_MODE_IDLE

record modrive =
  md_status :: u16
  md_dstat :: u16
  md_estat :: u16
  md_hstat :: u16
  md_head :: u8
  md_head_pos :: u32
  md_ho_head_pos :: u32
  md_sec_offset :: u32
  md_dsk :: "FILE option"
  md_spinning :: bool
  md_spiraling :: bool
  md_seeking :: bool
  md_attn :: bool
  md_complete :: bool
  md_protected :: bool
  md_inserted :: bool
  md_connected :: bool

record MODISK =
  mc_szImageName :: string
  mc_bDriveConnected :: bool
  mc_bDiskInserted :: bool
  mc_bWriteProtected :: bool

text \<open>
  The globals of mo.c. \<open>mo_exits\<close> lists the addresses for which the translated core is asked to leave its
  block, \<open>mo_host\<close> holds the image files.
\<close>

record mo =
  mo_tracknuml :: u8
  mo_tracknumh :: u8
  mo_sector_num :: u8
  mo_intstatus :: u8
  mo_intmask :: u8
  mo_ctrlr_csr2 :: u8
  mo_ctrlr_csr1 :: u8
  mo_csrl :: u8
  mo_csrh :: u8
  mo_err_stat :: u8
  mo_ecc_cnt :: u8
  mo_init :: u8
  mo_format :: u8
  mo_mark :: u8
  mo_flag :: "nat \<Rightarrow> u8"
  sector_counter :: int
  modrv :: "nat \<Rightarrow> modrive"
  dnum :: nat
  sector_increment :: int
  ecc_mode :: ecc_modes
  ecc_state :: ecc_states
  fmt_mode :: fmt_modes
  write_timing :: bool
  sector_timer :: int
  ecc_repeat :: bool
  old_size :: u32
  delayed_compl :: bool
  delayed_attn :: bool
  delayed_drive :: int
  mo_drives :: "nat \<Rightarrow> MODISK"
  mo_host :: hostfs
  mo_dma :: dmac
  mo_exits :: "u32 list"

record mo_env =
  me_conf :: sysconf
  me_bus :: bus_env
  me_machine :: MACHINETYPE

abbreviation "MO_MAX_DRIVES \<equiv> (2 :: nat)"
abbreviation "NO_HEAD \<equiv> (0 :: u8)"
abbreviation "READ_HEAD \<equiv> (1 :: u8)"
abbreviation "WRITE_HEAD \<equiv> (2 :: u8)"
abbreviation "ERASE_HEAD \<equiv> (3 :: u8)"
abbreviation "VERIFY_HEAD \<equiv> (4 :: u8)"
abbreviation "RF_HEAD \<equiv> (5 :: u8)"
abbreviation "MOINT_CMD_COMPL \<equiv> (0x01 :: u8)"
abbreviation "MOINT_ATTN \<equiv> (0x02 :: u8)"
abbreviation "MOINT_OPER_COMPL \<equiv> (0x04 :: u8)"
abbreviation "MOINT_ECC_DONE \<equiv> (0x08 :: u8)"
abbreviation "MOINT_TIMEOUT \<equiv> (0x10 :: u8)"
abbreviation "MOINT_DATA_ERR \<equiv> (0x80 :: u8)"
abbreviation "MOINT_RESET \<equiv> (0x01 :: u8)"
abbreviation "MOINT_GPO \<equiv> (0x02 :: u8)"
abbreviation "MOINT_OSP_MASK \<equiv> (0xFC :: u8)"
abbreviation "MOCSR2_DRIVE_SEL \<equiv> (0x01 :: u8)"
abbreviation "MOCSR2_BUF_TOGGLE \<equiv> (0x04 :: u8)"
abbreviation "MOCSR2_CLR_BUFP \<equiv> (0x08 :: u8)"
abbreviation "MOCSR2_ECC_BLOCKS \<equiv> (0x10 :: u8)"
abbreviation "MOCSR2_ECC_MODE \<equiv> (0x20 :: u8)"
abbreviation "MOCSR2_ECC_DIS \<equiv> (0x40 :: u8)"
abbreviation "MOCSR2_SECT_TIMER \<equiv> (0x80 :: u8)"
abbreviation "ERRSTAT_ECC \<equiv> (0x01 :: u8)"
abbreviation "ERRSTAT_STARVE \<equiv> (0x08 :: u8)"
abbreviation "MO_SEC_PER_TRACK \<equiv> (16 :: nat)"
abbreviation "MO_TRACK_OFFSET \<equiv> (4096 :: int)"
abbreviation "MO_TRACK_LIMIT \<equiv> (15723 :: int)"
abbreviation "MO_SECTORSIZE_DISK \<equiv> (1296 :: nat)"
abbreviation "SIZE_DISK \<equiv> (1296 :: u32)"
abbreviation "SIZE_DATA \<equiv> (1024 :: u32)"
abbreviation "DS_INSERT \<equiv> (0x0004 :: u16)"
abbreviation "DS_RESET \<equiv> (0x0008 :: u16)"
abbreviation "DS_SEEK \<equiv> (0x0010 :: u16)"
abbreviation "DS_CMD \<equiv> (0x0020 :: u16)"
abbreviation "DS_STOPPED \<equiv> (0x0200 :: u16)"
abbreviation "DS_WP \<equiv> (0x2000 :: u16)"
abbreviation "DS_EMPTY \<equiv> (0x4000 :: u16)"
abbreviation "INTERRUPT_MO \<equiv> (7 :: nat)"
abbreviation "INTERRUPT_MO_IO \<equiv> (8 :: nat)"
abbreviation "INTERRUPT_ECC_IO \<equiv> (9 :: nat)"
abbreviation "ECC_DELAY \<equiv> (250 :: i64)"
abbreviation "SECTOR_IO_DELAY \<equiv> (1250 :: i64)"
abbreviation "CMD_DELAY \<equiv> (40 :: i64)"
abbreviation "SECTOR_TIMEOUT_COUNT \<equiv> (100 :: int)"

section \<open>Helpers\<close>

definition upd_drv :: "nat \<Rightarrow> (modrive \<Rightarrow> modrive) \<Rightarrow> mo \<Rightarrow> mo" where
  "upd_drv i f s = s\<lparr>modrv := (modrv s)(i := f (modrv s i))\<rparr>"

abbreviation "drv s \<equiv> modrv s (dnum s)"

abbreviation "in_buf s \<equiv> ecc_buffer (mo_dma s) (eccin (mo_dma s))"
abbreviation "out_buf s \<equiv> ecc_buffer (mo_dma s) (eccout (mo_dma s))"

definition upd_buf :: "nat \<Rightarrow> (io_buffer \<Rightarrow> io_buffer) \<Rightarrow> mo \<Rightarrow> mo" where
  "upd_buf i f s = s\<lparr>mo_dma := (mo_dma s)\<lparr>ecc_buffer := (ecc_buffer (mo_dma s))(i := f (ecc_buffer (mo_dma s) i))\<rparr>\<rparr>"

abbreviation "upd_in f s \<equiv> upd_buf (eccin (mo_dma s)) f s"
abbreviation "upd_out f s \<equiv> upd_buf (eccout (mo_dma s)) f s"

definition mo_irq :: "bool \<Rightarrow> mo \<Rightarrow> mo" where
  "mo_irq b s = s\<lparr>mo_dma := dma_irq INT_DISK b (mo_dma s)\<rparr>"

definition with_cyc :: "(cycint \<Rightarrow> cycint res) \<Rightarrow> mo \<Rightarrow> mo res" where
  "with_cyc f s = bnd (f (s_cyc (d_sys (mo_dma s)))) (\<lambda>c.
     Inr (s\<lparr>mo_dma := (mo_dma s)\<lparr>d_sys := (d_sys (mo_dma s))\<lparr>s_cyc := c\<rparr>\<rparr>\<rparr>))"

definition mo_timer :: "mo_env \<Rightarrow> i64 \<Rightarrow> i64 \<Rightarrow> nat \<Rightarrow> mo \<Rightarrow> mo res" where
  "mo_timer E us usreal h = with_cyc (CycInt_AddRelativeInterruptUsCycles (me_conf E) us usreal h)"

definition osp_interrupt :: "u8 \<Rightarrow> mo \<Rightarrow> mo" where
  "osp_interrupt i s =
     (let s1 = s\<lparr>mo_intstatus := mo_intstatus s OR i\<rparr> in if i AND mo_intmask s1 \<noteq> 0 then mo_irq True s1 else s1)"

section \<open>Signals of the drives\<close>

definition mo_push_signals :: "bool \<Rightarrow> bool \<Rightarrow> int \<Rightarrow> mo \<Rightarrow> mo res" where
  "mo_push_signals cmpl attn drive s =
     (if drive < 0 then Inl Aborted
      else
        bnd (arr_get MO_MAX_DRIVES (modrv s) (nat drive)) (\<lambda>d.
          let c = (if md_complete d then False else cmpl);
              d1 = (if md_complete d then d else d\<lparr>md_complete := cmpl\<rparr>);
              a = (if md_attn d then False else attn);
              d2 = (if md_attn d1 then d1 else d1\<lparr>md_attn := attn\<rparr>);
              sel = (drive = int (dnum s));
              intr = (c \<and> sel \<and> mo_intmask s AND MOINT_CMD_COMPL \<noteq> 0 \<or> a \<and> sel \<and> mo_intmask s AND MOINT_ATTN \<noteq> 0);
              s1 = upd_drv (nat drive) (\<lambda>_. d2\<lparr>md_seeking := False\<rparr>) s
          in Inr (if intr then mo_irq True s1 else s1)))"

definition mo_set_signals :: "mo_env \<Rightarrow> bool \<Rightarrow> bool \<Rightarrow> int \<Rightarrow> mo \<Rightarrow> mo res" where
  "mo_set_signals E cmpl attn delay s =
     (if 0 < delay then
        bnd (if 0 \<le> delayed_drive s \<and> delayed_drive s \<noteq> int (dnum s) then
               bnd (mo_push_signals (delayed_compl s) (delayed_attn s) (delayed_drive s) s)
                 (with_cyc (CycInt_RemovePendingInterrupt INTERRUPT_MO))
             else Inr s) (\<lambda>s1.
          mo_timer E (word_of_int delay) CMD_DELAY INTERRUPT_MO
            (s1\<lparr>delayed_drive := int (dnum s1), delayed_compl := cmpl, delayed_attn := attn\<rparr>))
      else mo_push_signals cmpl attn (int (dnum s)) s)"

definition MO_InterruptHandler :: "mo \<Rightarrow> mo res" where
  "MO_InterruptHandler s =
     bnd (with_cyc CycInt_AcknowledgeInterrupt s) (\<lambda>s1.
     bnd (mo_push_signals (delayed_compl s1) (delayed_attn s1) (delayed_drive s1) s1) (\<lambda>s2.
       Inr (s2\<lparr>delayed_compl := False, delayed_attn := False, delayed_drive := - 1\<rparr>)))"

definition osp_poll_mo_signals :: "mo \<Rightarrow> mo" where
  "osp_poll_mo_signals s =
     (let s1 = s\<lparr>mo_intstatus := (if md_complete (drv s) then mo_intstatus s OR MOINT_CMD_COMPL
            else mo_intstatus s AND NOT MOINT_CMD_COMPL)\<rparr>
      in s1\<lparr>mo_intstatus := (if md_attn (drv s1) then mo_intstatus s1 OR MOINT_ATTN else mo_intstatus s1 AND NOT MOINT_ATTN)\<rparr>)"

definition osp_select :: "nat \<Rightarrow> mo \<Rightarrow> mo" where
  "osp_select drive s = s\<lparr>dnum := drive\<rparr>"

section \<open>Error-correcting engine\<close>

definition ecc_toggle_buffer :: "mo \<Rightarrow> mo" where
  "ecc_toggle_buffer s =
     (if eccin (mo_dma s) = 0 then s\<lparr>mo_dma := (mo_dma s)\<lparr>eccin := 1, eccout := 0\<rparr>\<rparr>
      else s\<lparr>mo_dma := (mo_dma s)\<lparr>eccin := 0, eccout := 1\<rparr>\<rparr>)"

definition ecc_clear_buffer :: "mo \<Rightarrow> mo" where
  "ecc_clear_buffer s =
     (let s1 = upd_in (\<lambda>b. b\<lparr>b_size := 0\<rparr>) (upd_out (\<lambda>b. b\<lparr>b_size := 0\<rparr>) s)
      in upd_in (\<lambda>b. b\<lparr>b_limit := SIZE_DATA\<rparr>) (upd_out (\<lambda>b. b\<lparr>b_limit := SIZE_DATA\<rparr>) s1))"

definition ecc_decode :: "mo \<Rightarrow> mo res" where
  "ecc_decode s =
     (if mo_ctrlr_csr2 s AND MOCSR2_ECC_DIS \<noteq> 0 \<and> mo_ctrlr_csr2 s AND MOCSR2_ECC_MODE = 0 then
        Inr (if mo_ctrlr_csr2 s AND MOCSR2_ECC_BLOCKS \<noteq> 0 \<and> ecc_repeat s then ecc_toggle_buffer s else s)
      else if b_size (in_buf s) = SIZE_DISK then
        let s1 = upd_in (\<lambda>b. b\<lparr>b_size := SIZE_DATA, b_limit := SIZE_DATA\<rparr>) s
        in bnd (rs_decode (b_data (in_buf s1))) (\<lambda>(n, data).
             let s2 = upd_in (\<lambda>b. b\<lparr>b_data := data\<rparr>) s1;
                 s3 = (if n < 0 then osp_interrupt MOINT_DATA_ERR (s2\<lparr>mo_err_stat := ERRSTAT_ECC\<rparr>)
                       else if mo_ecc_cnt s2 = 0 then s2\<lparr>mo_ecc_cnt := word_of_int n\<rparr> else s2)
             in Inr (ecc_toggle_buffer s3))
      else Inl Aborted)"

definition ecc_encode :: "mo \<Rightarrow> mo res" where
  "ecc_encode s =
     (if mo_ctrlr_csr2 s AND MOCSR2_ECC_DIS \<noteq> 0 \<and> mo_ctrlr_csr2 s AND MOCSR2_ECC_MODE \<noteq> 0 then
        Inr (if mo_ctrlr_csr2 s AND MOCSR2_ECC_BLOCKS \<noteq> 0 \<and> \<not> ecc_repeat s then ecc_toggle_buffer s else s)
      else if b_limit (in_buf s) = SIZE_DATA then
        let s1 = upd_in (\<lambda>b. b\<lparr>b_size := SIZE_DISK, b_limit := SIZE_DISK\<rparr>) s
        in bnd (rs_encode (b_data (in_buf s1))) (\<lambda>data. Inr (ecc_toggle_buffer (upd_in (\<lambda>b. b\<lparr>b_data := data\<rparr>) s1)))
      else Inl Aborted)"

definition ecc_timer :: "mo_env \<Rightarrow> mo \<Rightarrow> mo res" where
  "ecc_timer E = mo_timer E ECC_DELAY 80 INTERRUPT_ECC_IO"

definition ecc_write :: "mo_env \<Rightarrow> mo \<Rightarrow> mo res" where
  "ecc_write E s =
     (if ecc_state s \<noteq> ECC_STATE_DONE then Inr s
      else
        let s1 = s\<lparr>ecc_mode := ECC_MODE_WRITE, ecc_state := ECC_STATE_FILLING,
              ecc_repeat := (mo_ctrlr_csr2 s AND MOCSR2_ECC_BLOCKS \<noteq> 0 \<or> ecc_repeat s)\<rparr>
        in ecc_timer E (upd_in (\<lambda>b. b\<lparr>b_size := 0, b_limit := SIZE_DATA\<rparr>) s1))"

definition ecc_read :: "mo_env \<Rightarrow> mo \<Rightarrow> mo res" where
  "ecc_read E s =
     (if ecc_state s \<noteq> ECC_STATE_DONE then Inr s
      else ecc_timer E (s\<lparr>ecc_mode := ECC_MODE_READ, ecc_state := ECC_STATE_ECCING,
              ecc_repeat := (mo_ctrlr_csr2 s AND MOCSR2_ECC_BLOCKS \<noteq> 0 \<or> ecc_repeat s)\<rparr>))"

definition ecc_verify :: "mo_env \<Rightarrow> mo \<Rightarrow> mo res" where
  "ecc_verify E s =
     (if ecc_state s \<noteq> ECC_STATE_DONE then Inr s
      else ecc_timer E (s\<lparr>ecc_mode := ECC_MODE_VERIFY, ecc_state := ECC_STATE_ECCING\<rparr>))"

definition ecc_sequence_done :: "mo_env \<Rightarrow> mo \<Rightarrow> mo res" where
  "ecc_sequence_done E s =
     (if ecc_repeat s then
        let s1 = s\<lparr>ecc_repeat := False\<rparr>
        in ecc_timer E
             (if ecc_mode s1 = ECC_MODE_WRITE then (upd_in (\<lambda>b. b\<lparr>b_size := 0\<rparr>) s1)\<lparr>ecc_state := ECC_STATE_FILLING\<rparr>
              else s1\<lparr>ecc_state := ECC_STATE_ECCING\<rparr>)
      else
        let s1 = s\<lparr>ecc_state := ECC_STATE_DONE\<rparr>
        in Inr (if mo_ctrlr_csr2 s1 AND MOCSR2_ECC_DIS \<noteq> 0 then osp_interrupt MOINT_ECC_DONE s1 else s1))"

definition with_dma :: "(dmac \<Rightarrow> dmac res) \<Rightarrow> mo \<Rightarrow> mo res" where
  "with_dma f s = bnd (f (mo_dma s)) (\<lambda>d. Inr (s\<lparr>mo_dma := d\<rparr>))"

text \<open>One round of the engine; the flag of a result says whether the timer is started again.\<close>

definition ecc_filling :: "mo_env \<Rightarrow> mo \<Rightarrow> mo res" where
  "ecc_filling E s =
     bnd (if b_size (in_buf s) < b_limit (in_buf s) then
            let s1 = upd_in (\<lambda>b. b\<lparr>b_limit := (if mo_ctrlr_csr2 s AND MOCSR2_ECC_MODE \<noteq> 0 then SIZE_DISK else SIZE_DATA)\<rparr>) s;
                s2 = s1\<lparr>old_size := b_size (in_buf s1)\<rparr>
            in bnd (with_dma (dma_mo_read_memory (me_bus E)) s2) (\<lambda>s3.
                 Inr (if b_size (in_buf s3) = old_size s3
                      then osp_interrupt MOINT_DATA_ERR (s3\<lparr>mo_err_stat := ERRSTAT_STARVE\<rparr>) else s3))
          else Inr s) (\<lambda>s4.
       Inr (if b_size (in_buf s4) = b_limit (in_buf s4) then s4\<lparr>ecc_state := ECC_STATE_ECCING\<rparr> else s4))"

definition ecc_eccing :: "mo_env \<Rightarrow> mo \<Rightarrow> (bool \<times> mo) res" where
  "ecc_eccing E s =
     (if ecc_mode s = ECC_MODE_WRITE then
        if mo_ctrlr_csr2 s AND MOCSR2_ECC_DIS \<noteq> 0 then
          bnd (ecc_decode s) (\<lambda>s1. bnd (ecc_sequence_done E s1) (\<lambda>s2. Inr (False, s2)))
        else
          bnd (ecc_encode s) (\<lambda>s1.
            let s2 = s1\<lparr>ecc_state := ECC_STATE_WAITING\<rparr>
            in Inr (True, if sector_counter s2 = 1 then osp_interrupt MOINT_ECC_DONE s2 else s2))
      else if mo_ctrlr_csr2 s AND MOCSR2_ECC_DIS \<noteq> 0 then
        bnd (ecc_encode (if mo_ctrlr_csr2 s AND MOCSR2_ECC_BLOCKS \<noteq> 0
               then upd_in (\<lambda>b. b\<lparr>b_size := SIZE_DATA, b_limit := SIZE_DATA\<rparr>) s else s)) (\<lambda>s1.
          Inr (True, s1\<lparr>ecc_state := ECC_STATE_DRAINING\<rparr>))
      else if b_size (in_buf s) \<noteq> SIZE_DISK then Inr (True, s)
      else
        bnd (ecc_decode s) (\<lambda>s1.
          let s2 = (if sector_counter s1 = 0 then osp_interrupt MOINT_ECC_DONE s1 else s1)
          in if ecc_mode s2 = ECC_MODE_VERIFY then bnd (ecc_sequence_done E (ecc_clear_buffer s2)) (\<lambda>s3. Inr (False, s3))
             else Inr (True, s2\<lparr>ecc_state := ECC_STATE_DRAINING\<rparr>)))"

definition ecc_draining :: "mo_env \<Rightarrow> mo \<Rightarrow> (bool \<times> mo) res" where
  "ecc_draining E s =
     (let s1 = s\<lparr>old_size := b_size (out_buf s)\<rparr>
      in bnd (with_dma (dma_mo_write_memory (me_bus E)) s1) (\<lambda>s2.
           if b_size (out_buf s2) = old_size s2 then bnd (ecc_sequence_done E s2) (\<lambda>s3. Inr (False, s3))
           else if b_size (out_buf s2) = 0 then
             bnd (with_dma (dma_mo_write_memory (me_bus E)) s2) (\<lambda>s3. bnd (ecc_sequence_done E s3) (\<lambda>s4. Inr (False, s4)))
           else Inr (True, s2)))"

definition ecc_waiting :: "mo_env \<Rightarrow> mo \<Rightarrow> (bool \<times> mo) res" where
  "ecc_waiting E s =
     (if b_size (out_buf s) = 0 then
        bnd (ecc_sequence_done E s) (\<lambda>s1.
        bnd (if 0 < sector_counter s1 then ecc_write E s1 else Inr s1) (\<lambda>s2. Inr (False, s2)))
      else Inr (True, s))"

definition ECC_IO_Handler :: "mo_env \<Rightarrow> mo \<Rightarrow> mo res" where
  "ECC_IO_Handler E s =
     bnd (with_cyc CycInt_AcknowledgeInterrupt s) (\<lambda>s1.
     bnd (case ecc_state s1 of
            ECC_STATE_FILLING \<Rightarrow> bnd (ecc_filling E s1) (\<lambda>s2. Inr (True, s2))
          | ECC_STATE_ECCING \<Rightarrow> ecc_eccing E s1
          | ECC_STATE_DRAINING \<Rightarrow> ecc_draining E s1
          | ECC_STATE_WAITING \<Rightarrow> ecc_waiting E s1
          | ECC_STATE_DONE \<Rightarrow> Inr (False, s1)) (\<lambda>(again, s2).
       if again then ecc_timer E s2 else Inr s2))"

section \<open>Sectors of the image\<close>

definition get_logical_sector :: "u32 \<Rightarrow> u32 res" where
  "get_logical_sector sector_id =
     (let tracknum = sint (drop_bit 8 (sector_id AND 0xFFFF00)) - MO_TRACK_OFFSET; sectornum = sector_id AND 0x0F
      in if tracknum < 0 \<or> MO_TRACK_LIMIT \<le> tracknum then Inl Aborted
         else Inr (word_of_int (tracknum * int MO_SEC_PER_TRACK) + sectornum))"

definition mo_image :: "mo \<Rightarrow> FILE res" where
  "mo_image s = (case md_dsk (drv s) of None \<Rightarrow> Inl NullDeref | Some f \<Rightarrow> Inr f)"

definition mo_read_sector :: "u32 \<Rightarrow> mo \<Rightarrow> mo res" where
  "mo_read_sector sector_id s =
     bnd (get_logical_sector sector_id) (\<lambda>n.
     bnd (mo_image s) (\<lambda>f.
       let data = File_Read (map (b_data (in_buf s)) [0 ..< MO_SECTORSIZE_DISK]) MO_SECTORSIZE_DISK (unat (n * SIZE_DISK)) f (mo_host s)
       in Inr (upd_in (\<lambda>b. b\<lparr>b_data := buf_with 0 data (b_data b), b_size := SIZE_DISK, b_limit := SIZE_DISK\<rparr>) s)))"

definition mo_write_sector :: "u32 \<Rightarrow> mo \<Rightarrow> mo res" where
  "mo_write_sector sector_id s =
     bnd (get_logical_sector sector_id) (\<lambda>n.
       if b_limit (out_buf s) = SIZE_DISK then
         bnd (mo_image s) (\<lambda>f.
           let h = File_Write (map (b_data (out_buf s)) [0 ..< MO_SECTORSIZE_DISK]) (unat (n * SIZE_DISK)) f (mo_host s)
           in Inr (upd_out (\<lambda>b. b\<lparr>b_size := 0, b_limit := SIZE_DATA\<rparr>) (s\<lparr>mo_host := h\<rparr>)))
       else Inl Aborted)"

definition mo_erase_sector :: "u32 \<Rightarrow> mo \<Rightarrow> mo res" where
  "mo_erase_sector sector_id s =
     bnd (get_logical_sector sector_id) (\<lambda>n.
     bnd (mo_image s) (\<lambda>f.
       Inr (s\<lparr>mo_host := File_Write (replicate MO_SECTORSIZE_DISK 0xFF) (unat (n * SIZE_DISK)) f (mo_host s)\<rparr>)))"

definition mo_verify_sector :: "u32 \<Rightarrow> mo \<Rightarrow> mo res" where
  "mo_verify_sector sector_id s =
     bnd (get_logical_sector sector_id) (\<lambda>n.
     bnd (mo_image s) (\<lambda>f.
       let data = File_Read (map (b_data (in_buf s)) [0 ..< MO_SECTORSIZE_DISK]) MO_SECTORSIZE_DISK (unat (n * SIZE_DISK)) f (mo_host s)
       in Inr (upd_in (\<lambda>b. b\<lparr>b_data := buf_with 0 data (b_data b), b_size := SIZE_DISK, b_limit := SIZE_DISK\<rparr>) s)))"

section \<open>Formatter\<close>

definition mo_formatter_cmd :: "mo_env \<Rightarrow> mo \<Rightarrow> mo res" where
  "mo_formatter_cmd E s =
     (let c = mo_ctrlr_csr1 s
      in if c = 0 then
           Inr (s\<lparr>fmt_mode := FMT_MODE_IDLE, ecc_state := ECC_STATE_DONE, mo_ecc_cnt := 0, mo_err_stat := 0\<rparr>)
         else
           bnd (if c AND 0x80 \<noteq> 0 then ecc_read E s else Inr s) (\<lambda>s1.
           bnd (if c AND 0x40 \<noteq> 0 then ecc_write E s1 else Inr s1) (\<lambda>s2.
             let s3 = (if c AND 0x20 \<noteq> 0
                   then s2\<lparr>mo_csrh := ucast (drop_bit 8 (md_status (drv s2))), mo_csrl := ucast (md_status (drv s2) AND 0xFF)\<rparr> else s2);
                 s4 = (if c AND 0x10 \<noteq> 0 then s3\<lparr>fmt_mode := FMT_MODE_READ_ID\<rparr> else s3);
                 s5 = (if c AND 0x08 \<noteq> 0 then s4\<lparr>fmt_mode := FMT_MODE_VERIFY\<rparr> else s4);
                 s6 = (if c AND 0x04 \<noteq> 0 then s5\<lparr>fmt_mode := FMT_MODE_ERASE\<rparr> else s5);
                 s7 = (if c AND 0x02 \<noteq> 0 then s6\<lparr>fmt_mode := FMT_MODE_READ\<rparr> else s6)
             in Inr (if c AND 0x01 \<noteq> 0 then s7\<lparr>write_timing := False, fmt_mode := FMT_MODE_WRITE\<rparr> else s7))))"

definition fmt_sector_done :: "mo \<Rightarrow> mo" where
  "fmt_sector_done s =
     (let n = mo_sector_num s + word_of_int (sector_increment s);
          track = (push_bit 8 (ucast (mo_tracknumh s)) OR ucast (mo_tracknuml s)) + ucast (n div 16) :: u16;
          s1 = s\<lparr>mo_sector_num := n mod 16, mo_tracknumh := ucast (drop_bit 8 track AND 0xFF), mo_tracknuml := ucast (track AND 0xFF),
            sector_counter := sector_counter s - 1\<rparr>
      in if sector_counter s1 = 0 then osp_interrupt MOINT_OPER_COMPL (s1\<lparr>fmt_mode := FMT_MODE_IDLE\<rparr>) else s1)"

definition fmt_match_id :: "u32 \<Rightarrow> mo \<Rightarrow> (bool \<times> mo) res" where
  "fmt_match_id sector_id s =
     (if mo_init s AND 3 = 2 then Inl Aborted
      else
        let fmt_id = push_bit 16 (ucast (mo_tracknumh s)) OR push_bit 8 (ucast (mo_tracknuml s)) OR ucast (mo_sector_num s);
            trk = mo_init s AND 0x20 \<noteq> 0;
            fmt = (if trk then drop_bit 8 fmt_id AND 0xFFFF else fmt_id);
            sec = (if trk then drop_bit 8 sector_id AND 0xFFFF else sector_id)
        in if sec = fmt then Inr (True, s\<lparr>sector_timer := 0\<rparr>)
           else if mo_ctrlr_csr2 s AND MOCSR2_SECT_TIMER \<noteq> 0 then
             let s1 = s\<lparr>sector_timer := sector_timer s + 1\<rparr>
             in Inr (False, if SECTOR_TIMEOUT_COUNT < sector_timer s1
                  then osp_interrupt MOINT_TIMEOUT (s1\<lparr>sector_timer := 0, fmt_mode := FMT_MODE_IDLE\<rparr>) else s1)
           else Inr (False, s))"

definition fmt_io :: "mo_env \<Rightarrow> u32 \<Rightarrow> mo \<Rightarrow> mo res" where
  "fmt_io E sector_id s =
     (case fmt_mode s of
        FMT_MODE_IDLE \<Rightarrow> Inr s
      | FMT_MODE_READ_ID \<Rightarrow>
          Inr (osp_interrupt MOINT_OPER_COMPL (s\<lparr>mo_tracknumh := ucast (drop_bit 16 sector_id AND 0xFF),
            mo_tracknuml := ucast (drop_bit 8 sector_id AND 0xFF), mo_sector_num := ucast (sector_id AND 0x0F)\<rparr>))
      | FMT_MODE_READ \<Rightarrow>
          if md_head (drv s) \<noteq> READ_HEAD then Inl Aborted
          else bnd (fmt_match_id sector_id s) (\<lambda>(hit, s1).
            if hit then bnd (mo_read_sector sector_id s1) (\<lambda>s2. bnd (ecc_read E s2) (\<lambda>s3. Inr (fmt_sector_done s3))) else Inr s1)
      | FMT_MODE_WRITE \<Rightarrow>
          if md_head (drv s) \<noteq> WRITE_HEAD then Inl Aborted
          else bnd (fmt_match_id sector_id s) (\<lambda>(hit, s1).
            bnd (if hit \<and> write_timing s1 then bnd (mo_write_sector sector_id s1) (\<lambda>s2. Inr (fmt_sector_done s2))
                 else Inr (s1\<lparr>write_timing := True\<rparr>)) (ecc_write E))
      | FMT_MODE_ERASE \<Rightarrow>
          if md_head (drv s) \<noteq> ERASE_HEAD then Inl Aborted
          else bnd (fmt_match_id sector_id s) (\<lambda>(hit, s1).
            if hit then bnd (mo_erase_sector sector_id s1) (\<lambda>s2. Inr (fmt_sector_done s2)) else Inr s1)
      | FMT_MODE_VERIFY \<Rightarrow>
          if md_head (drv s) \<noteq> VERIFY_HEAD then Inl Aborted
          else bnd (fmt_match_id sector_id s) (\<lambda>(hit, s1).
            if hit then bnd (mo_verify_sector sector_id s1) (\<lambda>s2. bnd (ecc_verify E s2) (\<lambda>s3. Inr (fmt_sector_done s3))) else Inr s1))"

definition mo_formatter_cmd2 :: "mo \<Rightarrow> mo" where
  "mo_formatter_cmd2 s =
     (let s1 = (if mo_ctrlr_csr2 s AND MOCSR2_BUF_TOGGLE \<noteq> 0 then ecc_toggle_buffer s else s);
          s2 = (if mo_ctrlr_csr2 s1 AND MOCSR2_CLR_BUFP \<noteq> 0 then ecc_clear_buffer s1 else s1)
      in osp_select (unat (mo_ctrlr_csr2 s2 AND MOCSR2_DRIVE_SEL)) s2)"

section \<open>Passing sectors\<close>

definition sector_passes :: "mo_env \<Rightarrow> nat \<Rightarrow> mo \<Rightarrow> mo res" where
  "sector_passes E i s =
     (if md_spiraling (modrv s i) \<and> \<not> md_seeking (modrv s i) then
        bnd (if i = dnum s then fmt_io E (push_bit 8 (md_head_pos (modrv s i)) OR md_sec_offset (modrv s i)) s else Inr s) (\<lambda>s1.
          Inr (upd_drv i (\<lambda>d. let o1 = md_sec_offset d + 1
            in d\<lparr>md_head_pos := md_head_pos d + o1 div 16, md_sec_offset := o1 mod 16\<rparr>) s1))
      else Inr s)"

definition mo_spiraling_operation :: "mo_env \<Rightarrow> mo \<Rightarrow> mo res" where
  "mo_spiraling_operation E s =
     (if \<not> md_spiraling (modrv s 0) \<and> \<not> md_spiraling (modrv s 1) then Inr s
      else bnd (each (sector_passes E) [0 ..< MO_MAX_DRIVES] s) (mo_timer E SECTOR_IO_DELAY 400 INTERRUPT_MO_IO))"

definition MO_IO_Handler :: "mo_env \<Rightarrow> mo \<Rightarrow> mo res" where
  "MO_IO_Handler E s = bnd (with_cyc CycInt_AcknowledgeInterrupt s) (mo_spiraling_operation E)"

section \<open>Drive commands\<close>

abbreviation "upd_sel f s \<equiv> upd_drv (dnum s) f s"

definition mo_drive_empty :: "mo_env \<Rightarrow> mo \<Rightarrow> (bool \<times> mo) res" where
  "mo_drive_empty E s =
     (if \<not> md_inserted (drv s) then
        bnd (mo_set_signals E True True 40 (upd_sel (\<lambda>d. d\<lparr>md_dstat := md_dstat d OR DS_EMPTY\<rparr>) s)) (\<lambda>t. Inr (True, t))
      else Inr (False, s))"

definition unless_empty :: "mo_env \<Rightarrow> (mo \<Rightarrow> mo res) \<Rightarrow> mo \<Rightarrow> mo res" where
  "unless_empty E f s = bnd (mo_drive_empty E s) (\<lambda>(e, s1). if e then Inr s1 else f s1)"

definition mo_protected :: "mo_env \<Rightarrow> mo \<Rightarrow> (bool \<times> mo) res" where
  "mo_protected E s =
     (if md_protected (drv s) \<and> (md_head (drv s) = ERASE_HEAD \<or> md_head (drv s) = WRITE_HEAD) then
        bnd (mo_set_signals E True True 40 (upd_sel (\<lambda>d. d\<lparr>md_dstat := md_dstat d OR DS_WP, md_head := NO_HEAD\<rparr>) s)) (\<lambda>t. Inr (True, t))
      else Inr (False, s))"

definition mo_seek :: "mo_env \<Rightarrow> u16 \<Rightarrow> mo \<Rightarrow> mo res" where
  "mo_seek E command =
     unless_empty E (\<lambda>s.
       let s1 = upd_sel (\<lambda>d. d\<lparr>md_seeking := True, md_head_pos := (md_ho_head_pos d AND 0xF000) OR (ucast command AND 0x0FFF)\<rparr>) s;
           a = md_head_pos (drv s); b = md_head_pos (drv s1);
           t = sint (if b < a then a - b else b - a)
       in mo_set_signals E True False ((if 95000 < t then 95000 else t) + 5000) s1)"

definition mo_high_order_seek :: "mo_env \<Rightarrow> u16 \<Rightarrow> mo \<Rightarrow> mo res" where
  "mo_high_order_seek E command =
     unless_empty E (\<lambda>s.
       if 4 < command AND 0xF then mo_set_signals E True True 40 (upd_sel (\<lambda>d. d\<lparr>md_dstat := md_dstat d OR DS_SEEK\<rparr>) s)
       else mo_set_signals E True False 40 (upd_sel (\<lambda>d. d\<lparr>md_ho_head_pos := push_bit 12 (ucast (command AND 0xF))\<rparr>) s))"

definition jump_head :: "u16 \<Rightarrow> u8" where
  "jump_head command =
     (let h = command AND 0xF0
      in if h = 0x10 then READ_HEAD else if h = 0x20 then VERIFY_HEAD else if h = 0x30 then WRITE_HEAD
         else if h = 0x40 then ERASE_HEAD else NO_HEAD)"

definition mo_jump_head :: "mo_env \<Rightarrow> u16 \<Rightarrow> mo \<Rightarrow> mo res" where
  "mo_jump_head E command =
     unless_empty E (\<lambda>s.
       let k = ucast (command AND 0x7) :: u32;
           s1 = upd_sel (\<lambda>d. d\<lparr>md_seeking := True,
             md_head_pos := (if command AND 0x8 \<noteq> 0 then md_head_pos d - (8 - k) else md_head_pos d + k),
             md_sec_offset := 0, md_head := jump_head command\<rparr>) s
       in bnd (mo_protected E s1) (\<lambda>(p, s2). if p then Inr s2 else mo_set_signals E True False 1600 s2))"

definition mo_recalibrate :: "mo_env \<Rightarrow> mo \<Rightarrow> mo res" where
  "mo_recalibrate E =
     unless_empty E (\<lambda>s. mo_set_signals E True False 40 (upd_sel (\<lambda>d. d\<lparr>md_head_pos := 0, md_sec_offset := 0, md_spiraling := False\<rparr>) s))"

definition mo_return_drive_status :: "mo_env \<Rightarrow> mo \<Rightarrow> mo res" where
  "mo_return_drive_status E s =
     mo_set_signals E True False 40 (upd_sel (\<lambda>d.
       let a = (if \<not> md_spinning d then md_dstat d OR DS_STOPPED else md_dstat d);
           b = (if \<not> md_inserted d then a OR DS_EMPTY else a)
       in d\<lparr>md_dstat := b, md_status := b\<rparr>) s)"

definition mo_return_track_addr :: "mo_env \<Rightarrow> mo \<Rightarrow> mo res" where
  "mo_return_track_addr E s = mo_set_signals E True False 40 (upd_sel (\<lambda>d. d\<lparr>md_status := ucast (md_head_pos d)\<rparr>) s)"

definition mo_return_extended_status :: "mo_env \<Rightarrow> mo \<Rightarrow> mo res" where
  "mo_return_extended_status E s = mo_set_signals E True False 40 (upd_sel (\<lambda>d. d\<lparr>md_status := md_estat d\<rparr>) s)"

definition mo_return_hardware_status :: "mo_env \<Rightarrow> mo \<Rightarrow> mo res" where
  "mo_return_hardware_status E s = mo_set_signals E True False 40 (upd_sel (\<lambda>d. d\<lparr>md_status := md_hstat d\<rparr>) s)"

definition mo_return_version :: "mo_env \<Rightarrow> mo \<Rightarrow> mo res" where
  "mo_return_version E s = mo_set_signals E True False 40 (upd_sel (\<lambda>d. d\<lparr>md_status := 0x0880\<rparr>) s)"

definition mo_select_head :: "mo_env \<Rightarrow> u8 \<Rightarrow> mo \<Rightarrow> mo res" where
  "mo_select_head E head =
     unless_empty E (\<lambda>s. bnd (mo_protected E (upd_sel (\<lambda>d. d\<lparr>md_head := head\<rparr>) s)) (\<lambda>(p, s2).
       if p then Inr s2 else mo_set_signals E True False 40 s2))"

definition mo_reset_attn_status :: "mo_env \<Rightarrow> mo \<Rightarrow> mo res" where
  "mo_reset_attn_status E s =
     mo_set_signals E True False 40 (upd_sel (\<lambda>d. d\<lparr>md_dstat := 0, md_estat := 0, md_hstat := 0, md_attn := False\<rparr>) s)"

definition mo_stop_spinning :: "mo_env \<Rightarrow> mo \<Rightarrow> mo res" where
  "mo_stop_spinning E =
     unless_empty E (\<lambda>s. mo_set_signals E True False 40 (upd_sel (\<lambda>d. d\<lparr>md_spinning := False, md_spiraling := False\<rparr>) s))"

definition mo_start_spinning :: "mo_env \<Rightarrow> mo \<Rightarrow> mo res" where
  "mo_start_spinning E =
     unless_empty E (\<lambda>s. mo_set_signals E True False 1600000
       (upd_sel (\<lambda>d. d\<lparr>md_dstat := md_dstat d AND NOT DS_STOPPED, md_spinning := True\<rparr>) s))"

definition eject_drive :: "nat \<Rightarrow> mo \<Rightarrow> mo res" where
  "eject_drive i s =
     bnd (arr_get MO_MAX_DRIVES (modrv s) i) (\<lambda>_.
       Inr ((upd_drv i (\<lambda>d. d\<lparr>md_dsk := None, md_inserted := False, md_spinning := False, md_spiraling := False\<rparr>) s)
         \<lparr>mo_drives := (mo_drives s)(i := (mo_drives s i)\<lparr>mc_bDiskInserted := False, mc_szImageName := ''''\<rparr>)\<rparr>))"

definition mo_eject_disk :: "mo_env \<Rightarrow> int \<Rightarrow> mo \<Rightarrow> mo res" where
  "mo_eject_disk E i s =
     (if i < 0 then unless_empty E (\<lambda>s1. bnd (mo_set_signals E True False 40 s1) (eject_drive (dnum s))) s
      else eject_drive (nat i) s)"

definition mo_start_spiraling :: "mo_env \<Rightarrow> mo \<Rightarrow> mo res" where
  "mo_start_spiraling E =
     unless_empty E (\<lambda>s.
       if \<not> md_spinning (drv s) then mo_set_signals E True True 40 (upd_sel (\<lambda>d. d\<lparr>md_dstat := md_dstat d OR DS_STOPPED\<rparr>) s)
       else
         bnd (if \<not> md_spiraling (modrv s 0) \<and> \<not> md_spiraling (modrv s 1) then mo_timer E SECTOR_IO_DELAY 400 INTERRUPT_MO_IO s else Inr s)
           (\<lambda>s1. mo_set_signals E True False 40 (upd_sel (\<lambda>d. d\<lparr>md_spiraling := True\<rparr>) s1)))"

definition mo_stop_spiraling :: "mo_env \<Rightarrow> mo \<Rightarrow> mo res" where
  "mo_stop_spiraling E =
     unless_empty E (\<lambda>s. mo_set_signals E True False 40 (upd_sel (\<lambda>d. d\<lparr>md_spiraling := False\<rparr>) s))"

definition mo_self_diagnostic :: "mo_env \<Rightarrow> mo \<Rightarrow> mo res" where
  "mo_self_diagnostic E = mo_set_signals E True False 40"

definition mo_unimplemented_cmd :: "mo_env \<Rightarrow> mo \<Rightarrow> mo res" where
  "mo_unimplemented_cmd E s = mo_set_signals E True True 40 (upd_sel (\<lambda>d. d\<lparr>md_dstat := md_dstat d OR DS_CMD\<rparr>) s)"

definition mo_command :: "mo \<Rightarrow> u16" where
  "mo_command s = push_bit 8 (ucast (mo_csrh s)) OR ucast (mo_csrl s)"

definition mo_drive_cmd :: "mo_env \<Rightarrow> mo \<Rightarrow> mo res" where
  "mo_drive_cmd E s0 =
     (if \<not> md_connected (drv s0) then Inr s0
      else
        let c = mo_command s0; s = upd_sel (\<lambda>d. d\<lparr>md_complete := False\<rparr>) s0
        in if c AND 0xF000 = 0x0000 then mo_seek E c s
           else if c AND 0xF000 = 0xB000 then Inl Aborted
           else if c AND 0xFF00 = 0x5100 then mo_jump_head E c s
           else if c AND 0xFFF0 = 0xA000 then mo_high_order_seek E c s
           else if c = 0x1000 then mo_recalibrate E s
           else if c = 0x2000 then mo_return_drive_status E s
           else if c = 0x2200 then mo_return_track_addr E s
           else if c = 0x2800 then mo_return_extended_status E s
           else if c = 0x2A00 then mo_return_hardware_status E s
           else if c = 0x3000 then Inl Aborted
           else if c = 0x3F00 then mo_return_version E s
           else if c = 0x4100 then mo_select_head E READ_HEAD s
           else if c = 0x4200 then mo_select_head E VERIFY_HEAD s
           else if c = 0x4300 then mo_select_head E WRITE_HEAD s
           else if c = 0x4400 then mo_select_head E ERASE_HEAD s
           else if c = 0x4500 then mo_select_head E RF_HEAD s
           else if c = 0x5000 then mo_reset_attn_status E s
           else if c = 0x5200 then mo_stop_spinning E s
           else if c = 0x5300 then mo_start_spinning E s
           else if c = 0x5400 \<or> c = 0x5500 then Inl Aborted
           else if c = 0x5600 then mo_eject_disk E (- 1) s
           else if c = 0x5900 then mo_start_spiraling E s
           else if c = 0x5A00 then mo_stop_spiraling E s
           else if c = 0x8000 then mo_self_diagnostic E s
           else mo_unimplemented_cmd E s)"

section \<open>Reset and image files\<close>

definition reset_drive :: "modrive \<Rightarrow> modrive" where
  "reset_drive d =
     (if md_connected d then
        let d1 = d\<lparr>md_head := NO_HEAD, md_head_pos := 0, md_ho_head_pos := 0, md_sec_offset := 0, md_dstat := DS_RESET,
              md_estat := 0, md_hstat := 0, md_spinning := md_inserted d, md_spiraling := False\<rparr>
        in d1\<lparr>md_dstat := (if \<not> md_inserted d1 then md_dstat d1 OR DS_EMPTY
             else if \<not> md_spinning d1 then md_dstat d1 OR DS_STOPPED else md_dstat d1), md_attn := False, md_complete := True\<rparr>
      else d)"

definition mo_reset :: "mo \<Rightarrow> mo" where
  "mo_reset s = fold (\<lambda>i. upd_drv i reset_drive) [0 ..< MO_MAX_DRIVES] s"

text \<open>The file of an inserted disk and whether it is protected; a file that cannot be written is protected.\<close>

definition open_image :: "MODISK \<Rightarrow> hostfs \<Rightarrow> (FILE \<times> bool) option" where
  "open_image c h =
     (if mc_bWriteProtected c then map_option (\<lambda>f. (f, True)) (File_Open (mc_szImageName c) False h)
      else case File_Open (mc_szImageName c) True h of
        None \<Rightarrow> map_option (\<lambda>f. (f, True)) (File_Open (mc_szImageName c) False h)
      | Some f \<Rightarrow> Some (f, False))"

definition mo_insert_disk :: "nat \<Rightarrow> mo \<Rightarrow> mo res" where
  "mo_insert_disk i s =
     bnd (arr_get MO_MAX_DRIVES (mo_drives s) i) (\<lambda>c.
       case open_image c (mo_host s) of
         None \<Rightarrow> Inr (upd_drv i (\<lambda>d. d\<lparr>md_dsk := None, md_inserted := False, md_protected := False\<rparr>) s)
       | Some (f, prot) \<Rightarrow>
           mo_push_signals True False (int i) (upd_drv i (\<lambda>d. d\<lparr>md_dsk := Some f, md_inserted := True, md_protected := prot,
             md_dstat := (md_dstat d AND NOT DS_EMPTY) OR DS_INSERT, md_spinning := False, md_spiraling := False\<rparr>) s))"

definition init_drive :: "MODISK \<Rightarrow> hostfs \<Rightarrow> modrive \<Rightarrow> modrive" where
  "init_drive c h d0 =
     (let d = d0\<lparr>md_spinning := False, md_spiraling := False\<rparr>
      in if mc_bDriveConnected c then
           let d1 = d\<lparr>md_connected := True, md_complete := True, md_attn := False, md_dstat := 0, md_estat := 0, md_hstat := 0\<rparr>
           in if mc_bDiskInserted c \<and> File_Exists (mc_szImageName c) h then
                (case open_image c h of
                   None \<Rightarrow> d1\<lparr>md_dsk := None, md_inserted := False, md_protected := False\<rparr>
                 | Some (f, prot) \<Rightarrow> d1\<lparr>md_dsk := Some f, md_inserted := True, md_protected := prot\<rparr>)
              else d1\<lparr>md_dsk := None, md_inserted := False\<rparr>
         else d\<lparr>md_connected := False, md_complete := False, md_attn := False\<rparr>)"

definition MO_Init :: "mo \<Rightarrow> mo" where
  "MO_Init s =
     (fold (\<lambda>i s. upd_drv i (init_drive (mo_drives s i) (mo_host s)) s) [0 ..< MO_MAX_DRIVES] s)\<lparr>ecc_state := ECC_STATE_DONE\<rparr>"

definition MO_Uninit :: "mo \<Rightarrow> mo" where
  "MO_Uninit s =
     (let f = (\<lambda>d. d\<lparr>md_dsk := None, md_inserted := False\<rparr>) in upd_drv 1 f (upd_drv 0 f s))"

definition MO_Insert :: "nat \<Rightarrow> mo \<Rightarrow> mo res" where
  "MO_Insert drive s = mo_insert_disk drive s"

definition MO_Eject :: "mo_env \<Rightarrow> int \<Rightarrow> mo \<Rightarrow> mo res" where
  "MO_Eject E drive s = mo_eject_disk E drive s"

definition MO_Reset :: "mo \<Rightarrow> mo" where
  "MO_Reset s = MO_Init (MO_Uninit s)"

section \<open>Registers\<close>

definition MO_TrackNumH_Read :: "mo \<Rightarrow> u8" where
  "MO_TrackNumH_Read s = mo_tracknumh s"

definition MO_TrackNumH_Write :: "u8 \<Rightarrow> mo \<Rightarrow> mo" where
  "MO_TrackNumH_Write v s = s\<lparr>mo_tracknumh := v\<rparr>"

definition MO_TrackNumL_Read :: "mo \<Rightarrow> u8" where
  "MO_TrackNumL_Read s = mo_tracknuml s"

definition MO_TrackNumL_Write :: "u8 \<Rightarrow> mo \<Rightarrow> mo" where
  "MO_TrackNumL_Write v s = s\<lparr>mo_tracknuml := v\<rparr>"

definition MO_SectorIncr_Read :: "mo \<Rightarrow> u8" where
  "MO_SectorIncr_Read s = mo_sector_num s AND 0x0F"

definition MO_SectorIncr_Write :: "u8 \<Rightarrow> mo \<Rightarrow> mo" where
  "MO_SectorIncr_Write v s = s\<lparr>mo_sector_num := v AND 0x0F, sector_increment := uint (drop_bit 4 (v AND 0xF0))\<rparr>"

definition MO_SectorCnt_Read :: "mo \<Rightarrow> u8" where
  "MO_SectorCnt_Read s = word_of_int (sector_counter s)"

definition MO_SectorCnt_Write :: "u8 \<Rightarrow> mo \<Rightarrow> mo" where
  "MO_SectorCnt_Write v s = s\<lparr>sector_counter := (if v = 0 then 0x100 else uint v)\<rparr>"

definition MO_IntStatus_Read :: "mo \<Rightarrow> u8 \<times> mo" where
  "MO_IntStatus_Read s = (let s1 = osp_poll_mo_signals s in (mo_intstatus s1, s1))"

text \<open>The register selects between the floppy and the SCSI controller on the 68030 cube.\<close>

definition set_floppy_select :: "u8 \<Rightarrow> mo \<Rightarrow> mo" where
  "set_floppy_select sel s = s\<lparr>mo_dma := (mo_dma s)\<lparr>floppy_select := (sel \<noteq> 0)\<rparr>\<rparr>"

definition mo_jit_device_barrier :: "u32 \<Rightarrow> mo \<Rightarrow> mo" where
  "mo_jit_device_barrier addr s = s\<lparr>mo_exits := mo_exits s @ [addr]\<rparr>"

definition MO_IntStatus_Write :: "mo_env \<Rightarrow> u32 \<Rightarrow> u8 \<Rightarrow> mo \<Rightarrow> mo" where
  "MO_IntStatus_Write E addr v s =
     (let s1 = osp_poll_mo_signals (mo_jit_device_barrier addr s);
          s2 = s1\<lparr>mo_intstatus := mo_intstatus s1 AND NOT (v AND MOINT_OSP_MASK)\<rparr>;
          s3 = (if mo_intstatus s2 AND mo_intmask s2 = 0 then mo_irq False s2 else s2);
          s4 = (if me_machine E = NEXT_CUBE030 then set_floppy_select (v AND MOINT_GPO) s3 else s3)
      in if v AND MOINT_RESET \<noteq> 0 then mo_reset s4 else s4)"

definition MO_IntMask_Read :: "mo \<Rightarrow> u8" where
  "MO_IntMask_Read s = mo_intmask s"

definition MO_IntMask_Write :: "u8 \<Rightarrow> mo \<Rightarrow> mo" where
  "MO_IntMask_Write v s =
     (let s1 = osp_poll_mo_signals (s\<lparr>mo_intmask := v\<rparr>) in mo_irq (mo_intstatus s1 AND mo_intmask s1 \<noteq> 0) s1)"

definition MOctrl_CSR2_Read :: "mo \<Rightarrow> u8" where
  "MOctrl_CSR2_Read s = mo_ctrlr_csr2 s"

definition MOctrl_CSR2_Write :: "u8 \<Rightarrow> mo \<Rightarrow> mo" where
  "MOctrl_CSR2_Write v s = mo_formatter_cmd2 (s\<lparr>mo_ctrlr_csr2 := v\<rparr>)"

definition MOctrl_CSR1_Read :: "mo \<Rightarrow> u8" where
  "MOctrl_CSR1_Read s = mo_ctrlr_csr1 s"

definition MOctrl_CSR1_Write :: "mo_env \<Rightarrow> u8 \<Rightarrow> mo \<Rightarrow> mo res" where
  "MOctrl_CSR1_Write E v s = mo_formatter_cmd E (s\<lparr>mo_ctrlr_csr1 := v\<rparr>)"

definition MO_CSR_H_Read :: "mo \<Rightarrow> u8" where
  "MO_CSR_H_Read s = mo_csrh s"

definition MO_CSR_H_Write :: "u8 \<Rightarrow> mo \<Rightarrow> mo" where
  "MO_CSR_H_Write v s = s\<lparr>mo_csrh := v\<rparr>"

definition MO_CSR_L_Read :: "mo \<Rightarrow> u8" where
  "MO_CSR_L_Read s = mo_csrl s"

definition MO_CSR_L_Write :: "mo_env \<Rightarrow> u8 \<Rightarrow> mo \<Rightarrow> mo res" where
  "MO_CSR_L_Write E v s = mo_drive_cmd E (s\<lparr>mo_csrl := v\<rparr>)"

definition MO_ErrStat_Read :: "mo \<Rightarrow> u8" where
  "MO_ErrStat_Read s = mo_err_stat s"

definition MO_EccCnt_Read :: "mo \<Rightarrow> u8" where
  "MO_EccCnt_Read s = mo_ecc_cnt s"

definition MO_Init_Write :: "u8 \<Rightarrow> mo \<Rightarrow> mo" where
  "MO_Init_Write v s = s\<lparr>mo_init := v\<rparr>"

definition MO_Format_Write :: "u8 \<Rightarrow> mo \<Rightarrow> mo" where
  "MO_Format_Write v s = s\<lparr>mo_format := v\<rparr>"

definition MO_Mark_Write :: "u8 \<Rightarrow> mo \<Rightarrow> mo" where
  "MO_Mark_Write v s = s\<lparr>mo_mark := v\<rparr>"

definition MO_Flag0_Read :: "mo \<Rightarrow> u8" where
  "MO_Flag0_Read s = mo_flag s 0"

definition MO_Flag0_Write :: "u8 \<Rightarrow> mo \<Rightarrow> mo" where
  "MO_Flag0_Write v s = s\<lparr>mo_flag := (mo_flag s)(0 := v)\<rparr>"

definition MO_Flag1_Read :: "mo \<Rightarrow> u8" where
  "MO_Flag1_Read s = mo_flag s 1"

definition MO_Flag1_Write :: "u8 \<Rightarrow> mo \<Rightarrow> mo" where
  "MO_Flag1_Write v s = s\<lparr>mo_flag := (mo_flag s)(1 := v)\<rparr>"

definition MO_Flag2_Read :: "mo \<Rightarrow> u8" where
  "MO_Flag2_Read s = mo_flag s 2"

definition MO_Flag2_Write :: "u8 \<Rightarrow> mo \<Rightarrow> mo" where
  "MO_Flag2_Write v s = s\<lparr>mo_flag := (mo_flag s)(2 := v)\<rparr>"

definition MO_Flag3_Read :: "mo \<Rightarrow> u8" where
  "MO_Flag3_Read s = mo_flag s 3"

definition MO_Flag3_Write :: "u8 \<Rightarrow> mo \<Rightarrow> mo" where
  "MO_Flag3_Write v s = s\<lparr>mo_flag := (mo_flag s)(3 := v)\<rparr>"

definition MO_Flag4_Read :: "mo \<Rightarrow> u8" where
  "MO_Flag4_Read s = mo_flag s 4"

definition MO_Flag4_Write :: "u8 \<Rightarrow> mo \<Rightarrow> mo" where
  "MO_Flag4_Write v s = s\<lparr>mo_flag := (mo_flag s)(4 := v)\<rparr>"

definition MO_Flag5_Read :: "mo \<Rightarrow> u8" where
  "MO_Flag5_Read s = mo_flag s 5"

definition MO_Flag5_Write :: "u8 \<Rightarrow> mo \<Rightarrow> mo" where
  "MO_Flag5_Write v s = s\<lparr>mo_flag := (mo_flag s)(5 := v)\<rparr>"

definition MO_Flag6_Read :: "mo \<Rightarrow> u8" where
  "MO_Flag6_Read s = mo_flag s 6"

definition MO_Flag6_Write :: "u8 \<Rightarrow> mo \<Rightarrow> mo" where
  "MO_Flag6_Write v s = s\<lparr>mo_flag := (mo_flag s)(6 := v)\<rparr>"

section \<open>The timed events of the drives\<close>

abbreviation "mo_cyc s \<equiv> s_cyc (d_sys (mo_dma s))"

definition with_queue :: "cycint \<Rightarrow> mo \<Rightarrow> mo" where
  "with_queue c s = s\<lparr>mo_dma := (mo_dma s)\<lparr>d_sys := (d_sys (mo_dma s))\<lparr>s_cyc := c\<rparr>\<rparr>\<rparr>"

lemma with_cyc_queue: "with_cyc f s = bnd (f (mo_cyc s)) (\<lambda>c. Inr (with_queue c s))"
  by (simp add: with_cyc_def with_queue_def)

lemma with_queue_simps [simp]:
  "mo_cyc (with_queue c s) = c" "modrv (with_queue c s) = modrv s" "dnum (with_queue c s) = dnum s"
  "delayed_drive (with_queue c s) = delayed_drive s" "delayed_compl (with_queue c s) = delayed_compl s"
  "delayed_attn (with_queue c s) = delayed_attn s" "mo_intmask (with_queue c s) = mo_intmask s"
  "intStat (d_sys (mo_dma (with_queue c s))) = intStat (d_sys (mo_dma s))"
  by (simp_all add: with_queue_def)

text \<open>A processor frequency and a delay whose product stays within 64 bits.\<close>

definition clocked :: "mo_env \<Rightarrow> bool" where
  "clocked E \<longleftrightarrow> 0 < sint (nCpuFreq (me_conf E))"

lemma clock_product:
  assumes "clocked E" "0 < sint u" "sint u < 2 ^ 31"
  shows "0 \<le> sint (u * scast (nCpuFreq (me_conf E)) :: i64)" "u * scast (nCpuFreq (me_conf E)) \<noteq> INT64_MAX"
proof -
  let ?f = "nCpuFreq (me_conf E)"
  have f: "0 < sint ?f" "sint ?f < 2 ^ 31" using assms(1) sint_lt [of ?f] by (simp_all add: clocked_def)
  have b: "0 < sint u * sint ?f" using assms(2) f(1) by simp
  have c: "sint u * sint ?f < 2 ^ 31 * 2 ^ 31" using assms(2,3) f by (intro mult_strict_mono) simp_all
  have "sint (u * scast ?f :: i64) = signed_take_bit 63 (sint u * sint ?f)"
    by (simp add: sint_word_ariths signed_take_bit_mult sint_up_scast is_up)
  also have "\<dots> = sint u * sint ?f" using b c by (intro signed_take_bit_int_eq_self) simp_all
  finally have e: "sint (u * scast ?f :: i64) = sint u * sint ?f" .
  then show "0 \<le> sint (u * scast ?f :: i64)" using b by simp
  show "u * scast ?f \<noteq> INT64_MAX"
  proof
    assume "u * scast ?f = INT64_MAX"
    then have "sint u * sint ?f = sint INT64_MAX" using e by simp
    then show False using c by simp
  qed
qed

lemma timer_arms:
  assumes "cyc_ok (mo_cyc s)" "clocked E" "0 < sint us" "sint us < 2 ^ 31" "0 < sint usreal" "sint usreal < 2 ^ 31"
    "0 < h" "h < MAX_INTERRUPTS"
  shows "\<exists>c. mo_timer E us usreal h s = Inr (with_queue c s) \<and> cyc_ok c \<and> deadline c h \<noteq> None \<and>
    (\<forall>i. i \<noteq> h \<longrightarrow> deadline c i = deadline (mo_cyc s) i)"
proof -
  define u where "u = (if bRealtime (me_conf E) \<and> 0 < sint usreal then usreal else us)"
  have "0 < sint u" "sint u < 2 ^ 31" using assms(3-6) by (simp_all add: u_def)
  note k = clock_product [OF assms(2) this]
  have "\<exists>c d. CycInt_AddRelativeInterruptCycles (u * scast (nCpuFreq (me_conf E))) h (mo_cyc s) = Inr c \<and> cyc_ok c \<and>
    deadline c = (deadline (mo_cyc s))(h \<mapsto> d)"
    using AddCycles_arms [OF assms(1,7,8) k(1)] AddCycles_idle [OF assms(1) _ assms(7,8) k] by fastforce
  then show ?thesis
    by (auto simp: mo_timer_def with_cyc_queue CycInt_AddRelativeInterruptUsCycles_def u_def [symmetric])
qed

section \<open>Signals\<close>

definition signalled :: "bool \<Rightarrow> bool \<Rightarrow> modrive \<Rightarrow> modrive" where
  "signalled c a d = d\<lparr>md_complete := md_complete d \<or> c, md_attn := md_attn d \<or> a, md_seeking := False\<rparr>"

lemma mo_irq_simps [simp]:
  "mo_cyc (mo_irq b s) = mo_cyc s" "modrv (mo_irq b s) = modrv s" "dnum (mo_irq b s) = dnum s"
  "delayed_drive (mo_irq b s) = delayed_drive s" "delayed_compl (mo_irq b s) = delayed_compl s"
  "delayed_attn (mo_irq b s) = delayed_attn s" "mo_intmask (mo_irq b s) = mo_intmask s"
  by (simp_all add: mo_irq_def dma_irq_def set_interrupt_def)

lemma upd_drv_simps [simp]:
  "modrv (upd_drv i f s) = (modrv s)(i := f (modrv s i))" "dnum (upd_drv i f s) = dnum s" "mo_dma (upd_drv i f s) = mo_dma s"
  "delayed_drive (upd_drv i f s) = delayed_drive s" "delayed_compl (upd_drv i f s) = delayed_compl s"
  "delayed_attn (upd_drv i f s) = delayed_attn s" "mo_intmask (upd_drv i f s) = mo_intmask s"
  by (simp_all add: upd_drv_def)

lemma push_signals:
  assumes "i < MO_MAX_DRIVES"
  shows "\<exists>b. mo_push_signals c a (int i) s = Inr (if b then mo_irq True (upd_drv i (signalled c a) s) else upd_drv i (signalled c a) s) \<and>
    (i = dnum s \<and> c \<and> \<not> md_complete (modrv s i) \<and> mo_intmask s AND MOINT_CMD_COMPL \<noteq> 0 \<longrightarrow> b)"
proof -
  let ?d = "modrv s i"
  have d: "(if md_attn (if md_complete d then d else d\<lparr>md_complete := c\<rparr>) then if md_complete d then d else d\<lparr>md_complete := c\<rparr>
      else (if md_complete d then d else d\<lparr>md_complete := c\<rparr>)\<lparr>md_attn := a\<rparr>)\<lparr>md_seeking := False\<rparr> = signalled c a d" for d
    by (cases d) (simp add: signalled_def)
  have u: "upd_drv i (\<lambda>_. signalled c a ?d) s = upd_drv i (signalled c a) s" by (simp add: upd_drv_def)
  have "mo_push_signals c a (int i) s = Inr (if
      (if md_complete ?d then False else c) \<and> int i = int (dnum s) \<and> mo_intmask s AND MOINT_CMD_COMPL \<noteq> 0 \<or>
      (if md_attn ?d then False else a) \<and> int i = int (dnum s) \<and> mo_intmask s AND MOINT_ATTN \<noteq> 0
    then mo_irq True (upd_drv i (signalled c a) s) else upd_drv i (signalled c a) s)"
    by (simp only: mo_push_signals_def of_nat_less_0_iff if_False nat_int arr_get_in [OF assms] bnd_Inr Let_def d u)
  then show ?thesis by (intro exI conjI) (assumption, auto)
qed

section \<open>Commands are answered\<close>

text \<open>What a command leaves as it was before it calls \<^verbatim>\<open>mo_set_signals\<close>: the pending signal and the other drive.\<close>

definition before_signal :: "mo \<Rightarrow> mo \<Rightarrow> bool" where
  "before_signal s t \<longleftrightarrow> dnum t = dnum s \<and> dnum s < MO_MAX_DRIVES \<and> cyc_ok (mo_cyc t) \<and> mo_intmask t = mo_intmask s \<and>
     delayed_drive t = delayed_drive s \<and> delayed_drive s < 2 \<and> delayed_compl t = delayed_compl s \<and> delayed_attn t = delayed_attn s \<and>
     \<not> md_complete (drv t) \<and> (\<forall>i. i \<noteq> dnum s \<longrightarrow> md_complete (modrv t i) = md_complete (modrv s i))"

text \<open>
  A command that will be answered: its signal is pending, the timer armed. A signal that was pending for the
  other drive has been delivered.
\<close>

definition answer_due :: "mo \<Rightarrow> mo \<Rightarrow> bool" where
  "answer_due s t \<longleftrightarrow> dnum t = dnum s \<and> dnum s < MO_MAX_DRIVES \<and> cyc_ok (mo_cyc t) \<and> mo_intmask t = mo_intmask s \<and>
     delayed_drive t = int (dnum s) \<and> delayed_compl t \<and> \<not> md_complete (drv t) \<and> deadline (mo_cyc t) INTERRUPT_MO \<noteq> None \<and>
     (0 \<le> delayed_drive s \<and> delayed_drive s \<noteq> int (dnum s) \<and> delayed_compl s \<longrightarrow> md_complete (modrv t (nat (delayed_drive s))))"

lemma before_upd [intro]:
  "before_signal s t \<Longrightarrow> (\<And>d. md_complete (f d) = md_complete d) \<Longrightarrow> i = dnum t \<Longrightarrow> before_signal s (upd_drv i f t)"
  by (auto simp: before_signal_def)

lemma set_signals_due:
  assumes "before_signal s t" "clocked E" "0 < k" "k < 2 ^ 31"
  shows "returns (answer_due s) (mo_set_signals E True a k t)"
proof -
  have arm: "returns (answer_due s) (mo_timer E (word_of_int k) CMD_DELAY INTERRUPT_MO
      (u\<lparr>delayed_drive := int (dnum u), delayed_compl := True, delayed_attn := a\<rparr>))"
    if u: "dnum u = dnum s" "cyc_ok (mo_cyc u)" "mo_intmask u = mo_intmask s" "\<not> md_complete (drv u)"
      "0 \<le> delayed_drive s \<and> delayed_drive s \<noteq> int (dnum s) \<and> delayed_compl s \<longrightarrow> md_complete (modrv u (nat (delayed_drive s)))" for u
  proof -
    let ?u = "u\<lparr>delayed_drive := int (dnum u), delayed_compl := True, delayed_attn := a\<rparr>"
    have k: "sint (word_of_int k :: i64) = k" using assms(3,4) by (subst sint_sbintrunc') (simp add: signed_take_bit_int_eq_self)
    obtain c where "mo_timer E (word_of_int k) CMD_DELAY INTERRUPT_MO ?u = Inr (with_queue c ?u)" "cyc_ok c" "deadline c INTERRUPT_MO \<noteq> None"
      using timer_arms [of ?u E "word_of_int k" CMD_DELAY INTERRUPT_MO] u(2) assms(2-4) by (auto simp: k)
    then show ?thesis using u assms(1) by (simp add: answer_due_def before_signal_def)
  qed
  show ?thesis
  proof (cases "0 \<le> delayed_drive t \<and> delayed_drive t \<noteq> int (dnum t)")
    case True
    define i where "i = nat (delayed_drive t)"
    have i: "delayed_drive t = int i" "i < MO_MAX_DRIVES" "i \<noteq> dnum t" using True assms(1) by (auto simp: i_def before_signal_def)
    obtain b where p: "mo_push_signals (delayed_compl t) (delayed_attn t) (int i) t =
        Inr (if b then mo_irq True (upd_drv i (signalled (delayed_compl t) (delayed_attn t)) t) else upd_drv i (signalled (delayed_compl t) (delayed_attn t)) t)"
      using push_signals [OF i(2)] by blast
    define t1 where "t1 = (if b then mo_irq True (upd_drv i (signalled (delayed_compl t) (delayed_attn t)) t) else upd_drv i (signalled (delayed_compl t) (delayed_attn t)) t)"
    have t1: "mo_cyc t1 = mo_cyc t" "dnum t1 = dnum t" "mo_intmask t1 = mo_intmask t"
      "modrv t1 = (modrv t)(i := signalled (delayed_compl t) (delayed_attn t) (modrv t i))" by (simp_all add: t1_def)
    obtain c where c: "CycInt_RemovePendingInterrupt INTERRUPT_MO (mo_cyc t1) = Inr c" "cyc_ok c"
      using Remove_disarms [of "mo_cyc t1" INTERRUPT_MO] assms(1) t1(1) by (auto simp: before_signal_def)
    have "mo_set_signals E True a k t = mo_timer E (word_of_int k) CMD_DELAY INTERRUPT_MO
        ((with_queue c t1)\<lparr>delayed_drive := int (dnum t1), delayed_compl := True, delayed_attn := a\<rparr>)"
      using True assms(3) p c(1) i by (simp add: mo_set_signals_def t1_def [symmetric] with_cyc_queue)
    moreover have "returns (answer_due s) (mo_timer E (word_of_int k) CMD_DELAY INTERRUPT_MO
        ((with_queue c t1)\<lparr>delayed_drive := int (dnum (with_queue c t1)), delayed_compl := True, delayed_attn := a\<rparr>))"
      using assms(1) i c(2) by (intro arm) (auto simp: t1 before_signal_def signalled_def)
    ultimately show ?thesis by simp
  next
    case False
    then have "mo_set_signals E True a k t = mo_timer E (word_of_int k) CMD_DELAY INTERRUPT_MO
        (t\<lparr>delayed_drive := int (dnum t), delayed_compl := True, delayed_attn := a\<rparr>)"
      unfolding mo_set_signals_def if_P [OF assms(3)] if_not_P [OF False] by simp
    moreover have "returns (answer_due s) \<dots>" using False assms(1) by (intro arm) (auto simp: before_signal_def)
    ultimately show ?thesis by simp
  qed
qed

lemma unless_empty_due:
  assumes "before_signal s t" "clocked E" "returns (answer_due s) (f t)"
  shows "returns (answer_due s) (unless_empty E f t)"
proof (cases "md_inserted (drv t)")
  case True
  then show ?thesis using assms(3) by (simp add: unless_empty_def mo_drive_empty_def)
next
  case False
  have "returns (answer_due s) (mo_set_signals E True True 40 (upd_sel (\<lambda>d. d\<lparr>md_dstat := md_dstat d OR DS_EMPTY\<rparr>) t))"
    by (intro set_signals_due before_upd assms(1,2)) simp_all
  then show ?thesis using False by (auto simp: unless_empty_def mo_drive_empty_def returns_iff)
qed

lemma protected_due:
  assumes "before_signal s t" "clocked E" "0 < k" "k < 2 ^ 31"
  shows "returns (answer_due s) (bnd (mo_protected E t) (\<lambda>(p, t2). if p then Inr t2 else mo_set_signals E True False k t2))"
proof (cases "md_protected (drv t) \<and> (md_head (drv t) = ERASE_HEAD \<or> md_head (drv t) = WRITE_HEAD)")
  case True
  have "returns (answer_due s) (mo_set_signals E True True 40 (upd_sel (\<lambda>d. d\<lparr>md_dstat := md_dstat d OR DS_WP, md_head := NO_HEAD\<rparr>) t))"
    by (intro set_signals_due before_upd assms(1,2)) simp_all
  then show ?thesis using True by (auto simp: mo_protected_def returns_iff)
next
  case False
  then have "mo_protected E t = Inr (False, t)" unfolding mo_protected_def by (simp only: if_False)
  then show ?thesis using set_signals_due [OF assms] by simp
qed

text \<open>The codes at which mo.c stops the emulator.\<close>

definition unsupported :: "u16 \<Rightarrow> bool" where
  "unsupported c \<longleftrightarrow> c AND 0xF000 = 0xB000 \<or> c = 0x3000 \<or> c = 0x5400 \<or> c = 0x5500"

lemma sint_nonneg:
  assumes "w < (0x80000000 :: u32)"
  shows "0 \<le> sint w"
proof -
  have "uint w < 2 ^ 31" using assms by (simp add: word_less_def)
  then have "sint w = uint w" unfolding sint_uint by (intro signed_take_bit_int_eq_self) (simp_all add: order_trans [OF _ uint_ge_0])
  then show ?thesis by simp
qed

lemma seek_due:
  assumes "before_signal s t" "clocked E" "md_head_pos (drv t) < 0x80000000"
  shows "returns (answer_due s) (mo_seek E c t)"
proof -
  let ?a = "md_head_pos (drv t)" and ?b = "(md_ho_head_pos (drv t) AND 0xF000) OR (ucast c AND 0x0FFF)"
  have "?b AND 0xFFFF = ?b" by (simp only: bit.conj_disj_distrib2 and.assoc) simp
  then have b: "?b \<le> 0xFFFF" by (metis word_and_le1)
  define w where "w = (if ?b < ?a then ?a - ?b else ?b - ?a)"
  have w: "w < 0x80000000" using b assms(3) by (auto simp: w_def word_less_nat_alt word_le_nat_alt unat_sub not_less)
  then have w: "0 \<le> sint w" by (rule sint_nonneg)
  let ?t = "upd_sel (\<lambda>d. d\<lparr>md_seeking := True, md_head_pos := (md_ho_head_pos d AND 0xF000) OR (ucast c AND 0x0FFF)\<rparr>) t"
  have e: "md_head_pos (drv ?t) = ?b" by simp
  have "returns (answer_due s) (mo_set_signals E True False ((if 95000 < sint w then 95000 else sint w) + 5000) ?t)"
    using w by (intro set_signals_due before_upd assms(1,2)) simp_all
  then show ?thesis unfolding mo_seek_def
    by (intro unless_empty_due assms) (simp only: Let_def e w_def [symmetric])
qed

lemma start_spiraling_due:
  assumes "before_signal s t" "clocked E"
  shows "returns (answer_due s) (mo_start_spiraling E t)"
  unfolding mo_start_spiraling_def
proof (intro unless_empty_due assms, goal_cases)
  case 1
  show ?case
  proof (cases "md_spinning (drv t)")
    case False
    then show ?thesis by (simp, intro set_signals_due before_upd assms) simp_all
  next
    case True
    obtain c where "mo_timer E SECTOR_IO_DELAY 400 INTERRUPT_MO_IO t = Inr (with_queue c t)" "cyc_ok c"
      using timer_arms [of t E SECTOR_IO_DELAY 400 INTERRUPT_MO_IO] assms by (auto simp: before_signal_def)
    moreover from this have "before_signal s (with_queue c t)" using assms(1) unfolding before_signal_def by auto
    ultimately obtain u where u: "(if \<not> md_spiraling (modrv t 0) \<and> \<not> md_spiraling (modrv t 1)
          then mo_timer E SECTOR_IO_DELAY 400 INTERRUPT_MO_IO t else Inr t) = Inr u" "before_signal s u"
      using assms(1) by (cases "\<not> md_spiraling (modrv t 0) \<and> \<not> md_spiraling (modrv t 1)") auto
    have "returns (answer_due s) (mo_set_signals E True False 40 (upd_sel (\<lambda>d. d\<lparr>md_spiraling := True\<rparr>) u))"
      by (intro set_signals_due before_upd u(2) assms(2)) simp_all
    then show ?thesis using True u(1) by simp
  qed
qed

lemma eject_due:
  assumes "before_signal s t" "clocked E"
  shows "returns (answer_due s) (mo_eject_disk E (- 1) t)"
proof -
  have e: "returns (answer_due s) (eject_drive (dnum t) u)" if "answer_due s u" for u
    using that assms(1) by (auto simp: eject_drive_def answer_due_def before_signal_def)
  have "returns (answer_due s) (mo_set_signals E True False 40 t)" by (intro set_signals_due assms) simp_all
  then have "returns (answer_due s) (bnd (mo_set_signals E True False 40 t) (eject_drive (dnum t)))"
    using e by (auto simp: returns_iff)
  then show ?thesis unfolding mo_eject_disk_def by (simp, intro unless_empty_due assms) simp
qed

lemma drive_cmd_due:
  assumes "md_connected (drv s)" "dnum s < MO_MAX_DRIVES" "cyc_ok (mo_cyc s)" "delayed_drive s < 2" "clocked E"
    "\<not> unsupported (mo_command s)" "md_head_pos (drv s) < 0x80000000"
  shows "returns (answer_due s) (mo_drive_cmd E s)"
proof -
  define t where "t = upd_sel (\<lambda>d. d\<lparr>md_complete := False\<rparr>) s"
  have t: "before_signal s t" "md_head_pos (drv t) < 0x80000000" using assms by (simp_all add: t_def before_signal_def)
  note due = set_signals_due [OF before_upd [OF t(1)] assms(5)] set_signals_due [OF t(1) assms(5)]
  note cmds = seek_due [OF t(1) assms(5) t(2)] start_spiraling_due [OF t(1) assms(5)] eject_due [OF t(1) assms(5)]
  have sel: "returns (answer_due s) (mo_select_head E h t)" for h
    unfolding mo_select_head_def by (intro unless_empty_due protected_due before_upd t(1) assms(5)) simp_all
  have jump: "returns (answer_due s) (mo_jump_head E c t)" for c
    unfolding mo_jump_head_def Let_def by (intro unless_empty_due protected_due before_upd t(1) assms(5)) simp_all
  have hos: "returns (answer_due s) (mo_high_order_seek E c t)" for c
    unfolding mo_high_order_seek_def by (intro unless_empty_due t(1) assms(5)) (simp add: due)
  have status: "returns (answer_due s) (mo_return_drive_status E t)" "returns (answer_due s) (mo_return_track_addr E t)"
    "returns (answer_due s) (mo_return_extended_status E t)" "returns (answer_due s) (mo_return_hardware_status E t)"
    "returns (answer_due s) (mo_return_version E t)" "returns (answer_due s) (mo_reset_attn_status E t)"
    "returns (answer_due s) (mo_self_diagnostic E t)" "returns (answer_due s) (mo_unimplemented_cmd E t)"
    by (simp_all add: mo_return_drive_status_def mo_return_track_addr_def mo_return_extended_status_def mo_return_hardware_status_def
        mo_return_version_def mo_reset_attn_status_def mo_self_diagnostic_def mo_unimplemented_cmd_def due Let_def)
  have motor: "returns (answer_due s) (mo_recalibrate E t)" "returns (answer_due s) (mo_stop_spinning E t)"
    "returns (answer_due s) (mo_start_spinning E t)" "returns (answer_due s) (mo_stop_spiraling E t)"
    unfolding mo_recalibrate_def mo_stop_spinning_def mo_start_spinning_def mo_stop_spiraling_def
    by (intro unless_empty_due t(1) assms(5) due; simp)+
  show ?thesis
    unfolding mo_drive_cmd_def using assms(1,6) cmds sel jump hos status motor
    by (simp add: unsupported_def t_def [symmetric] Let_def del: upd_drv_simps)
qed

lemma answer_comes:
  assumes "answer_due s t"
  shows "returns (\<lambda>u. dnum u = dnum s \<and> md_complete (drv u) \<and> \<not> md_seeking (drv u) \<and>
    (mo_intmask s AND MOINT_CMD_COMPL \<noteq> 0 \<longrightarrow> bit (intStat (d_sys (mo_dma u))) 13) \<and>
    (0 \<le> delayed_drive s \<and> delayed_drive s \<noteq> int (dnum s) \<and> delayed_compl s \<longrightarrow> md_complete (modrv u (nat (delayed_drive s))))) (MO_InterruptHandler t)"
proof -
  have a: "dnum t = dnum s" "dnum s < MO_MAX_DRIVES" "cyc_ok (mo_cyc t)" "mo_intmask t = mo_intmask s" "delayed_drive t = int (dnum s)"
    "delayed_compl t" "\<not> md_complete (drv t)" using assms by (auto simp: answer_due_def)
  obtain c where c: "CycInt_AcknowledgeInterrupt (mo_cyc t) = Inr c" using Acknowledge_disarms [OF a(3)] by blast
  let ?t = "with_queue c t" and ?f = "signalled True (delayed_attn t)"
  obtain b where p: "mo_push_signals True (delayed_attn t) (int (dnum s)) ?t = Inr (if b then mo_irq True (upd_drv (dnum s) ?f ?t) else upd_drv (dnum s) ?f ?t)"
    "mo_intmask s AND MOINT_CMD_COMPL \<noteq> 0 \<longrightarrow> b"
    using push_signals [OF a(2), of True "delayed_attn t" ?t] a by auto
  have irq: "bit (intStat (d_sys (mo_dma (mo_irq True v)))) 13" for v
    by (simp add: mo_irq_def dma_irq_def set_interrupt_def bit_simps)
  show ?thesis using a c p assms irq
    by (auto simp: MO_InterruptHandler_def with_cyc_queue answer_due_def signalled_def)
qed

section \<open>A sector on its way to the disk and back\<close>

lemma upd_buf_simps [simp]:
  "ecc_buffer (mo_dma (upd_buf i f s)) = (ecc_buffer (mo_dma s))(i := f (ecc_buffer (mo_dma s) i))"
  "dma (mo_dma (upd_buf i f s)) = dma (mo_dma s)" "eccin (mo_dma (upd_buf i f s)) = eccin (mo_dma s)"
  "eccout (mo_dma (upd_buf i f s)) = eccout (mo_dma s)" "d_mem (mo_dma (upd_buf i f s)) = d_mem (mo_dma s)"
  "modma_buf_size (mo_dma (upd_buf i f s)) = modma_buf_size (mo_dma s)"
  "modma_buf_limit (mo_dma (upd_buf i f s)) = modma_buf_limit (mo_dma s)"
  "mo_ctrlr_csr2 (upd_buf i f s) = mo_ctrlr_csr2 s" "mo_host (upd_buf i f s) = mo_host s" "modrv (upd_buf i f s) = modrv s"
  "dnum (upd_buf i f s) = dnum s" "sector_counter (upd_buf i f s) = sector_counter s" "ecc_repeat (upd_buf i f s) = ecc_repeat s"
  "ecc_mode (upd_buf i f s) = ecc_mode s" "ecc_state (upd_buf i f s) = ecc_state s" "mo_ecc_cnt (upd_buf i f s) = mo_ecc_cnt s"
  by (simp_all add: upd_buf_def)

lemma toggle_simps [simp]:
  "eccin (mo_dma (ecc_toggle_buffer s)) = (if eccin (mo_dma s) = 0 then 1 else 0)"
  "eccout (mo_dma (ecc_toggle_buffer s)) = (if eccin (mo_dma s) = 0 then 0 else 1)"
  "ecc_buffer (mo_dma (ecc_toggle_buffer s)) = ecc_buffer (mo_dma s)" "dma (mo_dma (ecc_toggle_buffer s)) = dma (mo_dma s)"
  "d_mem (mo_dma (ecc_toggle_buffer s)) = d_mem (mo_dma s)"
  "modma_buf_size (mo_dma (ecc_toggle_buffer s)) = modma_buf_size (mo_dma s)"
  "modma_buf_limit (mo_dma (ecc_toggle_buffer s)) = modma_buf_limit (mo_dma s)"
  "mo_ctrlr_csr2 (ecc_toggle_buffer s) = mo_ctrlr_csr2 s" "mo_host (ecc_toggle_buffer s) = mo_host s"
  "modrv (ecc_toggle_buffer s) = modrv s" "dnum (ecc_toggle_buffer s) = dnum s"
  "sector_counter (ecc_toggle_buffer s) = sector_counter s" "ecc_repeat (ecc_toggle_buffer s) = ecc_repeat s"
  "ecc_mode (ecc_toggle_buffer s) = ecc_mode s" "ecc_state (ecc_toggle_buffer s) = ecc_state s"
  "mo_ecc_cnt (ecc_toggle_buffer s) = mo_ecc_cnt s"
  by (simp_all add: ecc_toggle_buffer_def)

lemma osp_simps [simp]:
  "mo_dma (osp_interrupt i s) = (if i AND mo_intmask s \<noteq> 0 then dma_irq INT_DISK True (mo_dma s) else mo_dma s)"
  "mo_ctrlr_csr2 (osp_interrupt i s) = mo_ctrlr_csr2 s" "mo_host (osp_interrupt i s) = mo_host s"
  "modrv (osp_interrupt i s) = modrv s" "dnum (osp_interrupt i s) = dnum s" "sector_counter (osp_interrupt i s) = sector_counter s"
  "ecc_repeat (osp_interrupt i s) = ecc_repeat s" "ecc_mode (osp_interrupt i s) = ecc_mode s"
  "ecc_state (osp_interrupt i s) = ecc_state s" "mo_ecc_cnt (osp_interrupt i s) = mo_ecc_cnt s"
  "fmt_mode (osp_interrupt i s) = fmt_mode s" "mo_intstatus (osp_interrupt i s) = mo_intstatus s OR i"
  by (simp_all add: osp_interrupt_def mo_irq_def Let_def)

lemma dma_irq_simps [simp]:
  "dma (dma_irq i b s) = dma s" "ecc_buffer (dma_irq i b s) = ecc_buffer s" "eccin (dma_irq i b s) = eccin s"
  "eccout (dma_irq i b s) = eccout s" "d_mem (dma_irq i b s) = d_mem s" "modma_buf_size (dma_irq i b s) = modma_buf_size s"
  "modma_buf_limit (dma_irq i b s) = modma_buf_limit s"
  by (simp_all add: dma_irq_def)

text \<open>The disk channel is set up for one transfer of \<open>n\<close> bytes at \<open>a\<close>.\<close>

definition disk_armed :: "u32 \<Rightarrow> nat \<Rightarrow> dmac \<Rightarrow> bool" where
  "disk_armed a n s \<longleftrightarrow> (let x = dma s CHANNEL_DISK in
     c_csr x AND DMA_ENABLE \<noteq> 0 \<and> c_csr x AND DMA_SUPDATE = 0 \<and> c_next x = a \<and> unat a + n = unat (c_limit x) \<and>
     c_limit x mod 16 = 0 \<and> a mod 4 = 0 \<and> modma_buf_size s = 0 \<and> modma_buf_limit s = 0)"

text \<open>The engine passes sectors through its coder; its buffers take turns.\<close>

definition coding :: "mo \<Rightarrow> bool" where
  "coding s \<longleftrightarrow> mo_ctrlr_csr2 s AND MOCSR2_ECC_DIS = 0 \<and> eccin (mo_dma s) \<noteq> eccout (mo_dma s) \<and>
     eccin (mo_dma s) < 2 \<and> eccout (mo_dma s) < 2"

lemma fill_sector:
  assumes "disk_armed a 1024 (mo_dma s)" "b_size (in_buf s) = 0" "b_limit (in_buf s) = SIZE_DATA"
    "mo_ctrlr_csr2 s AND MOCSR2_ECC_MODE = 0" "\<forall>j < 256. m_readable (me_bus E) (a + 4 * of_nat j)"
  shows "\<exists>t. ecc_filling E s = Inr t \<and> ecc_state t = ECC_STATE_ECCING \<and>
    (\<forall>k < 1024. b_data (in_buf t) k = d_mem (mo_dma s) (a + of_nat k)) \<and> b_limit (in_buf t) = SIZE_DATA \<and>
    mo_ctrlr_csr2 t = mo_ctrlr_csr2 s \<and> eccin (mo_dma t) = eccin (mo_dma s) \<and> eccout (mo_dma t) = eccout (mo_dma s) \<and>
    ecc_mode t = ecc_mode s \<and> mo_host t = mo_host s \<and> modrv t = modrv s \<and> dnum t = dnum s \<and> sector_counter t = sector_counter s"
proof -
  define s1 where "s1 = upd_in (\<lambda>b. b\<lparr>b_limit := SIZE_DATA\<rparr>) s"
  define s2 where "s2 = s1\<lparr>old_size := b_size (in_buf s1)\<rparr>"
  have b2: "ecc_buffer (mo_dma s2) (eccin (mo_dma s)) = in_buf s" using assms(3) by (simp add: s2_def s1_def io_buffer.equality)
  have d2: "dma (mo_dma s2) = dma (mo_dma s)" "modma_buf_size (mo_dma s2) = modma_buf_size (mo_dma s)"
    "modma_buf_limit (mo_dma s2) = modma_buf_limit (mo_dma s)" "d_mem (mo_dma s2) = d_mem (mo_dma s)"
    "eccin (mo_dma s2) = eccin (mo_dma s)" "eccout (mo_dma s2) = eccout (mo_dma s)" by (simp_all add: s2_def s1_def)
  let ?x = "dma (mo_dma s2) CHANNEL_DISK"
  let ?bs = "get_bytes a 1024 (d_mem (mo_dma s))"
  have "\<exists>buf. dma_mo_read_memory (me_bus E) (mo_dma s2) =
    Inr (dma_irq 0x02000000 True (set_chan CHANNEL_DISK (channel_done CHANNEL_DISK ?x)
      ((ecc_filled (get_bytes (c_next ?x) (16 * 64) (d_mem (mo_dma s2))) (mo_dma s2))\<lparr>modma_buf_size := 0, modma_buf_limit := 0, modma_buf := buf\<rparr>)))"
    using assms by (intro mo_read_complete) (simp_all add: disk_armed_def Let_def d2 b2 misaligned_def)
  then obtain buf where r: "dma_mo_read_memory (me_bus E) (mo_dma s2) =
    Inr (dma_irq 0x02000000 True (set_chan CHANNEL_DISK (channel_done CHANNEL_DISK ?x)
      ((ecc_filled ?bs (mo_dma s2))\<lparr>modma_buf_size := 0, modma_buf_limit := 0, modma_buf := buf\<rparr>)))"
    using assms(1) by (auto simp: disk_armed_def Let_def d2)
  let ?d = "dma_irq 0x02000000 True (set_chan CHANNEL_DISK (channel_done CHANNEL_DISK ?x)
      ((ecc_filled ?bs (mo_dma s2))\<lparr>modma_buf_size := 0, modma_buf_limit := 0, modma_buf := buf\<rparr>))"
  have ef: "eccin (ecc_filled ?bs (mo_dma s2)) = eccin (mo_dma s)" "eccout (ecc_filled ?bs (mo_dma s2)) = eccout (mo_dma s)"
    "ecc_buffer (ecc_filled ?bs (mo_dma s2)) (eccin (mo_dma s)) =
      (in_buf s)\<lparr>b_data := buf_with 0 ?bs (b_data (in_buf s)), b_size := SIZE_DATA\<rparr>"
    using assms(2) b2 by (simp_all add: ecc_filled_def Let_def d2)
  define s3 where "s3 = s2\<lparr>mo_dma := ?d\<rparr>"
  have s3: "with_dma (dma_mo_read_memory (me_bus E)) s2 = Inr s3" by (simp add: with_dma_def r s3_def)
  have i3: "eccin (mo_dma s3) = eccin (mo_dma s)" "eccout (mo_dma s3) = eccout (mo_dma s)"
    "in_buf s3 = (in_buf s)\<lparr>b_data := buf_with 0 ?bs (b_data (in_buf s)), b_size := SIZE_DATA\<rparr>"
    by (simp_all add: s3_def set_chan_def ef)
  have o3: "old_size s3 = 0" using assms(2) by (simp add: s3_def s2_def s1_def)
  have "ecc_filling E s = Inr (s3\<lparr>ecc_state := ECC_STATE_ECCING\<rparr>)"
    using assms(2-4) s3 i3 o3 unfolding s2_def s1_def by (simp add: ecc_filling_def Let_def)
  then show ?thesis using i3 assms(3)
    by (auto simp: buf_with_def get_bytes_def) (simp_all add: s3_def s2_def s1_def)
qed

lemma encoded_cong: "(\<And>k. k < 1024 \<Longrightarrow> d k = e k) \<Longrightarrow> encoded d s = encoded e s"
proof -
  assume e: "\<And>k. k < 1024 \<Longrightarrow> d k = e k"
  have "d (32 * i + j) = e (32 * i + j)" if "i < 32" "j < 32" for i j using that by (intro e) simp
  then show ?thesis by (simp add: encoded_def)
qed

lemma encode_sector:
  assumes "coding s" "ecc_mode s = ECC_MODE_WRITE" "b_limit (in_buf s) = SIZE_DATA"
  shows "\<exists>t. ecc_eccing E s = Inr (True, t) \<and> ecc_state t = ECC_STATE_WAITING \<and> encoded (b_data (in_buf s)) (b_data (out_buf t)) \<and>
    b_limit (out_buf t) = SIZE_DISK \<and> mo_host t = mo_host s \<and> modrv t = modrv s \<and> dnum t = dnum s"
proof -
  obtain d where d: "rs_encode (b_data (in_buf s)) = Inr d" "encoded (b_data (in_buf s)) d" using rs_encode_encoded by blast
  define u where "u = ecc_toggle_buffer (upd_in (\<lambda>b. b\<lparr>b_data := d\<rparr>) (upd_in (\<lambda>b. b\<lparr>b_size := SIZE_DISK, b_limit := SIZE_DISK\<rparr>) s))"
  have u: "ecc_encode s = Inr u" using assms d(1) by (simp add: ecc_encode_def coding_def Let_def u_def)
  have o: "eccout (mo_dma u) = eccin (mo_dma s)" using assms(1) by (auto simp: coding_def u_def)
  have b: "b_data (out_buf u) = d" "b_limit (out_buf u) = SIZE_DISK" unfolding o by (simp_all add: u_def)
  have "ecc_eccing E s = Inr (True, if sector_counter u = 1 then osp_interrupt MOINT_ECC_DONE (u\<lparr>ecc_state := ECC_STATE_WAITING\<rparr>)
      else u\<lparr>ecc_state := ECC_STATE_WAITING\<rparr>)"
    using assms(1,2) u by (simp add: ecc_eccing_def coding_def Let_def)
  then show ?thesis using b d(2) by (auto simp: u_def)
qed

text \<open>The place of a sector in the image.\<close>

definition mo_offset :: "u32 \<Rightarrow> nat \<Rightarrow> bool" where
  "mo_offset sector_id k \<longleftrightarrow> (\<exists>n. get_logical_sector sector_id = Inr n \<and> k = unat (n * SIZE_DISK))"

lemma store_sector:
  assumes "md_dsk (drv s) = Some f" "f_update f" "mo_offset i k" "b_limit (out_buf s) = SIZE_DISK"
  shows "\<exists>t. mo_write_sector i s = Inr t \<and> b_size (out_buf t) = 0 \<and>
    mo_host t = File_Write (map (b_data (out_buf s)) [0 ..< 1296]) k f (mo_host s) \<and>
    take 1296 (drop k (file_content (f_name f) (mo_host t))) = map (b_data (out_buf s)) [0 ..< 1296]"
proof -
  obtain n where n: "get_logical_sector i = Inr n" "k = unat (n * SIZE_DISK)" using assms(3) by (auto simp: mo_offset_def)
  let ?h = "File_Write (map (b_data (out_buf s)) [0 ..< 1296]) k f (mo_host s)"
  have "take 1296 (drop k (file_content (f_name f) ?h)) = map (b_data (out_buf s)) [0 ..< 1296]"
    using assms(2) by (simp add: File_Write_def file_content_def [of _ "_\<lparr>fs_bytes := _\<rparr>"] Let_def min_def)
  moreover have "mo_write_sector i s = Inr (upd_out (\<lambda>b. b\<lparr>b_size := 0, b_limit := SIZE_DATA\<rparr>) (s\<lparr>mo_host := ?h\<rparr>))"
    using n assms(1,4) by (simp add: mo_write_sector_def mo_image_def)
  ultimately show ?thesis by simp
qed

lemma load_sector:
  assumes "md_dsk (drv s) = Some f" "mo_offset i k" "k + 1296 \<le> length (file_content (f_name f) (mo_host s))"
  shows "\<exists>t. mo_read_sector i s = Inr t \<and> b_size (in_buf t) = SIZE_DISK \<and>
    (\<forall>j < 1296. b_data (in_buf t) j = file_content (f_name f) (mo_host s) ! (k + j)) \<and>
    t = upd_in (\<lambda>b. b\<lparr>b_data := b_data (in_buf t), b_size := SIZE_DISK, b_limit := SIZE_DISK\<rparr>) s"
proof -
  obtain n where n: "get_logical_sector i = Inr n" "k = unat (n * SIZE_DISK)" using assms(2) by (auto simp: mo_offset_def)
  let ?bs = "File_Read (map (b_data (in_buf s)) [0 ..< 1296]) 1296 k f (mo_host s)"
  have lk: "min (length (file_content (f_name f) (mo_host s)) - k) 1296 = 1296" using assms(3) by simp
  have l: "length ?bs = 1296" "\<And>j. j < 1296 \<Longrightarrow> ?bs ! j = file_content (f_name f) (mo_host s) ! (k + j)"
    using assms(3) by (simp_all add: File_Read_def Let_def lk nth_append)
  have "mo_read_sector i s = Inr (upd_in (\<lambda>b. b\<lparr>b_data := buf_with 0 ?bs (b_data b), b_size := SIZE_DISK, b_limit := SIZE_DISK\<rparr>) s)"
    using n assms(1) by (simp add: mo_read_sector_def mo_image_def Let_def)
  then show ?thesis using l by (simp add: buf_with_def) (simp add: upd_buf_def)
qed

lemma decode_sector:
  assumes "coding s" "ecc_mode s = ECC_MODE_READ" "b_size (in_buf s) = SIZE_DISK" "encoded d c" "one_per_row c (b_data (in_buf s))"
  shows "\<exists>t. ecc_eccing E s = Inr (True, t) \<and> ecc_state t = ECC_STATE_DRAINING \<and>
    (\<forall>k < 1024. b_data (out_buf t) k = d k) \<and> b_size (out_buf t) = SIZE_DATA \<and> b_limit (out_buf t) = SIZE_DATA \<and>
    mo_ecc_cnt t = (if mo_ecc_cnt s = 0 then of_nat (card {r. r < 36 \<and> row_damaged c (b_data (in_buf s)) r}) else mo_ecc_cnt s) \<and>
    dma (mo_dma t) = dma (mo_dma s) \<and> d_mem (mo_dma t) = d_mem (mo_dma s) \<and> modma_buf_size (mo_dma t) = modma_buf_size (mo_dma s) \<and>
    modma_buf_limit (mo_dma t) = modma_buf_limit (mo_dma s) \<and> ecc_repeat t = ecc_repeat s \<and> mo_ctrlr_csr2 t = mo_ctrlr_csr2 s"
proof -
  let ?n = "card {r. r < 36 \<and> row_damaged c (b_data (in_buf s)) r}"
  obtain y where y: "rs_decode (b_data (in_buf s)) = Inr (int ?n, y)" "\<forall>k < 1024. y k = d k"
    using rs_decode_repairs [OF assms(4,5)] by blast
  define s1 where "s1 = upd_in (\<lambda>b. b\<lparr>b_data := y\<rparr>) (upd_in (\<lambda>b. b\<lparr>b_size := SIZE_DATA, b_limit := SIZE_DATA\<rparr>) s)"
  define u where "u = ecc_toggle_buffer (if mo_ecc_cnt s1 = 0 then s1\<lparr>mo_ecc_cnt := of_nat ?n\<rparr> else s1)"
  have u: "ecc_decode s = Inr u" using assms(1,3) y(1) by (simp add: ecc_decode_def coding_def Let_def u_def s1_def)
  have o: "eccout (mo_dma u) = eccin (mo_dma s)" using assms(1) by (auto simp: coding_def u_def s1_def)
  have b: "b_data (out_buf u) = y" "b_size (out_buf u) = SIZE_DATA" "b_limit (out_buf u) = SIZE_DATA"
    unfolding o by (simp_all add: u_def s1_def)
  have k: "mo_ecc_cnt u = (if mo_ecc_cnt s = 0 then of_nat ?n else mo_ecc_cnt s)" by (simp add: u_def s1_def)
  have "ecc_eccing E s = Inr (True, (if sector_counter u = 0 then osp_interrupt MOINT_ECC_DONE u else u)\<lparr>ecc_state := ECC_STATE_DRAINING\<rparr>)"
    using assms(1-3) u by (simp add: ecc_eccing_def coding_def Let_def u_def s1_def)
  moreover have "dma (mo_dma u) = dma (mo_dma s)" "d_mem (mo_dma u) = d_mem (mo_dma s)"
    "modma_buf_size (mo_dma u) = modma_buf_size (mo_dma s)" "modma_buf_limit (mo_dma u) = modma_buf_limit (mo_dma s)"
    "ecc_repeat u = ecc_repeat s" "mo_ctrlr_csr2 u = mo_ctrlr_csr2 s" by (simp_all add: u_def s1_def)
  ultimately show ?thesis using b y(2) k by simp
qed

lemma drain_sector:
  assumes "disk_armed a 1024 (mo_dma s)" "b_size (out_buf s) = SIZE_DATA" "b_limit (out_buf s) = SIZE_DATA"
    "\<forall>j < 256. m_writable (me_bus E) (a + 4 * of_nat j)" "\<not> ecc_repeat s" "mo_ctrlr_csr2 s AND MOCSR2_ECC_DIS = 0"
  shows "\<exists>t. ecc_draining E s = Inr (False, t) \<and> ecc_state t = ECC_STATE_DONE \<and>
    d_mem (mo_dma t) = put_bytes a (map (b_data (out_buf s)) [0 ..< 1024]) (d_mem (mo_dma s)) \<and> mo_ecc_cnt t = mo_ecc_cnt s \<and>
    bit (intStat (d_sys (mo_dma t))) 25"
proof -
  define s1 where "s1 = s\<lparr>old_size := b_size (out_buf s)\<rparr>"
  let ?x = "dma (mo_dma s1) CHANNEL_DISK"
  have bs: "ecc_bytes (out_buf s) = map (b_data (out_buf s)) [0 ..< 1024]" using assms(2,3) by (simp add: ecc_bytes_def)
  have "\<exists>buf. dma_mo_write_memory (me_bus E) (mo_dma s1) =
    Inr (dma_irq 0x02000000 True (set_chan CHANNEL_DISK (channel_done CHANNEL_DISK ?x)
      ((ecc_emptied (mo_dma s1))\<lparr>modma_buf_size := 0, modma_buf_limit := 0, modma_buf := buf,
        d_mem := put_bytes (c_next ?x) (ecc_bytes (out_buf s)) (d_mem (mo_dma s))\<rparr>)))"
    using assms mo_write_complete [of "mo_dma s1" 64 "me_bus E"]
    by (simp add: disk_armed_def Let_def misaligned_def s1_def)
  then obtain buf where w: "dma_mo_write_memory (me_bus E) (mo_dma s1) =
    Inr (dma_irq 0x02000000 True (set_chan CHANNEL_DISK (channel_done CHANNEL_DISK ?x)
      ((ecc_emptied (mo_dma s1))\<lparr>modma_buf_size := 0, modma_buf_limit := 0, modma_buf := buf,
        d_mem := put_bytes a (map (b_data (out_buf s)) [0 ..< 1024]) (d_mem (mo_dma s))\<rparr>)))"
    using assms(1) by (auto simp: disk_armed_def Let_def bs s1_def)
  define d where "d = dma_irq 0x02000000 True (set_chan CHANNEL_DISK (channel_done CHANNEL_DISK ?x)
      ((ecc_emptied (mo_dma s1))\<lparr>modma_buf_size := 0, modma_buf_limit := 0, modma_buf := buf,
        d_mem := put_bytes a (map (b_data (out_buf s)) [0 ..< 1024]) (d_mem (mo_dma s))\<rparr>))"
  have csr: "(x OR DMA_COMPLETE) AND DMA_SUPDATE = x AND DMA_SUPDATE" "((x OR DMA_COMPLETE) AND - 2) AND DMA_ENABLE = 0" for x
    by (simp_all add: bit.conj_disj_distrib2 and.assoc)
  have d: "b_size (ecc_buffer d (eccout d)) = 0" "c_csr (dma d CHANNEL_DISK) AND DMA_ENABLE = 0"
    "d_mem d = put_bytes a (map (b_data (out_buf s)) [0 ..< 1024]) (d_mem (mo_dma s))" "bit (intStat (d_sys d)) 25"
    using assms(1) by (simp_all add: d_def ecc_emptied_def set_chan_def channel_done_def disk_armed_def Let_def s1_def
        dma_irq_def set_interrupt_def bit_or_iff csr)
  have "with_dma (dma_mo_write_memory (me_bus E)) s1 = Inr (s1\<lparr>mo_dma := d\<rparr>)" by (simp add: with_dma_def w d_def)
  moreover have "with_dma (dma_mo_write_memory (me_bus E)) (s1\<lparr>mo_dma := d\<rparr>) = Inr (s1\<lparr>mo_dma := d\<rparr>)"
    using d(2) by (simp add: with_dma_def dma_mo_write_memory_def)
  moreover have "ecc_sequence_done E (s1\<lparr>mo_dma := d\<rparr>) = Inr ((s1\<lparr>mo_dma := d\<rparr>)\<lparr>ecc_state := ECC_STATE_DONE\<rparr>)"
    using assms(5,6) by (simp add: ecc_sequence_done_def Let_def s1_def)
  ultimately have "ecc_draining E s = Inr (False, (s1\<lparr>mo_dma := d\<rparr>)\<lparr>ecc_state := ECC_STATE_DONE\<rparr>)"
    using assms(2) d(1) by (simp add: ecc_draining_def Let_def s1_def)
  then show ?thesis using d(3,4) by (simp add: s1_def)
qed

text \<open>
  The calls for one sector on its way from memory to the image, and on its way back: the engine fills its buffer
  by the disk channel, encodes it, the formatter writes it; the formatter reads a sector, the engine decodes it and
  drains it into memory.
\<close>

definition store_run :: "mo_env \<Rightarrow> u32 \<Rightarrow> mo \<Rightarrow> mo res" where
  "store_run E i s = bnd (ecc_filling E s) (\<lambda>s1. bnd (ecc_eccing E s1) (\<lambda>(_, s2). mo_write_sector i s2))"

definition fetch_run :: "mo_env \<Rightarrow> u32 \<Rightarrow> mo \<Rightarrow> mo res" where
  "fetch_run E i s = bnd (mo_read_sector i s) (\<lambda>s1. bnd (ecc_eccing E s1) (\<lambda>(_, s2). bnd (ecc_draining E s2) (\<lambda>(_, s3). Inr s3)))"

definition sector_at :: "nat \<Rightarrow> FILE \<Rightarrow> hostfs \<Rightarrow> nat \<Rightarrow> u8" where
  "sector_at k f h = (\<lambda>j. file_content (f_name f) h ! (k + j))"

definition store_ready :: "mo_env \<Rightarrow> u32 \<Rightarrow> FILE \<Rightarrow> mo \<Rightarrow> bool" where
  "store_ready E a f s \<longleftrightarrow> coding s \<and> ecc_mode s = ECC_MODE_WRITE \<and> mo_ctrlr_csr2 s AND MOCSR2_ECC_MODE = 0 \<and>
     disk_armed a 1024 (mo_dma s) \<and> (\<forall>j < 256. m_readable (me_bus E) (a + 4 * of_nat j)) \<and>
     b_size (in_buf s) = 0 \<and> b_limit (in_buf s) = SIZE_DATA \<and> md_dsk (drv s) = Some f \<and> f_update f"

definition fetch_ready :: "mo_env \<Rightarrow> u32 \<Rightarrow> FILE \<Rightarrow> nat \<Rightarrow> mo \<Rightarrow> bool" where
  "fetch_ready E a f k s \<longleftrightarrow> coding s \<and> ecc_mode s = ECC_MODE_READ \<and> \<not> ecc_repeat s \<and>
     disk_armed a 1024 (mo_dma s) \<and> (\<forall>j < 256. m_writable (me_bus E) (a + 4 * of_nat j)) \<and>
     md_dsk (drv s) = Some f \<and> k + 1296 \<le> length (file_content (f_name f) (mo_host s))"

lemma encoded_cells:
  assumes "\<And>j. j < 1296 \<Longrightarrow> t j = s j" "encoded d s"
  shows "encoded d t"
proof -
  have c: "t (36 * i + j) = s (36 * i + j)" "t (j + 36 * i) = s (j + 36 * i)" if "i < 36" "j < 36" for i j
    using that by (intro assms(1), simp)+
  have "codeword (36 * i) 1 t = codeword (36 * i) 1 s" "codeword i 36 t = codeword i 36 s" if "i < 36" for i
    using that c by (intro codeword_cong; simp add: mult.commute)+
  then show ?thesis using assms(2) c(1) by (simp add: encoded_def)
qed

lemma store_encoded:
  assumes "store_ready E a f s" "mo_offset i k"
  shows "\<exists>w. store_run E i s = Inr w \<and>
    encoded (\<lambda>j. d_mem (mo_dma s) (a + of_nat j)) (sector_at k f (mo_host w)) \<and>
    k + 1296 \<le> length (file_content (f_name f) (mo_host w))"
proof -
  obtain s1 where s1: "ecc_filling E s = Inr s1" "\<forall>k < 1024. b_data (in_buf s1) k = d_mem (mo_dma s) (a + of_nat k)"
    "b_limit (in_buf s1) = SIZE_DATA" "mo_ctrlr_csr2 s1 = mo_ctrlr_csr2 s" "eccin (mo_dma s1) = eccin (mo_dma s)"
    "eccout (mo_dma s1) = eccout (mo_dma s)" "ecc_mode s1 = ecc_mode s" "mo_host s1 = mo_host s" "modrv s1 = modrv s" "dnum s1 = dnum s"
    using fill_sector [of a s E] assms(1) by (auto simp: store_ready_def)
  have "coding s1" "ecc_mode s1 = ECC_MODE_WRITE" using assms(1) s1(4-7) by (simp_all add: store_ready_def coding_def)
  then obtain s2 where s2: "ecc_eccing E s1 = Inr (True, s2)" "encoded (b_data (in_buf s1)) (b_data (out_buf s2))"
    "b_limit (out_buf s2) = SIZE_DISK" "modrv s2 = modrv s1" "dnum s2 = dnum s1"
    using encode_sector [of s1 E] s1(3) by auto
  have f: "md_dsk (drv s2) = Some f" "f_update f" using assms(1) s1(9,10) s2(4,5) by (simp_all add: store_ready_def)
  obtain w where w: "mo_write_sector i s2 = Inr w" "take 1296 (drop k (file_content (f_name f) (mo_host w))) = map (b_data (out_buf s2)) [0 ..< 1296]"
    using store_sector [OF f assms(2) s2(3)] by blast
  have l: "k + 1296 \<le> length (file_content (f_name f) (mo_host w))"
    using arg_cong [OF w(2), of length] by (simp add: min_def split: if_splits)
  have "sector_at k f (mo_host w) j = b_data (out_buf s2) j" if "j < 1296" for j
    using arg_cong [OF w(2), of "\<lambda>xs. xs ! j"] that l by (simp add: sector_at_def)
  moreover have "encoded (\<lambda>j. d_mem (mo_dma s) (a + of_nat j)) (b_data (out_buf s2))"
    using s2(2) encoded_cong [of "b_data (in_buf s1)"] s1(2) by simp
  ultimately have "encoded (\<lambda>j. d_mem (mo_dma s) (a + of_nat j)) (sector_at k f (mo_host w))"
    using encoded_cells by blast
  then show ?thesis using s1(1) s2(1) w(1) l by (simp add: store_run_def)
qed

lemma fetch_repairs:
  assumes "fetch_ready E b g k r" "mo_offset i k" "encoded d c" "one_per_row c (sector_at k g (mo_host r))"
  shows "\<exists>u. fetch_run E i r = Inr u \<and> get_bytes b 1024 (d_mem (mo_dma u)) = map d [0 ..< 1024] \<and> ecc_state u = ECC_STATE_DONE \<and>
    (mo_ecc_cnt r = 0 \<longrightarrow> mo_ecc_cnt u = of_nat (card {j. j < 36 \<and> row_damaged c (sector_at k g (mo_host r)) j})) \<and>
    bit (intStat (d_sys (mo_dma u))) 25"
proof -
  obtain r1 where r1: "mo_read_sector i r = Inr r1" "b_size (in_buf r1) = SIZE_DISK"
    "\<forall>j < 1296. b_data (in_buf r1) j = sector_at k g (mo_host r) j"
    "r1 = upd_in (\<lambda>x. x\<lparr>b_data := b_data (in_buf r1), b_size := SIZE_DISK, b_limit := SIZE_DISK\<rparr>) r"
    using load_sector [of r g i k] assms(1,2) unfolding fetch_ready_def sector_at_def by blast
  have f1: "mo_ctrlr_csr2 r1 = mo_ctrlr_csr2 r" "eccin (mo_dma r1) = eccin (mo_dma r)" "eccout (mo_dma r1) = eccout (mo_dma r)"
    "dma (mo_dma r1) = dma (mo_dma r)" "modma_buf_size (mo_dma r1) = modma_buf_size (mo_dma r)"
    "modma_buf_limit (mo_dma r1) = modma_buf_limit (mo_dma r)" "ecc_mode r1 = ecc_mode r" "ecc_repeat r1 = ecc_repeat r"
    "mo_ecc_cnt r1 = mo_ecc_cnt r"
    by (subst r1(4), simp)+
  have one: "one_per_row c (b_data (in_buf r1))" and dam: "row_damaged c (b_data (in_buf r1)) j = row_damaged c (sector_at k g (mo_host r)) j" if "j < 36" for j
  proof -
    have q: "b_data (in_buf r1) (36 * i + x) = sector_at k g (mo_host r) (36 * i + x)" if "i < 36" "x < 36" for i x
      using that r1(3) by simp
    show "one_per_row c (b_data (in_buf r1))" using assms(4) q by (fastforce simp: one_per_row_def)
    show "row_damaged c (b_data (in_buf r1)) j = row_damaged c (sector_at k g (mo_host r)) j"
      using that q by (auto simp: row_damaged_def)
  qed
  have rdy: "coding r1" "ecc_mode r1 = ECC_MODE_READ" using assms(1) by (simp_all add: fetch_ready_def coding_def f1)
  have card: "{j. j < 36 \<and> row_damaged c (b_data (in_buf r1)) j} = {j. j < 36 \<and> row_damaged c (sector_at k g (mo_host r)) j}"
    using dam by auto
  obtain r2 where r2: "ecc_eccing E r1 = Inr (True, r2)" "\<forall>k < 1024. b_data (out_buf r2) k = d k" "b_size (out_buf r2) = SIZE_DATA"
    "b_limit (out_buf r2) = SIZE_DATA" "dma (mo_dma r2) = dma (mo_dma r1)" "modma_buf_size (mo_dma r2) = modma_buf_size (mo_dma r1)"
    "modma_buf_limit (mo_dma r2) = modma_buf_limit (mo_dma r1)" "ecc_repeat r2 = ecc_repeat r1" "mo_ctrlr_csr2 r2 = mo_ctrlr_csr2 r1"
    "mo_ecc_cnt r2 = (if mo_ecc_cnt r1 = 0 then of_nat (card {j. j < 36 \<and> row_damaged c (sector_at k g (mo_host r)) j}) else mo_ecc_cnt r1)"
    using decode_sector [OF rdy r1(2) assms(3) one [of 0]] unfolding card by auto
  have "disk_armed b 1024 (mo_dma r2)" "\<not> ecc_repeat r2" "mo_ctrlr_csr2 r2 AND MOCSR2_ECC_DIS = 0"
    using assms(1) by (simp_all add: fetch_ready_def disk_armed_def coding_def r2(5-9) f1)
  then obtain u where u: "ecc_draining E r2 = Inr (False, u)" "ecc_state u = ECC_STATE_DONE"
    "d_mem (mo_dma u) = put_bytes b (map (b_data (out_buf r2)) [0 ..< 1024]) (d_mem (mo_dma r2))" "mo_ecc_cnt u = mo_ecc_cnt r2"
    "bit (intStat (d_sys (mo_dma u))) 25"
    using drain_sector [of b r2 E] r2(3,4) assms(1) by (auto simp: fetch_ready_def)
  have "get_bytes b 1024 (d_mem (mo_dma u)) = map d [0 ..< 1024]"
    using get_put_bytes [of "map (b_data (out_buf r2)) [0 ..< 1024]" b "d_mem (mo_dma r2)"] r2(2) u(3) by (simp del: upt_rec_numeral)
  then show ?thesis using r1(1) r2(1,10) u by (simp add: fetch_run_def f1)
qed

section \<open>Example states\<close>

definition mo_image_file :: FILE where
  "mo_image_file = \<lparr>f_name = ''od'', f_update = True\<rparr>"

text \<open>A connected drive with a writable disk, the read head over its first sector.\<close>

definition mo_drive :: modrive where
  "mo_drive = \<lparr>md_status = 0, md_dstat = 0, md_estat = 0, md_hstat = 0, md_head = READ_HEAD, md_head_pos = 4096, md_ho_head_pos = 4096,
     md_sec_offset = 0, md_dsk = Some mo_image_file, md_spinning = True, md_spiraling = True, md_seeking = False, md_attn = False,
     md_complete = True, md_protected = False, md_inserted = True, md_connected = True\<rparr>"

definition mo_state :: mo where
  "mo_state = \<lparr>mo_tracknuml = 0, mo_tracknumh = 0x10, mo_sector_num = 0, mo_intstatus = 0, mo_intmask = 0xFF, mo_ctrlr_csr2 = 0, mo_ctrlr_csr1 = 0,
     mo_csrl = 0, mo_csrh = 0, mo_err_stat = 0, mo_ecc_cnt = 0, mo_init = 0, mo_format = 0, mo_mark = 0, mo_flag = (\<lambda>_. 0), sector_counter = 1,
     modrv = (\<lambda>_. mo_drive), dnum = 0, sector_increment = 1, ecc_mode = ECC_MODE_WRITE, ecc_state = ECC_STATE_FILLING, fmt_mode = FMT_MODE_IDLE,
     write_timing = False, sector_timer = 0, ecc_repeat = False, old_size = 0, delayed_compl = False, delayed_attn = False, delayed_drive = - 1,
     mo_drives = (\<lambda>_. \<lparr>mc_szImageName = ''od'', mc_bDriveConnected = True, mc_bDiskInserted = True, mc_bWriteProtected = False\<rparr>),
     mo_host = \<lparr>fs_bytes = [''od'' \<mapsto> []], fs_readable = (\<lambda>_. True), fs_writable = (\<lambda>_. True)\<rparr>,
     mo_dma = dma_state\<lparr>ecc_buffer := (\<lambda>_. \<lparr>b_data = (\<lambda>_. 0), b_size = 0, b_limit = 1024\<rparr>)\<rparr>, mo_exits = []\<rparr>"

definition mo_machine :: mo_env where
  "mo_machine = \<lparr>me_conf = \<lparr>bRealtime = False, nCpuFreq = 25\<rparr>, me_bus = all_ram, me_machine = NEXT_CUBE030\<rparr>"

section \<open>Properties of the optical drive\<close>

text \<open>
  C11. A sector survives damage of its disk. Writing: the engine codes disk sectors in write mode, its input buffer is
  empty with room for 1024 bytes, the disk channel is armed, without chaining, for 1024 readable bytes at an aligned address, with no rest
  from before, the selected drive has an image open for update and the sector lies on the disk; the engine fills and encodes the buffer,
  the formatter writes it. Then the image is damaged in at most one byte of every row of the code. Reading the sector back, in any
  other state set up for it (read mode, no repetition pending, the channel armed likewise for 1024 writable bytes, the image open and long
  enough): when the formatter reads the sector, the engine decodes and drains it, every call returns, memory holds the bytes
  written, the engine is done, the register counts the damaged rows (if it was clear), the channel has interrupted. The steps
  are the bodies of the handlers; their timers are left out.
\<close>

theorem sector_survives_damage:
  assumes "store_ready E a f s" "mo_offset i k" "fetch_ready E b g k r"
    "\<forall>w. store_run E i s = Inr w \<longrightarrow> one_per_row (sector_at k f (mo_host w)) (sector_at k g (mo_host r))"
  shows "\<exists>w u. store_run E i s = Inr w \<and> fetch_run E i r = Inr u \<and>
    get_bytes b 1024 (d_mem (mo_dma u)) = get_bytes a 1024 (d_mem (mo_dma s)) \<and> ecc_state u = ECC_STATE_DONE \<and>
    (mo_ecc_cnt r = 0 \<longrightarrow>
      mo_ecc_cnt u = of_nat (card {j. j < 36 \<and> row_damaged (sector_at k f (mo_host w)) (sector_at k g (mo_host r)) j})) \<and>
    bit (intStat (d_sys (mo_dma u))) 25"
proof -
  obtain w where w: "store_run E i s = Inr w" "encoded (\<lambda>j. d_mem (mo_dma s) (a + of_nat j)) (sector_at k f (mo_host w))"
    using store_encoded [OF assms(1,2)] by blast
  show ?thesis using fetch_repairs [OF assms(3,2) w(2)] assms(4) w(1) unfolding get_bytes_def by blast
qed

lemma sector_survives_damage_witness:
  "\<exists>w h u. store_run mo_machine 0x100000 (mo_state\<lparr>mo_dma := (mo_dma mo_state)\<lparr>dma := (dma dma_state)(CHANNEL_DISK := armed_channel 0x4000 0x4400)\<rparr>\<rparr>) = Inr w \<and>
     h = File_Write [sector_at 0 mo_image_file (mo_host w) 40 + 1] 40 mo_image_file (mo_host w) \<and>
     fetch_run mo_machine 0x100000 (mo_state\<lparr>ecc_mode := ECC_MODE_READ, mo_host := h,
       mo_dma := (mo_dma mo_state)\<lparr>dma := (dma dma_state)(CHANNEL_DISK := armed_channel 0x8000 0x8400)\<rparr>\<rparr>) = Inr u \<and>
     get_bytes 0x8000 1024 (d_mem (mo_dma u)) = get_bytes 0x4000 1024 (\<lambda>a. ucast a)"
proof -
  let ?s = "mo_state\<lparr>mo_dma := (mo_dma mo_state)\<lparr>dma := (dma dma_state)(CHANNEL_DISK := armed_channel 0x4000 0x4400)\<rparr>\<rparr>"
  have s: "store_ready mo_machine 0x4000 mo_image_file ?s"
    by (simp add: store_ready_def coding_def disk_armed_def armed_channel_def idle_channel_def mo_state_def dma_state_def mo_machine_def
        all_ram_def mo_drive_def mo_image_file_def)
  have k: "mo_offset 0x100000 0" by (simp add: mo_offset_def get_logical_sector_def Let_def)
  obtain w where w: "store_run mo_machine 0x100000 ?s = Inr w" "0 + 1296 \<le> length (file_content (f_name mo_image_file) (mo_host w))"
    using store_encoded [OF s k] by blast
  let ?v = "sector_at 0 mo_image_file (mo_host w) 40 + 1"
  define h where "h = File_Write [?v] 40 mo_image_file (mo_host w)"
  have h: "file_content (f_name mo_image_file) h = (file_content (f_name mo_image_file) (mo_host w))[40 := ?v]"
    using w(2) by (simp add: h_def File_Write_def file_content_def [of _ "_\<lparr>fs_bytes := _\<rparr>"] mo_image_file_def Let_def upd_conv_take_nth_drop)
  let ?r = "mo_state\<lparr>ecc_mode := ECC_MODE_READ, mo_host := h,
    mo_dma := (mo_dma mo_state)\<lparr>dma := (dma dma_state)(CHANNEL_DISK := armed_channel 0x8000 0x8400)\<rparr>\<rparr>"
  have r: "fetch_ready mo_machine 0x8000 mo_image_file 0 ?r"
    using w(2) by (simp add: fetch_ready_def h) (simp add: coding_def disk_armed_def armed_channel_def idle_channel_def mo_state_def dma_state_def
        mo_machine_def all_ram_def mo_drive_def mo_image_file_def)
  have pos: "36 * m + c = 40 \<Longrightarrow> c < 36 \<Longrightarrow> c = 4" for m c :: nat by presburger
  have "one_per_row (sector_at 0 mo_image_file (mo_host w)) (sector_at 0 mo_image_file h)"
    using w(2) unfolding one_per_row_def sector_at_def h by (intro allI impI exI [of _ 4]) (auto simp: nth_list_update dest: pos)
  then show ?thesis using sector_survives_damage [OF s k r] w(1)
    by (auto simp: h_def [symmetric] mo_state_def dma_state_def)
qed

text \<open>
  C12. Drive commands are answered. Every command to a connected drive other than the four at which the emulator aborts
  (send data, general configuration, lock and unlock cartridge) returns with the command complete signal off and the timer of the drive signals
  armed, with or without a disk and whatever is pending for the other drive. When that timer's handler runs next, it
  turns the signal on, ends the seek and raises the disk interrupt if the mask enables it; a completion that was pending for the
  other drive has been delivered too. The event table must be consistent and the configured frequency positive, the selected drive one of the two, and the
  head position below 2^31 (as it is unless a jump backwards passed 0).
\<close>

theorem drive_commands_answered:
  assumes "md_connected (drv s)" "dnum s < MO_MAX_DRIVES" "cyc_ok (mo_cyc s)" "delayed_drive s < 2" "clocked E"
    "\<not> unsupported (mo_command s)" "md_head_pos (drv s) < 0x80000000"
  shows "\<exists>t u. mo_drive_cmd E s = Inr t \<and> \<not> md_complete (drv t) \<and> deadline (mo_cyc t) INTERRUPT_MO \<noteq> None \<and>
    MO_InterruptHandler t = Inr u \<and> md_complete (modrv u (dnum s)) \<and> \<not> md_seeking (modrv u (dnum s)) \<and>
    (mo_intmask s AND MOINT_CMD_COMPL \<noteq> 0 \<longrightarrow> bit (intStat (d_sys (mo_dma u))) 13) \<and>
    (0 \<le> delayed_drive s \<and> delayed_drive s \<noteq> int (dnum s) \<and> delayed_compl s \<longrightarrow> md_complete (modrv u (nat (delayed_drive s))))"
proof -
  obtain t where t: "mo_drive_cmd E s = Inr t" "answer_due s t" using drive_cmd_due [OF assms] by (auto simp: returns_iff)
  obtain u where u: "MO_InterruptHandler t = Inr u" "dnum u = dnum s" "md_complete (drv u)" "\<not> md_seeking (drv u)"
    "mo_intmask s AND MOINT_CMD_COMPL \<noteq> 0 \<longrightarrow> bit (intStat (d_sys (mo_dma u))) 13"
    "0 \<le> delayed_drive s \<and> delayed_drive s \<noteq> int (dnum s) \<and> delayed_compl s \<longrightarrow> md_complete (modrv u (nat (delayed_drive s)))"
    using answer_comes [OF t(2)] unfolding returns_iff by blast
  have "\<not> md_complete (drv t)" "deadline (mo_cyc t) INTERRUPT_MO \<noteq> None" using t(2) unfolding answer_due_def by blast+
  then show ?thesis using t(1) u by (intro exI [of _ t] exI [of _ u]) simp
qed

lemma drive_commands_answered_witness:
  "\<exists>t u. mo_drive_cmd mo_machine (mo_state\<lparr>mo_csrh := 0x59, delayed_drive := 1, delayed_compl := True\<rparr>) = Inr t \<and>
     MO_InterruptHandler t = Inr u \<and> md_complete (modrv u 0) \<and> md_complete (modrv u 1) \<and> bit (intStat (d_sys (mo_dma u))) 13"
proof -
  let ?s = "mo_state\<lparr>mo_csrh := 0x59, delayed_drive := 1, delayed_compl := True\<rparr>"
  have "cyc_ok (mo_cyc ?s)" using cyc_vbl_busy by (simp add: mo_state_def dma_state_def sys_state_def cyc_busy_def)
  then show ?thesis
    using drive_commands_answered [of ?s mo_machine] by (auto simp: mo_state_def mo_drive_def mo_machine_def clocked_def unsupported_def mo_command_def)
qed

end
