(* ===== verification/Spec2Isabelle.thy ===== *)
theory Spec2Isabelle
  imports Nd_System Kms Esp Mo
begin

text \<open>
  A model of the devices of the Previous emulator (a NeXT computer) that are the emulator's own code, and their
  correctness properties: the NeXTdimension board with its i860 processor (src/dimension), the timed events, system
  registers, clock chips, keyboard and mouse, DMA controller, SCSI controller and disks, and the optical drives with their storage processor and error-correcting code (src).

  \<^bold>\<open>Parts and how they meet.\<close> The board carries an i860 with its own memory, video memory, boot EEPROM, RAMDAC and custom
  chips; the emulated m68k reaches the same memory and devices over the NeXTbus and starts, stops and interrupts the
  i860. On the host side every device waits for its time in one table of timed events and reports to the m68k through two words
  of the system registers, interrupt status and mask. Keyboard and mouse, the hardware clock and the clock chip behind the second system
  control register work on that shared state, so their records contain it. The DMA controller moves bytes between memory and the buffers of its
  devices and reports through the same interrupt words. The SCSI controller sits between the channel and the disk targets, which it meets
  only by the bus operations select, command, data byte, status, message. The optical storage processor takes sectors from the
  passing disk, repairs them and drains them through its channel, and the other way round; its drives answer commands by delayed signals.

  \<^bold>\<open>Theories of the board, in import order.\<close>

  \<^item> \<open>Nd_Prelude\<close>: word types, the result type of fallible code and its combinators, array access
    with bounds, bit facts.
  \<^item> \<open>Nd_Ramdac\<close> (src/ramdac.c), \<open>Nd_Devs\<close> (nd_devs.c, nd_vio.c, the interrupt part of
    nd_nbic.c), \<open>Nd_Mem\<close> (bank handlers of nd_mem.c, EEPROM of nd_rom.c): the devices. One
    definition per function of the C file, with the same name, which takes the state of its device
    as a record and returns it updated.
  \<^item> \<open>Nd_Board\<close>: the bank map of \<^verbatim>\<open>nd_memory_init\<close>, the dispatch of the macros of nd_mem.h
    and the accessors of dimension.c. \<open>Nd_Access\<close>: what an access of either processor in either byte
    order sees.
  \<^item> \<open>I860_State\<close> (i860.hpp), \<open>I860_Mmu\<close> (address translation, caches, memory access),
    \<open>I860_Int\<close>, \<open>I860_LoadStore\<close>, \<open>I860_Float\<close>, \<open>I860_Graphics\<close>, \<open>I860_Branch\<close>: the
    instructions of i860dec.cpp by unit, one definition per \<^verbatim>\<open>insn_\<close> function.
  \<^item> \<open>I860_Exec\<close>: decode tables, machine cycle, reset, messages and the two drivers (i860.cpp).
  \<^item> \<open>Nd_System\<close>: the steps of the two processors on the shared board and the reachable states.

  \<^bold>\<open>Theories of the host machine.\<close>

  \<^item> \<open>Cyc_Int\<close> (src/cycInt.c and the cycle counting of m68000.h): the table of timed events and the loop over due
    events. Lemmas: the pending entry is the earliest one, arming, cancelling and passing of time act on the deadlines as on a finite map.
  \<^item> \<open>Rtc_Nvram\<close> (src/rtcnvram.c): both clock chips as state machines of one serial interface, and the direct access that
    skips it. Lemmas: the two ways agree, bursts and clock settings read back, no access of the new chip leaves its memory.
  \<^item> \<open>Sys_Reg\<close> (src/sysReg.c): control registers, interrupt status, mask and level, hardware clock, event counter.
  \<^item> \<open>Kms\<close> (src/kms.c): the keyboard, mouse and sound box: status words, commands, key events, mouse steps.
  \<^item> \<open>Scsi_Disk\<close> (src/scsi.c, file access of src/file.c): image insertion and ejection, the disk targets with all their commands, the
    sector buffer, shadow blocks, geometry. The image files are a finite map from names to bytes.
  \<^item> \<open>Dma\<close> (src/dma.c): channel registers, interrupts, the transfers of every channel, memory to memory copies. The two loops
    that the SCSI and the optical channel share are written once, over a record of the operations of the device (\<open>port\<close>). Lemmas: the
    loops end, and move the bytes of the device in order; a copy of any length of whole bursts is exact.
  \<^item> \<open>Esp\<close> (src/esp.c, the SCSI channel of src/dma.c): FIFO, two-rank command register, selection, transfers, resets, interrupts
    and timed events of the controller. Lemmas: the FIFO is a bounded queue, every access keeps the ranges of the registers, selection hands
    the FIFO to the target, blocks of a disk and memory reach each other through the channel.
  \<^item> \<open>Reed_Solomon\<close> (src/rs.c): encoder and decoder with the tables of the field. Lemmas: the encoder's output has the two roots,
    a byte changed in any one string or in each row is corrected.
  \<^item> \<open>Mo\<close> (src/mo.c, \<^verbatim>\<open>set_floppy_select\<close> of src/floppy.c): registers, formatter and error-correcting engine of the optical storage
    processor, the two drives with their commands, insertion and ejection, and the three timed events. The engine's state machine
    (\<^verbatim>\<open>ECC_IO_Handler\<close>) is one definition per state. Lemmas: a command ends in a pending signal that its timer delivers; a sector
    goes from memory through the encoder to the image and back through the decoder, whatever one byte per row was changed to.

  \<^bold>\<open>State.\<close> The C globals of the board are the record \<open>board\<close> (memories as functions from the
  index, the bank table, the device records), the class \<^verbatim>\<open>i860_cpu_device\<close> is the
  record \<open>i860\<close>, which holds the board in its field \<open>bd\<close>. The globals of the host devices are the records \<open>cycint\<close>, \<open>sysreg\<close>
  (with the event table in \<open>s_cyc\<close> and the clock chip), \<open>kms\<close> (with the system registers in \<open>k_sys\<close>), \<open>scsi\<close>, \<open>dmac\<close>
  (with the system registers in \<open>d_sys\<close>), \<open>esp\<close> (with bus and channels in \<open>e_scsi\<close> and \<open>e_dma\<close>) and \<open>mo\<close> (with the channels in \<open>mo_dma\<close>). A host array of bytes
  is a total function or a list; its size is checked by the access functions.

  \<^bold>\<open>Errors and undefined behaviour.\<close> A result is \<open>Inl\<close> of a \<open>fault\<close> or \<open>Inr\<close> of a value. The faults
  are what the C code leaves undefined or does not survive: an index outside an array, a null pointer, a shift by at least the
  width, a failed assertion, a call of \<^verbatim>\<open>abort\<close>, a recursion deeper than the bound. i860 traps and SCSI check conditions are not faults but states:
  they set the same bits and fields as in the code. Additions and left shifts of signed values wrap around.

  \<^bold>\<open>Build options and libraries.\<close> The options of i860cfg.h that change behaviour, and the functions of the SoftFloat
  library, are fields of the record \<open>env\<close>; the machine's configuration, the host clock and the calendar functions are arguments
  of the definitions that use them. Every theorem holds for all of them
  unless it says otherwise. Host rendering, threads and logging have no effect on the model's state.

  \<^bold>\<open>Bounds.\<close> A delayed branch executes the instruction in its delay slot by calling the
  decoder again, which the code does without limit when a branch sits in the delay slot of a branch; \<open>decode_exec\<close> has a
  bound and the fault \<open>StackOverflow\<close>; the bound changes nothing but
  that fault, and an instruction without delay slot needs bound 1. The loop over due events has fuel; the table has 22 entries and
  the handlers considered return within 66 rounds (\<open>due_events_drained\<close>).
  The loops over bursts of a channel have as fuel the bytes the device has left and two more: every round but the last takes or gives at least one
  byte, so the fuel is never used up (\<open>channel_transfers_end\<close>).
  All other loops are structural or have a decreasing measure and terminate.

  \<^bold>\<open>Interfaces.\<close> \<open>cell_mem\<close> (in \<open>Nd_Board\<close>) states the laws of a word-addressed memory that the byte order proofs use; it
  is interpreted by the longword accessors of the board. \<open>slot_executor\<close> (in \<open>I860_Branch\<close>)
  states what a branch needs from the executor of its delay slot; it is interpreted by the decoder for every bound.
  \<open>event_queue\<close> (in \<open>Cyc_Int\<close>) states what devices need from the event table, and is interpreted by the code's table. \<open>serial_chip\<close> and its extension
  \<open>serial_ram\<close> (in \<open>Rtc_Nvram\<close>) state the protocol of the serial interface and are interpreted by both chips. \<open>byte_source\<close> and \<open>byte_sink\<close> (in \<open>Dma\<close>) state what a
  transfer needs from a device; they are interpreted by the optical drive's correction buffer and by the SCSI bus with the floppy buffer. \<open>byte_fifo\<close> (in
  \<open>Esp\<close>) states the laws of a bounded queue and is interpreted by the controller's FIFO.

  \<^bold>\<open>What the lemmas show.\<close> For each operation: it keeps the invariant (\<open>board_ok\<close>, \<open>cpu_ok\<close>, \<open>cyc_ok\<close>, \<open>bus_ok\<close>, \<open>esp_ok\<close>), and no aligned
  access leaves an array. On top of that: memory and byte order, translation against the page tables, caches, integer and graphics
  results, pipelines, traps, interrupts, dual-instruction mode, reset, messages, and the invariant of all interleavings of the two
  processors; for the host devices what is listed with each theory above. The error properties state where the code departs from the
  manuals of the chips, or loses data or time.

  \<^bold>\<open>Not modelled.\<close> Disassembler and debugger (they print), display and host timers, loading of the ROM file (its content is a
  parameter), the self test of \<^verbatim>\<open>i860_cpu_device::init\<close>, host threads, the register window of the NBIC, the trace of SCSI blocks and the
  status bar, and the rest of the emulator: m68k cores and JIT (vendored and generated), DSP, drive logic of the
  floppy disk, serial ports, network, sound and printer beyond their DMA channels, and user interface. Selection with the command fetched by DMA and the
  target-mode commands of the SCSI controller, and four commands of the optical drives, end the emulator with \<^verbatim>\<open>abort\<close> and are faults.
\<close>

end
